(* ===== verification/Prelude.thy ===== *)
theory Prelude
  imports Main "HOL-Library.Word"
begin

text \<open>
  Shared vocabulary of the development: the machine integer types of the C sources, the
  faults a C program can run into, the state-and-fault monad that the stateful components
  are written in, and the generic facts on byte lists and words that their proofs share.

  Integers. \<open>uint8_t\<close>, \<open>uint16_t\<close>, \<open>uint32_t\<close>, \<open>size_t\<close> and \<open>unsigned int\<close> are words of
  their width, so that arithmetic wraps as it does in C. A signed \<open>int\<close> that only counts or
  indexes is an \<open>int\<close> or a \<open>nat\<close>. The modelled host is little-endian and LP64 (x86-64 Linux):
  a \<open>memcpy\<close> of a \<open>uint32_t\<close> copies its bytes lowest first.

  Faults. Where the C code would write or read outside an object, or follow a null or a freed
  pointer, or an \<open>int\<close> loop counter would overflow, the model stops with a value of type \<open>fault\<close>; a loop that has not ended when its fuel
  is spent stops with \<open>NoReturn\<close>; an \<open>assert\<close> that does not hold stops with \<open>AssertFailed\<close>, the use of a variable that has not been set with
  \<open>Uninitialised\<close>, \<open>free\<close> of what \<open>malloc\<close> did not return with \<open>InvalidFree\<close>. A theorem that an operation returns
  \<open>Inr\<close> therefore says that none of this happens and that its loops end.
\<close>

unbundle bit_operations_syntax

section \<open>Machine types\<close>

type_synonym u8 = "8 word"
type_synonym u16 = "16 word"
type_synonym u32 = "32 word"
type_synonym u64 = "64 word"
type_synonym bytes = "u8 list"

datatype fault = BufferOverflow | OutOfBounds | NullPointer | UseAfterFree | IntOverflow | NoReturn | AssertFailed | Uninitialised | InvalidFree

section \<open>State and fault monad\<close>

type_synonym ('s, 'a) machine = "'s \<Rightarrow> fault + 'a \<times> 's"

definition mret :: "'a \<Rightarrow> ('s, 'a) machine" where
  "mret a = (\<lambda>s. Inr (a, s))"

definition mbind :: "('s, 'a) machine \<Rightarrow> ('a \<Rightarrow> ('s, 'b) machine) \<Rightarrow> ('s, 'b) machine" where
  "mbind m f = (\<lambda>s. case m s of Inl e \<Rightarrow> Inl e | Inr (a, t) \<Rightarrow> f a t)"

definition mget :: "('s \<Rightarrow> 'a) \<Rightarrow> ('s, 'a) machine" where
  "mget g = (\<lambda>s. Inr (g s, s))"

definition mmod :: "('s \<Rightarrow> 's) \<Rightarrow> ('s, unit) machine" where
  "mmod g = (\<lambda>s. Inr ((), g s))"

definition mfail :: "fault \<Rightarrow> ('s, 'a) machine" where
  "mfail e = (\<lambda>s. Inl e)"

definition lift_fault :: "fault + 'a \<Rightarrow> ('s, 'a) machine" where
  "lift_fault x s = (case x of Inl e \<Rightarrow> Inl e | Inr a \<Rightarrow> Inr (a, s))"

named_theorems machine_simps \<open>unfolding a run of the state and fault monad\<close>

lemma mret_run [machine_simps]: "mret a s = Inr (a, s)"
  by (simp add: mret_def)

lemma mget_run [machine_simps]: "mget g s = Inr (g s, s)"
  by (simp add: mget_def)

lemma mmod_run [machine_simps]: "mmod g s = Inr ((), g s)"
  by (simp add: mmod_def)

lemma mfail_run [machine_simps]: "mfail e s = Inl e"
  by (simp add: mfail_def)

lemma mbind_run [machine_simps]:
  "mbind m f s = (case m s of Inl e \<Rightarrow> Inl e | Inr (a, t) \<Rightarrow> f a t)"
  by (simp add: mbind_def)

lemma mbind_Inr_iff:
  "mbind m f s = Inr (b, u) \<longleftrightarrow> (\<exists>a t. m s = Inr (a, t) \<and> f a t = Inr (b, u))"
  by (auto simp: mbind_def split: sum.splits)

lemma mbind_InrE [elim]:
  assumes "mbind m f s = Inr (b, u)"
  obtains a t where "m s = Inr (a, t)" and "f a t = Inr (b, u)"
  using assms by (auto simp: mbind_Inr_iff)

lemma mbind_assoc: "mbind (mbind m f) g = mbind m (\<lambda>a. mbind (f a) g)"
  by (rule ext) (auto simp: mbind_def split: sum.splits)

text \<open>
  \<open>mkeeps P m\<close>: the operation \<open>m\<close> never faults and keeps \<open>P\<close>. The rules let the
  preservation proofs follow the structure of the code.
\<close>

definition mkeeps :: "('s \<Rightarrow> bool) \<Rightarrow> ('s, 'a) machine \<Rightarrow> bool" where
  "mkeeps P m \<longleftrightarrow> (\<forall>s. P s \<longrightarrow> (\<exists>a t. m s = Inr (a, t) \<and> P t))"

named_theorems keeps_intros \<open>rules for \<open>mkeeps\<close>\<close>

lemma mkeepsI: "(\<And>s. P s \<Longrightarrow> \<exists>a t. m s = Inr (a, t) \<and> P t) \<Longrightarrow> mkeeps P m"
  by (simp add: mkeeps_def)

lemma mkeepsD: "mkeeps P m \<Longrightarrow> P s \<Longrightarrow> \<exists>a t. m s = Inr (a, t) \<and> P t"
  by (simp add: mkeeps_def)

lemma mkeeps_mret [keeps_intros]: "mkeeps P (mret a)"
  by (simp add: mkeeps_def mret_def)

lemma mkeeps_mget [keeps_intros]: "mkeeps P (mget g)"
  by (simp add: mkeeps_def mget_def)

lemma mkeeps_mmod [keeps_intros]: "(\<And>s. P s \<Longrightarrow> P (g s)) \<Longrightarrow> mkeeps P (mmod g)"
  by (simp add: mkeeps_def mmod_def)

lemma mkeeps_mbind [keeps_intros]:
  "mkeeps P m \<Longrightarrow> (\<And>a. mkeeps P (f a)) \<Longrightarrow> mkeeps P (mbind m f)"
  by (fastforce simp: mkeeps_def mbind_def)

lemma mkeeps_if [keeps_intros]:
  "(b \<Longrightarrow> mkeeps P m) \<Longrightarrow> (\<not> b \<Longrightarrow> mkeeps P n) \<Longrightarrow> mkeeps P (if b then m else n)"
  by simp

lemma mkeeps_option [keeps_intros]:
  "mkeeps P m \<Longrightarrow> (\<And>x. mkeeps P (f x)) \<Longrightarrow> mkeeps P (case z of None \<Rightarrow> m | Some x \<Rightarrow> f x)"
  by (cases z) auto

text \<open>
  \<open>mspec P m Q\<close>: started in a state with \<open>P\<close>, the operation \<open>m\<close> does not fault and ends with a result
  and a state in \<open>Q\<close>.
\<close>

definition mspec :: "('s \<Rightarrow> bool) \<Rightarrow> ('s, 'a) machine \<Rightarrow> ('a \<Rightarrow> 's \<Rightarrow> bool) \<Rightarrow> bool" where
  "mspec P m Q \<longleftrightarrow> (\<forall>s. P s \<longrightarrow> (\<exists>a t. m s = Inr (a, t) \<and> Q a t))"

lemma mspecI: "(\<And>s. P s \<Longrightarrow> \<exists>a t. m s = Inr (a, t) \<and> Q a t) \<Longrightarrow> mspec P m Q"
  by (simp add: mspec_def)

lemma mspecD: "mspec P m Q \<Longrightarrow> P s \<Longrightarrow> \<exists>a t. m s = Inr (a, t) \<and> Q a t"
  by (simp add: mspec_def)

lemma mspec_mbind: "mspec P m R \<Longrightarrow> (\<And>a. mspec (R a) (f a) Q) \<Longrightarrow> mspec P (mbind m f) Q"
  by (fastforce simp: mspec_def mbind_def)

lemma mspec_mret: "(\<And>s. P s \<Longrightarrow> Q a s) \<Longrightarrow> mspec P (mret a) Q"
  by (simp add: mspec_def mret_def)

lemma mspec_mget: "(\<And>s. P s \<Longrightarrow> Q (g s) s) \<Longrightarrow> mspec P (mget g) Q"
  by (simp add: mspec_def mget_def)

lemma mspec_mmod: "(\<And>s. P s \<Longrightarrow> Q () (g s)) \<Longrightarrow> mspec P (mmod g) Q"
  by (simp add: mspec_def mmod_def)

lemma mspec_if: "(b \<Longrightarrow> mspec P m Q) \<Longrightarrow> (\<not> b \<Longrightarrow> mspec P n Q) \<Longrightarrow> mspec P (if b then m else n) Q"
  by simp

lemma mspec_weaken: "mspec P m Q \<Longrightarrow> (\<And>s. P' s \<Longrightarrow> P s) \<Longrightarrow> (\<And>a s. Q a s \<Longrightarrow> Q' a s) \<Longrightarrow> mspec P' m Q'"
  by (fastforce simp: mspec_def)

lemma mkeeps_mspec: "mkeeps P m \<Longrightarrow> mspec P m (\<lambda>_. P)"
  by (simp add: mkeeps_def mspec_def)

lemma mspec_pure: "(\<And>s. P s \<Longrightarrow> b) \<Longrightarrow> (b \<Longrightarrow> mspec P m Q) \<Longrightarrow> mspec P m Q"
  by (auto simp: mspec_def)

section \<open>Scripts of an environment\<close>

text \<open>
  What the operating system or a device answers is a script, a list of the answers of the
  successive calls; a script that has run out answers with a default. Every terminating run
  makes finitely many calls, so finite scripts cover all of its environments, and a fault, which comes after finitely many calls, shows on a
  finite script. They do not cover runs that never end: where the code goes round for as long as the environment
  keeps it busy, a theorem that it returns states what the environment does in the end, and a companion shows that it goes on otherwise.
\<close>

definition script_hd :: "'a \<Rightarrow> 'a list \<Rightarrow> 'a" where
  "script_hd d xs = (case xs of [] \<Rightarrow> d | x # _ \<Rightarrow> x)"

lemma script_hd_simps [simp]:
  "script_hd d [] = d" "script_hd d (x # xs) = x"
  by (simp_all add: script_hd_def)

section \<open>Words and byte lists\<close>

text \<open>The bytes of a \<open>uint32_t\<close> in memory on the modelled host, and back.\<close>

definition le32 :: "u32 \<Rightarrow> bytes" where
  "le32 w = [ucast w, ucast (drop_bit 8 w), ucast (drop_bit 16 w), ucast (drop_bit 24 w)]"

definition of_le32 :: "bytes \<Rightarrow> u32" where
  "of_le32 b = ucast (b ! 0) OR push_bit 8 (ucast (b ! 1)) OR push_bit 16 (ucast (b ! 2))
     OR push_bit 24 (ucast (b ! 3))"

lemma length_le32 [simp]: "length (le32 w) = 4"
  by (simp add: le32_def)

lemma of_le32_le32 [simp]: "of_le32 (le32 w) = w"
proof (rule bit_word_eqI)
  fix n
  show "n < LENGTH(32) \<Longrightarrow> bit (of_le32 (le32 w)) n = bit w n"
    by (cases "24 \<le> n"; cases "16 \<le> n"; cases "8 \<le> n";
        auto simp: of_le32_def le32_def bit_or_iff bit_push_bit_iff bit_ucast_iff bit_drop_bit_eq)
qed

lemma of_le32_append [simp]: "of_le32 (le32 w @ xs) = w"
  using of_le32_le32 [of w] by (simp add: of_le32_def le32_def)

text \<open>The same for a \<open>uint16_t\<close>, and a stretch of an array.\<close>

definition bytes_at :: "bytes \<Rightarrow> nat \<Rightarrow> nat \<Rightarrow> bytes" where
  "bytes_at d off n = take n (drop off d)"

definition le16 :: "u16 \<Rightarrow> bytes" where
  "le16 w = [ucast w, ucast (drop_bit 8 w)]"

definition of_le16 :: "bytes \<Rightarrow> u16" where
  "of_le16 b = ucast (b ! 0) OR push_bit 8 (ucast (b ! 1))"

lemma length_le16 [simp]: "length (le16 w) = 2"
  by (simp add: le16_def)

lemma of_le16_le16 [simp]: "of_le16 (le16 w) = w"
proof (rule bit_word_eqI)
  fix n
  show "n < LENGTH(16) \<Longrightarrow> bit (of_le16 (le16 w)) n = bit w n"
    by (cases "8 \<le> n"; auto simp: of_le16_def le16_def bit_or_iff bit_push_bit_iff bit_ucast_iff bit_drop_bit_eq)
qed

text \<open>A C string: the bytes before the first NUL.\<close>

definition cstr :: "string \<Rightarrow> string" where
  "cstr s = takeWhile (\<lambda>c. c \<noteq> CHR 0x00) s"

lemma cstr_id [simp]: "CHR 0x00 \<notin> set s \<Longrightarrow> cstr s = s"
  by (auto simp: cstr_def)

lemma cstr_no_nul [simp]: "CHR 0x00 \<notin> set (cstr s)"
  by (auto simp: cstr_def dest: set_takeWhileD)

text \<open>\<open>tolower\<close> in the C locale.\<close>

definition lower :: "char \<Rightarrow> char" where
  "lower c = (let n = of_char c :: nat in if 65 \<le> n \<and> n \<le> 90 then char_of (n + 32) else c)"

lemma sum_list_append_word [simp]:
  "sum_list (xs @ ys) = sum_list xs + sum_list (ys :: 'a::len word list)"
  by simp

end
