(* ===== verification/Libc.thy ===== *)
theory Libc
  imports Prelude
begin

text \<open>
  The parts of the C library that the command line tools use, on strings without a NUL: \<open>atoi\<close> and
  \<open>strtol\<close> as glibc implements them, \<open>strchr\<close>, \<open>fgets\<close>, and the conversions between integer types.
  A character behind the end of a string is its terminating NUL.
\<close>

section \<open>Strings\<close>

definition chr_at :: "string \<Rightarrow> nat \<Rightarrow> char" where
  "chr_at s i = (if i < length s then s ! i else CHR 0x00)"

definition has_chr :: "string \<Rightarrow> char \<Rightarrow> bool" where
  "has_chr s c \<longleftrightarrow> c \<in> set s"

definition is_space :: "char \<Rightarrow> bool" where
  "is_space c \<longleftrightarrow> c \<in> set [CHR '' '', CHR 0x09, CHR 0x0A, CHR 0x0B, CHR 0x0C, CHR 0x0D]"

definition is_digit :: "char \<Rightarrow> bool" where
  "is_digit c \<longleftrightarrow> (let n = of_char c :: nat in 48 \<le> n \<and> n \<le> 57)"

definition digit_val :: "char \<Rightarrow> int" where
  "digit_val c = int (of_char c) - 48"

section \<open>Integers\<close>

text \<open>The value of a conversion to a 32-bit \<open>int\<close>, and of a saturating one to a 64-bit \<open>long\<close>.\<close>

definition to_int32 :: "int \<Rightarrow> int" where
  "to_int32 v = (v + 2 ^ 31) mod 2 ^ 32 - 2 ^ 31"

definition sat_long :: "int \<Rightarrow> int" where
  "sat_long v = max (- (2 ^ 63)) (min (2 ^ 63 - 1) v)"

definition digits_val :: "string \<Rightarrow> int" where
  "digits_val s = foldl (\<lambda>v c. 10 * v + digit_val c) 0 s"

definition strtol10 :: "string \<Rightarrow> int" where
  "strtol10 s =
     (let s = dropWhile is_space s;
          neg = (chr_at s 0 = CHR ''-'');
          s = (if neg \<or> chr_at s 0 = CHR ''+'' then tl s else s);
          v = digits_val (takeWhile is_digit s)
      in sat_long (if neg then - v else v))"

definition atoi :: "string \<Rightarrow> int" where
  "atoi s = to_int32 (strtol10 s)"

text \<open>
  \<open>strtol(s, &end, 0)\<close> and \<open>strtoul(s, &end, 0)\<close>: the base is 16 after 0x, 8 after 0, else 10; the value, and
  the rest of the string behind the number, all of it when there is no number.
\<close>

definition digit_in :: "int \<Rightarrow> char \<Rightarrow> int option" where
  "digit_in base c =
     (let n = int (of_char (lower c));
          d = (if 48 \<le> n \<and> n \<le> 57 then n - 48 else if 97 \<le> n \<and> n \<le> 122 then n - 87 else base)
      in if d < base then Some d else None)"

fun scan_digits :: "int \<Rightarrow> int \<Rightarrow> string \<Rightarrow> int \<times> string" where
  "scan_digits base v [] = (v, [])"
| "scan_digits base v (c # s) =
     (case digit_in base c of None \<Rightarrow> (v, c # s) | Some d \<Rightarrow> scan_digits base (base * v + d) s)"

definition scan_number :: "string \<Rightarrow> (bool \<times> int \<times> string) option" where
  "scan_number s0 =
     (let s = dropWhile is_space s0;
          neg = (chr_at s 0 = CHR ''-'');
          s = (if neg \<or> chr_at s 0 = CHR ''+'' then tl s else s);
          hex = (chr_at s 0 = CHR ''0'' \<and> lower (chr_at s 1) = CHR ''x'' \<and> digit_in 16 (chr_at s 2) \<noteq> None);
          base = (if hex then 16 else if chr_at s 0 = CHR ''0'' then 8 else 10);
          s = (if hex then drop 2 s else s)
      in if digit_in base (chr_at s 0) = None then None
         else (case scan_digits base 0 s of (v, r) \<Rightarrow> Some (neg, v, r)))"

definition strtol0 :: "string \<Rightarrow> int \<times> string" where
  "strtol0 s = (case scan_number s of None \<Rightarrow> (0, s)
     | Some (neg, v, r) \<Rightarrow> (sat_long (if neg then - v else v), r))"

definition strtoul0 :: "string \<Rightarrow> u64 \<times> string" where
  "strtoul0 s = (case scan_number s of None \<Rightarrow> (0, s)
     | Some (neg, v, r) \<Rightarrow> (if v \<ge> 2 ^ 64 then - 1 else of_int (if neg then - v else v), r))"

text \<open>Decimal digits of a number, as \<open>%d\<close> prints them.\<close>

fun dec_nat :: "nat \<Rightarrow> string" where
  "dec_nat n = (if n < 10 then [char_of (n + 48)] else dec_nat (n div 10) @ [char_of (n mod 10 + 48)])"

definition dec_int :: "int \<Rightarrow> string" where
  "dec_int v = (if v < 0 then CHR ''-'' # dec_nat (nat (- v)) else dec_nat (nat v))"

definition hex_digits :: string where
  "hex_digits = ''0123456789abcdef''"

text \<open>\<open>%x\<close> of a number.\<close>

fun hex_nat :: "nat \<Rightarrow> string" where
  "hex_nat n = (if n < 16 then [hex_digits ! n] else hex_nat (n div 16) @ [hex_digits ! (n mod 16)])"

lemma to_int32_id: "- (2 ^ 31) \<le> v \<Longrightarrow> v < 2 ^ 31 \<Longrightarrow> to_int32 v = v"
  by (simp add: to_int32_def)

lemma digits_val_append: "digits_val (s @ [c]) = 10 * digits_val s + digit_val c"
  by (simp add: digits_val_def)

declare dec_nat.simps [simp del]

lemma digit_char: "n < 10 \<Longrightarrow> is_digit (char_of (n + 48)) \<and> digit_val (char_of (n + 48)) = int n"
  by (simp add: is_digit_def digit_val_def Let_def)

lemma dec_nat_digits: "list_all is_digit (dec_nat n) \<and> digits_val (dec_nat n) = int n \<and> dec_nat n \<noteq> []"
proof (induction n rule: dec_nat.induct)
  case (1 n)
  show ?case
  proof (cases "n < 10")
    case True
    then show ?thesis
      using digit_char [of n] by (subst (1 2 3) dec_nat.simps) (simp add: digits_val_def)
  next
    case False
    with 1 digit_char [of "n mod 10"] show ?thesis
      by (subst (1 2 3) dec_nat.simps) (simp add: digits_val_append, presburger)
  qed
qed

lemma not_digit_sign: "is_digit c \<Longrightarrow> \<not> is_space c \<and> c \<noteq> CHR ''-'' \<and> c \<noteq> CHR ''+''"
  by (auto simp: is_digit_def is_space_def Let_def)

lemma takeWhile_digits:
  "list_all is_digit ds \<Longrightarrow> rest = [] \<or> \<not> is_digit (hd rest) \<Longrightarrow> takeWhile is_digit (ds @ rest) = ds"
  by (induction ds) (cases rest; auto)+

text \<open>A printed number reads back, whatever other than a digit follows it.\<close>

lemma atoi_dec:
  assumes "n < 2 ^ 31" and "rest = [] \<or> \<not> is_digit (hd rest)"
  shows "atoi (dec_nat n @ rest) = int n"
proof -
  obtain c cs where d: "dec_nat n = c # cs" using dec_nat_digits [of n] by (cases "dec_nat n") auto
  with dec_nat_digits [of n] have c: "is_digit c" by simp
  have "dropWhile is_space (dec_nat n @ rest) = dec_nat n @ rest"
    using not_digit_sign [OF c] by (simp add: d)
  moreover have "chr_at (dec_nat n @ rest) 0 = c" by (simp add: d chr_at_def)
  moreover have "takeWhile is_digit (dec_nat n @ rest) = dec_nat n"
    using dec_nat_digits [of n] assms(2) by (intro takeWhile_digits) auto
  ultimately show ?thesis
    using assms(1) not_digit_sign [OF c] dec_nat_digits [of n]
    by (simp add: atoi_def strtol10_def Let_def sat_long_def to_int32_id)
qed

section \<open>Options\<close>

text \<open>
  Results of \<open>getopt\<close> and \<open>getopt_long\<close>: \<open>LongOpt\<close> has the index of the option, \<open>ShortOpt\<close> its character, each with
  \<open>optarg\<close>; \<open>BadOpt\<close> is the return of a question mark.
\<close>

datatype getopt_result = LongOpt nat "string option" | ShortOpt char "string option" | BadOpt

text \<open>Whether a character is a short option in the option string, and whether it takes an argument.\<close>

fun short_kind :: "string \<Rightarrow> char \<Rightarrow> bool option" where
  "short_kind [] c = None"
| "short_kind (x # xs) c =
     (if c = CHR '':'' \<or> c = CHR '';'' then None
      else if x = c then Some (chr_at xs 0 = CHR '':'')
      else short_kind xs c)"

fun short_results :: "string \<Rightarrow> string \<Rightarrow> string list \<Rightarrow> getopt_result list \<times> string list" where
  "short_results opts [] rest = ([], rest)"
| "short_results opts (c # cs) rest =
     (case short_kind opts c of
        None \<Rightarrow> ([BadOpt], rest)
      | Some False \<Rightarrow> (case short_results opts cs rest of (rs, r) \<Rightarrow> (ShortOpt c None # rs, r))
      | Some True \<Rightarrow>
          if cs \<noteq> [] then ([ShortOpt c (Some cs)], rest)
          else (case rest of [] \<Rightarrow> ([BadOpt], []) | v # r \<Rightarrow> ([ShortOpt c (Some v)], r)))"

lemma short_results_rest: "length (snd (short_results opts cs rest)) \<le> length rest"
  by (induction opts cs rest rule: short_results.induct) (auto split: option.splits bool.splits list.splits prod.splits)

text \<open>
  \<open>getopt\<close> with an option string that begins with a plus sign: it stops at the first argument that is not an option. The
  results of the successive calls, and the arguments from \<open>optind\<close> on.
\<close>

function getopt_plus :: "string \<Rightarrow> string list \<Rightarrow> getopt_result list \<times> string list" where
  "getopt_plus opts [] = ([], [])"
| "getopt_plus opts (a # rest) =
     (if a = ''--'' then ([], rest)
      else if chr_at a 0 = CHR ''-'' \<and> a \<noteq> ''-'' then
        (case short_results opts (tl a) rest of (r, rest') \<Rightarrow>
         case getopt_plus opts rest' of (rs, others) \<Rightarrow> (r @ rs, others))
      else ([], a # rest))"
  by pat_completeness auto
termination
  by (relation "measure (\<lambda>(opts, args). length args)")
     (auto simp: less_Suc_eq_le dest: sym [of "(_, _)"], metis short_results_rest snd_conv)

section \<open>Scanning\<close>

text \<open>
  \<open>fscanf\<close> of glibc on the rest of a stream, for the directives the tools use: a literal character, white space, a number
  that is skipped (\<open>%*d\<close>) and numbers that are stored (\<open>%d\<close>, \<open>%u\<close>, \<open>%x\<close>, \<open>%02x\<close>). The result is what the call returns, the numbers
  stored and the new rest. The end of the stream before anything is stored gives \<open>EOF\<close>; a
  directive that does not match ends the call with the count so far and leaves the character that did not match.
\<close>

datatype scan_dir = Lit char | Blank | SkipD | ConvD | ConvU | ConvX | ConvX2

datatype scan_num = NumEnd | NumBad string | Num bool int string

definition scan_base :: "int \<Rightarrow> string \<Rightarrow> scan_num" where
  "scan_base base s0 =
     (let s = dropWhile is_space s0;
          neg = (chr_at s 0 = CHR ''-'');
          s1 = (if neg \<or> chr_at s 0 = CHR ''+'' then tl s else s);
          hex = (base = 16 \<and> chr_at s1 0 = CHR ''0'' \<and> lower (chr_at s1 1) = CHR ''x'');
          s2 = (if hex then drop 2 s1 else s1)
      in if s = [] then NumEnd
         else if \<not> hex \<and> digit_in base (chr_at s2 0) = None then NumBad s2
         else (case scan_digits base 0 s2 of (v, r) \<Rightarrow> Num neg v r))"

text \<open>The number of a directive; one with a width of two looks at no more characters than that.\<close>

definition scan_conv :: "scan_dir \<Rightarrow> string \<Rightarrow> scan_num" where
  "scan_conv d s =
     (if d = ConvX2 then
        (let t = dropWhile is_space s in
         case scan_base 16 (take 2 t) of
           NumEnd \<Rightarrow> NumEnd
         | NumBad r \<Rightarrow> NumBad (r @ drop 2 t)
         | Num neg v r \<Rightarrow> Num neg v (r @ drop 2 t))
      else scan_base (if d = ConvX then 16 else 10) s)"

lemma scan_conv_simps [simp]:
  "scan_conv SkipD s = scan_base 10 s" "scan_conv ConvD s = scan_base 10 s" "scan_conv ConvU s = scan_base 10 s" "scan_conv ConvX s = scan_base 16 s"
  by (simp_all add: scan_conv_def)

definition to_uint32 :: "bool \<Rightarrow> int \<Rightarrow> int" where
  "to_uint32 neg v = (if v \<ge> 2 ^ 64 then 2 ^ 32 - 1 else (if neg then - v else v) mod 2 ^ 32)"

fun fscanf :: "scan_dir list \<Rightarrow> int list \<Rightarrow> string \<Rightarrow> int \<times> int list \<times> string" where
  "fscanf [] vs s = (int (length vs), vs, s)"
| "fscanf (Blank # ds) vs s = fscanf ds vs (dropWhile is_space s)"
| "fscanf (Lit c # ds) vs s =
     (case s of [] \<Rightarrow> (if vs = [] then -1 else int (length vs), vs, [])
      | x # r \<Rightarrow> if x = c then fscanf ds vs r else (int (length vs), vs, s))"
| "fscanf (d # ds) vs s =
     (case scan_conv d s of
        NumEnd \<Rightarrow> (if vs = [] then -1 else int (length vs), vs, [])
      | NumBad r \<Rightarrow> (int (length vs), vs, r)
      | Num neg v r \<Rightarrow>
          fscanf ds (if d = SkipD then vs
                     else if d = ConvD then vs @ [to_int32 (sat_long (if neg then - v else v))]
                     else vs @ [to_uint32 neg v]) r)"

section \<open>Reading lines\<close>

text \<open>
  \<open>fgets(buf, n, fp)\<close> on the rest of a stream: the string stored, if any, the new rest, and whether the
  end-of-file indicator is set afterwards.
\<close>

primrec get_line :: "nat \<Rightarrow> string \<Rightarrow> string \<times> string" where
  "get_line 0 s = ([], s)"
| "get_line (Suc k) s =
     (case s of [] \<Rightarrow> ([], [])
      | c # s \<Rightarrow> if c = CHR 0x0A then ([c], s) else (case get_line k s of (l, r) \<Rightarrow> (c # l, r)))"

definition fgets :: "nat \<Rightarrow> string \<Rightarrow> string option \<times> string \<times> bool" where
  "fgets n s =
     (if s = [] then (None, [], True)
      else case get_line (n - 1) s of (l, r) \<Rightarrow>
        (Some l, r, r = [] \<and> length l < n - 1 \<and> last l \<noteq> CHR 0x0A))"

lemma get_line_length: "0 < k \<Longrightarrow> s \<noteq> [] \<Longrightarrow> length (snd (get_line k s)) < length s"
proof (induction k arbitrary: s)
  case 0
  then show ?case by simp
next
  case (Suc k)
  have "length (snd (get_line k r)) \<le> length r" for r
    by (cases "k = 0 \<or> r = []") (use Suc.IH [of r] in \<open>auto simp: less_imp_le\<close>, cases k, auto)
  with Suc.prems show ?case by (auto simp: less_Suc_eq_le split: list.splits prod.splits) (metis snd_conv)
qed

lemma get_line_less: "get_line k s = (l, r) \<Longrightarrow> 0 < k \<Longrightarrow> s \<noteq> [] \<Longrightarrow> length r < length s"
  using get_line_length [of k s] by simp

lemma get_line_newline:
  "CHR 0x0A \<notin> set l \<Longrightarrow> length l < k \<Longrightarrow> get_line k (l @ CHR 0x0A # r) = (l @ [CHR 0x0A], r)"
  by (induction l arbitrary: k) (case_tac k; auto)+

lemma fgets_line:
  "CHR 0x0A \<notin> set l \<Longrightarrow> length l < n - 1 \<Longrightarrow> fgets n (l @ CHR 0x0A # r) = (Some (l @ [CHR 0x0A]), r, False)"
  by (simp add: fgets_def get_line_newline)

end
