(* ===== verification/Ipmi_Helper.thy ===== *)
theory Ipmi_Helper
  imports Libc
begin

text \<open>
  The helpers that the modelled IPMI code calls (\<open>ipmitool/lib/helper.c\<close>): little-endian readers,
  hexadecimal strings, the tables that name values, the checksum, and the checks that
  \<open>ipmi_open_file\<close> makes around opening a file. The functions that only print are left out.
\<close>

section \<open>Bytes\<close>

definition buf2long :: "bytes \<Rightarrow> u32" where
  "buf2long buf = push_bit 24 (ucast (buf ! 3)) OR push_bit 16 (ucast (buf ! 2))
     OR push_bit 8 (ucast (buf ! 1)) OR ucast (buf ! 0)"

definition buf2short :: "bytes \<Rightarrow> u16" where
  "buf2short buf = push_bit 8 (ucast (buf ! 1)) OR ucast (buf ! 0)"

definition ipmi_csum :: "bytes \<Rightarrow> u8" where
  "ipmi_csum d = - foldl (+) 0 d"

lemma foldl_plus_sum: "foldl (+) (c :: u8) d = c + sum_list d"
  by (induction d arbitrary: c) (simp_all add: add.assoc)

lemma ipmi_csum_sum: "ipmi_csum d = - sum_list d"
  by (simp add: ipmi_csum_def foldl_plus_sum)

text \<open>
  The bytes over which \<open>ipmi_csum\<close> was computed, followed by the checksum, add up to zero modulo
  256: the test a receiver makes.
\<close>

theorem ipmi_csum_verifies: "sum_list (d @ [ipmi_csum d]) = 0"
  by (simp add: ipmi_csum_sum)

lemma buf2long_le32: "buf2long (le32 w @ rest) = w"
  using of_le32_le32 [of w]
  by (simp add: buf2long_def of_le32_def le32_def or.assoc or.commute or.left_commute)

section \<open>Hexadecimal strings\<close>

text \<open>\<open>%2.2x\<close> of a byte.\<close>

definition hex2 :: "u8 \<Rightarrow> string" where
  "hex2 b = [hex_digits ! unat (drop_bit 4 b), hex_digits ! unat (b AND 15)]"

text \<open>
  \<open>buf2str\<close>: the guard admits 1024 bytes, while the array of 1024 characters holds the two digits
  and the terminator of at most 511.
\<close>

definition buf2str :: "bytes \<Rightarrow> int \<Rightarrow> fault + string option" where
  "buf2str buf len =
     (if len \<le> 0 \<or> len > 1024 then Inr None
      else if 1024 < 2 * len + 1 then Inl BufferOverflow
      else if int (length buf) < len then Inl OutOfBounds
      else Inr (Some (concat (map hex2 (take (nat len) buf)))))"

section \<open>Names of values\<close>

text \<open>
  A table of \<open>struct valstr\<close>: its entries, and the value in the terminating entry without a string,
  which \<open>str2val\<close> returns when it finds nothing.
\<close>

type_synonym valstr = "(u16 \<times> string) list"

definition val2str :: "u16 \<Rightarrow> valstr \<Rightarrow> string" where
  "val2str val vs =
     (case find (\<lambda>(v, s). v = val) vs of
        Some (v, s) \<Rightarrow> s
      | None \<Rightarrow> ''Unknown (0x'' @ hex_nat (unat val) @ '')'')"

abbreviation (input) IPMI_OEM_PICMG :: u16 where "IPMI_OEM_PICMG \<equiv> 12634"

text \<open>A table of \<open>struct oemvalstr\<close> ends at an entry with manufacturer 0.\<close>

definition oemval2str :: "u16 \<Rightarrow> u16 \<Rightarrow> (u16 \<times> u16 \<times> string) list \<Rightarrow> string" where
  "oemval2str oem val vs =
     (case find (\<lambda>(m, v, s). (m = oem \<or> m = IPMI_OEM_PICMG) \<and> v = val) (takeWhile (\<lambda>(m, v, s). m \<noteq> 0) vs) of
        Some (m, v, s) \<Rightarrow> s
      | None \<Rightarrow> ''OEM reserved #'' @ (let h = hex_nat (unat val) in if length h < 2 then ''0'' @ h else h))"

text \<open>The comparison of \<open>str2val\<close> runs to the longer of the two strings, and ignores case.\<close>

definition str2val :: "string \<Rightarrow> valstr \<Rightarrow> u16 \<Rightarrow> u16" where
  "str2val str vs dflt =
     (case find (\<lambda>(v, s). map lower s = map lower str) vs of Some (v, s) \<Rightarrow> v | None \<Rightarrow> dflt)"

section \<open>Opening a file\<close>

record stat =
  st_reg :: bool
  st_nlink :: nat
  st_ino :: nat
  st_uid :: nat

datatype file_ev = Fopen string | Fclose

text \<open>
  \<open>secure\<close>: compiled with \<open>ENABLE_FILE_SECURITY\<close>; \<open>st1\<close> and \<open>st2\<close> the results of \<open>lstat\<close> and
  \<open>fstat\<close>, \<open>ok\<close> whether \<open>fopen\<close> succeeds. The result is whether a handle is returned, and what
  was opened and closed.
\<close>

definition ipmi_open_file ::
  "bool \<Rightarrow> bool \<Rightarrow> stat option \<Rightarrow> bool \<Rightarrow> stat option \<Rightarrow> bool \<times> file_ev list" where
  "ipmi_open_file secure rw st1 ok st2 =
     (case st1 of
        None \<Rightarrow> if rw then (if ok then (True, [Fopen ''w'']) else (False, [])) else (False, [])
      | Some s1 \<Rightarrow>
          if \<not> secure \<and> \<not> rw then (if ok then (True, [Fopen ''r'']) else (False, []))
          else if \<not> st_reg s1 then (False, [])
          else if st_nlink s1 \<noteq> 1 then (False, [])
          else if \<not> ok then (False, [])
          else let ev = [Fopen (if rw then ''w+'' else ''r'')]
               in case st2 of None \<Rightarrow> (False, ev @ [Fclose])
                  | Some s2 \<Rightarrow>
                      if st_ino s1 \<noteq> st_ino s2 then (False, ev @ [Fclose])
                      else if st_uid s1 \<noteq> st_uid s2 then (False, ev @ [Fclose])
                      else if st_nlink s2 \<noteq> 1 then (False, ev @ [Fclose])
                      else (True, ev))"

section \<open>Properties\<close>

text \<open>Reading two hexadecimal digits at a time.\<close>

definition hex_val :: "char \<Rightarrow> u8" where
  "hex_val c = (case List.find (\<lambda>i. hex_digits ! i = c) [0..<16] of Some i \<Rightarrow> of_nat i | None \<Rightarrow> 0)"

fun unhex :: "string \<Rightarrow> bytes" where
  "unhex (a # b # s) = (push_bit 4 (hex_val a) OR hex_val b) # unhex s"
| "unhex _ = []"

lemma hex_val_digit: "n < 16 \<Longrightarrow> hex_val (hex_digits ! n) = of_nat n"
proof -
  have "list_all (\<lambda>n. hex_val (hex_digits ! n) = of_nat n) [0..<16]"
    by (simp add: hex_val_def hex_digits_def upt_rec)
  then show "n < 16 \<Longrightarrow> ?thesis" by (simp add: list_all_iff)
qed

lemma low_nibble: "b AND 15 = take_bit 4 (b :: u8)"
proof -
  have "(15 :: u8) = mask 4" by (simp add: mask_eq_exp_minus_1)
  then show ?thesis by (simp only: take_bit_eq_mask)
qed

lemma nibbles: "push_bit 4 (drop_bit 4 b) OR take_bit 4 b = (b :: u8)"
  by (rule bit_word_eqI) (auto simp: bit_or_iff bit_push_bit_iff bit_drop_bit_eq bit_take_bit_iff)

lemma unhex_hex2: "unhex (hex2 b @ s) = b # unhex s"
proof -
  have "unat b < 256" by (rule order_less_le_trans [OF unsigned_less]) simp
  then have "unat (drop_bit 4 b) < 16"
    by (simp add: drop_bit_eq_div unat_div)
  moreover have "unat (take_bit 4 b) < 16"
    using take_bit_nat_less_exp [of 4 "unat b"] by (simp add: unsigned_take_bit_eq)
  ultimately show ?thesis by (simp add: hex2_def low_nibble hex_val_digit nibbles)
qed

lemma unhex_concat: "unhex (concat (map hex2 bs)) = bs"
  by (induction bs) (simp_all add: unhex_hex2)

text \<open>
  \<open>buf2str\<close> on up to 511 bytes stays in its array, and the string it returns names exactly those bytes,
  two hexadecimal digits each.
\<close>

theorem buf2str_round_trip:
  assumes "0 < len" and "len \<le> 511" and "len \<le> int (length buf)"
  shows "\<exists>s. buf2str buf len = Inr (Some s) \<and> length s = 2 * nat len \<and> unhex s = take (nat len) buf"
proof -
  have "length (concat (map hex2 bs)) = 2 * length bs" for bs by (induction bs) (simp_all add: hex2_def)
  with assms show ?thesis by (simp add: buf2str_def unhex_concat)
qed

theorem buf2str_round_trip_witness:
  "\<exists>s. buf2str [0xde, 0xad, 0xbe] 2 = Inr (Some s) \<and> unhex s = [0xde, 0xad]"
  using buf2str_round_trip [of 2 "[0xde, 0xad, 0xbe]"] by auto

text \<open>
  The guard of \<open>buf2str\<close> also admits lengths from 512 to 1024, for which it writes past its array.
\<close>

lemma buf2str_overflows: "512 \<le> len \<Longrightarrow> len \<le> 1024 \<Longrightarrow> buf2str buf len = Inl BufferOverflow"
  by (simp add: buf2str_def)

text \<open>
  In a table with no value and no name twice (ignoring case), the name that \<open>val2str\<close> gives a value
  is turned back into the value by \<open>str2val\<close>.
\<close>

theorem str2val_val2str:
  assumes "distinct (map fst vs)" and "distinct (map (map lower \<circ> snd) vs)" and "v \<in> fst ` set vs"
  shows "str2val (val2str v vs) vs dflt = v"
proof -
  from assms(3) obtain s where vs: "(v, s) \<in> set vs" by auto
  have "find (\<lambda>(u, s). u = v) vs = Some (v, s)"
    using assms(1) vs by (induction vs) force+
  moreover have "find (\<lambda>(u, r). map lower r = map lower s) vs = Some (v, s)"
    using assms(2) vs by (induction vs) force+
  ultimately show ?thesis by (simp add: val2str_def str2val_def)
qed

theorem str2val_val2str_witness:
  "str2val (val2str 2 [(1, ''none''), (2, ''MD5'')]) [(1, ''none''), (2, ''MD5'')] 0xff = 2"
  by (rule str2val_val2str) (simp_all add: lower_def Let_def)

text \<open>
  A handle that \<open>ipmi_open_file\<close> returns on an existing file it checks is that of a regular file with
  one link, of the same inode and owner before and after it was opened; and every handle that it opens is
  either returned or closed. The second look follows \<open>fopen\<close>, which has truncated the file by then.
\<close>

theorem ipmi_open_file_checks:
  "(let (handle, ev) = ipmi_open_file secure rw (Some s1) ok st2
    in handle \<and> (secure \<or> rw) \<longrightarrow>
       st_reg s1 \<and> st_nlink s1 = 1 \<and> (\<exists>s2. st2 = Some s2 \<and> st_ino s2 = st_ino s1 \<and> st_uid s2 = st_uid s1 \<and> st_nlink s2 = 1)) \<and>
   (let (handle, ev) = ipmi_open_file secure rw st1 ok st2
    in length (filter (\<lambda>e. e \<noteq> Fclose) ev) = length (filter (\<lambda>e. e = Fclose) ev) + of_bool handle)"
  by (auto simp: ipmi_open_file_def Let_def split: option.splits if_splits)

theorem ipmi_open_file_checks_witness:
  "fst (ipmi_open_file True True (Some \<lparr>st_reg = True, st_nlink = 1, st_ino = 7, st_uid = 0\<rparr>) True
      (Some \<lparr>st_reg = True, st_nlink = 1, st_ino = 7, st_uid = 0\<rparr>)) \<and>
   \<not> fst (ipmi_open_file True True (Some \<lparr>st_reg = True, st_nlink = 1, st_ino = 7, st_uid = 0\<rparr>) True
      (Some \<lparr>st_reg = True, st_nlink = 1, st_ino = 8, st_uid = 0\<rparr>))"
  using ipmi_open_file_checks [of True True "\<lparr>st_reg = True, st_nlink = 1, st_ino = 7, st_uid = 0\<rparr>" True
      "Some \<lparr>st_reg = True, st_nlink = 1, st_ino = 8, st_uid = 0\<rparr>"]
  by (simp add: ipmi_open_file_def Let_def)

end
