(* ===== verification/Md5.thy ===== *)
theory Md5
  imports Prelude
begin

text \<open>
  \<open>ipmitool/src/plugins/lan/md5.c\<close>: the MD5 digest that authenticates IPMI v1.5 LAN packets
  when ipmitool is built without OpenSSL. The streaming interface (\<open>md5_init\<close>, \<open>md5_append\<close>,
  \<open>md5_finish\<close>) is modelled as written, buffer and 64-bit length counter included, and proved
  equal to a reference digest of the whole message that pads it once and compresses its blocks
  in order, however the message was split into \<open>md5_append\<close> calls.

  \<open>md5_word_t\<close> is 32 bits wide. \<open>md5_process\<close> is modelled on the little-endian path (both of its
  paths compute the same sixteen words). A call passes the bytes it appends as a list, its length
  being \<open>nbytes\<close>; the \<open>int\<close> of the source returns at once when it is not positive, as the empty list does.
\<close>

section \<open>Compression of one block\<close>

definition T_MASK :: u32 where
  "T_MASK = NOT 0"

definition md5_T :: "u32 list" where
  "md5_T =
    [T_MASK XOR 0x28955b87, T_MASK XOR 0x173848a9, 0x242070db, T_MASK XOR 0x3e423111,
     T_MASK XOR 0x0a83f050, 0x4787c62a, T_MASK XOR 0x57cfb9ec, T_MASK XOR 0x02b96afe,
     0x698098d8, T_MASK XOR 0x74bb0850, T_MASK XOR 0x0000a44e, T_MASK XOR 0x76a32841,
     0x6b901122, T_MASK XOR 0x02678e6c, T_MASK XOR 0x5986bc71, 0x49b40821,
     T_MASK XOR 0x09e1da9d, T_MASK XOR 0x3fbf4cbf, 0x265e5a51, T_MASK XOR 0x16493855,
     T_MASK XOR 0x29d0efa2, 0x02441453, T_MASK XOR 0x275e197e, T_MASK XOR 0x182c0437,
     0x21e1cde6, T_MASK XOR 0x3cc8f829, T_MASK XOR 0x0b2af278, 0x455a14ed,
     T_MASK XOR 0x561c16fa, T_MASK XOR 0x03105c07, 0x676f02d9, T_MASK XOR 0x72d5b375,
     T_MASK XOR 0x0005c6bd, T_MASK XOR 0x788e097e, 0x6d9d6122, T_MASK XOR 0x021ac7f3,
     T_MASK XOR 0x5b4115bb, 0x4bdecfa9, T_MASK XOR 0x0944b49f, T_MASK XOR 0x4140438f,
     0x289b7ec6, T_MASK XOR 0x155ed805, T_MASK XOR 0x2b10cf7a, 0x04881d05,
     T_MASK XOR 0x262b2fc6, T_MASK XOR 0x1924661a, 0x1fa27cf8, T_MASK XOR 0x3b53a99a,
     T_MASK XOR 0x0bd6ddbb, 0x432aff97, T_MASK XOR 0x546bdc58, T_MASK XOR 0x036c5fc6,
     0x655b59c3, T_MASK XOR 0x70f3336d, T_MASK XOR 0x00100b82, T_MASK XOR 0x7a7ba22e,
     0x6fa87e4f, T_MASK XOR 0x01d3191f, T_MASK XOR 0x5cfebceb, 0x4e0811a1,
     T_MASK XOR 0x08ac817d, T_MASK XOR 0x42c50dca, 0x2ad7d2bb, T_MASK XOR 0x14792c6e]"

definition ROTATE_LEFT :: "u32 \<Rightarrow> nat \<Rightarrow> u32" where
  "ROTATE_LEFT x n = push_bit n x OR drop_bit (32 - n) x"

definition md5_F :: "u32 \<Rightarrow> u32 \<Rightarrow> u32 \<Rightarrow> u32" where
  "md5_F x y z = (x AND y) OR (NOT x AND z)"

definition md5_G :: "u32 \<Rightarrow> u32 \<Rightarrow> u32 \<Rightarrow> u32" where
  "md5_G x y z = (x AND z) OR (y AND NOT z)"

definition md5_H :: "u32 \<Rightarrow> u32 \<Rightarrow> u32 \<Rightarrow> u32" where
  "md5_H x y z = x XOR y XOR z"

definition md5_I :: "u32 \<Rightarrow> u32 \<Rightarrow> u32 \<Rightarrow> u32" where
  "md5_I x y z = y XOR (x OR NOT z)"

type_synonym md5_abcd = "u32 \<times> u32 \<times> u32 \<times> u32"

text \<open>
  One \<open>SET(a, b, c, d, k, s, Ti)\<close>. The source names the registers in turn as \<open>(a,b,c,d)\<close>,
  \<open>(d,a,b,c)\<close>, \<open>(c,d,a,b)\<close>, \<open>(b,c,d,a)\<close>; here the tuple is rotated after every step, so that
  the register to be set always comes first and four steps restore the order.
\<close>

fun md5_SET :: "(u32 \<Rightarrow> u32 \<Rightarrow> u32 \<Rightarrow> u32) \<Rightarrow> u32 list \<Rightarrow> md5_abcd \<Rightarrow> nat \<times> nat \<times> nat \<Rightarrow> md5_abcd" where
  "md5_SET f X (a, b, c, d) (k, s, i) =
     (let t = a + f b c d + X ! k + md5_T ! (i - 1)
      in (d, ROTATE_LEFT t s + b, b, c))"

text \<open>The rows \<open>(k, s, i)\<close> of the four rounds; \<open>i\<close> is the index of the constant \<open>Ti\<close>.\<close>

definition md5_round1 :: "(nat \<times> nat \<times> nat) list" where
  "md5_round1 =
    [(0, 7, 1), (1, 12, 2), (2, 17, 3), (3, 22, 4),
     (4, 7, 5), (5, 12, 6), (6, 17, 7), (7, 22, 8),
     (8, 7, 9), (9, 12, 10), (10, 17, 11), (11, 22, 12),
     (12, 7, 13), (13, 12, 14), (14, 17, 15), (15, 22, 16)]"

definition md5_round2 :: "(nat \<times> nat \<times> nat) list" where
  "md5_round2 =
    [(1, 5, 17), (6, 9, 18), (11, 14, 19), (0, 20, 20),
     (5, 5, 21), (10, 9, 22), (15, 14, 23), (4, 20, 24),
     (9, 5, 25), (14, 9, 26), (3, 14, 27), (8, 20, 28),
     (13, 5, 29), (2, 9, 30), (7, 14, 31), (12, 20, 32)]"

definition md5_round3 :: "(nat \<times> nat \<times> nat) list" where
  "md5_round3 =
    [(5, 4, 33), (8, 11, 34), (11, 16, 35), (14, 23, 36),
     (1, 4, 37), (4, 11, 38), (7, 16, 39), (10, 23, 40),
     (13, 4, 41), (0, 11, 42), (3, 16, 43), (6, 23, 44),
     (9, 4, 45), (12, 11, 46), (15, 16, 47), (2, 23, 48)]"

definition md5_round4 :: "(nat \<times> nat \<times> nat) list" where
  "md5_round4 =
    [(0, 6, 49), (7, 10, 50), (14, 15, 51), (5, 21, 52),
     (12, 6, 53), (3, 10, 54), (10, 15, 55), (1, 21, 56),
     (8, 6, 57), (15, 10, 58), (6, 15, 59), (13, 21, 60),
     (4, 6, 61), (11, 10, 62), (2, 15, 63), (9, 21, 64)]"

definition md5_words :: "bytes \<Rightarrow> u32 list" where
  "md5_words data = map (\<lambda>i. of_le32 (take 4 (drop (4 * i) data))) [0..<16]"

definition md5_compress :: "md5_abcd \<Rightarrow> bytes \<Rightarrow> md5_abcd" where
  "md5_compress h data =
     (let X = md5_words data;
          r1 = foldl (md5_SET md5_F X) h md5_round1;
          r2 = foldl (md5_SET md5_G X) r1 md5_round2;
          r3 = foldl (md5_SET md5_H X) r2 md5_round3;
          (a, b, c, d) = foldl (md5_SET md5_I X) r3 md5_round4;
          (a0, b0, c0, d0) = h
      in (a0 + a, b0 + b, c0 + c, d0 + d))"

section \<open>The streaming interface\<close>

record md5_state =
  md5_count :: "u32 \<times> u32"
  md5_abcd :: md5_abcd
  md5_buf :: bytes

definition md5_process :: "md5_state \<Rightarrow> bytes \<Rightarrow> md5_state" where
  "md5_process pms data = pms\<lparr>md5_abcd := md5_compress (md5_abcd pms) data\<rparr>"

definition md5_init :: "md5_state \<Rightarrow> md5_state" where
  "md5_init pms = pms\<lparr>md5_count := (0, 0),
     md5_abcd := (0x67452301, T_MASK XOR 0x10325476, T_MASK XOR 0x67452301, 0x10325476)\<rparr>"

text \<open>\<open>for (; left >= 64; p += 64, left -= 64) md5_process(pms, p);\<close>\<close>

function md5_full_blocks :: "md5_state \<Rightarrow> bytes \<Rightarrow> md5_state \<times> bytes" where
  "md5_full_blocks pms p =
     (if 64 \<le> length p then md5_full_blocks (md5_process pms (take 64 p)) (drop 64 p) else (pms, p))"
  by pat_completeness auto
termination
  by (relation "measure (\<lambda>(pms, p). length p)") auto

declare md5_full_blocks.simps [simp del]

text \<open>The full blocks and the final partial block of \<open>md5_append\<close>.\<close>

definition md5_append_rest :: "md5_state \<Rightarrow> bytes \<Rightarrow> md5_state" where
  "md5_append_rest pms p =
     (let (pms', left) = md5_full_blocks pms p
      in if left = [] then pms'
         else pms'\<lparr>md5_buf := left @ drop (length left) (md5_buf pms')\<rparr>)"

definition md5_append :: "md5_state \<Rightarrow> bytes \<Rightarrow> md5_state" where
  "md5_append pms data =
     (let nbytes = length data;
          offset = unat (drop_bit 3 (fst (md5_count pms)) AND 63);
          nbits = push_bit 3 (of_nat nbytes :: u32)
      in if nbytes = 0 then pms
         else
           (let c1 = snd (md5_count pms) + of_nat (nbytes div 2 ^ 29);
                c0 = fst (md5_count pms) + nbits;
                c1 = (if c0 < nbits then c1 + 1 else c1);
                pms = pms\<lparr>md5_count := (c0, c1)\<rparr>
            in if offset \<noteq> 0
               then
                 (let copy = (if offset + nbytes > 64 then 64 - offset else nbytes);
                      pms = pms\<lparr>md5_buf := take offset (md5_buf pms) @ take copy data
                                          @ drop (offset + copy) (md5_buf pms)\<rparr>
                  in if offset + copy < 64 then pms
                     else md5_append_rest (md5_process pms (md5_buf pms)) (drop copy data))
               else md5_append_rest pms data))"

definition md5_pad :: bytes where
  "md5_pad = 0x80 # replicate 63 0"

definition md5_digest_of :: "md5_abcd \<Rightarrow> bytes" where
  "md5_digest_of h = (case h of (a, b, c, d) \<Rightarrow> le32 a @ le32 b @ le32 c @ le32 d)"

definition md5_finish :: "md5_state \<Rightarrow> md5_state \<times> bytes" where
  "md5_finish pms =
     (let data = le32 (fst (md5_count pms)) @ le32 (snd (md5_count pms));
          npad = unat ((55 - drop_bit 3 (fst (md5_count pms))) AND 63) + 1;
          pms = md5_append pms (take npad md5_pad);
          pms = md5_append pms data
      in (pms, md5_digest_of (md5_abcd pms)))"

section \<open>Reference digest\<close>

text \<open>
  The digest of a whole message: pad it once to a multiple of 64 bytes (a byte \<open>0x80\<close>, zeros, the
  length in bits as 64 little-endian bits), then compress the blocks in order.
\<close>

function md5_chain :: "md5_abcd \<Rightarrow> bytes \<Rightarrow> md5_abcd" where
  "md5_chain h p =
     (if 64 \<le> length p then md5_chain (md5_compress h (take 64 p)) (drop 64 p) else h)"
  by pat_completeness auto
termination
  by (relation "measure (\<lambda>(h, p). length p)") auto

declare md5_chain.simps [simp del]

definition md5_iv :: md5_abcd where
  "md5_iv = (0x67452301, 0xefcdab89, 0x98badcfe, 0x10325476)"

definition md5_padding :: "nat \<Rightarrow> bytes" where
  "md5_padding n = 0x80 # replicate (nat ((55 - int n) mod 64)) 0
     @ le32 (of_nat (8 * n)) @ le32 (of_nat (8 * n div 2 ^ 32))"

definition md5_reference :: "bytes \<Rightarrow> bytes" where
  "md5_reference m = md5_digest_of (md5_chain md5_iv (m @ md5_padding (length m)))"

lemma md5_chain_short [simp]: "length p < 64 \<Longrightarrow> md5_chain h p = h"
  by (simp add: md5_chain.simps)

lemma md5_chain_append:
  "length a mod 64 = 0 \<Longrightarrow> md5_chain h (a @ b) = md5_chain (md5_chain h a) b"
proof (induction h a rule: md5_chain.induct)
  case (1 h a)
  show ?case
  proof (cases "64 \<le> length a")
    case True
    with 1 show ?thesis
      by (simp add: md5_chain.simps [of h a] md5_chain.simps [of h "a @ b"] mod_if)
  next
    case False
    with 1 show ?thesis by simp
  qed
qed

lemma md5_chain_block: "length b = 64 \<Longrightarrow> md5_chain h b = md5_compress h b"
  by (simp add: md5_chain.simps)

lemma md5_full_blocks_chain:
  "md5_full_blocks pms p =
     (pms\<lparr>md5_abcd := md5_chain (md5_abcd pms) p\<rparr>, drop (64 * (length p div 64)) p)"
proof (induction pms p rule: md5_full_blocks.induct)
  case (1 pms p)
  show ?case
  proof (cases "64 \<le> length p")
    case True
    then have "length p div 64 = Suc ((length p - 64) div 64)"
      by (simp add: div_if)
    with True 1 show ?thesis
      by (simp add: md5_full_blocks.simps [of pms p] md5_chain.simps [of _ p] md5_process_def
            add.commute)
  next
    case False
    then show ?thesis by (simp add: md5_full_blocks.simps [of pms p])
  qed
qed

section \<open>The streaming interface computes the reference digest\<close>

text \<open>A state that has taken in the message \<open>m\<close>.\<close>

definition md5_repr :: "md5_state \<Rightarrow> bytes \<Rightarrow> bool" where
  "md5_repr st m \<longleftrightarrow>
     length (md5_buf st) = 64 \<and>
     md5_count st = (of_nat (8 * length m), of_nat (8 * length m div 2 ^ 32)) \<and>
     md5_abcd st = md5_chain md5_iv m \<and>
     take (length m mod 64) (md5_buf st) = drop (64 * (length m div 64)) m"


lemma unat_and_63: "unat ((x :: u32) AND 63) = unat x mod 64"
proof -
  have "x AND 63 = take_bit 6 x" by (simp add: take_bit_eq_mask mask_numeral)
  then show ?thesis by (simp only: unsigned_take_bit_eq) (simp add: take_bit_eq_mod)
qed

lemma unat_drop_bit_3: "unat (drop_bit 3 (x :: u32)) = unat x div 8"
  by (simp add: drop_bit_eq_div unat_div)

lemma unat_of_nat_8: "unat (of_nat (8 * n) :: u32) = 8 * n mod 2 ^ 32"
  by (simp only: unat_of_nat) simp

lemma eight_mod_div: "(8 * n mod 2 ^ 32) div 8 = n mod (2 ^ 29 :: nat)"
  using mod_mult_mult1 [of 8 n "2 ^ 29"] by simp

lemma md5_offset:
  "unat (drop_bit 3 (of_nat (8 * n) :: u32) AND 63) = n mod 64"
  by (simp only: unat_and_63 unat_drop_bit_3 unat_of_nat_8 eight_mod_div)
     (simp add: mod_mod_cancel)

lemma md5_npad:
  "unat ((55 - drop_bit 3 (of_nat (8 * n) :: u32)) AND 63) = nat ((55 - int n) mod 64)"
proof -
  let ?d = "drop_bit 3 (of_nat (8 * n) :: u32)"
  have d: "uint ?d = int (n mod 2 ^ 29)"
    by (simp only: uint_nat unat_drop_bit_3 unat_of_nat_8 eight_mod_div)
  have "int (unat (55 - ?d)) mod 64 = (55 - uint ?d) mod 64"
    by (simp only: uint_nat [symmetric] uint_sub_lem uint_word_ariths)
       (simp add: mod_mod_cancel)
  also have "\<dots> = (55 - int n mod 2 ^ 29) mod 64"
    by (simp only: d zmod_int of_nat_power of_nat_numeral)
  also have "\<dots> = (55 - int n) mod 64"
    using mod_diff_right_eq [of 55 "int n mod 2 ^ 29" 64] mod_diff_right_eq [of 55 "int n" 64]
    by (simp add: mod_mod_cancel)
  finally have "int (unat (55 - ?d) mod 64) = (55 - int n) mod 64"
    by (simp add: zmod_int)
  then show ?thesis by (simp only: unat_and_63)
qed

lemma div_sum_carry:
  fixes a b M :: nat
  assumes "0 < M"
  shows "(a + b) div M = a div M + b div M + (if M \<le> a mod M + b mod M then 1 else 0)"
proof -
  have r: "a mod M < M" "b mod M < M" using assms by simp_all
  have "(a mod M + b mod M) div M = (if M \<le> a mod M + b mod M then 1 else 0)"
  proof (cases "M \<le> a mod M + b mod M")
    case True
    then have "(a mod M + b mod M) div M = Suc ((a mod M + b mod M - M) div M)"
      using assms by (simp only: le_div_geq)
    moreover from r have "a mod M + b mod M - M < M" by linarith
    ultimately show ?thesis using True by simp
  qed simp
  then show ?thesis by (simp only: div_add1_eq [of a b M])
qed

lemma word_add_carry:
  fixes x y :: u32
  shows "x + y < y \<longleftrightarrow> 2 ^ 32 \<le> unat x + unat y"
proof -
  have "unat (x + y) = (unat x + unat y) mod 2 ^ 32" by (simp add: unat_word_ariths)
  moreover have "unat x < 2 ^ 32" "unat y < 2 ^ 32"
    using unsigned_less [of x, where 'a = nat] unsigned_less [of y, where 'a = nat] by simp_all
  ultimately show ?thesis by (simp add: word_less_nat_alt mod_if split: if_splits)
qed

lemma md5_count_step:
  fixes l n :: nat
  defines "c0 \<equiv> (of_nat (8 * l) :: u32)" and "nb \<equiv> push_bit 3 (of_nat n :: u32)"
  shows "c0 + nb = of_nat (8 * (l + n))"
    and "(if c0 + nb < nb then of_nat (8 * l div 2 ^ 32) + of_nat (n div 2 ^ 29) + 1
          else of_nat (8 * l div 2 ^ 32) + of_nat (n div 2 ^ 29))
        = (of_nat (8 * (l + n) div 2 ^ 32) :: u32)"
proof -
  have nb: "nb = of_nat (8 * n)"
    by (simp add: nb_def push_bit_eq_mult)
  show "c0 + nb = of_nat (8 * (l + n))"
    by (simp add: c0_def nb algebra_simps)
  have carry: "c0 + nb < nb \<longleftrightarrow> 2 ^ 32 \<le> 8 * l mod 2 ^ 32 + 8 * n mod 2 ^ 32"
    by (simp only: word_add_carry c0_def nb unat_of_nat_8)
  have "n div 2 ^ 29 = 8 * n div 2 ^ 32"
    using div_mult_mult1 [of 8 n "2 ^ 29"] by simp
  moreover have "8 * (l + n) div 2 ^ 32 = 8 * l div 2 ^ 32 + 8 * n div 2 ^ 32
      + (if 2 ^ 32 \<le> 8 * l mod 2 ^ 32 + 8 * n mod 2 ^ 32 then 1 else 0)"
    using div_sum_carry [of "2 ^ 32" "8 * l" "8 * n"] by (simp only: distrib_left) simp
  ultimately show "(if c0 + nb < nb then of_nat (8 * l div 2 ^ 32) + of_nat (n div 2 ^ 29) + 1
          else of_nat (8 * l div 2 ^ 32) + of_nat (n div 2 ^ 29))
        = (of_nat (8 * (l + n) div 2 ^ 32) :: u32)"
    by (simp only: carry of_nat_add) (simp split: if_splits)
qed


lemma md5_chain_split:
  "md5_chain h (m @ d)
     = md5_chain (md5_chain h m) (drop (64 * (length m div 64)) m @ d)"
proof -
  let ?full = "take (64 * (length m div 64)) m" and ?tail = "drop (64 * (length m div 64)) m"
  have full: "length ?full mod 64 = 0" by (simp add: min.absorb2)
  have tail: "length ?tail < 64" by (simp add: minus_mult_div_eq_mod)
  have "md5_chain h m = md5_chain (md5_chain h ?full) ?tail"
    using md5_chain_append [OF full, of h ?tail] by simp
  also have "\<dots> = md5_chain h ?full" using tail by simp
  finally have "md5_chain h m = md5_chain h ?full" .
  moreover have "md5_chain h (m @ d) = md5_chain (md5_chain h ?full) (?tail @ d)"
    using md5_chain_append [OF full, of h "?tail @ d"] by (simp flip: append_assoc)
  ultimately show ?thesis by simp
qed

lemma md5_append_rest_repr:
  assumes buf: "length (md5_buf st) = 64"
    and abcd: "md5_abcd st = md5_chain md5_iv m"
    and len: "length m mod 64 = 0"
    and cnt: "md5_count st = (of_nat (8 * length (m @ p)), of_nat (8 * length (m @ p) div 2 ^ 32))"
  shows "md5_repr (md5_append_rest st p) (m @ p)"
proof -
  let ?left = "drop (64 * (length p div 64)) p"
  have left: "length ?left = length p mod 64" by (simp add: minus_mult_div_eq_mod)
  from len obtain k where k: "length m = 64 * k" by (metis mod_0_imp_dvd dvdE)
  then have drop: "drop (64 * (length (m @ p) div 64)) (m @ p) = ?left"
    and md: "length (m @ p) mod 64 = length p mod 64"
    by (simp_all add: distrib_left)
  have "md5_chain md5_iv (m @ p) = md5_chain (md5_abcd st) p"
    using abcd by (simp add: md5_chain_append [OF len])
  moreover have "length p mod 64 < 64" by simp
  ultimately show ?thesis
    using buf cnt left drop md
    by (auto simp: md5_repr_def md5_append_rest_def md5_full_blocks_chain Let_def)
qed

lemma mod_div_add_small:
  fixes l n :: nat
  assumes "l mod 64 + n < 64"
  shows "(l + n) mod 64 = l mod 64 + n" and "(l + n) div 64 = l div 64"
proof -
  have "l + n = (l mod 64 + n) + 64 * (l div 64)" by simp
  then show "(l + n) mod 64 = l mod 64 + n" and "(l + n) div 64 = l div 64"
    using assms by (metis mod_mult_self2 mod_less, metis div_mult_self2 div_less add_0_right
        zero_neq_numeral add.commute)
qed

lemma mod_fill_block: "(l + (64 - l mod 64)) mod 64 = (0 :: nat)"
proof -
  define q r where "q = l div 64" and "r = l mod 64"
  then have "l = 64 * q + r" and "r < 64" by simp_all
  then have "l + (64 - r) = 64 * Suc q" by simp
  then show ?thesis by (simp add: r_def)
qed

lemma md5_append_repr:
  assumes "md5_repr st m"
  shows "md5_repr (md5_append st d) (m @ d)"
proof (cases "d = []")
  case True
  with assms show ?thesis by (simp add: md5_append_def)
next
  case False
  let ?o = "length m mod 64" and ?n = "length d"
  let ?tail = "drop (64 * (length m div 64)) m"
  let ?st = "st\<lparr>md5_count := (of_nat (8 * length (m @ d)), of_nat (8 * length (m @ d) div 2 ^ 32))\<rparr>"
  from assms have buf: "length (md5_buf st) = 64"
    and cnt: "md5_count st = (of_nat (8 * length m), of_nat (8 * length m div 2 ^ 32))"
    and abcd: "md5_abcd st = md5_chain md5_iv m"
    and tail: "take ?o (md5_buf st) = ?tail"
    by (simp_all only: md5_repr_def)
  have ltail: "length ?tail = ?o" by (simp add: minus_mult_div_eq_mod)
  have step: "md5_append st d =
      (if ?o = 0 then md5_append_rest ?st d
       else let copy = (if ?o + ?n > 64 then 64 - ?o else ?n);
                st' = ?st\<lparr>md5_buf := ?tail @ take copy d @ drop (?o + copy) (md5_buf st)\<rparr>
            in if ?o + copy < 64 then st'
               else md5_append_rest (md5_process st' (md5_buf st')) (drop copy d))"
    using False md5_count_step [of "length m" "length d"]
    by (simp only: md5_append_def cnt fst_conv snd_conv md5_offset Let_def tail length_append
          md5_state.simps length_0_conv if_False if_not_P simp_thms) (simp add: tail)
  consider "?o = 0" | "?o \<noteq> 0" "?o + ?n < 64" | "?o \<noteq> 0" "64 \<le> ?o + ?n" by linarith
  then show ?thesis
  proof cases
    case 1
    then have "md5_append st d = md5_append_rest ?st d" by (simp only: step simp_thms if_True)
    then show ?thesis
      using md5_append_rest_repr [of ?st m d] buf abcd 1 by simp
  next
    case 2
    then have app: "md5_append st d = ?st\<lparr>md5_buf := ?tail @ d @ drop (?o + ?n) (md5_buf st)\<rparr>"
      by (simp add: step Let_def)
    have "md5_chain md5_iv (m @ d) = md5_chain md5_iv m"
      using 2 ltail by (subst md5_chain_split) simp
    moreover have "length (m @ d) mod 64 = ?o + ?n" "length (m @ d) div 64 = length m div 64"
      using mod_div_add_small [OF 2(2)] by simp_all
    ultimately show ?thesis
      using buf abcd ltail 2 by (simp add: md5_repr_def app)
  next
    case 3
    let ?c = "64 - ?o" let ?blk = "?tail @ take ?c d"
    have c: "(if ?o + ?n > 64 then 64 - ?o else ?n) = ?c" using 3 by auto
    have "?o < 64" by simp
    then have oc: "?o + ?c = 64" by linarith
    have blk: "length ?blk = 64" using 3 ltail oc by simp
    let ?st' = "?st\<lparr>md5_buf := ?blk\<rparr>"
    have app: "md5_append st d = md5_append_rest (md5_process ?st' ?blk) (drop ?c d)"
      using 3(1) drop_all [of "md5_buf st" 64] buf
      by (simp only: step c oc Let_def if_False less_irrefl append_Nil2 order_refl simp_thms) simp
    have "md5_chain md5_iv (m @ take ?c d) = md5_compress (md5_abcd st) ?blk"
      using abcd blk by (subst md5_chain_split) (simp add: md5_chain_block)
    moreover have "length (m @ take ?c d) mod 64 = 0"
      using mod_fill_block [of "length m"] 3(2)
      by (simp only: length_append length_take min.absorb2 le_diff_conv add.commute)
    ultimately have "md5_repr (md5_append_rest (md5_process ?st' ?blk) (drop ?c d))
        ((m @ take ?c d) @ drop ?c d)"
      using blk by (intro md5_append_rest_repr) (simp_all add: md5_process_def)
    then show ?thesis by (simp add: app)
  qed
qed

lemma md5_init_repr: "length (md5_buf st) = 64 \<Longrightarrow> md5_repr (md5_init st) []"
  by (simp add: md5_repr_def md5_init_def md5_iv_def T_MASK_def)

lemma md5_appends_repr:
  "md5_repr st m \<Longrightarrow> md5_repr (foldl md5_append st ds) (m @ concat ds)"
  by (induction ds arbitrary: st m) (simp, metis append.assoc concat.simps(2) foldl_Cons md5_append_repr)

lemma md5_finish_repr:
  assumes "md5_repr st m"
  shows "snd (md5_finish st) = md5_reference m"
proof -
  let ?n = "length m"
  let ?z = "nat ((55 - int ?n) mod 64)"
  have cnt: "md5_count st = (of_nat (8 * ?n), of_nat (8 * ?n div 2 ^ 32))"
    using assms by (simp only: md5_repr_def)
  have "?z < 64" by (simp add: nat_less_iff)
  then have pad: "take (?z + 1) md5_pad = 0x80 # replicate ?z 0"
    by (simp add: md5_pad_def min_def)
  let ?data = "le32 (of_nat (8 * ?n)) @ le32 (of_nat (8 * ?n div 2 ^ 32))"
  have "md5_repr (md5_append (md5_append st (take (?z + 1) md5_pad)) ?data)
      ((m @ take (?z + 1) md5_pad) @ ?data)"
    by (intro md5_append_repr assms)
  then have "md5_abcd (md5_append (md5_append st (take (?z + 1) md5_pad)) ?data)
      = md5_chain md5_iv (m @ md5_padding ?n)"
    by (simp only: md5_repr_def pad md5_padding_def append_assoc append_Cons)
  then show ?thesis
    by (simp only: md5_finish_def Let_def cnt fst_conv snd_conv md5_npad md5_reference_def)
qed

text \<open>
  C12. The streaming interface computes MD5: whatever the pieces in which the message is appended, and
  whatever was in the state before, the digest is that of the padded message hashed block by block.
\<close>

theorem md5_streaming_correct:
  assumes "length (md5_buf st) = 64"
  shows "snd (md5_finish (foldl md5_append (md5_init st) chunks)) = md5_reference (concat chunks)"
  using md5_finish_repr [OF md5_appends_repr [OF md5_init_repr [OF assms], of chunks]] by simp


theorem md5_streaming_correct_witness:
  "snd (md5_finish (foldl md5_append
      (md5_init \<lparr>md5_count = (7, 7), md5_abcd = (1, 2, 3, 4), md5_buf = replicate 64 0\<rparr>)
      [[0x61], [0x62, 0x63]])) = md5_reference [0x61, 0x62, 0x63]"
  using md5_streaming_correct
    [of "\<lparr>md5_count = (7, 7), md5_abcd = (1, 2, 3, 4), md5_buf = replicate 64 0\<rparr>" "[[0x61], [0x62, 0x63]]"]
  by simp

lemma md5_T_constants:
  "md5_T =
    [0xd76aa478, 0xe8c7b756, 0x242070db, 0xc1bdceee, 0xf57c0faf, 0x4787c62a, 0xa8304613, 0xfd469501,
     0x698098d8, 0x8b44f7af, 0xffff5bb1, 0x895cd7be, 0x6b901122, 0xfd987193, 0xa679438e, 0x49b40821,
     0xf61e2562, 0xc040b340, 0x265e5a51, 0xe9b6c7aa, 0xd62f105d, 0x02441453, 0xd8a1e681, 0xe7d3fbc8,
     0x21e1cde6, 0xc33707d6, 0xf4d50d87, 0x455a14ed, 0xa9e3e905, 0xfcefa3f8, 0x676f02d9, 0x8d2a4c8a,
     0xfffa3942, 0x8771f681, 0x6d9d6122, 0xfde5380c, 0xa4beea44, 0x4bdecfa9, 0xf6bb4b60, 0xbebfbc70,
     0x289b7ec6, 0xeaa127fa, 0xd4ef3085, 0x04881d05, 0xd9d4d039, 0xe6db99e5, 0x1fa27cf8, 0xc4ac5665,
     0xf4292244, 0x432aff97, 0xab9423a7, 0xfc93a039, 0x655b59c3, 0x8f0ccc92, 0xffeff47d, 0x85845dd1,
     0x6fa87e4f, 0xfe2ce6e0, 0xa3014314, 0x4e0811a1, 0xf7537e82, 0xbd3af235, 0x2ad7d2bb, 0xeb86d391]"
  by (simp add: md5_T_def T_MASK_def)

section \<open>A test vector of RFC 1321\<close>

lemma md5_replicate_52: "replicate 52 (0::u8) = [0, 0, 0, 0, 0, 0, 0, 0, 0, 0, 0, 0, 0, 0, 0, 0,
    0, 0, 0, 0, 0, 0, 0, 0, 0, 0, 0, 0, 0, 0, 0, 0, 0, 0, 0, 0, 0, 0, 0, 0, 0, 0, 0, 0, 0, 0, 0,
    0, 0, 0, 0, 0]"
  by (simp add: numeral_eq_Suc)

lemma md5_pad_abc: "[0x61, 0x62, 0x63] @ md5_padding 3 = [0x61, 0x62, 0x63, 0x80, 0, 0, 0, 0, 0,
    0, 0, 0, 0, 0, 0, 0, 0, 0, 0, 0, 0, 0, 0, 0, 0, 0, 0, 0, 0, 0, 0, 0, 0, 0, 0, 0, 0, 0, 0, 0,
    0, 0, 0, 0, 0, 0, 0, 0, 0, 0, 0, 0, 0, 0, 0, 0, 0x18, 0, 0, 0, 0, 0, 0, 0]"
  by (simp add: md5_padding_def le32_def md5_replicate_52)

lemma md5_words_abc: "md5_words [0x61, 0x62, 0x63, 0x80, 0, 0, 0, 0, 0, 0, 0, 0, 0, 0, 0, 0, 0, 0,
    0, 0, 0, 0, 0, 0, 0, 0, 0, 0, 0, 0, 0, 0, 0, 0, 0, 0, 0, 0, 0, 0, 0, 0, 0, 0, 0, 0, 0, 0, 0,
    0, 0, 0, 0, 0, 0, 0, 0x18, 0, 0, 0, 0, 0, 0, 0] = [0x80636261, 0, 0, 0, 0, 0, 0, 0, 0, 0, 0,
    0, 0, 0, 0x18, 0]"
  by (simp add: md5_words_def upt_rec of_le32_def)

lemma md5_compress_abc:
  "md5_compress md5_iv [0x61, 0x62, 0x63, 0x80, 0, 0, 0, 0, 0, 0, 0, 0, 0, 0, 0, 0, 0, 0, 0, 0, 0,
      0, 0, 0, 0, 0, 0, 0, 0, 0, 0, 0, 0, 0, 0, 0, 0, 0, 0, 0, 0, 0, 0, 0, 0, 0, 0, 0, 0, 0, 0, 0,
      0, 0, 0, 0, 0x18, 0, 0, 0, 0, 0, 0, 0] = (0x98500190, 0xb04fd23c, 0x7d3f96d6, 0x727fe128)"
  by (simp add: md5_compress_def md5_words_abc md5_iv_def md5_round1_def md5_round2_def
      md5_round3_def
      md5_round4_def md5_T_constants ROTATE_LEFT_def md5_F_def md5_G_def md5_H_def md5_I_def)

text \<open>
  The digest of ''abc'' is the one in the test suite of RFC 1321.
\<close>

theorem md5_rfc_vector:
  "snd (md5_finish (foldl md5_append
      (md5_init \<lparr>md5_count = (0, 0), md5_abcd = (0, 0, 0, 0), md5_buf = replicate 64 0\<rparr>)
      [[0x61], [0x62, 0x63]]))
   = [0x90, 0x01, 0x50, 0x98, 0x3c, 0xd2, 0x4f, 0xb0, 0xd6, 0x96, 0x3f, 0x7d, 0x28, 0xe1, 0x7f, 0x72]"
proof -
  have "md5_reference [0x61, 0x62, 0x63] = [0x90, 0x01, 0x50, 0x98, 0x3c, 0xd2, 0x4f, 0xb0, 0xd6, 0x96, 0x3f, 0x7d, 0x28, 0xe1, 0x7f, 0x72]"
  proof -
    have "length [0x61, 0x62, 0x63 :: u8] = 3" by simp
    then have "md5_reference [0x61, 0x62, 0x63]
        = md5_digest_of (md5_chain md5_iv ([0x61, 0x62, 0x63] @ md5_padding 3))"
      by (simp only: md5_reference_def)
    also have "\<dots> = md5_digest_of (md5_compress md5_iv ([0x61, 0x62, 0x63] @ md5_padding 3))"
      by (subst md5_chain_block) (simp_all only: md5_pad_abc, simp)
    finally show ?thesis
      by (simp only: md5_pad_abc md5_compress_abc) (simp add: md5_digest_of_def le32_def)
  qed
  then show ?thesis
    by (subst md5_finish_repr [OF md5_appends_repr [OF md5_init_repr]]) simp_all
qed

end
