(* ===== verification/Ipmi_Intf.thy ===== *)
theory Ipmi_Intf
  imports Ipmi_Helper
begin

text \<open>
  The interface and session structures of ipmitool (\<open>include/ipmitool/ipmi_intf.h\<close>), the setters
  that the command line uses to fill a session (\<open>src/plugins/ipmi_intf.c\<close>), and the OEM handles
  (\<open>lib/ipmi_oem.c\<close>).

  The fields of the structures that only the RMCP+ and serial-over-LAN code uses are left out.
  Character arrays are byte lists of the array's size. The function pointers of \<open>struct ipmi_intf\<close>
  are not fields: the operations that call through them take the function as an argument.
\<close>

section \<open>Structures\<close>

record ipmi_session =
  s_hostname :: bytes
  s_username :: bytes
  s_authcode :: bytes
  s_challenge :: bytes
  s_authtype :: u8
  s_authtype_set :: u8
  s_authstatus :: u8
  s_privlvl :: u8
  s_cipher_suite_id :: u8
  s_sol_escape_char :: u8
  s_password :: bool
  s_port :: int
  s_active :: bool
  s_retry :: int
  s_session_id :: u32
  s_in_seq :: u32
  s_timeout :: u32
  s_lookupbit :: u8
  s_kg :: bytes

record ipmi_intf =
  i_fd :: int
  i_opened :: bool
  i_abort :: bool
  i_noanswer :: bool
  i_session :: "ipmi_session option"
  i_oem :: "string option"
  i_my_addr :: u32
  i_target_addr :: u32
  i_target_channel :: u8

abbreviation (input) IPMI_AUTHCODE_BUFFER_SIZE :: nat where "IPMI_AUTHCODE_BUFFER_SIZE \<equiv> 20"
abbreviation (input) IPMI_KG_BUFFER_SIZE :: nat where "IPMI_KG_BUFFER_SIZE \<equiv> 21"

abbreviation (input) IPMI_SESSION_AUTHTYPE_NONE :: u8 where "IPMI_SESSION_AUTHTYPE_NONE \<equiv> 0"
abbreviation (input) IPMI_SESSION_AUTHTYPE_MD2 :: u8 where "IPMI_SESSION_AUTHTYPE_MD2 \<equiv> 1"
abbreviation (input) IPMI_SESSION_AUTHTYPE_MD5 :: u8 where "IPMI_SESSION_AUTHTYPE_MD5 \<equiv> 2"
abbreviation (input) IPMI_SESSION_AUTHTYPE_PASSWORD :: u8 where "IPMI_SESSION_AUTHTYPE_PASSWORD \<equiv> 4"
abbreviation (input) IPMI_SESSION_AUTHTYPE_OEM :: u8 where "IPMI_SESSION_AUTHTYPE_OEM \<equiv> 5"

text \<open>\<open>memset(intf->session, 0, sizeof(struct ipmi_session))\<close> of \<open>ipmi_lan_setup\<close>.\<close>

definition zero_session :: ipmi_session where
  "zero_session = \<lparr>s_hostname = replicate 64 0, s_username = replicate 17 0,
     s_authcode = replicate 21 0, s_challenge = replicate 16 0, s_authtype = 0, s_authtype_set = 0,
     s_authstatus = 0, s_privlvl = 0, s_cipher_suite_id = 0, s_sol_escape_char = 0,
     s_password = False, s_port = 0, s_active = False, s_retry = 0, s_session_id = 0, s_in_seq = 0,
     s_timeout = 0, s_lookupbit = 0, s_kg = replicate 21 0\<rparr>"

text \<open>The sizes of the character arrays, which every operation keeps.\<close>

definition session_wf :: "ipmi_session \<Rightarrow> bool" where
  "session_wf s \<longleftrightarrow> length (s_hostname s) = 64 \<and> length (s_username s) = 17 \<and>
     length (s_authcode s) = 21 \<and> length (s_challenge s) = 16 \<and> length (s_kg s) = 21"

section \<open>Copies into arrays\<close>

text \<open>\<open>memcpy(dst + off, src, n)\<close> with \<open>src\<close> the \<open>n\<close> bytes copied.\<close>

definition memcpy_at :: "bytes \<Rightarrow> nat \<Rightarrow> bytes \<Rightarrow> bytes" where
  "memcpy_at dst off src = take off dst @ src @ drop (off + length src) dst"

lemma length_memcpy_at [simp]:
  "off + length src \<le> length dst \<Longrightarrow> length (memcpy_at dst off src) = length dst"
  by (simp add: memcpy_at_def)

lemma nth_memcpy_at:
  "off + length src \<le> length dst \<Longrightarrow> i < length dst \<Longrightarrow>
     memcpy_at dst off src ! i =
       (if off \<le> i \<and> i < off + length src then src ! (i - off) else dst ! i)"
  by (auto simp: memcpy_at_def nth_append)

text \<open>A NUL-terminated string in a byte array: what \<open>strlen\<close> and \<open>printf\<close> see.\<close>

definition cstring :: "bytes \<Rightarrow> bytes" where
  "cstring b = takeWhile (\<lambda>c. c \<noteq> 0) b"

lemma cstring_memcpy_zero:
  assumes "0 \<notin> set src" and "length src < length dst" and "dst ! length src = 0"
  shows "cstring (memcpy_at dst 0 src) = src"
proof -
  have "drop (length src) dst = 0 # drop (Suc (length src)) dst"
    using assms(2,3) by (metis Cons_nth_drop_Suc)
  with assms(1) show ?thesis
    by (simp add: cstring_def memcpy_at_def takeWhile_append)
qed

section \<open>Session setters of \<open>ipmi_intf.c\<close>\<close>

text \<open>Each does nothing when the interface has no session.\<close>

definition on_session :: "(ipmi_session \<Rightarrow> ipmi_session) \<Rightarrow> ipmi_intf \<Rightarrow> ipmi_intf" where
  "on_session f intf =
     (case i_session intf of None \<Rightarrow> intf | Some s \<Rightarrow> intf\<lparr>i_session := Some (f s)\<rparr>)"

definition ipmi_intf_session_set_hostname :: "bytes option \<Rightarrow> ipmi_intf \<Rightarrow> ipmi_intf" where
  "ipmi_intf_session_set_hostname hostname = on_session (\<lambda>s.
     let h = memcpy_at (s_hostname s) 0 (replicate 16 0)
     in s\<lparr>s_hostname := (case hostname of None \<Rightarrow> h
          | Some n \<Rightarrow> memcpy_at h 0 (take (min (length n) 64) n))\<rparr>)"

definition ipmi_intf_session_set_username :: "bytes option \<Rightarrow> ipmi_intf \<Rightarrow> ipmi_intf" where
  "ipmi_intf_session_set_username username = on_session (\<lambda>s.
     let u = memcpy_at (s_username s) 0 (replicate 17 0)
     in s\<lparr>s_username := (case username of None \<Rightarrow> u
          | Some n \<Rightarrow> memcpy_at u 0 (take (min (length n) 16) n))\<rparr>)"

definition ipmi_intf_session_set_password :: "bytes option \<Rightarrow> ipmi_intf \<Rightarrow> ipmi_intf" where
  "ipmi_intf_session_set_password password = on_session (\<lambda>s.
     let a = memcpy_at (s_authcode s) 0 (replicate IPMI_AUTHCODE_BUFFER_SIZE 0)
     in (case password of None \<Rightarrow> s\<lparr>s_authcode := a, s_password := False\<rparr>
         | Some p \<Rightarrow> s\<lparr>s_password := True,
             s_authcode := memcpy_at a 0 (take (min (length p) IPMI_AUTHCODE_BUFFER_SIZE) p)\<rparr>))"

definition ipmi_intf_session_set_privlvl :: "u8 \<Rightarrow> ipmi_intf \<Rightarrow> ipmi_intf" where
  "ipmi_intf_session_set_privlvl level = on_session (\<lambda>s. s\<lparr>s_privlvl := level\<rparr>)"

definition ipmi_intf_session_set_lookupbit :: "u8 \<Rightarrow> ipmi_intf \<Rightarrow> ipmi_intf" where
  "ipmi_intf_session_set_lookupbit lookupbit = on_session (\<lambda>s. s\<lparr>s_lookupbit := lookupbit\<rparr>)"

definition ipmi_intf_session_set_cipher_suite_id :: "u8 \<Rightarrow> ipmi_intf \<Rightarrow> ipmi_intf" where
  "ipmi_intf_session_set_cipher_suite_id c = on_session (\<lambda>s. s\<lparr>s_cipher_suite_id := c\<rparr>)"

definition ipmi_intf_session_set_sol_escape_char :: "u8 \<Rightarrow> ipmi_intf \<Rightarrow> ipmi_intf" where
  "ipmi_intf_session_set_sol_escape_char c = on_session (\<lambda>s. s\<lparr>s_sol_escape_char := c\<rparr>)"

definition ipmi_intf_session_set_kgkey :: "bytes option \<Rightarrow> ipmi_intf \<Rightarrow> ipmi_intf" where
  "ipmi_intf_session_set_kgkey kgkey = on_session (\<lambda>s.
     let k = memcpy_at (s_kg s) 0 (replicate IPMI_KG_BUFFER_SIZE 0)
     in s\<lparr>s_kg := (case kgkey of None \<Rightarrow> k
          | Some n \<Rightarrow> memcpy_at k 0 (take (min (length n) IPMI_KG_BUFFER_SIZE) n))\<rparr>)"

definition ipmi_intf_session_set_port :: "int \<Rightarrow> ipmi_intf \<Rightarrow> ipmi_intf" where
  "ipmi_intf_session_set_port port = on_session (\<lambda>s. s\<lparr>s_port := port\<rparr>)"

definition ipmi_intf_session_set_authtype :: "u8 \<Rightarrow> ipmi_intf \<Rightarrow> ipmi_intf" where
  "ipmi_intf_session_set_authtype authtype = on_session (\<lambda>s.
     let s = (if authtype = IPMI_SESSION_AUTHTYPE_NONE
              then s\<lparr>s_authcode := memcpy_at (s_authcode s) 0 (replicate IPMI_AUTHCODE_BUFFER_SIZE 0),
                     s_password := False\<rparr>
              else s)
     in s\<lparr>s_authtype_set := authtype\<rparr>)"

definition ipmi_intf_session_set_timeout :: "u32 \<Rightarrow> ipmi_intf \<Rightarrow> ipmi_intf" where
  "ipmi_intf_session_set_timeout t = on_session (\<lambda>s. s\<lparr>s_timeout := t\<rparr>)"

definition ipmi_intf_session_set_retry :: "int \<Rightarrow> ipmi_intf \<Rightarrow> ipmi_intf" where
  "ipmi_intf_session_set_retry r = on_session (\<lambda>s. s\<lparr>s_retry := r\<rparr>)"

section \<open>OEM handles of \<open>ipmi_oem.c\<close>\<close>

text \<open>\<open>strncmp(a, b, n) == 0\<close> for two C strings.\<close>

definition strncmp_eq :: "string \<Rightarrow> string \<Rightarrow> nat \<Rightarrow> bool" where
  "strncmp_eq a b n \<longleftrightarrow> take n a = take n b"

datatype oem_setup = NoSetup | SupermicroSetup | IbmSetup

definition ipmi_oem_list :: "(string \<times> oem_setup) list" where
  "ipmi_oem_list = [(''supermicro'', SupermicroSetup), (''intelwv2'', NoSetup),
     (''intelplus'', NoSetup), (''icts'', NoSetup), (''ibm'', IbmSetup)]"

definition ipmi_oem_supermicro :: "ipmi_intf \<Rightarrow> int \<times> ipmi_intf" where
  "ipmi_oem_supermicro intf = (0, ipmi_intf_session_set_authtype IPMI_SESSION_AUTHTYPE_OEM intf)"

text \<open>
  The environment variable \<open>IPMI_OEM_IBM_DATAFILE\<close> and \<open>ipmi_sel_oem_init\<close>, which reads the file
  it names, are arguments.
\<close>

definition ipmi_oem_ibm :: "string option \<Rightarrow> (string \<Rightarrow> int) \<Rightarrow> ipmi_intf \<Rightarrow> int \<times> ipmi_intf" where
  "ipmi_oem_ibm datafile sel_oem_init intf =
     (case datafile of None \<Rightarrow> (-1, intf) | Some f \<Rightarrow> (sel_oem_init f, intf))"

text \<open>
  The first test of \<open>ipmi_oem_setup\<close> calls \<open>strncmp\<close> on the argument before it is compared with
  NULL, so a null argument faults.
\<close>

definition ipmi_oem_setup ::
  "string option \<Rightarrow> (string \<Rightarrow> int) \<Rightarrow> string option \<Rightarrow> ipmi_intf \<Rightarrow> fault + int \<times> ipmi_intf" where
  "ipmi_oem_setup datafile sel_oem_init oemtype intf =
     (case oemtype of None \<Rightarrow> Inl NullPointer
      | Some t \<Rightarrow>
        if strncmp_eq t ''help'' 4 \<or> strncmp_eq t ''list'' 4 then Inr (-1, intf)
        else (case find (\<lambda>(name, _). strncmp_eq t name (length name)) ipmi_oem_list of
                None \<Rightarrow> Inr (-1, intf)
              | Some (name, setup) \<Rightarrow>
                  let intf = intf\<lparr>i_oem := Some name\<rparr>
                  in Inr (case setup of
                            NoSetup \<Rightarrow> (0, intf)
                          | SupermicroSetup \<Rightarrow> ipmi_oem_supermicro intf
                          | IbmSetup \<Rightarrow> ipmi_oem_ibm datafile sel_oem_init intf)))"

definition ipmi_oem_active :: "ipmi_intf \<Rightarrow> string \<Rightarrow> bool" where
  "ipmi_oem_active intf oemtype =
     (case i_oem intf of None \<Rightarrow> False | Some name \<Rightarrow> strncmp_eq name oemtype (length oemtype))"

section \<open>Properties of the setters\<close>

definition intf_wf :: "ipmi_intf \<Rightarrow> bool" where
  "intf_wf intf \<longleftrightarrow> (\<forall>s. i_session intf = Some s \<longrightarrow> session_wf s)"

lemma zero_session_wf: "session_wf zero_session"
  by (simp add: session_wf_def zero_session_def)

lemma on_session_wf:
  "(\<And>s. session_wf s \<Longrightarrow> session_wf (f s)) \<Longrightarrow> intf_wf intf \<Longrightarrow> intf_wf (on_session f intf)"
  by (auto simp: intf_wf_def on_session_def split: option.splits)

lemmas setter_defs = ipmi_intf_session_set_hostname_def ipmi_intf_session_set_username_def
  ipmi_intf_session_set_password_def ipmi_intf_session_set_privlvl_def
  ipmi_intf_session_set_lookupbit_def ipmi_intf_session_set_cipher_suite_id_def
  ipmi_intf_session_set_sol_escape_char_def ipmi_intf_session_set_kgkey_def
  ipmi_intf_session_set_port_def ipmi_intf_session_set_authtype_def
  ipmi_intf_session_set_timeout_def ipmi_intf_session_set_retry_def


text \<open>One call of a setter, as the option processing of \<open>ipmi_main.c\<close> makes them.\<close>

datatype session_opt =
    OptHostname "bytes option" | OptUsername "bytes option" | OptPassword "bytes option"
  | OptPrivlvl u8 | OptLookupbit u8 | OptCipher u8 | OptEscape u8 | OptKgkey "bytes option"
  | OptPort int | OptAuthtype u8 | OptTimeout u32 | OptRetry int

fun set_opt :: "session_opt \<Rightarrow> ipmi_intf \<Rightarrow> ipmi_intf" where
  "set_opt (OptHostname h) = ipmi_intf_session_set_hostname h"
| "set_opt (OptUsername u) = ipmi_intf_session_set_username u"
| "set_opt (OptPassword p) = ipmi_intf_session_set_password p"
| "set_opt (OptPrivlvl l) = ipmi_intf_session_set_privlvl l"
| "set_opt (OptLookupbit b) = ipmi_intf_session_set_lookupbit b"
| "set_opt (OptCipher c) = ipmi_intf_session_set_cipher_suite_id c"
| "set_opt (OptEscape c) = ipmi_intf_session_set_sol_escape_char c"
| "set_opt (OptKgkey k) = ipmi_intf_session_set_kgkey k"
| "set_opt (OptPort p) = ipmi_intf_session_set_port p"
| "set_opt (OptAuthtype a) = ipmi_intf_session_set_authtype a"
| "set_opt (OptTimeout t) = ipmi_intf_session_set_timeout t"
| "set_opt (OptRetry r) = ipmi_intf_session_set_retry r"

text \<open>
  What the setters keep: the array sizes, and a NUL in the last byte of the user name and of the
  password buffer, so that both are always C strings.
\<close>

definition session_ok :: "ipmi_session \<Rightarrow> bool" where
  "session_ok s \<longleftrightarrow> session_wf s \<and> s_username s ! 16 = 0 \<and> s_authcode s ! 20 = 0"

lemma set_opt_ok:
  assumes "i_session intf = Some s" and "session_ok s"
  shows "\<exists>s'. i_session (set_opt opt intf) = Some s' \<and> session_ok s'"
  using assms
  by (cases opt)
     (auto simp: setter_defs on_session_def session_ok_def session_wf_def nth_memcpy_at Let_def
       split: option.splits)

text \<open>
  Any sequence of session options, with arguments of any length, leaves the arrays of the session at
  their sizes and the user name and the password NUL-terminated: the setters truncate what does not fit.
\<close>

theorem session_setters_memory_safe:
  assumes "i_session intf = Some s" and "session_ok s"
  shows "\<exists>s'. i_session (fold set_opt opts intf) = Some s' \<and> session_ok s'"
  using assms
proof (induction opts arbitrary: intf s)
  case Nil
  then show ?case by simp
next
  case (Cons opt opts)
  from set_opt_ok [OF Cons.prems] show ?case
    using Cons.IH by auto
qed

theorem session_setters_memory_safe_witness:
  "\<exists>s'. i_session (fold set_opt [OptPassword (Some (replicate 40 7)), OptUsername (Some [1, 2])]
      \<lparr>i_fd = 0, i_opened = False, i_abort = False, i_noanswer = False,
       i_session = Some zero_session, i_oem = None, i_my_addr = 0, i_target_addr = 32,
       i_target_channel = 0\<rparr>) = Some s' \<and> session_ok s'"
  by (rule session_setters_memory_safe [where s = zero_session])
     (simp_all add: session_ok_def zero_session_wf, simp_all add: zero_session_def)

text \<open>
  A password without a NUL byte that is stored with \<open>ipmi_intf_session_set_password\<close> reads back as
  its first twenty bytes, the C string the digest code sees, whatever was stored before.
\<close>

theorem set_password_reads_back:
  assumes "i_session intf = Some s" and "session_ok s" and "0 \<notin> set p"
  shows "\<exists>s'. i_session (ipmi_intf_session_set_password (Some p) intf) = Some s' \<and>
    cstring (s_authcode s') = take 20 p \<and> s_password s'"
proof -
  let ?a = "memcpy_at (s_authcode s) 0 (replicate 20 0)" and ?p = "take (min (length p) 20) p"
  have tp: "?p = take 20 p" by (simp add: min_def)
  have l: "length (s_authcode s) = 21" and z: "s_authcode s ! 20 = 0"
    using assms(2) by (simp_all add: session_ok_def session_wf_def)
  have "?a ! length ?p = 0"
    using l z by (auto simp: nth_memcpy_at min_def)
  moreover have "0 \<notin> set ?p" using assms(3) by (auto dest: in_set_takeD)
  ultimately have "cstring (memcpy_at ?a 0 ?p) = ?p"
    by (rule_tac cstring_memcpy_zero) (simp_all add: l)
  then show ?thesis
    using assms(1) tp by (simp add: ipmi_intf_session_set_password_def on_session_def)
qed

theorem set_password_reads_back_witness:
  "\<exists>s'. i_session (ipmi_intf_session_set_password (Some [0x61, 0x62])
      \<lparr>i_fd = 0, i_opened = False, i_abort = False, i_noanswer = False,
       i_session = Some zero_session, i_oem = None, i_my_addr = 0, i_target_addr = 32,
       i_target_channel = 0\<rparr>) = Some s' \<and> cstring (s_authcode s') = [0x61, 0x62] \<and> s_password s'"
  using set_password_reads_back [where s = zero_session and p = "[0x61, 0x62]"
        and intf = "\<lparr>i_fd = 0, i_opened = False, i_abort = False, i_noanswer = False,
       i_session = Some zero_session, i_oem = None, i_my_addr = 0, i_target_addr = 32,
       i_target_channel = 0\<rparr>"]
  by (simp add: session_ok_def zero_session_wf) (simp add: zero_session_def)

text \<open>
  \<open>ipmi_intf_session_set_hostname\<close> clears only the first 16 of the 64 bytes, so a second call with
  a name of 16 bytes or more can leave the tail of a longer earlier name behind it.
\<close>

theorem set_hostname_leaves_stale_tail:
  "(case i_session (ipmi_intf_session_set_hostname (Some (replicate 16 0x62))
       (ipmi_intf_session_set_hostname (Some (replicate 20 0x61))
         \<lparr>i_fd = 0, i_opened = False, i_abort = False, i_noanswer = False,
          i_session = Some zero_session, i_oem = None, i_my_addr = 0, i_target_addr = 32,
          i_target_channel = 0\<rparr>)) of
      None \<Rightarrow> [] | Some s \<Rightarrow> cstring (s_hostname s))
   = replicate 16 0x62 @ replicate 4 0x61"
  by (simp add: ipmi_intf_session_set_hostname_def on_session_def zero_session_def cstring_def
        memcpy_at_def takeWhile_append)

end
