(* ===== verification/Lan_Auth.thy ===== *)
theory Lan_Auth
  imports Md5 Ipmi_Intf
begin

text \<open>
  \<open>ipmitool/src/plugins/lan/auth.c\<close>: the authentication codes of IPMI v1.5 LAN messages, in the
  build without OpenSSL's MD5 (the digest is then \<open>md5.c\<close>). MD2 comes from OpenSSL only: its digest
  function is an argument, \<open>None\<close> in a build without it.
\<close>

definition zero_md5 :: md5_state where
  "zero_md5 = \<lparr>md5_count = (0, 0), md5_abcd = (0, 0, 0, 0), md5_buf = replicate 64 0\<rparr>"

definition ipmi_auth_md5 :: "ipmi_session \<Rightarrow> bytes \<Rightarrow> bytes" where
  "ipmi_auth_md5 s data =
     (let state = md5_init zero_md5;
          state = md5_append state (take 16 (s_authcode s));
          state = md5_append state (le32 (s_session_id s));
          state = md5_append state data;
          state = md5_append state (le32 (s_in_seq s));
          state = md5_append state (take 16 (s_authcode s))
      in snd (md5_finish state))"

definition ipmi_auth_md2 :: "(bytes \<Rightarrow> bytes) option \<Rightarrow> ipmi_session \<Rightarrow> bytes \<Rightarrow> bytes" where
  "ipmi_auth_md2 md2 s data =
     (case md2 of
        Some H \<Rightarrow> H (take 16 (s_authcode s) @ le32 (s_session_id s) @ data @ le32 (s_in_seq s)
                     @ take 16 (s_authcode s))
      | None \<Rightarrow> replicate 16 0)"

definition ipmi_auth_special :: "ipmi_session \<Rightarrow> bytes" where
  "ipmi_auth_special s =
     (let state = md5_append (md5_init zero_md5) (cstring (s_authcode s));
          digest = snd (md5_finish state);
          challenge = map (\<lambda>i. s_challenge s ! i XOR digest ! i) [0..<16];
          state = md5_append (md5_init zero_md5) challenge
      in snd (md5_finish state))"

lemma md5_of_chunks:
  "snd (md5_finish (foldl md5_append (md5_init zero_md5) ds)) = md5_reference (concat ds)"
  using md5_finish_repr [OF md5_appends_repr [OF md5_init_repr, of zero_md5 ds]]
  by (simp add: zero_md5_def)

lemma length_md5_reference [simp]: "length (md5_reference m) = 16"
  by (simp add: md5_reference_def md5_digest_of_def split: prod.split)

lemma length_ipmi_auth_md5 [simp]: "length (ipmi_auth_md5 s data) = 16"
  using md5_of_chunks [of "[take 16 (s_authcode s), le32 (s_session_id s), data,
      le32 (s_in_seq s), take 16 (s_authcode s)]"]
  by (simp add: ipmi_auth_md5_def Let_def)

lemma length_ipmi_auth_special [simp]: "length (ipmi_auth_special s) = 16"
  using md5_of_chunks [of "[_]"] by (simp add: ipmi_auth_special_def Let_def)

text \<open>
  The authentication code \<open>ipmi_auth_md5\<close>, which feeds five pieces to the streaming digest, is the MD5
  digest of password, session id, message, sequence number and password, as the IPMI protocol
  requires.
\<close>

theorem auth_md5_is_keyed_digest:
  "ipmi_auth_md5 s data =
     md5_reference (take 16 (s_authcode s) @ le32 (s_session_id s) @ data @ le32 (s_in_seq s)
       @ take 16 (s_authcode s))"
  using md5_of_chunks [of "[take 16 (s_authcode s), le32 (s_session_id s), data,
      le32 (s_in_seq s), take 16 (s_authcode s)]"]
  by (simp add: ipmi_auth_md5_def Let_def)

text \<open>
  The Supermicro authentication code is the MD5 digest of the challenge XORed with the digest of the
  password.
\<close>

theorem auth_special_is_double_digest:
  assumes "length (s_challenge s) = 16"
  shows "ipmi_auth_special s =
    md5_reference (map2 (XOR) (s_challenge s) (md5_reference (cstring (s_authcode s))))"
proof -
  let ?d = "md5_reference (cstring (s_authcode s))"
  have "map (\<lambda>i. s_challenge s ! i XOR ?d ! i) [0..<16] = map2 (XOR) (s_challenge s) ?d"
    using assms by (intro nth_equalityI) simp_all
  then show ?thesis
    using md5_of_chunks [of "[cstring (s_authcode s)]"] md5_of_chunks [of "[map2 (XOR) (s_challenge s) ?d]"]
    by (simp add: ipmi_auth_special_def Let_def)
qed

theorem auth_special_is_double_digest_witness:
  "ipmi_auth_special zero_session =
    md5_reference (map2 (XOR) (replicate 16 0) (md5_reference []))"
  using auth_special_is_double_digest [of zero_session]
  by (simp add: zero_session_def cstring_def)

end
