(* ===== verification/Lan_Queue.thy ===== *)
theory Lan_Queue
  imports Prelude
begin

text \<open>
  The list of outstanding requests of the LAN interface (\<open>ipmitool/src/plugins/lan/lan.c\<close>,
  \<open>ipmi_req_add_entry\<close> to \<open>ipmi_req_clear_entries\<close>): heap cells linked by their \<open>next\<close> pointers
  between the globals \<open>ipmi_req_entries\<close> and \<open>ipmi_req_entries_tail\<close>.

  The heap maps addresses to cells; \<open>free\<close> removes a cell, and following a pointer to a cell that
  is not there is the fault \<open>UseAfterFree\<close>. \<open>malloc\<close> hands out addresses in order; whether it
  succeeds is a script. The operations are proved to implement operations on an abstract list; the
  contract between the list and its client is the locale \<open>request_list\<close>.
\<close>

section \<open>Data\<close>

record ipmi_rq =
  rq_netfn :: "6 word"
  rq_lun :: "2 word"
  rq_cmd :: u8
  rq_target_cmd :: u8
  rq_data :: bytes

text \<open>\<open>msg.data_len\<close>, a \<open>uint16_t\<close>: the length of the data.\<close>

definition rq_data_len :: "ipmi_rq \<Rightarrow> u16" where
  "rq_data_len r = of_nat (length (rq_data r))"

record ipmi_rq_entry =
  e_req :: ipmi_rq
  e_rq_seq :: u8
  e_msg_data :: bytes
  e_next :: "nat option"

record reqlist =
  q_heap :: "nat \<Rightarrow> ipmi_rq_entry option"
  q_fresh :: nat
  q_mallocs :: "bool list"
  ipmi_req_entries :: "nat option"
  ipmi_req_entries_tail :: "nat option"

definition empty_reqlist :: reqlist where
  "empty_reqlist = \<lparr>q_heap = (\<lambda>_. None), q_fresh = 0, q_mallocs = [], ipmi_req_entries = None,
     ipmi_req_entries_tail = None\<rparr>"

section \<open>Operations\<close>

definition q_malloc :: "(reqlist, bool) machine" where
  "q_malloc q = Inr (script_hd True (q_mallocs q), q\<lparr>q_mallocs := tl (q_mallocs q)\<rparr>)"

definition deref :: "nat \<Rightarrow> (reqlist, ipmi_rq_entry) machine" where
  "deref a q = (case q_heap q a of None \<Rightarrow> Inl UseAfterFree | Some e \<Rightarrow> Inr (e, q))"

definition store :: "nat \<Rightarrow> (ipmi_rq_entry \<Rightarrow> ipmi_rq_entry) \<Rightarrow> (reqlist, unit) machine" where
  "store a f q = (case q_heap q a of None \<Rightarrow> Inl UseAfterFree
     | Some e \<Rightarrow> Inr ((), q\<lparr>q_heap := (q_heap q)(a \<mapsto> f e)\<rparr>))"

definition q_free :: "nat \<Rightarrow> (reqlist, unit) machine" where
  "q_free a q = (case q_heap q a of None \<Rightarrow> Inl UseAfterFree
     | Some e \<Rightarrow> Inr ((), q\<lparr>q_heap := (q_heap q)(a := None)\<rparr>))"

definition ipmi_req_add_entry :: "ipmi_rq \<Rightarrow> (reqlist, nat option) machine" where
  "ipmi_req_add_entry req =
     mbind q_malloc (\<lambda>ok.
     if \<not> ok then mret None
     else
       mbind (mget q_fresh) (\<lambda>a.
       mbind (mmod (\<lambda>q. q\<lparr>q_fresh := Suc a,
          q_heap := (q_heap q)(a \<mapsto> \<lparr>e_req = req, e_rq_seq = 0, e_msg_data = [], e_next = None\<rparr>)\<rparr>)) (\<lambda>_.
       mbind (mget ipmi_req_entries) (\<lambda>head.
       mbind (if head = None then mmod (\<lambda>q. q\<lparr>ipmi_req_entries := Some a\<rparr>)
              else mbind (mget ipmi_req_entries_tail) (\<lambda>t.
                case t of None \<Rightarrow> mfail NullPointer
                | Some t \<Rightarrow> store t (\<lambda>e. e\<lparr>e_next := Some a\<rparr>))) (\<lambda>_.
       mbind (mmod (\<lambda>q. q\<lparr>ipmi_req_entries_tail := Some a\<rparr>)) (\<lambda>_.
       mret (Some a)))))))"

definition entry_matches :: "u8 \<Rightarrow> u8 \<Rightarrow> ipmi_rq_entry \<Rightarrow> bool" where
  "entry_matches seq cmd e \<longleftrightarrow> e_rq_seq e = seq \<and> rq_cmd (e_req e) = cmd"

text \<open>The loop of \<open>ipmi_req_lookup_entry\<close>; the fuel is the number of cells ever allocated.\<close>

fun lookup_from :: "nat \<Rightarrow> u8 \<Rightarrow> u8 \<Rightarrow> nat option \<Rightarrow> (reqlist, nat option) machine" where
  "lookup_from n seq cmd None = mret None"
| "lookup_from 0 seq cmd (Some a) = mfail NoReturn"
| "lookup_from (Suc n) seq cmd (Some a) =
     mbind (deref a) (\<lambda>e.
     if entry_matches seq cmd e then mret (Some a)
     else if e_next e = None \<or> e_next e = Some a then mret None
     else lookup_from n seq cmd (e_next e))"

definition ipmi_req_lookup_entry :: "u8 \<Rightarrow> u8 \<Rightarrow> (reqlist, nat option) machine" where
  "ipmi_req_lookup_entry seq cmd =
     mbind (mget (\<lambda>q. (Suc (q_fresh q), ipmi_req_entries q))) (\<lambda>(n, e). lookup_from n seq cmd e)"

text \<open>\<open>while (e && ...) { p = e; e = e->next; }\<close>: the last two pointers.\<close>

fun find_prev :: "nat \<Rightarrow> u8 \<Rightarrow> u8 \<Rightarrow> nat option \<Rightarrow> nat option \<Rightarrow> (reqlist, nat option \<times> nat option) machine" where
  "find_prev n seq cmd p None = mret (p, None)"
| "find_prev 0 seq cmd p (Some a) = mfail NoReturn"
| "find_prev (Suc n) seq cmd p (Some a) =
     mbind (deref a) (\<lambda>e.
     if entry_matches seq cmd e then mret (p, Some a)
     else find_prev n seq cmd (Some a) (e_next e))"

definition ipmi_req_remove_entry :: "u8 \<Rightarrow> u8 \<Rightarrow> (reqlist, unit) machine" where
  "ipmi_req_remove_entry seq cmd =
     mbind (mget (\<lambda>q. (Suc (q_fresh q), ipmi_req_entries q))) (\<lambda>(n, e0).
     mbind (find_prev n seq cmd e0 e0) (\<lambda>(p, e).
     case (p, e) of
       (Some p, Some e) \<Rightarrow>
         mbind (deref p) (\<lambda>pc. mbind (deref e) (\<lambda>ec.
         mbind (store p (\<lambda>c. c\<lparr>e_next := (if e_next pc = e_next ec then None else e_next ec)\<rparr>)) (\<lambda>_.
         mbind (mmod (\<lambda>q. if ipmi_req_entries q = Some e
            then q\<lparr>ipmi_req_entries := (if ipmi_req_entries q \<noteq> Some p then Some p else None)\<rparr>
            else q)) (\<lambda>_.
         mbind (mmod (\<lambda>q. if ipmi_req_entries_tail q = Some e
            then q\<lparr>ipmi_req_entries_tail := (if ipmi_req_entries_tail q \<noteq> Some p then Some p else None)\<rparr>
            else q)) (\<lambda>_.
         q_free e)))))
     | _ \<Rightarrow> mret ()))"

fun clear_from :: "nat \<Rightarrow> nat option \<Rightarrow> (reqlist, unit) machine" where
  "clear_from n None = mret ()"
| "clear_from 0 (Some a) = mfail NoReturn"
| "clear_from (Suc n) (Some a) =
     mbind (deref a) (\<lambda>e. mbind (q_free a) (\<lambda>_. clear_from n (e_next e)))"

definition ipmi_req_clear_entries :: "(reqlist, unit) machine" where
  "ipmi_req_clear_entries =
     mbind (mget (\<lambda>q. (Suc (q_fresh q), ipmi_req_entries q))) (\<lambda>(n, e).
     mbind (clear_from n e) (\<lambda>_.
     mmod (\<lambda>q. q\<lparr>ipmi_req_entries := None\<rparr>)))"

section \<open>The abstract list\<close>

text \<open>The cells from a pointer to the end of the list.\<close>

primrec cells :: "(nat \<Rightarrow> ipmi_rq_entry option) \<Rightarrow> nat option \<Rightarrow> nat list \<Rightarrow> bool" where
  "cells h p [] \<longleftrightarrow> p = None"
| "cells h p (a # as) \<longleftrightarrow> p = Some a \<and> (\<exists>e. h a = Some e \<and> cells h (e_next e) as)"

definition req_wf :: "reqlist \<Rightarrow> nat list \<Rightarrow> bool" where
  "req_wf q as \<longleftrightarrow>
     cells (q_heap q) (ipmi_req_entries q) as \<and> distinct as \<and>
     (as \<noteq> [] \<longrightarrow> ipmi_req_entries_tail q = Some (last as)) \<and>
     (\<forall>a. q_heap q a \<noteq> None \<longrightarrow> a < q_fresh q)"

text \<open>An abstract entry: the address of a cell and what it holds besides the link.\<close>

type_synonym areq = "nat \<times> ipmi_rq \<times> u8 \<times> bytes"

definition acell :: "(nat \<Rightarrow> ipmi_rq_entry option) \<Rightarrow> nat \<Rightarrow> areq" where
  "acell h a = (case h a of None \<Rightarrow> undefined
     | Some e \<Rightarrow> (a, e_req e, e_rq_seq e, e_msg_data e))"

definition req_abs :: "reqlist \<Rightarrow> areq list \<Rightarrow> bool" where
  "req_abs q xs \<longleftrightarrow> (\<exists>as. req_wf q as \<and> xs = map (acell (q_heap q)) as)"

definition areq_matches :: "u8 \<Rightarrow> u8 \<Rightarrow> areq \<Rightarrow> bool" where
  "areq_matches seq cmd x = (case x of (a, r, s, d) \<Rightarrow> s = seq \<and> rq_cmd r = cmd)"

fun remove_first :: "('a \<Rightarrow> bool) \<Rightarrow> 'a list \<Rightarrow> 'a list" where
  "remove_first P [] = []"
| "remove_first P (x # xs) = (if P x then xs else x # remove_first P xs)"

text \<open>What \<open>ipmi_req_remove_entry\<close> does to the list: when the head matches, the whole list goes.\<close>

definition areq_remove :: "u8 \<Rightarrow> u8 \<Rightarrow> areq list \<Rightarrow> areq list" where
  "areq_remove seq cmd xs =
     (case xs of [] \<Rightarrow> []
      | x # ys \<Rightarrow> if areq_matches seq cmd x then [] else x # remove_first (areq_matches seq cmd) ys)"

section \<open>The operations implement the abstract list\<close>

lemma cells_upd [simp]: "a \<notin> set as \<Longrightarrow> cells (h(a := v)) p as = cells h p as"
  by (induction as arbitrary: p) auto

lemma cells_cong: "(\<And>a. a \<in> set as \<Longrightarrow> h a = h' a) \<Longrightarrow> cells h p as \<Longrightarrow> cells h' p as"
  by (induction as arbitrary: p) auto

lemma cells_None [simp]: "cells h None as \<longleftrightarrow> as = []"
  by (cases as) auto

lemma cells_alloc: "cells h p as \<Longrightarrow> a \<in> set as \<Longrightarrow> \<exists>e. h a = Some e"
  by (induction as arbitrary: p) auto

lemma cells_snoc:
  assumes "cells h p as" and "distinct as" and "as \<noteq> []" and "b \<notin> set as" and "e_next n = None"
    and "h (last as) = Some l"
  shows "cells (h(b \<mapsto> n, last as \<mapsto> l\<lparr>e_next := Some b\<rparr>)) p (as @ [b])"
  using assms
proof (induction as arbitrary: p)
  case Nil
  then show ?case by simp
next
  case (Cons a as)
  then show ?case by (cases "as = []") (auto simp: fun_upd_twist)
qed

lemma cells_unlink:
  assumes "cells h p (us @ e # vs)" and "distinct (us @ e # vs)" and "us \<noteq> []"
    and "h (last us) = Some l" and "h e = Some x"
  shows "cells (h(last us \<mapsto> l\<lparr>e_next := e_next x\<rparr>, e := None)) p (us @ vs) \<and> e_next l = Some e"
  using assms
proof (induction us arbitrary: p)
  case Nil
  then show ?case by simp
next
  case (Cons a us)
  then show ?case by (cases "us = []") (auto elim!: cells_cong [rotated])
qed

lemma req_wf_length: "req_wf q as \<Longrightarrow> length as \<le> q_fresh q"
proof -
  assume wf: "req_wf q as"
  then have "set as \<subseteq> {..<q_fresh q}"
    by (auto simp: req_wf_def dest: cells_alloc)
  then have "card (set as) \<le> q_fresh q"
    using card_mono [of "{..<q_fresh q}"] by fastforce
  with wf show ?thesis by (simp add: req_wf_def distinct_card)
qed

lemma lookup_from_cells:
  assumes "cells (q_heap q) p as" and "distinct as" and "length as \<le> n"
  shows "lookup_from n seq cmd p q = Inr (find (\<lambda>a. entry_matches seq cmd (the (q_heap q a))) as, q)"
  using assms
proof (induction as arbitrary: p n)
  case Nil
  then show ?case by (simp add: machine_simps)
next
  case (Cons a as)
  then obtain m e where "n = Suc m" and p: "p = Some a" and e: "q_heap q a = Some e"
    and rest: "cells (q_heap q) (e_next e) as" "distinct as" "length as \<le> m" "a \<notin> set as"
    by (cases n) auto
  show ?case
  proof (cases as)
    case Nil
    with rest(1) e show ?thesis by (simp add: \<open>n = Suc m\<close> p machine_simps deref_def)
  next
    case (Cons b bs)
    with rest have "e_next e = Some b" "b \<noteq> a" by auto
    with Cons.IH [OF rest(1-3)] e show ?thesis
      by (simp add: \<open>n = Suc m\<close> p machine_simps deref_def)
  qed
qed

lemma find_prev_cells:
  assumes "cells (q_heap q) e as" and "length as \<le> n"
    and "as = us @ vs" and "\<forall>a\<in>set us. \<not> entry_matches seq cmd (the (q_heap q a))"
    and "vs = [] \<or> entry_matches seq cmd (the (q_heap q (hd vs)))"
  shows "find_prev n seq cmd p e q =
    Inr ((if us = [] then p else Some (last us), case vs of [] \<Rightarrow> None | v # _ \<Rightarrow> Some v), q)"
  using assms
proof (induction us arbitrary: e as n p)
  case Nil
  then show ?case
    by (cases vs; cases n) (auto simp: machine_simps deref_def)
next
  case (Cons u us)
  then obtain m c where "n = Suc m" and e: "e = Some u" and c: "q_heap q u = Some c"
    and rest: "cells (q_heap q) (e_next c) (us @ vs)" "length (us @ vs) \<le> m"
    by (cases n) auto
  with Cons.IH [OF rest refl, of "Some u"] Cons.prems show ?case
    by (auto simp: machine_simps deref_def split: list.splits)
qed


lemma acell_some: "h a = Some e \<Longrightarrow> acell h a = (a, e_req e, e_rq_seq e, e_msg_data e)"
  by (simp add: acell_def)

lemma areq_matches_acell:
  "h a = Some e \<Longrightarrow> areq_matches seq cmd (acell h a) = entry_matches seq cmd e"
  by (simp add: acell_def areq_matches_def entry_matches_def)

lemma map_acell_cong: "(\<And>a. a \<in> set as \<Longrightarrow> acell h a = acell h' a) \<Longrightarrow> map (acell h) as = map (acell h') as"
  by simp

definition new_areq :: "reqlist \<Rightarrow> ipmi_rq \<Rightarrow> areq" where
  "new_areq q req = (q_fresh q, req, 0, [])"

lemma req_add_refines:
  assumes "req_abs q xs"
  shows "\<exists>q'. ipmi_req_add_entry req q =
      Inr (if script_hd True (q_mallocs q) then Some (q_fresh q) else None, q') \<and>
    q_mallocs q' = tl (q_mallocs q) \<and>
    req_abs q' (if script_hd True (q_mallocs q) then xs @ [new_areq q req] else xs)"
proof -
  from assms obtain as where wf: "req_wf q as" and xs: "xs = map (acell (q_heap q)) as"
    by (auto simp: req_abs_def)
  let ?n = "\<lparr>e_req = req, e_rq_seq = 0, e_msg_data = [], e_next = None\<rparr>"
  let ?a = "q_fresh q"
  have fresh: "?a \<notin> set as" "q_heap q ?a = None"
    using wf by (auto simp: req_wf_def dest!: cells_alloc)
  show ?thesis
  proof (cases "script_hd True (q_mallocs q)")
    case False
    with wf xs show ?thesis
      by (auto simp: ipmi_req_add_entry_def machine_simps q_malloc_def req_abs_def req_wf_def)
  next
    case True
    show ?thesis
    proof (cases "as = []")
      case True
      let ?q = "q\<lparr>q_mallocs := tl (q_mallocs q), q_fresh := Suc ?a, q_heap := (q_heap q)(?a \<mapsto> ?n),
        ipmi_req_entries := Some ?a, ipmi_req_entries_tail := Some ?a\<rparr>"
      have "ipmi_req_add_entry req q = Inr (Some ?a, ?q)"
        using wf True \<open>script_hd True (q_mallocs q)\<close>
        by (simp add: ipmi_req_add_entry_def machine_simps q_malloc_def req_wf_def)
      moreover have "req_wf ?q [?a]"
        using wf by (auto simp: req_wf_def less_Suc_eq)
      moreover have "map (acell (q_heap ?q)) [?a] = xs @ [new_areq q req]"
        using xs True by (simp add: acell_some new_areq_def)
      ultimately show ?thesis
        using \<open>script_hd True (q_mallocs q)\<close> by (auto simp: req_abs_def intro!: exI [of _ "[?a]"])
    next
      case False
      from wf have "cells (q_heap q) (ipmi_req_entries q) as" by (simp add: req_wf_def)
      from cells_alloc [OF this last_in_set [OF False]]
      obtain l where l: "q_heap q (last as) = Some l" by blast
      have la: "last as \<noteq> ?a" using fresh(1) last_in_set [OF False] by auto
      let ?h = "(q_heap q)(?a \<mapsto> ?n, last as \<mapsto> l\<lparr>e_next := Some ?a\<rparr>)"
      let ?q = "q\<lparr>q_mallocs := tl (q_mallocs q), q_fresh := Suc ?a, q_heap := ?h,
        ipmi_req_entries_tail := Some ?a\<rparr>"
      have "ipmi_req_entries q \<noteq> None" "ipmi_req_entries_tail q = Some (last as)"
        using wf False by (auto simp: req_wf_def neq_Nil_conv)
      then have "ipmi_req_add_entry req q = Inr (Some ?a, ?q)"
        using \<open>script_hd True (q_mallocs q)\<close> l la
        by (auto simp: ipmi_req_add_entry_def machine_simps q_malloc_def store_def)
      moreover have "req_wf ?q (as @ [?a])"
        using wf fresh cells_snoc [of "q_heap q" "ipmi_req_entries q" as ?a ?n l] l False
        by (auto simp: req_wf_def less_Suc_eq split: if_splits)
      moreover have "map (acell ?h) (as @ [?a]) = xs @ [new_areq q req]"
        using xs fresh l la by (auto simp: acell_def new_areq_def)
      ultimately show ?thesis
        using \<open>script_hd True (q_mallocs q)\<close> by (auto simp: req_abs_def intro!: exI [of _ "as @ [?a]"])
    qed
  qed
qed

lemma req_lookup_refines:
  assumes "req_abs q xs"
  shows "ipmi_req_lookup_entry seq cmd q =
    Inr (map_option fst (find (areq_matches seq cmd) xs), q)"
proof -
  from assms obtain as where wf: "req_wf q as" and xs: "xs = map (acell (q_heap q)) as"
    by (auto simp: req_abs_def)
  from wf have c: "cells (q_heap q) (ipmi_req_entries q) as" and "distinct as"
    by (simp_all add: req_wf_def)
  have "length as \<le> Suc (q_fresh q)" using req_wf_length [OF wf] by simp
  then have "ipmi_req_lookup_entry seq cmd q
      = Inr (find (\<lambda>a. entry_matches seq cmd (the (q_heap q a))) as, q)"
    using lookup_from_cells [OF c \<open>distinct as\<close>] by (simp add: ipmi_req_lookup_entry_def machine_simps)
  moreover have "find (\<lambda>a. entry_matches seq cmd (the (q_heap q a))) bs
      = map_option fst (find (areq_matches seq cmd) (map (acell (q_heap q)) bs))"
    if "set bs \<subseteq> set as" for bs
    using that
  proof (induction bs)
    case (Cons b bs)
    then obtain e where "q_heap q b = Some e" using cells_alloc [OF c] by auto
    with Cons show ?case by (simp add: areq_matches_acell) (simp add: acell_some)
  qed simp
  ultimately show ?thesis by (simp add: xs)
qed


lemma split_first_match:
  obtains us vs where "xs = us @ vs" and "\<forall>x\<in>set us. \<not> P x" and "vs = [] \<or> P (hd vs)"
  using that [of "takeWhile (\<lambda>x. \<not> P x) xs" "dropWhile (\<lambda>x. \<not> P x) xs"]
  by (metis hd_dropWhile set_takeWhileD takeWhile_dropWhile_id)

lemma remove_first_append:
  "\<forall>x\<in>set us. \<not> P x \<Longrightarrow> remove_first P (us @ vs) = us @ remove_first P vs"
  by (induction us) auto

lemma remove_first_id: "\<forall>x\<in>set xs. \<not> P x \<Longrightarrow> remove_first P xs = xs"
  by (induction xs) auto

lemma cells_after: "cells h p (us @ e # ws) \<Longrightarrow> h e = Some x \<Longrightarrow> cells h (e_next x) ws"
  by (induction us arbitrary: p) auto

lemma req_remove_refines:
  assumes "req_abs q xs"
  shows "\<exists>q'. ipmi_req_remove_entry seq cmd q = Inr ((), q') \<and> q_mallocs q' = q_mallocs q \<and>
    q_fresh q' = q_fresh q \<and> req_abs q' (areq_remove seq cmd xs)"
proof -
  from assms obtain as where wf: "req_wf q as" and xs: "xs = map (acell (q_heap q)) as"
    by (auto simp: req_abs_def)
  let ?m = "\<lambda>a. entry_matches seq cmd (the (q_heap q a))"
  from wf have c: "cells (q_heap q) (ipmi_req_entries q) as" and d: "distinct as"
    by (simp_all add: req_wf_def)
  have len: "length as \<le> Suc (q_fresh q)" using req_wf_length [OF wf] by simp
  have am: "areq_matches seq cmd (acell (q_heap q) a) = ?m a" if "a \<in> set as" for a
    using cells_alloc [OF c that] by (auto simp: areq_matches_acell)
  obtain us vs where as: "as = us @ vs" and us: "\<forall>a\<in>set us. \<not> ?m a" and vs: "vs = [] \<or> ?m (hd vs)"
    by (rule split_first_match)
  note fp = find_prev_cells [OF c len as us vs, of "ipmi_req_entries q"]
  show ?thesis
  proof (cases vs)
    case Nil
    have "\<forall>x\<in>set xs. \<not> areq_matches seq cmd x"
      using us am Nil as xs by auto
    then have "areq_remove seq cmd xs = xs"
      by (cases xs) (auto simp: areq_remove_def remove_first_id)
    with fp Nil assms show ?thesis
      by (auto simp: ipmi_req_remove_entry_def machine_simps split: option.splits)
  next
    case (Cons e ws)
    then have "e \<in> set as" by (simp add: as)
    from cells_alloc [OF c this] obtain x where x: "q_heap q e = Some x" by blast
    have me: "areq_matches seq cmd (acell (q_heap q) e)" using vs Cons am as by simp
    show ?thesis
    proof (cases "us = []")
      case True
      let ?q = "q\<lparr>q_heap := ((q_heap q)(e \<mapsto> x\<lparr>e_next := None\<rparr>))(e := None), ipmi_req_entries := None,
        ipmi_req_entries_tail := (if ipmi_req_entries_tail q = Some e then None
          else ipmi_req_entries_tail q)\<rparr>"
      have "ipmi_req_entries q = Some e" using c True as Cons by simp
      then have "ipmi_req_remove_entry seq cmd q = Inr ((), ?q)"
        using fp True Cons x
        by (auto simp: ipmi_req_remove_entry_def machine_simps deref_def store_def q_free_def)
      moreover have "req_wf ?q []"
        using wf by (auto simp: req_wf_def)
      moreover have "areq_remove seq cmd xs = []"
        using xs as Cons True me by (simp add: areq_remove_def)
      ultimately show ?thesis by (auto simp: req_abs_def)
    next
      case False
      then have "last us \<in> set as" by (simp add: as)
      from cells_alloc [OF c this] obtain l where l: "q_heap q (last us) = Some l" by blast
      have c': "cells (q_heap q) (ipmi_req_entries q) (us @ e # ws)" and d': "distinct (us @ e # ws)"
        using c d as Cons by simp_all
      let ?h = "(q_heap q)(last us \<mapsto> l\<lparr>e_next := e_next x\<rparr>, e := None)"
      have cs: "cells ?h (ipmi_req_entries q) (us @ ws)" and ln: "e_next l = Some e"
        using cells_unlink [OF c' d' False l x] by simp_all
      have "last us \<noteq> e" using last_in_set [OF False] d' by auto
      moreover have "ipmi_req_entries q \<noteq> Some e" using d' c' False by (cases us) auto
      ultimately have ne: "last us \<noteq> e" "ipmi_req_entries q \<noteq> Some e" by simp_all
      have nx: "e_next x \<noteq> Some e"
        using cells_after [OF c' x] d' by (cases ws) auto
      let ?q = "q\<lparr>q_heap := ?h, ipmi_req_entries_tail := (if ipmi_req_entries_tail q = Some e
        then Some (last us) else ipmi_req_entries_tail q)\<rparr>"
      have "ipmi_req_remove_entry seq cmd q = Inr ((), ?q)"
        using fp False Cons x l ne ln nx
        by (auto simp: ipmi_req_remove_entry_def machine_simps deref_def store_def q_free_def)
      moreover have "req_wf ?q (us @ ws)"
        using wf cs d' False as Cons l by (auto simp: req_wf_def split: if_splits)
      moreover have "map (acell ?h) (us @ ws) = map (acell (q_heap q)) (us @ ws)"
        using d' l by (auto simp: acell_def)
      moreover have "areq_remove seq cmd xs = map (acell (q_heap q)) (us @ ws)"
      proof -
        obtain u us' where u: "us = u # us'" using False by (cases us) auto
        have "\<forall>y\<in>set (map (acell (q_heap q)) us). \<not> areq_matches seq cmd y"
          using us am as by auto
        then show ?thesis
          using me by (simp add: xs as Cons u areq_remove_def remove_first_append)
      qed
      ultimately show ?thesis by (auto simp: req_abs_def)
    qed
  qed
qed

lemma clear_from_cells:
  assumes "cells (q_heap q) p as" and "distinct as" and "length as \<le> n"
  shows "\<exists>h. clear_from n p q = Inr ((), q\<lparr>q_heap := h\<rparr>) \<and> (\<forall>a. h a = (if a \<in> set as then None else q_heap q a))"
  using assms
proof (induction as arbitrary: p n q)
  case Nil
  then show ?case by (auto simp: machine_simps intro!: exI [of _ "q_heap q"])
next
  case (Cons a as)
  then obtain m e where n: "n = Suc m" and p: "p = Some a" and e: "q_heap q a = Some e"
    and rest: "cells (q_heap q) (e_next e) as" "distinct as" "length as \<le> m" "a \<notin> set as"
    by (cases n) auto
  let ?q = "q\<lparr>q_heap := (q_heap q)(a := None)\<rparr>"
  obtain h where h: "clear_from m (e_next e) ?q = Inr ((), ?q\<lparr>q_heap := h\<rparr>)"
    "\<forall>b. h b = (if b \<in> set as then None else q_heap ?q b)"
    using Cons.IH [of ?q "e_next e" m] rest cells_upd [of a as "q_heap q" None "e_next e"]
    by (auto simp del: fun_upd_apply)
  then show ?case
    using e by (auto simp: n p machine_simps deref_def q_free_def intro!: exI [of _ h])
qed

lemma req_clear_refines:
  assumes "req_abs q xs"
  shows "\<exists>q'. ipmi_req_clear_entries q = Inr ((), q') \<and> q_mallocs q' = q_mallocs q \<and>
    q_fresh q' = q_fresh q \<and> req_abs q' []"
proof -
  from assms obtain as where wf: "req_wf q as" by (auto simp: req_abs_def)
  then have "cells (q_heap q) (ipmi_req_entries q) as" "distinct as" by (simp_all add: req_wf_def)
  from clear_from_cells [OF this, of "Suc (q_fresh q)"] req_wf_length [OF wf]
  obtain h where "clear_from (Suc (q_fresh q)) (ipmi_req_entries q) q = Inr ((), q\<lparr>q_heap := h\<rparr>)"
    "\<forall>a. h a = (if a \<in> set as then None else q_heap q a)" by auto
  moreover have "req_wf (q\<lparr>q_heap := h, ipmi_req_entries := None\<rparr>) []"
    using wf calculation(2) by (auto simp: req_wf_def split: if_splits)
  ultimately show ?thesis
    by (auto simp: ipmi_req_clear_entries_def machine_simps req_abs_def)
qed

section \<open>Updates through a pointer\<close>

text \<open>
  An update of a cell that leaves its link alone, seen on the abstract list: the client changes the
  entry it was handed, through the pointer.
\<close>

definition areq_upd :: "(ipmi_rq_entry \<Rightarrow> ipmi_rq_entry) \<Rightarrow> areq \<Rightarrow> areq" where
  "areq_upd f x = (case x of (a, r, s, d) \<Rightarrow>
     let e = f \<lparr>e_req = r, e_rq_seq = s, e_msg_data = d, e_next = None\<rparr>
     in (a, e_req e, e_rq_seq e, e_msg_data e))"

definition link_indep :: "(ipmi_rq_entry \<Rightarrow> ipmi_rq_entry) \<Rightarrow> bool" where
  "link_indep f \<longleftrightarrow> (\<forall>e n. f (e\<lparr>e_next := n\<rparr>) = (f e)\<lparr>e_next := n\<rparr>)"

lemma req_abs_fst:
  assumes "req_abs q xs"
  shows "distinct (map fst xs)"
proof -
  from assms obtain as where wf: "req_wf q as" and xs: "xs = map (acell (q_heap q)) as"
    by (auto simp: req_abs_def)
  have "fst (acell (q_heap q) a) = a" if "a \<in> set as" for a
    using wf that by (auto simp: req_wf_def acell_def dest!: cells_alloc)
  then have "map fst xs = as" by (simp add: xs map_idI)
  with wf show ?thesis by (simp add: req_wf_def)
qed

lemma req_abs_cell:
  assumes "req_abs q xs" and "x \<in> set xs"
  shows "\<exists>e. q_heap q (fst x) = Some e \<and> x = (fst x, e_req e, e_rq_seq e, e_msg_data e)"
proof -
  from assms obtain as a where "req_wf q as" and a: "a \<in> set as" and x: "x = acell (q_heap q) a"
    by (auto simp: req_abs_def)
  then obtain e where "q_heap q a = Some e" by (auto simp: req_wf_def dest: cells_alloc)
  then show ?thesis by (simp add: x acell_some)
qed

lemma cells_store:
  "h a = Some e \<Longrightarrow> e_next e' = e_next e \<Longrightarrow> cells (h(a \<mapsto> e')) p as = cells h p as"
  by (induction as arbitrary: p) (auto split: if_splits)

lemma req_store_refines:
  assumes q: "req_abs q xs" and a: "a \<in> fst ` set xs" and f: "link_indep f"
  shows "\<exists>q'. store a f q = Inr ((), q') \<and> q_mallocs q' = q_mallocs q \<and> q_fresh q' = q_fresh q \<and>
    req_abs q' (map (\<lambda>x. if fst x = a then areq_upd f x else x) xs)"
proof -
  from q obtain as where wf: "req_wf q as" and xs: "xs = map (acell (q_heap q)) as"
    by (auto simp: req_abs_def)
  from a req_abs_cell [OF q] obtain e where e: "q_heap q a = Some e" by fastforce
  let ?q = "q\<lparr>q_heap := (q_heap q)(a \<mapsto> f e)\<rparr>"
  have link: "f e = (f (e\<lparr>e_next := None\<rparr>))\<lparr>e_next := e_next e\<rparr>"
    using f unfolding link_indep_def by (metis ipmi_rq_entry.surjective ipmi_rq_entry.update_convs(4))
  then have nx: "e_next (f e) = e_next e" by (metis ipmi_rq_entry.select_convs(4) ipmi_rq_entry.surjective ipmi_rq_entry.update_convs(4))
  have "req_wf ?q as"
    using wf e nx by (auto simp: req_wf_def cells_store)
  moreover have "acell (q_heap ?q) b
      = (let x = acell (q_heap q) b in if fst x = a then areq_upd f x else x)" if b: "b \<in> set as" for b
  proof -
    obtain c where c: "q_heap q b = Some c"
      using wf b by (auto simp: req_wf_def dest: cells_alloc)
    have "e\<lparr>e_next := None\<rparr> = \<lparr>e_req = e_req e, e_rq_seq = e_rq_seq e, e_msg_data = e_msg_data e, e_next = None\<rparr>"
      by simp
    with link have "areq_upd f (a, e_req e, e_rq_seq e, e_msg_data e) = (a, e_req (f e), e_rq_seq (f e), e_msg_data (f e))"
      by (simp add: areq_upd_def Let_def)
    with c e show ?thesis by (auto simp: acell_def)
  qed
  ultimately show ?thesis
    using e by (auto simp: store_def req_abs_def xs Let_def intro!: exI [of _ as])
qed

lemma req_deref_refines:
  "req_abs q xs \<Longrightarrow> (a, r, s, d) \<in> set xs \<Longrightarrow>
     \<exists>e. deref a q = Inr (e, q) \<and> e_req e = r \<and> e_rq_seq e = s \<and> e_msg_data e = d"
  by (drule (1) req_abs_cell) (auto simp: deref_def)

lemma q_malloc_refines:
  "req_abs q xs \<Longrightarrow> \<exists>q'. q_malloc q = Inr (script_hd True (q_mallocs q), q') \<and>
     q_mallocs q' = tl (q_mallocs q) \<and> q_fresh q' = q_fresh q \<and> req_abs q' xs"
  by (auto simp: q_malloc_def req_abs_def req_wf_def)

section \<open>The contract of the list\<close>

text \<open>
  What the LAN code relies on: the list represents a sequence of requests, an addition goes to its
  end, a lookup finds the first request with the given sequence number and command and changes
  nothing, and the list can be emptied; none of them faults. The law of removal is the one the code
  has, \<open>areq_remove\<close>.
\<close>

locale request_list =
  fixes repr :: "'q \<Rightarrow> areq list \<Rightarrow> bool"
    and add :: "ipmi_rq \<Rightarrow> ('q, nat option) machine"
    and lookup :: "u8 \<Rightarrow> u8 \<Rightarrow> ('q, nat option) machine"
    and remove :: "u8 \<Rightarrow> u8 \<Rightarrow> ('q, unit) machine"
    and clear :: "('q, unit) machine"
  assumes add_law: "repr q xs \<Longrightarrow> \<exists>r q'. add req q = Inr (r, q') \<and>
      repr q' (case r of None \<Rightarrow> xs | Some a \<Rightarrow> xs @ [(a, req, 0, [])])"
    and lookup_law: "repr q xs \<Longrightarrow>
      lookup seq cmd q = Inr (map_option fst (find (areq_matches seq cmd) xs), q)"
    and remove_law: "repr q xs \<Longrightarrow> \<exists>q'. remove seq cmd q = Inr ((), q') \<and>
      repr q' (areq_remove seq cmd xs)"
    and clear_law: "repr q xs \<Longrightarrow> \<exists>q'. clear q = Inr ((), q') \<and> repr q' []"
begin

lemma empty_finds_nothing: "repr q [] \<Longrightarrow> lookup seq cmd q = Inr (None, q)"
  by (simp add: lookup_law)

lemma removing_head_forgets_all:
  assumes "repr q (x # xs)" and "areq_matches seq cmd x"
  shows "\<exists>q'. remove seq cmd q = Inr ((), q') \<and> repr q' [] \<and>
    (\<forall>seq' cmd'. lookup seq' cmd' q' = Inr (None, q'))"
  using remove_law [OF assms(1), of seq cmd] assms(2) empty_finds_nothing
  by (auto simp: areq_remove_def)

lemma removing_later_keeps_others:
  assumes "repr q (x # xs)" and "\<not> areq_matches seq cmd x"
  shows "\<exists>q'. remove seq cmd q = Inr ((), q') \<and>
    repr q' (x # remove_first (areq_matches seq cmd) xs)"
  using remove_law [OF assms(1), of seq cmd] assms(2) by (auto simp: areq_remove_def)

lemma added_is_found:
  assumes "repr q xs" and "add req q = Inr (Some a, q')"
  shows "\<exists>b. lookup 0 (rq_cmd req) q' = Inr (Some b, q')"
proof -
  from add_law [OF assms(1), of req] assms(2) have "repr q' (xs @ [(a, req, 0, [])])" by auto
  moreover have "areq_matches 0 (rq_cmd req) (a, req, 0, [])" by (simp add: areq_matches_def)
  then have "find (areq_matches 0 (rq_cmd req)) (xs @ [(a, req, 0, [])]) \<noteq> None"
    by (auto simp: find_None_iff)
  ultimately show ?thesis by (auto simp: lookup_law)
qed

end

interpretation lan_list: request_list req_abs ipmi_req_add_entry ipmi_req_lookup_entry
  ipmi_req_remove_entry ipmi_req_clear_entries
proof unfold_locales
  fix q xs req
  assume "req_abs q xs"
  from req_add_refines [OF this, of req]
  show "\<exists>r q'. ipmi_req_add_entry req q = Inr (r, q') \<and>
      req_abs q' (case r of None \<Rightarrow> xs | Some a \<Rightarrow> xs @ [(a, req, 0, [])])"
    by (auto simp: new_areq_def split: if_splits)
next
  fix q xs seq cmd
  assume "req_abs q xs"
  then show "ipmi_req_lookup_entry seq cmd q
      = Inr (map_option fst (find (areq_matches seq cmd) xs), q)"
    by (rule req_lookup_refines)
next
  fix q xs seq cmd
  assume "req_abs q xs"
  from req_remove_refines [OF this, of seq cmd]
  show "\<exists>q'. ipmi_req_remove_entry seq cmd q = Inr ((), q') \<and> req_abs q' (areq_remove seq cmd xs)"
    by auto
next
  fix q xs
  assume "req_abs q xs"
  from req_clear_refines [OF this]
  show "\<exists>q'. ipmi_req_clear_entries q = Inr ((), q') \<and> req_abs q' []" by auto
qed

lemma empty_reqlist_abs: "req_abs empty_reqlist []"
  by (simp add: req_abs_def req_wf_def empty_reqlist_def)

section \<open>Properties\<close>

text \<open>A call of the list's interface; runs of calls.\<close>

datatype req_op = AddReq ipmi_rq | LookupReq u8 u8 | RemoveReq u8 u8 | ClearReqs

fun req_op_run :: "req_op \<Rightarrow> (reqlist, unit) machine" where
  "req_op_run (AddReq r) = mbind (ipmi_req_add_entry r) (\<lambda>_. mret ())"
| "req_op_run (LookupReq s c) = mbind (ipmi_req_lookup_entry s c) (\<lambda>_. mret ())"
| "req_op_run (RemoveReq s c) = ipmi_req_remove_entry s c"
| "req_op_run ClearReqs = ipmi_req_clear_entries"

fun req_ops_run :: "req_op list \<Rightarrow> (reqlist, unit) machine" where
  "req_ops_run [] = mret ()"
| "req_ops_run (r # rs) = mbind (req_op_run r) (\<lambda>_. req_ops_run rs)"

lemma req_op_keeps: "mkeeps (\<lambda>q. \<exists>xs. req_abs q xs) (req_op_run r)"
proof (rule mkeepsI, elim exE)
  fix q xs
  assume q: "req_abs q xs"
  show "\<exists>a t. req_op_run r q = Inr (a, t) \<and> (\<exists>xs. req_abs t xs)"
  proof (cases r)
    case (AddReq req)
    with lan_list.add_law [OF q, of req] show ?thesis by (auto simp: machine_simps)
  next
    case (LookupReq s c)
    with lan_list.lookup_law [OF q, of s c] q show ?thesis by (auto simp: machine_simps)
  next
    case (RemoveReq s c)
    with lan_list.remove_law [OF q, of s c] show ?thesis by auto
  next
    case ClearReqs
    with lan_list.clear_law [OF q] show ?thesis by auto
  qed
qed

text \<open>
  C14. No sequence of additions, lookups, removals and clearings of the request list follows a null or
  freed pointer or loops, whatever \<open>malloc\<close> answers: for every script \<open>ms\<close> of its answers, also with failures among them, the
  list stays a proper singly linked list.
\<close>

theorem request_list_memory_safe:
  "\<exists>q xs. req_ops_run rs (empty_reqlist\<lparr>q_mallocs := ms\<rparr>) = Inr ((), q) \<and> req_abs q xs"
proof -
  have "mkeeps (\<lambda>q. \<exists>xs. req_abs q xs) (req_ops_run rs)"
    by (induction rs) (auto intro!: keeps_intros req_op_keeps)
  moreover have "req_abs (empty_reqlist\<lparr>q_mallocs := ms\<rparr>) []"
    by (simp add: req_abs_def req_wf_def empty_reqlist_def)
  ultimately show ?thesis by (auto dest!: mkeepsD [where s = "empty_reqlist\<lparr>q_mallocs := ms\<rparr>"])
qed

theorem request_list_memory_safe_witness:
  "\<exists>q xs. req_ops_run (let r = \<lparr>rq_netfn = 6, rq_lun = 0, rq_cmd = 1, rq_target_cmd = 0, rq_data = []\<rparr> in [AddReq r, AddReq r, RemoveReq 0 1, AddReq r])
     (empty_reqlist\<lparr>q_mallocs := [True, False]\<rparr>) = Inr ((), q) \<and> req_abs q xs"
  by (rule request_list_memory_safe)

text \<open>
  A lookup returns the first outstanding request with the sequence number and command, and nothing when
  there is none; it changes nothing.
\<close>

theorem request_lookup_finds_first:
  assumes "req_abs q xs"
  shows "ipmi_req_lookup_entry seq cmd q =
    Inr (map_option fst (find (areq_matches seq cmd) xs), q)"
  using assms by (rule lan_list.lookup_law)

text \<open>Two outstanding requests, as two transmissions of a command leave them.\<close>

definition two_requests :: reqlist where
  "two_requests =
     (let r = \<lparr>rq_netfn = 6, rq_lun = 0, rq_cmd = 1, rq_target_cmd = 0, rq_data = []\<rparr>
      in \<lparr>q_heap = (\<lambda>_. None)(0 \<mapsto> \<lparr>e_req = r, e_rq_seq = 5, e_msg_data = [], e_next = Some 1\<rparr>,
                              1 \<mapsto> \<lparr>e_req = r, e_rq_seq = 6, e_msg_data = [], e_next = None\<rparr>),
          q_fresh = 2, q_mallocs = [], ipmi_req_entries = Some 0, ipmi_req_entries_tail = Some 1\<rparr>)"

lemma two_requests_abs:
  "req_abs two_requests
     [(0, \<lparr>rq_netfn = 6, rq_lun = 0, rq_cmd = 1, rq_target_cmd = 0, rq_data = []\<rparr>, 5, []),
      (1, \<lparr>rq_netfn = 6, rq_lun = 0, rq_cmd = 1, rq_target_cmd = 0, rq_data = []\<rparr>, 6, [])]"
  unfolding req_abs_def
  by (rule exI [of _ "[0, 1]"]) (auto simp: req_wf_def two_requests_def acell_def Let_def)

theorem request_lookup_finds_first_witness:
  "ipmi_req_lookup_entry 6 1 two_requests = Inr (Some 1, two_requests)"
  using request_lookup_finds_first [OF two_requests_abs, of 6 1] by (simp add: areq_matches_def)

text \<open>
  Removal on the linked list implements \<open>areq_remove\<close> on the abstract list: the first match goes and the
  others stay in order, unless it is the head.
\<close>

theorem request_remove_refines:
  assumes "req_abs q xs"
  shows "\<exists>q'. ipmi_req_remove_entry seq cmd q = Inr ((), q') \<and> req_abs q' (areq_remove seq cmd xs)"
  using assms by (rule lan_list.remove_law)

theorem request_remove_refines_witness:
  "\<exists>q'. ipmi_req_remove_entry 6 1 two_requests = Inr ((), q') \<and>
     req_abs q' [(0, \<lparr>rq_netfn = 6, rq_lun = 0, rq_cmd = 1, rq_target_cmd = 0, rq_data = []\<rparr>, 5, [])]"
  using request_remove_refines [OF two_requests_abs, of 6 1]
  by (simp add: areq_remove_def areq_matches_def)

text \<open>
  When the request that is answered is the oldest one, the code drops the whole list: no other
  outstanding request can be matched any more.
\<close>

theorem answering_head_forgets_outstanding:
  assumes "req_abs q (x # xs)" and "areq_matches seq cmd x"
  shows "\<exists>q'. ipmi_req_remove_entry seq cmd q = Inr ((), q') \<and>
    (\<forall>seq' cmd'. ipmi_req_lookup_entry seq' cmd' q' = Inr (None, q'))"
  using lan_list.removing_head_forgets_all [OF assms] by blast

theorem answering_head_forgets_outstanding_witness:
  "\<exists>q'. ipmi_req_remove_entry 5 1 two_requests = Inr ((), q') \<and>
     ipmi_req_lookup_entry 6 1 q' = Inr (None, q')"
  using answering_head_forgets_outstanding [OF two_requests_abs, of 5 1]
  by (auto simp: areq_matches_def)

end
