(* ===== verification/Lan_Packet.thy ===== *)
theory Lan_Packet
  imports Lan_Auth Lan_Queue
begin

text \<open>
  The packets of the LAN interface (\<open>ipmitool/src/plugins/lan/lan.c\<close>): the bytes that
  \<open>ipmi_lan_build_cmd\<close> and \<open>ipmi_lan_build_rsp\<close> put together, and the header fields that
  \<open>ipmi_lan_poll_recv\<close> takes apart.
\<close>

section \<open>Responses\<close>

record ipmi_rs =
  r_ccode :: u8
  r_data :: bytes
  r_data_len :: int
  r_msg_netfn :: u8
  r_msg_cmd :: u8
  r_msg_seq :: u8
  r_msg_lun :: u8
  r_authtype :: u8
  r_seq :: u32
  r_id :: u32
  r_msglen :: u16
  r_rq_addr :: u8
  r_netfn :: u8
  r_rq_lun :: u8
  r_rs_addr :: u8
  r_rq_seq :: u8
  r_rs_lun :: u8
  r_cmd :: u8

abbreviation (input) IPMI_BUF_SIZE :: nat where "IPMI_BUF_SIZE \<equiv> 1024"
abbreviation (input) IPMI_BMC_SLAVE_ADDR :: u8 where "IPMI_BMC_SLAVE_ADDR \<equiv> 0x20"
abbreviation (input) IPMI_REMOTE_SWID :: u8 where "IPMI_REMOTE_SWID \<equiv> 0x81"
abbreviation (input) IPMI_NETFN_APP :: u8 where "IPMI_NETFN_APP \<equiv> 6"

text \<open>\<open>struct rmcp_hdr\<close> of an IPMI message: version 6, reserved, sequence \<open>0xff\<close>, class 7.\<close>

definition rmcp_ipmi :: bytes where
  "rmcp_ipmi = [0x06, 0, 0xff, 0x07]"

definition rmcp_asf_ping :: bytes where
  "rmcp_asf_ping = [0x06, 0, 0xff, 0x06] @ [0, 0, 0x11, 0xbe, 0x80, 0, 0, 0]"

section \<open>Building a request\<close>

definition our_address :: "ipmi_intf \<Rightarrow> u8" where
  "our_address intf =
     (let a = ucast (i_my_addr intf) :: u8 in if a = 0 then IPMI_BMC_SLAVE_ADDR else a)"

definition is_bridged :: "ipmi_intf \<Rightarrow> bool \<Rightarrow> bool" where
  "is_bridged intf bridge_possible \<longleftrightarrow>
     \<not> (i_target_addr intf = ucast (our_address intf) \<or> \<not> bridge_possible)"

definition netfn_lun :: "ipmi_rq \<Rightarrow> u8" where
  "netfn_lun req = push_bit 2 (ucast (rq_netfn req)) OR (ucast (rq_lun req) AND 3)"

text \<open>The message proper: header with its checksum, then body with its checksum.\<close>

definition ipmb_frame :: "bytes \<Rightarrow> bytes \<Rightarrow> bytes" where
  "ipmb_frame hdr body = hdr @ [ipmi_csum hdr] @ body @ [ipmi_csum body]"

definition build_cmd_body :: "ipmi_intf \<Rightarrow> bool \<Rightarrow> u8 \<Rightarrow> ipmi_rq \<Rightarrow> bytes" where
  "build_cmd_body intf bridge seq req =
     ipmb_frame [ucast (i_target_addr intf), netfn_lun req]
       ([if bridge then ucast (i_my_addr intf) else IPMI_REMOTE_SWID, push_bit 2 seq, rq_cmd req]
        @ rq_data req)"

text \<open>What follows the length byte: for a bridged request, the message inside a Send Message request.\<close>

definition build_cmd_payload :: "ipmi_intf \<Rightarrow> bool \<Rightarrow> u8 \<Rightarrow> ipmi_rq \<Rightarrow> bytes" where
  "build_cmd_payload intf bridge seq req =
     (let inner = build_cmd_body intf bridge seq req
      in if \<not> bridge then inner
         else ipmb_frame [IPMI_BMC_SLAVE_ADDR, push_bit 2 IPMI_NETFN_APP]
                ([IPMI_REMOTE_SWID, push_bit 2 seq, 0x34, 0x40 OR i_target_channel intf] @ inner))"

definition build_cmd_msglen :: "bool \<Rightarrow> ipmi_rq \<Rightarrow> u8" where
  "build_cmd_msglen bridge req = ucast (rq_data_len req) + (if bridge then 15 else 7)"

text \<open>The session header: authentication type, inbound sequence number, session id.\<close>

definition session_header :: "ipmi_session \<Rightarrow> bytes" where
  "session_header s =
     [if s_active s then s_authtype s else 0] @ le32 (s_in_seq s) @ le32 (s_session_id s)"

text \<open>
  The sixteen bytes of authentication code: copied from the session first, and overwritten when the
  code depends on the message. \<open>payload\<close> is what \<open>msg+mp\<close> points to, \<open>msglen\<close> is \<open>msg[mp-1]\<close>.
\<close>

definition session_authcode ::
  "(bytes \<Rightarrow> bytes) option \<Rightarrow> ipmi_session \<Rightarrow> bytes \<Rightarrow> u8 \<Rightarrow> bytes" where
  "session_authcode md2 s payload msglen =
     (if s_active s \<and> s_authtype s \<noteq> 0
      then if s_authtype s = IPMI_SESSION_AUTHTYPE_MD5
           then ipmi_auth_md5 s (take (unat msglen) payload)
           else if s_authtype s = IPMI_SESSION_AUTHTYPE_MD2
           then take 16 (ipmi_auth_md2 md2 s (take (unat msglen) payload))
           else take 16 (s_authcode s)
      else [])"

definition build_cmd_msg ::
  "(bytes \<Rightarrow> bytes) option \<Rightarrow> ipmi_intf \<Rightarrow> ipmi_session \<Rightarrow> bool \<Rightarrow> u8 \<Rightarrow> ipmi_rq \<Rightarrow> bytes" where
  "build_cmd_msg md2 intf s bridge_possible seq req =
     (let bridge = is_bridged intf bridge_possible;
          payload = build_cmd_payload intf bridge seq req;
          msglen = build_cmd_msglen bridge req
      in rmcp_ipmi @ session_header s @ session_authcode md2 s payload msglen @ [msglen] @ payload)"

text \<open>The size passed to \<open>malloc\<close> for the message.\<close>

definition build_cmd_alloc :: "ipmi_session \<Rightarrow> ipmi_rq \<Rightarrow> nat" where
  "build_cmd_alloc s req =
     unat (rq_data_len req) + 29 + (if s_active s \<and> s_authtype s \<noteq> 0 then 16 else 0)"

text \<open>\<open>if (s->in_seq) { s->in_seq++; if (s->in_seq == 0) s->in_seq++; }\<close>\<close>

definition next_in_seq :: "u32 \<Rightarrow> u32" where
  "next_in_seq n = (if n \<noteq> 0 then (if n + 1 = 0 then 1 else n + 1) else 0)"

section \<open>Building a response\<close>

definition build_rsp_payload :: "ipmi_rs \<Rightarrow> bytes" where
  "build_rsp_payload rsp =
     ipmb_frame [IPMI_REMOTE_SWID, push_bit 2 (r_msg_netfn rsp)]
       ([IPMI_BMC_SLAVE_ADDR, push_bit 2 (r_msg_seq rsp) OR (r_msg_lun rsp AND 3), r_msg_cmd rsp,
         r_ccode rsp] @ take (nat (r_data_len rsp)) (r_data rsp))"

text \<open>The session is the one whose sequence number has already been advanced.\<close>

definition build_rsp_msg ::
  "(bytes \<Rightarrow> bytes) option \<Rightarrow> ipmi_session \<Rightarrow> ipmi_rs \<Rightarrow> bytes" where
  "build_rsp_msg md2 s rsp =
     (let payload = build_rsp_payload rsp;
          msglen = of_int (r_data_len rsp) + 8
      in rmcp_ipmi @ session_header s @ session_authcode md2 s payload msglen @ [msglen] @ payload)"

section \<open>Taking a response apart\<close>

text \<open>
  The offset of the message length byte, and the response with the header fields filled in; the
  index behind the completion code is \<open>hdr_off + 8\<close>.
\<close>

definition hdr_off :: "ipmi_session \<Rightarrow> bytes \<Rightarrow> nat" where
  "hdr_off s data = 13 + (if s_active s \<and> (data ! 4 \<noteq> 0 \<or> s_authtype s \<noteq> 0) then 16 else 0)"

definition parse_headers :: "ipmi_session \<Rightarrow> ipmi_rs \<Rightarrow> ipmi_rs" where
  "parse_headers s rsp =
     (let d = r_data rsp; x = hdr_off s d
      in rsp\<lparr>r_authtype := d ! 4, r_seq := of_le32 (drop 5 d), r_id := of_le32 (drop 9 d),
             r_msglen := ucast (d ! x), r_rq_addr := d ! (x + 1),
             r_netfn := drop_bit 2 (d ! (x + 2)), r_rq_lun := d ! (x + 2) AND 3,
             r_rs_addr := d ! (x + 4), r_rq_seq := drop_bit 2 (d ! (x + 5)),
             r_rs_lun := d ! (x + 5) AND 3, r_cmd := d ! (x + 6), r_ccode := d ! (x + 7)\<rparr>)"

text \<open>The shift of the response data to the start of the array at the end of \<open>ipmi_lan_poll_recv\<close>.\<close>

definition shift_data :: "nat \<Rightarrow> ipmi_rs \<Rightarrow> ipmi_rs" where
  "shift_data x rsp =
     (if r_data_len rsp > int x
      then (let n = r_data_len rsp - (int x + 1)
            in rsp\<lparr>r_data_len := n,
                   r_data := take (nat n) (drop x (r_data rsp)) @ replicate (IPMI_BUF_SIZE - nat n) 0\<rparr>)
      else rsp)"

section \<open>Properties of the packets\<close>

lemma length_ipmb_frame [simp]: "length (ipmb_frame h b) = length h + length b + 2"
  by (simp add: ipmb_frame_def)

lemma ipmb_frame_hdr_sum: "sum_list (take (Suc (length h)) (ipmb_frame h b)) = 0"
  by (simp add: ipmb_frame_def ipmi_csum_sum)

lemma ipmb_frame_body_sum: "sum_list (drop (Suc (length h)) (ipmb_frame h b)) = 0"
  by (simp add: ipmb_frame_def ipmi_csum_sum)

lemma length_session_header [simp]: "length (session_header s) = 9"
  by (simp add: session_header_def)

lemma length_rmcp_ipmi [simp]: "length rmcp_ipmi = 4"
  by (simp add: rmcp_ipmi_def)

lemma length_build_cmd_payload:
  "length (build_cmd_payload intf bridge seq req) = length (rq_data req) + (if bridge then 15 else 7)"
  by (simp add: build_cmd_payload_def build_cmd_body_def Let_def)

lemma length_session_authcode_le:
  "length (session_authcode md2 s p n) \<le> (if s_active s \<and> s_authtype s \<noteq> 0 then 16 else 0)"
  by (simp add: session_authcode_def)

text \<open>
  Whatever the request, the bytes behind the length byte that \<open>ipmi_lan_build_cmd\<close> builds pass the
  receiver's two checks: the header with its checksum and the rest with its checksum both add up to
  zero modulo 256.
\<close>

theorem build_cmd_checksums_verify:
  "sum_list (take 3 (build_cmd_payload intf bridge seq req)) = 0 \<and>
   sum_list (drop 3 (build_cmd_payload intf bridge seq req)) = 0"
  using ipmb_frame_hdr_sum [of "[_, _]"] ipmb_frame_body_sum [of "[_, _]"]
  by (simp add: build_cmd_payload_def build_cmd_body_def Let_def numeral_3_eq_3)

text \<open>
  In a bridged request the message wrapped inside the Send Message request passes
  the same two checks, so that the BMC can forward it unchanged.
\<close>

theorem build_cmd_bridged_inner_checksums:
  "sum_list (take 3 (drop 7 (build_cmd_payload intf True seq req))) = 0 \<and>
   sum_list (butlast (drop 10 (build_cmd_payload intf True seq req))) = 0"
  by (simp add: build_cmd_payload_def build_cmd_body_def ipmb_frame_def ipmi_csum_sum Let_def
        butlast_append)

lemma build_cmd_fits_buffer_aux:
  assumes "length (rq_data req) < 2 ^ 16"
  shows "length (build_cmd_msg md2 intf s bp seq req) \<le> build_cmd_alloc s req"
proof -
  have "unat (rq_data_len req) = length (rq_data req)"
    using assms by (simp add: rq_data_len_def unat_of_nat)
  moreover let ?b = "is_bridged intf bp"
  note length_session_authcode_le [of md2 s "build_cmd_payload intf ?b seq req" "build_cmd_msglen ?b req"]
  ultimately show ?thesis
    by (auto simp: build_cmd_msg_def build_cmd_alloc_def length_build_cmd_payload Let_def
        simp del: le_zero_eq split: if_splits)
qed

text \<open>
  The message that \<open>ipmi_lan_build_cmd\<close> writes never exceeds the memory it allocated for it,
  with or without a bridge and with or without an authentication code.
\<close>

theorem build_cmd_fits_buffer:
  assumes "length (rq_data req) < 2 ^ 16"
  shows "length (build_cmd_msg md2 intf s bp seq req) \<le> build_cmd_alloc s req"
  using assms by (rule build_cmd_fits_buffer_aux)

theorem build_cmd_fits_buffer_witness:
  "length (build_cmd_msg None \<lparr>i_fd = 3, i_opened = True, i_abort = False, i_noanswer = False,
       i_session = Some zero_session, i_oem = None, i_my_addr = 0, i_target_addr = 0x72,
       i_target_channel = 7\<rparr> zero_session True 5
       \<lparr>rq_netfn = 6, rq_lun = 0, rq_cmd = 1, rq_target_cmd = 0, rq_data = [1, 2, 3]\<rparr>) \<le> 32"
  using build_cmd_fits_buffer [of "\<lparr>rq_netfn = 6, rq_lun = 0, rq_cmd = 1, rq_target_cmd = 0, rq_data = [1, 2, 3]\<rparr>"
     None _ zero_session True 5]
  by (simp add: build_cmd_alloc_def rq_data_len_def zero_session_def)

text \<open>
  The length byte of a request is the number of bytes that follow it, modulo 256: a request
  with more than 248 data bytes (240 when bridged) announces a length that is too small.
\<close>

theorem build_cmd_length_byte:
  "unat (build_cmd_msglen bridge req) = length (build_cmd_payload intf bridge seq req) mod 256"
proof -
  have "(ucast (of_nat n :: u16) :: u8) = of_nat n" for n
    by (simp add: word_unat_eq_iff unat_of_nat unsigned_ucast_eq take_bit_eq_mod mod_mod_cancel)
  then have "build_cmd_msglen bridge req = of_nat (length (build_cmd_payload intf bridge seq req))"
    by (simp add: build_cmd_msglen_def rq_data_len_def length_build_cmd_payload)
  then show ?thesis by (simp only: unat_of_nat) simp
qed

section \<open>A response survives the trip\<close>

text \<open>What \<open>recv\<close> leaves in the response buffer: the packet, then whatever was there before.\<close>

definition received :: "bytes \<Rightarrow> ipmi_rs \<Rightarrow> ipmi_rs" where
  "received pkt old = old\<lparr>r_data := memcpy_at (r_data old) 0 pkt, r_data_len := int (length pkt)\<rparr>"

text \<open>The digest function of an MD2 implementation yields sixteen bytes.\<close>

definition md2_ok :: "(bytes \<Rightarrow> bytes) option \<Rightarrow> bool" where
  "md2_ok md2 \<longleftrightarrow> (case md2 of None \<Rightarrow> True | Some H \<Rightarrow> \<forall>x. length (H x) = 16)"

lemma length_session_authcode:
  "md2_ok md2 \<Longrightarrow> length (s_authcode s) = 21 \<Longrightarrow>
     length (session_authcode md2 s p n) = (if s_active s \<and> s_authtype s \<noteq> 0 then 16 else 0)"
  by (auto simp: session_authcode_def md2_ok_def ipmi_auth_md2_def split: option.splits)

lemma drop_push_6bit:
  assumes "x < (64 :: u8)"
  shows "drop_bit 2 (push_bit 2 x) = x" and "drop_bit 2 (push_bit 2 x OR (y AND 3)) = x"
proof -
  have hi: "n < 6" if "bit x n" for n
  proof -
    have "x = take_bit 6 x"
      using assms by (simp add: word_uint_eq_iff unsigned_take_bit_eq take_bit_eq_mod word_less_def
          del: take_bit_eq_mod) (simp add: take_bit_eq_mod)
    then show ?thesis using that by (metis bit_take_bit_iff)
  qed
  show 1: "drop_bit 2 (push_bit 2 x) = x"
    by (rule bit_word_eqI) (auto dest: hi simp: bit_drop_bit_eq bit_push_bit_iff)
  have "drop_bit 2 (y AND 3) = 0"
    by (rule bit_word_eqI) (auto simp: bit_drop_bit_eq bit_and_iff bit_numeral_rec)
  with 1 show "drop_bit 2 (push_bit 2 x OR (y AND 3)) = x" by simp
qed

lemma nth_drop_eq: "drop x d = ys \<Longrightarrow> i < length ys \<Longrightarrow> d ! (x + i) = ys ! i"
  by auto

lemma response_layout:
  fixes rest :: bytes and s :: ipmi_session and rsp :: ipmi_rs
  assumes md2: "md2_ok md2" and auth: "length (s_authcode s) = 21"
    and dl: "r_data_len rsp = int n"
  defines "d \<equiv> build_rsp_msg md2 s rsp @ rest"
  shows "hdr_off s d = (if s_active s \<and> s_authtype s \<noteq> 0 then 29 else 13)"
    and "drop (hdr_off s d) d =
      [of_nat n + 8, IPMI_REMOTE_SWID, push_bit 2 (r_msg_netfn rsp),
       ipmi_csum [IPMI_REMOTE_SWID, push_bit 2 (r_msg_netfn rsp)], IPMI_BMC_SLAVE_ADDR,
       push_bit 2 (r_msg_seq rsp) OR (r_msg_lun rsp AND 3), r_msg_cmd rsp, r_ccode rsp]
      @ take n (r_data rsp) @ ipmi_csum ([IPMI_BMC_SLAVE_ADDR, push_bit 2 (r_msg_seq rsp) OR (r_msg_lun rsp AND 3), r_msg_cmd rsp,
         r_ccode rsp] @ take n (r_data rsp)) # rest"
    and "of_le32 (drop 5 d) = s_in_seq s" and "of_le32 (drop 9 d) = s_session_id s"
proof -
  let ?a = "session_authcode md2 s (build_rsp_payload rsp) (of_int (r_data_len rsp) + 8)"
  let ?k = "length ?a"
  have k: "?k = (if s_active s \<and> s_authtype s \<noteq> 0 then 16 else 0)"
    by (rule length_session_authcode [OF md2 auth])
  have d: "d = (rmcp_ipmi @ session_header s @ ?a) @ [of_nat n + 8] @ build_rsp_payload rsp @ rest"
    by (simp add: d_def build_rsp_msg_def Let_def dl)
  have "d ! 4 = (if s_active s then s_authtype s else 0)"
    by (simp add: d rmcp_ipmi_def session_header_def)
  then show off: "hdr_off s d = (if s_active s \<and> s_authtype s \<noteq> 0 then 29 else 13)"
    by (simp add: hdr_off_def)
  have "length (rmcp_ipmi @ session_header s @ ?a) = hdr_off s d"
    using k off by simp
  then have "drop (hdr_off s d) d = [of_nat n + 8] @ build_rsp_payload rsp @ rest"
    using d by (metis append_eq_conv_conj)
  then show "drop (hdr_off s d) d =
      [of_nat n + 8, IPMI_REMOTE_SWID, push_bit 2 (r_msg_netfn rsp),
       ipmi_csum [IPMI_REMOTE_SWID, push_bit 2 (r_msg_netfn rsp)], IPMI_BMC_SLAVE_ADDR,
       push_bit 2 (r_msg_seq rsp) OR (r_msg_lun rsp AND 3), r_msg_cmd rsp, r_ccode rsp]
      @ take n (r_data rsp) @ ipmi_csum ([IPMI_BMC_SLAVE_ADDR, push_bit 2 (r_msg_seq rsp) OR (r_msg_lun rsp AND 3), r_msg_cmd rsp,
         r_ccode rsp] @ take n (r_data rsp)) # rest"
    by (simp add: build_rsp_payload_def ipmb_frame_def dl)
  show "of_le32 (drop 5 d) = s_in_seq s" and "of_le32 (drop 9 d) = s_session_id s"
    by (simp_all add: d rmcp_ipmi_def session_header_def)
qed

lemma length_build_rsp_msg:
  assumes "md2_ok md2" and "length (s_authcode s) = 21"
    and "r_data_len rsp = int n" and "n \<le> length (r_data rsp)"
  shows "length (build_rsp_msg md2 s rsp) = n + 22 + (if s_active s \<and> s_authtype s \<noteq> 0 then 16 else 0)"
  using assms length_session_authcode [OF assms(1,2)]
  by (simp add: build_rsp_msg_def build_rsp_payload_def Let_def)

lemma lun_bits:
  "push_bit 2 x AND 3 = (0 :: u8)" "(push_bit 2 x OR (y AND 3)) AND 3 = (y AND 3 :: u8)"
proof -
  have three: "(3 :: u8) = mask 2" by (simp add: mask_eq_exp_minus_1)
  show 1: "push_bit 2 x AND 3 = (0 :: u8)"
    by (simp add: three take_bit_push_bit flip: take_bit_eq_mask)
  show "(push_bit 2 x OR (y AND 3)) AND 3 = (y AND 3 :: u8)"
    by (simp add: bit.conj_disj_distrib2 1 and.assoc)
qed

lemma response_taken_apart:
  assumes md2: "md2_ok md2" and auth: "length (s_authcode s) = 21"
    and dl: "r_data_len rsp = int n" and n: "n \<le> length (r_data rsp)"
    and fits: "length (build_rsp_msg md2 s rsp) \<le> length (r_data old)"
    and six: "r_msg_netfn rsp < 64" "r_msg_seq rsp < 64"
  defines "got \<equiv> received (build_rsp_msg md2 s rsp) old"
  shows "shift_data (hdr_off s (r_data got) + 8) (parse_headers s got) =
    old\<lparr>r_ccode := r_ccode rsp, r_data := take n (r_data rsp) @ replicate (1024 - n) 0, r_data_len := int n,
      r_authtype := (if s_active s then s_authtype s else 0), r_seq := s_in_seq s, r_id := s_session_id s,
      r_msglen := ucast (of_nat n + 8 :: u8), r_rq_addr := 0x81, r_netfn := r_msg_netfn rsp, r_rq_lun := 0, r_rs_addr := 0x20,
      r_rq_seq := r_msg_seq rsp, r_rs_lun := r_msg_lun rsp AND 3, r_cmd := r_msg_cmd rsp\<rparr>"
proof -
  let ?m = "build_rsp_msg md2 s rsp"
  define d where "d = ?m @ drop (length ?m) (r_data old)"
  define x where "x = hdr_off s d"
  have got: "r_data got = d" "r_data_len got = int (length ?m)"
    by (simp_all add: got_def received_def memcpy_at_def d_def)
  note lay = response_layout [OF md2 auth dl, of "drop (length ?m) (r_data old)",
      folded d_def, folded x_def]
  note at = nth_drop_eq [OF lay(2)]
  have len: "length ?m = n + x + 9"
    using length_build_rsp_msg [OF md2 auth dl n] lay(1) by simp
  have ph: "parse_headers s got = got\<lparr>r_authtype := d ! 4, r_seq := s_in_seq s, r_id := s_session_id s,
      r_msglen := ucast (d ! x), r_rq_addr := 0x81, r_netfn := r_msg_netfn rsp,
      r_rq_lun := 0, r_rs_addr := 0x20, r_rq_seq := r_msg_seq rsp,
      r_rs_lun := r_msg_lun rsp AND 3, r_cmd := r_msg_cmd rsp, r_ccode := r_ccode rsp\<rparr>"
    using at [of 1] at [of 2] at [of 4] at [of 5] at [of 6] at [of 7] lay(3,4)
    by (simp add: parse_headers_def got Let_def drop_push_6bit lun_bits six flip: x_def)
  have d4: "d ! 4 = (if s_active s then s_authtype s else 0)"
    by (simp add: d_def build_rsp_msg_def Let_def rmcp_ipmi_def session_header_def)
  have dx: "d ! x = of_nat n + 8" using at [of 0] by simp
  have "take n (drop (x + 8) d) = take n (drop 8 (drop x d))"
    by (simp add: add.commute)
  also have "\<dots> = take n (r_data rsp)"
    using n by (simp add: lay(2))
  finally have dat: "take n (drop (x + 8) d) = take n (r_data rsp)" .
  have x: "hdr_off s (r_data got) = x" by (simp add: got x_def)
  have "shift_data (x + 8) (parse_headers s got) = (parse_headers s got)\<lparr>r_data_len := int n,
      r_data := take n (r_data rsp) @ replicate (1024 - n) 0\<rparr>"
    by (simp add: shift_data_def ph got len Let_def dat)
  then show ?thesis unfolding x ph d4 dx by (simp add: got_def received_def)
qed

end
