(* ===== verification/Lan.thy ===== *)
theory Lan
  imports Lan_Packet
begin

text \<open>
  The IPMI v1.5 LAN interface (\<open>ipmitool/src/plugins/lan/lan.c\<close>): sending a command with its
  retries, receiving and matching the answer, opening and closing a session.

  The state \<open>lan\<close> holds the interface, the request list, the static variables of the file and the
  environment: scripts of what \<open>select\<close>, \<open>recv\<close>, \<open>send\<close>, \<open>socket\<close>, \<open>connect\<close>, the name
  lookup and \<open>/dev/urandom\<close> answer, and the datagrams sent so far. Once a script has run out,
  \<open>select\<close> times out, \<open>recv\<close> fails, \<open>connect\<close> and the lookup succeed, and \<open>send\<close> answers
  \<open>l_send_up\<close> from then on: True for a network that takes what is sent after the failures of the script,
  False for one that stays down. So the scripts describe the runs with finitely many datagrams, and for \<open>send\<close> also those that
  fail for ever. Log output and waiting are left out. \<open>static struct ipmi_rs rsp\<close> of \<open>ipmi_lan_recv_packet\<close> is the field
  \<open>l_rsp\<close>; a returned pointer to it is a copy of its value.
\<close>

section \<open>State\<close>

record lan =
  l_intf :: ipmi_intf
  l_queue :: reqlist
  l_curr_seq :: nat
  l_bridge_possible :: bool
  l_rsp :: ipmi_rs
  l_md2 :: "(bytes \<Rightarrow> bytes) option"
  l_selects :: "(int \<times> bool \<times> bool) list"
  l_recvs :: "bytes option list"
  l_sends :: "bool list"
  l_send_up :: bool
  l_sent :: "bytes list"
  l_randoms :: "bytes list"
  l_lookups :: "bool list"
  l_sockets :: "int list"
  l_connects :: "bool list"

definition get_session :: "(lan, ipmi_session) machine" where
  "get_session s = (case i_session (l_intf s) of None \<Rightarrow> Inl NullPointer | Some x \<Rightarrow> Inr (x, s))"

definition mod_intf :: "(ipmi_intf \<Rightarrow> ipmi_intf) \<Rightarrow> (lan, unit) machine" where
  "mod_intf f = mmod (\<lambda>s. s\<lparr>l_intf := f (l_intf s)\<rparr>)"

definition mod_session :: "(ipmi_session \<Rightarrow> ipmi_session) \<Rightarrow> (lan, unit) machine" where
  "mod_session f =
     mbind get_session (\<lambda>x. mod_intf (\<lambda>i. i\<lparr>i_session := Some (f x)\<rparr>))"

definition on_queue :: "(reqlist, 'a) machine \<Rightarrow> (lan, 'a) machine" where
  "on_queue m s = (case m (l_queue s) of Inl e \<Rightarrow> Inl e | Inr (a, q) \<Rightarrow> Inr (a, s\<lparr>l_queue := q\<rparr>))"

section \<open>Datagrams\<close>

definition ipmi_lan_send_packet :: "bytes \<Rightarrow> (lan, bool) machine" where
  "ipmi_lan_send_packet data s =
     (let ok = script_hd (l_send_up s) (l_sends s); s = s\<lparr>l_sends := tl (l_sends s)\<rparr>
      in Inr (ok, if ok then s\<lparr>l_sent := l_sent s @ [data]\<rparr> else s))"

definition lan_select :: "(lan, int \<times> bool \<times> bool) machine" where
  "lan_select s =
     Inr (script_hd (0, False, False) (l_selects s), s\<lparr>l_selects := tl (l_selects s)\<rparr>)"

text \<open>\<open>recv(intf->fd, &rsp.data, IPMI_BUF_SIZE, 0)\<close>: the return value; the bytes go into \<open>l_rsp\<close>.\<close>

definition lan_recv :: "(lan, int) machine" where
  "lan_recv s =
     (let s' = s\<lparr>l_recvs := tl (l_recvs s)\<rparr>
      in case script_hd None (l_recvs s) of
           None \<Rightarrow> Inr (-1, s')
         | Some d \<Rightarrow>
             let d = take IPMI_BUF_SIZE d
             in Inr (int (length d), s'\<lparr>l_rsp := (l_rsp s)\<lparr>r_data := memcpy_at (r_data (l_rsp s)) 0 d\<rparr>\<rparr>))"

text \<open>
  The end of \<open>ipmi_lan_recv_packet\<close>. \<open>rsp.data[ret] = 0\<close> is outside the array when a datagram fills
  all of its 1024 bytes.
\<close>

definition recv_finish :: "int \<Rightarrow> (lan, ipmi_rs option) machine" where
  "recv_finish ret =
     (if ret = 0 then mret None
      else if ret \<ge> int IPMI_BUF_SIZE \<or> ret < 0 then mfail BufferOverflow
      else mbind (mmod (\<lambda>s. s\<lparr>l_rsp := (l_rsp s)\<lparr>r_data := (r_data (l_rsp s))[nat ret := 0], r_data_len := ret\<rparr>\<rparr>)) (\<lambda>_.
           mget (\<lambda>s. Some (l_rsp s))))"

definition ipmi_lan_recv_packet :: "(lan, ipmi_rs option) machine" where
  "ipmi_lan_recv_packet =
     mbind get_session (\<lambda>_.
     mbind lan_select (\<lambda>(ret, err, rd).
     if ret < 0 \<or> err \<or> \<not> rd then mret None
     else
       mbind lan_recv (\<lambda>ret.
       if ret < 0 then
         mbind get_session (\<lambda>_.
         mbind lan_select (\<lambda>(ret, err, rd).
         if ret < 0 then
           (if err \<or> \<not> rd then mret None
            else mbind lan_recv (\<lambda>ret. if ret < 0 then mret None else recv_finish ret))
         else recv_finish ret))
       else recv_finish ret)))"

text \<open>\<open>sup_entities\<close> of \<open>struct rmcp_pong\<close> is byte 20 of the packet.\<close>

definition ipmi_handle_pong :: "ipmi_rs option \<Rightarrow> int" where
  "ipmi_handle_pong rsp =
     (case rsp of None \<Rightarrow> -1 | Some r \<Rightarrow> if r_data r ! 20 AND 0x80 \<noteq> 0 then 1 else 0)"

section \<open>Receiving the answer to a request\<close>

text \<open>
  The body of the loop of \<open>ipmi_lan_poll_recv\<close>, with the next turn as its first argument: \<open>Inl r\<close> is
  a \<open>return r\<close> from inside it, \<open>Inr (rsp, x)\<close> the variables after it.
\<close>

type_synonym poll_exit = "ipmi_rs option + ipmi_rs option \<times> nat"

definition poll_step ::
  "(ipmi_rs option \<Rightarrow> (lan, poll_exit) machine) \<Rightarrow> ipmi_rs \<Rightarrow> (lan, poll_exit) machine" where
  "poll_step again rsp =
     (let cls = r_data rsp ! 3
      in if cls = 0x06 then
           mret (Inl (if ipmi_handle_pong (Some rsp) \<le> 0 then None else Some rsp))
         else if cls \<noteq> 0x07 then mbind ipmi_lan_recv_packet again
         else
           mbind get_session (\<lambda>ses.
           let x = hdr_off ses (r_data rsp) + 8; rsp = parse_headers ses rsp
           in
           mbind (mmod (\<lambda>s. s\<lparr>l_rsp := rsp\<rparr>)) (\<lambda>_.
           mbind (on_queue (ipmi_req_lookup_entry (r_rq_seq rsp) (r_cmd rsp))) (\<lambda>entry.
           case entry of
             None \<Rightarrow> mbind ipmi_lan_recv_packet again
           | Some e \<Rightarrow>
               mbind (mget (\<lambda>s. i_target_addr (l_intf s) \<noteq> ucast (our_address (l_intf s)) \<and> l_bridge_possible s)) (\<lambda>bridged.
               if bridged \<and> r_cmd rsp = 0x34 \<and> r_data_len rsp = 38 then
                 mbind (on_queue (store e (\<lambda>c. c\<lparr>e_req := (e_req c)\<lparr>rq_cmd := rq_target_cmd (e_req c)\<rparr>\<rparr>))) (\<lambda>_.
                 mbind ipmi_lan_recv_packet again)
               else
                 mbind (on_queue (ipmi_req_remove_entry (r_rq_seq rsp) (r_cmd rsp))) (\<lambda>_.
                 mret (Inr (Some rsp, x))))))))"

primrec poll_loop :: "nat \<Rightarrow> ipmi_rs option \<Rightarrow> (lan, poll_exit) machine" where
  "poll_loop 0 rsp = (case rsp of None \<Rightarrow> mret (Inr (None, 0)) | Some r \<Rightarrow> mfail NoReturn)"
| "poll_loop (Suc n) rsp =
     (case rsp of None \<Rightarrow> mret (Inr (None, 0)) | Some r \<Rightarrow> poll_step (poll_loop n) r)"

text \<open>
  Every turn of the loop but the last receives a packet, and a packet uses up an answer of
  \<open>select\<close>: the fuel is one more than the answers left.
\<close>

definition ipmi_lan_poll_recv :: "(lan, ipmi_rs option) machine" where
  "ipmi_lan_poll_recv =
     mbind (mget (\<lambda>s. Suc (length (l_selects s)))) (\<lambda>n.
     mbind ipmi_lan_recv_packet (\<lambda>rsp.
     mbind (poll_loop n rsp) (\<lambda>r.
     case r of
       Inl v \<Rightarrow> mret v
     | Inr (None, x) \<Rightarrow> mret None
     | Inr (Some rsp, x) \<Rightarrow>
         mbind (mmod (\<lambda>s. s\<lparr>l_rsp := shift_data x rsp\<rparr>)) (\<lambda>_. mret (Some (shift_data x rsp))))))"

definition ipmi_lan_ping :: "(lan, int) machine" where
  "ipmi_lan_ping =
     mbind (on_queue q_malloc) (\<lambda>ok.
     if \<not> ok then mret (-1)
     else
       mbind (ipmi_lan_send_packet rmcp_asf_ping) (\<lambda>ok.
       if \<not> ok then mret (-1)
       else mbind ipmi_lan_poll_recv (\<lambda>r. mret (if r = None then 0 else 1))))"

definition ipmi_lan_thump_first :: "(lan, unit) machine" where
  "ipmi_lan_thump_first =
     mbind (ipmi_lan_send_packet
       [0, 0, 0, 0, 0, 0, 0, 0, 0x07, 0x20, 0x18, 0xc8, 0xc2, 0x01, 0x01, 0x3c]) (\<lambda>_. mret ())"

definition ipmi_lan_thump :: "(lan, unit) machine" where
  "ipmi_lan_thump =
     mbind (ipmi_lan_send_packet [0x74, 0x68, 0x75, 0x6d, 0x70, 0, 0, 0, 0, 0]) (\<lambda>_. mret ())"

section \<open>Sending a request\<close>

definition ipmi_lan_build_cmd :: "ipmi_rq \<Rightarrow> (lan, nat option) machine" where
  "ipmi_lan_build_cmd req =
     mbind (mmod (\<lambda>s. if l_curr_seq s \<ge> 64 then s\<lparr>l_curr_seq := 0\<rparr> else s)) (\<lambda>_.
     mbind (on_queue (ipmi_req_add_entry req)) (\<lambda>entry.
     case entry of None \<Rightarrow> mret None
     | Some e \<Rightarrow>
       mbind get_session (\<lambda>ses.
       mbind (on_queue q_malloc) (\<lambda>ok.
       if \<not> ok then mret None
       else
         mbind (mget l_intf) (\<lambda>intf.
         mbind (mget l_bridge_possible) (\<lambda>bp.
         mbind (mget l_md2) (\<lambda>md2.
         mbind (mget (\<lambda>s. of_nat (l_curr_seq s) :: u8)) (\<lambda>seq.
         let msg = build_cmd_msg md2 intf ses bp seq req
         in
         if build_cmd_alloc ses req < length msg then mfail BufferOverflow
         else
           mbind (if is_bridged intf bp
                  then on_queue (store e (\<lambda>c. c\<lparr>e_req := (e_req c)\<lparr>rq_target_cmd := rq_cmd (e_req c), rq_cmd := 0x34\<rparr>\<rparr>))
                  else mret ()) (\<lambda>_.
           mbind (on_queue (store e (\<lambda>c. c\<lparr>e_rq_seq := seq\<rparr>))) (\<lambda>_.
           mbind (mmod (\<lambda>s. s\<lparr>l_curr_seq := Suc (l_curr_seq s)\<rparr>)) (\<lambda>_.
           mbind (mod_session (\<lambda>x. x\<lparr>s_in_seq := next_in_seq (s_in_seq x)\<rparr>)) (\<lambda>_.
           mbind (on_queue (store e (\<lambda>c. c\<lparr>e_msg_data := msg\<rparr>))) (\<lambda>_.
           mret (Some e))))))))))))))"

text \<open>
  The loop of \<open>ipmi_lan_send_cmd\<close>. A failed \<open>send\<close> starts the next turn without a look at the
  retry limit.
\<close>

fun send_loop :: "nat \<Rightarrow> ipmi_rq \<Rightarrow> int \<Rightarrow> (lan, ipmi_rs option) machine" where
  "send_loop 0 req try = mfail NoReturn"
| "send_loop (Suc n) req try =
     mbind (ipmi_lan_build_cmd req) (\<lambda>entry.
     case entry of None \<Rightarrow> mret None
     | Some e \<Rightarrow>
       mbind (on_queue (deref e)) (\<lambda>c.
       mbind (ipmi_lan_send_packet (e_msg_data c)) (\<lambda>ok.
       if \<not> ok then send_loop n req (try + 1)
       else
         mbind (mget l_intf) (\<lambda>intf.
         if i_noanswer intf then mret None
         else
           mbind (if ipmi_oem_active intf ''intelwv2'' then ipmi_lan_thump else mret ()) (\<lambda>_.
           mbind ipmi_lan_poll_recv (\<lambda>rsp.
           if rsp \<noteq> None then mret rsp
           else
             mbind get_session (\<lambda>ses.
             if try + 1 \<ge> s_retry ses then mret None
             else send_loop n req (try + 1))))))))"

text \<open>
  \<open>ipmi_lan_send_cmd\<close> once the interface is open. A turn of the loop that goes round uses up an answer of \<open>send\<close> and
  two of \<open>malloc\<close> while there are some. After as many turns as there are answers and tries, only a \<open>send\<close> that stays down is left,
  and then no turn ends the loop: the fuel runs out only when the loop does not end.
\<close>

definition send_cmd_opened :: "ipmi_rq \<Rightarrow> (lan, ipmi_rs option) machine" where
  "send_cmd_opened req =
     mbind get_session (\<lambda>ses.
     mbind (mget (\<lambda>s. Suc (length (l_sends s) + length (q_mallocs (l_queue s)) + nat (s_retry ses)))) (\<lambda>n.
     send_loop n req 0))"

end
