(* ===== verification/Lan_Safety.thy ===== *)
theory Lan_Safety
  imports Lan
begin

text \<open>
  The sending and receiving half of the LAN interface keeps its invariant: from any well-formed state,
  and for every network that \<open>env_ok\<close> admits, \<open>ipmi_lan_send_cmd\<close> touches no memory it does not own and
  returns. The proofs follow the code from \<open>ipmi_lan_recv_packet\<close> outwards.
\<close>

section \<open>The invariant of the interface\<close>

text \<open>
  What holds between any two operations. The environment is constrained by what its calls are
  documented to return (\<open>select\<close> counts descriptors, at most one in each of the two sets passed),
  and by two real restrictions: datagrams are shorter than the response buffer, and \<open>send\<close> does not fail for ever.
\<close>

definition env_ok :: "lan \<Rightarrow> bool" where
  "env_ok s \<longleftrightarrow> (\<forall>(n, err, rd) \<in> set (l_selects s). n \<le> 2) \<and>
     (\<forall>d. Some d \<in> set (l_recvs s) \<longrightarrow> length d < IPMI_BUF_SIZE) \<and> l_send_up s"

definition lan_ok :: "lan \<Rightarrow> bool" where
  "lan_ok s \<longleftrightarrow> (case i_session (l_intf s) of None \<Rightarrow> False | Some x \<Rightarrow> session_wf x) \<and>
     (\<exists>xs. req_abs (l_queue s) xs) \<and> l_curr_seq s \<le> 64 \<and>
     length (r_data (l_rsp s)) = IPMI_BUF_SIZE \<and> env_ok s"

definition rsp_ok :: "ipmi_rs \<Rightarrow> bool" where
  "rsp_ok r \<longleftrightarrow> length (r_data r) = IPMI_BUF_SIZE \<and> r_data_len r < int IPMI_BUF_SIZE"

text \<open>
  What a transmission leaves as it was: of the session everything but the inbound sequence number,
  which stays zero when it is zero and never becomes zero otherwise.
\<close>

definition same_session :: "ipmi_session \<Rightarrow> ipmi_session \<Rightarrow> bool" where
  "same_session x y \<longleftrightarrow> (\<exists>n. y = x\<lparr>s_in_seq := n\<rparr> \<and> (s_in_seq x = 0 \<longleftrightarrow> n = 0))"

definition lan_frame :: "lan \<Rightarrow> lan \<Rightarrow> bool" where
  "lan_frame s t \<longleftrightarrow>
     (\<exists>z. l_intf t = (l_intf s)\<lparr>i_session := z\<rparr> \<and> rel_option same_session (i_session (l_intf s)) z) \<and>
     l_bridge_possible t = l_bridge_possible s \<and> l_md2 t = l_md2 s \<and>
     length (l_selects t) \<le> length (l_selects s) \<and> length (l_sends t) \<le> length (l_sends s)"

lemma same_sessionI: "y = x\<lparr>s_in_seq := n\<rparr> \<Longrightarrow> (s_in_seq x = 0 \<longleftrightarrow> n = 0) \<Longrightarrow> same_session x y"
  unfolding same_session_def by blast

lemma same_sessionE:
  assumes "same_session x y"
  obtains n where "y = x\<lparr>s_in_seq := n\<rparr>" and "s_in_seq x = 0 \<longleftrightarrow> n = 0"
  using assms unfolding same_session_def by blast

lemma same_session_refl [simp]: "same_session x x"
  by (rule same_sessionI [where n = "s_in_seq x"]) simp_all

lemma same_session_trans: "same_session x y \<Longrightarrow> same_session y z \<Longrightarrow> same_session x z"
  by (elim same_sessionE, rule same_sessionI) simp_all

lemma same_session_next: "same_session x (x\<lparr>s_in_seq := next_in_seq (s_in_seq x)\<rparr>)"
  by (rule same_sessionI [OF refl]) (simp add: next_in_seq_def)

lemma same_session_wf: "same_session x y \<Longrightarrow> session_wf x \<Longrightarrow> session_wf y"
  by (elim same_sessionE) (simp add: session_wf_def)

lemma lan_frameI:
  "l_intf t = (l_intf s)\<lparr>i_session := z\<rparr> \<Longrightarrow> rel_option same_session (i_session (l_intf s)) z \<Longrightarrow>
   l_bridge_possible t = l_bridge_possible s \<Longrightarrow> l_md2 t = l_md2 s \<Longrightarrow>
   length (l_selects t) \<le> length (l_selects s) \<Longrightarrow> length (l_sends t) \<le> length (l_sends s) \<Longrightarrow> lan_frame s t"
  unfolding lan_frame_def by blast

lemma lan_frameE:
  assumes "lan_frame s t"
  obtains z where "l_intf t = (l_intf s)\<lparr>i_session := z\<rparr>"
    and "rel_option same_session (i_session (l_intf s)) z"
    and "l_bridge_possible t = l_bridge_possible s" and "l_md2 t = l_md2 s"
    and "length (l_selects t) \<le> length (l_selects s)" and "length (l_sends t) \<le> length (l_sends s)"
  using assms unfolding lan_frame_def by blast

lemma rel_same_session_refl: "rel_option same_session z z"
  by (cases z) auto

lemma rel_same_session_trans:
  "rel_option same_session x y \<Longrightarrow> rel_option same_session y z \<Longrightarrow> rel_option same_session x z"
  by (cases x; cases y; cases z) (auto intro: same_session_trans)

lemma lan_frame_refl [simp]: "lan_frame s s"
  by (rule lan_frameI [where z = "i_session (l_intf s)"]) (simp_all add: rel_same_session_refl)

lemma lan_frame_trans: "lan_frame s t \<Longrightarrow> lan_frame t u \<Longrightarrow> lan_frame s u"
proof (elim lan_frameE)
  fix y z
  assume "l_intf t = (l_intf s)\<lparr>i_session := y\<rparr>" "rel_option same_session (i_session (l_intf s)) y"
    "l_intf u = (l_intf t)\<lparr>i_session := z\<rparr>" "rel_option same_session (i_session (l_intf t)) z"
    "l_bridge_possible t = l_bridge_possible s" "l_md2 t = l_md2 s"
    "length (l_selects t) \<le> length (l_selects s)" "length (l_sends t) \<le> length (l_sends s)"
    "l_bridge_possible u = l_bridge_possible t" "l_md2 u = l_md2 t"
    "length (l_selects u) \<le> length (l_selects t)" "length (l_sends u) \<le> length (l_sends t)"
  then show ?thesis
    by (intro lan_frameI [where z = z]) (auto intro: rel_same_session_trans)
qed

text \<open>The states that the operations of a transmission started in \<open>s0\<close> can be in.\<close>

definition lan_inv :: "lan \<Rightarrow> lan \<Rightarrow> bool" where
  "lan_inv s0 s \<longleftrightarrow> lan_ok s \<and> lan_frame s0 s"

lemma lan_invI: "lan_ok s \<Longrightarrow> lan_inv s s"
  by (simp add: lan_inv_def)

lemma lan_inv_trans: "lan_inv s t \<Longrightarrow> lan_inv t u \<Longrightarrow> lan_inv s u"
  by (auto simp: lan_inv_def intro: lan_frame_trans)

lemma lan_okE:
  assumes "lan_ok s"
  obtains x xs where "i_session (l_intf s) = Some x" and "session_wf x" and "req_abs (l_queue s) xs"
    and "l_curr_seq s \<le> 64" and "length (r_data (l_rsp s)) = 1024" and "env_ok s"
  using assms by (auto simp: lan_ok_def split: option.splits)

lemma lan_okI:
  "i_session (l_intf s) = Some x \<Longrightarrow> session_wf x \<Longrightarrow> req_abs (l_queue s) xs \<Longrightarrow> l_curr_seq s \<le> 64 \<Longrightarrow>
     length (r_data (l_rsp s)) = 1024 \<Longrightarrow> env_ok s \<Longrightarrow> lan_ok s"
  by (auto simp: lan_ok_def)

lemma lan_inv_rsp:
  "lan_inv s0 s \<Longrightarrow> length (r_data r) = 1024 \<Longrightarrow> lan_inv s0 (s\<lparr>l_rsp := r\<rparr>)"
  by (auto simp: lan_inv_def lan_ok_def lan_frame_def env_ok_def)

lemma lan_inv_queue:
  "lan_inv s0 s \<Longrightarrow> req_abs q xs \<Longrightarrow> lan_inv s0 (s\<lparr>l_queue := q\<rparr>)"
  by (auto simp: lan_inv_def lan_ok_def lan_frame_def env_ok_def)

section \<open>The operations keep it\<close>

lemma script_hd_in: "xs \<noteq> [] \<Longrightarrow> script_hd d xs \<in> set xs"
  by (cases xs) auto

lemma set_tl: "x \<in> set (tl xs) \<Longrightarrow> x \<in> set xs"
  by (cases xs) auto

lemma lan_inv_selects:
  "lan_inv s0 s \<Longrightarrow> lan_inv s0 (s\<lparr>l_selects := tl (l_selects s)\<rparr>)"
  by (fastforce simp: lan_inv_def lan_ok_def lan_frame_def env_ok_def dest: set_tl)

lemma lan_inv_recvs:
  "lan_inv s0 s \<Longrightarrow> lan_inv s0 (s\<lparr>l_recvs := tl (l_recvs s)\<rparr>)"
  by (fastforce simp: lan_inv_def lan_ok_def lan_frame_def env_ok_def dest: set_tl)

lemma get_session_ok: "lan_inv s0 s \<Longrightarrow> \<exists>x. get_session s = Inr (x, s) \<and> i_session (l_intf s) = Some x"
  by (auto simp: get_session_def lan_inv_def lan_ok_def split: option.splits)

lemma lan_select_ok:
  assumes "lan_inv s0 s"
  shows "\<exists>n err rd t. lan_select s = Inr ((n, err, rd), t) \<and> lan_inv s0 t \<and> n \<le> 2 \<and>
    (rd \<longrightarrow> length (l_selects t) < length (l_selects s)) \<and> length (l_selects t) \<le> length (l_selects s)"
  using assms lan_inv_selects [OF assms]
  by (cases "l_selects s") (auto simp: lan_select_def lan_inv_def lan_ok_def env_ok_def)

lemma lan_recv_ok:
  assumes "lan_inv s0 s"
  shows "\<exists>n t. lan_recv s = Inr (n, t) \<and> lan_inv s0 t \<and> n < 1024 \<and> l_selects t = l_selects s"
proof (cases "script_hd None (l_recvs s)")
  case None
  with lan_inv_recvs [OF assms] show ?thesis by (simp add: lan_recv_def)
next
  case (Some d)
  then have "Some d \<in> set (l_recvs s)" by (cases "l_recvs s") auto
  with assms have "length d < 1024" "length (r_data (l_rsp s)) = 1024"
    by (auto simp: lan_inv_def lan_ok_def env_ok_def)
  with Some lan_inv_recvs [OF assms] show ?thesis
    by (auto simp: lan_recv_def Let_def intro!: lan_inv_rsp)
qed

lemma recv_finish_ok:
  assumes "lan_inv s0 s" and "0 \<le> n" and "n < 1024"
  shows "\<exists>r t. recv_finish n s = Inr (r, t) \<and> lan_inv s0 t \<and> l_selects t = l_selects s \<and>
    (\<forall>x. r = Some x \<longrightarrow> rsp_ok x)"
  using assms lan_inv_rsp [OF assms(1)]
  by (auto simp: recv_finish_def machine_simps rsp_ok_def lan_inv_def lan_ok_def)

lemma recv_packet_ok:
  assumes "lan_inv s0 s"
  shows "\<exists>r t. ipmi_lan_recv_packet s = Inr (r, t) \<and> lan_inv s0 t \<and>
    length (l_selects t) \<le> length (l_selects s) \<and>
    (\<forall>x. r = Some x \<longrightarrow> rsp_ok x \<and> length (l_selects t) < length (l_selects s))"
proof -
  note [simp] = machine_simps
  obtain x where gs: "get_session s = Inr (x, s)" using get_session_ok [OF assms] by blast
  obtain n err rd t where sel: "lan_select s = Inr ((n, err, rd), t)" and t: "lan_inv s0 t"
    and l: "rd \<longrightarrow> length (l_selects t) < length (l_selects s)" "length (l_selects t) \<le> length (l_selects s)"
    using lan_select_ok [OF assms] by blast
  obtain m u where rec: "lan_recv t = Inr (m, u)" and u: "lan_inv s0 u" "m < 1024" "l_selects u = l_selects t"
    using lan_recv_ok [OF t] by blast
  obtain y where gs2: "get_session u = Inr (y, u)" using get_session_ok [OF u(1)] by blast
  obtain n' err' rd' v where sel2: "lan_select u = Inr ((n', err', rd'), v)" and v: "lan_inv s0 v" "n' \<le> 2"
    and l2: "length (l_selects v) \<le> length (l_selects u)"
    using lan_select_ok [OF u(1)] by blast
  obtain m' w where rec2: "lan_recv v = Inr (m', w)" and w: "lan_inv s0 w" "m' < 1024" "l_selects w = l_selects v"
    using lan_recv_ok [OF v(1)] by blast
  consider "n < 0 \<or> err \<or> \<not> rd" | "\<not> (n < 0 \<or> err \<or> \<not> rd)" "0 \<le> m"
    | "\<not> (n < 0 \<or> err \<or> \<not> rd)" "m < 0" "0 \<le> n'"
    | "\<not> (n < 0 \<or> err \<or> \<not> rd)" "m < 0" "n' < 0" "err' \<or> \<not> rd' \<or> m' < 0"
    | "\<not> (n < 0 \<or> err \<or> \<not> rd)" "m < 0" "n' < 0" "\<not> (err' \<or> \<not> rd' \<or> m' < 0)"
    by linarith
  then show ?thesis
  proof cases
    case 1
    then show ?thesis using gs sel t l by (simp add: ipmi_lan_recv_packet_def)
  next
    case 2
    from recv_finish_ok [OF u(1) this(2) u(2)] 2 show ?thesis
      using gs sel rec l u(3) by (auto simp: ipmi_lan_recv_packet_def)
  next
    case 3
    have "n' < 1024" using v(2) by simp
    from recv_finish_ok [OF v(1) 3(3) this] 3 show ?thesis
      using gs sel rec gs2 sel2 l l2 u(3) by (auto simp: ipmi_lan_recv_packet_def)
  next
    case 4
    then show ?thesis
      using gs sel rec gs2 sel2 rec2 v w l l2 u(3) by (auto simp: ipmi_lan_recv_packet_def)
  next
    case 5
    then have "0 \<le> m'" by simp
    from recv_finish_ok [OF w(1) this w(2)] 5 show ?thesis
      using gs sel rec gs2 sel2 rec2 w l l2 u(3) by (auto simp: ipmi_lan_recv_packet_def)
  qed
qed

definition has_entry :: "lan \<Rightarrow> nat \<Rightarrow> bool" where
  "has_entry s a \<longleftrightarrow> (\<exists>xs. req_abs (l_queue s) xs \<and> a \<in> fst ` set xs)"

lemma lan_inv_abs: "lan_inv s0 s \<Longrightarrow> \<exists>xs. req_abs (l_queue s) xs"
  by (auto simp: lan_inv_def lan_ok_def)

lemma lookup_ok:
  assumes "lan_inv s0 s"
  shows "\<exists>a. on_queue (ipmi_req_lookup_entry seq cmd) s = Inr (a, s) \<and> (\<forall>e. a = Some e \<longrightarrow> has_entry s e)"
proof -
  obtain xs where xs: "req_abs (l_queue s) xs" using lan_inv_abs [OF assms] by blast
  have "e \<in> fst ` set xs" if "map_option fst (find P xs) = Some e" for e P
  proof -
    from that obtain y where "find P xs = Some y" and y: "fst y = e" by auto
    then have "y \<in> set xs" by (auto simp: find_Some_iff)
    with y show ?thesis by blast
  qed
  then have "\<forall>e. map_option fst (find (areq_matches seq cmd) xs) = Some e \<longrightarrow> has_entry s e"
    using xs unfolding has_entry_def by blast
  moreover have "on_queue (ipmi_req_lookup_entry seq cmd) s
      = Inr (map_option fst (find (areq_matches seq cmd) xs), s)"
    by (simp add: on_queue_def lan_list.lookup_law [OF xs])
  ultimately show ?thesis by blast
qed

lemma remove_ok:
  assumes "lan_inv s0 s"
  shows "\<exists>q. on_queue (ipmi_req_remove_entry seq cmd) s = Inr ((), s\<lparr>l_queue := q\<rparr>) \<and>
    lan_inv s0 (s\<lparr>l_queue := q\<rparr>)"
proof -
  obtain xs where xs: "req_abs (l_queue s) xs" using lan_inv_abs [OF assms] by blast
  from lan_list.remove_law [OF this, of seq cmd] lan_inv_queue [OF assms] show ?thesis
    by (auto simp: on_queue_def)
qed

lemma store_ok:
  assumes "lan_inv s0 s" and "has_entry s a" and "link_indep f"
  shows "\<exists>q. on_queue (store a f) s = Inr ((), s\<lparr>l_queue := q\<rparr>) \<and>
    lan_inv s0 (s\<lparr>l_queue := q\<rparr>) \<and> has_entry (s\<lparr>l_queue := q\<rparr>) a"
proof -
  obtain xs where xs: "req_abs (l_queue s) xs" "a \<in> fst ` set xs"
    using assms(2) by (auto simp: has_entry_def)
  let ?f = "\<lambda>x. if fst x = a then areq_upd f x else x"
  have "fst (?f x) = fst x" for x by (auto simp: areq_upd_def Let_def split: prod.splits)
  then have "fst ` set (map ?f xs) = fst ` set xs" by (simp only: set_map image_image)
  with xs(2) have "a \<in> fst ` set (map ?f xs)" by blast
  moreover obtain q where "store a f (l_queue s) = Inr ((), q)" and "req_abs q (map ?f xs)"
    using req_store_refines [OF xs assms(3)] by blast
  ultimately show ?thesis
    using lan_inv_queue [OF assms(1)]
    by (intro exI [of _ q]) (auto simp: on_queue_def has_entry_def simp del: set_map)
qed

lemma malloc_ok:
  assumes "lan_inv s0 s"
  shows "\<exists>ok q. on_queue q_malloc s = Inr (ok, s\<lparr>l_queue := q\<rparr>) \<and> lan_inv s0 (s\<lparr>l_queue := q\<rparr>) \<and>
    (\<forall>a. has_entry s a \<longrightarrow> has_entry (s\<lparr>l_queue := q\<rparr>) a)"
proof -
  have "req_abs (l_queue s) xs \<Longrightarrow> req_abs ((l_queue s)\<lparr>q_mallocs := m\<rparr>) xs" for xs m
    by (simp add: req_abs_def req_wf_def)
  with lan_inv_abs [OF assms] lan_inv_queue [OF assms] show ?thesis
    by (fastforce simp: on_queue_def q_malloc_def has_entry_def)
qed

lemma add_ok:
  assumes "lan_inv s0 s"
  shows "\<exists>a q. on_queue (ipmi_req_add_entry req) s = Inr (a, s\<lparr>l_queue := q\<rparr>) \<and>
    lan_inv s0 (s\<lparr>l_queue := q\<rparr>) \<and> (\<forall>e. a = Some e \<longrightarrow> has_entry (s\<lparr>l_queue := q\<rparr>) e)"
proof -
  obtain xs where xs: "req_abs (l_queue s) xs" using lan_inv_abs [OF assms] by blast
  from lan_list.add_law [OF this, of req] obtain a q where
    "ipmi_req_add_entry req (l_queue s) = Inr (a, q)"
    and q: "req_abs q (case a of None \<Rightarrow> xs | Some a \<Rightarrow> xs @ [(a, req, 0, [])])" by blast
  with lan_inv_queue [OF assms q] show ?thesis
    by (fastforce simp: on_queue_def has_entry_def split: option.splits)
qed

lemma poll_again_ok:
  assumes loop: "\<And>s rsp. lan_inv s0 s \<Longrightarrow> (\<forall>x. rsp = Some x \<longrightarrow> rsp_ok x \<and> length (l_selects s) < n) \<Longrightarrow>
      \<exists>v t. again rsp s = Inr (v, t) \<and> lan_inv s0 t \<and> (\<forall>r x. v = Inr (Some r, x) \<or> v = Inl (Some r) \<longrightarrow> rsp_ok r)"
    and "lan_inv s0 s" and "length (l_selects s) \<le> n"
  shows "\<exists>v t. mbind ipmi_lan_recv_packet again s = Inr (v, t) \<and> lan_inv s0 t \<and>
    (\<forall>r x. v = Inr (Some r, x) \<or> v = Inl (Some r) \<longrightarrow> rsp_ok r)"
proof -
  obtain r t where "ipmi_lan_recv_packet s = Inr (r, t)" and t: "lan_inv s0 t"
    and r: "\<forall>x. r = Some x \<longrightarrow> rsp_ok x \<and> length (l_selects t) < length (l_selects s)"
    using recv_packet_ok [OF assms(2)] by blast
  moreover from r assms(3) have "\<forall>x. r = Some x \<longrightarrow> rsp_ok x \<and> length (l_selects t) < n" by auto
  ultimately show ?thesis using loop [OF t] by (simp add: machine_simps)
qed

lemma parse_headers_rsp_ok: "rsp_ok r \<Longrightarrow> rsp_ok (parse_headers x r)"
  by (simp add: rsp_ok_def parse_headers_def Let_def)

lemma poll_loop_ok:
  "lan_inv s0 s \<Longrightarrow> (\<forall>x. rsp = Some x \<longrightarrow> rsp_ok x \<and> length (l_selects s) < n) \<Longrightarrow>
     \<exists>v t. poll_loop n rsp s = Inr (v, t) \<and> lan_inv s0 t \<and> (\<forall>r x. v = Inr (Some r, x) \<or> v = Inl (Some r) \<longrightarrow> rsp_ok r)"
proof (induction n arbitrary: s rsp)
  case 0
  then show ?case by (cases rsp) (auto simp: machine_simps)
next
  case (Suc n)
  note [simp] = machine_simps
  have again: "\<exists>v t. mbind ipmi_lan_recv_packet (poll_loop n) s = Inr (v, t) \<and> lan_inv s0 t \<and>
      (\<forall>r x. v = Inr (Some r, x) \<or> v = Inl (Some r) \<longrightarrow> rsp_ok r)" if "lan_inv s0 s" "length (l_selects s) \<le> n" for s
    using Suc.IH that by (rule poll_again_ok)
  show ?case
  proof (cases rsp)
    case None
    with Suc.prems show ?thesis by simp
  next
    case (Some r)
    with Suc.prems have r: "rsp_ok r" and l: "length (l_selects s) \<le> n" by auto
    consider "r_data r ! 3 = 6" | "r_data r ! 3 \<noteq> 6" "r_data r ! 3 \<noteq> 7" | "r_data r ! 3 = 7" by blast
    then show ?thesis
    proof cases
      case 1
      with Some Suc.prems(1) r show ?thesis by (simp add: poll_step_def)
    next
      case 2
      with Some again [OF Suc.prems(1) l] show ?thesis by (simp add: poll_step_def)
    next
      case 3
      obtain x where gs: "get_session s = Inr (x, s)" using get_session_ok [OF Suc.prems(1)] by blast
      define p where "p = parse_headers x r"
      have p: "rsp_ok p" using r by (simp add: p_def parse_headers_rsp_ok)
      let ?s = "s\<lparr>l_rsp := p\<rparr>"
      have inv: "lan_inv s0 ?s" using p Suc.prems(1) by (intro lan_inv_rsp) (auto simp: rsp_ok_def)
      obtain a where lk: "on_queue (ipmi_req_lookup_entry (r_rq_seq p) (r_cmd p)) ?s = Inr (a, ?s)"
        and a: "\<forall>e. a = Some e \<longrightarrow> has_entry ?s e" using lookup_ok [OF inv] by blast
      have unf: "poll_loop (Suc n) rsp s = (case a of None \<Rightarrow> mbind ipmi_lan_recv_packet (poll_loop n) ?s
        | Some e \<Rightarrow> if (i_target_addr (l_intf s) \<noteq> ucast (our_address (l_intf s)) \<and> l_bridge_possible s)
              \<and> r_cmd p = 0x34 \<and> r_data_len p = 38
            then mbind (on_queue (store e (\<lambda>c. c\<lparr>e_req := (e_req c)\<lparr>rq_cmd := rq_target_cmd (e_req c)\<rparr>\<rparr>)))
                   (\<lambda>_. mbind ipmi_lan_recv_packet (poll_loop n)) ?s
            else mbind (on_queue (ipmi_req_remove_entry (r_rq_seq p) (r_cmd p)))
                   (\<lambda>_. mret (Inr (Some p, hdr_off x (r_data r) + 8))) ?s)"
        using Some 3 gs lk by (simp add: poll_step_def Let_def p_def split: option.split) auto
      show ?thesis
      proof (cases a)
        case None
        with unf again [OF inv] l show ?thesis by simp
      next
        case (Some e)
        with a have e: "has_entry ?s e" by simp
        have li: "link_indep (\<lambda>c. c\<lparr>e_req := (e_req c)\<lparr>rq_cmd := rq_target_cmd (e_req c)\<rparr>\<rparr>)"
          by (simp add: link_indep_def)
        obtain q where st: "on_queue (store e (\<lambda>c. c\<lparr>e_req := (e_req c)\<lparr>rq_cmd := rq_target_cmd (e_req c)\<rparr>\<rparr>)) ?s
            = Inr ((), ?s\<lparr>l_queue := q\<rparr>)" and q: "lan_inv s0 (?s\<lparr>l_queue := q\<rparr>)"
          using store_ok [OF inv e li] by blast
        obtain q' where rm: "on_queue (ipmi_req_remove_entry (r_rq_seq p) (r_cmd p)) ?s = Inr ((), ?s\<lparr>l_queue := q'\<rparr>)"
          and q': "lan_inv s0 (?s\<lparr>l_queue := q'\<rparr>)" using remove_ok [OF inv] by blast
        show ?thesis unfolding unf using Some st rm q' p again [OF q] l by simp
      qed
    qed
  qed
qed

lemma shift_data_ok: "rsp_ok r \<Longrightarrow> rsp_ok (shift_data x r)"
  by (auto simp: rsp_ok_def shift_data_def Let_def)

lemma poll_recv_ok:
  assumes "lan_inv s0 s"
  shows "\<exists>r t. ipmi_lan_poll_recv s = Inr (r, t) \<and> lan_inv s0 t \<and> (\<forall>x. r = Some x \<longrightarrow> rsp_ok x)"
proof -
  obtain r t where rc: "ipmi_lan_recv_packet s = Inr (r, t)" and t: "lan_inv s0 t"
    and r: "\<forall>x. r = Some x \<longrightarrow> rsp_ok x \<and> length (l_selects t) < length (l_selects s)"
    using recv_packet_ok [OF assms] by blast
  from r have "\<forall>x. r = Some x \<longrightarrow> rsp_ok x \<and> length (l_selects t) < Suc (length (l_selects s))" by auto
  from poll_loop_ok [OF t this] obtain v u
    where pl: "poll_loop (Suc (length (l_selects s))) r t = Inr (v, u)"
    and u: "lan_inv s0 u" "\<forall>r x. v = Inr (Some r, x) \<or> v = Inl (Some r) \<longrightarrow> rsp_ok r" by blast
  show ?thesis
  proof (cases "\<exists>p x. v = Inr (Some p, x)")
    case True
    then obtain p x where v: "v = Inr (Some p, x)" by blast
    with u have "lan_inv s0 (u\<lparr>l_rsp := shift_data x p\<rparr>)"
      using shift_data_ok [of p x] by (intro lan_inv_rsp) (auto simp: rsp_ok_def)
    with v pl rc u shift_data_ok [of p x] show ?thesis by (simp add: ipmi_lan_poll_recv_def machine_simps del: poll_loop.simps)
  next
    case False
    with pl rc u show ?thesis
      by (auto simp: ipmi_lan_poll_recv_def machine_simps simp del: poll_loop.simps split: sum.splits prod.splits option.splits)
  qed
qed

lemma lan_inv_session:
  assumes "lan_inv s0 s" and "i_session (l_intf s) = Some x" and "same_session x y"
  shows "lan_inv s0 (s\<lparr>l_intf := (l_intf s)\<lparr>i_session := Some y\<rparr>\<rparr>)"
proof -
  have "lan_ok (s\<lparr>l_intf := (l_intf s)\<lparr>i_session := Some y\<rparr>\<rparr>)"
    using assms by (auto simp: lan_inv_def lan_ok_def env_ok_def dest: same_session_wf)
  moreover have "lan_frame s (s\<lparr>l_intf := (l_intf s)\<lparr>i_session := Some y\<rparr>\<rparr>)"
    using assms by (intro lan_frameI [where z = "Some y"]) auto
  ultimately show ?thesis
    using assms(1) by (auto simp: lan_inv_def intro: lan_frame_trans)
qed

lemma build_cmd_ok:
  assumes "lan_inv s0 s" and "length (rq_data req) < 2 ^ 16"
  shows "\<exists>a t. ipmi_lan_build_cmd req s = Inr (a, t) \<and> lan_inv s0 t \<and> (\<forall>e. a = Some e \<longrightarrow> has_entry t e)"
proof -
  note [simp] = machine_simps
  define s1 where "s1 = (if l_curr_seq s \<ge> 64 then s\<lparr>l_curr_seq := 0\<rparr> else s)"
  have s1: "lan_inv s0 s1" and c1: "l_curr_seq s1 < 64"
    using assms(1) by (auto simp: s1_def lan_inv_def lan_ok_def lan_frame_def env_ok_def)
  obtain a q where add: "on_queue (ipmi_req_add_entry req) s1 = Inr (a, s1\<lparr>l_queue := q\<rparr>)"
    and q: "lan_inv s0 (s1\<lparr>l_queue := q\<rparr>)" "\<forall>e. a = Some e \<longrightarrow> has_entry (s1\<lparr>l_queue := q\<rparr>) e"
    using add_ok [OF s1] by blast
  obtain ok q2 where mal: "on_queue q_malloc (s1\<lparr>l_queue := q\<rparr>) = Inr (ok, s1\<lparr>l_queue := q2\<rparr>)"
    and q2: "lan_inv s0 (s1\<lparr>l_queue := q2\<rparr>)" "\<forall>e. a = Some e \<longrightarrow> has_entry (s1\<lparr>l_queue := q2\<rparr>) e"
    using malloc_ok [OF q(1)] q(2) by auto
  obtain x where gs: "get_session (s1\<lparr>l_queue := q\<rparr>) = Inr (x, s1\<lparr>l_queue := q\<rparr>)" and x: "i_session (l_intf s1) = Some x"
    using get_session_ok [OF q(1)] by auto
  define msg where "msg = build_cmd_msg (l_md2 s1) (l_intf s1) x (l_bridge_possible s1) (of_nat (l_curr_seq s1)) req"
  have fits: "\<not> build_cmd_alloc x req < length msg"
    using build_cmd_fits_buffer_aux [OF assms(2)] by (simp add: msg_def not_less)
  have keep: "\<exists>q'. on_queue (store e f) (s1\<lparr>l_queue := q\<rparr>) = Inr ((), s1\<lparr>l_queue := q'\<rparr>) \<and>
      lan_inv s0 (s1\<lparr>l_queue := q'\<rparr>) \<and> has_entry (s1\<lparr>l_queue := q'\<rparr>) e"
    if "lan_inv s0 (s1\<lparr>l_queue := q\<rparr>)" "has_entry (s1\<lparr>l_queue := q\<rparr>) e" "link_indep f" for e f q
    using store_ok [OF that] by simp
  show ?thesis
  proof (cases "a = None \<or> \<not> ok")
    case True
    then show ?thesis
      using add mal gs q q2 by (cases a) (auto simp: ipmi_lan_build_cmd_def simp flip: s1_def)
  next
    case False
    then obtain e where a: "a = Some e" and ok by auto
    let ?f1 = "\<lambda>c. c\<lparr>e_req := (e_req c)\<lparr>rq_target_cmd := rq_cmd (e_req c), rq_cmd := 0x34\<rparr>\<rparr>"
    let ?m1 = "if is_bridged (l_intf s1) (l_bridge_possible s1) then on_queue (store e ?f1) else mret ()"
    obtain q3 where m1: "?m1 (s1\<lparr>l_queue := q2\<rparr>) = Inr ((), s1\<lparr>l_queue := q3\<rparr>)"
      and q3: "lan_inv s0 (s1\<lparr>l_queue := q3\<rparr>)" "has_entry (s1\<lparr>l_queue := q3\<rparr>) e"
      using keep [OF q2(1), of e ?f1] q2 a
      by (cases "is_bridged (l_intf s1) (l_bridge_possible s1)") (auto simp: link_indep_def)
    obtain q4 where m2: "on_queue (store e (\<lambda>c. c\<lparr>e_rq_seq := of_nat (l_curr_seq s1)\<rparr>)) (s1\<lparr>l_queue := q3\<rparr>)
        = Inr ((), s1\<lparr>l_queue := q4\<rparr>)" and q4: "lan_inv s0 (s1\<lparr>l_queue := q4\<rparr>)" "has_entry (s1\<lparr>l_queue := q4\<rparr>) e"
      using keep [OF q3, of "\<lambda>c. c\<lparr>e_rq_seq := of_nat (l_curr_seq s1)\<rparr>"] by (auto simp: link_indep_def)
    let ?s5 = "s1\<lparr>l_queue := q4, l_curr_seq := Suc (l_curr_seq s1)\<rparr>"
    have s5: "lan_inv s0 ?s5"
      using q4(1) c1 by (auto simp: lan_inv_def lan_ok_def lan_frame_def env_ok_def)
    let ?s6 = "?s5\<lparr>l_intf := (l_intf s1)\<lparr>i_session := Some (x\<lparr>s_in_seq := next_in_seq (s_in_seq x)\<rparr>)\<rparr>\<rparr>"
    have s6: "lan_inv s0 ?s6"
      using lan_inv_session [OF s5 _ same_session_next] x by simp
    have "has_entry ?s6 e" using q4(2) by (simp add: has_entry_def)
    from store_ok [OF s6 this, of "\<lambda>c. c\<lparr>e_msg_data := msg\<rparr>"]
    obtain q7 where m7: "on_queue (store e (\<lambda>c. c\<lparr>e_msg_data := msg\<rparr>)) ?s6 = Inr ((), ?s6\<lparr>l_queue := q7\<rparr>)"
      and q7: "lan_inv s0 (?s6\<lparr>l_queue := q7\<rparr>)" "has_entry (?s6\<lparr>l_queue := q7\<rparr>) e"
      by (auto simp: link_indep_def)
    have "ipmi_lan_build_cmd req s = Inr (Some e, ?s6\<lparr>l_queue := q7\<rparr>)"
      using add mal gs a \<open>ok\<close> fits m1 m2 m7 x
      by (simp add: ipmi_lan_build_cmd_def mod_session_def mod_intf_def get_session_def flip: s1_def msg_def cong: if_cong)
    with q7 show ?thesis by blast
  qed
qed

lemma send_packet_ok:
  "lan_inv s0 s \<Longrightarrow> \<exists>ok t. ipmi_lan_send_packet d s = Inr (ok, t) \<and> lan_inv s0 t \<and>
     l_queue t = l_queue s \<and> length (l_sends t) \<le> length (l_sends s) \<and>
     (\<not> ok \<longrightarrow> length (l_sends t) < length (l_sends s))"
  by (cases "l_sends s")
    (auto simp: ipmi_lan_send_packet_def Let_def lan_inv_def lan_ok_def lan_frame_def env_ok_def)

lemma lan_inv_ok: "lan_inv s0 s \<Longrightarrow> lan_ok s"
  by (simp add: lan_inv_def)

lemma thump_ok:
  "lan_inv s0 s \<Longrightarrow> \<exists>t. ipmi_lan_thump s = Inr ((), t) \<and> lan_inv s0 t"
  "lan_inv s0 s \<Longrightarrow> \<exists>t. ipmi_lan_thump_first s = Inr ((), t) \<and> lan_inv s0 t"
proof -
  assume "lan_inv s0 s"
  note send = send_packet_ok [OF this]
  from send [of "[0x74, 0x68, 0x75, 0x6d, 0x70, 0, 0, 0, 0, 0]"]
  show "\<exists>t. ipmi_lan_thump s = Inr ((), t) \<and> lan_inv s0 t"
    by (auto simp: ipmi_lan_thump_def machine_simps)
  from send [of "[0, 0, 0, 0, 0, 0, 0, 0, 0x07, 0x20, 0x18, 0xc8, 0xc2, 0x01, 0x01, 0x3c]"]
  show "\<exists>t. ipmi_lan_thump_first s = Inr ((), t) \<and> lan_inv s0 t"
    by (auto simp: ipmi_lan_thump_first_def machine_simps)
qed

lemma deref_ok: "has_entry s e \<Longrightarrow> \<exists>c. on_queue (deref e) s = Inr (c, s)"
proof -
  assume "has_entry s e"
  then obtain xs x where "req_abs (l_queue s) xs" "x \<in> set xs" "fst x = e" by (auto simp: has_entry_def)
  then show ?thesis using req_deref_refines [of "l_queue s" xs e] by (cases x) (fastforce simp: on_queue_def)
qed

lemma lan_inv_frame_sends: "lan_inv s0 s \<Longrightarrow> length (l_sends s) \<le> length (l_sends s0)"
  by (simp add: lan_inv_def lan_frame_def)

lemma lan_inv_retry:
  assumes "lan_inv s0 s" and "i_session (l_intf s0) = Some x"
  shows "\<exists>y. get_session s = Inr (y, s) \<and> s_retry y = s_retry x"
proof -
  from assms obtain y where "i_session (l_intf s) = Some y" "same_session x y"
    by (auto simp: lan_inv_def lan_ok_def lan_frame_def option_rel_Some1 split: option.splits)
  then show ?thesis by (auto simp: get_session_def elim: same_sessionE)
qed

text \<open>
  The sending loop ends: a turn that goes round either has used up one of the failing answers of
  \<open>send\<close> or has counted one more k, and it stops at \<open>retry\<close> tries.
\<close>

lemma send_loop_ok:
  assumes x: "i_session (l_intf s0) = Some x" and req: "length (rq_data req) < 2 ^ 16"
  shows "lan_inv s0 s \<Longrightarrow> length (l_sends s) + nat (s_retry x - k) < n \<Longrightarrow>
    \<exists>r t. send_loop n req k s = Inr (r, t) \<and> lan_inv s0 t \<and> (\<forall>x. r = Some x \<longrightarrow> rsp_ok x)"
proof (induction n arbitrary: k s)
  case 0
  then show ?case by simp
next
  case (Suc n)
  note [simp] = machine_simps
  obtain a s1 where bc: "ipmi_lan_build_cmd req s = Inr (a, s1)" and s1: "lan_inv s s1" "\<forall>e. a = Some e \<longrightarrow> has_entry s1 e"
    using build_cmd_ok [OF lan_invI req, of s] Suc.prems(1) by (auto simp: lan_inv_def)
  have i1: "lan_inv s0 s1" using lan_inv_trans [OF Suc.prems(1) s1(1)] .
  show ?case
  proof (cases a)
    case None
    with bc i1 show ?thesis by simp
  next
    case (Some e)
    with s1 obtain c where de: "on_queue (deref e) s1 = Inr (c, s1)" using deref_ok by blast
    obtain ok s2 where sp: "ipmi_lan_send_packet (e_msg_data c) s1 = Inr (ok, s2)" and s2: "lan_inv s0 s2"
      and l2: "length (l_sends s2) \<le> length (l_sends s1)" "\<not> ok \<longrightarrow> length (l_sends s2) < length (l_sends s1)"
      using send_packet_ok [OF i1] by blast
    have l1: "length (l_sends s1) \<le> length (l_sends s)" using lan_inv_frame_sends [OF s1(1)] .
    show ?thesis
    proof (cases "ok \<and> \<not> i_noanswer (l_intf s2)")
      case False
      have "\<exists>r t. send_loop n req (k + 1) s2 = Inr (r, t) \<and> lan_inv s0 t \<and> (\<forall>x. r = Some x \<longrightarrow> rsp_ok x)" if "\<not> ok"
        using Suc.IH [OF s2, of "k + 1"] l1 l2 that Suc.prems(2) by auto
      with False Some bc de sp s2 show ?thesis by (cases ok) auto
    next
      case True
      let ?th = "if ipmi_oem_active (l_intf s2) ''intelwv2'' then ipmi_lan_thump else mret ()"
      obtain s3 where th: "?th s2 = Inr ((), s3)" and s3: "lan_inv s2 s3"
        using thump_ok(1) [OF lan_invI, OF lan_inv_ok, OF s2] lan_invI [OF lan_inv_ok, OF s2]
        by (cases "ipmi_oem_active (l_intf s2) ''intelwv2''") auto
      obtain r s4 where pr: "ipmi_lan_poll_recv s3 = Inr (r, s4)" and s4: "lan_inv s3 s4"
        and ro: "\<forall>x. r = Some x \<longrightarrow> rsp_ok x"
        using poll_recv_ok [OF lan_invI, of s3] s3 by (auto simp: lan_inv_def)
      have i4: "lan_inv s2 s4" "lan_inv s0 s4" using lan_inv_trans s2 s3 s4 by blast+
      obtain y where gs: "get_session s4 = Inr (y, s4)" "s_retry y = s_retry x" using lan_inv_retry [OF i4(2) x] by blast
      have "\<exists>r t. send_loop n req (k + 1) s4 = Inr (r, t) \<and> lan_inv s0 t \<and> (\<forall>x. r = Some x \<longrightarrow> rsp_ok x)" if "\<not> k + 1 \<ge> s_retry y"
        using Suc.IH [OF i4(2), of "k + 1"] l1 l2(1) lan_inv_frame_sends [OF i4(1)] that gs(2) Suc.prems(2) by auto
      with True Some bc de sp th pr gs i4 ro show ?thesis by (cases r) auto
    qed
  qed
qed

lemma send_cmd_opened_ok:
  assumes "lan_ok s" and "length (rq_data req) < 2 ^ 16"
  shows "\<exists>r t. send_cmd_opened req s = Inr (r, t) \<and> lan_inv s t \<and> (\<forall>x. r = Some x \<longrightarrow> rsp_ok x)"
proof -
  obtain x where x: "i_session (l_intf s) = Some x" using assms(1) by (rule lan_okE)
  show ?thesis
    using send_loop_ok [OF x assms(2) lan_invI [OF assms(1)], of 0] x
    by (simp add: send_cmd_opened_def machine_simps get_session_def del: send_loop.simps)
qed

end
