(* ===== verification/Lan_Session.thy ===== *)
theory Lan_Session
  imports Lan_Safety
begin

text \<open>
  Session set-up and tear-down of the IPMI v1.5 LAN interface (\<open>ipmitool/src/plugins/lan/lan.c\<close>,
  \<open>ipmi_lan_build_rsp\<close> to the end of the file).

  The session commands call \<open>intf->sendrecv\<close>; it is their argument \<open>sr\<close>. While a session is being
  opened \<open>intf->opened\<close> is already set, so that the function behind the pointer,
  \<open>ipmi_lan_send_cmd\<close>, goes straight to its sending loop \<open>send_cmd_opened\<close>
  (\<open>send_cmd_opened_when_open\<close> below); \<open>ipmi_lan_open\<close> and \<open>ipmi_lan_close\<close> pass that.
\<close>

type_synonym sendrecv = "ipmi_rq \<Rightarrow> (lan, ipmi_rs option) machine"

definition app_rq :: "u8 \<Rightarrow> bytes \<Rightarrow> ipmi_rq" where
  "app_rq cmd data = \<lparr>rq_netfn = 6, rq_lun = 0, rq_cmd = cmd, rq_target_cmd = 0, rq_data = data\<rparr>"

section \<open>Sending a response\<close>

definition ipmi_lan_build_rsp :: "ipmi_rs \<Rightarrow> (lan, bytes option) machine" where
  "ipmi_lan_build_rsp rsp =
     mbind get_session (\<lambda>_.
     mbind (on_queue q_malloc) (\<lambda>ok.
     if \<not> ok then mret None
     else
       mbind (mod_session (\<lambda>x. x\<lparr>s_in_seq := next_in_seq (s_in_seq x)\<rparr>)) (\<lambda>_.
       mbind get_session (\<lambda>ses.
       mbind (mget l_md2) (\<lambda>md2.
       let msg = build_rsp_msg md2 ses rsp
       in if nat (r_data_len rsp) + 22 + (if s_active ses then 16 else 0) < length msg
          then mfail BufferOverflow
          else mret (Some msg))))))"

definition ipmi_lan_send_rsp :: "ipmi_rs \<Rightarrow> (lan, int) machine" where
  "ipmi_lan_send_rsp rsp =
     mbind (ipmi_lan_build_rsp rsp) (\<lambda>msg.
     case msg of None \<Rightarrow> mret (-1)
     | Some m \<Rightarrow>
         if m = [] then mret (-1)
         else mbind (ipmi_lan_send_packet m) (\<lambda>ok. mret (if ok then 0 else -1)))"

section \<open>Session commands\<close>

definition ipmi_lan_keepalive :: "sendrecv \<Rightarrow> (lan, int) machine" where
  "ipmi_lan_keepalive sr =
     mbind (mget (\<lambda>s. i_opened (l_intf s))) (\<lambda>opened.
     if \<not> opened then mret 0
     else mbind (sr (app_rq 1 [])) (\<lambda>rsp.
       case rsp of None \<Rightarrow> mret (-1)
       | Some r \<Rightarrow> mret (if r_ccode r > 0 then -1 else 0)))"

text \<open>
  The choice of an authentication type: \<open>password\<close> and \<open>authtype_set\<close> from the command line, the
  types the BMC supports as bits of \<open>rsp->data[1]\<close>.
\<close>

definition choose_authtype :: "bool \<Rightarrow> u8 \<Rightarrow> u8 \<Rightarrow> u8 option" where
  "choose_authtype password authtype_set supported =
     (let want = (\<lambda>t. (authtype_set = 0 \<or> authtype_set = t) \<and> bit supported (unat t))
      in if password \<and> want IPMI_SESSION_AUTHTYPE_MD5 then Some IPMI_SESSION_AUTHTYPE_MD5
         else if password \<and> want IPMI_SESSION_AUTHTYPE_MD2 then Some IPMI_SESSION_AUTHTYPE_MD2
         else if password \<and> want IPMI_SESSION_AUTHTYPE_PASSWORD then Some IPMI_SESSION_AUTHTYPE_PASSWORD
         else if password \<and> want IPMI_SESSION_AUTHTYPE_OEM then Some IPMI_SESSION_AUTHTYPE_OEM
         else if want IPMI_SESSION_AUTHTYPE_NONE then Some IPMI_SESSION_AUTHTYPE_NONE
         else None)"

definition ipmi_get_auth_capabilities_cmd :: "sendrecv \<Rightarrow> (lan, int) machine" where
  "ipmi_get_auth_capabilities_cmd sr =
     mbind get_session (\<lambda>ses.
     mbind (sr (app_rq 0x38 [0x0e, s_privlvl ses])) (\<lambda>rsp.
     case rsp of None \<Rightarrow> mret (-1)
     | Some r \<Rightarrow>
         if r_ccode r > 0 then mret (-1)
         else
           mbind (mod_session (\<lambda>x. x\<lparr>s_authstatus := r_data r ! 2\<rparr>)) (\<lambda>_.
           mbind get_session (\<lambda>ses.
           case choose_authtype (s_password ses) (s_authtype_set ses) (r_data r ! 1) of
             None \<Rightarrow> mret (-1)
           | Some t \<Rightarrow> mbind (mod_session (\<lambda>x. x\<lparr>s_authtype := t\<rparr>)) (\<lambda>_. mret 0)))))"

definition ipmi_get_session_challenge_cmd :: "sendrecv \<Rightarrow> (lan, int) machine" where
  "ipmi_get_session_challenge_cmd sr =
     mbind get_session (\<lambda>ses.
     mbind (sr (app_rq 0x39 (s_authtype ses # take 16 (s_username ses)))) (\<lambda>rsp.
     case rsp of None \<Rightarrow> mret (-1)
     | Some r \<Rightarrow>
         if r_ccode r > 0 then mret (-1)
         else
           mbind (mod_session (\<lambda>x. x\<lparr>s_session_id := of_le32 (r_data r),
              s_challenge := memcpy_at (s_challenge x) 0 (take 16 (drop 4 (r_data r)))\<rparr>)) (\<lambda>_.
           mret 0)))"

text \<open>Four bytes of \<open>/dev/urandom\<close>; without it the bytes of the buffer stand, here zeros.\<close>

definition get_random4 :: "(lan, bytes) machine" where
  "get_random4 s =
     Inr (take 4 (script_hd [] (l_randoms s) @ replicate 4 0), s\<lparr>l_randoms := tl (l_randoms s)\<rparr>)"

definition ipmi_activate_session_cmd :: "sendrecv \<Rightarrow> (lan, int) machine" where
  "ipmi_activate_session_cmd sr =
     mbind get_session (\<lambda>ses.
     mbind (mget l_intf) (\<lambda>intf.
     let special = ipmi_oem_active intf ''supermicro''
     in
     mbind (if special
            then mod_session (\<lambda>x. x\<lparr>s_authcode := memcpy_at (s_authcode x) 0 (ipmi_auth_special x)\<rparr>)
            else mret ()) (\<lambda>_.
     mbind get_random4 (\<lambda>rnd.
     mbind (mod_session (\<lambda>x. x\<lparr>s_active := True\<rparr>)) (\<lambda>_.
     mbind (sr (app_rq 0x3a ([s_authtype ses, s_privlvl ses]
              @ (if special then replicate 16 0 else take 16 (s_challenge ses)) @ rnd))) (\<lambda>rsp.
     case rsp of
       None \<Rightarrow> mbind (mod_session (\<lambda>x. x\<lparr>s_active := False\<rparr>)) (\<lambda>_. mret (-1))
     | Some r \<Rightarrow>
         if r_ccode r \<noteq> 0 then mret (-1)
         else
           mbind (mod_session (\<lambda>x. x\<lparr>s_session_id := of_le32 (drop 1 (r_data r)),
              s_in_seq := (let n = of_le32 (drop 5 (r_data r)) in if n = 0 then 1 else n)\<rparr>)) (\<lambda>_.
           mbind get_session (\<lambda>ses.
           if s_authstatus ses AND 0x10 \<noteq> 0 then
             mbind (mod_session (\<lambda>x. x\<lparr>s_authtype := IPMI_SESSION_AUTHTYPE_NONE\<rparr>)) (\<lambda>_.
             mbind (mmod (\<lambda>s. s\<lparr>l_bridge_possible := True\<rparr>)) (\<lambda>_. mret 0))
           else if s_authtype ses \<noteq> (r_data r ! 0 AND 0xf) then mret (-1)
           else mbind (mmod (\<lambda>s. s\<lparr>l_bridge_possible := True\<rparr>)) (\<lambda>_. mret 0)))))))))"

definition ipmi_set_session_privlvl_cmd :: "sendrecv \<Rightarrow> (lan, int) machine" where
  "ipmi_set_session_privlvl_cmd sr =
     mbind get_session (\<lambda>ses.
     mbind (mget l_bridge_possible) (\<lambda>backup_bridge_possible.
     if s_privlvl ses \<le> 2 then mret 0
     else
       mbind (mmod (\<lambda>s. s\<lparr>l_bridge_possible := False\<rparr>)) (\<lambda>_.
       mbind (sr (app_rq 0x3b [s_privlvl ses])) (\<lambda>rsp.
       mbind (mmod (\<lambda>s. s\<lparr>l_bridge_possible := backup_bridge_possible\<rparr>)) (\<lambda>_.
       case rsp of None \<Rightarrow> mret (-1)
       | Some r \<Rightarrow> mret (if r_ccode r > 0 then -1 else 0))))))"

definition ipmi_close_session_cmd :: "sendrecv \<Rightarrow> (lan, int) machine" where
  "ipmi_close_session_cmd sr =
     mbind get_session (\<lambda>ses.
     if \<not> s_active ses then mret (-1)
     else
       mbind (mod_intf (\<lambda>i. i\<lparr>i_target_addr := ucast IPMI_BMC_SLAVE_ADDR\<rparr>)) (\<lambda>_.
       mbind (mmod (\<lambda>s. s\<lparr>l_bridge_possible := False\<rparr>)) (\<lambda>_.
       mbind (sr (app_rq 0x3c (le32 (s_session_id ses)))) (\<lambda>rsp.
       case rsp of None \<Rightarrow> mret (-1)
       | Some r \<Rightarrow> if r_ccode r = 0x87 then mret (-1) else if r_ccode r > 0 then mret (-1) else mret 0))))"

section \<open>Opening and closing\<close>

definition ipmi_lan_activate_session :: "sendrecv \<Rightarrow> (lan, int) machine" where
  "ipmi_lan_activate_session sr =
     mbind (mget l_intf) (\<lambda>intf.
     mbind (if \<not> ipmi_oem_active intf ''supermicro'' then ipmi_lan_ping else mret 0) (\<lambda>_.
     mbind (if ipmi_oem_active intf ''intelwv2'' then ipmi_lan_thump_first else mret ()) (\<lambda>_.
     mbind (ipmi_get_auth_capabilities_cmd sr) (\<lambda>rc.
     mbind (if rc < 0 then ipmi_get_auth_capabilities_cmd sr else mret rc) (\<lambda>rc.
     if rc < 0 then mret (-1)
     else
       mbind (ipmi_get_session_challenge_cmd sr) (\<lambda>rc.
       if rc < 0 then mret (-1)
       else
         mbind (ipmi_activate_session_cmd sr) (\<lambda>rc.
         if rc < 0 then mret (-1)
         else
           mbind (mod_intf (\<lambda>i. i\<lparr>i_abort := False\<rparr>)) (\<lambda>_.
           mbind (ipmi_set_session_privlvl_cmd sr) (\<lambda>rc.
           if rc < 0 then mret (-1) else mret 0))))))))) "

definition ipmi_lan_close :: "sendrecv \<Rightarrow> (lan, unit) machine" where
  "ipmi_lan_close sr =
     mbind (mget (\<lambda>s. i_abort (l_intf s))) (\<lambda>aborted.
     mbind (if \<not> aborted then ipmi_close_session_cmd sr else mret 0) (\<lambda>_.
     mbind (on_queue ipmi_req_clear_entries) (\<lambda>_.
     mod_intf (\<lambda>i. i\<lparr>i_session := None, i_opened := False\<rparr>))))"

definition script_step :: "('s \<Rightarrow> 'a list) \<Rightarrow> ('a list \<Rightarrow> 's \<Rightarrow> 's) \<Rightarrow> 'a \<Rightarrow> ('s, 'a) machine" where
  "script_step get put d s = Inr (script_hd d (get s), put (tl (get s)) s)"

definition lan_defaults :: "ipmi_session \<Rightarrow> ipmi_session" where
  "lan_defaults x =
     (let x = (if s_port x = 0 then x\<lparr>s_port := 0x26f\<rparr> else x);
          x = (if s_privlvl x = 0 then x\<lparr>s_privlvl := 4\<rparr> else x);
          x = (if s_timeout x = 0 then x\<lparr>s_timeout := 2\<rparr> else x)
      in if s_retry x = 0 then x\<lparr>s_retry := 4\<rparr> else x)"

text \<open>
  \<open>ipmi_lan_open\<close> from the name lookup on, which is \<open>inet_pton\<close> or \<open>gethostbyname\<close>; the address itself is not
  modelled.
\<close>

definition open_socket :: "sendrecv \<Rightarrow> (lan, int) machine" where
  "open_socket sr =
     mbind (mod_intf (\<lambda>i. i\<lparr>i_abort := True\<rparr>)) (\<lambda>_.
     mbind (script_step l_lookups (\<lambda>xs s. s\<lparr>l_lookups := xs\<rparr>) True) (\<lambda>found.
     if \<not> found then mret (-1)
     else
       mbind (script_step l_sockets (\<lambda>xs s. s\<lparr>l_sockets := xs\<rparr>) 3) (\<lambda>fd.
       mbind (mod_intf (\<lambda>i. i\<lparr>i_fd := fd\<rparr>)) (\<lambda>_.
       if fd < 0 then mret (-1)
       else
         mbind (script_step l_connects (\<lambda>xs s. s\<lparr>l_connects := xs\<rparr>) True) (\<lambda>connected.
         if \<not> connected then mbind (ipmi_lan_close sr) (\<lambda>_. mret (-1))
         else
           mbind (mod_intf (\<lambda>i. i\<lparr>i_opened := True\<rparr>)) (\<lambda>_.
           mbind (ipmi_lan_activate_session sr) (\<lambda>rc.
           if rc < 0 then
             mbind (ipmi_lan_close sr) (\<lambda>_.
             mbind (mod_intf (\<lambda>i. i\<lparr>i_opened := False\<rparr>)) (\<lambda>_. mret (-1)))
           else mget (\<lambda>s. i_fd (l_intf s)))))))))"

text \<open>\<open>strlen\<close> of a host name that fills its 64 bytes without a NUL reads behind the array.\<close>

definition ipmi_lan_open :: "sendrecv \<Rightarrow> (lan, int) machine" where
  "ipmi_lan_open sr =
     mbind (mget (\<lambda>s. i_session (l_intf s))) (\<lambda>so.
     if so = None then mret (-1)
     else
       mbind (mod_session lan_defaults) (\<lambda>_.
       mbind get_session (\<lambda>ses.
       if 0 \<notin> set (s_hostname ses) then mfail OutOfBounds
       else if cstring (s_hostname ses) = [] then mret (-1)
       else open_socket sr)))"

definition ipmi_lan_setup :: "(lan, int) machine" where
  "ipmi_lan_setup =
     mbind (on_queue q_malloc) (\<lambda>ok.
     if \<not> ok then mbind (mod_intf (\<lambda>i. i\<lparr>i_session := None\<rparr>)) (\<lambda>_. mret (-1))
     else mbind (mod_intf (\<lambda>i. i\<lparr>i_session := Some zero_session\<rparr>)) (\<lambda>_. mret 0))"

definition ipmi_lan_send_cmd :: sendrecv where
  "ipmi_lan_send_cmd req =
     mbind (mget (\<lambda>s. i_opened (l_intf s))) (\<lambda>opened.
     if \<not> opened then
       mbind (ipmi_lan_open send_cmd_opened) (\<lambda>rc.
       if rc < 0 then mret None else send_cmd_opened req)
     else send_cmd_opened req)"

lemma send_cmd_opened_when_open:
  "i_opened (l_intf s) \<Longrightarrow> ipmi_lan_send_cmd req s = send_cmd_opened req s"
  by (simp add: ipmi_lan_send_cmd_def machine_simps)

end
