(* ===== verification/Lan_Behaviour.thy ===== *)
theory Lan_Behaviour
  imports Lan_Safety
begin

text \<open>
  What a transmission does, beyond being safe: how \<open>ipmi_lan_build_cmd\<close> records a request, that a
  matching answer is returned to the caller, and the cases the code handles badly.
\<close>

section \<open>Recording a request\<close>

lemma lan_frame_Some:
  assumes "lan_frame s t" and x: "i_session (l_intf s) = Some x"
  shows "\<exists>n. l_intf t = (l_intf s)\<lparr>i_session := Some (x\<lparr>s_in_seq := n\<rparr>)\<rparr> \<and> (s_in_seq x = 0 \<longleftrightarrow> n = 0)"
proof -
  from assms(1) obtain z where "l_intf t = (l_intf s)\<lparr>i_session := z\<rparr>"
    and z: "rel_option same_session (i_session (l_intf s)) z" by (rule lan_frameE)
  moreover from z x obtain y where "z = Some y" "same_session x y" by (auto simp: option_rel_Some1)
  moreover from this(2) obtain n where "y = x\<lparr>s_in_seq := n\<rparr>" "s_in_seq x = 0 \<longleftrightarrow> n = 0"
    by (rule same_sessionE)
  ultimately show ?thesis by blast
qed

lemma req_store_last:
  assumes q: "req_abs q (xs @ [(a, r, s, d)])" and f: "link_indep f"
  shows "\<exists>q'. store a f q = Inr ((), q') \<and> q_mallocs q' = q_mallocs q \<and>
    req_abs q' (xs @ [areq_upd f (a, r, s, d)])"
proof -
  have "map (\<lambda>x. if fst x = a then areq_upd f x else x) xs = xs"
    using req_abs_fst [OF q] by (intro map_idI) (auto simp: image_iff)
  with req_store_refines [OF q _ f, of a] show ?thesis by auto
qed

lemma on_queue_store_last:
  assumes "req_abs (l_queue s) (xs @ [(a, r, n, d)])" and "link_indep f"
  shows "\<exists>q. on_queue (store a f) s = Inr ((), s\<lparr>l_queue := q\<rparr>) \<and> q_mallocs q = q_mallocs (l_queue s) \<and>
    req_abs q (xs @ [areq_upd f (a, r, n, d)])"
  using req_store_last [OF assms] by (auto simp: on_queue_def)

text \<open>The sequence number of the next request, and what its entry holds of the request.\<close>

definition next_seq :: "lan \<Rightarrow> nat" where
  "next_seq s = (if l_curr_seq s \<ge> 64 then 0 else l_curr_seq s)"

definition entry_rq :: "bool \<Rightarrow> ipmi_rq \<Rightarrow> ipmi_rq" where
  "entry_rq bridge req = (if bridge then req\<lparr>rq_target_cmd := rq_cmd req, rq_cmd := 0x34\<rparr> else req)"

lemma build_cmd_spec:
  assumes x: "i_session (l_intf s) = Some x" and q: "req_abs (l_queue s) xs"
    and m: "q_mallocs (l_queue s) = []" and len: "length (rq_data req) < 2 ^ 16"
  defines "msg \<equiv> build_cmd_msg (l_md2 s) (l_intf s) x (l_bridge_possible s) (of_nat (next_seq s)) req"
  shows "\<exists>e q'. ipmi_lan_build_cmd req s = Inr (Some e, s\<lparr>l_queue := q', l_curr_seq := Suc (next_seq s),
      l_intf := (l_intf s)\<lparr>i_session := Some (x\<lparr>s_in_seq := next_in_seq (s_in_seq x)\<rparr>)\<rparr>\<rparr>) \<and>
    q_mallocs q' = [] \<and>
    req_abs q' (xs @ [(e, entry_rq (is_bridged (l_intf s) (l_bridge_possible s)) req, of_nat (next_seq s), msg)])"
proof -
  note [simp] = machine_simps areq_upd_def link_indep_def
  let ?b = "is_bridged (l_intf s) (l_bridge_possible s)"
  let ?seq = "of_nat (next_seq s) :: u8"
  define s1 where "s1 = s\<lparr>l_curr_seq := next_seq s\<rparr>"
  have s1: "(if 64 \<le> l_curr_seq s then s\<lparr>l_curr_seq := 0\<rparr> else s) = s1"
    by (simp add: s1_def next_seq_def)
  obtain q1 where add: "ipmi_req_add_entry req (l_queue s) = Inr (Some (q_fresh (l_queue s)), q1)"
    and q1: "q_mallocs q1 = []" "req_abs q1 (xs @ [new_areq (l_queue s) req])"
    using req_add_refines [OF q, of req] m by auto
  let ?e = "q_fresh (l_queue s)"
  obtain q2 where mal: "q_malloc q1 = Inr (True, q2)" and q2: "q_mallocs q2 = []"
      "req_abs q2 (xs @ [(?e, req, 0, [])])"
    using q_malloc_refines [OF q1(2)] q1(1) by (auto simp: new_areq_def)
  have fits: "\<not> build_cmd_alloc x req < length msg"
    using build_cmd_fits_buffer_aux [OF len] by (simp add: msg_def not_less)
  let ?f1 = "\<lambda>c. c\<lparr>e_req := (e_req c)\<lparr>rq_target_cmd := rq_cmd (e_req c), rq_cmd := 0x34\<rparr>\<rparr>"
  let ?m1 = "if ?b then on_queue (store ?e ?f1) else mret ()"
  obtain q3 where m1: "?m1 (s1\<lparr>l_queue := q2\<rparr>) = Inr ((), s1\<lparr>l_queue := q3\<rparr>)"
    and q3: "q_mallocs q3 = []" "req_abs q3 (xs @ [(?e, entry_rq ?b req, 0, [])])"
    using on_queue_store_last [of "s1\<lparr>l_queue := q2\<rparr>", OF _, of xs ?e req 0 "[]" ?f1] q2
    by (cases ?b) (auto simp: entry_rq_def)
  obtain q4 where m2: "on_queue (store ?e (\<lambda>c. c\<lparr>e_rq_seq := ?seq\<rparr>)) (s1\<lparr>l_queue := q3\<rparr>)
      = Inr ((), s1\<lparr>l_queue := q4\<rparr>)"
    and q4: "q_mallocs q4 = []" "req_abs q4 (xs @ [(?e, entry_rq ?b req, ?seq, [])])"
    using on_queue_store_last [of "s1\<lparr>l_queue := q3\<rparr>", OF _, of xs ?e _ 0 "[]" "\<lambda>c. c\<lparr>e_rq_seq := ?seq\<rparr>"] q3
    by auto
  let ?s5 = "s\<lparr>l_queue := q4, l_curr_seq := Suc (next_seq s),
      l_intf := (l_intf s)\<lparr>i_session := Some (x\<lparr>s_in_seq := next_in_seq (s_in_seq x)\<rparr>)\<rparr>\<rparr>"
  obtain q5 where m3: "on_queue (store ?e (\<lambda>c. c\<lparr>e_msg_data := msg\<rparr>)) ?s5 = Inr ((), ?s5\<lparr>l_queue := q5\<rparr>)"
    and q5: "q_mallocs q5 = []" "req_abs q5 (xs @ [(?e, entry_rq ?b req, ?seq, msg)])"
    using on_queue_store_last [of ?s5, OF _, of xs ?e _ ?seq "[]" "\<lambda>c. c\<lparr>e_msg_data := msg\<rparr>"] q4
    by auto
  have "ipmi_lan_build_cmd req s = Inr (Some ?e, ?s5\<lparr>l_queue := q5\<rparr>)"
    using add mal fits m1 m2 m3 x
    by (simp add: ipmi_lan_build_cmd_def s1 on_queue_def [of "ipmi_req_add_entry _"] on_queue_def [of q_malloc]
        get_session_def mod_session_def mod_intf_def s1_def flip: msg_def cong: if_cong)
  with q5 show ?thesis by (intro exI [of _ ?e] exI [of _ q5]) simp
qed

section \<open>An answer reaches the caller\<close>

text \<open>The response buffer once \<open>recv\<close> has delivered a packet and the code has put a NUL behind it.\<close>

definition delivered :: "bytes \<Rightarrow> ipmi_rs \<Rightarrow> ipmi_rs" where
  "delivered pkt old = received pkt (old\<lparr>r_data := (r_data old)[length pkt := 0]\<rparr>)"

lemma recv_packet_delivers:
  assumes "i_session (l_intf s) = Some x" and "l_selects s = (1, False, True) # ss"
    and "l_recvs s = Some pkt # rs" and "pkt \<noteq> []" and "length pkt < 1024"
  shows "ipmi_lan_recv_packet s = Inr (Some (delivered pkt (l_rsp s)),
      s\<lparr>l_selects := ss, l_recvs := rs, l_rsp := delivered pkt (l_rsp s)\<rparr>)"
proof -
  have "(memcpy_at (r_data (l_rsp s)) 0 pkt)[length pkt := 0]
      = memcpy_at ((r_data (l_rsp s))[length pkt := 0]) 0 pkt"
    by (simp add: memcpy_at_def list_update_append drop_update_swap)
  with assms show ?thesis
    by (simp add: ipmi_lan_recv_packet_def machine_simps get_session_def lan_select_def lan_recv_def
        recv_finish_def delivered_def received_def Let_def)
qed

lemma poll_recv_answer:
  assumes x: "i_session (l_intf s) = Some x" and sel: "l_selects s = (1, False, True) # ss"
    and rec: "l_recvs s = Some pkt # rs" and pkt: "length pkt < 1024" "3 < length pkt" "pkt ! 3 = 7"
    and q: "req_abs (l_queue s) xs" and nb: "\<not> is_bridged (l_intf s) (l_bridge_possible s)"
  defines "d \<equiv> delivered pkt (l_rsp s)"
  defines "p \<equiv> parse_headers x d"
  assumes found: "find (areq_matches (r_rq_seq p) (r_cmd p)) xs \<noteq> None"
  shows "\<exists>t. ipmi_lan_poll_recv s = Inr (Some (shift_data (hdr_off x (r_data d) + 8) p), t) \<and> l_sent t = l_sent s"
proof -
  note [simp] = machine_simps
  let ?s1 = "s\<lparr>l_selects := ss, l_recvs := rs, l_rsp := d\<rparr>"
  have "pkt \<noteq> []" using pkt(2) by auto
  from recv_packet_delivers [OF x sel rec this pkt(1)]
  have rp: "ipmi_lan_recv_packet s = Inr (Some d, ?s1)" by (simp add: d_def)
  have cls: "r_data d ! 3 = 7"
    using pkt by (simp add: d_def delivered_def received_def memcpy_at_def nth_append)
  obtain a y where f: "find (areq_matches (r_rq_seq p) (r_cmd p)) xs = Some (a, y)" using found by auto
  then have lk: "ipmi_req_lookup_entry (r_rq_seq p) (r_cmd p) (l_queue s) = Inr (Some a, l_queue s)"
    using lan_list.lookup_law [OF q] by simp
  obtain q' where rm: "ipmi_req_remove_entry (r_rq_seq p) (r_cmd p) (l_queue s) = Inr ((), q')"
    using lan_list.remove_law [OF q] by blast
  have "poll_loop (Suc (length (l_selects s))) (Some d) ?s1
      = Inr (Inr (Some p, hdr_off x (r_data d) + 8), ?s1\<lparr>l_rsp := p, l_queue := q'\<rparr>)"
    using cls x lk rm nb
    by (simp add: poll_step_def get_session_def Let_def on_queue_def is_bridged_def flip: p_def) auto
  with rp show ?thesis
    by (simp add: ipmi_lan_poll_recv_def del: poll_loop.simps)
qed

lemma hdr_off_cong:
  "s_active x = s_active y \<Longrightarrow> s_authtype x = s_authtype y \<Longrightarrow> hdr_off x d = hdr_off y d"
  by (simp add: hdr_off_def)

lemma parse_headers_cong:
  "s_active x = s_active y \<Longrightarrow> s_authtype x = s_authtype y \<Longrightarrow> parse_headers x r = parse_headers y r"
  by (simp add: parse_headers_def hdr_off_cong [of x y])

lemma rmcp_class: "build_rsp_msg md2 x rsp ! 3 = 7"
  by (simp add: build_rsp_msg_def rmcp_ipmi_def Let_def)

text \<open>
  A response of a BMC that shares the session's authentication type and activity, to the request
  that the next transmission will send.
\<close>

definition answers :: "lan \<Rightarrow> ipmi_rq \<Rightarrow> ipmi_session \<Rightarrow> ipmi_rs \<Rightarrow> nat \<Rightarrow> bool" where
  "answers s req bmc rsp n \<longleftrightarrow>
     (\<exists>x. i_session (l_intf s) = Some x \<and> s_active bmc = s_active x \<and> s_authtype bmc = s_authtype x) \<and>
     length (s_authcode bmc) = 21 \<and> r_msg_netfn rsp < 64 \<and> r_msg_cmd rsp = rq_cmd req \<and>
     r_msg_seq rsp = of_nat (next_seq s) \<and>
     r_data_len rsp = int n \<and> n \<le> length (r_data rsp) \<and> n < 986"

lemma of_nat_less_64: "n < 64 \<Longrightarrow> (of_nat n :: u8) < 64"
  by (simp add: word_less_nat_alt unat_of_nat)

lemma answer_delivered:
  assumes md2: "md2_ok md2" and ans: "answers s req bmc rsp n" and x: "i_session (l_intf s) = Some x"
    and old: "length (r_data old) = 1024"
  defines "d \<equiv> delivered (build_rsp_msg md2 bmc rsp) old"
  defines "r \<equiv> shift_data (hdr_off x (r_data d) + 8) (parse_headers x d)"
  shows "r_ccode r = r_ccode rsp \<and> r_data_len r = int n \<and> take n (r_data r) = take n (r_data rsp) \<and>
    r_rq_seq (parse_headers x d) = of_nat (next_seq s) \<and> r_cmd (parse_headers x d) = rq_cmd req"
proof -
  let ?m = "build_rsp_msg md2 bmc rsp"
  let ?old = "old\<lparr>r_data := (r_data old)[length ?m := 0]\<rparr>"
  from ans have a: "length (s_authcode bmc) = 21" "r_msg_netfn rsp < 64" "r_msg_cmd rsp = rq_cmd req"
      "r_msg_seq rsp = of_nat (next_seq s)" "r_data_len rsp = int n" "n \<le> length (r_data rsp)" "n < 986"
      "s_active bmc = s_active x" "s_authtype bmc = s_authtype x"
    using x by (auto simp: answers_def)
  have six: "r_msg_seq rsp < 64"
    using a(4) of_nat_less_64 [of "next_seq s"] by (simp add: next_seq_def split: if_splits)
  have fits: "length ?m \<le> length (r_data ?old)"
    using length_build_rsp_msg [OF md2 a(1,5,6)] a(7) old by simp
  note rt = response_taken_apart [OF md2 a(1,5,6) fits a(2) six]
  have "r_rq_seq (parse_headers bmc d) = r_rq_seq (shift_data k (parse_headers bmc d))"
       "r_cmd (parse_headers bmc d) = r_cmd (shift_data k (parse_headers bmc d))" for k
    by (simp_all add: shift_data_def Let_def)
  note seq = this [of "hdr_off bmc (r_data d) + 8"]
  have "shift_data (hdr_off bmc (r_data d) + 8) (parse_headers bmc d) = r"
    using a by (simp add: r_def hdr_off_cong [of x bmc] parse_headers_cong [of x bmc])
  note eq = rt [folded delivered_def, folded d_def, unfolded this] seq [unfolded this]
  have "parse_headers x d = parse_headers bmc d" using a by (intro parse_headers_cong) simp_all
  then show ?thesis by (simp add: eq a)
qed

lemma send_loop_answered:
  assumes ok: "lan_ok s" and m: "q_mallocs (l_queue s) = []" and len: "length (rq_data req) < 2 ^ 16"
    and snd: "script_hd True (l_sends s)" and na: "\<not> i_noanswer (l_intf s)"
    and nb: "\<not> is_bridged (l_intf s) (l_bridge_possible s)"
    and noem: "\<not> ipmi_oem_active (l_intf s) ''intelwv2''"
    and sel: "l_selects s = (1, False, True) # ss" and rec: "l_recvs s = Some (build_rsp_msg md2 bmc rsp) # rs"
    and md2: "md2_ok md2" and ans: "answers s req bmc rsp n"
    and x: "i_session (l_intf s) = Some x"
  shows "\<exists>r t. send_loop (Suc k) req k' s = Inr (Some r, t) \<and> r_ccode r = r_ccode rsp \<and>
    r_data_len r = int n \<and> take n (r_data r) = take n (r_data rsp) \<and>
    l_sent t = l_sent s @ [build_cmd_msg (l_md2 s) (l_intf s) x (l_bridge_possible s) (of_nat (next_seq s)) req]"
proof -
  note [simp] = machine_simps
  let ?m = "build_rsp_msg md2 bmc rsp"
  let ?msg = "build_cmd_msg (l_md2 s) (l_intf s) x (l_bridge_possible s) (of_nat (next_seq s)) req"
  from ok obtain xs where xs: "req_abs (l_queue s) xs" and old: "length (r_data (l_rsp s)) = 1024"
    and "env_ok s" by (rule lan_okE)
  then have up: "script_hd (l_send_up s) (l_sends s)" using snd by (simp add: env_ok_def)
  let ?y = "x\<lparr>s_in_seq := next_in_seq (s_in_seq x)\<rparr>"
  let ?i = "(l_intf s)\<lparr>i_session := Some ?y\<rparr>"
  obtain e q where bc: "ipmi_lan_build_cmd req s
      = Inr (Some e, s\<lparr>l_queue := q, l_curr_seq := Suc (next_seq s), l_intf := ?i\<rparr>)"
    and q: "req_abs q (xs @ [(e, entry_rq False req, of_nat (next_seq s), ?msg)])"
    using build_cmd_spec [OF x xs m len] nb by auto
  obtain c where de: "deref e q = Inr (c, q)" "e_msg_data c = ?msg"
    using req_deref_refines [OF q, of e "entry_rq False req" "of_nat (next_seq s)" ?msg] by auto
  let ?s2 = "s\<lparr>l_queue := q, l_curr_seq := Suc (next_seq s), l_intf := ?i, l_sends := tl (l_sends s),
      l_sent := l_sent s @ [?msg]\<rparr>"
  have lm: "length ?m < 1024" "3 < length ?m"
    using length_build_rsp_msg [OF md2, of bmc rsp n] ans by (auto simp: answers_def)
  let ?d = "delivered ?m (l_rsp s)"
  have ya: "i_session (l_intf (?s2)) = Some ?y" by simp
  have ans': "r_ccode r = r_ccode rsp \<and> r_data_len r = int n \<and> take n (r_data r) = take n (r_data rsp)
      \<and> r_rq_seq (parse_headers ?y ?d) = of_nat (next_seq s) \<and> r_cmd (parse_headers ?y ?d) = rq_cmd req"
    if "r = shift_data (hdr_off ?y (r_data ?d) + 8) (parse_headers ?y ?d)" for r
    using answer_delivered [OF md2 ans x old] that
    by (simp add: hdr_off_cong [of ?y x] parse_headers_cong [of ?y x])
  have "find (areq_matches (of_nat (next_seq s)) (rq_cmd req)) (xs @ [(e, entry_rq False req, of_nat (next_seq s), ?msg)]) \<noteq> None"
    by (auto simp: find_None_iff areq_matches_def entry_rq_def)
  then have fnd: "find (areq_matches (r_rq_seq (parse_headers ?y (delivered ?m (l_rsp ?s2))))
      (r_cmd (parse_headers ?y (delivered ?m (l_rsp ?s2)))))
      (xs @ [(e, entry_rq False req, of_nat (next_seq s), ?msg)]) \<noteq> None"
    using ans' [OF refl] by simp
  have nb2: "\<not> is_bridged (l_intf ?s2) (l_bridge_possible ?s2)"
    using nb by (simp add: is_bridged_def our_address_def)
  have dq: "on_queue (deref e) (s\<lparr>l_queue := q, l_curr_seq := Suc (next_seq s), l_intf := ?i\<rparr>)
      = Inr (c, s\<lparr>l_queue := q, l_curr_seq := Suc (next_seq s), l_intf := ?i\<rparr>)"
    using de(1) by (simp add: on_queue_def)
  have noem2: "\<not> ipmi_oem_active ?i ''intelwv2''"
    using noem by (simp add: ipmi_oem_active_def)
  have pre: "l_selects ?s2 = (1, False, True) # ss" "l_recvs ?s2 = Some ?m # rs"
      "req_abs (l_queue ?s2) (xs @ [(e, entry_rq False req, of_nat (next_seq s), ?msg)])"
    using sel rec q by simp_all
  from poll_recv_answer [OF ya pre(1,2) lm rmcp_class pre(3) nb2 fnd]
  have "\<exists>t. ipmi_lan_poll_recv ?s2 = Inr (Some (shift_data (hdr_off ?y (r_data ?d) + 8) (parse_headers ?y ?d)), t)
      \<and> l_sent t = l_sent s @ [?msg]" by simp
  then obtain t where pr: "ipmi_lan_poll_recv ?s2 = Inr (Some (shift_data (hdr_off ?y (r_data ?d) + 8) (parse_headers ?y ?d)), t)"
    and t: "l_sent t = l_sent s @ [?msg]" by blast
  have "send_loop (Suc k) req k' s = Inr (Some (shift_data (hdr_off ?y (r_data ?d) + 8) (parse_headers ?y ?d)), t)"
    using bc dq de(2) pr up na noem2
    by (simp add: ipmi_lan_send_packet_def Let_def)
  with ans' [OF refl] t show ?thesis by blast
qed

section \<open>A silent network, and sends that fail\<close>

lemma poll_recv_silent:
  assumes "i_session (l_intf s) = Some x" and "l_selects s = []"
  shows "ipmi_lan_poll_recv s = Inr (None, s)"
  using assms
  by (simp add: ipmi_lan_poll_recv_def ipmi_lan_recv_packet_def machine_simps get_session_def lan_select_def)

text \<open>The state after a request has been built and handed to \<open>send\<close>.\<close>

lemma build_and_deref:
  assumes ok: "lan_ok s" and m: "q_mallocs (l_queue s) = []" and len: "length (rq_data req) < 2 ^ 16"
  shows "\<exists>e c t. ipmi_lan_build_cmd req s = Inr (Some e, t) \<and> on_queue (deref e) t = Inr (c, t) \<and>
    lan_inv s t \<and> q_mallocs (l_queue t) = [] \<and> l_sends t = l_sends s \<and> l_selects t = l_selects s \<and> l_sent t = l_sent s"
proof -
  from ok obtain x xs where x: "i_session (l_intf s) = Some x" and xs: "req_abs (l_queue s) xs" by (rule lan_okE)
  from build_cmd_spec [OF x xs m len] obtain e q t where bc: "ipmi_lan_build_cmd req s = Inr (Some e, t)"
    and t: "t = s\<lparr>l_queue := q, l_curr_seq := Suc (next_seq s),
      l_intf := (l_intf s)\<lparr>i_session := Some (x\<lparr>s_in_seq := next_in_seq (s_in_seq x)\<rparr>)\<rparr>\<rparr>" "q_mallocs q = []"
    by blast
  from build_cmd_ok [OF lan_invI [OF ok] len] bc have "lan_inv s t" "has_entry t e" by auto
  with deref_ok [of t e] bc t show ?thesis by auto
qed

text \<open>While \<open>send\<close> fails, the loop goes round, whatever the fuel.\<close>

lemma send_loop_failing:
  assumes len: "length (rq_data req) < 2 ^ 16"
  shows "i_session (l_intf s) = Some x \<Longrightarrow> req_abs (l_queue s) xs \<Longrightarrow> q_mallocs (l_queue s) = [] \<Longrightarrow>
     l_sends s = [] \<Longrightarrow> \<not> l_send_up s \<Longrightarrow> send_loop n req j s = Inl NoReturn"
proof (induction n arbitrary: s x xs j)
  case 0
  then show ?case by (simp add: machine_simps)
next
  case (Suc n)
  let ?msg = "build_cmd_msg (l_md2 s) (l_intf s) x (l_bridge_possible s) (of_nat (next_seq s)) req"
  let ?rq = "entry_rq (is_bridged (l_intf s) (l_bridge_possible s)) req"
  from build_cmd_spec [OF Suc.prems(1-3) len] obtain e q where
    bc: "ipmi_lan_build_cmd req s = Inr (Some e, s\<lparr>l_queue := q, l_curr_seq := Suc (next_seq s),
        l_intf := (l_intf s)\<lparr>i_session := Some (x\<lparr>s_in_seq := next_in_seq (s_in_seq x)\<rparr>)\<rparr>\<rparr>)" (is "_ = Inr (_, ?t)")
    and q: "q_mallocs q = []" "req_abs q (xs @ [(e, ?rq, of_nat (next_seq s), ?msg)])" by blast
  obtain c where de: "on_queue (deref e) ?t = Inr (c, ?t)"
    using req_deref_refines [OF q(2), of e ?rq "of_nat (next_seq s)" ?msg] by (auto simp: on_queue_def)
  have "ipmi_lan_send_packet (e_msg_data c) ?t = Inr (False, ?t)"
    using Suc.prems(4,5) by (simp add: ipmi_lan_send_packet_def Let_def)
  moreover have "send_loop n req (j + 1) ?t = Inl NoReturn"
    using q Suc.prems(4,5) by (intro Suc.IH) simp_all
  ultimately show ?case using bc de by (simp add: machine_simps)
qed

text \<open>A packet of a class that is neither ASF nor IPMI is passed over, and the next one is waited for.\<close>

lemma poll_ignores:
  assumes x: "i_session (l_intf s) = Some x" and "length (r_data (l_rsp s)) = 1024"
    and "l_selects s = replicate (Suc n) (1, False, True)" and "l_recvs s = replicate (Suc n) (Some [6, 0, 0xff, 8])"
  shows "mbind ipmi_lan_recv_packet (poll_loop n) s = Inl NoReturn"
  using assms
proof (induction n arbitrary: s)
  case 0
  then show ?case
    using recv_packet_delivers [OF 0(1), of "[]" "[6, 0, 0xff, 8]" "[]"] by (simp add: machine_simps)
next
  case (Suc n)
  let ?d = "delivered [6, 0, 0xff, 8] (l_rsp s)"
  let ?t = "s\<lparr>l_selects := replicate (Suc n) (1, False, True), l_recvs := replicate (Suc n) (Some [6, 0, 0xff, 8]), l_rsp := ?d\<rparr>"
  have rp: "ipmi_lan_recv_packet s = Inr (Some ?d, ?t)"
    using recv_packet_delivers [OF Suc.prems(1), of "replicate (Suc n) (1, False, True)" "[6, 0, 0xff, 8]"] Suc.prems(3,4) by simp
  have d: "length (r_data ?d) = 1024" "r_data ?d ! 3 = 8"
    using Suc.prems(2) by (simp_all add: delivered_def received_def memcpy_at_def)
  have "mbind ipmi_lan_recv_packet (poll_loop n) ?t = Inl NoReturn"
    using Suc.prems(1) d(1) by (intro Suc.IH) simp_all
  moreover have "mbind ipmi_lan_recv_packet (poll_loop (Suc n)) s = poll_loop (Suc n) (Some ?d) ?t"
    using rp by (simp add: mbind_def del: poll_loop.simps)
  moreover have "poll_loop (Suc n) (Some ?d) ?t = mbind ipmi_lan_recv_packet (poll_loop n) ?t"
    using d(2) by (simp add: poll_step_def)
  ultimately show ?case by (simp only:)
qed

lemma send_loop_silent:
  assumes len: "length (rq_data req) < 2 ^ 16"
  shows "lan_ok s \<Longrightarrow> q_mallocs (l_queue s) = [] \<Longrightarrow> l_sends s = [] \<Longrightarrow> l_selects s = [] \<Longrightarrow>
    \<not> i_noanswer (l_intf s) \<Longrightarrow> \<not> ipmi_oem_active (l_intf s) ''intelwv2'' \<Longrightarrow>
    i_session (l_intf s) = Some x \<Longrightarrow> nat (max 1 (s_retry x - j)) \<le> n \<Longrightarrow>
    \<exists>t. send_loop n req j s = Inr (None, t) \<and>
      length (l_sent t) = length (l_sent s) + nat (max 1 (s_retry x - j))"
proof (induction n arbitrary: s x j)
  case 0
  then show ?case by simp
next
  case (Suc n)
  note [simp] = machine_simps
  from build_and_deref [OF Suc.prems(1,2) len] obtain e c t where
    t: "ipmi_lan_build_cmd req s = Inr (Some e, t)" "on_queue (deref e) t = Inr (c, t)" "lan_inv s t"
      "q_mallocs (l_queue t) = []" "l_sends t = []" "l_selects t = []" "l_sent t = l_sent s"
    using Suc.prems(3,4) by auto
  let ?u = "t\<lparr>l_sent := l_sent t @ [e_msg_data c]\<rparr>"
  have sp: "ipmi_lan_send_packet (e_msg_data c) t = Inr (True, ?u)"
    using t(3,5) by (simp add: ipmi_lan_send_packet_def Let_def lan_inv_def lan_ok_def env_ok_def)
  from t(3) have "lan_frame s t" by (simp add: lan_inv_def)
  then obtain z where i: "l_intf t = (l_intf s)\<lparr>i_session := Some (x\<lparr>s_in_seq := z\<rparr>)\<rparr>"
    using lan_frame_Some [OF _ Suc.prems(7)] by blast
  let ?y = "x\<lparr>s_in_seq := z\<rparr>"
  have y: "i_session (l_intf t) = Some ?y" "s_retry ?y = s_retry x" using i by simp_all
  have pr: "ipmi_lan_poll_recv ?u = Inr (None, ?u)"
    using poll_recv_silent [of ?u ?y] y t by simp
  have oem: "\<not> ipmi_oem_active (l_intf ?u) ''intelwv2''" "\<not> i_noanswer (l_intf ?u)"
    using Suc.prems(5,6) i by (simp_all add: ipmi_oem_active_def)
  have u: "lan_ok ?u" using t(3) by (auto simp: lan_inv_def lan_ok_def env_ok_def)
  have unf: "send_loop (Suc n) req j s =
      (if j + 1 \<ge> s_retry x then Inr (None, ?u) else send_loop n req (j + 1) ?u)"
    using t(1,2) sp pr oem y by (simp add: get_session_def)
  show ?case
  proof (cases "j + 1 \<ge> s_retry x")
    case True
    then show ?thesis using unf t(7) by simp
  next
    case False
    then have "nat (max 1 (s_retry ?y - (j + 1))) \<le> n" "nat (max 1 (s_retry x - j)) = Suc (nat (max 1 (s_retry ?y - (j + 1))))"
      using Suc.prems(8) y(2) by auto
    with Suc.IH [OF u, of ?y "j + 1"] t oem y(1) False unf show ?thesis by simp
  qed
qed

section \<open>Properties of a transmission\<close>

text \<open>An open interface without traffic, and the request \<open>Get Device ID\<close>.\<close>

definition blank_rsp :: ipmi_rs where
  "blank_rsp = \<lparr>r_ccode = 0, r_data = replicate 1024 0, r_data_len = 0, r_msg_netfn = 0, r_msg_cmd = 0,
     r_msg_seq = 0, r_msg_lun = 0, r_authtype = 0, r_seq = 0, r_id = 0, r_msglen = 0, r_rq_addr = 0,
     r_netfn = 0, r_rq_lun = 0, r_rs_addr = 0, r_rq_seq = 0, r_rs_lun = 0, r_cmd = 0\<rparr>"

definition open_lan :: lan where
  "open_lan = \<lparr>l_intf = \<lparr>i_fd = 3, i_opened = True, i_abort = False, i_noanswer = False,
       i_session = Some (zero_session\<lparr>s_retry := 4\<rparr>), i_oem = None, i_my_addr = 0x20, i_target_addr = 0x20,
       i_target_channel = 0\<rparr>,
     l_queue = empty_reqlist, l_curr_seq = 0, l_bridge_possible = False, l_rsp = blank_rsp, l_md2 = None,
     l_selects = [], l_recvs = [], l_sends = [], l_send_up = True, l_sent = [], l_randoms = [], l_lookups = [],
     l_sockets = [], l_connects = []\<rparr>"

definition get_device_id :: ipmi_rq where
  "get_device_id = \<lparr>rq_netfn = 6, rq_lun = 0, rq_cmd = 1, rq_target_cmd = 0, rq_data = []\<rparr>"

lemma open_lan_ok:
  "lan_ok (open_lan\<lparr>l_sends := a\<rparr>)"
  "length d < 1024 \<Longrightarrow> lan_ok (open_lan\<lparr>l_selects := [(1, False, True)], l_recvs := [Some d]\<rparr>)"
  using empty_reqlist_abs
  by (auto simp: lan_ok_def open_lan_def zero_session_def session_wf_def blank_rsp_def env_ok_def)

text \<open>
  C31. When sending a command on an open interface returns. From every state with the invariant \<open>lan_ok\<close>, which asks of the network that
  datagrams are shorter than the 1024 bytes of the response buffer, that finitely many of them arrive, and that \<open>send\<close> fails only finitely often, \<open>ipmi_lan_send_cmd\<close>
  returns, faults nowhere, keeps the invariant and leaves everything in the interface and the session as it was except the inbound sequence number, which does not
  become zero. The condition on \<open>send\<close> is needed: if \<open>send\<close> fails for ever while \<open>malloc\<close> succeeds, the loop does not end, however many turns it is given and whatever the limit of
  retries is.
\<close>

theorem send_cmd_safe_and_returns:
  assumes "lan_ok s" and "length (rq_data req) < 2 ^ 16"
  shows "(\<exists>r t. send_cmd_opened req s = Inr (r, t) \<and> lan_ok t \<and> lan_frame s t) \<and>
    (q_mallocs (l_queue s) = [] \<longrightarrow> (\<forall>n. send_loop n req 0 (s\<lparr>l_sends := [], l_send_up := False\<rparr>) = Inl NoReturn))"
proof -
  from assms(1) obtain x xs where x: "i_session (l_intf s) = Some x" "req_abs (l_queue s) xs" by (rule lan_okE)
  have "send_loop n req 0 (s\<lparr>l_sends := [], l_send_up := False\<rparr>) = Inl NoReturn" if "q_mallocs (l_queue s) = []" for n
    by (rule send_loop_failing [OF assms(2), where x = x and xs = xs]) (use x that in simp_all)
  with send_cmd_opened_ok [OF assms] show ?thesis by (auto simp: lan_inv_def)
qed

theorem send_cmd_safe_and_returns_witness:
  "(\<exists>r t. send_cmd_opened get_device_id (open_lan\<lparr>l_sends := [False, True]\<rparr>) = Inr (r, t) \<and> lan_ok t) \<and>
   (\<forall>n. send_loop n get_device_id 0 (open_lan\<lparr>l_sends := [], l_send_up := False\<rparr>) = Inl NoReturn)"
proof -
  have "q_mallocs (l_queue (open_lan\<lparr>l_sends := [False, True]\<rparr>)) = []" "length (rq_data get_device_id) < 2 ^ 16"
    by (simp_all add: open_lan_def empty_reqlist_def get_device_id_def)
  with send_cmd_safe_and_returns [OF open_lan_ok(1), of get_device_id "[False, True]"] show ?thesis by auto
qed

text \<open>
  C2. A response of the BMC that carries the sequence number and command of the request is returned to
  the caller with its completion code and data, after exactly one transmission. The request is not bridged, wants an answer, is sent at the first try with memory for it, and the OEM type
  \<open>intelwv2\<close>, for which further packets are sent, is not in use.
\<close>

theorem matching_answer_is_returned:
  assumes "lan_ok s" and "q_mallocs (l_queue s) = []" and "length (rq_data req) < 2 ^ 16"
    and "script_hd True (l_sends s)" and "\<not> i_noanswer (l_intf s)"
    and "\<not> is_bridged (l_intf s) (l_bridge_possible s)"
    and "\<not> ipmi_oem_active (l_intf s) ''intelwv2''"
    and "l_selects s = (1, False, True) # ss" and "l_recvs s = Some (build_rsp_msg md bmc rsp) # rs"
    and "md2_ok md" and "answers s req bmc rsp n" and "i_session (l_intf s) = Some x"
  shows "\<exists>r t. send_cmd_opened req s = Inr (Some r, t) \<and> r_ccode r = r_ccode rsp \<and>
    r_data_len r = int n \<and> take n (r_data r) = take n (r_data rsp) \<and>
    l_sent t = l_sent s @ [build_cmd_msg (l_md2 s) (l_intf s) x (l_bridge_possible s) (of_nat (next_seq s)) req]"
  using send_loop_answered [OF assms] assms(12)
  by (simp add: send_cmd_opened_def machine_simps get_session_def del: send_loop.simps)

definition demo_rsp :: ipmi_rs where
  "demo_rsp = blank_rsp\<lparr>r_ccode := 0, r_data := [0x20, 0x81, 2], r_data_len := 3, r_msg_netfn := 7,
     r_msg_cmd := 1, r_msg_seq := 0\<rparr>"

lemma demo_rsp_answers:
  "answers (open_lan\<lparr>l_selects := a, l_recvs := b\<rparr>) get_device_id zero_session demo_rsp 3"
  by (simp add: answers_def open_lan_def get_device_id_def demo_rsp_def blank_rsp_def next_seq_def zero_session_def)

theorem matching_answer_is_returned_witness:
  "\<exists>r t. send_cmd_opened get_device_id
       (open_lan\<lparr>l_selects := [(1, False, True)], l_recvs := [Some (build_rsp_msg None zero_session demo_rsp)]\<rparr>)
     = Inr (Some r, t) \<and> take 3 (r_data r) = [0x20, 0x81, 2]"
proof -
  let ?m = "build_rsp_msg None zero_session demo_rsp"
  let ?s = "open_lan\<lparr>l_selects := [(1, False, True)], l_recvs := [Some ?m]\<rparr>"
  have "length ?m < 1024"
    using length_build_rsp_msg [of None zero_session demo_rsp 3]
    by (simp add: md2_ok_def zero_session_def demo_rsp_def blank_rsp_def)
  from matching_answer_is_returned [OF open_lan_ok(2) [OF this], where ss = "[]" and rs = "[]" and n = 3
      and md = None and bmc = zero_session and rsp = demo_rsp and req = get_device_id
      and x = "zero_session\<lparr>s_retry := 4\<rparr>"]
  show ?thesis
    using demo_rsp_answers [of "[Some ?m]" "[(1, False, True)]"]
    by (simp add: open_lan_def empty_reqlist_def get_device_id_def md2_ok_def is_bridged_def our_address_def
        ipmi_oem_active_def demo_rsp_def) blast
qed

text \<open>
  C13. A response that \<open>ipmi_lan_build_rsp\<close> builds, received while a request with its sequence number and command is outstanding and bridging is not in use, is returned by
  \<open>ipmi_lan_poll_recv\<close> with every field that the packet carries: completion code, data and their length, authentication type, session sequence number and id, message
  length (in the eight bits that it has in the packet), network function, sequence number, command, the LUN of the responder, and the addresses
  and the LUN 0 of the requester that the builder puts in. This holds for all authentication types and for every older contents of the response buffer, and
  nothing is sent on the way.
\<close>

theorem response_round_trip:
  assumes "md2_ok md" "length (s_authcode bmc) = 21" "r_data_len rsp = int n" "n \<le> length (r_data rsp)" "n < 986"
    and "r_msg_netfn rsp < 64" "r_msg_seq rsp < 64" "length (r_data (l_rsp s)) = 1024"
    and "i_session (l_intf s) = Some x" "s_active bmc = s_active x" "s_authtype bmc = s_authtype x"
    and "\<not> is_bridged (l_intf s) (l_bridge_possible s)"
    and "req_abs (l_queue s) xs" "find (areq_matches (r_msg_seq rsp) (r_msg_cmd rsp)) xs \<noteq> None"
    and "l_selects s = (1, False, True) # ss" "l_recvs s = Some (build_rsp_msg md bmc rsp) # rs"
  shows "\<exists>t. ipmi_lan_poll_recv s = Inr (Some ((l_rsp s)\<lparr>r_ccode := r_ccode rsp,
      r_data := take n (r_data rsp) @ replicate (1024 - n) 0, r_data_len := int n,
      r_authtype := (if s_active bmc then s_authtype bmc else 0), r_seq := s_in_seq bmc, r_id := s_session_id bmc,
      r_msglen := ucast (of_nat n + 8 :: u8), r_rq_addr := 0x81, r_netfn := r_msg_netfn rsp, r_rq_lun := 0, r_rs_addr := 0x20,
      r_rq_seq := r_msg_seq rsp, r_rs_lun := r_msg_lun rsp AND 3, r_cmd := r_msg_cmd rsp\<rparr>), t) \<and> l_sent t = l_sent s"
proof -
  let ?m = "build_rsp_msg md bmc rsp" and ?d = "delivered (build_rsp_msg md bmc rsp) (l_rsp s)"
  let ?old = "(l_rsp s)\<lparr>r_data := (r_data (l_rsp s))[length ?m := 0]\<rparr>"
  have lm: "length ?m < 1024" "3 < length ?m" using length_build_rsp_msg [OF assms(1-4)] assms(5) by auto
  then have fits: "length ?m \<le> length (r_data ?old)" using assms(8) by simp
  have ph: "parse_headers x ?d = parse_headers bmc ?d" using assms(10,11) by (intro parse_headers_cong) simp_all
  have off: "hdr_off x (r_data ?d) = hdr_off bmc (r_data ?d)" using assms(10,11) by (intro hdr_off_cong) simp_all
  note ta = response_taken_apart [OF assms(1-4) fits assms(6,7), folded delivered_def]
  have "r_rq_seq (parse_headers x ?d) = r_rq_seq (shift_data k (parse_headers bmc ?d))"
    "r_cmd (parse_headers x ?d) = r_cmd (shift_data k (parse_headers bmc ?d))" for k
    by (simp_all add: shift_data_def Let_def ph)
  note sc = this [of "hdr_off bmc (r_data ?d) + 8", unfolded ta]
  have f: "find (areq_matches (r_rq_seq (parse_headers x ?d)) (r_cmd (parse_headers x ?d))) xs \<noteq> None"
    using assms(14) by (simp add: sc)
  from poll_recv_answer [OF assms(9,15,16) lm rmcp_class assms(13,12) f] show ?thesis
    unfolding ph off ta by simp
qed

theorem response_round_trip_witness:
  "\<exists>r t. ipmi_lan_poll_recv (open_lan\<lparr>l_queue := two_requests, l_selects := [(1, False, True)],
       l_recvs := [Some (build_rsp_msg None zero_session (demo_rsp\<lparr>r_ccode := 0xc1, r_msg_seq := 5, r_msg_lun := 2\<rparr>))]\<rparr>) = Inr (Some r, t)
     \<and> r_ccode r = 0xc1 \<and> r_rq_seq r = 5 \<and> r_rs_lun r = 2 \<and> take 3 (r_data r) = [0x20, 0x81, 2]"
proof -
  let ?rsp = "demo_rsp\<lparr>r_ccode := 0xc1, r_msg_seq := 5, r_msg_lun := 2\<rparr>"
  let ?s = "open_lan\<lparr>l_queue := two_requests, l_selects := [(1, False, True)], l_recvs := [Some (build_rsp_msg None zero_session ?rsp)]\<rparr>"
  have q: "req_abs (l_queue ?s) [(0, \<lparr>rq_netfn = 6, rq_lun = 0, rq_cmd = 1, rq_target_cmd = 0, rq_data = []\<rparr>, 5, []),
      (1, \<lparr>rq_netfn = 6, rq_lun = 0, rq_cmd = 1, rq_target_cmd = 0, rq_data = []\<rparr>, 6, [])]" using two_requests_abs by simp
  have x: "i_session (l_intf ?s) = Some (zero_session\<lparr>s_retry := 4\<rparr>)" by (simp add: open_lan_def)
  have "\<exists>t. ipmi_lan_poll_recv ?s = Inr (Some ((l_rsp ?s)\<lparr>r_ccode := r_ccode ?rsp,
      r_data := take 3 (r_data ?rsp) @ replicate (1024 - 3) 0, r_data_len := int 3,
      r_authtype := (if s_active zero_session then s_authtype zero_session else 0), r_seq := s_in_seq zero_session, r_id := s_session_id zero_session,
      r_msglen := ucast (of_nat 3 + 8 :: u8), r_rq_addr := 0x81, r_netfn := r_msg_netfn ?rsp, r_rq_lun := 0, r_rs_addr := 0x20,
      r_rq_seq := r_msg_seq ?rsp, r_rs_lun := r_msg_lun ?rsp AND 3, r_cmd := r_msg_cmd ?rsp\<rparr>), t) \<and> l_sent t = l_sent ?s"
    by (rule response_round_trip [where ss = "[]" and rs = "[]" and md = None, OF _ _ _ _ _ _ _ _ x _ _ _ q])
       (simp_all add: md2_ok_def zero_session_def demo_rsp_def blank_rsp_def open_lan_def is_bridged_def our_address_def areq_matches_def)
  then show ?thesis by (auto simp: demo_rsp_def)
qed

text \<open>
  C32. On a silent network, where packets are sent but none arrives and \<open>malloc\<close> succeeds, the command is transmitted \<open>retry\<close> times (once if \<open>retry\<close> is not positive), and then
  sending returns and reports that there is no response. Commands that want no answer and the OEM type
  \<open>intelwv2\<close>, for which further packets are sent before each command, are left out.
\<close>

theorem silent_network_is_retried:
  assumes "lan_ok s" and "q_mallocs (l_queue s) = []" and "l_sends s = []" and "l_selects s = []"
    and "\<not> i_noanswer (l_intf s)" and "\<not> ipmi_oem_active (l_intf s) ''intelwv2''"
    and "i_session (l_intf s) = Some x" and "length (rq_data req) < 2 ^ 16"
  shows "\<exists>t. send_cmd_opened req s = Inr (None, t) \<and>
    length (l_sent t) = length (l_sent s) + nat (max 1 (s_retry x))"
  using send_loop_silent [OF assms(8) assms(1-7), of 0 "Suc (nat (s_retry x))"] assms(2,3,7)
  by (simp add: send_cmd_opened_def machine_simps get_session_def del: send_loop.simps)

theorem silent_network_is_retried_witness:
  "\<exists>t. send_cmd_opened get_device_id (open_lan\<lparr>l_sends := []\<rparr>) = Inr (None, t) \<and> length (l_sent t) = 4"
  using silent_network_is_retried [OF open_lan_ok(1), of "[]" "zero_session\<lparr>s_retry := 4\<rparr>" get_device_id]
  by (simp add: open_lan_def empty_reqlist_def get_device_id_def ipmi_oem_active_def)

text \<open>
  Nor is there a limit to the packets that are passed over while an answer is awaited: as long as packets of another
  class arrive, each within the time-out, the loop of \<open>ipmi_lan_poll_recv\<close> goes round.
\<close>

theorem ignored_packets_keep_polling:
  assumes "i_session (l_intf s) = Some x" and "length (r_data (l_rsp s)) = 1024"
    and "l_selects s = replicate (Suc n) (1, False, True)" and "l_recvs s = replicate (Suc n) (Some [6, 0, 0xff, 8])"
  shows "mbind ipmi_lan_recv_packet (poll_loop n) s = Inl NoReturn"
  using assms by (rule poll_ignores)

theorem ignored_packets_keep_polling_witness:
  "mbind ipmi_lan_recv_packet (poll_loop 2)
     (open_lan\<lparr>l_selects := replicate 3 (1, False, True), l_recvs := replicate 3 (Some [6, 0, 0xff, 8])\<rparr>) = Inl NoReturn"
  by (rule ignored_packets_keep_polling [where x = "zero_session\<lparr>s_retry := 4\<rparr>"])
     (simp_all add: open_lan_def blank_rsp_def numeral_eq_Suc)

text \<open>
  A datagram of 1024 bytes or more makes \<open>ipmi_lan_recv_packet\<close> write its terminating NUL one byte
  behind the response buffer.
\<close>

theorem full_datagram_overflows_buffer:
  assumes "i_session (l_intf s) = Some x" and "l_selects s = (1, False, True) # ss"
    and "l_recvs s = Some d # rs" and "1024 \<le> length d"
  shows "ipmi_lan_recv_packet s = Inl BufferOverflow"
  using assms
  by (simp add: ipmi_lan_recv_packet_def machine_simps get_session_def lan_select_def lan_recv_def
        recv_finish_def Let_def)

theorem full_datagram_overflows_buffer_witness:
  "ipmi_lan_recv_packet (open_lan\<lparr>l_selects := [(1, False, True)], l_recvs := [Some (replicate 1024 7)]\<rparr>)
     = Inl BufferOverflow"
  using full_datagram_overflows_buffer
    [of "open_lan\<lparr>l_selects := [(1, False, True)], l_recvs := [Some (replicate 1024 7)]\<rparr>"]
  by (simp add: open_lan_def)

text \<open>
  After a \<open>recv\<close> that fails (the case its comment describes), a second \<open>select\<close> that finds the
  next datagram ready makes the code skip the second \<open>recv\<close>: the count of \<open>select\<close> becomes the
  length of a response whose bytes are those of the previous packet.
\<close>

theorem failed_recv_reports_stale_packet:
  assumes "i_session (l_intf s) = Some x" and "l_selects s = (1, False, True) # (1, False, True) # ss"
    and "l_recvs s = None # rs"
  shows "ipmi_lan_recv_packet s =
    (let r = (l_rsp s)\<lparr>r_data := (r_data (l_rsp s))[1 := 0], r_data_len := 1\<rparr>
     in Inr (Some r, s\<lparr>l_selects := ss, l_recvs := rs, l_rsp := r\<rparr>))"
  using assms
  by (simp add: ipmi_lan_recv_packet_def machine_simps get_session_def lan_select_def lan_recv_def
        recv_finish_def Let_def)

theorem failed_recv_reports_stale_packet_witness:
  "\<exists>r t. ipmi_lan_recv_packet (open_lan\<lparr>l_selects := [(1, False, True), (1, False, True)],
        l_recvs := [None, Some [6, 0, 255, 7]]\<rparr>) = Inr (Some r, t) \<and> r_data_len r = 1 \<and>
     l_recvs t = [Some [6, 0, 255, 7]]"
  using failed_recv_reports_stale_packet
    [of "open_lan\<lparr>l_selects := [(1, False, True), (1, False, True)], l_recvs := [None, Some [6, 0, 255, 7]]\<rparr>"]
  by (simp add: open_lan_def Let_def)

end
