(* ===== verification/Lan_Lifecycle.thy ===== *)
theory Lan_Lifecycle
  imports Lan_Session Lan_Behaviour
begin

text \<open>
  The life of a LAN session: what opening and closing guarantee, and that no sequence of operations of
  the interface faults on a network that \<open>env_ok\<close> admits. The session commands reach the network through \<open>intf->sendrecv\<close>; what they
  rely on there is the locale \<open>lan_transport\<close>, interpreted by the sending loop of the interface.
\<close>

section \<open>Steps outside the network\<close>

text \<open>A usable interface with its descriptor \<open>fd\<close>, marked open or not.\<close>

definition lan_at :: "bool \<Rightarrow> int \<Rightarrow> lan \<Rightarrow> bool" where
  "lan_at u fd s \<longleftrightarrow> lan_ok s \<and> i_opened (l_intf s) = u \<and> i_fd (l_intf s) = fd"

definition session_of :: "lan \<Rightarrow> ipmi_session" where
  "session_of s = the (i_session (l_intf s))"

text \<open>An activated session: packets carry a running sequence number.\<close>

definition live :: "lan \<Rightarrow> bool" where
  "live s \<longleftrightarrow> s_active (session_of s) \<and> s_in_seq (session_of s) \<noteq> 0"

text \<open>
  Between the operations: a session may be missing, but then the interface is not open; and before it is opened the host
  name of the session ends with a NUL.
\<close>

definition lan_safe :: "lan \<Rightarrow> bool" where
  "lan_safe s \<longleftrightarrow> (case i_session (l_intf s) of None \<Rightarrow> \<not> i_opened (l_intf s)
       | Some x \<Rightarrow> session_wf x \<and> (\<not> i_opened (l_intf s) \<longrightarrow> last (s_hostname x) = 0)) \<and>
     (\<exists>xs. req_abs (l_queue s) xs) \<and> l_curr_seq s \<le> 64 \<and>
     length (r_data (l_rsp s)) = IPMI_BUF_SIZE \<and> env_ok s"

definition closed :: "lan \<Rightarrow> bool" where
  "closed s \<longleftrightarrow> lan_safe s \<and> i_session (l_intf s) = None \<and> \<not> i_opened (l_intf s) \<and> req_abs (l_queue s) []"

definition established :: "lan \<Rightarrow> bool" where
  "established s \<longleftrightarrow> lan_ok s \<and> i_opened (l_intf s) \<and> live s \<and> \<not> i_abort (l_intf s) \<and> l_bridge_possible s"

lemma lan_ok_safe: "lan_ok s \<Longrightarrow> i_opened (l_intf s) \<or> last (s_hostname (session_of s)) = 0 \<Longrightarrow> lan_safe s"
  by (auto simp: lan_ok_def lan_safe_def session_of_def split: option.splits)

lemma lan_safe_Some:
  "i_session (l_intf s) = Some x \<Longrightarrow> lan_safe s \<Longrightarrow> lan_ok s \<and> (i_opened (l_intf s) \<or> last (s_hostname (session_of s)) = 0)"
  by (auto simp: lan_ok_def lan_safe_def session_of_def)

lemma lan_at_frame: "lan_at u fd s \<Longrightarrow> lan_inv s t \<Longrightarrow> lan_at u fd t"
  by (auto simp: lan_at_def lan_inv_def elim!: lan_frameE)

lemma live_frame:
  assumes "lan_ok s" and "lan_inv s t" and "live s"
  shows "live t"
proof -
  from assms(1) obtain x where x: "i_session (l_intf s) = Some x" by (rule lan_okE)
  from assms(2) have "lan_frame s t" by (simp add: lan_inv_def)
  from lan_frame_Some [OF this x] assms(3) x show ?thesis by (auto simp: live_def session_of_def)
qed

lemma get_session_spec:
  "(\<And>s. P s \<Longrightarrow> lan_ok s) \<Longrightarrow> mspec P get_session (\<lambda>x s. P s \<and> x = session_of s)"
proof (rule mspecI)
  fix s
  assume ok: "\<And>s. P s \<Longrightarrow> lan_ok s" and s: "P s"
  from ok [OF s] obtain x where "i_session (l_intf s) = Some x" by (rule lan_okE)
  with s show "\<exists>x t. get_session s = Inr (x, t) \<and> P t \<and> x = session_of t"
    by (simp add: get_session_def session_of_def)
qed

lemma mod_session_spec:
  assumes ok: "\<And>s. P s \<Longrightarrow> lan_ok s"
    and post: "\<And>s. P s \<Longrightarrow> Q (s\<lparr>l_intf := (l_intf s)\<lparr>i_session := Some (f (session_of s))\<rparr>\<rparr>)"
  shows "mspec P (mod_session f) (\<lambda>_. Q)"
  unfolding mod_session_def mod_intf_def
  by (rule mspec_mbind [OF get_session_spec [OF ok]]) (auto intro!: mspec_mmod post)

lemma lan_at_session:
  "lan_at u fd s \<Longrightarrow> session_wf y \<Longrightarrow> lan_at u fd (s\<lparr>l_intf := (l_intf s)\<lparr>i_session := Some y\<rparr>\<rparr>)"
  by (auto simp: lan_at_def lan_ok_def env_ok_def)

lemma lan_at_wf: "lan_at u fd s \<Longrightarrow> session_wf (session_of s)"
  by (auto simp: lan_at_def lan_ok_def session_of_def split: option.splits)

lemma lan_at_ok: "lan_at u fd s \<Longrightarrow> lan_ok s"
  by (simp add: lan_at_def)

lemma ping_ok:
  assumes "lan_inv s0 s"
  shows "\<exists>r t. ipmi_lan_ping s = Inr (r, t) \<and> lan_inv s0 t"
proof -
  obtain ok q where m: "on_queue q_malloc s = Inr (ok, s\<lparr>l_queue := q\<rparr>)" and q: "lan_inv s0 (s\<lparr>l_queue := q\<rparr>)"
    using malloc_ok [OF assms] by blast
  obtain ok' t where sp: "ipmi_lan_send_packet rmcp_asf_ping (s\<lparr>l_queue := q\<rparr>) = Inr (ok', t)" and t: "lan_inv s0 t"
    using send_packet_ok [OF q] by blast
  obtain r u where "ipmi_lan_poll_recv t = Inr (r, u)" "lan_inv s0 u" using poll_recv_ok [OF t] by blast
  with m q sp t show ?thesis by (auto simp: ipmi_lan_ping_def machine_simps)
qed

lemma mkeeps_inv:
  assumes "\<And>s. lan_ok s \<Longrightarrow> \<exists>r t. m s = Inr (r, t) \<and> lan_inv s t"
  shows "mkeeps (lan_at u fd) m"
proof (rule mkeepsI)
  fix s
  assume s: "lan_at u fd s"
  with assms [OF lan_at_ok [OF s]] lan_at_frame [OF s]
  show "\<exists>a t. m s = Inr (a, t) \<and> lan_at u fd t" by blast
qed

lemma mkeeps_get_session [keeps_intros]: "mkeeps (lan_at u fd) get_session"
  using get_session_spec [of "lan_at u fd"] by (fastforce simp: mspec_def mkeeps_def lan_at_ok)

lemma mkeeps_mod_session [keeps_intros]:
  "(\<And>x. session_wf x \<Longrightarrow> session_wf (f x)) \<Longrightarrow> mkeeps (lan_at u fd) (mod_session f)"
  using mod_session_spec [of "lan_at u fd" "lan_at u fd" f]
  by (auto simp: mspec_def mkeeps_def intro: lan_at_ok lan_at_session lan_at_wf)

lemma mod_session_live:
  assumes "\<And>x. session_wf x \<Longrightarrow> session_wf (g x)" and "\<And>x. P x \<Longrightarrow> s_active (g x) \<and> s_in_seq (g x) \<noteq> 0"
  shows "mspec (\<lambda>s. lan_at u fd s \<and> P (session_of s)) (mod_session g) (\<lambda>_ s. lan_at u fd s \<and> live s)"
proof (rule mod_session_spec)
  fix s
  assume s: "lan_at u fd s \<and> P (session_of s)"
  then show "lan_ok s" by (auto dest: lan_at_ok)
  from s assms show "lan_at u fd (s\<lparr>l_intf := (l_intf s)\<lparr>i_session := Some (g (session_of s))\<rparr>\<rparr>) \<and>
      live (s\<lparr>l_intf := (l_intf s)\<lparr>i_session := Some (g (session_of s))\<rparr>\<rparr>)"
    using lan_at_session [of u fd s] lan_at_wf [of u fd s] by (simp add: live_def session_of_def)
qed

lemma mkeeps_mod_abort [keeps_intros]: "mkeeps (lan_at u fd) (mod_intf (\<lambda>i. i\<lparr>i_abort := b\<rparr>))"
  unfolding mod_intf_def by (rule mkeeps_mmod) (auto simp: lan_at_def lan_ok_def env_ok_def)

lemma mkeeps_bridge [keeps_intros]: "mkeeps (lan_at u fd) (mmod (\<lambda>s. s\<lparr>l_bridge_possible := b\<rparr>))"
  by (rule mkeeps_mmod) (auto simp: lan_at_def lan_ok_def env_ok_def)

lemma mkeeps_target [keeps_intros]: "mkeeps (lan_at u fd) (mod_intf (\<lambda>i. i\<lparr>i_target_addr := a\<rparr>))"
  unfolding mod_intf_def by (rule mkeeps_mmod) (auto simp: lan_at_def lan_ok_def env_ok_def)

lemma mkeeps_random [keeps_intros]: "mkeeps (lan_at u fd) get_random4"
  by (rule mkeepsI) (auto simp: get_random4_def lan_at_def lan_ok_def env_ok_def)

lemma mkeeps_script [keeps_intros]:
  "mkeeps (lan_at u fd) (script_step l_lookups (\<lambda>xs s. s\<lparr>l_lookups := xs\<rparr>) d)"
  "mkeeps (lan_at u fd) (script_step l_sockets (\<lambda>xs s. s\<lparr>l_sockets := xs\<rparr>) e)"
  "mkeeps (lan_at u fd) (script_step l_connects (\<lambda>xs s. s\<lparr>l_connects := xs\<rparr>) d)"
  by (auto simp: mkeeps_def script_step_def lan_at_def lan_ok_def env_ok_def)

lemma set_fd: "mspec (lan_at u fd) (mod_intf (\<lambda>i. i\<lparr>i_fd := n\<rparr>)) (\<lambda>_. lan_at u n)"
  and set_opened: "mspec (lan_at u fd) (mod_intf (\<lambda>i. i\<lparr>i_opened := v\<rparr>)) (\<lambda>_. lan_at v fd)"
  unfolding mod_intf_def by (rule mspec_mmod, auto simp: lan_at_def lan_ok_def env_ok_def)+

lemma lan_defaults_wf: "session_wf x \<Longrightarrow> session_wf (lan_defaults x)"
  by (simp add: lan_defaults_def session_wf_def Let_def)

text \<open>An interface on its way to being opened, whose host name is a C string.\<close>

definition lan_named :: "int \<Rightarrow> lan \<Rightarrow> bool" where
  "lan_named fd s \<longleftrightarrow> lan_at False fd s \<and> last (s_hostname (session_of s)) = 0"

lemma lan_named_ok: "lan_named fd s \<Longrightarrow> lan_ok s"
  by (simp add: lan_named_def lan_at_def)

lemma lan_named_nul: "lan_named fd s \<Longrightarrow> 0 \<in> set (s_hostname (session_of s))"
  using lan_at_wf [of False fd s] last_in_set [of "s_hostname (session_of s)"] by (force simp: lan_named_def session_wf_def)

lemma named_defaults: "mspec (lan_named fd) (mod_session lan_defaults) (\<lambda>_. lan_named fd)"
proof (rule mod_session_spec [OF lan_named_ok])
  fix s assume s: "lan_named fd s"
  have "s_hostname (lan_defaults x) = s_hostname x" for x by (simp add: lan_defaults_def Let_def)
  with s show "lan_named fd (s\<lparr>l_intf := (l_intf s)\<lparr>i_session := Some (lan_defaults (session_of s))\<rparr>\<rparr>)"
    using lan_at_session [of False fd s "lan_defaults (session_of s)"] lan_defaults_wf [OF lan_at_wf [of False fd s]]
    by (simp add: lan_named_def session_of_def)
qed

lemma named_keeps:
  "mspec (lan_named fd) (mod_intf (\<lambda>i. i\<lparr>i_abort := b\<rparr>)) (\<lambda>_. lan_named fd)"
  "mspec (lan_named fd) (mod_intf (\<lambda>i. i\<lparr>i_fd := n\<rparr>)) (\<lambda>_. lan_named n)"
  "mspec (lan_named fd) (script_step l_lookups (\<lambda>xs s. s\<lparr>l_lookups := xs\<rparr>) d) (\<lambda>_. lan_named fd)"
  "mspec (lan_named fd) (script_step l_sockets (\<lambda>xs s. s\<lparr>l_sockets := xs\<rparr>) e) (\<lambda>_. lan_named fd)"
  by (auto simp: mspec_def mod_intf_def mmod_def script_step_def lan_named_def lan_at_def lan_ok_def env_ok_def session_of_def)

lemma random_spec: "mspec (lan_at u fd) get_random4 (\<lambda>b s. lan_at u fd s \<and> length b = 4)"
  by (rule mspecI) (auto simp: get_random4_def lan_at_def lan_ok_def env_ok_def)

lemma mspec_conj_pure: "(b \<Longrightarrow> mspec P m Q) \<Longrightarrow> mspec (\<lambda>s. P s \<and> b) m Q"
  by (auto simp: mspec_def)

lemma mspec_option:
  "(z = None \<Longrightarrow> mspec P m Q) \<Longrightarrow> (\<And>x. z = Some x \<Longrightarrow> mspec P (f x) Q) \<Longrightarrow>
     mspec P (case z of None \<Rightarrow> m | Some x \<Rightarrow> f x) Q"
  by (cases z) auto

lemma mspec_conseq_post: "mspec P m Q \<Longrightarrow> (\<And>a s. Q a s \<Longrightarrow> Q' a s) \<Longrightarrow> mspec P m Q'"
  by (rule mspec_weaken)

section \<open>The contract with the network\<close>

text \<open>
  What a session command needs of \<open>intf->sendrecv\<close>: it returns without a fault, keeps the invariant,
  and changes nothing of the interface and the session but the running sequence number.
\<close>

locale lan_transport =
  fixes sr :: sendrecv
  assumes sr_ok: "lan_ok s \<Longrightarrow> length (rq_data req) < 2 ^ 16 \<Longrightarrow> \<exists>r t. sr req s = Inr (r, t) \<and> lan_inv s t"
begin

lemma mkeeps_sr: "length (rq_data req) < 2 ^ 16 \<Longrightarrow> mkeeps (lan_at u fd) (sr req)"
  by (rule mkeeps_inv) (rule sr_ok)

lemma sr_keeps:
  assumes "length (rq_data req) < 2 ^ 16" and "\<And>s t. P s \<Longrightarrow> lan_inv s t \<Longrightarrow> P t" and "\<And>s. P s \<Longrightarrow> lan_ok s"
  shows "mspec P (sr req) (\<lambda>_. P)"
proof (rule mspecI)
  fix s
  assume s: "P s"
  with sr_ok [OF assms(3) [OF s] assms(1)] assms(2) [OF s]
  show "\<exists>a t. sr req s = Inr (a, t) \<and> P t" by blast
qed

lemma auth_capabilities_keeps: "mkeeps (lan_at u fd) (ipmi_get_auth_capabilities_cmd sr)"
  unfolding ipmi_get_auth_capabilities_cmd_def
  by (intro keeps_intros mkeeps_sr) (simp_all add: app_rq_def session_wf_def)

lemma session_challenge_keeps: "mkeeps (lan_at u fd) (ipmi_get_session_challenge_cmd sr)"
  unfolding ipmi_get_session_challenge_cmd_def
  by (intro keeps_intros mkeeps_sr) (simp_all add: app_rq_def session_wf_def)

text \<open>After the activation: open, active, and then also with a running sequence number.\<close>

lemma activate_session_cmd_spec:
  "mspec (lan_at u fd) (ipmi_activate_session_cmd sr)
     (\<lambda>rc s. lan_at u fd s \<and> (0 \<le> rc \<longrightarrow> live s \<and> l_bridge_possible s))"
proof -
  let ?A = "\<lambda>s. lan_at u fd s \<and> s_active (session_of s)"
  have A: "mspec (lan_at u fd) (mod_session (\<lambda>x. x\<lparr>s_active := True\<rparr>)) (\<lambda>_. ?A)"
    by (rule mod_session_spec)
      (auto simp: lan_at_ok session_of_def session_wf_def intro!: lan_at_session dest: lan_at_wf)
  have A_frame: "?A t" if "?A s" "lan_inv s t" for s t
  proof -
    from that(1) obtain x where x: "i_session (l_intf s) = Some x" using lan_at_ok lan_okE by metis
    from that(2) have "lan_frame s t" by (simp add: lan_inv_def)
    from lan_frame_Some [OF this x] x that show ?thesis
      by (auto simp: session_of_def intro: lan_at_frame)
  qed
  have acc: "mspec ?A (mbind (mod_session (\<lambda>x. x\<lparr>s_session_id := i, s_in_seq := (let n = k in if n = 0 then 1 else n)\<rparr>)) (\<lambda>_.
           mbind get_session (\<lambda>ses.
           if s_authstatus ses AND 0x10 \<noteq> 0 then
             mbind (mod_session (\<lambda>x. x\<lparr>s_authtype := 0\<rparr>)) (\<lambda>_.
             mbind (mmod (\<lambda>s. s\<lparr>l_bridge_possible := True\<rparr>)) (\<lambda>_. mret 0))
           else if s_authtype ses \<noteq> b then mret (-1 :: int)
           else mbind (mmod (\<lambda>s. s\<lparr>l_bridge_possible := True\<rparr>)) (\<lambda>_. mret 0))))
     (\<lambda>rc s. lan_at u fd s \<and> (0 \<le> rc \<longrightarrow> live s \<and> l_bridge_possible s))" for i k b
  proof -
    let ?B = "\<lambda>s. lan_at u fd s \<and> live s"
    have m1: "mspec ?A (mod_session (\<lambda>x. x\<lparr>s_session_id := i, s_in_seq := (let n = k in if n = 0 then 1 else n)\<rparr>)) (\<lambda>_. ?B)"
      by (rule mod_session_live) (auto simp: session_wf_def Let_def)
    have m2: "mspec ?B (mod_session (\<lambda>x. x\<lparr>s_authtype := 0\<rparr>)) (\<lambda>_. ?B)"
      unfolding live_def [of _] by (rule mod_session_live [unfolded live_def]) (auto simp: session_wf_def)
    have m3: "mspec ?B (mbind (mmod (\<lambda>s. s\<lparr>l_bridge_possible := True\<rparr>)) (\<lambda>_. mret 0))
        (\<lambda>rc s. lan_at u fd s \<and> ((0 :: int) \<le> rc \<longrightarrow> live s \<and> l_bridge_possible s))"
      by (rule mspec_mbind, rule mspec_mmod [where Q = "\<lambda>_ s. ?B s \<and> l_bridge_possible s"], 
          auto simp: lan_at_def lan_ok_def env_ok_def live_def session_of_def intro!: mspec_mret)
    show ?thesis
      by (rule mspec_mbind [OF m1], rule mspec_mbind [where R = "\<lambda>_. ?B"])
        (use m2 m3 in \<open>auto intro!: mspec_if mspec_mbind [OF m2] mspec_mret mspec_conseq_post [OF get_session_spec] simp: lan_at_ok\<close>)
  qed
  have rej: "mspec ?A (mbind (mod_session (\<lambda>x. x\<lparr>s_active := False\<rparr>)) (\<lambda>_. mret (-1 :: int)))
     (\<lambda>rc s. lan_at u fd s \<and> (0 \<le> rc \<longrightarrow> live s \<and> l_bridge_possible s))"
    by (rule mspec_mbind [where R = "\<lambda>_. lan_at u fd"], rule mod_session_spec)
      (auto simp: lan_at_ok session_wf_def intro!: lan_at_session mspec_mret dest: lan_at_wf)
  have sp: "mkeeps (lan_at u fd) (if b then mod_session (\<lambda>x. x\<lparr>s_authcode := memcpy_at (s_authcode x) 0 (ipmi_auth_special x)\<rparr>)
      else mret ())" for b
    by (intro keeps_intros) (simp add: session_wf_def)
  show ?thesis
    unfolding ipmi_activate_session_cmd_def Let_def [of "ipmi_oem_active _ _"]
  proof (rule mspec_mbind [OF mkeeps_mspec [OF mkeeps_get_session]],
      rule mspec_mbind [OF mkeeps_mspec [OF mkeeps_mget]], rule mspec_mbind [OF mkeeps_mspec [OF sp]],
      rule mspec_mbind [OF random_spec], rule mspec_conj_pure, rule mspec_mbind [OF A])
    fix ses intf and rnd :: bytes
    let ?d = "[s_authtype ses, s_privlvl ses]
      @ (if ipmi_oem_active intf ''supermicro'' then replicate 16 0 else take 16 (s_challenge ses)) @ rnd"
    assume "length rnd = 4"
    then have "length (rq_data (app_rq 0x3a ?d)) < 2 ^ 16" by (auto simp: app_rq_def)
    then have "mspec ?A (sr (app_rq 0x3a ?d)) (\<lambda>_. ?A)"
      by (rule sr_keeps) (erule (1) A_frame, auto dest: lan_at_ok)
    then show "mspec ?A (mbind (sr (app_rq 0x3a ?d)) (\<lambda>rsp. case rsp of
       None \<Rightarrow> mbind (mod_session (\<lambda>x. x\<lparr>s_active := False\<rparr>)) (\<lambda>_. mret (-1))
     | Some r \<Rightarrow>
         if r_ccode r \<noteq> 0 then mret (-1 :: int)
         else
           mbind (mod_session (\<lambda>x. x\<lparr>s_session_id := of_le32 (drop 1 (r_data r)),
              s_in_seq := (let n = of_le32 (drop 5 (r_data r)) in if n = 0 then 1 else n)\<rparr>)) (\<lambda>_.
           mbind get_session (\<lambda>ses.
           if s_authstatus ses AND 0x10 \<noteq> 0 then
             mbind (mod_session (\<lambda>x. x\<lparr>s_authtype := 0\<rparr>)) (\<lambda>_.
             mbind (mmod (\<lambda>s. s\<lparr>l_bridge_possible := True\<rparr>)) (\<lambda>_. mret 0))
           else if s_authtype ses \<noteq> (r_data r ! 0 AND 0xf) then mret (-1)
           else mbind (mmod (\<lambda>s. s\<lparr>l_bridge_possible := True\<rparr>)) (\<lambda>_. mret 0)))))
       (\<lambda>rc s. lan_at u fd s \<and> (0 \<le> rc \<longrightarrow> live s \<and> l_bridge_possible s))"
      by (rule mspec_mbind) (intro mspec_option mspec_if rej acc mspec_mret, auto)
  qed
qed


lemma set_privlvl_spec:
  "mspec (\<lambda>s. lan_at u fd s \<and> live s \<and> \<not> i_abort (l_intf s) \<and> l_bridge_possible s) (ipmi_set_session_privlvl_cmd sr)
     (\<lambda>_ s. lan_at u fd s \<and> live s \<and> \<not> i_abort (l_intf s) \<and> l_bridge_possible s)"
proof -
  let ?L = "\<lambda>s. lan_at u fd s \<and> live s \<and> \<not> i_abort (l_intf s)"
  let ?P = "\<lambda>s. lan_at u fd s \<and> live s \<and> \<not> i_abort (l_intf s) \<and> l_bridge_possible s"
  have L: "?L t" if "?L s" "lan_inv s t" for s t
  proof -
    from that(2) have "i_abort (l_intf t) = i_abort (l_intf s)" by (auto simp: lan_inv_def elim!: lan_frameE)
    with that show ?thesis using lan_at_frame [of u fd s t] live_frame [of s t] lan_at_ok [of u fd s] by simp
  qed
  have ok: "lan_ok s" if "?P s" for s using that lan_at_ok by blast
  have br: "mspec ?L (mmod (\<lambda>s. s\<lparr>l_bridge_possible := b\<rparr>)) (\<lambda>_. if b then ?P else ?L)" for b
    by (rule mspec_mmod) (auto simp: lan_at_def lan_ok_def env_ok_def live_def session_of_def)
  show ?thesis
    unfolding ipmi_set_session_privlvl_cmd_def
  proof (rule mspec_mbind [OF get_session_spec [OF ok]], assumption,
      rule mspec_mbind [where R = "\<lambda>b s. ?P s \<and> b"], rule mspec_mget, simp, rule mspec_conj_pure)
    fix ses b
    assume b: b
    have sr: "mspec ?L (sr (app_rq 0x3b [s_privlvl ses])) (\<lambda>_. ?L)"
      by (rule sr_keeps) (simp add: app_rq_def, erule (1) L, blast dest: lan_at_ok)
    have down: "mspec ?P (mmod (\<lambda>s. s\<lparr>l_bridge_possible := False\<rparr>)) (\<lambda>_. ?L)"
      by (rule mspec_weaken [OF br [of False]]) simp_all
    have up: "mspec ?L (mmod (\<lambda>s. s\<lparr>l_bridge_possible := b\<rparr>)) (\<lambda>_. ?P)"
      using br [of b] b by simp
    show "mspec ?P (if s_privlvl ses \<le> 2 then mret 0
        else mbind (mmod (\<lambda>s. s\<lparr>l_bridge_possible := False\<rparr>)) (\<lambda>_.
          mbind (sr (app_rq 0x3b [s_privlvl ses])) (\<lambda>rsp.
          mbind (mmod (\<lambda>s. s\<lparr>l_bridge_possible := b\<rparr>)) (\<lambda>_.
          case rsp of None \<Rightarrow> mret (-1) | Some r \<Rightarrow> mret (if r_ccode r > 0 then -1 else 0)))))
        (\<lambda>_. ?P)"
      by (rule mspec_if, rule mspec_mret, assumption, rule mspec_mbind [OF down], rule mspec_mbind [OF sr],
          rule mspec_mbind [OF up], rule mspec_option; rule mspec_mret; assumption)
  qed
qed

lemma activate_session_spec:
  "mspec (lan_at u fd) (ipmi_lan_activate_session sr)
     (\<lambda>rc s. lan_at u fd s \<and> (0 \<le> rc \<longrightarrow> live s \<and> \<not> i_abort (l_intf s) \<and> l_bridge_possible s))"
proof -
  have pre: "mkeeps (lan_at u fd) (if b then ipmi_lan_ping else mret 0)"
     "mkeeps (lan_at u fd) (if b then ipmi_lan_thump_first else mret ())"
     "mkeeps (lan_at u fd) (if b then ipmi_get_auth_capabilities_cmd sr else mret i)" for b i
    using ping_ok [OF lan_invI] thump_ok(2) [OF lan_invI] auth_capabilities_keeps
    by (auto intro!: keeps_intros mkeeps_inv)
  have ab: "\<not> a < 0 \<Longrightarrow> mspec (\<lambda>s. lan_at u fd s \<and> (0 \<le> a \<longrightarrow> live s \<and> l_bridge_possible s))
      (mod_intf (\<lambda>i. i\<lparr>i_abort := False\<rparr>))
      (\<lambda>_ s. lan_at u fd s \<and> live s \<and> \<not> i_abort (l_intf s) \<and> l_bridge_possible s)" for a :: int
    unfolding mod_intf_def by (rule mspec_mmod) (auto simp: lan_at_def lan_ok_def env_ok_def live_def session_of_def)
  have act: "mspec (lan_at u fd) (mbind (ipmi_activate_session_cmd sr) (\<lambda>rc.
         if rc < 0 then mret (-1 :: int)
         else
           mbind (mod_intf (\<lambda>i. i\<lparr>i_abort := False\<rparr>)) (\<lambda>_.
           mbind (ipmi_set_session_privlvl_cmd sr) (\<lambda>rc.
           if rc < 0 then mret (-1) else mret 0))))
     (\<lambda>rc s. lan_at u fd s \<and> (0 \<le> rc \<longrightarrow> live s \<and> \<not> i_abort (l_intf s) \<and> l_bridge_possible s))"
    by (rule mspec_mbind [OF activate_session_cmd_spec], rule mspec_if, rule mspec_mret, simp,
        rule mspec_mbind [OF ab], simp, rule mspec_mbind [OF set_privlvl_spec], auto intro!: mspec_mret)
  show ?thesis
    unfolding ipmi_lan_activate_session_def
    by (intro mspec_mbind [OF mkeeps_mspec [OF mkeeps_mget]] mspec_mbind [OF mkeeps_mspec [OF pre(1)]]
        mspec_mbind [OF mkeeps_mspec [OF pre(2)]] mspec_mbind [OF mkeeps_mspec [OF pre(3)]]
        mspec_mbind [OF mkeeps_mspec [OF auth_capabilities_keeps]]
        mspec_mbind [OF mkeeps_mspec [OF session_challenge_keeps]] mspec_if act mspec_mret) simp_all
qed

lemma close_session_cmd_keeps: "mkeeps (lan_at u fd) (ipmi_close_session_cmd sr)"
  unfolding ipmi_close_session_cmd_def
  by (intro keeps_intros mkeeps_sr) (simp_all add: app_rq_def)

lemma close_spec: "mspec (lan_at u fd) (ipmi_lan_close sr) (\<lambda>_. closed)"
proof -
  let ?R = "\<lambda>s. lan_ok s \<and> req_abs (l_queue s) []"
  have clr: "mspec (lan_at u fd) (on_queue ipmi_req_clear_entries) (\<lambda>_. ?R)"
  proof (rule mspecI)
    fix s
    assume s: "lan_at u fd s"
    then obtain xs where "req_abs (l_queue s) xs" by (auto simp: lan_at_def elim: lan_okE)
    from lan_list.clear_law [OF this] s
    show "\<exists>a t. on_queue ipmi_req_clear_entries s = Inr (a, t) \<and> ?R t"
      by (auto simp: on_queue_def lan_at_def lan_ok_def env_ok_def)
  qed
  have fin: "mspec ?R (mod_intf (\<lambda>i. i\<lparr>i_session := None, i_opened := False\<rparr>)) (\<lambda>_. closed)"
    unfolding mod_intf_def by (rule mspec_mmod) (auto simp: closed_def lan_safe_def lan_ok_def env_ok_def)
  have cl: "mkeeps (lan_at u fd) (if b then ipmi_close_session_cmd sr else mret 0)" for b
    by (intro keeps_intros close_session_cmd_keeps)
  show ?thesis
    unfolding ipmi_lan_close_def
    by (rule mspec_mbind [OF mkeeps_mspec [OF mkeeps_mget]], rule mspec_mbind [OF mkeeps_mspec [OF cl]],
        rule mspec_mbind [OF clr], rule fin)
qed

lemma open_spec:
  "mspec (\<lambda>s. lan_safe s \<and> \<not> i_opened (l_intf s)) (ipmi_lan_open sr)
     (\<lambda>rc s. lan_safe s \<and> (if rc < 0 then \<not> i_opened (l_intf s) else established s))"
proof -
  let ?Q = "\<lambda>rc s. lan_safe s \<and> (if rc < (0 :: int) then \<not> i_opened (l_intf s) else established s)"
  have closed_Q: "mspec closed (mret (-1)) ?Q" by (rule mspec_mret) (simp add: closed_def)
  have named_Q: "mspec (lan_named fd) (mret (-1)) ?Q" for fd
    by (rule mspec_mret) (simp add: lan_named_def lan_at_def lan_ok_safe)
  have reopened: "mspec closed (mod_intf (\<lambda>i. i\<lparr>i_opened := False\<rparr>)) (\<lambda>_. closed)"
    unfolding mod_intf_def by (rule mspec_mmod) (auto simp: closed_def lan_safe_def env_ok_def)
  have act: "mspec (lan_at True fd) (mbind (ipmi_lan_activate_session sr) (\<lambda>rc.
      if rc < 0 then mbind (ipmi_lan_close sr) (\<lambda>_. mbind (mod_intf (\<lambda>i. i\<lparr>i_opened := False\<rparr>)) (\<lambda>_. mret (-1)))
      else mget (\<lambda>s. i_fd (l_intf s)))) ?Q" if "0 \<le> fd" for fd
    by (rule mspec_mbind [OF activate_session_spec], rule mspec_if,
        rule mspec_mbind [OF mspec_weaken [OF close_spec]], blast, assumption,
        rule mspec_mbind [OF reopened], rule closed_Q, rule mspec_mget)
      (use that in \<open>auto simp: lan_at_def established_def lan_ok_safe\<close>)
  have conn: "mspec (lan_at False fd) (mbind (script_step l_connects (\<lambda>xs s. s\<lparr>l_connects := xs\<rparr>) True) (\<lambda>connected.
      if \<not> connected then mbind (ipmi_lan_close sr) (\<lambda>_. mret (-1))
      else mbind (mod_intf (\<lambda>i. i\<lparr>i_opened := True\<rparr>)) (\<lambda>_. mbind (ipmi_lan_activate_session sr) (\<lambda>rc.
        if rc < 0 then mbind (ipmi_lan_close sr) (\<lambda>_. mbind (mod_intf (\<lambda>i. i\<lparr>i_opened := False\<rparr>)) (\<lambda>_. mret (-1)))
        else mget (\<lambda>s. i_fd (l_intf s)))))) ?Q" if "0 \<le> fd" for fd
    by (rule mspec_mbind [OF mkeeps_mspec], rule mkeeps_script, rule mspec_if,
        rule mspec_mbind [OF close_spec], rule closed_Q,
        rule mspec_mbind [OF set_opened], rule act [OF that])
  have sock: "mspec (lan_named fd0) (open_socket sr) ?Q" for fd0
    unfolding open_socket_def
    by (rule mspec_mbind [OF named_keeps(1)], rule mspec_mbind [OF named_keeps(3)], rule mspec_if, rule named_Q,
        rule mspec_mbind [OF named_keeps(4)], rule mspec_mbind [OF named_keeps(2)], rule mspec_if, rule named_Q,
        rule mspec_weaken [OF conn], rule leI, assumption) (simp_all add: lan_named_def)
  have host: "mspec (\<lambda>s. lan_named fd0 s \<and> ses = session_of s)
      (if 0 \<notin> set (s_hostname ses) then mfail OutOfBounds
       else if cstring (s_hostname ses) = [] then mret (-1) else open_socket sr) ?Q" for fd0 ses
  proof (cases "0 \<in> set (s_hostname ses)")
    case True
    then show ?thesis
      using mspec_weaken [OF sock [of fd0], where P' = "\<lambda>s. lan_named fd0 s \<and> ses = session_of s" and Q' = ?Q]
        mspec_weaken [OF named_Q [of fd0], where P' = "\<lambda>s. lan_named fd0 s \<and> ses = session_of s" and Q' = ?Q] by simp
  next
    case False
    then show ?thesis by (auto simp: mspec_def dest: lan_named_nul)
  qed
  show ?thesis
  proof (rule mspecI)
    fix s
    assume s: "lan_safe s \<and> \<not> i_opened (l_intf s)"
    show "\<exists>rc t. ipmi_lan_open sr s = Inr (rc, t) \<and> ?Q rc t"
    proof (cases "i_session (l_intf s)")
      case None
      with s show ?thesis by (simp add: ipmi_lan_open_def machine_simps)
    next
      case (Some x)
      with s have at: "lan_named (i_fd (l_intf s)) s" by (auto simp: lan_named_def lan_at_def dest: lan_safe_Some)
      note mspec_mbind [OF named_defaults mspec_mbind [OF get_session_spec [OF lan_named_ok] host]]
      from mspecD [OF this at] Some show ?thesis by (simp add: ipmi_lan_open_def mbind_def mget_def)
    qed
  qed
qed

end

interpretation lan_net: lan_transport send_cmd_opened
  by unfold_locales (use send_cmd_opened_ok in blast)

section \<open>Runs of the interface\<close>

text \<open>
  The calls of the rest of the program: commands, the periodic keepalive, the session options of the command
  line, and closing, which the main program does only when the interface is open.
\<close>

datatype lan_op = SendCmd ipmi_rq | KeepAlive | SetOption session_opt | CloseIntf

fun lan_op_run :: "lan_op \<Rightarrow> (lan, unit) machine" where
  "lan_op_run (SendCmd req) = mbind (ipmi_lan_send_cmd req) (\<lambda>_. mret ())"
| "lan_op_run KeepAlive = mbind (ipmi_lan_keepalive ipmi_lan_send_cmd) (\<lambda>_. mret ())"
| "lan_op_run (SetOption opt) = mod_intf (set_opt opt)"
| "lan_op_run CloseIntf =
     mbind (mget (\<lambda>s. i_opened (l_intf s))) (\<lambda>opened.
     if opened then ipmi_lan_close send_cmd_opened else mret ())"

fun lan_ops_run :: "lan_op list \<Rightarrow> (lan, unit) machine" where
  "lan_ops_run [] = mret ()"
| "lan_ops_run (op # ops) = mbind (lan_op_run op) (\<lambda>_. lan_ops_run ops)"

fun op_ok :: "lan_op \<Rightarrow> bool" where
  "op_ok (SendCmd req) \<longleftrightarrow> length (rq_data req) < 2 ^ 16"
| "op_ok (SetOption (OptHostname (Some h))) \<longleftrightarrow> length h < 64"
| "op_ok _ \<longleftrightarrow> True"

lemma lan_safe_opened: "lan_safe s \<Longrightarrow> i_opened (l_intf s) \<Longrightarrow> lan_ok s"
  by (auto simp: lan_safe_def lan_ok_def split: option.splits)

text \<open>A command between the operations: no fault, and an answer is a response of the buffer's size.\<close>

lemma send_cmd_spec:
  assumes "length (rq_data req) < 2 ^ 16"
  shows "mspec lan_safe (ipmi_lan_send_cmd req) (\<lambda>r t. lan_safe t \<and> (\<forall>x. r = Some x \<longrightarrow> rsp_ok x))"
proof (rule mspecI)
  fix s
  assume s: "lan_safe s"
  have opened: "\<exists>r u. send_cmd_opened req t = Inr (r, u) \<and> lan_safe u \<and> (\<forall>x. r = Some x \<longrightarrow> rsp_ok x)"
    if t: "lan_ok t" "i_opened (l_intf t)" for t
  proof -
    obtain r u where r: "send_cmd_opened req t = Inr (r, u)" "\<forall>x. r = Some x \<longrightarrow> rsp_ok x" and u: "lan_inv t u"
      using send_cmd_opened_ok [OF t(1) assms] by blast
    have "lan_at True (i_fd (l_intf t)) u" by (rule lan_at_frame [OF _ u]) (simp add: lan_at_def t)
    then have "lan_safe u" by (intro lan_ok_safe) (simp_all add: lan_at_def)
    with r show ?thesis by blast
  qed
  show "\<exists>a t. ipmi_lan_send_cmd req s = Inr (a, t) \<and> lan_safe t \<and> (\<forall>x. a = Some x \<longrightarrow> rsp_ok x)"
  proof (cases "i_opened (l_intf s)")
    case True
    with opened [OF lan_safe_opened [OF s True]] show ?thesis by (simp add: ipmi_lan_send_cmd_def machine_simps)
  next
    case False
    from mspecD [OF lan_net.open_spec] s False obtain rc t where "ipmi_lan_open send_cmd_opened s = Inr (rc, t)"
      "lan_safe t" "0 \<le> rc \<longrightarrow> lan_ok t \<and> i_opened (l_intf t)" by (fastforce simp: established_def)
    with False opened [of t] show ?thesis by (cases "rc < 0") (auto simp: ipmi_lan_send_cmd_def machine_simps)
  qed
qed

lemma send_cmd_keeps_safe:
  "length (rq_data req) < 2 ^ 16 \<Longrightarrow> mkeeps lan_safe (ipmi_lan_send_cmd req)"
  using send_cmd_spec [of req] by (fastforce simp: mkeeps_def mspec_def)

lemma set_opt_session:
  "i_opened (set_opt opt i) = i_opened i" "i_session i = None \<Longrightarrow> i_session (set_opt opt i) = None"
  by (cases opt; simp add: setter_defs on_session_def split: option.splits)+

lemma set_opt_Some:
  assumes "i_session i = Some x" "session_wf x"
  shows "\<exists>y. i_session (set_opt opt i) = Some y \<and> session_wf y \<and>
    (op_ok (SetOption opt) \<and> last (s_hostname x) = 0 \<longrightarrow> last (s_hostname y) = 0)"
proof -
  have host: "last (memcpy_at (memcpy_at h 0 (replicate 16 0)) 0 n) = (0 :: u8)" if "length h = 64" "length n < 64" "last h = 0" for h n
  proof -
    let ?h = "memcpy_at (memcpy_at h 0 (replicate 16 0)) 0 n"
    have l: "length (memcpy_at h 0 (replicate 16 0)) = 64" "length ?h = 64" using that by simp_all
    have "?h \<noteq> []" "h \<noteq> []" using that(1) l(2) by (metis list.size(3) zero_neq_numeral)+
    then have "last ?h = ?h ! 63" "last h = h ! 63" using that l by (simp_all add: last_conv_nth)
    then show ?thesis using that l by (simp add: nth_memcpy_at)
  qed
  show ?thesis
  proof (cases opt)
    case (OptHostname n)
    then show ?thesis
      using assms host [of "s_hostname x"] host [of "s_hostname x" "[]"]
      by (cases n) (auto simp: setter_defs on_session_def session_wf_def Let_def memcpy_at_def [of _ _ "[]"])
  qed (use assms in \<open>auto simp: setter_defs on_session_def session_wf_def Let_def split: option.splits\<close>)
qed

lemma lan_op_keeps_safe:
  assumes ok: "op_ok op"
  shows "mkeeps lan_safe (lan_op_run op)"
proof (cases op)
  case (SendCmd req)
  with ok show ?thesis by (auto intro!: keeps_intros send_cmd_keeps_safe)
next
  case KeepAlive
  then show ?thesis
    by (auto simp: ipmi_lan_keepalive_def app_rq_def intro!: keeps_intros send_cmd_keeps_safe)
next
  case CloseIntf
  have "\<exists>t. ipmi_lan_close send_cmd_opened s = Inr ((), t) \<and> lan_safe t" if "lan_safe s" "i_opened (l_intf s)" for s
    using mspecD [OF lan_net.close_spec, of _ _ s] lan_safe_opened [OF that] by (fastforce simp: lan_at_def closed_def)
  with CloseIntf show ?thesis by (auto simp: mkeeps_def machine_simps)
next
  case (SetOption opt)
  have "lan_safe (s\<lparr>l_intf := set_opt opt (l_intf s)\<rparr>)" if "lan_safe s" for s
    using that ok SetOption set_opt_session [where opt = opt and i = "l_intf s"] set_opt_Some [of "l_intf s" _ opt]
    by (cases "i_session (l_intf s)") (fastforce simp: lan_safe_def env_ok_def)+
  with SetOption show ?thesis by (auto simp: mod_intf_def intro!: keeps_intros)
qed

section \<open>Properties\<close>

text \<open>
  C1. Memory safety of the LAN interface over any sequence of calls: commands (which open the session when it is not open), keepalives, changes of the session options
  and closing, in any order. If requests have less than 65536 bytes of data, host names less than 64 bytes, datagrams less than 1024 bytes, and if in the end
  the network falls silent and takes what is sent (finitely many datagrams, finitely many failures of \<open>send\<close>: \<open>env_ok\<close>), then every call returns, no call follows a null or freed pointer or leaves
  a buffer, whatever the datagrams hold and whatever \<open>select\<close>, \<open>malloc\<close>, \<open>connect\<close> and the name lookup answer, and the invariant of the interface holds afterwards. Each condition is
  needed: a datagram of 1024 bytes overflows the buffer, a host name of 64 bytes is read behind its end, and a \<open>send\<close> that fails for ever is repeated for
  ever.
\<close>

theorem lan_interface_memory_safe:
  assumes "lan_safe s" and "list_all op_ok ops"
  shows "\<exists>t. lan_ops_run ops s = Inr ((), t) \<and> lan_safe t"
proof -
  have "mkeeps lan_safe (lan_ops_run ops)"
    using assms(2) by (induction ops) (auto intro!: keeps_intros lan_op_keeps_safe)
  from mkeepsD [OF this assms(1)] show ?thesis by simp
qed

lemma open_lan_safe: "lan_safe (open_lan\<lparr>l_sends := a\<rparr>)"
  by (rule lan_ok_safe [OF open_lan_ok(1)]) (simp add: open_lan_def)

theorem lan_interface_memory_safe_witness:
  "\<exists>t. lan_ops_run [SendCmd get_device_id, KeepAlive, CloseIntf, SendCmd get_device_id]
       (open_lan\<lparr>l_sends := [False]\<rparr>) = Inr ((), t) \<and> lan_safe t"
  by (rule lan_interface_memory_safe [OF open_lan_safe]) (simp add: get_device_id_def)

text \<open>
  C11. Opening ends in one of two states: with a negative result the interface is not open; otherwise it
  is open, its session is active with a non-zero sequence number, bridging is enabled and the abort
  flag is cleared, so that closing it will send a Close Session command.
\<close>

theorem open_establishes_session:
  assumes "lan_safe s" and "\<not> i_opened (l_intf s)"
  shows "\<exists>rc t. ipmi_lan_open send_cmd_opened s = Inr (rc, t) \<and> lan_safe t \<and>
    (if rc < 0 then \<not> i_opened (l_intf t) else established t)"
  using mspecD [OF lan_net.open_spec, of s] assms by simp

theorem open_establishes_session_witness:
  "\<exists>rc t. ipmi_lan_open send_cmd_opened (open_lan\<lparr>l_intf := (l_intf open_lan)\<lparr>i_opened := False\<rparr>\<rparr>) = Inr (rc, t) \<and>
     lan_safe t \<and> (if rc < 0 then \<not> i_opened (l_intf t) else established t)"
proof -
  have "lan_safe (open_lan\<lparr>l_intf := (l_intf open_lan)\<lparr>i_opened := False\<rparr>\<rparr>)"
    using open_lan_ok(1) [of "[]"] by (auto simp: lan_safe_def lan_ok_def env_ok_def open_lan_def zero_session_def)
  then show ?thesis by (rule open_establishes_session) simp
qed

text \<open>
  A host name of 64 bytes or more fills its array without a NUL, and opening the session reads behind the array.
\<close>

theorem long_host_name_is_overread:
  assumes "i_session (l_intf s) = Some x" "session_wf x" "64 \<le> length h" "0 \<notin> set h"
  shows "mbind (mod_intf (set_opt (OptHostname (Some h)))) (\<lambda>_. ipmi_lan_open sr) s = Inl OutOfBounds"
proof -
  have "memcpy_at (memcpy_at (s_hostname x) 0 (replicate 16 0)) 0 (take 64 h) = take 64 h"
    using assms(2,3) by (simp add: memcpy_at_def session_wf_def)
  moreover have "0 \<notin> set (take 64 h)" using assms(4) by (auto dest: in_set_takeD)
  moreover have "s_hostname (lan_defaults y) = s_hostname y" for y by (simp add: lan_defaults_def Let_def)
  ultimately show ?thesis
    using assms(1,3)
    by (simp add: ipmi_lan_open_def machine_simps mod_intf_def mod_session_def get_session_def ipmi_intf_session_set_hostname_def on_session_def)
qed

theorem long_host_name_is_overread_witness:
  "mbind (mod_intf (set_opt (OptHostname (Some (replicate 64 0x61))))) (\<lambda>_. ipmi_lan_open send_cmd_opened) open_lan = Inl OutOfBounds"
  by (rule long_host_name_is_overread [where x = "zero_session\<lparr>s_retry := 4\<rparr>"])
     (simp_all add: open_lan_def zero_session_def session_wf_def)

text \<open>
  Closing a session always succeeds: the session is released, the interface is no longer open and
  no request is left in the list; a command sent afterwards fails without touching the released session.
\<close>

theorem close_releases_session:
  assumes "lan_ok s"
  shows "\<exists>t. ipmi_lan_close send_cmd_opened s = Inr ((), t) \<and> i_session (l_intf t) = None \<and>
    \<not> i_opened (l_intf t) \<and> req_abs (l_queue t) [] \<and>
    (\<forall>req. ipmi_lan_send_cmd req t = Inr (None, t))"
proof -
  from mspecD [OF lan_net.close_spec, of "i_opened (l_intf s)" "i_fd (l_intf s)" s] assms obtain t
    where "ipmi_lan_close send_cmd_opened s = Inr ((), t)" "closed t" by (auto simp: lan_at_def)
  then show ?thesis
    by (auto simp: closed_def ipmi_lan_send_cmd_def ipmi_lan_open_def machine_simps)
qed

theorem close_releases_session_witness:
  "\<exists>t. ipmi_lan_close send_cmd_opened (open_lan\<lparr>l_sends := [False, True]\<rparr>) = Inr ((), t) \<and>
     ipmi_lan_send_cmd get_device_id t = Inr (None, t)"
  using close_releases_session [OF open_lan_ok(1), of "[False, True]"] by blast

text \<open>
  The authentication type that is chosen is one the BMC announces and, when one was given on the
  command line, that one; types that need a password are only chosen with a password, MD5 before MD2
  before the plain password before OEM; and no type is found exactly when none qualifies.
\<close>

theorem choose_authtype_sound:
  "case choose_authtype password wanted supported of
     Some t \<Rightarrow> bit supported (unat t) \<and> (wanted = 0 \<or> wanted = t) \<and> (t = 0 \<or> password) \<and>
       (\<forall>u \<in> {2, 1, 4, 5}. bit supported (unat u) \<and> (wanted = 0 \<or> wanted = u) \<and> password \<longrightarrow>
          t \<noteq> 0 \<and> (t = 2 \<or> (u \<noteq> 2 \<and> (t = 1 \<or> (u \<noteq> 1 \<and> (t = 4 \<or> u \<noteq> 4))))))
   | None \<Rightarrow> (\<forall>u \<in> {0, 1, 2, 4, 5}. \<not> (bit supported (unat u) \<and> (wanted = 0 \<or> wanted = u) \<and> (u = 0 \<or> password)))"
  by (auto simp: choose_authtype_def Let_def)

theorem choose_authtype_sound_witness:
  "bit (0x17 :: u8) (unat (1 :: u8)) \<and> choose_authtype True 1 0x17 = Some 1"
  using choose_authtype_sound [where password = True and wanted = 1 and supported = "0x17"] by (simp add: choose_authtype_def Let_def)

end
