(* ===== verification/Ipmi_Cmd.thy ===== *)
theory Ipmi_Cmd
  imports Lan_Lifecycle
begin

text \<open>
  The interface between the IPMI commands and what carries them: \<open>intf->sendrecv\<close>, here as the argument of
  every command. The locale \<open>transport\<close> states what the commands rely on, the interpretation \<open>lan_cmd\<close> shows it of
  the LAN interface with its session handling.
\<close>

type_synonym 's transport = "ipmi_rq \<Rightarrow> ('s, ipmi_rs option) machine"

text \<open>A request of a network function with its data; \<open>msg.lun\<close> is zero.\<close>

definition ipmi_request :: "6 word \<Rightarrow> u8 \<Rightarrow> bytes \<Rightarrow> ipmi_rq" where
  "ipmi_request netfn cmd data = \<lparr>rq_netfn = netfn, rq_lun = 0, rq_cmd = cmd, rq_target_cmd = 0, rq_data = data\<rparr>"

lemma ipmi_request_data [simp]: "rq_data (ipmi_request netfn cmd data) = data"
  by (simp add: ipmi_request_def)

text \<open>A response with a completion code and data.\<close>

definition answer :: "u8 \<Rightarrow> bytes \<Rightarrow> ipmi_rs" where
  "answer cc d = \<lparr>r_ccode = cc, r_data = d @ replicate (1024 - length d) 0, r_data_len = int (length d), r_msg_netfn = 0, r_msg_cmd = 0,
     r_msg_seq = 0, r_msg_lun = 0, r_authtype = 0, r_seq = 0, r_id = 0, r_msglen = 0, r_rq_addr = 0, r_netfn = 0,
     r_rq_lun = 0, r_rs_addr = 0, r_rq_seq = 0, r_rs_lun = 0, r_cmd = 0\<rparr>"

text \<open>
  A transport returns without a fault, keeps its own invariant, and hands out responses whose data fill the
  array of \<open>struct ipmi_rs\<close>: a command may look at any of its 1024 bytes.
\<close>

locale transport =
  fixes sr :: "ipmi_rq \<Rightarrow> ('s, ipmi_rs option) machine" and ok :: "'s \<Rightarrow> bool"
  assumes sr_spec: "length (rq_data req) < 2 ^ 16 \<Longrightarrow> mspec ok (sr req) (\<lambda>r t. ok t \<and> (\<forall>x. r = Some x \<longrightarrow> length (r_data x) = 1024))"
begin

lemma sr_run:
  assumes "ok s" "length (rq_data req) < 2 ^ 16"
  obtains r t where "sr req s = Inr (r, t)" "ok t" "\<And>x. r = Some x \<Longrightarrow> length (r_data x) = 1024"
  using mspecD [OF sr_spec [OF assms(2)] assms(1)] by blast

lemma sr_mkeeps: "length (rq_data req) < 2 ^ 16 \<Longrightarrow> mkeeps ok (sr req)"
  using sr_spec [of req] by (fastforce simp: mkeeps_def mspec_def)

end

interpretation lan_cmd: transport ipmi_lan_send_cmd lan_safe
proof
  fix req :: ipmi_rq
  assume "length (rq_data req) < 2 ^ 16"
  from send_cmd_spec [OF this]
  show "mspec lan_safe (ipmi_lan_send_cmd req) (\<lambda>r t. lan_safe t \<and> (\<forall>x. r = Some x \<longrightarrow> length (r_data x) = 1024))"
    by (rule mspec_weaken) (auto simp: rsp_ok_def)
qed

end
