(* ===== verification/Fru_Text.thy ===== *)
theory Fru_Text
  imports Ipmi_Helper Libc
begin

text \<open>
  The text fields of FRU inventory areas (\<open>lib/ipmi_fru.c\<close>): the decoding of a field by \<open>get_fru_area_str\<close>
  and the printing of the chassis, board and product areas once they have been read into memory.

  The data are the bytes of the block that the area was read into; an access behind its end is a fault.
  \<open>alloc\<close> tells for which sizes \<open>malloc\<close> succeeds. An offset is a natural number: the code keeps it in 32 bits, and
  it stays below 70000.
\<close>

section \<open>Decoding a field\<close>

definition byte_char :: "u8 \<Rightarrow> char" where
  "byte_char b = char_of (unat b)"

definition bcd_plus :: string where
  "bcd_plus = ''0123456789 -.:,_''"

text \<open>The four characters of a group of three bytes; the bytes that are missing in the last group are zero.\<close>

definition six_bit_group :: "u8 \<Rightarrow> u8 \<Rightarrow> u8 \<Rightarrow> string" where
  "six_bit_group a b c =
     (let bits = ucast a OR push_bit 8 (ucast b) OR push_bit 16 (ucast c) :: u32
      in map (\<lambda>k. char_of (unat ((drop_bit (6 * k) bits AND 0x3f) + 0x20))) [0, 1, 2, 3])"

fun six_bit :: "bytes \<Rightarrow> string" where
  "six_bit [] = []"
| "six_bit [a] = six_bit_group a 0 0"
| "six_bit [a, b] = six_bit_group a b 0"
| "six_bit (a # b # c # r) = six_bit_group a b c @ six_bit r"

text \<open>
  \<open>get_fru_area_str\<close> at an offset: the string (None is the null pointer) and the new offset. The characters are
  stored in a block of \<open>size + 1\<close> bytes, the last of which is a NUL.
\<close>

definition area_str_size :: "nat \<Rightarrow> nat \<Rightarrow> nat" where
  "area_str_size typecode len =
     (if typecode = 0 then len * 2
      else if typecode = 2 then ((len + 2) * 4 div 3) div 4 * 4
      else len)"

definition field_type :: "u8 \<Rightarrow> nat" where
  "field_type b = unat (drop_bit 6 (b AND 0xC0))"

definition field_len :: "u8 \<Rightarrow> nat" where
  "field_len b = unat (b AND 0x3f)"

definition field_chars :: "nat \<Rightarrow> bytes \<Rightarrow> string" where
  "field_chars typecode raw =
     (if typecode = 0 then (case buf2str raw (int (length raw)) of Inr (Some s) \<Rightarrow> s | _ \<Rightarrow> [])
      else if typecode = 1 then map (\<lambda>b. bcd_plus ! unat (b AND 0x0f)) raw
      else if typecode = 2 then six_bit raw
      else map byte_char raw)"

definition get_fru_area_str :: "(nat \<Rightarrow> bool) \<Rightarrow> bytes \<Rightarrow> nat \<Rightarrow> fault + string option \<times> nat" where
  "get_fru_area_str alloc data offset =
     (if offset \<ge> length data then Inl OutOfBounds
      else
        let typecode = field_type (data ! offset);
            len = field_len (data ! offset);
            off = offset + 1;
            size = area_str_size typecode len
        in if size < 1 then Inr (None, off)
           else if \<not> alloc (size + 1) then Inr (None, offset)
           else if off + len > length data then Inl OutOfBounds
           else
             let chars = field_chars typecode (take len (drop off data))
             in if length chars > size then Inl BufferOverflow
                else Inr (Some (cstr chars), off + len))"

section \<open>Printing an area\<close>

text \<open>
  The fields of an area one after the other, each printed with its label when it is not empty; the flag of a
  label tells whether it is printed (some are only with \<open>-v\<close>).
\<close>

fun area_fields :: "(nat \<Rightarrow> bool) \<Rightarrow> bytes \<Rightarrow> (string \<times> bool) list \<Rightarrow> nat \<Rightarrow> fault + string list \<times> nat" where
  "area_fields alloc data [] i = Inr ([], i)"
| "area_fields alloc data ((label, shown) # labels) i =
     (case get_fru_area_str alloc data i of
        Inl e \<Rightarrow> Inl e
      | Inr (s, j) \<Rightarrow>
          (case area_fields alloc data labels j of
             Inl e \<Rightarrow> Inl e
           | Inr (out, k) \<Rightarrow>
               Inr ((case s of Some t \<Rightarrow> if t \<noteq> [] \<and> shown then [label @ t] else [] | None \<Rightarrow> []) @ out, k)))"

lemma get_fru_area_str_offset: "get_fru_area_str alloc data i = Inr (s, j) \<Longrightarrow> j = i \<or> i < j"
  by (auto simp: get_fru_area_str_def Let_def split: if_splits)

text \<open>The loop over the extra fields, up to the byte 0xc1 or the end of the area, at \<open>lim\<close>.\<close>

function area_extra :: "(nat \<Rightarrow> bool) \<Rightarrow> bytes \<Rightarrow> string \<Rightarrow> nat \<Rightarrow> nat \<Rightarrow> fault + string list" where
  "area_extra alloc data label lim i =
     (if i \<ge> length data then Inl OutOfBounds
      else if data ! i \<noteq> 0xc1 \<and> i < lim then
        (case get_fru_area_str alloc data i of
           Inl e \<Rightarrow> Inl e
         | Inr (s, j) \<Rightarrow>
             let line = (case s of Some t \<Rightarrow> if t \<noteq> [] then [label @ t] else [] | None \<Rightarrow> [])
             in if j = i then Inr line
                else (case area_extra alloc data label lim j of Inl e \<Rightarrow> Inl e | Inr out \<Rightarrow> Inr (line @ out)))
      else Inr [])"
  by pat_completeness auto
termination
  by (relation "measure (\<lambda>(alloc, data, label, lim, i). lim - i)")
     (use get_fru_area_str_offset in fastforce)+

declare area_extra.simps [simp del]

text \<open>An area from its start: the header of \<open>skip\<close> bytes before the first field, whose second byte is the length.\<close>

definition area_text :: "(nat \<Rightarrow> bool) \<Rightarrow> bytes \<Rightarrow> nat \<Rightarrow> nat \<Rightarrow> (string \<times> bool) list \<Rightarrow> string \<Rightarrow> fault + string list" where
  "area_text alloc data offset skip labels extra =
     (if offset + 1 \<ge> length data then Inl OutOfBounds
      else
        let area_len = unat (data ! (offset + 1)) * 8
        in case area_fields alloc data labels (offset + skip) of
             Inl e \<Rightarrow> Inl e
           | Inr (out, i) \<Rightarrow>
               (case area_extra alloc data extra (offset + area_len) i of
                  Inl e \<Rightarrow> Inl e
                | Inr extras \<Rightarrow> Inr (out @ extras)))"

definition chassis_type_desc :: "string list" where
  "chassis_type_desc =
     [''Unspecified'', ''Other'', ''Unknown'', ''Desktop'', ''Low Profile Desktop'', ''Pizza Box'', ''Mini Tower'',
      ''Tower'', ''Portable'', ''LapTop'', ''Notebook'', ''Hand Held'', ''Docking Station'', ''All in One'',
      ''Sub Notebook'', ''Space-saving'', ''Lunch Box'', ''Main Server Chassis'', ''Expansion Chassis'', ''SubChassis'',
      ''Bus Expansion Chassis'', ''Peripheral Chassis'', ''RAID Chassis'', ''Rack Mount Chassis'']"

text \<open>The chassis area: the index of the type is not compared with the size of the table.\<close>

definition chassis_text :: "(nat \<Rightarrow> bool) \<Rightarrow> bytes \<Rightarrow> nat \<Rightarrow> fault + string list" where
  "chassis_text alloc data offset =
     (if offset + 2 \<ge> length data then Inl OutOfBounds
      else if unat (data ! (offset + 2)) \<ge> length chassis_type_desc then Inl OutOfBounds
      else case area_text alloc data offset 3
                  [('' Chassis Part Number   : '', True), ('' Chassis Serial        : '', True)] '' Chassis Extra         : '' of
             Inl e \<Rightarrow> Inl e
           | Inr out \<Rightarrow> Inr (('' Chassis Type          : '' @ chassis_type_desc ! unat (data ! (offset + 2))) # out))"

definition board_text :: "bool \<Rightarrow> (nat \<Rightarrow> bool) \<Rightarrow> bytes \<Rightarrow> nat \<Rightarrow> fault + string list" where
  "board_text verbose alloc data offset =
     area_text alloc data offset 6
       [('' Board Mfg             : '', True), ('' Board Product         : '', True), ('' Board Serial          : '', True),
        ('' Board Part Number     : '', True), ('' Board FRU ID          : '', verbose)] '' Board Extra           : ''"

definition product_text :: "bool \<Rightarrow> (nat \<Rightarrow> bool) \<Rightarrow> bytes \<Rightarrow> nat \<Rightarrow> fault + string list" where
  "product_text verbose alloc data offset =
     area_text alloc data offset 3
       [('' Product Manufacturer  : '', True), ('' Product Name          : '', True), ('' Product Part Number   : '', True),
        ('' Product Version       : '', True), ('' Product Serial        : '', True), ('' Product Asset Tag     : '', True),
        ('' Product FRU ID        : '', verbose)] '' Product Extra         : ''"

section \<open>Fields fit\<close>

lemma length_six_bit: "length (six_bit raw) = (length raw + 2) div 3 * 4"
proof (induction raw rule: six_bit.induct)
  case (4 a b c r)
  have "(3 + n) div 3 = Suc (n div 3)" for n :: nat by simp
  from this [of "length r + 2"] 4 show ?case by (simp add: six_bit_group_def Let_def)
qed (simp_all add: six_bit_group_def Let_def)

lemma field_chars_size: "length (field_chars tc raw) \<le> area_str_size tc (length raw)"
proof -
  have h: "length (concat (map hex2 raw)) = 2 * length raw"
    by (induction raw) (simp_all add: hex2_def)
  have "(n + 2) * 4 div 3 div 4 = (n + 2) div 3" for n :: nat
    by (simp only: div_mult2_eq [symmetric]) (simp add: div_mult2_eq mult.commute)
  then show ?thesis
    by (auto simp: field_chars_def area_str_size_def length_six_bit buf2str_def h split: sum.splits option.splits)
qed

lemma get_fru_area_str_no_overflow: "get_fru_area_str alloc data i \<noteq> Inl BufferOverflow"
proof -
  have "length (field_chars tc (take n (drop (Suc i) data))) \<le> area_str_size tc n" if "Suc i + n \<le> length data" for tc n
    using field_chars_size [of tc "take n (drop (Suc i) data)"] that by simp
  then show ?thesis
    by (auto simp: get_fru_area_str_def Let_def not_less not_le [symmetric] split: if_splits)
qed

section \<open>Encoding a field\<close>

text \<open>A field as the specification defines it: type and length in the first byte, then the characters.\<close>

definition field_header :: "nat \<Rightarrow> nat \<Rightarrow> u8" where
  "field_header tc len = push_bit 6 (of_nat tc) OR of_nat len"

definition enc_8bit :: "string \<Rightarrow> bytes" where
  "enc_8bit s = field_header 3 (length s) # map of_char s"

definition six_bit_val :: "char \<Rightarrow> u32" where
  "six_bit_val c = of_nat (of_char c - 0x20)"

definition pack_group :: "char \<Rightarrow> char \<Rightarrow> char \<Rightarrow> char \<Rightarrow> bytes" where
  "pack_group c0 c1 c2 c3 =
     (let bits = six_bit_val c0 OR push_bit 6 (six_bit_val c1) OR push_bit 12 (six_bit_val c2) OR push_bit 18 (six_bit_val c3)
      in [ucast bits, ucast (drop_bit 8 bits), ucast (drop_bit 16 bits)])"

fun pack_six :: "string \<Rightarrow> bytes" where
  "pack_six (c0 # c1 # c2 # c3 # s) = pack_group c0 c1 c2 c3 @ pack_six s"
| "pack_six _ = []"

definition enc_6bit :: "string \<Rightarrow> bytes" where
  "enc_6bit s = field_header 2 (length (pack_six s)) # pack_six s"

definition six_bit_char :: "char \<Rightarrow> bool" where
  "six_bit_char c \<longleftrightarrow> (let n = of_char c :: nat in 0x20 \<le> n \<and> n < 0x60)"

lemma field_header_table:
  "\<forall>tc \<in> set [0..<4]. \<forall>n \<in> set [0..<64]. field_type (field_header tc n) = tc \<and> field_len (field_header tc n) = n"
  by code_simp

lemma field_header: "tc < 4 \<Longrightarrow> n < 64 \<Longrightarrow> field_type (field_header tc n) = tc \<and> field_len (field_header tc n) = n"
  using field_header_table by simp

lemma unat_of_char: "unat (of_char c :: u8) = of_char c"
proof -
  have "unat (of_nat (of_char c) :: u8) = of_char c mod 256" by (simp only: unat_of_nat) simp
  then show ?thesis by (simp only: of_nat_of_char of_char_mod_256)
qed

lemma byte_char_of_char [simp]: "byte_char (of_char c) = c"
  by (simp add: byte_char_def unat_of_char)

lemma get_enc:
  assumes "data = pre @ field_header tc (length raw) # raw @ post" "tc < 4" "length raw < 64"
    and "0 < area_str_size tc (length raw) \<Longrightarrow> alloc (Suc (area_str_size tc (length raw)))"
  shows "get_fru_area_str alloc data (length pre) =
    (if area_str_size tc (length raw) = 0 then Inr (None, length pre + 1)
     else Inr (Some (cstr (field_chars tc raw)), length pre + 1 + length raw))"
  using assms field_header [OF assms(2,3)] field_chars_size [of tc raw]
  by (auto simp: get_fru_area_str_def Let_def nth_append)

lemma get_8bit:
  assumes "length s < 64" "CHR 0x00 \<notin> set s" "\<And>n. n \<le> 64 \<Longrightarrow> alloc n"
  shows "get_fru_area_str alloc (pre @ enc_8bit s @ post) (length pre) = Inr (if s = [] then None else Some s, length pre + length (enc_8bit s))"
proof -
  have "field_chars 3 (map of_char s) = s" by (simp add: field_chars_def comp_def)
  with get_enc [of "pre @ enc_8bit s @ post" pre 3 "map of_char s" post alloc] assms show ?thesis
    by (simp add: enc_8bit_def area_str_size_def)
qed

text \<open>The bits of the packed groups.\<close>

lemma six_bit_val: "six_bit_char c \<Longrightarrow> six_bit_val c < 64 \<and> char_of (unat (six_bit_val c + 0x20)) = c"
proof -
  assume "six_bit_char c"
  then have n: "32 \<le> (of_char c :: nat)" "of_char c < (96 :: nat)" by (auto simp: six_bit_char_def Let_def)
  define m where "m = of_char c - (32 :: nat)"
  have m: "of_char c = m + 32" "m < 64" "six_bit_val c = of_nat m" using n by (auto simp: m_def six_bit_val_def)
  have "six_bit_val c + 0x20 = of_nat (m + 32)" by (simp add: m(3))
  then have "unat (six_bit_val c + 0x20) = of_char c" using m by (simp only: unat_of_nat) simp
  moreover have "six_bit_val c < 64" using m by (simp add: word_less_nat_alt unat_of_nat)
  ultimately show ?thesis by simp
qed

lemma less_64_bits: "(v :: u32) < 64 \<Longrightarrow> bit v n \<Longrightarrow> n < 6"
proof (rule ccontr)
  assume v: "v < 64" "bit v n" "\<not> n < 6"
  have "take_bit 6 v = v" using v(1) by (simp add: word_unat_eq_iff unsigned_take_bit_eq take_bit_nat_eq_self word_less_nat_alt)
  then have "bit (take_bit 6 v) n" using v(2) by simp
  with v(3) show False by (simp add: bit_take_bit_iff)
qed

lemma bytes_of_24:
  assumes "\<And>n. bit (bits :: u32) n \<Longrightarrow> n < 24"
  shows "ucast (ucast bits :: u8) OR push_bit 8 (ucast (ucast (drop_bit 8 bits) :: u8))
    OR push_bit 16 (ucast (ucast (drop_bit 16 bits) :: u8)) = bits"
proof (rule bit_word_eqI)
  fix n :: nat
  consider "n < 8" | "8 \<le> n" "n < 16" | "16 \<le> n" "n < 24" | "24 \<le> n" by linarith
  then show "bit (ucast (ucast bits :: u8) OR push_bit 8 (ucast (ucast (drop_bit 8 bits) :: u8))
    OR push_bit 16 (ucast (ucast (drop_bit 16 bits) :: u8)) :: u32) n = bit bits n" if "n < LENGTH(32)"
    using that assms [of n] by cases (auto simp: bit_or_iff bit_ucast_iff bit_push_bit_iff bit_drop_bit_eq)
qed

lemma pack_field:
  assumes "v0 < 64" "v1 < 64" "v2 < 64" "(v3 :: u32) < 64" "bits = v0 OR push_bit 6 v1 OR push_bit 12 v2 OR push_bit 18 v3"
  shows "bits AND 63 = v0" "drop_bit 6 bits AND 63 = v1" "drop_bit 12 bits AND 63 = v2" "drop_bit 18 bits AND 63 = v3"
    "bit bits n \<Longrightarrow> n < 24"
proof -
  have m: "(63 :: u32) = mask 6" by (simp add: mask_eq_exp_minus_1)
  note lt = assms(1-4) [THEN less_64_bits]
  show "bits AND 63 = v0" "drop_bit 6 bits AND 63 = v1" "drop_bit 12 bits AND 63 = v2" "drop_bit 18 bits AND 63 = v3"
    unfolding m assms(5)
    by (rule bit_word_eqI; auto simp: bit_and_iff bit_or_iff bit_push_bit_iff bit_drop_bit_eq bit_mask_iff dest: lt)+
  show "bit bits n \<Longrightarrow> n < 24"
    unfolding assms(5) by (auto simp: bit_or_iff bit_push_bit_iff dest: lt)
qed

lemma six_bit_group_pack:
  assumes "six_bit_char c0" "six_bit_char c1" "six_bit_char c2" "six_bit_char c3"
  shows "six_bit (pack_group c0 c1 c2 c3 @ r) = [c0, c1, c2, c3] @ six_bit r"
proof -
  define bits where "bits = six_bit_val c0 OR push_bit 6 (six_bit_val c1) OR push_bit 12 (six_bit_val c2) OR push_bit 18 (six_bit_val c3)"
  note v = assms [THEN six_bit_val]
  note p = pack_field [OF v(1) [THEN conjunct1] v(2) [THEN conjunct1] v(3) [THEN conjunct1] v(4) [THEN conjunct1] bits_def]
  have "six_bit_group (ucast bits) (ucast (drop_bit 8 bits)) (ucast (drop_bit 16 bits)) = [c0, c1, c2, c3]"
  proof -
    have "(ucast (ucast bits :: u8) OR push_bit 8 (ucast (ucast (drop_bit 8 bits) :: u8))
      OR push_bit 16 (ucast (ucast (drop_bit 16 bits) :: u8)) :: u32) = bits"
      by (rule bytes_of_24) (rule p(5))
    then have "six_bit_group (ucast bits) (ucast (drop_bit 8 bits)) (ucast (drop_bit 16 bits))
      = map (\<lambda>k. char_of (unat ((drop_bit (6 * k) bits AND 0x3f) + 0x20))) [0, 1, 2, 3]"
      by (simp only: six_bit_group_def Let_def)
    with p(1-4) v show ?thesis by simp
  qed
  then show ?thesis by (simp add: pack_group_def Let_def bits_def [symmetric])
qed

lemma six_bit_pack: "length s mod 4 = 0 \<Longrightarrow> list_all six_bit_char s \<Longrightarrow> six_bit (pack_six s) = s"
  by (induction s rule: pack_six.induct) (auto simp: six_bit_group_pack)

lemma length_pack_six: "length s mod 4 = 0 \<Longrightarrow> length (pack_six s) = length s div 4 * 3"
  by (induction s rule: pack_six.induct) (auto simp: pack_group_def Let_def)

lemma six_bit_no_nul: "list_all six_bit_char s \<Longrightarrow> CHR 0x00 \<notin> set s"
  by (induction s) (auto simp: six_bit_char_def)

text \<open>
  A field of FRU text reads back: \<open>get_fru_area_str\<close> on a field in 8-bit ASCII of at most 63 characters without a NUL, or in
  packed 6-bit ASCII (a multiple of four characters from the 64 that it has, at most 84 of them), yields the characters
  that were encoded and the offset behind the field, wherever it stands in the data.
\<close>

theorem fru_field_round_trip:
  assumes "\<And>n. n \<le> 85 \<Longrightarrow> alloc n" "s \<noteq> []"
  shows "(length s < 64 \<and> CHR 0x00 \<notin> set s \<longrightarrow>
      get_fru_area_str alloc (pre @ enc_8bit s @ post) (length pre) = Inr (Some s, length pre + length (enc_8bit s)))
    \<and> (length s mod 4 = 0 \<and> length s \<le> 84 \<and> list_all six_bit_char s \<longrightarrow>
      get_fru_area_str alloc (pre @ enc_6bit s @ post) (length pre) = Inr (Some s, length pre + length (enc_6bit s)))"
proof (intro conjI impI)
  show "get_fru_area_str alloc (pre @ enc_8bit s @ post) (length pre) = Inr (Some s, length pre + length (enc_8bit s))"
    if "length s < 64 \<and> CHR 0x00 \<notin> set s"
    using get_8bit [of s alloc pre post] that assms by simp
  assume s: "length s mod 4 = 0 \<and> length s \<le> 84 \<and> list_all six_bit_char s"
  then obtain k where k: "length s = 4 * k" by (metis mod_0_imp_dvd dvdE)
  with s assms(2) have "0 < k" "k \<le> 21" by (cases k; auto)+
  have l: "length (pack_six s) = 3 * k" using length_pack_six [of s] k by simp
  have a: "area_str_size 2 (3 * k) = 4 * k"
  proof -
    have "(3 * k + 2) * 4 div 3 = 4 * k + 2" by simp
    then show ?thesis by (simp add: area_str_size_def)
  qed
  have "field_chars 2 (pack_six s) = s" using s by (simp add: field_chars_def six_bit_pack)
  moreover have "CHR 0x00 \<notin> set s" using s six_bit_no_nul by blast
  ultimately show "get_fru_area_str alloc (pre @ enc_6bit s @ post) (length pre) = Inr (Some s, length pre + length (enc_6bit s))"
    using get_enc [of "pre @ enc_6bit s @ post" pre 2 "pack_six s" post alloc] assms(1) \<open>0 < k\<close> \<open>k \<le> 21\<close>
    by (simp add: enc_6bit_def l a)
qed

theorem fru_field_round_trip_witness:
  "get_fru_area_str (\<lambda>_. True) ([1, 2] @ enc_8bit ''ACME'' @ [0xc1]) (length [1, 2 :: u8])
      = Inr (Some ''ACME'', length [1, 2 :: u8] + length (enc_8bit ''ACME''))
    \<and> get_fru_area_str (\<lambda>_. True) ([1, 2] @ enc_6bit ''ACME'' @ [0xc1]) (length [1, 2 :: u8])
      = Inr (Some ''ACME'', length [1, 2 :: u8] + length (enc_6bit ''ACME''))"
proof -
  have "length ''ACME'' < 64 \<and> CHR 0x00 \<notin> set ''ACME''"
    "length ''ACME'' mod 4 = 0 \<and> length ''ACME'' \<le> 84 \<and> list_all six_bit_char ''ACME''"
    by code_simp+
  with fru_field_round_trip [of "\<lambda>_. True" "''ACME''" "[1, 2]" "[0xc1]"] show ?thesis by blast
qed

section \<open>A whole area\<close>

text \<open>The lines for the fixed fields and for the extra ones.\<close>

definition field_lines :: "(string \<times> bool) list \<Rightarrow> string list \<Rightarrow> string list" where
  "field_lines labels ss = concat (map (\<lambda>((label, shown), s). if s \<noteq> [] \<and> shown then [label @ s] else []) (zip labels ss))"

definition text_ok :: "string \<Rightarrow> bool" where
  "text_ok s \<longleftrightarrow> length s < 64 \<and> CHR 0x00 \<notin> set s"

definition enc_all :: "string list \<Rightarrow> bytes" where
  "enc_all ss = concat (map enc_8bit ss)"

lemma enc_all_Cons: "enc_all (s # ss) = enc_8bit s @ enc_all ss"
  by (simp add: enc_all_def)

lemma area_fields_enc:
  assumes "length labels = length ss" "list_all text_ok ss" "\<And>n. n \<le> 64 \<Longrightarrow> alloc n"
  shows "area_fields alloc (pre @ enc_all ss @ post) labels (length pre) = Inr (field_lines labels ss, length pre + length (enc_all ss))"
  using assms(1,2)
proof (induction labels ss arbitrary: pre rule: list_induct2)
  case Nil
  then show ?case by (simp add: field_lines_def enc_all_def)
next
  case (Cons l labels s ss)
  obtain label shown where l: "l = (label, shown)" by (cases l)
  have "get_fru_area_str alloc (pre @ enc_8bit s @ enc_all ss @ post) (length pre)
      = Inr (if s = [] then None else Some s, length pre + length (enc_8bit s))"
    using Cons.prems assms(3) by (intro get_8bit) (auto simp: text_ok_def)
  with Cons.IH [of "pre @ enc_8bit s"] Cons.prems show ?case
    by (simp add: l enc_all_Cons field_lines_def)
qed

text \<open>An extra field of one character cannot be told from the end mark.\<close>

lemma enc_8bit_not_end: "length s < 64 \<Longrightarrow> length s \<noteq> 1 \<Longrightarrow> field_header 3 (length s) \<noteq> 0xc1"
proof -
  assume l: "length s < 64" "length s \<noteq> 1"
  have "field_len 0xc1 = 1" by code_simp
  moreover have "field_len (field_header 3 (length s)) = length s" using field_header [of 3 "length s"] l by simp
  ultimately show ?thesis using l by auto
qed

lemma area_extra_enc:
  assumes "list_all (\<lambda>s. text_ok s \<and> length s \<noteq> 1) ss" "\<And>n. n \<le> 64 \<Longrightarrow> alloc n"
    and "length pre + length (enc_all ss) \<le> lim"
  shows "area_extra alloc (pre @ enc_all ss @ 0xc1 # post) label lim (length pre)
    = Inr (concat (map (\<lambda>s. if s \<noteq> [] then [label @ s] else []) ss))"
  using assms(1,3)
proof (induction ss arbitrary: pre)
  case Nil
  show ?case by (subst area_extra.simps) (simp add: enc_all_def)
next
  case (Cons s ss)
  let ?data = "pre @ enc_8bit s @ enc_all ss @ 0xc1 # post"
  have g: "get_fru_area_str alloc ?data (length pre) = Inr (if s = [] then None else Some s, length pre + length (enc_8bit s))"
    using Cons.prems assms(2) by (intro get_8bit) (auto simp: text_ok_def)
  have pos: "0 < length (enc_8bit s)" by (simp add: enc_8bit_def)
  have "?data ! length pre \<noteq> 0xc1"
    using enc_8bit_not_end [of s] Cons.prems by (simp add: enc_8bit_def text_ok_def nth_append)
  moreover have "length pre < lim" using Cons.prems by (simp add: enc_all_Cons enc_8bit_def)
  ultimately show ?case
    using Cons.IH [of "pre @ enc_8bit s"] Cons.prems g pos
    by (subst area_extra.simps) (simp add: enc_all_Cons Let_def)
qed

text \<open>
  C35. An inventory area prints what was written into it. For an area with any header, in which \<open>fs\<close> are the
  texts of the fixed fields and \<open>extras\<close> those of the extra fields in 8-bit ASCII (an extra field of one character would
  look like the end mark), and whose length byte covers them, the code prints one line for each field that is not empty, with the
  label of the field, and then one for each extra field, and nothing behind the end mark.
\<close>

theorem fru_area_prints_fields:
  assumes "length fs = length labels" "list_all text_ok fs" "list_all (\<lambda>s. text_ok s \<and> length s \<noteq> 1) extras" "\<And>n. n \<le> 64 \<Longrightarrow> alloc n"
    and "2 \<le> length hdr" "length (hdr @ enc_all fs @ enc_all extras) \<le> 8 * unat (hdr ! 1)"
  shows "area_text alloc (pre @ hdr @ enc_all fs @ enc_all extras @ 0xc1 # post) (length pre) (length hdr) labels extra
    = Inr (field_lines labels fs @ concat (map (\<lambda>s. if s \<noteq> [] then [extra @ s] else []) extras))"
proof -
  let ?data = "pre @ hdr @ enc_all fs @ enc_all extras @ 0xc1 # post"
  have h: "?data ! Suc (length pre) = hdr ! 1" "Suc (length pre) < length ?data"
    using assms(5) by (auto simp: nth_append)
  have "area_fields alloc ?data labels (length pre + length hdr) = Inr (field_lines labels fs, length pre + length hdr + length (enc_all fs))"
    using area_fields_enc [of labels fs alloc "pre @ hdr" "enc_all extras @ 0xc1 # post"] assms(1,2,4) by simp
  moreover have "area_extra alloc ?data extra (length pre + unat (hdr ! 1) * 8) (length pre + length hdr + length (enc_all fs))
    = Inr (concat (map (\<lambda>s. if s \<noteq> [] then [extra @ s] else []) extras))"
    using area_extra_enc [of extras alloc "pre @ hdr @ enc_all fs" "length pre + unat (hdr ! 1) * 8" post extra] assms(3,4,6)
    by (simp add: add.assoc mult.commute)
  ultimately show ?thesis using h by (simp add: area_text_def Let_def)
qed

theorem fru_area_prints_fields_witness:
  "area_text (\<lambda>_. True) ([] @ [1, 4, 0, 0, 0, 0] @ enc_all [''ACME'', ''''] @ enc_all [''rev2''] @ 0xc1 # [0]) (length ([] :: bytes))
      (length [1, 4, 0, 0, 0, 0 :: u8]) [(''Mfg: '', True), (''Name: '', True)] ''Extra: ''
    = Inr (field_lines [(''Mfg: '', True), (''Name: '', True)] [''ACME'', '''']
        @ concat (map (\<lambda>s. if s \<noteq> [] then [''Extra: '' @ s] else []) [''rev2'']))"
  by (rule fru_area_prints_fields) (simp_all add: text_ok_def enc_all_def enc_8bit_def)

text \<open>Reading the text of an area cannot overflow a block: the only fault is an access behind the data that were read.\<close>

lemma get_fru_area_str_fault: "get_fru_area_str alloc data i = Inl e \<Longrightarrow> e = OutOfBounds"
  using get_fru_area_str_no_overflow [of alloc data i]
  by (auto simp: get_fru_area_str_def Let_def split: if_splits)

lemma area_fields_fault: "area_fields alloc data ls i = Inl e \<Longrightarrow> e = OutOfBounds"
  by (induction alloc data ls i rule: area_fields.induct)
     (auto dest: get_fru_area_str_fault split: sum.splits prod.splits)

lemma area_extra_fault: "area_extra alloc data l lim i = Inl e \<Longrightarrow> e = OutOfBounds"
proof (induction alloc data l lim i rule: area_extra.induct)
  case (1 alloc data l lim i)
  from "1.prems" "1.IH" show ?case
    by (subst (asm) area_extra.simps)
       (auto simp: Let_def dest: get_fru_area_str_fault split: if_splits sum.splits prod.splits)
qed

lemma area_text_faults: "area_text alloc data offset skip labels extra = Inl e \<Longrightarrow> e = OutOfBounds"
  by (auto simp: area_text_def Let_def dest: area_fields_fault area_extra_fault split: if_splits sum.splits prod.splits)

end
