(* ===== verification/Fru.thy ===== *)
theory Fru
  imports Ipmi_Cmd Fru_Text
begin

text \<open>
  Reading, writing and printing FRU inventory data through the interface (\<open>lib/ipmi_fru.c\<close>).

  Every function takes \<open>intf->sendrecv\<close> as its first argument. The static variables \<open>fru_data_rqst_size\<close> of
  \<open>read_fru_area\<close> and \<open>write_fru_area\<close> are passed in and out. The output of the printing functions is a list of lines; the messages of the others are left out.
\<close>

section \<open>Requests\<close>

record fru_info =
  fru_size :: u16
  fru_access :: bool

abbreviation (input) GET_FRU_INFO :: u8 where "GET_FRU_INFO \<equiv> 0x10"
abbreviation (input) GET_FRU_DATA :: u8 where "GET_FRU_DATA \<equiv> 0x11"
abbreviation (input) SET_FRU_DATA :: u8 where "SET_FRU_DATA \<equiv> 0x12"

definition storage_rq :: "u8 \<Rightarrow> bytes \<Rightarrow> ipmi_rq" where
  "storage_rq cmd data = ipmi_request 0x0a cmd data"

lemma storage_rq_data [simp]: "rq_data (storage_rq cmd data) = data"
  by (simp add: storage_rq_def)

section \<open>Reading\<close>

text \<open>
  The loop of \<open>read_fru_area\<close>, with the offset, the request size and the buffer: the return value, the buffer and
  the request size. A \<open>continue\<close> in the loop goes on to its condition. The offset is a natural number: the
  code keeps it in 32 bits, and it grows only while it is below \<open>finish\<close>, which is at most 65535.
\<close>

lemma mbind_cong [fundef_cong]: "m = m' \<Longrightarrow> (\<And>a. f a = f' a) \<Longrightarrow> mbind m f = mbind m' f'"
  by (rule arg_cong2 [of _ _ _ _ mbind]) auto

definition too_many_bytes :: "u8 \<Rightarrow> bool" where
  "too_many_bytes cc \<longleftrightarrow> cc = 0xc7 \<or> cc = 0xc8 \<or> cc = 0xca"

definition read_request :: "fru_info \<Rightarrow> u8 \<Rightarrow> u32 \<Rightarrow> u32 \<Rightarrow> u32 \<Rightarrow> ipmi_rq" where
  "read_request fru fid finish off rqst =
     (let pos = (if fru_access fru then drop_bit 1 off else off);
          n = (if finish - off > rqst then rqst else finish - off)
      in storage_rq GET_FRU_DATA [fid, ucast pos, ucast (drop_bit 8 pos), ucast n])"

definition store_bytes :: "bytes \<Rightarrow> nat \<Rightarrow> bytes \<Rightarrow> bytes" where
  "store_bytes buf off d = take off buf @ d @ drop (off + length d) buf"

text \<open>The request size may wrap once, from 0; afterwards it only falls.\<close>

lemma rqst_falls: "(r :: u32) - 1 > 8 \<Longrightarrow> (if r - 1 = 0 then 2 ^ 32 else unat (r - 1)) < (if r = 0 then 2 ^ 32 else unat r)"
  using unsigned_less [of "- 1 :: u32", where 'a = nat] by (auto simp: unat_minus_one unat_gt_0)

function read_fru_loop ::
  "'s transport \<Rightarrow> fru_info \<Rightarrow> u8 \<Rightarrow> u32 \<Rightarrow> nat \<Rightarrow> u32 \<Rightarrow> bytes \<Rightarrow> ('s, int \<times> bytes \<times> u32) machine" where
  "read_fru_loop sr fru fid finish off rqst frubuf =
     mbind (sr (read_request fru fid finish (of_nat off) rqst)) (\<lambda>rsp.
     case rsp of
       None \<Rightarrow> mret (if off < unat finish then -1 else 0, frubuf, rqst)
     | Some r \<Rightarrow>
         if r_ccode r > 0 then
           (if too_many_bytes (r_ccode r) then
              (if rqst - 1 > 8 then
                 (if off < unat finish then read_fru_loop sr fru fid finish off (rqst - 1) frubuf
                  else mret (0, frubuf, rqst - 1))
               else mret (if off < unat finish then -1 else 0, frubuf, rqst - 1))
            else mret (if off < unat finish then -1 else 0, frubuf, rqst))
         else
           (let n = (if fru_access fru then 2 * unat (r_data r ! 0) else unat (r_data r ! 0))
            in if off + n > length frubuf then mfail BufferOverflow
               else
                 let frubuf = store_bytes frubuf off (take n (drop 1 (r_data r)))
                 in if n = 0 \<and> off + n < unat finish then mret (0, frubuf, rqst)
                    else if off + n < unat finish then read_fru_loop sr fru fid finish (off + n) rqst frubuf
                    else mret (0, frubuf, rqst)))"
  by pat_completeness auto

termination
proof (relation "measures [\<lambda>(sr, fru, fid, finish, off, rqst, frubuf). unat finish - off,
    \<lambda>(sr, fru, fid, finish, off, rqst, frubuf). if rqst = 0 then 2 ^ 32 else unat rqst]", goal_cases)
  case 1
  show ?case by simp
next
  case (2 sr fru fid finish off rqst frubuf a x2)
  then show ?case using rqst_falls [of rqst] by simp
next
  case 3
  then show ?case by (auto split: if_splits)
qed

declare read_fru_loop.simps [simp del]

text \<open>\<open>LIMIT_ALL_REQUEST_SIZE\<close> is not defined.\<close>

definition read_fru_area ::
  "'s transport \<Rightarrow> fru_info \<Rightarrow> u8 \<Rightarrow> u32 \<Rightarrow> u32 \<Rightarrow> bytes \<Rightarrow> u32 \<Rightarrow> ('s, int \<times> bytes \<times> u32) machine" where
  "read_fru_area sr fru fid offset len frubuf rqst =
     (if offset > ucast (fru_size fru) then mret (-1, frubuf, rqst)
      else
        let finish = (if offset + len > ucast (fru_size fru) then ucast (fru_size fru) else offset + len);
            rqst = (if fru_access fru \<and> rqst > 16 then 16 else rqst)
        in read_fru_loop sr fru fid finish (unat offset) rqst frubuf)"

section \<open>Writing\<close>

text \<open>
  The loop of \<open>write_fru_area\<close>: its return value and the static request size, which is only ever compared. The
  sum \<open>doffset + off\<close> is an \<open>int\<close> in the code; \<open>off\<close> is a \<open>uint16_t\<close> that grows by what is left at most, so that it does not wrap.
\<close>

function write_fru_loop ::
  "'s transport \<Rightarrow> fru_info \<Rightarrow> u8 \<Rightarrow> u16 \<Rightarrow> nat \<Rightarrow> nat \<Rightarrow> bytes \<Rightarrow> nat \<Rightarrow> u16 \<Rightarrow> ('s, int \<times> u16) machine" where
  "write_fru_loop sr fru fid finish soffset doffset src off rqst =
     (let pos = of_nat (if fru_access fru then (doffset + off) div 2 else doffset + off) :: u16;
          left = unat (finish - of_nat (doffset + off));
          n = (if left > 16 then 16 else left)
      in if soffset + off + n > length src then mfail OutOfBounds
         else
           mbind (sr (storage_rq SET_FRU_DATA ([fid, ucast pos, ucast (drop_bit 8 pos)] @ take n (drop (soffset + off) src)))) (\<lambda>rsp.
           case rsp of
             None \<Rightarrow> mret (of_bool (doffset + off \<ge> unat finish), rqst)
           | Some r \<Rightarrow>
               let rqst = (if too_many_bytes (r_ccode r) then rqst - 1 else rqst)
               in if r_ccode r > 0 then mret (of_bool (doffset + off \<ge> unat finish), rqst)
                  else if doffset + (off + n) < unat finish then write_fru_loop sr fru fid finish soffset doffset src (off + n) rqst
                  else mret (1, rqst)))"
  by pat_completeness auto
termination
proof (relation "measure (\<lambda>(sr, fru, fid, finish, soffset, doffset, src, off, rqst). unat finish - (doffset + off))", goal_cases)
  case 1
  show ?case by simp
next
  case (2 sr fru fid finish soffset doffset src off rqst pos left n rsp r rqst')
  then have lt: "doffset + off < unat finish" by simp
  then have "unat (of_nat (doffset + off) :: u16) = doffset + off"
    using unsigned_less [of finish, where 'a = nat] by (simp only: unat_of_nat) simp
  with lt have "unat (finish - of_nat (doffset + off)) = unat finish - (doffset + off)"
    by (metis less_imp_le_nat unat_sub word_le_nat_alt)
  with 2 lt show ?case by (auto split: if_splits)
qed

declare write_fru_loop.simps [simp del]

definition write_fru_area ::
  "'s transport \<Rightarrow> fru_info \<Rightarrow> u8 \<Rightarrow> u16 \<Rightarrow> u16 \<Rightarrow> u16 \<Rightarrow> bytes \<Rightarrow> u16 \<Rightarrow> ('s, int \<times> u16) machine" where
  "write_fru_area sr fru fid soffset doffset len src rqst =
     (let finish = doffset + len
      in if finish > fru_size fru then mret (-1, rqst)
         else write_fru_loop sr fru fid finish (unat soffset) (unat doffset) src 0
                (if fru_access fru \<and> rqst > 16 then 16 else rqst))"

section \<open>Printing the areas\<close>

text \<open>
  What the three printing functions share: allocate a cleared block, read the length of the area, then the area, then
  print it. \<open>alloc\<close> tells for which sizes \<open>malloc\<close> succeeds.
\<close>

definition print_area ::
  "(nat \<Rightarrow> bool) \<Rightarrow> 's transport \<Rightarrow> fru_info \<Rightarrow> u8 \<Rightarrow> nat \<Rightarrow> u32 \<Rightarrow> (bytes \<Rightarrow> nat \<Rightarrow> fault + string list) \<Rightarrow> ('s, string list \<times> u32) machine" where
  "print_area alloc sr fru fid offset rqst body =
     (if \<not> alloc (unat (fru_size fru) + 1) then mret ([], rqst)
      else
     mbind (read_fru_area sr fru fid (of_nat offset) 2 (replicate (unat (fru_size fru) + 1) 0) rqst) (\<lambda>(rc, fru_data, rqst).
     if rc = 0 \<and> offset + 1 \<ge> length fru_data then mfail OutOfBounds
     else
       let fru_len = (if rc = 0 then 8 * unat (fru_data ! (offset + 1)) else 0)
       in if fru_len = 0 then mret ([], rqst)
          else
            mbind (read_fru_area sr fru fid (of_nat offset) (of_nat fru_len) fru_data rqst) (\<lambda>(rc, fru_data, rqst).
            if rc < 0 then mret ([], rqst)
            else case body fru_data offset of
                   Inl e \<Rightarrow> mfail e
                 | Inr out \<Rightarrow> mret (out, rqst))))"

definition fru_area_print_chassis where
  "fru_area_print_chassis alloc sr fru fid offset rqst = print_area alloc sr fru fid offset rqst (chassis_text alloc)"

definition fru_area_print_board where
  "fru_area_print_board verbose alloc sr fru fid offset rqst = print_area alloc sr fru fid offset rqst (board_text verbose alloc)"

definition fru_area_print_product where
  "fru_area_print_product verbose alloc sr fru fid offset rqst = print_area alloc sr fru fid offset rqst (product_text verbose alloc)"

section \<open>FRU data in files\<close>

text \<open>\<open>struct fru_header\<close>: the version and the offsets of the areas, in units of eight bytes.\<close>

record fru_header =
  h_version :: u8
  h_internal :: u8
  h_chassis :: u8
  h_board :: u8
  h_product :: u8
  h_multi :: u8

definition parse_fru_header :: "bytes \<Rightarrow> fru_header" where
  "parse_fru_header d = \<lparr>h_version = d ! 0, h_internal = d ! 1, h_chassis = d ! 2, h_board = d ! 3, h_product = d ! 4, h_multi = d ! 5\<rparr>"

text \<open>The command that asks for the size of the inventory and the way to access it.\<close>

definition fru_info_of :: "ipmi_rs \<Rightarrow> fru_info" where
  "fru_info_of r = \<lparr>fru_size = push_bit 8 (ucast (r_data r ! 1)) OR ucast (r_data r ! 0), fru_access = (r_data r ! 2 AND 1 \<noteq> 0)\<rparr>"

definition get_fru_info :: "'s transport \<Rightarrow> u8 \<Rightarrow> ('s, fru_info option) machine" where
  "get_fru_info sr fid =
     mbind (sr (storage_rq GET_FRU_INFO [fid])) (\<lambda>rsp.
     mret (case rsp of None \<Rightarrow> None | Some r \<Rightarrow> if r_ccode r > 0 then None else Some (fru_info_of r)))"

text \<open>
  \<open>ipmi_fru_read_to_bin\<close>: what it writes into the file, if it opens it. \<open>mem\<close> is the block that \<open>malloc\<close> returns, of
  the size asked for; what could not be read is left as it was in it. \<open>opened\<close> tells whether \<open>fopen\<close> succeeds.
\<close>

definition ipmi_fru_read_to_bin ::
  "'s transport \<Rightarrow> u8 \<Rightarrow> (nat \<Rightarrow> bytes option) \<Rightarrow> bool \<Rightarrow> u32 \<Rightarrow> ('s, bytes option \<times> u32) machine" where
  "ipmi_fru_read_to_bin sr fid mem opened rqst =
     mbind (get_fru_info sr fid) (\<lambda>info.
     case info of
       None \<Rightarrow> mret (None, rqst)
     | Some fru \<Rightarrow>
         (case mem (unat (fru_size fru)) of
            None \<Rightarrow> mret (None, rqst)
          | Some buf \<Rightarrow>
              mbind (read_fru_area sr fru fid 0 (ucast (fru_size fru)) buf rqst) (\<lambda>(rc, buf, rqst).
              mret (if opened then Some buf else None, rqst))))"

text \<open>\<open>ipmi_fru_write_from_bin\<close>; \<open>file\<close> is the contents of the file, if it can be opened.\<close>

definition ipmi_fru_write_from_bin ::
  "'s transport \<Rightarrow> u8 \<Rightarrow> (nat \<Rightarrow> bytes option) \<Rightarrow> bytes option \<Rightarrow> u16 \<Rightarrow> ('s, u16) machine" where
  "ipmi_fru_write_from_bin sr fid mem file rqst =
     mbind (get_fru_info sr fid) (\<lambda>info.
     case info of
       None \<Rightarrow> mret rqst
     | Some fru \<Rightarrow>
         (case mem (unat (fru_size fru)) of
            None \<Rightarrow> mret rqst
          | Some buf \<Rightarrow>
              (let d = take (unat (fru_size fru)) (case file of None \<Rightarrow> [] | Some d \<Rightarrow> d);
                   len = of_nat (length d) :: u16
               in if len = 0 then mret rqst
                  else mbind (write_fru_area sr fru fid 0 0 len (store_bytes buf 0 d) rqst) (\<lambda>(rc, rqst). mret rqst))))"

text \<open>
  The end of the multi-record area in a header. Each of the four corrections compares an offset with itself, so that
  none of them is ever made.
\<close>

definition multirec_end :: "fru_header \<Rightarrow> u32 \<Rightarrow> u32" where
  "multirec_end h end =
     foldl (\<lambda>e off. let o8 = 8 * ucast off :: u32 in if o8 > o8 \<and> o8 < e then o8 else e) end
       [h_internal h, h_chassis h, h_board h, h_product h]"

text \<open>\<open>ipmi_fru_get_multirec_size_from_file\<close> on the contents of the file: size and offset, None for -1.\<close>

definition ipmi_fru_get_multirec_size_from_file :: "bytes option \<Rightarrow> (u32 \<times> u32) option" where
  "ipmi_fru_get_multirec_size_from_file file =
     (case file of
        None \<Rightarrow> None
      | Some d \<Rightarrow>
          if length d < 8 then None
          else
            let h = parse_fru_header d
            in if h_version h \<noteq> 1 then None
               else Some (multirec_end h (of_nat (length d)) - 8 * ucast (h_multi h), 8 * ucast (h_multi h)))"

text \<open>\<open>ipmi_fru_get_multirec_from_file\<close>: one item of \<open>size\<close> bytes at the offset.\<close>

definition ipmi_fru_get_multirec_from_file :: "bytes option \<Rightarrow> u32 \<Rightarrow> u32 \<Rightarrow> bytes option" where
  "ipmi_fru_get_multirec_from_file file len offset =
     (case file of
        None \<Rightarrow> None
      | Some d \<Rightarrow> if len = 0 \<or> unat offset + unat len > length d then None
                  else Some (take (unat len) (drop (unat offset) d)))"

text \<open>
  \<open>ipmi_fru_get_adjust_size_from_buffer\<close>: the records one after the other, up to the one that is marked as the
  last or whose header has a bad checksum. \<open>count\<close> is a \<open>uint16_t\<close> and all that changes from one round to the next: a
  loop that has not ended after as many rounds as there are values of it never does, which the fuel makes \<open>NoReturn\<close>.
\<close>

definition multirec_sum :: "bytes \<Rightarrow> nat \<Rightarrow> u8" where
  "multirec_sum d count = sum_list (take 5 (drop count d))"

primrec adjust_loop :: "nat \<Rightarrow> bytes \<Rightarrow> u16 \<Rightarrow> fault + u16" where
  "adjust_loop 0 d count = Inl NoReturn"
| "adjust_loop (Suc fuel) d count =
     (if unat count + 5 > length d then Inl OutOfBounds
      else
        let next = count + ucast (d ! (unat count + 2)) + 5
        in if d ! (unat count + 1) AND 0x80 = 0 \<and> multirec_sum d (unat count) = 0 then adjust_loop fuel d next
           else Inr next)"

definition ipmi_fru_get_adjust_size_from_buffer :: "bytes \<Rightarrow> fault + u32" where
  "ipmi_fru_get_adjust_size_from_buffer d =
     (case adjust_loop (2 ^ 16) d 0 of Inl e \<Rightarrow> Inl e | Inr n \<Rightarrow> Inr (ucast n))"

definition ipmi_fru_get_multirec_location_from_fru ::
  "'s transport \<Rightarrow> u8 \<Rightarrow> ('s, (fru_info \<times> u32 \<times> u32) option) machine" where
  "ipmi_fru_get_multirec_location_from_fru sr fid =
     mbind (get_fru_info sr fid) (\<lambda>info.
     case info of
       None \<Rightarrow> mret None
     | Some fru \<Rightarrow>
         if fru_size fru = 0 then mret None
         else
           mbind (sr (storage_rq GET_FRU_DATA [fid, 0, 0, 8])) (\<lambda>rsp.
           mret (case rsp of
              None \<Rightarrow> None
            | Some r \<Rightarrow>
                if r_ccode r > 0 then None
                else
                  let h = parse_fru_header (drop 1 (r_data r))
                  in if h_version h \<noteq> 1 then None
                     else Some (fru, 8 * ucast (h_multi h), multirec_end h (ucast (fru_size fru))))))"

definition ipmi_fru_upg_ekeying ::
  "'s transport \<Rightarrow> u8 \<Rightarrow> bytes option \<Rightarrow> (nat \<Rightarrow> bool) \<Rightarrow> u16 \<Rightarrow> ('s, int \<times> u16) machine" where
  "ipmi_fru_upg_ekeying sr fid file alloc rqst =
     mbind (ipmi_fru_get_multirec_location_from_fru sr fid) (\<lambda>loc.
     case loc of
       None \<Rightarrow> mret (65535, rqst)
     | Some (fru, offFruMultiRec, _) \<Rightarrow>
         (case ipmi_fru_get_multirec_size_from_file file of
            None \<Rightarrow> mret (65535, rqst)
          | Some (fileMultiRecSize, offFileMultiRec) \<Rightarrow>
              if \<not> alloc (unat fileMultiRecSize) then mret (65535, rqst)
              else
                (case ipmi_fru_get_multirec_from_file file fileMultiRecSize offFileMultiRec of
                   None \<Rightarrow> mret (65535, rqst)
                 | Some buf \<Rightarrow>
                     (case ipmi_fru_get_adjust_size_from_buffer buf of
                        Inl e \<Rightarrow> mfail e
                      | Inr n \<Rightarrow>
                          mbind (write_fru_area sr fru fid 0 (ucast offFruMultiRec) (ucast n) buf rqst) (\<lambda>(rc, rqst).
                          mret (0, rqst))))))"

section \<open>Reading over any transport\<close>

lemma length_store_bytes [simp]: "off + length d \<le> length buf \<Longrightarrow> length (store_bytes buf off d) = length buf"
  by (simp add: store_bytes_def)

lemma unat_u8_le: "unat (b :: u8) \<le> 255"
  using unsigned_less [of b, where 'a = nat] by simp

lemma read_request_len [simp]: "length (rq_data (read_request fru fid finish off rqst)) = 4"
  by (simp add: read_request_def Let_def)

text \<open>
  Over a transport that keeps its contract, the loop always ends, and the one thing that can go wrong is a
  count in an answer that leads out of the buffer.
\<close>

definition read_result :: "('s \<Rightarrow> bool) \<Rightarrow> nat \<Rightarrow> fault + (int \<times> bytes \<times> u32) \<times> 's \<Rightarrow> bool" where
  "read_result ok n res \<longleftrightarrow>
     (case res of
        Inl e \<Rightarrow> e = BufferOverflow
      | Inr ((rc, buf, rq), t) \<Rightarrow> ok t \<and> length buf = n \<and> (rc = 0 \<or> rc = -1))"

lemma read_fru_loop_total:
  assumes "\<And>req. length (rq_data req) < 2 ^ 16 \<Longrightarrow> mspec ok (sr req) (\<lambda>r t. ok t \<and> (\<forall>x. r = Some x \<longrightarrow> length (r_data x) = 1024))"
  shows "ok s \<Longrightarrow> read_result ok (length frubuf) (read_fru_loop sr fru fid finish off rqst frubuf s)"
  using assms
proof (induction sr fru fid finish off rqst frubuf arbitrary: s rule: read_fru_loop.induct)
  case (1 sr fru fid finish off rqst frubuf)
  let ?req = "read_request fru fid finish (of_nat off) rqst"
  from mspecD [OF "1.prems"(2) [of ?req] "1.prems"(1)] obtain rsp t
    where sr: "sr ?req s = Inr (rsp, t)" "ok t" "\<And>x. rsp = Some x \<Longrightarrow> length (r_data x) = 1024" by auto
  note step = read_fru_loop.simps [of sr fru fid finish off rqst frubuf]
  show ?case
  proof (cases rsp)
    case None
    with sr show ?thesis by (subst step) (simp add: machine_simps read_result_def)
  next
    case (Some r)
    define n where "n = (if fru_access fru then 2 * unat (r_data r ! 0) else unat (r_data r ! 0))"
    have n: "n \<le> 510" using unat_u8_le [of "r_data r ! 0"] by (simp add: n_def)
    let ?buf = "store_bytes frubuf off (take n (drop 1 (r_data r)))"
    have len: "off + n \<le> length frubuf \<Longrightarrow> length ?buf = length frubuf"
      using n sr(3) [OF Some] by simp
    consider (shrink) "r_ccode r > 0" "too_many_bytes (r_ccode r)" "rqst - 1 > 8" "off < unat finish"
      | (more) "\<not> r_ccode r > 0" "off + n \<le> length frubuf" "n \<noteq> 0" "off + n < unat finish"
      | (stop) "\<not> (r_ccode r > 0 \<and> too_many_bytes (r_ccode r) \<and> rqst - 1 > 8 \<and> off < unat finish)"
          "\<not> (\<not> r_ccode r > 0 \<and> off + n \<le> length frubuf \<and> n \<noteq> 0 \<and> off + n < unat finish)" by blast
    then show ?thesis
    proof cases
      case shrink
      with "1.IH"(1) [OF Some shrink(1,2,3,4) sr(2) "1.prems"(2)] sr Some show ?thesis
        by (subst step) (simp add: machine_simps)
    next
      case more
      then have "read_result ok (length ?buf) (read_fru_loop sr fru fid finish (off + n) rqst ?buf t)"
        using "1.IH"(2) [OF Some more(1) n_def _ refl _ more(4) sr(2) "1.prems"(2)] by auto
      with more sr Some len show ?thesis
        by (subst step) (simp add: machine_simps Let_def n_def [symmetric])
    next
      case stop
      with sr Some len show ?thesis
        by (subst step) (auto simp: machine_simps Let_def n_def [symmetric] read_result_def)
    qed
  qed
qed

context transport
begin

lemma read_fru_area_total:
  assumes "ok s"
  shows "read_result ok (length frubuf) (read_fru_area sr fru fid offset len frubuf rqst s)"
  using read_fru_loop_total [of ok sr, OF sr_spec assms] assms
  by (auto simp: read_fru_area_def Let_def machine_simps read_result_def)

end

end
