(* ===== verification/Fru_Device.thy ===== *)
theory Fru_Device
  imports Fru
begin

text \<open>
  FRU data on a device that does what the specification says: what is read is what the device holds, what is
  written is held afterwards, and both survive a device that refuses long requests.

  \<open>fru_device\<close> states what a byte-access device behind the transport does, with \<open>dev\<close> its contents in a state of the
  transport: it answers a read of at most \<open>maxn\<close> bytes within the inventory with the bytes, refuses a longer one with one of the
  completion codes for that, and performs a write.
\<close>

definition read_rq :: "u8 \<Rightarrow> nat \<Rightarrow> nat \<Rightarrow> ipmi_rq" where
  "read_rq fid off n = storage_rq GET_FRU_DATA [fid, of_nat off, of_nat (off div 256), of_nat n]"

definition write_rq :: "u8 \<Rightarrow> nat \<Rightarrow> bytes \<Rightarrow> ipmi_rq" where
  "write_rq fid off d = storage_rq SET_FRU_DATA ([fid, of_nat off, of_nat (off div 256)] @ d)"

definition fru_device :: "'s transport \<Rightarrow> ('s \<Rightarrow> bytes) \<Rightarrow> u8 \<Rightarrow> nat \<Rightarrow> bool" where
  "fru_device sr dev fid maxn \<longleftrightarrow>
     (\<forall>s off n. off + n \<le> length (dev s) \<and> off < 2 ^ 16 \<and> n < 256 \<longrightarrow>
        (\<exists>r t. sr (read_rq fid off n) s = Inr (Some r, t) \<and> dev t = dev s \<and> length (r_data r) = 1024 \<and>
           (if n \<le> maxn then r_ccode r = 0 \<and> r_data r ! 0 = of_nat n \<and> take n (drop 1 (r_data r)) = take n (drop off (dev s))
            else too_many_bytes (r_ccode r)))) \<and>
     (\<forall>s off d. off + length d \<le> length (dev s) \<and> off < 2 ^ 16 \<and> length d \<le> 16 \<longrightarrow>
        (\<exists>r t. sr (write_rq fid off d) s = Inr (Some r, t) \<and> r_ccode r = 0 \<and> dev t = store_bytes (dev s) off d))"

section \<open>Offsets in requests\<close>

lemma ucast_of_nat32: "(ucast (of_nat off :: u32) :: u8) = of_nat off"
  by (simp add: word_unat_eq_iff unat_of_nat unsigned_ucast_eq take_bit_eq_mod mod_mod_cancel)

lemma ucast_of_nat16: "(ucast (of_nat off :: u16) :: u8) = of_nat off"
  by (simp add: word_unat_eq_iff unat_of_nat unsigned_ucast_eq take_bit_eq_mod mod_mod_cancel)

lemma high_byte32: "off < 2 ^ 16 \<Longrightarrow> (ucast (drop_bit 8 (of_nat off :: u32)) :: u8) = of_nat (off div 256)"
  by (simp add: word_unat_eq_iff unat_of_nat unsigned_ucast_eq take_bit_eq_mod unsigned_drop_bit_eq drop_bit_eq_div unat_div_distrib)

lemma high_byte16: "off < 2 ^ 16 \<Longrightarrow> (ucast (drop_bit 8 (of_nat off :: u16)) :: u8) = of_nat (off div 256)"
  by (simp add: word_unat_eq_iff unat_of_nat unsigned_ucast_eq take_bit_eq_mod unsigned_drop_bit_eq drop_bit_eq_div unat_div_distrib)

section \<open>Reading\<close>

text \<open>What is left to read, or the request size, whichever is less.\<close>

lemma read_request_is:
  assumes "off \<le> unat finish" "unat finish < 2 ^ 16" "unat rqst < 256" "\<not> fru_access fru"
  shows "read_request fru fid finish (of_nat off) rqst = read_rq fid off (min (unat rqst) (unat finish - off))"
proof -
  have o: "unat (of_nat off :: u32) = off" using assms(1,2) by (simp add: unat_of_nat)
  then have d: "unat (finish - of_nat off) = unat finish - off" using assms(1) by (metis unat_sub word_le_nat_alt)
  have "(ucast (if finish - of_nat off > rqst then rqst else finish - of_nat off) :: u8) = of_nat (min (unat rqst) (unat finish - off))"
    using d assms(3) by (auto simp: word_less_nat_alt min_def word_unat_eq_iff unat_of_nat unsigned_ucast_eq take_bit_eq_mod)
  then show ?thesis
    using assms high_byte32 [of off] by (simp add: read_request_def read_rq_def Let_def ucast_of_nat32)
qed

lemma store_bytes_join:
  assumes "off + length d + length e \<le> length buf"
  shows "store_bytes (store_bytes buf off d) (off + length d) e = store_bytes buf off (d @ e)"
  using assms by (cases d) (auto simp: store_bytes_def min_def ac_simps)

lemma take_join: "take n (drop off xs) @ take m (drop (off + n) xs) = take (n + m) (drop off xs)"
  by (simp add: take_add add.commute [of off])

lemma read_fru_loop_reads:
  assumes dev: "fru_device sr dev fid maxn" and acc: "\<not> fru_access fru" and "8 < maxn" "unat finish \<le> length (dev s)" "length (dev s) < 2 ^ 16"
    and "off < unat finish" "unat finish \<le> length frubuf" "0 < unat rqst" "unat rqst < 256" "8 < unat rqst \<or> unat rqst \<le> maxn"
  shows "\<exists>rq t. read_fru_loop sr fru fid finish off rqst frubuf s
      = Inr ((0, store_bytes frubuf off (take (unat finish - off) (drop off (dev s))), rq), t) \<and> dev t = dev s \<and> 0 < unat rq \<and> unat rq \<le> unat rqst"
  using assms
proof (induction sr fru fid finish off rqst frubuf arbitrary: s rule: read_fru_loop.induct)
  case (1 sr fru fid finish off rqst frubuf)
  note step = read_fru_loop.simps [of sr fru fid finish off rqst frubuf]
  define n where "n = min (unat rqst) (unat finish - off)"
  have n: "0 < n" "n < 256" "off + n \<le> unat finish" "off + n \<le> length (dev s)" using "1.prems" by (auto simp: n_def)
  obtain r t where r: "sr (read_rq fid off n) s = Inr (Some r, t)" "dev t = dev s" "length (r_data r) = 1024"
    "if n \<le> maxn then r_ccode r = 0 \<and> r_data r ! 0 = of_nat n \<and> take n (drop 1 (r_data r)) = take n (drop off (dev s)) else too_many_bytes (r_ccode r)"
    using "1.prems"(1) [unfolded fru_device_def, THEN conjunct1, rule_format, of off n s] n(2,4) "1.prems"(5) by auto
  have req: "read_request fru fid finish (of_nat off) rqst = read_rq fid off n"
    using "1.prems" read_request_is [of off finish rqst fru fid] by (simp add: n_def)
  show ?case
  proof (cases "n \<le> maxn")
    case False
    then have big: "too_many_bytes (r_ccode r)" "r_ccode r > 0" using r(4) by (auto simp: too_many_bytes_def)
    have rq: "8 < unat (rqst - 1)" "unat (rqst - 1) = unat rqst - 1"
      using False "1.prems"(3,8,10) by (auto simp: n_def unat_minus_one unat_gt_0 split: if_splits)
    have gt: "8 < rqst - 1" using rq(1) by (simp add: word_less_nat_alt)
    have "\<exists>rq u. read_fru_loop sr fru fid finish off (rqst - 1) frubuf t
        = Inr ((0, store_bytes frubuf off (take (unat finish - off) (drop off (dev t))), rq), u) \<and> dev u = dev t \<and> 0 < unat rq \<and> unat rq \<le> unat (rqst - 1)"
      using "1.prems" r(2) rq by (intro "1.IH"(1) [OF refl big(2,1) gt "1.prems"(6)]) auto
    then show ?thesis
      using r big gt rq "1.prems"(6) by (subst step) (auto simp: machine_simps req)
  next
    case True
    with r(4) have ok: "r_ccode r = 0" "unat (r_data r ! 0) = n" "take n (drop 1 (r_data r)) = take n (drop off (dev s))"
      using n(2) by (auto simp: unat_of_nat)
    let ?buf = "store_bytes frubuf off (take n (drop off (dev s)))"
    have lb: "length ?buf = length frubuf" using n "1.prems"(7) by simp
    show ?thesis
    proof (cases "off + n < unat finish")
      case False
      then have "n = unat finish - off" using n by simp
      with r ok "1.prems"(2,7,8) n False show ?thesis
        by (subst step) (auto simp: machine_simps req)
    next
      case True
      have "\<exists>rq u. read_fru_loop sr fru fid finish (off + n) rqst ?buf t
          = Inr ((0, store_bytes ?buf (off + n) (take (unat finish - (off + n)) (drop (off + n) (dev t))), rq), u) \<and> dev u = dev t \<and> 0 < unat rq \<and> unat rq \<le> unat rqst"
        using "1.prems" r(2) True n ok lb
        by (intro "1.IH"(2) [OF refl, of r n ?buf]) auto
      moreover have "store_bytes ?buf (off + n) (take (unat finish - (off + n)) (drop (off + n) (dev s)))
          = store_bytes frubuf off (take (unat finish - off) (drop off (dev s)))"
      proof -
        have "length (take n (drop off (dev s))) = n" using n by simp
        with store_bytes_join [of off "take n (drop off (dev s))" "take (unat finish - (off + n)) (drop (off + n) (dev s))" frubuf]
          take_join [of n off "dev s" "unat finish - (off + n)"] True "1.prems"(4,7)
        show ?thesis by (simp add: Suc_diff_le)
      qed
      ultimately show ?thesis
        using r ok "1.prems"(2,7) True n by (subst step) (auto simp: machine_simps req)
    qed
  qed
qed

lemma read_fru_area_reads:
  assumes "fru_device sr dev fid maxn" "\<not> fru_access fru" "8 < maxn" "unat (fru_size fru) = length (dev s)"
    and "unat offset < length (dev s)" "0 < unat len" "unat offset + unat len \<le> length frubuf" "unat offset + unat len < 2 ^ 32"
    and "length (dev s) \<le> length frubuf" "0 < unat rqst" "unat rqst < 256" "8 < unat rqst \<or> unat rqst \<le> maxn"
  shows "\<exists>rq t. read_fru_area sr fru fid offset len frubuf rqst s
      = Inr ((0, store_bytes frubuf (unat offset) (take (unat len) (drop (unat offset) (dev s))), rq), t) \<and> dev t = dev s \<and> 0 < unat rq \<and> unat rq \<le> unat rqst"
proof -
  have l: "length (dev s) < 2 ^ 16" using unsigned_less [of "fru_size fru", where 'a = nat] assms(4) by simp
  have sz: "unat (ucast (fru_size fru) :: u32) = length (dev s)" using assms(4) l by (simp add: unsigned_ucast_eq take_bit_nat_eq_self)
  have sum: "unat (offset + len) = unat offset + unat len" using assms(8) by (simp add: unat_word_ariths)
  define finish where "finish = (if offset + len > ucast (fru_size fru) then ucast (fru_size fru) else offset + len)"
  have f: "unat finish = min (length (dev s)) (unat offset + unat len)"
    using sz sum by (auto simp: finish_def word_less_nat_alt min_def)
  have "take (unat finish - unat offset) (drop (unat offset) (dev s)) = take (unat len) (drop (unat offset) (dev s))"
    using f assms(5) by (auto simp: min_def)
  moreover have "read_fru_area sr fru fid offset len frubuf rqst s = read_fru_loop sr fru fid finish (unat offset) rqst frubuf s"
    using assms(2,5) sz unfolding read_fru_area_def Let_def finish_def [symmetric] by (simp add: word_less_nat_alt)
  ultimately show ?thesis
    using read_fru_loop_reads [OF assms(1,2,3), of finish s "unat offset" frubuf rqst] f l assms(5,6,7,9-12) by simp
qed

section \<open>Writing\<close>

lemma write_fru_loop_writes:
  assumes "fru_device sr dev fid maxn" "\<not> fru_access fru" "unat finish \<le> length (dev s)" "length (dev s) < 2 ^ 16"
    and "doffset + off < unat finish" "soffset + (unat finish - doffset) \<le> length src"
  shows "\<exists>rq t. write_fru_loop sr fru fid finish soffset doffset src off rqst s = Inr ((1, rq), t)
    \<and> dev t = store_bytes (dev s) (doffset + off) (take (unat finish - (doffset + off)) (drop (soffset + off) src))"
  using assms
proof (induction sr fru fid finish soffset doffset src off rqst arbitrary: s rule: write_fru_loop.induct)
  case (1 sr fru fid finish soffset doffset src off rqst)
  define p where "p = doffset + off"
  note step = write_fru_loop.simps [of sr fru fid finish soffset doffset src off rqst, folded p_def]
  have p: "p < unat finish" "p < 2 ^ 16" using "1.prems" by (auto simp: p_def)
  have o: "unat (of_nat p :: u16) = p" using p by (simp add: unat_of_nat)
  have left: "unat (finish - of_nat p) = unat finish - p"
    using o p(1) by (metis less_imp_le_nat unat_sub word_le_nat_alt)
  define n where "n = min 16 (unat finish - p)"
  define d where "d = take n (drop (soffset + off) src)"
  have n: "0 < n" "n \<le> 16" "p + n \<le> unat finish" using p by (auto simp: n_def)
  then have d: "length d = n" "soffset + off + n \<le> length src" using "1.prems"(5,6) by (auto simp: d_def p_def)
  have "p + length d \<le> length (dev s) \<and> p < 2 ^ 16 \<and> length d \<le> 16" using n d p "1.prems"(3) by simp
  from "1.prems"(1) [unfolded fru_device_def, THEN conjunct2, rule_format, OF this] obtain r t
    where r: "sr (write_rq fid p d) s = Inr (Some r, t)" "r_ccode r = 0" "dev t = store_bytes (dev s) p d" by blast
  have req: "storage_rq SET_FRU_DATA (fid # ucast (of_nat p :: u16) # ucast (drop_bit 8 (of_nat p :: u16)) # d) = write_rq fid p d"
    using high_byte16 [OF p(2)] by (simp add: write_rq_def ucast_of_nat16)
  have nn: "(if 16 < unat finish - p then 16 else unat finish - p) = n" by (auto simp: n_def)
  have nn2: "n = (if 16 < unat (finish - of_nat (doffset + off)) then 16 else unat (finish - of_nat (doffset + off)))"
    unfolding p_def [symmetric] left by (rule nn [symmetric])
  have eq: "write_fru_loop sr fru fid finish soffset doffset src off rqst s =
      (if doffset + (off + n) < unat finish then write_fru_loop sr fru fid finish soffset doffset src (off + n) rqst t else Inr ((1, rqst), t))"
    using r "1.prems"(2) d(2)
    by (subst step) (simp only: Let_def left nn d_def [symmetric] if_False, simp add: machine_simps req too_many_bytes_def)
  have fold: "take (unat finish - p) (drop (soffset + off) src) = d @ take (unat finish - (p + n)) (drop (soffset + (off + n)) src)"
    using take_join [of n "soffset + off" src "unat finish - (p + n)"] n(3) by (simp add: d_def add.assoc)
  show ?case
  proof (cases "p + n < unat finish")
    case False
    with eq fold r(3) show ?thesis by (simp add: p_def)
  next
    case True
    let ?e = "take (unat finish - (p + n)) (drop (soffset + (off + n)) src)"
    have rq: "rqst = (if too_many_bytes (r_ccode r) then rqst - 1 else rqst)" using r(2) by (simp add: too_many_bytes_def)
    have ld: "length (dev t) = length (dev s)" using r(3) d n(3) "1.prems"(3) by simp
    have "\<exists>rq u. write_fru_loop sr fru fid finish soffset doffset src (off + n) rqst t = Inr ((1, rq), u)
        \<and> dev u = store_bytes (dev t) (doffset + (off + n)) (take (unat finish - (doffset + (off + n))) (drop (soffset + (off + n)) src))"
      using "1.prems" True ld d(2) r(2) rq
      by (intro "1.IH" [OF refl refl nn2 _ refl rq]) (auto simp: p_def too_many_bytes_def)
    moreover have "store_bytes (dev t) (p + n) ?e = store_bytes (dev s) p (d @ ?e)"
      using store_bytes_join [of p d ?e "dev s"] d r(3) True "1.prems"(3) by simp
    ultimately show ?thesis using eq True fold by (auto simp: p_def add.assoc)
  qed
qed

section \<open>Properties\<close>

text \<open>
  C33. Reading FRU data is exact on devices that are accessed by bytes. From such a device that follows the specification, even one that refuses requests of more than
  \<open>maxn\<close> bytes (nine or more), \<open>read_fru_area\<close> returns 0 and puts exactly the bytes of the device at their offsets in the buffer, up to the end of
  the inventory, and nothing else; the request size it keeps for later only falls.
  Devices accessed by words are left out (\<open>\<not> fru_access\<close>): there the loop copies twice the bytes it counts, and
  \<open>word_access_overruns\<close> below shows it leaving the buffer.
\<close>

theorem fru_read_is_exact:
  assumes "fru_device sr dev fid maxn" "\<not> fru_access fru" "8 < maxn" "unat (fru_size fru) = length (dev s)"
    and "unat offset < length (dev s)" "0 < unat len" "unat offset + unat len \<le> length frubuf" "unat offset + unat len < 2 ^ 32"
    and "length (dev s) \<le> length frubuf" "8 < unat rqst" "unat rqst < 256"
  shows "\<exists>rq t. read_fru_area sr fru fid offset len frubuf rqst s
      = Inr ((0, store_bytes frubuf (unat offset) (take (unat len) (drop (unat offset) (dev s))), rq), t) \<and> dev t = dev s \<and> 0 < unat rq \<and> unat rq \<le> unat rqst"
  using assms by (intro read_fru_area_reads) auto

text \<open>A device as a transport whose state is its contents.\<close>

definition fru_bmc :: "nat \<Rightarrow> bytes transport" where
  "fru_bmc maxn req dev =
     (let q = rq_data req; off = unat (q ! 1) + 256 * unat (q ! 2)
      in if rq_cmd req = GET_FRU_DATA then
           (if unat (q ! 3) \<le> maxn then Inr (Some (answer 0 ((q ! 3) # take (unat (q ! 3)) (drop off dev))), dev)
            else Inr (Some (answer 0xca []), dev))
         else Inr (Some (answer 0 []), store_bytes dev off (drop 3 q)))"

lemma offset_bytes: "off < 2 ^ 16 \<Longrightarrow> unat (of_nat off :: u8) + 256 * unat (of_nat (off div 256) :: u8) = off"
  by (simp add: unat_of_nat)

lemma fru_bmc_device: "fru_device (fru_bmc maxn) (\<lambda>d. d) fid maxn"
proof -
  have r: "fru_bmc maxn (read_rq fid off n) s = (if n \<le> maxn then Inr (Some (answer 0 (of_nat n # take n (drop off s))), s) else Inr (Some (answer 0xca []), s))"
    if "off < 2 ^ 16" "n < 256" for off n s
    using that offset_bytes [of off] by (simp add: fru_bmc_def read_rq_def storage_rq_def ipmi_request_def Let_def unat_of_nat)
  have w: "fru_bmc maxn (write_rq fid off d) s = Inr (Some (answer 0 []), store_bytes s off d)" if "off < 2 ^ 16" for off d s
    using that offset_bytes [of off] by (simp add: fru_bmc_def write_rq_def storage_rq_def ipmi_request_def Let_def)
  show ?thesis
    unfolding fru_device_def by (auto simp: r w answer_def too_many_bytes_def)
qed

definition byte_fru :: "nat \<Rightarrow> fru_info" where
  "byte_fru n = \<lparr>fru_size = of_nat n, fru_access = False\<rparr>"

theorem fru_read_is_exact_witness:
  "\<exists>rq t. read_fru_area (fru_bmc 9) (byte_fru 30) 0 4 20 (replicate 31 0) 20 (map of_nat [0..<30])
      = Inr ((0, store_bytes (replicate 31 0) (unat (4 :: u32)) (take (unat (20 :: u32)) (drop (unat (4 :: u32)) (map of_nat [0..<30]))), rq), t)
        \<and> t = map of_nat [0..<30] \<and> 0 < unat rq \<and> unat rq \<le> unat (20 :: u32)"
  by (rule fru_read_is_exact [OF fru_bmc_device [of 9]]) (simp_all add: byte_fru_def)

text \<open>
  C34. On devices accessed by bytes, what is written is read back: after \<open>write_fru_area\<close> of a block within the inventory of such a device that follows the specification,
  which returns 1, \<open>read_fru_area\<close> of the same range returns 0 and delivers the bytes that were written, whatever was in the device
  and in the buffer before. Devices accessed by words are left out, as for reading.
\<close>

theorem fru_write_read_back:
  assumes "fru_device sr dev fid maxn" "\<not> fru_access fru" "8 < maxn" "unat (fru_size fru) = length (dev s)"
    and "0 < length src" "unat doffset + length src \<le> length (dev s)"
    and "length (dev s) \<le> length frubuf" "8 < unat rqst" "unat rqst < 256"
  shows "\<exists>wq t rq u. write_fru_area sr fru fid 0 doffset (of_nat (length src)) src wrqst s = Inr ((1, wq), t)
    \<and> dev t = store_bytes (dev s) (unat doffset) src
    \<and> read_fru_area sr fru fid (ucast doffset) (of_nat (length src)) frubuf rqst t
        = Inr ((0, store_bytes frubuf (unat doffset) src, rq), u) \<and> dev u = dev t"
proof -
  have l: "length (dev s) < 2 ^ 16" using unsigned_less [of "fru_size fru", where 'a = nat] assms(4) by simp
  have n: "unat (of_nat (length src) :: u16) = length src" "unat (of_nat (length src) :: u32) = length src"
    using l assms(6) by (simp_all add: unat_of_nat)
  have f: "unat (doffset + of_nat (length src)) = unat doffset + length src"
    using n(1) l assms(6) by (simp add: unat_word_ariths)
  have o: "unat (ucast doffset :: u32) = unat doffset" using l assms(6) by (simp add: unsigned_ucast_eq take_bit_nat_eq_self)
  have "\<not> fru_size fru < doffset + of_nat (length src)" using f assms(4,6) by (simp add: word_less_nat_alt)
  then obtain wq t where w: "write_fru_area sr fru fid 0 doffset (of_nat (length src)) src wrqst s = Inr ((1, wq), t)"
    and t: "dev t = store_bytes (dev s) (unat doffset) src"
    using write_fru_loop_writes [OF assms(1,2), of "doffset + of_nat (length src)" s "unat doffset" 0 0 src wrqst] f l assms(2,5,6)
    by (auto simp: write_fru_area_def)
  have dl: "unat doffset < length (dev s)" using assms(5,6) by linarith
  have lt: "length (dev t) = length (dev s)" using t assms(6) by simp
  have d: "take (length src) (drop (unat doffset) (dev t)) = src" using t assms(6) by (simp add: store_bytes_def)
  have "\<exists>rq u. read_fru_area sr fru fid (ucast doffset) (of_nat (length src)) frubuf rqst t
      = Inr ((0, store_bytes frubuf (unat (ucast doffset :: u32)) (take (unat (of_nat (length src) :: u32)) (drop (unat (ucast doffset :: u32)) (dev t))), rq), u)
        \<and> dev u = dev t \<and> 0 < unat rq \<and> unat rq \<le> unat rqst"
    using assms lt n o l dl by (intro read_fru_area_reads) auto
  with w t d n(2) o show ?thesis by auto
qed

theorem fru_write_read_back_witness:
  "\<exists>wq t rq u. write_fru_area (fru_bmc 9) (byte_fru 30) 0 0 4 (of_nat (length [1, 2, 3 :: u8])) [1, 2, 3] 32 (replicate 30 0) = Inr ((1, wq), t)
    \<and> t = store_bytes (replicate 30 0) (unat (4 :: u16)) [1, 2, 3]
    \<and> read_fru_area (fru_bmc 9) (byte_fru 30) 0 (ucast (4 :: u16)) (of_nat (length [1, 2, 3 :: u8])) (replicate 31 0) 20 t
        = Inr ((0, store_bytes (replicate 31 0) (unat (4 :: u16)) [1, 2, 3], rq), u) \<and> u = t"
  by (rule fru_write_read_back [OF fru_bmc_device [of 9]]) (simp_all add: byte_fru_def)

text \<open>
  Over the LAN interface, whatever the network and the BMC answer, reading FRU data ends and leaves the interface in a safe
  state, with the buffer at its size and the result 0 or -1, unless an answer carries a count that leads out of the buffer, which the
  code does not check.
\<close>

theorem fru_read_over_lan_ends:
  assumes "lan_safe s"
  shows "read_result lan_safe (length frubuf) (read_fru_area ipmi_lan_send_cmd fru fid offset len frubuf rqst s)"
  using assms by (rule lan_cmd.read_fru_area_total)

theorem fru_read_over_lan_ends_witness:
  "read_result lan_safe 41 (read_fru_area ipmi_lan_send_cmd (byte_fru 40) 0 0 8 (replicate 41 0) 20 open_lan)"
  using fru_read_over_lan_ends [of open_lan "replicate 41 0" "byte_fru 40" 0 0 8 20] open_lan_safe [of "l_sends open_lan"] by simp

text \<open>
  A device with word access that returns as many words as it was asked for makes the code leave its buffer: the request asks for the number of
  bytes that are left, the answer counts words.
\<close>

definition word_bmc :: "bytes transport" where
  "word_bmc req dev =
     (let n = rq_data req ! 3; off = 2 * unat (rq_data req ! 1)
      in Inr (Some (answer 0 (n # take (2 * unat n) (drop off dev) @ replicate (2 * unat n) 0)), dev))"

theorem word_access_overruns:
  "read_fru_area word_bmc \<lparr>fru_size = 40, fru_access = True\<rparr> 0 0 40 (replicate 41 0) 20 (replicate 40 7) = Inl BufferOverflow"
  by code_simp

end
