(* ===== verification/Hogs.thy ===== *)
theory Hogs
  imports Libc
begin

text \<open>
  The load generators: \<open>memhog/memhog.c\<close> and its variants \<open>memhog0.c\<close> (one worker at a time),
  \<open>memhogS.c\<close> (no worker) and \<open>memhogF.c\<close> (forked copies), and \<open>iohog/iohog.c\<close>.

  A run of a program is the list of what it does, in order (\<open>hog_ev\<close>, \<open>file_op\<close>); what the system
  answers (whether \<open>malloc\<close> succeeds, the contents of \<open>/proc/<pid>/status\<close>, the values a worker sees in
  its flag) are arguments. Arguments of a command line are strings without a NUL; \<open>argv[argc]\<close> is a
  null pointer. A \<open>size_t\<close> is a 64-bit word, a signed multiplication wraps.
\<close>

section \<open>Command line\<close>

text \<open>\<open>convert_kb\<close> of \<open>iohog.c\<close>, and the same chain of tests in every \<open>memhog\<close>.\<close>

definition convert_kb :: "string \<Rightarrow> u64" where
  "convert_kb s =
     (let v = of_int (atoi s) :: u64
      in if has_chr s CHR ''k'' then v * 1000
         else if has_chr s CHR ''K'' then v * 1024
         else if has_chr s CHR ''m'' then v * (1000 * 1000)
         else if has_chr s CHR ''M'' then v * (1024 * 1024)
         else if has_chr s CHR ''g'' then v * (1000 * 1000 * 1000)
         else if has_chr s CHR ''G'' then v * (1024 * 1024 * 1024)
         else v)"

definition convert_delay :: "string \<Rightarrow> int" where
  "convert_delay s =
     (if has_chr s CHR ''m'' then to_int32 (atoi s * 60)
      else if has_chr s CHR ''h'' then to_int32 (atoi s * (60 * 60))
      else atoi s)"

text \<open>\<open>delay[argv[i][2] - '0'] = ...\<close> on an array of three.\<close>

definition set_delay :: "string \<Rightarrow> string \<Rightarrow> int list \<Rightarrow> fault + int list" where
  "set_delay arg val delay =
     (let j = int (of_char (chr_at arg 2)) - 48
      in if j < 0 \<or> j \<ge> int (length delay) then Inl OutOfBounds
         else Inr (delay[nat j := convert_delay val]))"

record hog_opts =
  ho_sz :: u64
  ho_spk :: u64
  ho_delay :: "int list"
  ho_forks :: int

definition hog_defaults :: hog_opts where
  "hog_defaults = \<lparr>ho_sz = 1000, ho_spk = 0, ho_delay = [1, 1, 1], ho_forks = 1\<rparr>"

text \<open>
  The loop over \<open>argv\<close> in \<open>main\<close>, from \<open>argv[i]\<close> on; \<open>forks\<close> tells \<open>memhogF\<close>, which knows
  \<open>-f\<close>. An option that takes a value uses the next argument and skips it.
\<close>

fun memhog_args :: "bool \<Rightarrow> string list \<Rightarrow> hog_opts \<Rightarrow> fault + hog_opts" where
  "memhog_args forks [] opts = Inr opts"
| "memhog_args forks [a] opts =
     (if chr_at a 0 = CHR ''-'' \<and>
         (chr_at a 1 = CHR ''m'' \<or> chr_at a 1 = CHR ''s'' \<or> chr_at a 1 = CHR ''d'' \<or> (forks \<and> chr_at a 1 = CHR ''f''))
      then Inl NullPointer else Inr opts)"
| "memhog_args forks (a # v # rest) opts =
     (if chr_at a 0 \<noteq> CHR ''-'' then memhog_args forks (v # rest) opts
      else if chr_at a 1 = CHR ''m'' then memhog_args forks rest (opts\<lparr>ho_sz := convert_kb v\<rparr>)
      else if chr_at a 1 = CHR ''s'' then memhog_args forks rest (opts\<lparr>ho_spk := convert_kb v\<rparr>)
      else if forks \<and> chr_at a 1 = CHR ''f'' then memhog_args forks rest (opts\<lparr>ho_forks := atoi v\<rparr>)
      else if chr_at a 1 = CHR ''d'' then
        (case set_delay a v (ho_delay opts) of
           Inl e \<Rightarrow> Inl e
         | Inr d \<Rightarrow> memhog_args forks rest (opts\<lparr>ho_delay := d\<rparr>))
      else memhog_args forks (v # rest) opts)"

section \<open>The worker\<close>

text \<open>
  \<open>work\<close> runs over the first \<open>wk->sz\<close> bytes, an \<open>int\<close> that \<open>main\<close> fills from a \<open>size_t\<close>. The worker reads
  the flag after each round; \<open>flags\<close> are the values it sees.
\<close>

definition wk_size :: "u64 \<Rightarrow> int" where
  "wk_size sz = to_int32 (uint sz)"

function work_pass :: "(u8 \<Rightarrow> u8) \<Rightarrow> int \<Rightarrow> int \<Rightarrow> bytes \<Rightarrow> fault + bytes" where
  "work_pass f i sz buf =
     (if i < sz then
        (if i < 0 \<or> i \<ge> int (length buf) then Inl OutOfBounds
         else work_pass f (i + 1) sz (buf[nat i := f (buf ! nat i)]))
      else Inr buf)"
  by pat_completeness auto
termination by (relation "measure (\<lambda>(f, i, sz, buf). nat (sz - i))") auto

declare work_pass.simps [simp del]

fun work :: "bool list \<Rightarrow> int \<Rightarrow> bytes \<Rightarrow> fault + bytes" where
  "work [] sz buf = Inl NoReturn"
| "work (flag # flags) sz buf =
     (case work_pass (\<lambda>b. b + 1) 0 sz buf of
        Inl e \<Rightarrow> Inl e
      | Inr buf1 \<Rightarrow>
          (case work_pass (\<lambda>b. b - 1) 0 sz buf1 of
             Inl e \<Rightarrow> Inl e
           | Inr buf2 \<Rightarrow> if flag then Inr buf2 else work flags sz buf2))"

section \<open>Memory statistics\<close>

text \<open>\<open>mem_used\<close>: the lines of \<open>/proc/<pid>/status\<close> that it prints, or None when it cannot open the file.\<close>

definition is_vm :: "string \<Rightarrow> bool" where
  "is_vm buf \<longleftrightarrow> chr_at buf 0 = CHR ''V'' \<and> chr_at buf 1 = CHR ''m''"

function mem_used_loop :: "string \<Rightarrow> bool \<Rightarrow> string \<Rightarrow> string list" where
  "mem_used_loop buf eof rest =
     (if eof then []
      else (if is_vm buf then [buf] else []) @
           (case fgets 1024 rest of (l, rest', eof') \<Rightarrow>
              mem_used_loop (case l of None \<Rightarrow> buf | Some b \<Rightarrow> b) eof' rest'))"
  by pat_completeness auto
termination
  by (relation "measure (\<lambda>(buf, eof, rest). if eof then 0 else Suc (length rest))")
    (auto simp: fgets_def dest: get_line_less split: if_splits prod.splits)

declare mem_used_loop.simps [simp del]

definition mem_used :: "string option \<Rightarrow> string list option" where
  "mem_used status =
     (case status of None \<Rightarrow> None
      | Some s \<Rightarrow> Some (case fgets 1024 s of (l, rest, eof) \<Rightarrow>
          mem_used_loop (case l of None \<Rightarrow> [] | Some b \<Rightarrow> b) eof rest))"

section \<open>Runs of the memory hogs\<close>

datatype buf_id = MainBuf | SpikeBuf

datatype hog_ev =
    MemUsed | Malloc buf_id u64 | Start buf_id int | SleepFor int | Stop buf_id | Join buf_id | Free buf_id
  | Fork | WaitPid | Exit int

text \<open>
  \<open>main\<close> of \<open>memhog.c\<close> after the command line: \<open>ok1\<close> and \<open>ok2\<close> tell whether the two calls of \<open>malloc\<close>
  succeed. \<open>Start\<close> is \<open>pthread_create\<close> with the worker's size, \<open>Stop\<close> sets its flag.
\<close>

definition memhog_main :: "hog_opts \<Rightarrow> bool \<Rightarrow> bool \<Rightarrow> hog_ev list" where
  "memhog_main opts ok1 ok2 =
     [MemUsed] @
     (if \<not> ok1 then [Exit (-1)]
      else [Malloc MainBuf (ho_sz opts), MemUsed, Start MainBuf (wk_size (ho_sz opts)), SleepFor (ho_delay opts ! 0)] @
        (if \<not> ok2 then [Exit (-2)]
         else [Malloc SpikeBuf (ho_spk opts), MemUsed, Start SpikeBuf (wk_size (ho_spk opts)), SleepFor (ho_delay opts ! 1),
               Stop SpikeBuf, Join SpikeBuf, Free SpikeBuf, MemUsed, SleepFor (ho_delay opts ! 2),
               Stop MainBuf, Join MainBuf, Free MainBuf, MemUsed, Exit 0]))"

text \<open>\<open>memhog0.c\<close>: the worker is stopped before the spike, runs on the spike, and then again.\<close>

definition memhog0_main :: "hog_opts \<Rightarrow> bool \<Rightarrow> bool \<Rightarrow> hog_ev list" where
  "memhog0_main opts ok1 ok2 =
     [MemUsed] @
     (if \<not> ok1 then [Exit (-1)]
      else [Malloc MainBuf (ho_sz opts), MemUsed, Start MainBuf (wk_size (ho_sz opts)), SleepFor (ho_delay opts ! 0),
            Stop MainBuf, Join MainBuf] @
        (if \<not> ok2 then [Exit (-2)]
         else [Malloc SpikeBuf (ho_spk opts), MemUsed, Start SpikeBuf (wk_size (ho_spk opts)), SleepFor (ho_delay opts ! 1),
               Stop SpikeBuf, Join SpikeBuf, Free SpikeBuf, MemUsed,
               Start MainBuf (wk_size (ho_sz opts)), SleepFor (ho_delay opts ! 2),
               Stop MainBuf, Join MainBuf, Free MainBuf, MemUsed, Exit 0]))"

text \<open>\<open>memhogS.c\<close>: no worker.\<close>

definition memhogS_main :: "hog_opts \<Rightarrow> bool \<Rightarrow> bool \<Rightarrow> hog_ev list" where
  "memhogS_main opts ok1 ok2 =
     [MemUsed] @
     (if \<not> ok1 then [Exit (-1)]
      else [Malloc MainBuf (ho_sz opts), MemUsed, SleepFor (ho_delay opts ! 0)] @
        (if \<not> ok2 then [Exit (-2)]
         else [Malloc SpikeBuf (ho_spk opts), MemUsed, SleepFor (ho_delay opts ! 1), Free SpikeBuf, MemUsed,
               SleepFor (ho_delay opts ! 2), Free MainBuf, MemUsed, Exit 0]))"

text \<open>
  \<open>memhogF.c\<close>: \<open>fork\<close> up to \<open>num_forks\<close> times, each time stopping in the child; \<open>pids\<close> are the values
  that \<open>fork\<close> returns in this process. The last one decides whether it waits at the end; without a fork the
  variable is uninitialised, here zero.
\<close>

fun fork_loop :: "nat \<Rightarrow> int list \<Rightarrow> int \<Rightarrow> hog_ev list \<times> int" where
  "fork_loop 0 pids pid = ([], pid)"
| "fork_loop (Suc n) pids pid =
     (let p = script_hd 1 pids
      in if p = 0 then ([Fork], 0)
         else (case fork_loop n (tl pids) p of (ev, q) \<Rightarrow> (Fork # ev, q)))"

definition memhogF_main :: "hog_opts \<Rightarrow> int list \<Rightarrow> bool \<Rightarrow> bool \<Rightarrow> hog_ev list" where
  "memhogF_main opts pids ok1 ok2 =
     (case fork_loop (nat (ho_forks opts)) pids 0 of (ev, pid) \<Rightarrow>
        ev @ [MemUsed] @
        (if \<not> ok1 then [Exit (-1)]
         else [Malloc MainBuf (ho_sz opts), MemUsed, SleepFor (ho_delay opts ! 0)] @
           (if \<not> ok2 then [Exit (-2)]
            else [Malloc SpikeBuf (ho_spk opts), MemUsed, SleepFor (ho_delay opts ! 1), Free SpikeBuf, MemUsed,
                  SleepFor (ho_delay opts ! 2), Free MainBuf, MemUsed]
                 @ (if pid \<noteq> 0 then [WaitPid] else []) @ [Exit 0])))"

section \<open>iohog\<close>

text \<open>The global variables of \<open>iohog.c\<close>.\<close>

record iohog =
  run_type :: int
  NumRec :: u64
  RecSize :: u64
  Delay :: "int list"
  Fname :: "string option"
  DoSync :: int

definition iohog_init :: iohog where
  "iohog_init = \<lparr>run_type = 0, NumRec = 100, RecSize = 1000, Delay = [1, 1, 1], Fname = Some ''default.dat'', DoSync = 0\<rparr>"

fun parse_cmdline :: "string list \<Rightarrow> iohog \<Rightarrow> fault + iohog" where
  "parse_cmdline [] g = Inr g"
| "parse_cmdline (a # rest) g =
     (if chr_at a 0 \<noteq> CHR ''-'' then parse_cmdline rest g
      else if chr_at a 1 \<in> {CHR ''r'', CHR ''n'', CHR ''d'', CHR ''f''} then
        (case rest of
           [] \<Rightarrow> if chr_at a 1 = CHR ''f'' then Inr (g\<lparr>Fname := None\<rparr>) else Inl NullPointer
         | v # rest' \<Rightarrow>
             if chr_at a 1 = CHR ''r'' then parse_cmdline rest' (g\<lparr>RecSize := convert_kb v\<rparr>)
             else if chr_at a 1 = CHR ''n'' then parse_cmdline rest' (g\<lparr>NumRec := convert_kb v\<rparr>)
             else if chr_at a 1 = CHR ''f'' then parse_cmdline rest' (g\<lparr>Fname := Some v\<rparr>)
             else (case set_delay a v (Delay g) of
                     Inl e \<Rightarrow> Inl e
                   | Inr d \<Rightarrow> parse_cmdline rest' (g\<lparr>Delay := d\<rparr>)))
      else if chr_at a 1 = CHR ''O'' then parse_cmdline rest (g\<lparr>run_type := 1\<rparr>)
      else if chr_at a 1 = CHR ''S'' then parse_cmdline rest (g\<lparr>DoSync := 1\<rparr>)
      else if chr_at a 1 = CHR ''F'' then parse_cmdline rest (g\<lparr>DoSync := 2\<rparr>)
      else parse_cmdline rest g)"

text \<open>The loop that fills the record with \<open>'x'\<close>, up to \<open>RecSize - 1\<close>, and the final NUL.\<close>

function fill_loop :: "nat \<Rightarrow> nat \<Rightarrow> bytes \<Rightarrow> fault + nat \<times> bytes" where
  "fill_loop i lim buf =
     (if i < lim then
        (if i \<ge> length buf then Inl BufferOverflow
         else if i + 1 = 2 ^ 31 then Inl IntOverflow
         else fill_loop (i + 1) lim (buf[i := 0x78]))
      else Inr (i, buf))"
  by pat_completeness auto
termination by (relation "measure (\<lambda>(i, lim, buf). lim - i)") auto

declare fill_loop.simps [simp del]

definition fill_record :: "u64 \<Rightarrow> bytes \<Rightarrow> fault + bytes" where
  "fill_record recsize buf =
     (case fill_loop 0 (unat (recsize - 1)) buf of
        Inl e \<Rightarrow> Inl e
      | Inr (i, b) \<Rightarrow> if i \<ge> length b then Inl BufferOverflow else Inr (b[i := 0]))"

text \<open>The output file and the calls of the writing loop.\<close>

record outfile =
  f_data :: bytes
  f_pos :: nat

datatype file_op = Fwrite nat | Fseek0 | Fsync | Fflush | SleepSec int

definition fwrite :: "bytes \<Rightarrow> outfile \<Rightarrow> outfile" where
  "fwrite b f = f\<lparr>f_data := take (f_pos f) (f_data f) @ b @ drop (f_pos f + length b) (f_data f),
     f_pos := f_pos f + length b\<rparr>"

primrec write_loop :: "iohog \<Rightarrow> bytes \<Rightarrow> nat \<Rightarrow> outfile \<Rightarrow> file_op list \<times> outfile" where
  "write_loop g buf 0 f = ([], f)"
| "write_loop g buf (Suc n) f =
     (let f = fwrite buf f;
          f = (if run_type g = 1 then f\<lparr>f_pos := 0\<rparr> else f);
          ev = [Fwrite (length buf)] @ (if run_type g = 1 then [Fseek0] else [])
               @ (if DoSync g = 1 then [Fsync] else if DoSync g = 2 then [Fflush] else [])
               @ [SleepSec (Delay g ! 1)]
      in case write_loop g buf n f of (evs, f) \<Rightarrow> (ev @ evs, f))"

text \<open>
  \<open>main\<close> of \<open>iohog.c\<close>: \<open>opened\<close> tells whether \<open>fopen\<close> succeeds, which the code does not test; \<open>mem\<close> is the
  memory \<open>malloc\<close> returns.
\<close>

definition iohog_main :: "iohog \<Rightarrow> bool \<Rightarrow> bytes option \<Rightarrow> fault + int \<times> file_op list \<times> outfile" where
  "iohog_main g opened mem =
     (if Fname g = None then Inl NullPointer
      else case mem of
        None \<Rightarrow> Inr (-1, [], \<lparr>f_data = [], f_pos = 0\<rparr>)
      | Some buf \<Rightarrow>
          (case fill_record (RecSize g) buf of
             Inl e \<Rightarrow> Inl e
           | Inr rec \<Rightarrow>
               if \<not> opened then Inl NullPointer
               else if 2 ^ 31 < unat (NumRec g) then Inl IntOverflow
               else (case write_loop g rec (unat (NumRec g)) \<lparr>f_data = [], f_pos = 0\<rparr> of
                       (ev, f) \<Rightarrow> Inr (0, SleepSec (Delay g ! 0) # ev, f))))"

section \<open>Properties of sizes and options\<close>

text \<open>The factor of a suffix.\<close>

definition size_unit :: "string \<Rightarrow> nat" where
  "size_unit u = (if u = ''k'' then 1000 else if u = ''K'' then 1024 else if u = ''m'' then 1000000
     else if u = ''M'' then 1048576 else if u = ''g'' then 1000000000 else if u = ''G'' then 1073741824 else 1)"

lemma dec_nat_no_chr: "\<not> is_digit c \<Longrightarrow> \<not> has_chr (dec_nat n) c"
  using dec_nat_digits [of n] by (auto simp: has_chr_def list_all_iff)

lemma has_chr_append: "has_chr (s @ t) c \<longleftrightarrow> has_chr s c \<or> has_chr t c"
  by (auto simp: has_chr_def)

lemma dec_nat_no_unit:
  "c \<in> {CHR ''k'', CHR ''K'', CHR ''m'', CHR ''M'', CHR ''g'', CHR ''G'', CHR ''h''} \<Longrightarrow> \<not> has_chr (dec_nat n) c"
  by (rule dec_nat_no_chr) (auto simp: is_digit_def Let_def)

text \<open>
  A size on the command line, a number below 2^31 with one of the suffixes k, K, m, M, g, G or none, is
  converted to exactly that number of bytes: the multiplication in \<open>size_t\<close> does not wrap.
\<close>

theorem convert_kb_exact:
  assumes "n < 2 ^ 31" and "u \<in> {'''', ''k'', ''K'', ''m'', ''M'', ''g'', ''G''}"
  shows "unat (convert_kb (dec_nat n @ u)) = n * size_unit u"
proof -
  have "atoi (dec_nat n @ u) = int n"
    using assms by (intro atoi_dec) (auto simp: is_digit_def Let_def)
  then have "convert_kb (dec_nat n @ u) = of_nat n * of_nat (size_unit u)"
    using assms(2)
    by (elim insertE emptyE)
      (simp_all add: convert_kb_def Let_def has_chr_append dec_nat_no_unit has_chr_def [of "_ # _"] has_chr_def [of "[]"] size_unit_def)
  then have "convert_kb (dec_nat n @ u) = of_nat (n * size_unit u)" by (simp only: of_nat_mult)
  moreover have "n * size_unit u < 2 ^ 64"
    using assms by (auto simp: size_unit_def)
  ultimately show ?thesis by (simp only: unat_of_nat) simp
qed

theorem convert_kb_exact_witness: "unat (convert_kb (dec_nat 3 @ ''G'')) = 3 * 1073741824"
  using convert_kb_exact [of 3 "''G''"] by (simp add: size_unit_def)

lemma convert_delay_minutes:
  assumes "60 * d < 2 ^ 31"
  shows "convert_delay (dec_nat d @ ''m'') = 60 * int d"
proof -
  have "atoi (dec_nat d @ ''m'') = int d" using assms by (intro atoi_dec) (auto simp: is_digit_def Let_def)
  with assms show ?thesis by (simp add: convert_delay_def has_chr_append has_chr_def to_int32_id)
qed

text \<open>
  An option \<open>-d\<close> with anything but 0, 1 or 2 behind it, such as a plain \<open>-d 5\<close>, makes the hogs store
  outside their array of three delays.
\<close>

theorem delay_index_is_not_checked:
  assumes "of_char (chr_at a 2) \<notin> {48, 49, 50 :: nat}" and "chr_at a 0 = CHR ''-''" and "chr_at a 1 = CHR ''d''"
    and "length (ho_delay opts) = 3"
  shows "memhog_args forks (a # v # rest) opts = Inl OutOfBounds"
proof -
  let ?n = "of_char (chr_at a 2) :: nat"
  have "int ?n - 48 < 0 \<or> 3 \<le> int ?n - 48"
    using assms(1) by auto
  with assms(2-4) show ?thesis by (auto simp: set_delay_def Let_def)
qed

theorem delay_index_is_not_checked_witness:
  "memhog_args False [''-d'', ''5''] hog_defaults = Inl OutOfBounds"
  by (rule delay_index_is_not_checked) (simp_all add: chr_at_def hog_defaults_def)

section \<open>Properties of the worker\<close>

lemma work_pass_spec:
  "0 \<le> i \<Longrightarrow> sz \<le> int (length buf) \<Longrightarrow>
     work_pass f i sz buf = Inr (take (nat i) buf @ map f (take (nat (sz - i)) (drop (nat i) buf)) @ drop (nat (max i sz)) buf)"
proof (induction f i sz buf rule: work_pass.induct)
  case (1 f i sz buf)
  show ?case
  proof (cases "i < sz")
    case False
    with 1(2,3) show ?thesis by (simp add: work_pass.simps max_def)
  next
    case True
    let ?b = "buf[nat i := f (buf ! nat i)]"
    have n: "nat i < length buf" "nat (i + 1) = Suc (nat i)" using True 1 by auto
    have "work_pass f i sz buf = work_pass f (i + 1) sz ?b"
      using True 1 by (subst work_pass.simps) auto
    also have "\<dots> = Inr (take (nat (i + 1)) ?b @ map f (take (nat (sz - (i + 1))) (drop (nat (i + 1)) ?b)) @ drop (nat (max (i + 1) sz)) ?b)"
      using True 1 n by (intro 1(1)) auto
    finally have eq: "work_pass f i sz buf = Inr (take (nat (i + 1)) ?b @ map f (take (nat (sz - (i + 1))) (drop (nat (i + 1)) ?b)) @ drop (nat (max (i + 1) sz)) ?b)" .
    have "take (nat (i + 1)) ?b = take (nat i) buf @ [f (buf ! nat i)]"
      using n by (simp add: take_Suc_conv_app_nth)
    moreover have "drop (nat (i + 1)) ?b = drop (nat (i + 1)) buf" "drop (nat (max (i + 1) sz)) ?b = drop (nat (max i sz)) buf"
      using n True by (auto simp: max_def)
    moreover have "nat (sz - i) = Suc (nat (sz - (i + 1)))" using True by simp
    moreover have "drop (nat i) buf = buf ! nat i # drop (nat (i + 1)) buf"
      using n by (simp add: Cons_nth_drop_Suc)
    ultimately show ?thesis using eq by simp
  qed
qed

lemma work_round_trip:
  assumes "sz \<le> int (length buf)"
  shows "\<exists>buf1. work_pass (\<lambda>b. b + 1) 0 sz buf = Inr buf1 \<and> work_pass (\<lambda>b. b - 1) 0 sz buf1 = Inr buf"
proof -
  let ?n = "nat sz"
  have "take ?n buf @ drop ?n buf = buf" by simp
  have one: "work_pass (\<lambda>b. b + 1) 0 sz buf = Inr (map (\<lambda>b. b + 1) (take ?n buf) @ drop (nat (max 0 sz)) buf)"
    using work_pass_spec [of 0 sz buf] assms by simp
  let ?b = "map (\<lambda>b. b + 1) (take ?n buf) @ drop (nat (max 0 sz)) buf"
  have l: "length (map (\<lambda>b. b + 1) (take ?n buf)) = ?n" using assms by simp
  have "work_pass (\<lambda>b. b - 1) 0 sz ?b = Inr (map (\<lambda>b. b - 1) (take ?n ?b) @ drop (nat (max 0 sz)) ?b)"
    using work_pass_spec [of 0 sz ?b] assms l by simp
  moreover have "map (\<lambda>b. b - 1) (take ?n ?b) @ drop (nat (max 0 sz)) ?b = buf"
    using l by (cases "sz < 0") (simp_all add: max_def comp_def)
  ultimately show ?thesis using one by auto
qed

lemma wk_size_le: "wk_size sz \<le> int (unat sz)"
proof -
  have "to_int32 v \<le> v" if "0 \<le> v" for v
  proof -
    have "(v + 2 ^ 31) mod 2 ^ 32 \<le> v + 2 ^ 31" using that by (intro zmod_le_nonneg_dividend) simp
    then show ?thesis by (simp add: to_int32_def)
  qed
  then show ?thesis by (simp add: wk_size_def)
qed

lemma work_returns: "sz \<le> int (length buf) \<Longrightarrow> True \<in> set flags \<Longrightarrow> work flags sz buf = Inr buf"
  by (induction flags) (use work_round_trip [of sz buf] in \<open>auto split: sum.splits\<close>)

text \<open>
  A worker stays inside the memory allocated for it whatever its size, leaves its contents as they were, and
  returns once it sees its flag set.
\<close>

theorem worker_restores_buffer:
  assumes "length buf = unat sz" and "True \<in> set flags"
  shows "work flags (wk_size sz) buf = Inr buf"
  using assms wk_size_le [of sz] by (intro work_returns) simp_all

theorem worker_restores_buffer_witness: "work [False, True] (wk_size 3) [1, 255, 7] = Inr [1, 255, 7]"
  by (rule worker_restores_buffer) simp_all

text \<open>
  The worker's size is the allocated size cut to an \<open>int\<close>: for 2 to 4 gigabytes it is negative, so that the
  worker touches nothing of the memory it is to keep busy.
\<close>

theorem worker_ignores_large_buffers:
  assumes "2 ^ 31 \<le> unat sz" and "unat sz < 2 ^ 32"
  shows "wk_size sz < 0 \<and> work_pass f 0 (wk_size sz) buf = Inr buf"
proof -
  have v: "2 ^ 31 \<le> uint sz" "uint sz < 2 ^ 32"
    using assms of_nat_le_iff [of "2 ^ 31" "unat sz", where ?'a = int] of_nat_less_iff [of "unat sz" "2 ^ 32", where ?'a = int] by simp_all
  have "(uint sz + 2 ^ 31) mod 2 ^ 32 = uint sz + 2 ^ 31 - 2 ^ 32"
    using v by (intro int_mod_pos_eq [where q = 1]) simp_all
  then have "wk_size sz = uint sz - 2 ^ 32" by (simp add: wk_size_def to_int32_def)
  with v show ?thesis by (simp add: work_pass.simps)
qed

theorem worker_ignores_large_buffers_witness: "wk_size 3221225472 < 0"
  using worker_ignores_large_buffers [of 3221225472] by simp

section \<open>Properties of the statistics and of the runs\<close>

lemma is_vm_newline: "is_vm (b @ [CHR 0x0A]) = is_vm b"
proof (cases b)
  case (Cons x c)
  then show ?thesis by (cases c) (auto simp: is_vm_def chr_at_def)
qed (simp add: is_vm_def chr_at_def)

lemma mem_used_loop_lines:
  assumes "\<forall>l \<in> set (b # ls). CHR 0x0A \<notin> set l \<and> length l < 1023"
  shows "mem_used_loop (b @ [CHR 0x0A]) False (concat (map (\<lambda>l. l @ [CHR 0x0A]) ls))
    = map (\<lambda>l. l @ [CHR 0x0A]) (filter is_vm (b # ls))"
  using assms
proof (induction ls arbitrary: b)
  case Nil
  show ?case by (simp add: mem_used_loop.simps fgets_def is_vm_newline)
next
  case (Cons l ls)
  have "fgets 1024 (l @ CHR 0x0A # r) = (Some (l @ [CHR 0x0A]), r, False)" for r
    using Cons.prems by (intro fgets_line) auto
  with Cons.IH [of l] Cons.prems show ?case
    by (subst mem_used_loop.simps) (simp add: is_vm_newline)
qed

text \<open>
  \<open>mem_used\<close> prints exactly the lines of \<open>/proc/<pid>/status\<close> that begin with Vm, in order, when the file
  consists of lines that fit its buffer.
\<close>

theorem mem_used_prints_vm_lines:
  assumes "\<forall>l \<in> set ls. CHR 0x0A \<notin> set l \<and> length l < 1023"
  shows "mem_used (Some (concat (map (\<lambda>l. l @ [CHR 0x0A]) ls))) = Some (map (\<lambda>l. l @ [CHR 0x0A]) (filter is_vm ls))"
proof (cases ls)
  case Nil
  then show ?thesis by (simp add: mem_used_def fgets_def mem_used_loop.simps)
next
  case (Cons l ls')
  have "fgets 1024 (l @ CHR 0x0A # r) = (Some (l @ [CHR 0x0A]), r, False)" for r
    using assms Cons by (intro fgets_line) auto
  with mem_used_loop_lines [of l ls'] assms Cons show ?thesis by (simp add: mem_used_def)
qed

theorem mem_used_prints_vm_lines_witness:
  "mem_used (Some (concat (map (\<lambda>l. l @ [CHR 0x0A]) [''Name: x'', ''VmPeak: 12 kB'', ''VmRSS: 3 kB''])))
     = Some (map (\<lambda>l. l @ [CHR 0x0A]) [''VmPeak: 12 kB'', ''VmRSS: 3 kB''])"
  by (subst mem_used_prints_vm_lines) (simp_all add: is_vm_def chr_at_def)

text \<open>
  A run is sound when memory is used as it has to be: a buffer is allocated at most once at a time, a worker
  is only started on allocated memory that no worker runs on, with a size within it, and memory is only
  freed when it is allocated and its worker, if any, has been told to stop and joined.
\<close>

record hog_state =
  hs_size :: "buf_id \<Rightarrow> u64 option"
  hs_running :: "buf_id \<Rightarrow> bool"
  hs_stopped :: "buf_id \<Rightarrow> bool"

fun hog_step :: "hog_ev \<Rightarrow> hog_state \<Rightarrow> hog_state option" where
  "hog_step (Malloc b n) s =
     (if hs_size s b = None then Some (s\<lparr>hs_size := (hs_size s)(b \<mapsto> n)\<rparr>) else None)"
| "hog_step (Start b n) s =
     (case hs_size s b of
        None \<Rightarrow> None
      | Some m \<Rightarrow> if \<not> hs_running s b \<and> n \<le> int (unat m)
                  then Some (s\<lparr>hs_running := (hs_running s)(b := True), hs_stopped := (hs_stopped s)(b := False)\<rparr>)
                  else None)"
| "hog_step (Stop b) s = Some (s\<lparr>hs_stopped := (hs_stopped s)(b := True)\<rparr>)"
| "hog_step (Join b) s =
     (if hs_running s b \<and> hs_stopped s b then Some (s\<lparr>hs_running := (hs_running s)(b := False)\<rparr>) else None)"
| "hog_step (Free b) s =
     (if hs_size s b \<noteq> None \<and> \<not> hs_running s b then Some (s\<lparr>hs_size := (hs_size s)(b := None)\<rparr>) else None)"
| "hog_step _ s = Some s"

fun hog_run :: "hog_ev list \<Rightarrow> hog_state \<Rightarrow> hog_state option" where
  "hog_run [] s = Some s"
| "hog_run (e # es) s = (case hog_step e s of None \<Rightarrow> None | Some t \<Rightarrow> hog_run es t)"

definition hog_start :: hog_state where
  "hog_start = \<lparr>hs_size = (\<lambda>_. None), hs_running = (\<lambda>_. False), hs_stopped = (\<lambda>_. False)\<rparr>"

text \<open>A sound run that gives back everything if it ends with status 0.\<close>

definition hog_sound :: "hog_ev list \<Rightarrow> bool" where
  "hog_sound ev \<longleftrightarrow> (\<exists>s. hog_run ev hog_start = Some s \<and>
     (last ev = Exit 0 \<longrightarrow> (\<forall>b. hs_size s b = None \<and> \<not> hs_running s b)))"

lemma hog_run_append: "hog_run (xs @ ys) s = (case hog_run xs s of None \<Rightarrow> None | Some t \<Rightarrow> hog_run ys t)"
  by (induction xs arbitrary: s) (auto split: option.splits)

lemma fork_loop_run: "hog_run (fst (fork_loop n pids pid)) s = Some s"
  by (induction n arbitrary: pids pid) (auto simp: Let_def split: prod.splits, metis fst_conv)

text \<open>
  In every run of the four memory hogs the workers only ever run on memory that is allocated, memory is
  freed once and only after its worker has been stopped and joined, and a run that ends normally frees all
  of it.
\<close>

theorem memory_hogs_are_sound:
  "hog_sound (memhog_main opts ok1 ok2) \<and> hog_sound (memhog0_main opts ok1 ok2) \<and>
   hog_sound (memhogS_main opts ok1 ok2) \<and> hog_sound (memhogF_main opts pids ok1 ok2)"
proof (intro conjI)
  note [simp] = hog_sound_def hog_start_def wk_size_le [simplified]
  show "hog_sound (memhog_main opts ok1 ok2)" by (simp add: memhog_main_def)
  show "hog_sound (memhog0_main opts ok1 ok2)" by (simp add: memhog0_main_def)
  show "hog_sound (memhogS_main opts ok1 ok2)" by (simp add: memhogS_main_def)
  show "hog_sound (memhogF_main opts pids ok1 ok2)"
    using fork_loop_run [of "nat (ho_forks opts)" pids 0]
    by (auto simp: memhogF_main_def hog_run_append split: prod.splits)
qed

section \<open>Properties of iohog\<close>

lemma fill_loop_spec:
  "i \<le> lim \<Longrightarrow> lim \<le> length buf \<Longrightarrow> lim < 2 ^ 31 \<Longrightarrow>
     fill_loop i lim buf = Inr (lim, take i buf @ replicate (lim - i) 0x78 @ drop lim buf)"
proof (induction i lim buf rule: fill_loop.induct)
  case (1 i lim buf)
  show ?case
  proof (cases "i < lim")
    case False
    with 1 show ?thesis by (simp add: fill_loop.simps)
  next
    case True
    then have i: "i < length buf" "i + 1 \<noteq> 2 ^ 31" using 1 by auto
    have "fill_loop i lim buf = fill_loop (i + 1) lim (buf[i := 0x78])"
      using True i by (subst fill_loop.simps) simp
    also have "\<dots> = Inr (lim, take (i + 1) (buf[i := 0x78]) @ replicate (lim - (i + 1)) 0x78 @ drop lim (buf[i := 0x78]))"
      using True i 1(3,4) by (intro 1(1)) auto
    also have "take (i + 1) (buf[i := 0x78]) = take i buf @ [0x78]"
      using i by (simp add: take_Suc_conv_app_nth)
    also have "drop lim (buf[i := 0x78]) = drop lim buf" using True by simp
    finally show ?thesis using True by (simp add: Suc_diff_Suc flip: replicate_Suc)
  qed
qed

text \<open>The record that is written.\<close>

definition iohog_record :: "nat \<Rightarrow> bytes" where
  "iohog_record n = replicate (n - 1) 0x78 @ [0]"

lemma fill_record_spec:
  assumes "0 < unat r" and "unat r \<le> 2 ^ 31" and "length buf = unat r"
  shows "fill_record r buf = Inr (iohog_record (unat r))"
proof -
  have "1 \<le> r" using assms(1) by (simp add: word_le_nat_alt)
  then have u: "unat (r - 1) = unat r - 1" by (simp add: unat_sub)
  have "fill_loop 0 (unat r - 1) buf = Inr (unat r - 1, replicate (unat r - 1) 0x78 @ drop (unat r - 1) buf)"
    using fill_loop_spec [of 0 "unat r - 1" buf] assms by simp
  moreover have "length (drop (unat r - 1) buf) = 1" using assms by simp
  then obtain b where "drop (unat r - 1) buf = [b]"
    by (cases "drop (unat r - 1) buf") (auto simp del: length_drop)
  ultimately show ?thesis
    by (simp add: fill_record_def u iohog_record_def list_update_append)
qed

lemma snd_write_loop:
  "snd (write_loop g b (Suc n) f)
     = snd (write_loop g b n (if run_type g = 1 then (fwrite b f)\<lparr>f_pos := 0\<rparr> else fwrite b f))"
  by (simp add: Let_def case_prod_beta)

lemma write_loop_append:
  "run_type g \<noteq> 1 \<Longrightarrow> f_pos f = length (f_data f) \<Longrightarrow>
     f_data (snd (write_loop g b n f)) = f_data f @ concat (replicate n b)"
proof (induction n arbitrary: f)
  case (Suc n)
  then show ?case using Suc.IH [of "fwrite b f"] by (simp add: snd_write_loop fwrite_def del: write_loop.simps)
qed simp

lemma write_loop_rewind:
  "run_type g = 1 \<Longrightarrow> f_pos f = 0 \<Longrightarrow> f_data f = b \<Longrightarrow> f_data (snd (write_loop g b n f)) = b"
proof (induction n arbitrary: f)
  case (Suc n)
  then show ?case
    using Suc.IH [of "(fwrite b f)\<lparr>f_pos := 0\<rparr>"] by (simp add: snd_write_loop fwrite_def del: write_loop.simps)
qed simp

text \<open>
  With a record size from 1 to 2^31 and at most 2^31 records, \<open>iohog\<close> writes without a fault, and the file then
  holds the records one behind the other, or one record when it rewinds after each.
\<close>

theorem iohog_file_contents:
  assumes "Fname g = Some name" and "0 < unat (RecSize g)" and "unat (RecSize g) \<le> 2 ^ 31"
    and "unat (NumRec g) \<le> 2 ^ 31" and "length buf = unat (RecSize g)"
  shows "\<exists>ev f. iohog_main g True (Some buf) = Inr (0, ev, f) \<and>
    f_data f = concat (replicate (if run_type g = 1 then min 1 (unat (NumRec g)) else unat (NumRec g))
      (iohog_record (unat (RecSize g))))"
proof -
  let ?b = "iohog_record (unat (RecSize g))" and ?f = "\<lparr>f_data = [], f_pos = 0\<rparr>"
  obtain ev f where w: "write_loop g ?b (unat (NumRec g)) ?f = (ev, f)" by fastforce
  then have "iohog_main g True (Some buf) = Inr (0, SleepSec (Delay g ! 0) # ev, f)"
    using assms fill_record_spec [of "RecSize g" buf] by (simp add: iohog_main_def)
  moreover have "f_data f = concat (replicate (if run_type g = 1 then min 1 (unat (NumRec g)) else unat (NumRec g)) ?b)"
  proof (cases "run_type g = 1")
    case False
    with write_loop_append [of g ?f ?b "unat (NumRec g)"] w show ?thesis by simp
  next
    case True
    show ?thesis
    proof (cases "unat (NumRec g)")
      case 0
      with w True show ?thesis by auto
    next
      case (Suc n)
      then have "f = snd (write_loop g ?b (Suc n) ?f)" using w by simp
      also have "f_data \<dots> = ?b"
        using True write_loop_rewind [of g "(fwrite ?b ?f)\<lparr>f_pos := 0\<rparr>" ?b n]
        by (simp add: snd_write_loop fwrite_def del: write_loop.simps)
      finally show ?thesis using True Suc by simp
    qed
  qed
  ultimately show ?thesis by blast
qed

theorem iohog_file_contents_witness:
  "\<exists>ev f. iohog_main (iohog_init\<lparr>NumRec := 2, RecSize := 3\<rparr>) True (Some [9, 9, 9]) = Inr (0, ev, f) \<and>
     f_data f = [0x78, 0x78, 0, 0x78, 0x78, 0]"
proof -
  have rec3: "iohog_record 3 = [0x78, 0x78, 0]" by (simp add: iohog_record_def numeral_2_eq_2)
  have two: "concat (replicate 2 [0x78, 0x78, 0]) = [0x78, 0x78, 0, 0x78, 0x78, 0 :: u8]"
    by (simp add: numeral_2_eq_2)
  show ?thesis
    using iohog_file_contents [of "iohog_init\<lparr>NumRec := 2, RecSize := 3\<rparr>" "''default.dat''" "[9, 9, 9]"]
    by (simp add: iohog_init_def rec3 two)
qed

text \<open>
  With a record size of 0 the bound \<open>RecSize - 1\<close> wraps around and \<open>iohog\<close> writes outside the memory it
  allocated; when the output file cannot be opened it goes on with a null pointer.
\<close>

theorem iohog_unchecked_cases:
  assumes "Fname g = Some name"
  shows "(RecSize g = 0 \<longrightarrow> iohog_main g True (Some []) = Inl BufferOverflow) \<and>
    (0 < unat (RecSize g) \<and> unat (RecSize g) \<le> 2 ^ 31 \<and> length buf = unat (RecSize g) \<longrightarrow>
       iohog_main g False (Some buf) = Inl NullPointer)"
  using assms fill_record_spec [of "RecSize g" buf]
  by (auto simp: iohog_main_def fill_record_def fill_loop.simps)

theorem iohog_unchecked_cases_witness:
  "iohog_main (iohog_init\<lparr>RecSize := 0\<rparr>) True (Some []) = Inl BufferOverflow"
  using iohog_unchecked_cases [of "iohog_init\<lparr>RecSize := 0\<rparr>" "''default.dat''" "[]"]
  by (simp add: iohog_init_def)

end
