(* ===== verification/Wattsup.thy ===== *)
theory Wattsup
  imports Libc
begin

text \<open>
  The reader of the Watts Up? power meter (\<open>src/wattsup/wattsup.c\<close>): packets, the commands to the meter, the
  loop that reads records, the options and the main program.

  The state \<open>wu\<close> holds the global variables of the file and the environment: scripts of what \<open>select\<close>,
  \<open>read\<close> and \<open>write\<close> answer on the serial line, the time strings that \<open>print_time\<close> prints, the commands written so
  far and the output. Once the scripts have run out, \<open>write\<close> writes everything, and the meter is either silent for good, so that
  \<open>select\<close> times out (\<open>w_repeat\<close> is None), or goes on with the same record for ever (\<open>w_repeat\<close> is that record). Debug messages, the
  texts of error messages and delays are left out. A pointer into a packet's buffer
  is the string it points to, a null pointer None. The conversion of a field by \<open>strtod\<close> and
  \<open>%.1f\<close> is the field \<open>w_tenth\<close> of the state.
\<close>

section \<open>State\<close>

abbreviation (input) wu_strlen :: nat where "wu_strlen \<equiv> 256"
abbreviation (input) wu_num_fields :: nat where "wu_num_fields \<equiv> 18"

record wu_packet =
  p_cmd :: char
  p_sub_cmd :: char
  p_count :: u32
  p_buf :: string
  p_field :: "string option list"
  p_label :: "string option list"

text \<open>A row of \<open>wu_options\<close>: what the program changes of it, the flag and the value.\<close>

record wu_option =
  o_flag :: bool
  o_value :: "string option"

text \<open>
  What the system calls of \<open>open_device\<close> and \<open>setup_serial_device\<close> answer; \<open>s_tty\<close> and \<open>s_dev\<close> are the
  answers of the two calls of \<open>stat\<close>, with whether the file is a directory, or a character device.
\<close>

record wu_sys =
  s_open_cwd :: int
  s_chdir :: int
  s_tty :: "int \<times> bool"
  s_dev :: "int \<times> bool"
  s_access :: int
  s_open :: int
  s_tcget :: int
  s_tcset :: int

record wu =
  w_device :: string
  w_count :: int
  w_delim :: string
  w_final :: bool
  w_interval :: int
  w_label :: bool
  w_newline :: bool
  w_suppress :: bool
  w_localtime :: bool
  w_gmtime :: bool
  w_info_all :: bool
  w_no_data :: bool
  w_set_only :: bool
  w_enable :: "bool list"
  w_options :: "wu_option list"
  w_sys :: wu_sys
  w_tenth :: "string \<Rightarrow> string"
  w_selects :: "int list"
  w_reads :: "string option list"
  w_repeat :: "string option"
  w_writes :: "int option list"
  w_times :: "string list"
  w_sent :: "string list"
  w_out :: "string list"

definition put :: "string \<Rightarrow> (wu, unit) machine" where
  "put s = mmod (\<lambda>w. w\<lparr>w_out := w_out w @ [s]\<rparr>)"

text \<open>
  \<open>msg(s)\<close> with a string that is not a literal: it is the format string of \<open>vprintf\<close>, so that a percent sign
  in it makes \<open>vprintf\<close> fetch an argument that was not passed.
\<close>

definition put_format :: "string \<Rightarrow> (wu, unit) machine" where
  "put_format s = (if has_chr s CHR ''%'' then mfail OutOfBounds else put s)"

section \<open>Printing packets\<close>

fun print_fields ::
  "(nat \<Rightarrow> fault + string option) \<Rightarrow> wu_packet \<Rightarrow> nat list \<Rightarrow> bool \<Rightarrow> (wu, unit) machine" where
  "print_fields text p [] printed = put [CHR 0x0A]"
| "print_fields text p (i # is) printed =
     (case text i of
        Inl e \<Rightarrow> mfail e
      | Inr None \<Rightarrow> print_fields text p is printed
      | Inr (Some s) \<Rightarrow>
          mbind (mget (\<lambda>w. (if printed then (if w_newline w then [CHR 0x0A] else w_delim w) else '''',
                            if w_label w then ''['' @ (case p_label p ! i of None \<Rightarrow> ''(null)'' | Some l \<Rightarrow> l) @ ''] '' else ''''))) (\<lambda>(sep, lab).
          mbind (put sep) (\<lambda>_.
          mbind (put lab) (\<lambda>_.
          mbind (put_format s) (\<lambda>_. print_fields text p is True)))))"

text \<open>A field that the packet must have: \<open>p->field[i]\<close>, where a null pointer faults.\<close>

definition the_field :: "wu_packet \<Rightarrow> nat \<Rightarrow> fault + string" where
  "the_field p i =
     (if i \<ge> length (p_field p) then Inl OutOfBounds
      else case p_field p ! i of None \<Rightarrow> Inl NullPointer | Some s \<Rightarrow> Inr s)"

definition print_packet :: "wu_packet \<Rightarrow> string \<Rightarrow> (wu, unit) machine" where
  "print_packet p str =
     mbind (mget w_suppress) (\<lambda>suppress.
     mbind (if \<not> suppress then put (''Watts Up? '' @ str @ [CHR 0x0A]) else mret ()) (\<lambda>_.
     print_fields (\<lambda>i. map_sum id Some (the_field p i)) p [0..<unat (p_count p)] False))"

definition print_time :: "(wu, unit) machine" where
  "print_time =
     mbind (mget (\<lambda>w. w_localtime w \<or> w_gmtime w)) (\<lambda>on.
     if on then mbind (mget (\<lambda>w. script_hd ''00:00:00'' (w_times w))) (\<lambda>t.
       mbind (mmod (\<lambda>w. w\<lparr>w_times := tl (w_times w)\<rparr>)) (\<lambda>_. put (''['' @ t @ ''] '')))
     else mret ())"

definition filter_data :: "wu \<Rightarrow> wu_packet \<Rightarrow> nat \<Rightarrow> fault + string option" where
  "filter_data w p i =
     (if i < wu_num_fields \<and> w_enable w ! i
      then map_sum id (\<lambda>s. Some (w_tenth w s)) (the_field p i)
      else Inr None)"

definition print_packet_filter :: "wu_packet \<Rightarrow> (wu, unit) machine" where
  "print_packet_filter p =
     mbind print_time (\<lambda>_.
     mbind (mget (\<lambda>w. filter_data w p)) (\<lambda>f.
     print_fields f p [0..<unat (p_count p)] False))"

section \<open>Writing and reading packets\<close>

text \<open>The loop of \<open>wu_write\<close> that appends the fields; \<open>Inr None\<close> is the return with EOVERFLOW.\<close>

fun append_fields :: "nat \<Rightarrow> string \<Rightarrow> string option list \<Rightarrow> fault + string option" where
  "append_fields 0 buf fs = Inr (Some buf)"
| "append_fields (Suc n) buf [] = Inl OutOfBounds"
| "append_fields (Suc n) buf (None # fs) = Inl NullPointer"
| "append_fields (Suc n) buf (Some f # fs) =
     (if length buf + length f + 4 \<ge> wu_strlen then Inr None
      else append_fields n (buf @ '','' @ f) fs)"

definition wu_command :: "wu_packet \<Rightarrow> fault + string option" where
  "wu_command p =
     append_fields (unat (p_count p))
       (''#'' @ [p_cmd p] @ '','' @ [p_sub_cmd p] @ '','' @ dec_int (sint (p_count p))) (p_field p)"

definition wu_write :: "wu_packet \<Rightarrow> (wu, int) machine" where
  "wu_write p =
     (case wu_command p of
        Inl e \<Rightarrow> mfail e
      | Inr None \<Rightarrow> mret (-1)
      | Inr (Some buf) \<Rightarrow>
          if length buf + 1 > wu_strlen then mfail BufferOverflow
          else
            mbind (mget (\<lambda>w. script_hd None (w_writes w))) (\<lambda>r.
            mbind (mmod (\<lambda>w. w\<lparr>w_writes := tl (w_writes w), w_sent := w_sent w @ [buf @ '';'']\<rparr>)) (\<lambda>_.
            mret (case r of None \<Rightarrow> 0 | Some v \<Rightarrow> if v \<ge> 0 then 0 else v))))"

text \<open>The string before the first occurrence of a character in \<open>cs\<close> and the one behind it (\<open>strchr\<close>, \<open>strpbrk\<close>).\<close>

definition split_at :: "char list \<Rightarrow> string \<Rightarrow> (string \<times> string) option" where
  "split_at cs s =
     (case dropWhile (\<lambda>c. c \<notin> set cs) s of [] \<Rightarrow> None
      | c # r \<Rightarrow> Some (takeWhile (\<lambda>c. c \<notin> set cs) s, r))"

text \<open>
  The loop over the parameters from number \<open>i\<close> on. \<open>s\<close> is None once the pointer is null, which it is behind
  a last parameter without a delimiter. \<open>Inr None\<close> is the return with EFAULT. The bound is the number of
  elements of \<open>p->field\<close>.
\<close>

function parse_fields :: "nat \<Rightarrow> nat \<Rightarrow> string option \<Rightarrow> string list \<Rightarrow> fault + string list option" where
  "parse_fields i n s acc =
     (if i < n then
        (case s of
           None \<Rightarrow> Inl NullPointer
         | Some s \<Rightarrow>
             (case split_at '',;'' s of
                None \<Rightarrow> if i < n - 1 then Inr None
                        else if i \<ge> wu_num_fields then Inl BufferOverflow
                        else parse_fields (i + 1) n None (acc @ [dropWhile is_space s])
              | Some (f, r) \<Rightarrow>
                  if i \<ge> wu_num_fields then Inl BufferOverflow
                  else parse_fields (i + 1) n (Some r) (acc @ [dropWhile is_space f])))
      else Inr (Some acc))"
  by pat_completeness auto
termination by (relation "measure (\<lambda>(i, n, s, acc). n - i)") auto

declare parse_fields.simps [simp del]

text \<open>
  \<open>parse_packet\<close> on the bytes that were read: the store of the terminating NUL is outside \<open>p->buf\<close> when it is
  full. The packet is changed as far as the parsing got.
\<close>

definition parse_packet :: "string \<Rightarrow> wu_packet \<Rightarrow> fault + int \<times> wu_packet" where
  "parse_packet bytes p =
     (if length bytes \<ge> wu_strlen then Inl BufferOverflow
      else
        let p = p\<lparr>p_buf := bytes\<rparr>
        in case split_at ''#'' (cstr bytes) of
             None \<Rightarrow> Inr (-1, p)
           | Some (_, s) \<Rightarrow>
             (case split_at '','' s of
                None \<Rightarrow> Inr (-1, p)
              | Some (_, s2) \<Rightarrow>
                let p = p\<lparr>p_cmd := chr_at s 0\<rparr>
                in case split_at '','' s2 of
                     None \<Rightarrow> Inr (-1, p)
                   | Some (_, s3) \<Rightarrow>
                     let p = p\<lparr>p_sub_cmd := chr_at s2 0\<rparr>
                     in case split_at '','' s3 of
                          None \<Rightarrow> Inr (-1, p)
                        | Some (num, s4) \<Rightarrow>
                          let p = p\<lparr>p_count := of_int (atoi num)\<rparr>
                          in (case parse_fields 0 (unat (p_count p)) (Some s4) [] of
                                Inl e \<Rightarrow> Inl e
                              | Inr None \<Rightarrow> Inr (-1, p)
                              | Inr (Some fs) \<Rightarrow>
                                  Inr (0, p\<lparr>p_field := map Some fs @ drop (length fs) (p_field p)\<rparr>))))"

definition wu_read :: "wu_packet \<Rightarrow> (wu, int \<times> wu_packet) machine" where
  "wu_read p =
     mbind (mget (\<lambda>w. script_hd (if w_repeat w = None then 0 else 1) (w_selects w))) (\<lambda>ret.
     mbind (mmod (\<lambda>w. w\<lparr>w_selects := tl (w_selects w)\<rparr>)) (\<lambda>_.
     if ret < 0 then mret (ret, p)
     else if ret > 0 then
       mbind (mget (\<lambda>w. script_hd (w_repeat w) (w_reads w))) (\<lambda>d.
       mbind (mmod (\<lambda>w. w\<lparr>w_reads := tl (w_reads w)\<rparr>)) (\<lambda>_.
       case d of
         None \<Rightarrow> mret (-1, p)
       | Some bytes \<Rightarrow>
           (case parse_packet (take wu_strlen bytes) p of
              Inl e \<Rightarrow> mfail e
            | Inr r \<Rightarrow> mret r)))
     else mret (-1, p)))"

section \<open>Commands\<close>

definition no_fields :: "string option list" where
  "no_fields = replicate wu_num_fields None"

text \<open>An initialiser of a packet: the members that are not named are zero.\<close>

definition new_packet :: "char \<Rightarrow> char \<Rightarrow> string list \<Rightarrow> string list \<Rightarrow> wu_packet" where
  "new_packet cmd sub fs labels =
     \<lparr>p_cmd = cmd, p_sub_cmd = sub, p_count = of_nat (length fs), p_buf = [],
      p_field = map Some fs @ drop (length fs) no_fields,
      p_label = map Some labels @ drop (length labels) no_fields\<rparr>"

text \<open>What the commands that read from the device share: write the request, read the answer into the packet.\<close>

definition wu_query :: "wu_packet \<Rightarrow> (wu, int \<times> wu_packet) machine" where
  "wu_query p =
     mbind (wu_write p) (\<lambda>ret.
     if ret \<noteq> 0 then mret (ret, p) else wu_read p)"

definition wu_show_packet :: "wu_packet \<Rightarrow> string \<Rightarrow> (wu, int) machine" where
  "wu_show_packet p title =
     mbind (wu_query p) (\<lambda>(ret, p).
     if ret \<noteq> 0 then mret ret
     else mbind (print_packet p title) (\<lambda>_. mret 0))"

definition wu_show_header :: "(wu, int) machine" where
  "wu_show_header =
     wu_show_packet (new_packet CHR ''H'' CHR ''R'' []
       [''watts header'', ''volts header'', ''amps header'', ''kWh header'', ''cost header'', ''mo. kWh header'',
        ''mo. cost header'', ''max watts header'', ''max volts header'', ''max amps header'', ''min watts header'',
        ''min volts header'', ''min amps header'', ''power factor header'', ''duty cycle header'',
        ''power cycle header'']) ''Header Record''"

definition wu_show_cal :: "(wu, int) machine" where
  "wu_show_cal =
     wu_show_packet (new_packet CHR ''F'' CHR ''R'' []
       [''flags'', ''sample count'', ''volts gain'', ''volts bias'', ''amps gain'', ''amps bias'', ''amps offset'',
        ''low amps gain'', ''low amps bias'', ''low amps offset'', ''watts gain'', ''watts offset'',
        ''low watts gain'', ''low watts offset'']) ''Calibration Settings''"

definition wu_start_log :: "(wu, int) machine" where
  "wu_start_log = wu_write (new_packet CHR ''L'' CHR ''W'' [''E'', ''1'', ''1''] [])"

definition wu_stop_log :: "(wu, int) machine" where
  "wu_stop_log =
     mbind (wu_query (new_packet CHR ''L'' CHR ''R'' [] [''time stamp'', ''interval''])) (\<lambda>(ret, p).
     if ret \<noteq> 0 then mret ret
     else mbind (mget w_final) (\<lambda>final.
       mbind (if final then print_packet p ''Final Time Stamp and Interval'' else mret ()) (\<lambda>_. mret ret)))"

definition wu_clear :: "(wu, int) machine" where
  "wu_clear =
     (let p = new_packet CHR ''R'' CHR ''W'' [] [] in
      mbind (wu_write p) (\<lambda>ret.
      mbind (wu_read p) (\<lambda>_. mret ret)))"

section \<open>The data loop\<close>

definition data_packet :: wu_packet where
  "data_packet = new_packet CHR 0x00 CHR 0x00 []
     [''watts'', ''volts'', ''amps'', ''watt hours'', ''cost'', ''mo. kWh'', ''mo. cost'', ''max watts'', ''max volts'',
      ''max amps'', ''min watts'', ''min volts'', ''min amps'', ''power factor'', ''duty cycle'', ''power cycle'']"

abbreviation (input) wu_max_retry :: nat where "wu_max_retry \<equiv> 2"

text \<open>
  The loop of \<open>wu_read_data\<close>, with the retries so far, the records printed (counted only with a limit) and
  the packet that is read into.
\<close>

primrec wu_read_loop :: "nat \<Rightarrow> nat \<Rightarrow> int \<Rightarrow> wu_packet \<Rightarrow> (wu, unit) machine" where
  "wu_read_loop 0 retry i p = mfail NoReturn"
| "wu_read_loop (Suc fuel) retry i p =
     mbind (wu_read p) (\<lambda>(ret, p).
     if ret \<noteq> 0 then
       (let retry = retry + 1 in
        if retry < wu_max_retry then wu_read_loop fuel retry i p
        else if retry = wu_max_retry then
          mbind wu_stop_log (\<lambda>_.
          mbind wu_clear (\<lambda>_.
          mbind wu_start_log (\<lambda>_. wu_read_loop fuel retry i p)))
        else mret ())
     else
       mbind (print_packet_filter p) (\<lambda>_.
       mbind (mget w_count) (\<lambda>count.
       if count = 0 then wu_read_loop fuel 0 i p
       else if i = 2 ^ 31 - 1 then mfail IntOverflow
       else if i + 1 = count then mret ()
       else wu_read_loop fuel 0 (i + 1) p)))"

text \<open>
  The fuel. With a limit other than 0 every record is counted, a third failure in a row ends the loop, and the counter overflows at \<open>2 ^ 31\<close>: three turns for
  each record are enough whatever the meter answers. Without a limit a turn takes an answer of \<open>select\<close>; when there is none left, a silent
  meter or one that repeats a bad record ends the loop with three failures, and one that repeats a good record never ends it.
\<close>

definition wu_turns :: "wu \<Rightarrow> nat" where
  "wu_turns w =
     (if w_count w = 0 then length (w_selects w) + length (w_reads w) + 4
      else 3 * nat (if w_count w < 0 then 2 ^ 31 else w_count w))"

definition wu_read_data :: "(wu, unit) machine" where
  "wu_read_data = mbind (mget wu_turns) (\<lambda>fuel. wu_read_loop fuel 0 0 data_packet)"

section \<open>Settings of the meter\<close>

definition wu_show_interval :: "(wu, int) machine" where
  "wu_show_interval =
     wu_show_packet (new_packet CHR ''S'' CHR ''R'' [] [''reserved'', ''interval'']) ''Interval Settings''"

text \<open>\<open>snprintf(str, wu_param_len, "%ud", v)\<close>: the digits of \<open>v\<close> and the letter d.\<close>

definition param_str :: "u32 \<Rightarrow> string" where
  "param_str v = take 15 (dec_nat (unat v) @ ''d'')"

definition wu_write_interval :: "u32 \<Rightarrow> u32 \<Rightarrow> (wu, int) machine" where
  "wu_write_interval seconds interval =
     wu_write (new_packet CHR ''S'' CHR ''W'' [param_str seconds, param_str interval] [])"

definition wu_option_value :: "nat \<Rightarrow> (wu, string option) machine" where
  "wu_option_value i = mget (\<lambda>w. if i < length (w_options w) then o_value (w_options w ! i) else None)"

abbreviation (input) wu_option_help :: nat where "wu_option_help \<equiv> 0"
abbreviation (input) wu_option_version :: nat where "wu_option_version \<equiv> 1"
abbreviation (input) wu_option_debug :: nat where "wu_option_debug \<equiv> 2"
abbreviation (input) wu_option_count :: nat where "wu_option_count \<equiv> 3"
abbreviation (input) wu_option_final :: nat where "wu_option_final \<equiv> 4"
abbreviation (input) wu_option_delim :: nat where "wu_option_delim \<equiv> 5"
abbreviation (input) wu_option_newline :: nat where "wu_option_newline \<equiv> 6"
abbreviation (input) wu_option_localtime :: nat where "wu_option_localtime \<equiv> 7"
abbreviation (input) wu_option_gmtime :: nat where "wu_option_gmtime \<equiv> 8"
abbreviation (input) wu_option_label :: nat where "wu_option_label \<equiv> 9"
abbreviation (input) wu_option_suppress :: nat where "wu_option_suppress \<equiv> 10"
abbreviation (input) wu_option_cal :: nat where "wu_option_cal \<equiv> 11"
abbreviation (input) wu_option_header :: nat where "wu_option_header \<equiv> 12"
abbreviation (input) wu_option_interval :: nat where "wu_option_interval \<equiv> 13"
abbreviation (input) wu_option_mode :: nat where "wu_option_mode \<equiv> 14"
abbreviation (input) wu_option_user :: nat where "wu_option_user \<equiv> 15"
abbreviation (input) wu_option_info_all :: nat where "wu_option_info_all \<equiv> 16"
abbreviation (input) wu_option_no_data :: nat where "wu_option_no_data \<equiv> 17"
abbreviation (input) wu_option_set_only :: nat where "wu_option_set_only \<equiv> 18"

definition wu_store_interval :: "(wu, int) machine" where
  "wu_store_interval =
     mbind (wu_option_value wu_option_interval) (\<lambda>s.
     case s of
       None \<Rightarrow> mfail NullPointer
     | Some s \<Rightarrow>
         (let (v, end) = strtol0 s; interval = to_int32 v in
          mbind (mmod (\<lambda>w. w\<lparr>w_interval := interval\<rparr>)) (\<lambda>_.
          if end \<noteq> [] then mret (-1)
          else wu_write_interval 1 (of_int interval))))"

definition wu_show_mode :: "(wu, int) machine" where
  "wu_show_mode =
     mbind (wu_query (new_packet CHR ''M'' CHR ''R'' [] [''display mode''])) (\<lambda>(ret, p). mret ret)"

definition wu_write_mode :: "u32 \<Rightarrow> (wu, int) machine" where
  "wu_write_mode mode = wu_write (new_packet CHR ''M'' CHR ''W'' [param_str mode] [])"

definition wu_store_mode :: "(wu, int) machine" where
  "wu_store_mode =
     mbind (wu_option_value wu_option_mode) (\<lambda>s.
     case s of
       None \<Rightarrow> mfail NullPointer
     | Some s \<Rightarrow>
         (let (v, end) = strtol0 s in
          if end \<noteq> [] then mret (-1) else wu_write_mode (of_int v)))"

definition wu_show_user :: "(wu, int) machine" where
  "wu_show_user =
     wu_show_packet (new_packet CHR ''U'' CHR ''R'' []
       [''cost per kWh'', ''2nd tier cost'', ''2nd tier threshold'', ''duty cycle threshold'']) ''User Settings''"

text \<open>The parameters are the labels of a packet of no fields, whose sub-command is a read.\<close>

definition wu_write_user :: "u32 \<Rightarrow> u32 \<Rightarrow> u32 \<Rightarrow> u32 \<Rightarrow> (wu, int) machine" where
  "wu_write_user kwh_cost second_tier_cost second_tier_threshold duty_cycle_threshold =
     wu_write (new_packet CHR ''U'' CHR ''R'' []
       [param_str kwh_cost, param_str second_tier_cost, param_str second_tier_threshold,
        param_str duty_cycle_threshold])"

text \<open>
  One step of \<open>wu_store_user\<close>: a number (\<open>Inr None\<close> when there is none), and the loop that skips what is
  not a digit. The loop does not stop at the end of the string: it runs past it.
\<close>

definition user_param :: "string \<Rightarrow> fault + (u32 \<times> string) option" where
  "user_param s =
     (let (v, next) = strtoul0 s in
      if next = s then Inr None
      else case dropWhile (\<lambda>c. \<not> is_digit c) next of
             [] \<Rightarrow> Inl OutOfBounds
           | s' \<Rightarrow> Inr (Some (ucast v, s')))"

fun user_params :: "nat \<Rightarrow> string \<Rightarrow> u32 list \<Rightarrow> fault + u32 list option" where
  "user_params 0 s vs = Inr (Some vs)"
| "user_params (Suc n) s vs =
     (case user_param s of
        Inl e \<Rightarrow> Inl e
      | Inr None \<Rightarrow> Inr None
      | Inr (Some (v, s')) \<Rightarrow> user_params n s' (vs @ [v]))"

definition wu_store_user :: "(wu, int) machine" where
  "wu_store_user =
     mbind (wu_option_value wu_option_user) (\<lambda>buf.
     case buf of
       None \<Rightarrow> mret (-1)
     | Some s \<Rightarrow>
         (case user_params 4 s [] of
            Inl e \<Rightarrow> mfail e
          | Inr None \<Rightarrow> mret (-1)
          | Inr (Some vs) \<Rightarrow> wu_write_user (vs ! 0) (vs ! 1) (vs ! 2) (vs ! 3)))"

section \<open>Fields to print\<close>

text \<open>The members \<open>name\<close> and \<open>descr\<close> of \<open>wu_fields\<close>; the last two rows have no initialiser.\<close>

definition wu_fields :: "(string option \<times> string option) list" where
  "wu_fields =
     map (\<lambda>(n, d). (Some n, Some d))
       [(''watts'', ''Watt Consumption''), (''volts'', ''Volts Consumption''), (''amps'', ''Amp Consumption''),
        (''kwh'', ''Average KWH''), (''cost'', ''Cost per watt''), (''mo-kwh'', ''Average monthly KWH''),
        (''mo-cost'', ''Monthly Cost''), (''max-watts'', ''Maxium Watts Consumed''),
        (''min-volts'', ''Maximum Volts Consumed''), (''max-amps'', ''Maximum Amps Consumed''),
        (''min-watts'', ''Minimum Watts Consumed''), (''max-volts'', ''Minimum Volts Consumed''),
        (''min-amps'', ''Minimum Amps Consumed''), (''power-factor'', ''Ratio of Watts vs. Volt Amps''),
        (''duty-cycle'', ''Percent of the Time On vs. Time Off''), (''power-cycle'', ''Indication of power cycle'')]
     @ [(None, None), (None, None)]"

definition strcaseeq :: "string \<Rightarrow> string \<Rightarrow> bool" where
  "strcaseeq s t \<longleftrightarrow> map lower s = map lower t"

fun find_field :: "string \<Rightarrow> nat \<Rightarrow> (string option \<times> string option) list \<Rightarrow> fault + nat option" where
  "find_field name i [] = Inr None"
| "find_field name i ((None, d) # fs) = Inl NullPointer"
| "find_field name i ((Some n, d) # fs) =
     (if strcaseeq n name then Inr (Some i) else find_field name (i + 1) fs)"

definition enable_field :: "string \<Rightarrow> (wu, unit) machine" where
  "enable_field name =
     (case find_field name 0 wu_fields of
        Inl e \<Rightarrow> mfail e
      | Inr None \<Rightarrow> mret ()
      | Inr (Some i) \<Rightarrow> mmod (\<lambda>w. w\<lparr>w_enable := (w_enable w)[i := True]\<rparr>))"

definition enable_all_fields :: "(wu, unit) machine" where
  "enable_all_fields = mmod (\<lambda>w. w\<lparr>w_enable := replicate wu_num_fields True\<rparr>)"

section \<open>Options\<close>

definition wu_store_count :: "(wu, int) machine" where
  "wu_store_count =
     mbind (wu_option_value wu_option_count) (\<lambda>s.
     case s of
       None \<Rightarrow> mret 0
     | Some s \<Rightarrow>
         (let (v, end) = strtol0 s in
          mbind (mmod (\<lambda>w. w\<lparr>w_count := to_int32 v\<rparr>)) (\<lambda>_.
          if end \<noteq> [] then mret (-1) else mret 0)))"

definition wu_store_delim :: "(wu, int) machine" where
  "wu_store_delim =
     mbind (wu_option_value wu_option_delim) (\<lambda>s.
     case s of None \<Rightarrow> mret 0 | Some s \<Rightarrow> mbind (mmod (\<lambda>w. w\<lparr>w_delim := s\<rparr>)) (\<lambda>_. mret 0))"

definition store_flag :: "(wu \<Rightarrow> wu) \<Rightarrow> (wu, int) machine" where
  "store_flag f = mbind (mmod f) (\<lambda>_. mret 0)"

text \<open>A row of the table \<open>wu_options\<close>, less its flag and value.\<close>

record opt_row =
  r_long :: string
  r_short :: char
  r_param :: nat
  r_descr :: string
  r_option :: string

definition wu_option_rows :: "opt_row list" where
  "wu_option_rows =
    [\<lparr>r_long = ''help'', r_short = CHR ''h'', r_param = 0, r_descr = ''Display help text and exit'', r_option = ''''\<rparr>,
     \<lparr>r_long = ''version'', r_short = CHR ''V'', r_param = 0, r_descr = ''Display version information and exit'', r_option = ''''\<rparr>,
     \<lparr>r_long = ''debug'', r_short = CHR ''d'', r_param = 0, r_descr = ''Print out debugging messages'', r_option = ''''\<rparr>,
     \<lparr>r_long = ''count'', r_short = CHR ''c'', r_param = 1, r_descr = ''Specify number of data samples'', r_option = ''<n>''\<rparr>,
     \<lparr>r_long = ''final'', r_short = CHR ''z'', r_param = 0, r_descr = ''Print final interval information'', r_option = ''''\<rparr>,
     \<lparr>r_long = ''delim'', r_short = CHR ''f'', r_param = 1, r_descr = ''Set field delimiter (default '' @ [CHR 0x22] @ '', '' @ [CHR 0x22] @ '')'', r_option = ''<str>''\<rparr>,
     \<lparr>r_long = ''newline'', r_short = CHR ''n'', r_param = 0, r_descr = ''Use '' @ [CHR 0x27, CHR 0x5C] @ ''n'' @ [CHR 0x27] @ '' as delimter instead'', r_option = ''''\<rparr>,
     \<lparr>r_long = ''localtime'', r_short = CHR ''t'', r_param = 0, r_descr = ''Print localtime with each data reading'', r_option = ''''\<rparr>,
     \<lparr>r_long = ''gmtime'', r_short = CHR ''g'', r_param = 0, r_descr = ''Print GMT time with each data reading'', r_option = ''''\<rparr>,
     \<lparr>r_long = ''label'', r_short = CHR ''l'', r_param = 0, r_descr = ''Show labels of each field'', r_option = ''''\<rparr>,
     \<lparr>r_long = ''suppress'', r_short = CHR ''s'', r_param = 0, r_descr = ''Suppress printing of the field description'', r_option = ''''\<rparr>,
     \<lparr>r_long = ''calibrate'', r_short = CHR ''b'', r_param = 0, r_descr = ''Print calibration parameters'', r_option = ''''\<rparr>,
     \<lparr>r_long = ''header'', r_short = CHR ''r'', r_param = 0, r_descr = ''Print data field names (as read from device)'', r_option = ''''\<rparr>,
     \<lparr>r_long = ''interval'', r_short = CHR ''i'', r_param = 2, r_descr = ''Get/Set sampling interval'', r_option = ''<n>''\<rparr>,
     \<lparr>r_long = ''mode'', r_short = CHR ''m'', r_param = 2, r_descr = ''Get/Set display mode'', r_option = ''<n>''\<rparr>,
     \<lparr>r_long = ''user'', r_short = CHR ''u'', r_param = 2, r_descr = ''Get/Set user parameters'', r_option = ''<str>''\<rparr>,
     \<lparr>r_long = ''show-all'', r_short = CHR ''a'', r_param = 0, r_descr = ''Show all device parameters'', r_option = ''''\<rparr>,
     \<lparr>r_long = ''no-data'', r_short = CHR ''N'', r_param = 0, r_descr = ''Don'' @ [CHR 0x27] @ ''t read any data (just read device info)'', r_option = ''''\<rparr>,
     \<lparr>r_long = ''set-only'', r_short = CHR ''S'', r_param = 0, r_descr = ''Set parameters only (don'' @ [CHR 0x27] @ ''t read them back)'', r_option = ''''\<rparr>]"

definition wu_show_version :: "(wu, int) machine" where
  "wu_show_version = mbind (put (''wattsup Version 0.02'' @ [CHR 0x0A])) (\<lambda>_. mret 0)"

text \<open>\<open>%*c\<close> of a space with a width, which may be negative; \<open>%12s\<close> of a string, which may be null.\<close>

definition pad :: "int \<Rightarrow> string" where
  "pad n = replicate (max 1 (nat \<bar>n\<bar>)) CHR '' ''"

definition null_str :: "string option \<Rightarrow> string" where
  "null_str s = (case s of None \<Rightarrow> ''(null)'' | Some s \<Rightarrow> s)"

definition help_option :: "opt_row \<Rightarrow> string" where
  "help_option r =
     (let arg = (if r_param r = 0 then '' '' else if r_param r = 1 then '' '' @ r_option r
                 else '' ['' @ r_option r @ '']'');
          larg = (if r_param r = 0 then '' '' else if r_param r = 1 then ''='' @ r_option r
                  else ''[='' @ r_option r @ '']'');
          n = int (length arg);
          mid = pad (n - 12) @ ''| '' @ ''--'' @ r_long r @ larg;
          n = n + int (length mid)
      in ''  -'' @ [r_short r] @ arg @ mid @ pad (40 - n) @ r_descr r @ [CHR 0x0A])"

definition wu_show_help :: "(wu, int) machine" where
  "wu_show_help =
     mbind wu_show_version (\<lambda>_.
     mbind (put (concat (map (\<lambda>l. l @ [CHR 0x0A])
       [''  A program for interfacing with the Watts Up? Power Meter'', '''',
        ''Usage: wattsup [<options> ... ] <device> [ <values> ... ]'', '''',
        ''<device> is the serial port the device is connected at.'', '''',
        ''<options> are any of the following:'']))) (\<lambda>_.
     mbind (put (concat (map help_option wu_option_rows))) (\<lambda>_.
     mbind (put ([CHR 0x0A] @ ''<value> specifies which of these to print out (default: ALL)'' @ [CHR 0x0A])) (\<lambda>_.
     mbind (put (concat (map (\<lambda>(n, d). replicate (12 - length (null_str n)) CHR '' '' @ null_str n @ '' -- '' @
                           null_str d @ [CHR 0x0A]) wu_fields) @ [CHR 0x0A])) (\<lambda>_.
     mret 0)))))"

definition wu_show :: "nat \<Rightarrow> (wu, int) machine" where
  "wu_show i =
     (if i = wu_option_help then wu_show_help
      else if i = wu_option_version then wu_show_version
      else if i = wu_option_cal then wu_show_cal
      else if i = wu_option_header then wu_show_header
      else if i = wu_option_interval then wu_show_interval
      else if i = wu_option_mode then wu_show_mode
      else if i = wu_option_user then wu_show_user
      else mret 0)"

text \<open>The column \<open>store\<close> of the table.\<close>

definition wu_store :: "nat \<Rightarrow> (wu, int) machine" where
  "wu_store i =
     (if i = wu_option_count then wu_store_count
      else if i = wu_option_final then store_flag (\<lambda>w. w\<lparr>w_final := True\<rparr>)
      else if i = wu_option_delim then wu_store_delim
      else if i = wu_option_newline then store_flag (\<lambda>w. w\<lparr>w_newline := True\<rparr>)
      else if i = wu_option_localtime then store_flag (\<lambda>w. w\<lparr>w_localtime := True\<rparr>)
      else if i = wu_option_gmtime then store_flag (\<lambda>w. w\<lparr>w_gmtime := True\<rparr>)
      else if i = wu_option_label then store_flag (\<lambda>w. w\<lparr>w_label := True\<rparr>)
      else if i = wu_option_suppress then store_flag (\<lambda>w. w\<lparr>w_suppress := True\<rparr>)
      else if i = wu_option_interval then wu_store_interval
      else if i = wu_option_mode then wu_store_mode
      else if i = wu_option_user then wu_store_user
      else if i = wu_option_info_all then store_flag (\<lambda>w. w\<lparr>w_info_all := True\<rparr>)
      else if i = wu_option_no_data then store_flag (\<lambda>w. w\<lparr>w_no_data := True\<rparr>)
      else if i = wu_option_set_only then store_flag (\<lambda>w. w\<lparr>w_set_only := True\<rparr>)
      else mret 0)"

definition wu_check_option :: "nat \<Rightarrow> (wu, bool) machine" where
  "wu_check_option i = mget (\<lambda>w. i < length (w_options w) \<and> o_flag (w_options w ! i))"

definition wu_check_show :: "nat \<Rightarrow> (wu, bool) machine" where
  "wu_check_show i =
     mbind (wu_check_option i) (\<lambda>b.
     if b then mbind (wu_show i) (\<lambda>_. mret True) else mret False)"

definition wu_check_store :: "nat \<Rightarrow> (wu, int) machine" where
  "wu_check_store i = mbind (wu_check_option i) (\<lambda>b. if b then wu_store i else mret 0)"

section \<open>The command line\<close>

definition make_shortopt :: string where
  "make_shortopt =
     concat (map (\<lambda>r. [r_short r] @ (if r_param r = 0 then [] else if r_param r = 1 then '':'' else '';'')) wu_option_rows)"

text \<open>
  \<open>getopt_long\<close> of glibc in its default mode, where options and other arguments may be mixed: the results of
  the successive calls and the other arguments, which end up behind \<open>optind\<close>. \<open>LongOpt\<close> has the index of
  the option, \<open>ShortOpt\<close> its character, each with \<open>optarg\<close>; \<open>BadOpt\<close> is the return of a question
  mark, after which \<open>parse_args\<close> does not call it again. The name of a long option may be abbreviated
  where that is unambiguous.
\<close>

definition is_prefix :: "string \<Rightarrow> string \<Rightarrow> bool" where
  "is_prefix s t \<longleftrightarrow> take (length s) t = s"

definition find_long :: "string \<Rightarrow> nat option" where
  "find_long name =
     (let idx = [0..<length wu_option_rows]
      in case filter (\<lambda>i. r_long (wu_option_rows ! i) = name) idx of
           i # _ \<Rightarrow> Some i
         | [] \<Rightarrow> (case filter (\<lambda>i. is_prefix name (r_long (wu_option_rows ! i))) idx of
                    [i] \<Rightarrow> Some i
                  | _ \<Rightarrow> None))"

definition long_result :: "string \<Rightarrow> string list \<Rightarrow> getopt_result \<times> string list" where
  "long_result body rest =
     (let name = takeWhile (\<lambda>c. c \<noteq> CHR ''='') body;
          val = (case dropWhile (\<lambda>c. c \<noteq> CHR ''='') body of [] \<Rightarrow> None | _ # v \<Rightarrow> Some v)
      in case find_long name of
           None \<Rightarrow> (BadOpt, rest)
         | Some i \<Rightarrow>
             (case val of
                Some v \<Rightarrow> if r_param (wu_option_rows ! i) = 0 then (BadOpt, rest) else (LongOpt i (Some v), rest)
              | None \<Rightarrow>
                  if r_param (wu_option_rows ! i) = 1
                  then (case rest of [] \<Rightarrow> (BadOpt, rest) | v # rest' \<Rightarrow> (LongOpt i (Some v), rest'))
                  else (LongOpt i None, rest)))"

lemma long_result_rest: "length (snd (long_result b rest)) \<le> length rest"
  by (auto simp: long_result_def Let_def split: option.splits list.splits)

function getopt_long :: "string list \<Rightarrow> getopt_result list \<times> string list" where
  "getopt_long [] = ([], [])"
| "getopt_long (a # rest) =
     (if a = ''--'' then ([], rest)
      else if is_prefix ''--'' a then
        (case long_result (drop 2 a) rest of (r, rest') \<Rightarrow>
         case getopt_long rest' of (rs, others) \<Rightarrow> (r # rs, others))
      else if chr_at a 0 = CHR ''-'' \<and> a \<noteq> ''-'' then
        (case short_results make_shortopt (tl a) rest of (r, rest') \<Rightarrow>
         case getopt_long rest' of (rs, others) \<Rightarrow> (r @ rs, others))
      else (case getopt_long rest of (rs, others) \<Rightarrow> (rs, a # others)))"
  by pat_completeness auto
termination
  by (relation "measure length")
     (auto simp: less_Suc_eq_le dest: sym [of "(_, _)"],
      metis long_result_rest snd_conv, metis short_results_rest snd_conv)

definition set_option :: "nat \<Rightarrow> string option \<Rightarrow> (wu, unit) machine" where
  "set_option i arg =
     mmod (\<lambda>w. w\<lparr>w_options := (w_options w)[i := \<lparr>o_flag = True,
       o_value = (case arg of None \<Rightarrow> o_value (w_options w ! i) | Some v \<Rightarrow> Some v)\<rparr>]\<rparr>)"

definition enable_short_option :: "char \<Rightarrow> string option \<Rightarrow> (wu, unit) machine" where
  "enable_short_option c arg =
     (case filter (\<lambda>i. r_short (wu_option_rows ! i) = c) [0..<length wu_option_rows] of
        [] \<Rightarrow> mret ()
      | i # _ \<Rightarrow> set_option i arg)"

fun apply_options :: "getopt_result list \<Rightarrow> (wu, int) machine" where
  "apply_options [] = mret 0"
| "apply_options (BadOpt # rs) = mret (-1)"
| "apply_options (LongOpt i arg # rs) =
     mbind (set_option i arg) (\<lambda>_.
     mbind (put (''long option: val = '' @ [r_short (wu_option_rows ! i)] @ '', optarg = '' @ null_str arg @ [CHR 0x0A])) (\<lambda>_.
     apply_options rs))"
| "apply_options (ShortOpt c arg # rs) = mbind (enable_short_option c arg) (\<lambda>_. apply_options rs)"

fun enable_fields :: "string list \<Rightarrow> (wu, unit) machine" where
  "enable_fields [] = mret ()"
| "enable_fields (n # ns) = mbind (enable_field n) (\<lambda>_. enable_fields ns)"

text \<open>\<open>parse_args\<close> on the arguments behind \<open>argv[0]\<close>; None is the call of \<open>exit(0)\<close>.\<close>

definition parse_args :: "string list \<Rightarrow> (wu, int option) machine" where
  "parse_args argv =
     (let (results, others) = getopt_long argv in
      mbind (apply_options results) (\<lambda>ret.
      if ret \<noteq> 0 then mret (Some ret)
      else
        mbind (wu_check_show wu_option_help) (\<lambda>shown.
        if shown then mret None
        else
          mbind (wu_check_show wu_option_version) (\<lambda>shown.
          if shown then mret None
          else
            (case others of
               [] \<Rightarrow> mbind (wu_show wu_option_help) (\<lambda>_. mret (Some (-1)))
             | dev # names \<Rightarrow>
                 mbind (mmod (\<lambda>w. w\<lparr>w_device := dev\<rparr>)) (\<lambda>_.
                 mbind (if names \<noteq> [] then enable_fields names else enable_all_fields) (\<lambda>_.
                 mret (Some 0))))))))"

section \<open>Device and main program\<close>

text \<open>
  \<open>perr\<close> with a format and nothing else: a percent sign in it makes \<open>vsnprintf\<close> fetch an argument that was not
  passed.
\<close>

definition perr :: "string \<Rightarrow> (wu, unit) machine" where
  "perr fmt = (if has_chr fmt CHR ''%'' then mfail OutOfBounds else mret ())"

text \<open>\<open>open_device\<close>: its return value and \<open>*dev_fd\<close>, which is \<open>fd\<close> before the call.\<close>

definition open_device :: "int \<Rightarrow> (wu, int \<times> int) machine" where
  "open_device fd =
     mbind (mget w_sys) (\<lambda>sys.
     mbind (mget w_device) (\<lambda>device_name.
     if s_open_cwd sys < 0 then mret (s_open_cwd sys, fd)
     else if s_chdir sys \<noteq> 0 then mret (s_chdir sys, fd)
     else if fst (s_tty sys) < 0 then mbind (perr device_name) (\<lambda>_. mret (fst (s_tty sys), fd))
     else if \<not> snd (s_tty sys) then mret (fst (s_tty sys), fd)
     else if fst (s_dev sys) < 0 then mret (fst (s_dev sys), fd)
     else if \<not> snd (s_dev sys) then mret (-1, fd)
     else if s_access sys \<noteq> 0 then mret (s_access sys, fd)
     else if s_open sys < 0 then mbind (perr ''Could not open %s'') (\<lambda>_. mret (s_open sys, fd))
     else mret (0, s_open sys)))"

definition setup_serial_device :: "wu_sys \<Rightarrow> int" where
  "setup_serial_device sys =
     (if s_tcget sys \<noteq> 0 then s_tcget sys else if s_tcset sys \<noteq> 0 then s_tcset sys else 0)"

text \<open>A sequence of \<open>if ((ret = wu_check_store(...))) goto Close\<close>: the first return value that is not 0.\<close>

fun check_stores :: "nat list \<Rightarrow> (wu, int) machine" where
  "check_stores [] = mret 0"
| "check_stores (i # is) = mbind (wu_check_store i) (\<lambda>ret. if ret \<noteq> 0 then mret ret else check_stores is)"

definition show_info :: "(wu, unit) machine" where
  "show_info =
     mbind (mget w_info_all) (\<lambda>all.
     if all then
       mbind (wu_show wu_option_cal) (\<lambda>_.
       mbind (wu_show wu_option_header) (\<lambda>_.
       mbind (wu_show wu_option_interval) (\<lambda>_.
       mbind (wu_show wu_option_mode) (\<lambda>_.
       mbind (wu_show wu_option_user) (\<lambda>_. mret ())))))
     else
       mbind (wu_check_show wu_option_cal) (\<lambda>_.
       mbind (wu_check_show wu_option_header) (\<lambda>_.
       mbind (mget w_set_only) (\<lambda>set_only.
       if set_only then mret ()
       else
         mbind (wu_check_show wu_option_interval) (\<lambda>_.
         mbind (wu_check_show wu_option_mode) (\<lambda>_.
         mbind (wu_check_show wu_option_user) (\<lambda>_. mret ())))))))"

definition read_phase :: "(wu, int) machine" where
  "read_phase =
     mbind (mget w_no_data) (\<lambda>no_data.
     if no_data then mret 0
     else
       mbind (check_stores [wu_option_count, wu_option_final]) (\<lambda>ret.
       if ret \<noteq> 0 then mret ret
       else
         mbind wu_start_log (\<lambda>ret.
         if ret \<noteq> 0 then mret ret
         else mbind wu_read_data (\<lambda>_. mbind wu_stop_log (\<lambda>_. mret ret)))))"

text \<open>\<open>main\<close> on the arguments behind \<open>argv[0]\<close>: the exit status, before it is cut to eight bits.\<close>

definition wattsup_main :: "string list \<Rightarrow> (wu, int) machine" where
  "wattsup_main argv =
     mbind (parse_args argv) (\<lambda>parsed.
     if parsed \<noteq> Some 0 then mret 0
     else
       mbind (wu_check_store wu_option_debug) (\<lambda>ret.
       if ret \<noteq> 0 then mret ret
       else
         mbind (open_device 0) (\<lambda>(ret, fd).
         if ret \<noteq> 0 then mret ret
         else
           mbind (mget (\<lambda>w. setup_serial_device (w_sys w))) (\<lambda>ret.
           if ret \<noteq> 0 then mret ret
           else
             mbind wu_clear (\<lambda>_.
             mbind (check_stores [wu_option_delim, wu_option_label, wu_option_newline, wu_option_suppress,
                      wu_option_localtime, wu_option_gmtime, wu_option_set_only, wu_option_no_data,
                      wu_option_info_all, wu_option_interval, wu_option_mode, wu_option_user]) (\<lambda>ret.
             if ret \<noteq> 0 then mret ret
             else mbind show_info (\<lambda>_. read_phase)))))))"

text \<open>The globals at the start of the program, in an environment.\<close>

definition wu_start ::
  "wu_sys \<Rightarrow> (string \<Rightarrow> string) \<Rightarrow> int list \<Rightarrow> string option list \<Rightarrow> int option list \<Rightarrow> string list \<Rightarrow> wu" where
  "wu_start sys tenth selects reads writes clock =
     \<lparr>w_device = ''ttyUSB0'', w_count = 0, w_delim = '', '', w_final = False, w_interval = 1, w_label = False,
      w_newline = False, w_suppress = False, w_localtime = False, w_gmtime = False, w_info_all = False,
      w_no_data = False, w_set_only = False, w_enable = replicate wu_num_fields False,
      w_options = replicate (length wu_option_rows) \<lparr>o_flag = False, o_value = None\<rparr>, w_sys = sys,
      w_tenth = tenth, w_selects = selects, w_reads = reads, w_repeat = None, w_writes = writes, w_times = clock,
      w_sent = [], w_out = []\<rparr>"

end
