(* ===== verification/Wattsup_Packet.thy ===== *)
theory Wattsup_Packet
  imports Wattsup
begin

text \<open>
  The packets of the Watts Up? meter: a command that is written parses back into what it was built from, a
  command never leaves its buffer, and parsing is safe for every answer that has fewer than 256 bytes and
  at most 20 delimiters.
\<close>

section \<open>Writing\<close>

lemma dec_nat_length: "n < 10 ^ k \<Longrightarrow> 0 < k \<Longrightarrow> length (dec_nat n) \<le> k"
proof (induction k arbitrary: n)
  case (Suc k)
  show ?case
  proof (cases "n < 10")
    case True
    then show ?thesis by (subst dec_nat.simps) simp
  next
    case False
    with Suc.prems have "n div 10 < 10 ^ k" "0 < k" by (auto intro!: gr0I simp: less_mult_imp_div_less)
    with Suc.IH [of "n div 10"] False show ?thesis by (subst dec_nat.simps) simp
  qed
qed simp

lemma dec_int_length:
  assumes "\<bar>v\<bar> < 10 ^ 10"
  shows "length (dec_int v) \<le> 11"
proof -
  have "nat \<bar>v\<bar> < 10 ^ 10" using assms by (simp add: nat_less_iff)
  with dec_nat_length [of "nat \<bar>v\<bar>" 10] show ?thesis by (auto simp: dec_int_def abs_if split: if_splits)
qed

lemma dec_word_length: "length (dec_int (sint (v :: u32))) \<le> 11"
  using sint_range_size [of v] by (intro dec_int_length) (auto simp: word_size)

lemma append_fields_bound:
  "append_fields n buf fs = Inr (Some s) \<Longrightarrow> length buf + 4 \<le> wu_strlen \<Longrightarrow> length s + 4 \<le> wu_strlen"
  by (induction n buf fs rule: append_fields.induct) (auto split: if_splits)

lemma wu_command_bound: "wu_command p = Inr (Some s) \<Longrightarrow> length s + 4 \<le> wu_strlen"
  using dec_word_length [of "p_count p"] by (auto simp: wu_command_def dest!: append_fields_bound)

text \<open>The fields of a command, each behind a comma.\<close>

definition comma_fields :: "string list \<Rightarrow> string" where
  "comma_fields fs = concat (map (\<lambda>f. CHR '','' # f) fs)"

lemma append_fields_exact:
  assumes "length buf + length (comma_fields fs) + 4 \<le> wu_strlen"
  shows "append_fields (length fs) buf (map Some fs @ rest) = Inr (Some (buf @ comma_fields fs))"
  using assms by (induction fs arbitrary: buf) (auto simp: comma_fields_def)

section \<open>Parsing\<close>

lemma split_at_hit:
  "c \<in> set cs \<Longrightarrow> \<forall>x\<in>set s. x \<notin> set cs \<Longrightarrow> split_at cs (s @ c # r) = Some (s, r)"
  by (simp add: split_at_def)

lemma split_at_Some:
  assumes "split_at cs s = Some (a, r)"
  shows "\<exists>c. s = a @ c # r \<and> c \<in> set cs \<and> (\<forall>x\<in>set a. x \<notin> set cs)"
proof -
  from assms obtain c where d: "dropWhile (\<lambda>c. c \<notin> set cs) s = c # r" and a: "a = takeWhile (\<lambda>c. c \<notin> set cs) s"
    by (auto simp: split_at_def split: list.splits)
  have "c \<in> set cs" using hd_dropWhile [of "\<lambda>c. c \<notin> set cs" s] d by simp
  moreover have "s = a @ c # r" using takeWhile_dropWhile_id [of "\<lambda>c. c \<notin> set cs" s] a d by simp
  ultimately show ?thesis using a by (auto dest: set_takeWhileD)
qed

text \<open>A field as the meter and the program use them: no delimiter and no NUL in it, no blank in front.\<close>

definition field_ok :: "string \<Rightarrow> bool" where
  "field_ok f \<longleftrightarrow> list_all (\<lambda>c. c \<notin> set [CHR '','', CHR '';'', CHR 0x00]) f \<and> \<not> is_space (chr_at f 0)"

lemma field_ok_skip: "field_ok f \<Longrightarrow> dropWhile is_space f = f"
  by (cases f) (auto simp: field_ok_def chr_at_def)

lemma parse_fields_exact:
  assumes "list_all field_ok fs" "i + length fs \<le> wu_num_fields"
  shows "parse_fields i (i + length fs) (Some (tl (comma_fields fs) @ (if fs = [] then [] else '';''))) acc
    = Inr (Some (acc @ fs))"
  using assms
proof (induction fs arbitrary: i acc)
  case Nil
  then show ?case by (subst parse_fields.simps) simp
next
  case (Cons f fs)
  then have ok: "field_ok f" and lt: "i < wu_num_fields" by auto
  define sep where "sep = (if fs = [] then CHR '';'' else CHR '','')"
  have "tl (comma_fields (f # fs)) @ '';'' = f @ sep # (tl (comma_fields fs) @ (if fs = [] then [] else '';''))"
    by (cases fs) (auto simp: comma_fields_def sep_def)
  moreover have "split_at '',;'' (f @ sep # r) = Some (f, r)" for r
    using ok by (intro split_at_hit) (auto simp: sep_def field_ok_def list_all_iff)
  ultimately have "split_at '',;'' (tl (comma_fields (f # fs)) @ '';'')
    = Some (f, tl (comma_fields fs) @ (if fs = [] then [] else '';''))" by simp
  with Cons.IH [of "i + 1" "acc @ [f]"] Cons.prems lt field_ok_skip [OF ok] show ?case
    by (subst parse_fields.simps) simp
qed

lemma no_nul_comma_fields: "list_all field_ok fs \<Longrightarrow> CHR 0x00 \<notin> set (comma_fields fs)"
  by (induction fs) (auto simp: comma_fields_def field_ok_def list_all_iff)

lemma dec_nat_chars: "c \<in> set (dec_nat n) \<Longrightarrow> is_digit c"
  using dec_nat_digits [of n] by (simp add: list_all_iff)

lemma digit_not_special: "is_digit c \<Longrightarrow> c \<noteq> CHR 0x00 \<and> c \<noteq> CHR '','' \<and> c \<noteq> CHR '';''"
  by (auto simp: is_digit_def Let_def)

lemma parse_command:
  assumes fs: "list_all field_ok fs" "0 < length fs" "length fs \<le> wu_num_fields"
    and cmd: "cmd \<notin> set [CHR '','', CHR 0x00]" "sub \<notin> set [CHR '','', CHR 0x00]"
    and len: "length s < wu_strlen"
    and s: "s = ''#'' @ [cmd] @ '','' @ [sub] @ '','' @ dec_nat (length fs) @ comma_fields fs @ '';''"
  shows "parse_packet s p = Inr (0, p\<lparr>p_buf := s, p_cmd := cmd, p_sub_cmd := sub, p_count := of_nat (length fs),
    p_field := map Some fs @ drop (length fs) (p_field p)\<rparr>)"
proof -
  have "CHR 0x00 \<notin> set s"
    using fs(1) cmd no_nul_comma_fields dec_nat_chars digit_not_special by (auto simp: s)
  then have c: "cstr s = s" by simp
  from fs(2) have cf: "comma_fields fs = CHR '','' # tl (comma_fields fs)"
    by (cases fs) (auto simp: comma_fields_def)
  have h: "split_at ''#'' s = Some ([], tl s)" by (simp add: s split_at_def)
  have s1: "split_at '','' (tl s) = Some ([cmd], [sub] @ '','' @ dec_nat (length fs) @ comma_fields fs @ '';'')"
    using cmd by (simp add: s split_at_def)
  have s2: "split_at '','' ([sub] @ '','' @ r) = Some ([sub], r)" for r
    using cmd by (simp add: split_at_def)
  have s3: "split_at '','' (dec_nat (length fs) @ comma_fields fs @ '';'')
      = Some (dec_nat (length fs), tl (comma_fields fs) @ '';'')"
    using dec_nat_chars digit_not_special by (subst cf) (auto intro!: split_at_hit)
  have "length fs < 2 ^ 31" using fs(3) by simp
  then have n: "atoi (dec_nat (length fs)) = int (length fs)" using atoi_dec [of "length fs" "[]"] by simp
  have "unat (of_nat (length fs) :: u32) = length fs" using fs(3) by (simp add: unat_of_nat)
  moreover have "parse_fields 0 (length fs) (Some (tl (comma_fields fs) @ '';'')) [] = Inr (Some fs)"
    using parse_fields_exact [of fs 0 "[]"] fs by auto
  moreover have "chr_at (tl s) 0 = cmd" "chr_at ([sub] @ '','' @ r) 0 = sub" for r
    by (simp_all add: s chr_at_def)
  ultimately show ?thesis
    using len unfolding parse_packet_def c h s1 s2 s3 option.case prod.case Let_def n by simp
qed

lemma wu_command_new:
  assumes "length fs \<le> wu_num_fields" "length (comma_fields fs) + 9 \<le> wu_strlen - 3"
  shows "wu_command (new_packet cmd sub fs labels)
    = Inr (Some (''#'' @ [cmd] @ '','' @ [sub] @ '','' @ dec_nat (length fs) @ comma_fields fs))"
proof -
  have "unat (of_nat (length fs) :: u32) = length fs" using assms(1) by (simp add: unat_of_nat)
  moreover have "sint (of_nat (length fs) :: u32) = int (length fs)"
    using assms(1) by (simp add: signed_of_nat signed_take_bit_int_eq_self)
  moreover have "length (dec_nat (length fs)) \<le> 2" using assms(1) by (intro dec_nat_length) auto
  ultimately show ?thesis
    using assms(2) append_fields_exact [of "''#'' @ [cmd] @ '','' @ [sub] @ '','' @ dec_nat (length fs)" fs]
    by (simp add: wu_command_def new_packet_def dec_int_def)
qed

section \<open>Answers that parse safely\<close>

definition is_delim :: "char \<Rightarrow> bool" where
  "is_delim c \<longleftrightarrow> c \<in> set '',;''"

definition delims :: "string \<Rightarrow> nat" where
  "delims s = length (filter is_delim s)"

lemma delims_append [simp]: "delims (s @ t) = delims s + delims t"
  and delims_Cons: "delims (c # s) = (if is_delim c then 1 else 0) + delims s"
  by (simp_all add: delims_def)

lemma delims_split: "split_at cs s = Some (a, r) \<Longrightarrow> delims r \<le> delims s"
  by (drule split_at_Some) (auto simp: delims_Cons)

lemma delims_split_comma: "split_at '','' s = Some (a, r) \<Longrightarrow> Suc (delims r) \<le> delims s"
  by (drule split_at_Some) (auto simp: delims_Cons is_delim_def)

lemma delims_split_delim: "split_at '',;'' s = Some (a, r) \<Longrightarrow> Suc (delims r) \<le> delims s"
  by (elim split_at_Some [THEN exE] conjE) (simp add: delims_Cons is_delim_def)

lemma set_split: "split_at cs s = Some (a, r) \<Longrightarrow> set a \<subseteq> set s \<and> set r \<subseteq> set s"
  by (elim split_at_Some [THEN exE] conjE) (simp add: subset_insertI2 le_supI2)

text \<open>
  From parameter \<open>i\<close> on, with a pointer that is not null or nothing left to read, the loop stays inside
  \<open>p->field\<close> when at most \<open>17 - i\<close> delimiters are left, and what it stores comes from the string.
\<close>

lemma parse_fields_safe:
  assumes "case s of None \<Rightarrow> n \<le> i | Some t \<Rightarrow> i + delims t < wu_num_fields \<and> set t \<subseteq> C"
    and "length acc = i" "i \<le> wu_num_fields" "\<Union> (set (map set acc)) \<subseteq> C" "i \<le> n"
  shows "parse_fields i n s acc = Inr None
    \<or> (\<exists>fs. parse_fields i n s acc = Inr (Some fs) \<and> length fs = n \<and> n \<le> wu_num_fields \<and> \<Union> (set (map set fs)) \<subseteq> C)"
  using assms
proof (induction i n s acc rule: parse_fields.induct)
  case (1 i n s acc)
  show ?case
  proof (cases "i < n")
    case False
    with "1.prems" show ?thesis by (subst (1 2) parse_fields.simps) auto
  next
    case True
    with "1.prems" obtain t where t: "s = Some t" "i + delims t < wu_num_fields" "set t \<subseteq> C"
      by (auto split: option.splits)
    show ?thesis
    proof (cases "split_at '',;'' t")
      case None
      show ?thesis
      proof (cases "i < n - 1")
        case True
        with \<open>i < n\<close> t None show ?thesis by (subst (1) parse_fields.simps) simp
      next
        case False
        have "parse_fields i n s acc = parse_fields (i + 1) n None (acc @ [dropWhile is_space t])"
          using \<open>i < n\<close> False t None by (subst parse_fields.simps) simp
        moreover have "set (dropWhile is_space t) \<subseteq> C" using t(3) by (auto dest: set_dropWhileD)
        moreover have n: "n = Suc i" using \<open>i < n\<close> False by simp
        ultimately show ?thesis
          using "1.IH"(1) [OF \<open>i < n\<close> t(1) None False] "1.prems" t(1,2) by (simp add: n)
      qed
    next
      case (Some fr)
      then obtain f r where fr: "split_at '',;'' t = Some (f, r)" by (cases fr) auto
      have "parse_fields i n s acc = parse_fields (i + 1) n (Some r) (acc @ [dropWhile is_space f])"
        using \<open>i < n\<close> t fr by (subst parse_fields.simps) simp
      moreover have "set (dropWhile is_space f) \<subseteq> C" "set r \<subseteq> C"
        using t(3) set_split [OF fr] by (auto dest: set_dropWhileD)
      ultimately show ?thesis
        using "1.IH"(2) [OF \<open>i < n\<close> t(1) fr] "1.prems" t \<open>i < n\<close> delims_split_delim [OF fr] by simp
    qed
  qed
qed

definition answer_ok :: "string \<Rightarrow> bool" where
  "answer_ok b \<longleftrightarrow> length b < wu_strlen \<and> delims (cstr b) \<le> 20"

text \<open>A packet after a successful read: it has all of its fields, made of characters of \<open>C\<close>.\<close>

definition packet_full :: "char set \<Rightarrow> wu_packet \<Rightarrow> bool" where
  "packet_full C p \<longleftrightarrow> unat (p_count p) \<le> wu_num_fields
    \<and> (\<forall>i < unat (p_count p). \<exists>f. p_field p ! i = Some f \<and> set f \<subseteq> C)"

lemma parse_packet_safe:
  assumes "answer_ok b" "length (p_field p) = wu_num_fields"
  shows "\<exists>r p'. parse_packet b p = Inr (r, p') \<and> (r = 0 \<or> r = -1) \<and> length (p_field p') = wu_num_fields
    \<and> p_label p' = p_label p \<and> (r = 0 \<longrightarrow> packet_full (set (cstr b)) p')"
proof -
  note split_at_splits = delims_split delims_split_comma set_split
  show ?thesis
  proof (cases "\<exists>a1 s1 a2 s2 a3 s3 num s4. split_at ''#'' (cstr b) = Some (a1, s1) \<and> split_at '','' s1 = Some (a2, s2)
      \<and> split_at '','' s2 = Some (a3, s3) \<and> split_at '','' s3 = Some (num, s4)")
    case False
    with assms show ?thesis
      by (auto simp: parse_packet_def answer_ok_def Let_def split: option.splits)
  next
    case True
    then obtain a1 s1 a2 s2 a3 s3 num s4 where sp: "split_at ''#'' (cstr b) = Some (a1, s1)"
      "split_at '','' s1 = Some (a2, s2)" "split_at '','' s2 = Some (a3, s3)" "split_at '','' s3 = Some (num, s4)" by blast
    have C: "set s4 \<subseteq> set (cstr b)" using sp [THEN set_split] by blast
    have "delims s4 < wu_num_fields"
      using delims_split [OF sp(1)] delims_split_comma [OF sp(2)] delims_split_comma [OF sp(3)]
        delims_split_comma [OF sp(4)] assms(1) by (simp add: answer_ok_def)
    with C have "parse_fields 0 n (Some s4) [] = Inr None
      \<or> (\<exists>fs. parse_fields 0 n (Some s4) [] = Inr (Some fs) \<and> length fs = n \<and> n \<le> wu_num_fields
            \<and> \<Union> (set (map set fs)) \<subseteq> set (cstr b))" for n
      by (intro parse_fields_safe) auto
    from this [of "unat (of_int (atoi num) :: u32)"] assms sp show ?thesis
      by (fastforce simp: parse_packet_def answer_ok_def Let_def packet_full_def nth_append)
  qed
qed

section \<open>Properties\<close>

text \<open>
  A command of the program reads back. For one to eighteen fields without delimiters, NULs and leading blanks
  that fit into the buffer, \<open>wu_write\<close> builds a command line, and \<open>parse_packet\<close> on that line (with the
  final semicolon) succeeds and recovers the command, the sub-command, the number of fields and every field;
  the other fields of the packet and its labels stay as they were.
\<close>

theorem packet_round_trip:
  assumes "list_all field_ok fs" "0 < length fs" "length fs \<le> wu_num_fields"
    and "cmd \<notin> set [CHR '','', CHR 0x00]" "sub \<notin> set [CHR '','', CHR 0x00]"
    and "length (comma_fields fs) \<le> 244"
  shows "\<exists>buf. wu_command (new_packet cmd sub fs labels) = Inr (Some buf)
    \<and> parse_packet (buf @ '';'') p = Inr (0, p\<lparr>p_buf := buf @ '';'', p_cmd := cmd, p_sub_cmd := sub,
        p_count := of_nat (length fs), p_field := map Some fs @ drop (length fs) (p_field p)\<rparr>)"
proof -
  let ?buf = "''#'' @ [cmd] @ '','' @ [sub] @ '','' @ dec_nat (length fs) @ comma_fields fs"
  have "length (dec_nat (length fs)) \<le> 2" using assms(3) by (intro dec_nat_length) auto
  with assms(6) have "length (?buf @ '';'') < wu_strlen" by simp
  from parse_command [OF assms(1-5) this] wu_command_new [of fs cmd sub labels] assms(3,6) show ?thesis by simp
qed

theorem packet_round_trip_witness:
  "\<exists>buf. wu_command (new_packet CHR ''L'' CHR ''W'' [''E'', ''1'', ''1''] []) = Inr (Some buf)
    \<and> parse_packet (buf @ '';'') (new_packet CHR ''L'' CHR ''R'' [] []) = Inr (0, (new_packet CHR ''L'' CHR ''R'' [] [])
        \<lparr>p_buf := buf @ '';'', p_cmd := CHR ''L'', p_sub_cmd := CHR ''W'', p_count := of_nat (length [''E'', ''1'', ''1'']),
         p_field := map Some [''E'', ''1'', ''1''] @ drop (length [''E'', ''1'', ''1'']) (p_field (new_packet CHR ''L'' CHR ''R'' [] []))\<rparr>)"
  by (rule packet_round_trip) (simp_all add: field_ok_def chr_at_def is_space_def comma_fields_def)

text \<open>
  \<open>wu_write\<close> never leaves \<open>p->buf\<close>, whatever the packet: it may find too few fields or a null field, but it
  does not overflow, and a command that it sends has at most 253 bytes and ends with a semicolon.
\<close>

theorem wu_write_stays_in_buffer:
  "wu_write p w \<noteq> Inl BufferOverflow
   \<and> (wu_write p w = Inr (r, w') \<longrightarrow> w_sent w' = w_sent w
      \<or> (\<exists>c. w_sent w' = w_sent w @ [c @ '';''] \<and> length (c @ '';'') \<le> 253))"
proof -
  have "append_fields n buf fs \<noteq> Inl BufferOverflow" for n buf fs
    by (induction n buf fs rule: append_fields.induct) auto
  then have "wu_command p \<noteq> Inl BufferOverflow" by (simp add: wu_command_def)
  then show ?thesis
    by (auto simp: wu_write_def machine_simps dest: wu_command_bound split: sum.splits option.splits)
qed

text \<open>A system on which the device opens, for the examples.\<close>

definition ready_sys :: wu_sys where
  "ready_sys = \<lparr>s_open_cwd = 3, s_chdir = 0, s_tty = (0, True), s_dev = (0, True), s_access = 0, s_open = 4,
     s_tcget = 0, s_tcset = 0\<rparr>"

lemma dec_nat_3: "dec_nat (Suc (Suc (Suc 0))) = ''3''"
  by code_simp

theorem wu_write_stays_in_buffer_witness:
  "\<exists>w'. wu_start_log (wu_start ready_sys (\<lambda>s. s) [] [] [] []) = Inr (0, w') \<and> w_sent w' = [''#L,W,3,E,1,1;'']
    \<and> (w_sent w' = [] \<or> (\<exists>c. w_sent w' = [] @ [c @ '';''] \<and> length (c @ '';'') \<le> 253))"
proof -
  let ?w = "wu_start ready_sys (\<lambda>s. s) [] [] [] []"
  have r: "wu_start_log ?w = Inr (0, ?w\<lparr>w_sent := [''#L,W,3,E,1,1;'']\<rparr>)"
    using wu_command_new [of "[''E'', ''1'', ''1'']" "CHR ''L''" "CHR ''W''" "[]"]
    by (simp add: wu_start_log_def wu_write_def machine_simps wu_start_def comma_fields_def dec_nat_3)
  with wu_write_stays_in_buffer [of "new_packet CHR ''L'' CHR ''W'' [''E'', ''1'', ''1''] []" ?w] show ?thesis
    by (auto simp: wu_start_log_def wu_start_def)
qed

lemma many_fields_overflow:
  "length (''#d,-,19,'' @ concat (replicate 19 ''0,'')) < wu_strlen"
  "split_at ''#'' (cstr (''#d,-,19,'' @ concat (replicate 19 ''0,''))) = Some ([], ''d,-,19,'' @ concat (replicate 19 ''0,''))"
  "split_at '','' (''d,-,19,'' @ concat (replicate 19 ''0,'')) = Some (''d'', ''-,19,'' @ concat (replicate 19 ''0,''))"
  "split_at '','' (''-,19,'' @ concat (replicate 19 ''0,'')) = Some (''-'', ''19,'' @ concat (replicate 19 ''0,''))"
  "split_at '','' (''19,'' @ concat (replicate 19 ''0,'')) = Some (''19'', concat (replicate 19 ''0,''))"
  "unat (of_int (atoi ''19'') :: u32) = 19"
  "parse_fields 0 19 (Some (concat (replicate 19 ''0,''))) [] = Inl BufferOverflow"
  by code_simp+

text \<open>
  Parsing an answer is safe when it has fewer than 256 bytes and at most 20 delimiters: \<open>parse_packet\<close> returns
  0 or -1, and after 0 the packet has at most 18 fields, none of them null and each made of bytes of the answer. Both
  bounds matter: an answer that fills the buffer writes its NUL behind it, and a meter that announces and
  sends 19 fields makes the program write outside \<open>p->field\<close>.
\<close>

theorem answers_parse_safely:
  assumes "length b < wu_strlen" "delims (cstr b) \<le> 20" "length (p_field p) = wu_num_fields"
  shows "(\<exists>r p'. parse_packet b p = Inr (r, p') \<and> (r = 0 \<or> r = -1)
      \<and> (r = 0 \<longrightarrow> unat (p_count p') \<le> wu_num_fields
          \<and> (\<forall>i < unat (p_count p'). \<exists>f. p_field p' ! i = Some f \<and> set f \<subseteq> set (cstr b))))
    \<and> parse_packet (b @ replicate (wu_strlen - length b) CHR ''x'') p = Inl BufferOverflow
    \<and> parse_packet (''#d,-,19,'' @ concat (replicate 19 ''0,'')) p = Inl BufferOverflow"
proof -
  have a: "answer_ok b" using assms by (simp add: answer_ok_def)
  have "parse_packet (b @ replicate (wu_strlen - length b) CHR ''x'') p = Inl BufferOverflow"
    using assms(1) by (simp add: parse_packet_def)
  moreover have "parse_packet (''#d,-,19,'' @ concat (replicate 19 ''0,'')) p = Inl BufferOverflow"
    using many_fields_overflow by (simp add: parse_packet_def Let_def)
  ultimately show ?thesis
    using parse_packet_safe [OF a assms(3)] by (fastforce simp: packet_full_def)
qed

theorem answers_parse_safely_witness:
  "\<exists>r p'. parse_packet ''#d,-,2,10,20;'' data_packet = Inr (r, p') \<and> (r = 0 \<or> r = -1)
      \<and> (r = 0 \<longrightarrow> unat (p_count p') \<le> wu_num_fields
          \<and> (\<forall>i < unat (p_count p'). \<exists>f. p_field p' ! i = Some f \<and> set f \<subseteq> set (cstr ''#d,-,2,10,20;'')))"
proof -
  have "length ''#d,-,2,10,20;'' < wu_strlen" "delims (cstr ''#d,-,2,10,20;'') \<le> 20"
    "length (p_field data_packet) = wu_num_fields"
    by code_simp+
  from answers_parse_safely [OF this] show ?thesis by blast
qed

end
