(* ===== verification/Wattsup_Meter.thy ===== *)
theory Wattsup_Meter
  imports Wattsup_Packet
begin

text \<open>
  The Watts Up? reader as a whole: what it prints of a packet, that its data loop ends and prints one line per
  record, what it does with a silent meter, and that the program runs without a fault with every meter whose
  answers parse safely.
\<close>

section \<open>Printing\<close>

text \<open>A field text that can be printed: it has no percent sign.\<close>

definition printable :: "fault + string option \<Rightarrow> bool" where
  "printable t \<longleftrightarrow> (case t of Inl e \<Rightarrow> False | Inr None \<Rightarrow> True | Inr (Some s) \<Rightarrow> CHR ''%'' \<notin> set s)"

lemma mkeeps_put [keeps_intros]: "(\<And>w s. P w \<Longrightarrow> P (w\<lparr>w_out := s\<rparr>)) \<Longrightarrow> mkeeps P (put s)"
  by (auto simp: put_def intro: keeps_intros)

lemma mkeeps_print_fields:
  assumes "\<And>w s. P w \<Longrightarrow> P (w\<lparr>w_out := s\<rparr>)" "\<And>i. i \<in> set is \<Longrightarrow> printable (text i)"
  shows "mkeeps P (print_fields text p is b)"
  using assms(2)
proof (induction "is" arbitrary: b)
  case Nil
  show ?case by (auto simp: intro!: mkeeps_put assms(1))
next
  case (Cons i "is")
  then have t: "printable (text i)" and IH: "\<And>b. mkeeps P (print_fields text p is b)" by auto
  show ?case
  proof (cases "text i")
    case (Inr r)
    with t IH show ?thesis
      by (cases r) (auto simp: printable_def put_format_def has_chr_def
          intro!: keeps_intros mkeeps_put assms(1) split: prod.splits)
  qed (use t in \<open>simp add: printable_def\<close>)
qed

text \<open>The texts that are printed, and how they are joined.\<close>

definition field_items :: "wu \<Rightarrow> (nat \<Rightarrow> fault + string option) \<Rightarrow> wu_packet \<Rightarrow> nat list \<Rightarrow> string list" where
  "field_items w text p is =
     concat (map (\<lambda>i. case text i of
        Inr (Some s) \<Rightarrow> [(if w_label w then ''['' @ null_str (p_label p ! i) @ ''] '' else '''') @ s]
      | _ \<Rightarrow> []) is)"

definition field_sep :: "wu \<Rightarrow> string" where
  "field_sep w = (if w_newline w then [CHR 0x0A] else w_delim w)"

definition join :: "string \<Rightarrow> string list \<Rightarrow> string" where
  "join sep xs = (case xs of [] \<Rightarrow> '''' | x # xs \<Rightarrow> x @ concat (map (\<lambda>y. sep @ y) xs))"

lemma field_upd:
  "field_items (w\<lparr>w_out := x\<rparr>) text p is = field_items w text p is" "field_sep (w\<lparr>w_out := x\<rparr>) = field_sep w"
  by (auto simp: field_items_def field_sep_def intro!: arg_cong [of _ _ concat] split: sum.splits option.splits)

lemma print_fields_spec:
  assumes "\<And>i. i \<in> set is \<Longrightarrow> printable (text i)"
  shows "\<exists>out. print_fields text p is b w = Inr ((), w\<lparr>w_out := w_out w @ out\<rparr>)
    \<and> concat out = (if b then concat (map (\<lambda>y. field_sep w @ y) (field_items w text p is))
                    else join (field_sep w) (field_items w text p is)) @ [CHR 0x0A]"
  using assms
proof (induction "is" arbitrary: b w)
  case Nil
  show ?case
    by (intro exI [of _ "[[CHR 0x0A]]"]) (simp add: put_def machine_simps field_items_def join_def)
next
  case (Cons i "is")
  then have t: "printable (text i)" and IH: "\<And>b w. \<exists>out. print_fields text p is b w = Inr ((), w\<lparr>w_out := w_out w @ out\<rparr>)
    \<and> concat out = (if b then concat (map (\<lambda>y. field_sep w @ y) (field_items w text p is))
                    else join (field_sep w) (field_items w text p is)) @ [CHR 0x0A]" by auto
  show ?case
  proof (cases "text i")
    case (Inl e)
    with t show ?thesis by (simp add: printable_def)
  next
    case (Inr r)
    show ?thesis
    proof (cases r)
      case None
      with Inr have "field_items w text p (i # is) = field_items w text p is" by (simp add: field_items_def)
      with Inr None IH [of b w] show ?thesis by (cases b) simp_all
    next
      case (Some s)
      define lab where "lab = (if w_label w then ''['' @ null_str (p_label p ! i) @ ''] '' else '''')"
      define sep where "sep = (if b then field_sep w else '''')"
      let ?w = "w\<lparr>w_out := w_out w @ [sep, lab, s]\<rparr>"
      from IH [of True ?w] obtain out where out:
        "print_fields text p is True ?w = Inr ((), ?w\<lparr>w_out := w_out ?w @ out\<rparr>)"
        "concat out = concat (map (\<lambda>y. field_sep w @ y) (field_items w text p is)) @ [CHR 0x0A]"
        by (auto simp: field_upd)
      have "print_fields text p (i # is) b w = print_fields text p is True ?w"
        using Inr Some t
        by (simp add: machine_simps put_format_def has_chr_def printable_def put_def lab_def sep_def
            field_sep_def null_str_def)
      moreover have "field_items w text p (i # is) = (lab @ s) # field_items w text p is"
        using Inr Some by (simp add: field_items_def lab_def)
      ultimately show ?thesis
        using out by (intro exI [of _ "[sep, lab, s] @ out"]) (simp add: join_def sep_def)
    qed
  qed
qed

section \<open>An invariant for a well-behaved meter\<close>

text \<open>
  The answers of the meter parse safely and have no percent sign, nor has a converted number or the name of the device, which can be opened. \<open>k\<close> bounds how
  often \<open>select\<close> still has something of the script to report, \<open>rep\<close> is what the meter goes on with, \<open>c\<close> is the number of records to read and \<open>os\<close> are the options.
\<close>

definition meter_ok :: "wu_option list \<Rightarrow> string option \<Rightarrow> nat \<Rightarrow> int \<Rightarrow> wu \<Rightarrow> bool" where
  "meter_ok os rep k c w \<longleftrightarrow>
     (\<forall>b. Some b \<in> set (w_reads w) \<or> w_repeat w = Some b \<longrightarrow> answer_ok b \<and> CHR ''%'' \<notin> set b)
     \<and> w_repeat w = rep \<and> CHR ''%'' \<notin> set (w_device w) \<and> 0 \<le> s_open (w_sys w)
     \<and> (\<forall>s. CHR ''%'' \<notin> set (w_tenth w s))
     \<and> length (w_selects w) \<le> k \<and> w_count w = c \<and> w_options w = os"

lemma meter_ok_upd [simp]:
  "meter_ok os rep k c (w\<lparr>w_out := x\<rparr>) = meter_ok os rep k c w" "meter_ok os rep k c (w\<lparr>w_times := t\<rparr>) = meter_ok os rep k c w"
  "meter_ok os rep k c (w\<lparr>w_writes := a\<rparr>) = meter_ok os rep k c w" "meter_ok os rep k c (w\<lparr>w_sent := b\<rparr>) = meter_ok os rep k c w"
  by (simp_all add: meter_ok_def)

lemma meter_ok_mono: "meter_ok os rep k c w \<Longrightarrow> k \<le> l \<Longrightarrow> meter_ok os rep l c w"
  by (auto simp: meter_ok_def)

text \<open>A packet whose first \<open>p_count\<close> fields are there and printable.\<close>

definition fields_there :: "wu_packet \<Rightarrow> bool" where
  "fields_there p \<longleftrightarrow> length (p_field p) = wu_num_fields"

definition fields_good :: "wu_packet \<Rightarrow> bool" where
  "fields_good p \<longleftrightarrow> fields_there p \<and> unat (p_count p) \<le> wu_num_fields
     \<and> (\<forall>i < unat (p_count p). \<exists>f. p_field p ! i = Some f \<and> CHR ''%'' \<notin> set f)"

lemma fields_there_new [simp]: "length fs \<le> wu_num_fields \<Longrightarrow> fields_there (new_packet cmd sub fs labels)"
  by (simp add: fields_there_def new_packet_def no_fields_def)

lemma fields_good_text: "fields_good p \<Longrightarrow> i < unat (p_count p) \<Longrightarrow>
    \<exists>f. the_field p i = Inr f \<and> CHR ''%'' \<notin> set f"
  by (fastforce simp: fields_good_def the_field_def fields_there_def)

text \<open>What a read delivers: with \<open>Suc k\<close> possible reports it uses one of them, with none it fails.\<close>

lemma wu_read_spec:
  assumes "fields_there p"
  shows "mspec (meter_ok os rep k c) (wu_read p)
    (\<lambda>(ret, p') w. meter_ok os rep (k - 1) c w \<and> fields_there p' \<and> (ret = 0 \<longrightarrow> fields_good p' \<and> (0 < k \<or> rep \<noteq> None)))"
proof (rule mspecI)
  fix w assume ok: "meter_ok os rep k c w"
  have read: "\<exists>a t. (case parse_packet (take wu_strlen b) p of Inl e \<Rightarrow> mfail e | Inr r \<Rightarrow> mret r) w' = Inr (a, t)
      \<and> (case a of (ret, p') \<Rightarrow> \<lambda>w. meter_ok os rep (k - 1) c w \<and> fields_there p' \<and> (ret = 0 \<longrightarrow> fields_good p' \<and> (0 < k \<or> rep \<noteq> None))) t"
    if "answer_ok b" "CHR ''%'' \<notin> set b" "meter_ok os rep (k - 1) c w'" "0 < k \<or> rep \<noteq> None" for b w'
  proof -
    have "take wu_strlen b = b" using that(1) by (simp add: answer_ok_def)
    moreover have "set (cstr b) \<subseteq> set b" by (auto simp: cstr_def dest: set_takeWhileD)
    ultimately show ?thesis
      using parse_packet_safe [OF that(1), of p] assms that
      by (fastforce simp: fields_there_def fields_good_def packet_full_def machine_simps)
  qed
  show "\<exists>a t. wu_read p w = Inr (a, t)
      \<and> (case a of (ret, p') \<Rightarrow> \<lambda>w. meter_ok os rep (k - 1) c w \<and> fields_there p' \<and> (ret = 0 \<longrightarrow> fields_good p' \<and> (0 < k \<or> rep \<noteq> None))) t"
  proof -
    define sel where "sel = script_hd (if w_repeat w = None then 0 else 1) (w_selects w)"
    let ?w = "w\<lparr>w_selects := tl (w_selects w)\<rparr>"
    have w1: "meter_ok os rep (k - 1) c ?w" using ok by (auto simp: meter_ok_def)
    have k: "0 < k \<or> rep \<noteq> None" if "0 < sel" using ok that by (cases "w_selects w") (auto simp: meter_ok_def sel_def split: if_splits)
    show ?thesis
    proof (cases "0 < sel \<and> (\<exists>b. script_hd (w_repeat w) (w_reads w) = Some b)")
      case True
      then obtain b where b: "script_hd (w_repeat w) (w_reads w) = Some b" by auto
      then have "Some b \<in> set (w_reads w) \<or> w_repeat w = Some b" by (cases "w_reads w") auto
      with ok have "answer_ok b" "CHR ''%'' \<notin> set b" by (auto simp: meter_ok_def)
      moreover have "meter_ok os rep (k - 1) c (?w\<lparr>w_reads := tl (w_reads w)\<rparr>)"
        using w1 list.set_sel(2) [of "w_reads w"] by (cases "w_reads w") (auto simp: meter_ok_def)
      ultimately show ?thesis
        using read [of b "?w\<lparr>w_reads := tl (w_reads w)\<rparr>"] True b k by (simp add: wu_read_def machine_simps flip: sel_def)
    next
      case False
      have w2: "meter_ok os rep (k - 1) c (?w\<lparr>w_reads := tl (w_reads w)\<rparr>)"
        using w1 by (cases "w_reads w") (auto simp: meter_ok_def)
      from False consider "sel < 0" | "sel = 0" | "0 < sel" "script_hd (w_repeat w) (w_reads w) = None" by fastforce
      then show ?thesis
        using w1 w2 assms by cases (simp_all add: wu_read_def machine_simps flip: sel_def)
    qed
  qed
qed

lemma wu_read_keeps: "fields_there p \<Longrightarrow> mkeeps (meter_ok os rep k c) (wu_read p)"
  using wu_read_spec [of p os rep k c] meter_ok_mono [of os rep "k - 1" c _ k] by (fastforce simp: mkeeps_def mspec_def)

lemma wu_command_not_fault:
  assumes "length fs \<le> wu_num_fields"
  shows "\<exists>r. wu_command (new_packet cmd sub fs labels) = Inr r"
proof -
  have "\<exists>r. append_fields (length xs) buf (map Some xs @ rest) = Inr r" for buf xs rest
    by (induction xs arbitrary: buf) auto
  moreover have "unat (of_nat (length fs) :: u32) = length fs" using assms by (simp add: unat_of_nat)
  ultimately show ?thesis by (simp add: wu_command_def new_packet_def)
qed

lemma wu_write_keeps [keeps_intros]:
  "length fs \<le> wu_num_fields \<Longrightarrow> mkeeps (meter_ok os rep k c) (wu_write (new_packet cmd sub fs labels))"
  using wu_command_not_fault [of fs cmd sub labels]
  by (auto simp: wu_write_def dest!: wu_command_bound intro!: keeps_intros split: option.splits)

lemma wu_query_spec:
  assumes "length fs \<le> wu_num_fields"
  shows "mspec (meter_ok os rep k c) (wu_query (new_packet cmd sub fs labels))
    (\<lambda>(ret, p') w. meter_ok os rep k c w \<and> (ret = 0 \<longrightarrow> fields_good p'))"
  unfolding wu_query_def
proof (rule mspec_mbind)
  show "mspec (meter_ok os rep k c) (wu_write (new_packet cmd sub fs labels)) (\<lambda>_. meter_ok os rep k c)"
    using wu_write_keeps [OF assms, of os rep k c cmd sub labels] by (simp add: mkeeps_def mspec_def)
next
  fix ret
  show "mspec (meter_ok os rep k c) (if ret \<noteq> 0 then mret (ret, new_packet cmd sub fs labels)
      else wu_read (new_packet cmd sub fs labels)) (\<lambda>(ret, p') w. meter_ok os rep k c w \<and> (ret = 0 \<longrightarrow> fields_good p'))"
    using wu_read_spec [of "new_packet cmd sub fs labels" os rep k c] assms
    by (auto intro!: mspec_mret intro: meter_ok_mono elim!: mspec_weaken)
qed

lemma mkeeps_of_mspec: "mspec P m R \<Longrightarrow> (\<And>a s. R a s \<Longrightarrow> P s \<and> b a) \<Longrightarrow> (\<And>a. b a \<Longrightarrow> mkeeps P (f a)) \<Longrightarrow> mkeeps P (mbind m f)"
  by (fastforce simp: mkeeps_def mspec_def mbind_def)

lemma print_packet_keeps: "fields_good p \<Longrightarrow> mkeeps (meter_ok os rep k c) (print_packet p title)"
  by (auto simp: print_packet_def printable_def dest!: fields_good_text
      intro!: keeps_intros mkeeps_print_fields)

lemma print_packet_filter_keeps:
  assumes "fields_good p"
  shows "mkeeps (meter_ok os rep k c) (print_packet_filter p)"
proof -
  have t: "mkeeps (meter_ok os rep k c) print_time"
    by (auto simp: print_time_def intro!: keeps_intros)
  have "mspec (meter_ok os rep k c) (mget (\<lambda>w. filter_data w p))
    (\<lambda>f w. meter_ok os rep k c w \<and> (\<forall>i < unat (p_count p). printable (f i)))"
    using fields_good_text [OF assms]
    by (fastforce intro!: mspec_mget simp: filter_data_def printable_def meter_ok_def)
  then have "mkeeps (meter_ok os rep k c) (mbind (mget (\<lambda>w. filter_data w p)) (\<lambda>f. print_fields f p [0..<unat (p_count p)] False))"
    by (rule mkeeps_of_mspec [where b = "\<lambda>f. \<forall>i < unat (p_count p). printable (f i)"]) (auto intro!: mkeeps_print_fields)
  with t show ?thesis unfolding print_packet_filter_def by (rule mkeeps_mbind)
qed

lemma wu_show_packet_keeps [keeps_intros]:
  assumes "length fs \<le> wu_num_fields"
  shows "mkeeps (meter_ok os rep k c) (wu_show_packet (new_packet cmd sub fs labels) title)"
  unfolding wu_show_packet_def
  by (rule mkeeps_of_mspec [where b = "\<lambda>(ret, p'). ret = 0 \<longrightarrow> fields_good p'", OF wu_query_spec [OF assms]])
     (auto intro!: keeps_intros print_packet_keeps)

lemma wu_stop_log_keeps [keeps_intros]: "mkeeps (meter_ok os rep k c) wu_stop_log"
  unfolding wu_stop_log_def
  by (rule mkeeps_of_mspec [where b = "\<lambda>(ret, p'). ret = 0 \<longrightarrow> fields_good p'", OF wu_query_spec])
     (auto intro!: keeps_intros print_packet_keeps)

lemma wu_clear_keeps [keeps_intros]: "mkeeps (meter_ok os rep k c) wu_clear"
  by (simp add: wu_clear_def Let_def) (intro keeps_intros wu_read_keeps; simp)

lemma wu_start_log_keeps [keeps_intros]: "mkeeps (meter_ok os rep k c) wu_start_log"
  by (simp add: wu_start_log_def) (intro keeps_intros; simp)

section \<open>The data loop\<close>

text \<open>
  The fuel that the loop needs: with a limit three turns for each record that is missing, less the failures in a row so far; without one a turn for each report, and after the
  last one three failures of a meter that has fallen silent.
\<close>

definition enough :: "string option \<Rightarrow> nat \<Rightarrow> int \<Rightarrow> nat \<Rightarrow> int \<Rightarrow> nat \<Rightarrow> bool" where
  "enough rep k c retry i fuel \<longleftrightarrow>
     (if c = 0 then rep = None \<and> k + 3 - (if k = 0 then retry else 0) \<le> fuel else 3 * nat (c - i) - retry \<le> fuel)"

lemma enough_failure: "enough rep k c retry i (Suc fuel) \<Longrightarrow> retry < 2 \<Longrightarrow> c = 0 \<or> i < c \<Longrightarrow> enough rep (k - 1) c (Suc retry) i fuel"
  by (auto simp: enough_def split: if_splits)

lemma enough_success:
  "enough rep k c retry i (Suc fuel) \<Longrightarrow> retry \<le> 2 \<Longrightarrow> c = 0 \<Longrightarrow> 0 < k \<Longrightarrow> enough rep (k - 1) c 0 i fuel"
  "enough rep k c retry i (Suc fuel) \<Longrightarrow> retry \<le> 2 \<Longrightarrow> c \<noteq> 0 \<Longrightarrow> i + 1 < c \<Longrightarrow> enough rep (k - 1) c 0 (i + 1) fuel"
  by (auto simp: enough_def split: if_splits)

lemma enough_0: "retry \<le> 2 \<Longrightarrow> c = 0 \<or> i < c \<Longrightarrow> \<not> enough rep k c retry i 0"
  by (auto simp: enough_def split: if_splits)

lemma wu_read_loop_ends:
  assumes "fields_there p" "retry \<le> wu_max_retry" "enough rep k c retry i fuel"
    and "0 \<le> i" "c = 0 \<or> i < c" "c < 2 ^ 31" "meter_ok os rep k c w"
  shows "\<exists>w'. wu_read_loop fuel retry i p w = Inr ((), w') \<and> meter_ok os rep k c w'"
  using assms
proof (induction fuel arbitrary: k retry i p w)
  case 0
  then show ?case using enough_0 by blast
next
  case (Suc fuel)
  from mspecD [OF wu_read_spec [OF Suc.prems(1)] Suc.prems(7)] obtain ret p' w1
    where r: "wu_read p w = Inr ((ret, p'), w1)" and w1: "meter_ok os rep (k - 1) c w1" and p': "fields_there p'"
      and good: "ret = 0 \<Longrightarrow> fields_good p' \<and> (0 < k \<or> rep \<noteq> None)" by fastforce
  have mono: "meter_ok os rep (k - 1) c v \<Longrightarrow> meter_ok os rep k c v" for v by (rule meter_ok_mono) auto
  show ?case
  proof (cases "ret = 0")
    case True
    with good have g: "fields_good p'" and k: "0 < k \<or> rep \<noteq> None" by auto
    from mkeepsD [OF print_packet_filter_keeps [OF g] w1] obtain w2
      where pr: "print_packet_filter p' w1 = Inr ((), w2)" and w2: "meter_ok os rep (k - 1) c w2" by auto
    have cnt: "w_count w2 = c" using w2 by (simp add: meter_ok_def)
    consider "c = 0" | "c \<noteq> 0" "i + 1 = c" | "c \<noteq> 0" "i + 1 < c" using Suc.prems(5) by linarith
    then show ?thesis
    proof cases
      case 1
      then have "0 < k" using k Suc.prems(3) by (auto simp: enough_def)
      from Suc.IH [OF p' _ enough_success(1) [OF Suc.prems(3,2) 1 this] Suc.prems(4,5,6) w2] obtain w'
        where "wu_read_loop fuel 0 i p' w2 = Inr ((), w')" "meter_ok os rep (k - 1) c w'" by auto
      moreover from 1 r True pr cnt have "wu_read_loop (Suc fuel) retry i p w = wu_read_loop fuel 0 i p' w2"
        by (simp add: machine_simps)
      ultimately show ?thesis using mono by auto
    next
      case 2
      with r True pr cnt Suc.prems(6) have "wu_read_loop (Suc fuel) retry i p w = Inr ((), w2)"
        by (simp add: machine_simps)
      with mono w2 show ?thesis by auto
    next
      case 3
      have "0 \<le> i + 1" "c = 0 \<or> i + 1 < c" using 3 Suc.prems(4) by auto
      from Suc.IH [OF p' _ enough_success(2) [OF Suc.prems(3,2) 3] this Suc.prems(6) w2] obtain w'
        where "wu_read_loop fuel 0 (i + 1) p' w2 = Inr ((), w')" "meter_ok os rep (k - 1) c w'" by auto
      moreover from 3 r True pr cnt Suc.prems(6) have "wu_read_loop (Suc fuel) retry i p w = wu_read_loop fuel 0 (i + 1) p' w2"
        by (simp add: machine_simps)
      ultimately show ?thesis using mono by auto
    qed
  next
    case False
    consider "retry = 0" | "retry = 1" | "retry = 2" using Suc.prems(2) by fastforce
    then show ?thesis
    proof cases
      case 1
      from Suc.IH [OF p' _ enough_failure [OF Suc.prems(3) _ Suc.prems(5)] Suc.prems(4,5,6) w1] 1 mono obtain w'
        where "wu_read_loop fuel 1 i p' w1 = Inr ((), w')" "meter_ok os rep k c w'" by auto
      with 1 r False show ?thesis by (simp add: machine_simps)
    next
      case 2
      from mkeepsD [OF wu_stop_log_keeps w1] obtain a2 w2 where s2: "wu_stop_log w1 = Inr (a2, w2)" "meter_ok os rep (k - 1) c w2" by auto
      from mkeepsD [OF wu_clear_keeps s2(2)] obtain a3 w3 where s3: "wu_clear w2 = Inr (a3, w3)" "meter_ok os rep (k - 1) c w3" by auto
      from mkeepsD [OF wu_start_log_keeps s3(2)] obtain a4 w4 where s4: "wu_start_log w3 = Inr (a4, w4)" "meter_ok os rep (k - 1) c w4" by auto
      from Suc.IH [OF p' _ enough_failure [OF Suc.prems(3) _ Suc.prems(5)] Suc.prems(4,5,6) s4(2)] 2 mono obtain w'
        where "wu_read_loop fuel 2 i p' w4 = Inr ((), w')" "meter_ok os rep k c w'" by (auto simp: numeral_2_eq_2)
      with 2 r False s2 s3 s4 show ?thesis by (simp add: machine_simps numeral_2_eq_2)
    next
      case 3
      with mono w1 r False show ?thesis by (simp add: machine_simps)
    qed
  qed
qed

lemma wu_read_data_keeps:
  assumes "c = 0 \<and> rep = None \<or> 0 < c" "c < 2 ^ 31"
  shows "mkeeps (meter_ok os rep k c) wu_read_data"
proof (rule mkeepsI)
  fix w assume w: "meter_ok os rep k c w"
  let ?k = "length (w_selects w)"
  have w': "meter_ok os rep ?k c w" "?k \<le> k" "w_count w = c" using w by (simp_all add: meter_ok_def)
  have "fields_there data_packet" by (simp add: data_packet_def)
  moreover have "enough rep ?k c 0 0 (wu_turns w)" using assms(1) w'(3) by (auto simp: enough_def wu_turns_def)
  ultimately show "\<exists>a t. wu_read_data w = Inr (a, t) \<and> meter_ok os rep k c t"
    using wu_read_loop_ends [of data_packet 0 rep ?k c 0 "wu_turns w" os w] assms w' meter_ok_mono [of os rep ?k c _ k]
    by (fastforce simp: wu_read_data_def machine_simps)
qed

section \<open>The whole program\<close>

text \<open>Options that the program can act on: \<open>-i\<close> and \<open>-m\<close> have a value, \<open>-u\<close> has none, and a count is not negative.\<close>

definition opts_ok :: "wu_option list \<Rightarrow> bool" where
  "opts_ok os \<longleftrightarrow>
     (o_flag (os ! wu_option_interval) \<longrightarrow> o_value (os ! wu_option_interval) \<noteq> None)
     \<and> (o_flag (os ! wu_option_mode) \<longrightarrow> o_value (os ! wu_option_mode) \<noteq> None)
     \<and> (o_flag (os ! wu_option_user) \<longrightarrow> o_value (os ! wu_option_user) = None)
     \<and> (o_flag (os ! wu_option_count) \<longrightarrow>
          (case o_value (os ! wu_option_count) of None \<Rightarrow> True | Some s \<Rightarrow> 0 \<le> to_int32 (fst (strtol0 s))))"

text \<open>A limit of records is given.\<close>

definition limited :: "wu_option list \<Rightarrow> bool" where
  "limited os \<longleftrightarrow> wu_option_count < length os \<and> o_flag (os ! wu_option_count) \<and>
     (case o_value (os ! wu_option_count) of None \<Rightarrow> False | Some s \<Rightarrow> 0 < to_int32 (fst (strtol0 s)))"

definition fits :: "int \<Rightarrow> wu_option list \<Rightarrow> bool" where
  "fits lo os \<longleftrightarrow> lo \<le> 0 \<or> lo \<le> 1 \<and> limited os"

text \<open>The invariant with some bound of the reports and a count of at least \<open>lo\<close>.\<close>

definition counted :: "wu_option list \<Rightarrow> string option \<Rightarrow> int \<Rightarrow> wu \<Rightarrow> bool" where
  "counted os rep lo w \<longleftrightarrow> (\<exists>k c. meter_ok os rep k c w \<and> lo \<le> c \<and> c < 2 ^ 31)"

lemma counted_lift: "(\<And>k c. lo \<le> c \<Longrightarrow> c < 2 ^ 31 \<Longrightarrow> mkeeps (meter_ok os rep k c) m) \<Longrightarrow> mkeeps (counted os rep lo) m"
  by (fastforce simp: mkeeps_def counted_def)

lemma counted_count: "counted os rep lo' w \<Longrightarrow> lo \<le> v \<Longrightarrow> v < 2 ^ 31 \<Longrightarrow> counted os rep lo (w\<lparr>w_count := v\<rparr>)"
  by (auto simp: counted_def meter_ok_def)

lemma counted_options: "counted os rep lo w \<Longrightarrow> w_options w = os"
  by (auto simp: counted_def meter_ok_def)

lemma counted_upd [simp]:
  "counted os rep lo (w\<lparr>w_delim := d\<rparr>) = counted os rep lo w" "counted os rep lo (w\<lparr>w_final := b\<rparr>) = counted os rep lo w"
  "counted os rep lo (w\<lparr>w_interval := n\<rparr>) = counted os rep lo w" "counted os rep lo (w\<lparr>w_label := b\<rparr>) = counted os rep lo w"
  "counted os rep lo (w\<lparr>w_newline := b\<rparr>) = counted os rep lo w" "counted os rep lo (w\<lparr>w_suppress := b\<rparr>) = counted os rep lo w"
  "counted os rep lo (w\<lparr>w_localtime := b\<rparr>) = counted os rep lo w" "counted os rep lo (w\<lparr>w_gmtime := b\<rparr>) = counted os rep lo w"
  "counted os rep lo (w\<lparr>w_info_all := b\<rparr>) = counted os rep lo w" "counted os rep lo (w\<lparr>w_no_data := b\<rparr>) = counted os rep lo w"
  "counted os rep lo (w\<lparr>w_set_only := b\<rparr>) = counted os rep lo w" "counted os rep lo (w\<lparr>w_out := x\<rparr>) = counted os rep lo w"
  by (simp_all add: counted_def meter_ok_def)

lemma to_int32_less: "to_int32 v < 2 ^ 31"
  by (simp add: to_int32_def)

lemma counted_write: "length fs \<le> wu_num_fields \<Longrightarrow> mkeeps (counted os rep lo) (wu_write (new_packet cmd sub fs labels))"
  by (intro counted_lift keeps_intros)

lemma option_value_keeps:
  assumes "\<And>v. (i < length os \<longrightarrow> v = o_value (os ! i)) \<and> (\<not> i < length os \<longrightarrow> v = None) \<Longrightarrow> mkeeps (counted os rep lo) (f v)"
  shows "mkeeps (counted os rep lo) (mbind (wu_option_value i) f)"
proof (rule mkeepsI)
  fix w assume w: "counted os rep lo w"
  let ?v = "if i < length os then o_value (os ! i) else None"
  from mkeepsD [OF assms [of ?v] w] counted_options [OF w]
  show "\<exists>a t. mbind (wu_option_value i) f w = Inr (a, t) \<and> counted os rep lo t"
    by (cases "i < length os") (simp_all add: wu_option_value_def machine_simps)
qed

lemma wu_show_keeps: "mkeeps (counted os rep lo) (wu_show i)"
proof -
  have h: "mkeeps (counted os rep lo) wu_show_version"
    by (auto simp: wu_show_version_def intro!: keeps_intros)
  then have "mkeeps (counted os rep lo) wu_show_help"
    by (auto simp: wu_show_help_def intro!: keeps_intros)
  moreover have "mkeeps (counted os rep lo) wu_show_cal" "mkeeps (counted os rep lo) wu_show_header"
    "mkeeps (counted os rep lo) wu_show_interval" "mkeeps (counted os rep lo) wu_show_user"
    by (auto simp: wu_show_cal_def wu_show_header_def wu_show_interval_def wu_show_user_def intro!: counted_lift keeps_intros)
  moreover have "mkeeps (counted os rep lo) wu_show_mode"
    unfolding wu_show_mode_def
    by (rule counted_lift, rule mkeeps_of_mspec [where b = "\<lambda>_. True", OF wu_query_spec])
       (auto intro!: keeps_intros)
  ultimately show ?thesis using h by (auto simp: wu_show_def intro!: keeps_intros)
qed

lemma wu_store_keeps:
  assumes "opts_ok os" "i < length os" "o_flag (os ! i)" "fits lo os"
  shows "mkeeps (counted os rep lo) (wu_store i)"
proof -
  have flag: "mkeeps (counted os rep lo) (store_flag f)" if "\<And>w. counted os rep lo (f w) = counted os rep lo w" for f
    using that by (auto simp: store_flag_def intro!: keeps_intros)
  have "mkeeps (counted os rep lo) wu_store_count" if "i = wu_option_count"
    unfolding wu_store_count_def using assms that to_int32_less
    by (intro option_value_keeps) (auto simp: opts_ok_def fits_def limited_def Let_def intro!: keeps_intros counted_count split: option.splits prod.splits)
  moreover have "mkeeps (counted os rep lo) wu_store_delim"
    unfolding wu_store_delim_def by (intro option_value_keeps) (auto intro!: keeps_intros)
  moreover have "mkeeps (counted os rep lo) wu_store_interval" if "i = wu_option_interval"
    unfolding wu_store_interval_def wu_write_interval_def using assms that
    by (intro option_value_keeps) (auto simp: opts_ok_def Let_def intro!: keeps_intros counted_write split: option.splits prod.splits)
  moreover have "mkeeps (counted os rep lo) wu_store_mode" if "i = wu_option_mode"
    unfolding wu_store_mode_def wu_write_mode_def using assms that
    by (intro option_value_keeps) (auto simp: opts_ok_def Let_def intro!: keeps_intros counted_write split: option.splits prod.splits)
  moreover have "mkeeps (counted os rep lo) wu_store_user" if "i = wu_option_user"
    unfolding wu_store_user_def wu_write_user_def using assms that
    by (intro option_value_keeps) (auto simp: opts_ok_def intro!: keeps_intros counted_write split: option.splits sum.splits)
  ultimately show ?thesis
    by (auto simp: wu_store_def intro!: keeps_intros flag)
qed

lemma check_option_keeps:
  assumes "i < length os \<Longrightarrow> o_flag (os ! i) \<Longrightarrow> mkeeps (counted os rep lo) (f True)" "mkeeps (counted os rep lo) (f False)"
  shows "mkeeps (counted os rep lo) (mbind (wu_check_option i) f)"
proof (rule mkeepsI)
  fix w assume w: "counted os rep lo w"
  show "\<exists>a t. mbind (wu_check_option i) f w = Inr (a, t) \<and> counted os rep lo t"
    using counted_options [OF w] mkeepsD [OF assms(1) w] mkeepsD [OF assms(2) w]
    by (cases "i < length os \<and> o_flag (os ! i)") (auto simp: wu_check_option_def machine_simps)
qed

lemma wu_check_keeps:
  "mkeeps (counted os rep lo) (wu_check_show i)" "opts_ok os \<Longrightarrow> fits lo os \<Longrightarrow> mkeeps (counted os rep lo) (wu_check_store i)"
  unfolding wu_check_show_def wu_check_store_def
  by (rule check_option_keeps; auto intro!: keeps_intros wu_show_keeps wu_store_keeps)+

lemma check_stores_keeps: "opts_ok os \<Longrightarrow> fits lo os \<Longrightarrow> mkeeps (counted os rep lo) (check_stores is)"
  by (induction "is") (auto intro!: keeps_intros wu_check_keeps)

lemma show_info_keeps: "mkeeps (counted os rep lo) show_info"
  by (auto simp: show_info_def intro!: keeps_intros wu_check_keeps wu_show_keeps)

lemma log_and_read_keeps:
  assumes "lo = 0 \<and> rep = None \<or> lo = 1"
  shows "mkeeps (counted os rep lo) (mbind wu_start_log (\<lambda>ret. if ret \<noteq> 0 then mret ret
         else mbind wu_read_data (\<lambda>_. mbind wu_stop_log (\<lambda>_. mret ret))))"
proof -
  have "mkeeps (counted os rep lo) wu_read_data" by (rule counted_lift, rule wu_read_data_keeps) (use assms in auto)
  moreover have "mkeeps (counted os rep lo) wu_start_log" "mkeeps (counted os rep lo) wu_stop_log"
    by (intro counted_lift keeps_intros)+
  ultimately show ?thesis by (intro keeps_intros)
qed

lemma store_count_spec:
  assumes "limited os"
  shows "mspec (counted os rep 0) (wu_check_store wu_option_count) (\<lambda>_. counted os rep 1)"
proof (rule mspecI)
  fix w assume w: "counted os rep 0 w"
  have os: "w_options w = os" by (rule counted_options [OF w])
  from assms obtain s where s: "o_value (os ! wu_option_count) = Some s" "0 < to_int32 (fst (strtol0 s))"
    and flag: "wu_option_count < length os" "o_flag (os ! wu_option_count)" by (auto simp: limited_def split: option.splits)
  have "counted os rep 1 (w\<lparr>w_count := to_int32 (fst (strtol0 s))\<rparr>)"
    using s(2) to_int32_less by (intro counted_count [OF w]) auto
  then show "\<exists>a t. wu_check_store wu_option_count w = Inr (a, t) \<and> counted os rep 1 t"
    using s(1) flag os
    by (auto simp: wu_check_store_def wu_check_option_def wu_store_def wu_store_count_def wu_option_value_def machine_simps Let_def split: prod.splits)
qed

lemma read_phase_returns:
  assumes "opts_ok os" "rep = None \<or> limited os"
  shows "mspec (counted os rep 0) read_phase (\<lambda>_ _. True)"
proof -
  have tail: "mspec (counted os rep lo) (mbind (check_stores is) (\<lambda>ret. if ret \<noteq> 0 then mret ret
       else mbind wu_start_log (\<lambda>ret. if ret \<noteq> 0 then mret ret
         else mbind wu_read_data (\<lambda>_. mbind wu_stop_log (\<lambda>_. mret ret))))) (\<lambda>_ _. True)"
    if "lo = 0 \<and> rep = None \<or> lo = 1" "fits lo os" for lo "is"
    using mkeeps_mbind [OF check_stores_keeps [OF assms(1) that(2)] mkeeps_if [OF mkeeps_mret log_and_read_keeps [OF that(1)]]]
    by (fastforce simp: mkeeps_def mspec_def)
  have "mspec (counted os rep 0) (mbind (check_stores [wu_option_count, wu_option_final]) (\<lambda>ret. if ret \<noteq> 0 then mret ret
       else mbind wu_start_log (\<lambda>ret. if ret \<noteq> 0 then mret ret
         else mbind wu_read_data (\<lambda>_. mbind wu_stop_log (\<lambda>_. mret ret))))) (\<lambda>_ _. True)" (is "mspec _ (mbind _ ?rest) _")
  proof (cases "limited os")
    case False
    with assms(2) tail [of 0] show ?thesis by (simp add: fits_def del: check_stores.simps)
  next
    case True
    have "mspec (counted os rep 0) (mbind (wu_check_store wu_option_count) (\<lambda>ret. mbind (if ret \<noteq> 0 then mret ret else check_stores [wu_option_final]) ?rest)) (\<lambda>_ _. True)"
    proof (rule mspec_mbind [OF store_count_spec [OF True]])
      fix ret :: int
      show "mspec (counted os rep 1) (mbind (if ret \<noteq> 0 then mret ret else check_stores [wu_option_final]) ?rest) (\<lambda>_ _. True)"
        using tail [of 1 "[wu_option_final]"] True
        by (cases "ret = 0") (simp_all add: fits_def mspec_def machine_simps)
    qed
    then show ?thesis by (simp only: check_stores.simps mbind_assoc)
  qed
  then have "mspec (counted os rep 0) (if b then mret 0 else mbind (check_stores [wu_option_count, wu_option_final]) ?rest) (\<lambda>_ _. True)" for b
    by (simp add: mspec_def mret_def)
  then show ?thesis unfolding read_phase_def by (intro mspec_mbind [OF mspec_mget])
qed

lemma open_device_keeps: "mkeeps (counted os rep lo) (open_device fd)"
  by (auto simp: mkeeps_def counted_def meter_ok_def open_device_def perr_def has_chr_def machine_simps)

lemma wattsup_main_returns:
  assumes "parse_args argv w = Inr (Some 0, w1)" "counted os rep 0 w1" "opts_ok os" "rep = None \<or> limited os"
  shows "\<exists>ret w'. wattsup_main argv w = Inr (ret, w')"
proof -
  have f: "fits 0 os" by (simp add: fits_def)
  have k: "mkeeps (counted os rep 0) wu_clear" by (intro counted_lift keeps_intros)
  note step = mspec_mbind [OF mkeeps_mspec] and stop = mspec_mret [where Q = "\<lambda>_ _. True"]
  have "mspec (counted os rep 0) (mbind (wu_check_store wu_option_debug) (\<lambda>ret.
       if ret \<noteq> 0 then mret ret
       else
         mbind (open_device 0) (\<lambda>(ret, fd).
         if ret \<noteq> 0 then mret ret
         else
           mbind (mget (\<lambda>w. setup_serial_device (w_sys w))) (\<lambda>ret.
           if ret \<noteq> 0 then mret ret
           else
             mbind wu_clear (\<lambda>_.
             mbind (check_stores [wu_option_delim, wu_option_label, wu_option_newline, wu_option_suppress,
                      wu_option_localtime, wu_option_gmtime, wu_option_set_only, wu_option_no_data,
                      wu_option_info_all, wu_option_interval, wu_option_mode, wu_option_user]) (\<lambda>ret.
             if ret \<noteq> 0 then mret ret
             else mbind show_info (\<lambda>_. read_phase))))))) (\<lambda>_ _. True)"
    by (rule step [OF wu_check_keeps(2) [OF assms(3) f]], rule mspec_if, rule stop, simp,
        rule step [OF open_device_keeps], unfold case_prod_unfold, rule mspec_if, rule stop, simp,
        rule step [OF mkeeps_mget], rule mspec_if, rule stop, simp, rule step [OF k],
        rule step [OF check_stores_keeps [OF assms(3) f]], rule mspec_if, rule stop, simp,
        rule step [OF show_info_keeps], rule read_phase_returns [OF assms(3,4)])
  from mspecD [OF this assms(2)] assms(1) show ?thesis
    by (auto simp: wattsup_main_def mbind_def)
qed

end
