(* ===== verification/Wattsup_Program.thy ===== *)
theory Wattsup_Program
  imports Wattsup_Meter
begin

text \<open>
  The properties of the Watts Up? reader: the records that it prints, the end of its data loop, the absence of
  faults for a well-behaved meter, and what it does with a silent meter, with the options that take an
  optional value and with a device that is not a terminal.
\<close>

section \<open>Records\<close>

definition data_record :: "string list \<Rightarrow> string" where
  "data_record fs = ''#d,-,'' @ dec_nat (length fs) @ comma_fields fs @ '';''"

definition record_ok :: "string list \<Rightarrow> bool" where
  "record_ok fs \<longleftrightarrow> list_all field_ok fs \<and> 0 < length fs \<and> length fs \<le> wu_num_fields \<and> length (comma_fields fs) \<le> 244"

definition record_line :: "wu \<Rightarrow> string list \<Rightarrow> string" where
  "record_line w fs =
     join (field_sep w)
       (concat (map (\<lambda>i. if w_enable w ! i
                        then [(if w_label w then ''['' @ null_str (p_label data_packet ! i) @ ''] '' else '''') @ w_tenth w (fs ! i)]
                        else []) [0..<length fs])) @ [CHR 0x0A]"

lemma parse_data_record:
  assumes "record_ok fs"
  shows "parse_packet (take wu_strlen (data_record fs)) p = Inr (0, p\<lparr>p_buf := data_record fs, p_cmd := CHR ''d'',
    p_sub_cmd := CHR ''-'', p_count := of_nat (length fs), p_field := map Some fs @ drop (length fs) (p_field p)\<rparr>)"
proof -
  have "length (dec_nat (length fs)) \<le> 2" using assms by (intro dec_nat_length) (auto simp: record_ok_def)
  with assms have l: "length (data_record fs) < wu_strlen" by (simp add: record_ok_def data_record_def)
  then have "take wu_strlen (data_record fs) = data_record fs" by simp
  with l show ?thesis
    using assms parse_command [of fs "CHR ''d''" "CHR ''-''" "data_record fs" p]
    by (simp add: record_ok_def data_record_def)
qed

text \<open>The settings that the lines depend on, which printing and reading leave alone.\<close>

definition same_settings :: "wu \<Rightarrow> wu \<Rightarrow> bool" where
  "same_settings v w \<longleftrightarrow> w_enable v = w_enable w \<and> w_label v = w_label w \<and> w_newline v = w_newline w \<and> w_delim v = w_delim w
     \<and> w_tenth v = w_tenth w \<and> w_localtime v = w_localtime w \<and> w_gmtime v = w_gmtime w \<and> w_count v = w_count w"

lemma record_line_same: "same_settings v w \<Longrightarrow> record_line v fs = record_line w fs"
  by (auto simp: record_line_def same_settings_def field_sep_def
      intro!: arg_cong2 [of _ _ _ _ join] arg_cong [of _ _ concat])

lemma prints_record:
  assumes "record_ok fs" "p_label p = p_label data_packet" "p_count p = of_nat (length fs)"
    and "length (p_field p) = wu_num_fields" "take (length fs) (p_field p) = map Some fs"
    and "\<not> w_localtime w" "\<not> w_gmtime w" "\<And>s. CHR ''%'' \<notin> set (w_tenth w s)"
  shows "\<exists>out. print_packet_filter p w = Inr ((), w\<lparr>w_out := w_out w @ out\<rparr>) \<and> concat out = record_line w fs"
proof -
  have le: "length fs \<le> wu_num_fields" using assms(1) by (simp add: record_ok_def)
  then have n: "unat (p_count p) = length fs" using assms(3) by (simp add: unat_of_nat)
  have f: "the_field p i = Inr (fs ! i)" if "i < length fs" for i
  proof -
    have "p_field p ! i = map Some fs ! i" using assms(5) that by (metis nth_take)
    with that le assms(4) show ?thesis by (simp add: the_field_def)
  qed
  then have "printable (filter_data w p i)" if "i < length fs" for i
    using that assms(8) by (simp add: filter_data_def printable_def)
  then have "\<exists>out. print_fields (filter_data w p) p [0..<length fs] False w = Inr ((), w\<lparr>w_out := w_out w @ out\<rparr>)
    \<and> concat out = join (field_sep w) (field_items w (filter_data w p) p [0..<length fs]) @ [CHR 0x0A]"
    using print_fields_spec [of "[0..<length fs]" "filter_data w p" p False w] by simp
  moreover have "field_items w (filter_data w p) p [0..<length fs] =
    concat (map (\<lambda>i. if w_enable w ! i
                    then [(if w_label w then ''['' @ null_str (p_label data_packet ! i) @ ''] '' else '''') @ w_tenth w (fs ! i)]
                    else []) [0..<length fs])"
    unfolding field_items_def using f le
    by (intro arg_cong [of _ _ concat] map_cong) (auto simp: filter_data_def assms(2))
  ultimately show ?thesis
    using assms(6,7) n by (simp add: print_packet_filter_def print_time_def machine_simps record_line_def)
qed

lemma read_loop_prints:
  assumes "list_all record_ok fss" "0 < length fss" "length fss \<le> fuel" "int (length fss) + i = w_count w" "0 \<le> i" "w_count w < 2 ^ 31"
    and "w_selects w = replicate (length fss) 1 @ sel" "w_reads w = map (Some \<circ> data_record) fss @ rd"
    and "length (p_field p) = wu_num_fields" "p_label p = p_label data_packet"
    and "\<not> w_localtime w" "\<not> w_gmtime w" "\<And>s. CHR ''%'' \<notin> set (w_tenth w s)"
  shows "\<exists>out. wu_read_loop fuel retry i p w = Inr ((), w\<lparr>w_selects := sel, w_reads := rd, w_out := w_out w @ out\<rparr>)
    \<and> concat out = concat (map (record_line w) fss)"
  using assms
proof (induction fss arbitrary: fuel retry i p w)
  case (Cons fs fss)
  then obtain f where fuel: "fuel = Suc f" by (cases fuel) auto
  let ?w = "w\<lparr>w_selects := replicate (length fss) 1 @ sel, w_reads := map (Some \<circ> data_record) fss @ rd\<rparr>"
  let ?p = "p\<lparr>p_buf := data_record fs, p_cmd := CHR ''d'', p_sub_cmd := CHR ''-'', p_count := of_nat (length fs),
    p_field := map Some fs @ drop (length fs) (p_field p)\<rparr>"
  have ok: "record_ok fs" using Cons.prems(1) by simp
  have rd: "wu_read p w = Inr ((0, ?p), ?w)"
    using Cons.prems(7,8) parse_data_record [OF ok, of p] by (simp add: wu_read_def machine_simps)
  have le: "length fs \<le> wu_num_fields" using ok by (simp add: record_ok_def)
  from prints_record [OF ok, of ?p ?w] obtain out where out:
    "print_packet_filter ?p ?w = Inr ((), ?w\<lparr>w_out := w_out w @ out\<rparr>)" "concat out = record_line ?w fs"
    using Cons.prems(9-13) le by auto
  let ?v = "?w\<lparr>w_out := w_out w @ out\<rparr>"
  have line: "record_line ?w = record_line w" "record_line ?v = record_line w"
    by (auto intro!: ext record_line_same simp: same_settings_def)
  show ?case
  proof (cases "fss = []")
    case True
    with rd out line Cons.prems(4-6) fuel show ?thesis
      by (intro exI [of _ out]) (simp add: machine_simps)
  next
    case False
    have "wu_read_loop fuel retry i p w = wu_read_loop f 0 (i + 1) ?p ?v"
      using rd out(1) fuel False Cons.prems(4-6) by (cases fss) (simp_all add: machine_simps)
    moreover have "\<exists>out'. wu_read_loop f 0 (i + 1) ?p ?v
        = Inr ((), ?v\<lparr>w_selects := sel, w_reads := rd, w_out := w_out ?v @ out'\<rparr>)
      \<and> concat out' = concat (map (record_line ?v) fss)"
      using Cons.prems False fuel le by (intro Cons.IH) auto
    ultimately obtain out' where "wu_read_loop fuel retry i p w
        = Inr ((), ?v\<lparr>w_selects := sel, w_reads := rd, w_out := w_out ?v @ out'\<rparr>)"
      "concat out' = concat (map (record_line ?v) fss)" by auto
    with out(2) line show ?thesis by (intro exI [of _ "out @ out'"]) simp
  qed
qed simp

text \<open>
  C40. With a limit of \<open>n\<close> records and a meter that sends \<open>n\<close> well-formed records, \<open>wu_read_data\<close> prints exactly
  one line per record, in order: the enabled fields of the record, each converted and with its label if labels
  are wanted, joined by the delimiter (or by newlines) and ended by a newline. Time stamps are not asked for. It sends nothing to the
  meter and leaves what the meter would report next unread.
\<close>

theorem data_records_printed:
  assumes "list_all record_ok fss" "0 < length fss" "w_count w = int (length fss)" "w_count w < 2 ^ 31"
    and "w_selects w = replicate (length fss) 1 @ sel" "w_reads w = map (Some \<circ> data_record) fss @ rd"
    and "\<not> w_localtime w" "\<not> w_gmtime w" "\<And>s. CHR ''%'' \<notin> set (w_tenth w s)"
  shows "\<exists>out. wu_read_data w = Inr ((), w\<lparr>w_selects := sel, w_reads := rd, w_out := w_out w @ out\<rparr>)
    \<and> concat out = concat (map (record_line w) fss)"
proof -
  have "length (p_field data_packet) = wu_num_fields" by (simp add: data_packet_def new_packet_def no_fields_def)
  moreover have "length fss \<le> wu_turns w" using assms(2,3) by (auto simp: wu_turns_def)
  ultimately have "\<exists>out. wu_read_loop (wu_turns w) 0 0 data_packet w
      = Inr ((), w\<lparr>w_selects := sel, w_reads := rd, w_out := w_out w @ out\<rparr>)
    \<and> concat out = concat (map (record_line w) fss)"
    using assms by (intro read_loop_prints) auto
  then show ?thesis by (simp add: wu_read_data_def machine_simps)
qed

definition example_meter :: wu where
  "example_meter = (wu_start ready_sys (\<lambda>s. ''1.0'') [1, 1, 0] (map (Some \<circ> data_record) [[''10'', ''20''], [''30'']]) [] [])
     \<lparr>w_count := 2, w_enable := replicate wu_num_fields True\<rparr>"

theorem data_records_printed_witness:
  "\<exists>out. wu_read_data example_meter = Inr ((), example_meter\<lparr>w_selects := [0], w_reads := [], w_out := w_out example_meter @ out\<rparr>)
    \<and> concat out = concat (map (record_line example_meter) [[''10'', ''20''], [''30'']])"
  by (rule data_records_printed)
     (simp_all add: example_meter_def wu_start_def record_ok_def field_ok_def comma_fields_def chr_at_def is_space_def)

text \<open>
  Without a limit the data loop goes on as long as the meter does: when the meter repeats a record that parses, no number of turns
  is enough.
\<close>

theorem unlimited_reading_goes_on:
  assumes "record_ok fs" "w_count w = 0" "w_selects w = []" "w_reads w = []" "w_repeat w = Some (data_record fs)"
    and "length (p_field p) = wu_num_fields" "p_label p = p_label data_packet"
    and "\<not> w_localtime w" "\<not> w_gmtime w" "\<And>s. CHR ''%'' \<notin> set (w_tenth w s)"
  shows "wu_read_loop n retry i p w = Inl NoReturn"
  using assms(2-)
proof (induction n arbitrary: retry p w)
  case 0
  then show ?case by (simp add: machine_simps)
next
  case (Suc n)
  let ?p = "p\<lparr>p_buf := data_record fs, p_cmd := CHR ''d'', p_sub_cmd := CHR ''-'', p_count := of_nat (length fs),
    p_field := map Some fs @ drop (length fs) (p_field p)\<rparr>"
  have le: "length fs \<le> wu_num_fields" using assms(1) by (simp add: record_ok_def)
  have rd: "wu_read p w = Inr ((0, ?p), w)"
    using Suc.prems(2-4) parse_data_record [OF assms(1), of p] by (simp add: wu_read_def machine_simps)
  from prints_record [OF assms(1), of ?p w] obtain out where out: "print_packet_filter ?p w = Inr ((), w\<lparr>w_out := w_out w @ out\<rparr>)"
    using Suc.prems le by auto
  have "wu_read_loop n 0 i ?p (w\<lparr>w_out := w_out w @ out\<rparr>) = Inl NoReturn"
    using Suc.prems le by (intro Suc.IH) simp_all
  with rd out Suc.prems(1) show ?case by (simp add: machine_simps)
qed

theorem unlimited_reading_goes_on_witness:
  "wu_read_loop 1000 0 0 data_packet ((wu_start ready_sys (\<lambda>s. ''1.0'') [] [] [] [])\<lparr>w_repeat := Some (data_record [''10'', ''20''])\<rparr>) = Inl NoReturn"
  by (rule unlimited_reading_goes_on)
     (simp_all add: wu_start_def record_ok_def field_ok_def comma_fields_def chr_at_def is_space_def data_packet_def new_packet_def no_fields_def)

text \<open>
  A silent meter is given up on, with a limit or without: when \<open>select\<close> never reports anything, \<open>wu_read_data\<close> fails twice, resets the meter
  once (it stops the log, clears the memory and starts the log again), fails a third time and returns, having printed
  nothing.
\<close>

theorem silent_meter_is_given_up:
  assumes "w_selects w = []" "w_writes w = []" "w_repeat w = None"
  shows "wu_read_data w = Inr ((), w\<lparr>w_sent := w_sent w @ [''#L,R,0;'', ''#R,W,0;'', ''#L,W,3,E,1,1;'']\<rparr>)"
proof -
  have read: "wu_read p v = Inr ((-1, p), v)" if "w_selects v = []" "w_repeat v = None" for p v
    using that by (simp add: wu_read_def machine_simps)
  have wr: "wu_write (new_packet cmd sub fs labels) v
      = Inr (0, v\<lparr>w_sent := w_sent v @ [''#'' @ [cmd] @ '','' @ [sub] @ '','' @ dec_nat (length fs) @ comma_fields fs @ '';'']\<rparr>)"
    if "w_writes v = []" "length fs \<le> 3" "length (comma_fields fs) \<le> 9" for cmd sub fs labels v
  proof -
    have "length (dec_nat (length fs)) \<le> 2" using that(2) by (intro dec_nat_length) auto
    with that show ?thesis
      using wu_command_new [of fs cmd sub labels] by (simp add: wu_write_def machine_simps)
  qed
  have d: "dec_nat 0 = ''0''" by code_simp
  have stop: "wu_stop_log v = Inr (-1, v\<lparr>w_sent := w_sent v @ [''#L,R,0;'']\<rparr>)" if "w_selects v = []" "w_writes v = []" "w_repeat v = None" for v
    using that by (simp add: wu_stop_log_def wu_query_def wr read machine_simps comma_fields_def d)
  have clear: "wu_clear v = Inr (0, v\<lparr>w_sent := w_sent v @ [''#R,W,0;'']\<rparr>)" if "w_selects v = []" "w_writes v = []" "w_repeat v = None" for v
    using that by (simp add: wu_clear_def Let_def wr read machine_simps comma_fields_def d)
  have start: "wu_start_log v = Inr (0, v\<lparr>w_sent := w_sent v @ [''#L,W,3,E,1,1;'']\<rparr>)" if "w_writes v = []" for v
    using that by (simp add: wu_start_log_def wr comma_fields_def dec_nat_3)
  have "3 \<le> wu_turns w" by (auto simp: wu_turns_def)
  then obtain f where "wu_turns w = Suc (Suc (Suc f))" by (metis Suc_le_D Suc_le_mono numeral_3_eq_3)
  then show ?thesis
    using assms by (simp add: wu_read_data_def machine_simps read stop clear start numeral_eq_Suc)
qed

theorem silent_meter_is_given_up_witness:
  "wu_read_data (wu_start ready_sys (\<lambda>s. s) [] [] [] [])
    = Inr ((), (wu_start ready_sys (\<lambda>s. s) [] [] [] [])\<lparr>w_sent := [''#L,R,0;'', ''#R,W,0;'', ''#L,W,3,E,1,1;'']\<rparr>)"
  using silent_meter_is_given_up [of "wu_start ready_sys (\<lambda>s. s) [] [] [] []"] by (simp add: wu_start_def)

section \<open>The whole program\<close>

text \<open>
  C39. When the program runs to its end without a fault. The command line is accepted, the options that need a value have one, \<open>-u\<close> has none and a count is not negative (\<open>opts_ok\<close>);
  the device name has no percent sign and the device node can be opened; the answers of the meter have fewer than 256 bytes and at most 20 commas and semicolons (\<open>answer_ok\<close>) and have
  no percent sign; and there is a limit of records, or the meter falls silent in the end. Then \<open>main\<close> returns, whatever the other system calls and the meter answer: no null pointer is followed, no buffer is left and
  no argument is missing to a format on the way through opening, setting, showing, reading and stopping; and with a limit the reading ends within three turns for each record
  whatever the meter does, also if it goes on for ever.
\<close>

theorem wattsup_runs_without_fault:
  assumes "parse_args argv w = Inr (Some 0, w1)" "opts_ok (w_options w1)" "w_repeat w1 = None \<or> limited (w_options w1)"
    and "CHR ''%'' \<notin> set (w_device w1)" "0 \<le> s_open (w_sys w1)"
    and "\<And>b. Some b \<in> set (w_reads w1) \<or> w_repeat w1 = Some b \<Longrightarrow> answer_ok b \<and> CHR ''%'' \<notin> set b"
    and "\<And>s. CHR ''%'' \<notin> set (w_tenth w1 s)" "0 \<le> w_count w1" "w_count w1 < 2 ^ 31"
  shows "\<exists>ret w'. wattsup_main argv w = Inr (ret, w')"
proof -
  have "counted (w_options w1) (w_repeat w1) 0 w1" using assms(4-9) by (auto simp: counted_def meter_ok_def)
  from wattsup_main_returns [OF assms(1) this assms(2,3)] show ?thesis .
qed

definition example_start :: wu where
  "example_start = (wu_start ready_sys (\<lambda>s. ''1.0'') [1, 1] [Some ''#d,-,2,10,20;''] [] [])\<lparr>w_repeat := Some ''#d,-,2,10,20;''\<rparr>"

lemma parse_device: "\<exists>w1. parse_args [''-c'', ''5'', ''ttyUSB0''] example_start = Inr (Some 0, w1)
    \<and> w_options w1 = (w_options example_start)[3 := \<lparr>o_flag = True, o_value = Some ''5''\<rparr>] \<and> w_reads w1 = w_reads example_start \<and> w_tenth w1 = w_tenth example_start
    \<and> w_count w1 = w_count example_start \<and> w_repeat w1 = w_repeat example_start \<and> w_device w1 = ''ttyUSB0'' \<and> w_sys w1 = w_sys example_start"
proof -
  have "getopt_long [''-c'', ''5'', ''ttyUSB0''] = ([ShortOpt CHR ''c'' (Some ''5'')], [''ttyUSB0''])" by code_simp
  moreover have "filter (\<lambda>i. r_short (wu_option_rows ! i) = CHR ''c'') [0..<length wu_option_rows] = [3]" by code_simp
  moreover have "length wu_option_rows = 19" by code_simp
  ultimately show ?thesis
    by (simp add: parse_args_def enable_short_option_def set_option_def machine_simps wu_check_show_def wu_check_option_def example_start_def wu_start_def
        enable_all_fields_def nth_replicate)
qed

theorem wattsup_runs_without_fault_witness:
  "\<exists>ret w'. wattsup_main [''-c'', ''5'', ''ttyUSB0''] example_start = Inr (ret, w')"
proof -
  obtain w1 where p: "parse_args [''-c'', ''5'', ''ttyUSB0''] example_start = Inr (Some 0, w1)"
    and eq: "w_options w1 = (w_options example_start)[3 := \<lparr>o_flag = True, o_value = Some ''5''\<rparr>]"
    "w_reads w1 = w_reads example_start" "w_tenth w1 = w_tenth example_start" "w_count w1 = w_count example_start"
    "w_repeat w1 = w_repeat example_start" "w_device w1 = ''ttyUSB0''" "w_sys w1 = w_sys example_start"
    using parse_device by blast
  have n: "length wu_option_rows = 19" by code_simp
  have five: "to_int32 (fst (strtol0 ''5'')) = 5" by code_simp
  have o: "opts_ok (w_options w1)" "w_repeat w1 = None \<or> limited (w_options w1)"
    by (simp_all add: eq opts_ok_def limited_def example_start_def wu_start_def n nth_replicate nth_list_update five)
  have a: "answer_ok ''#d,-,2,10,20;''" by code_simp
  show ?thesis
    by (rule wattsup_runs_without_fault [OF p o]) (auto simp: eq a example_start_def wu_start_def ready_sys_def)
qed

section \<open>Options\<close>

definition known_field :: "string \<Rightarrow> bool" where
  "known_field name \<longleftrightarrow> list_ex (\<lambda>(n, d). case n of None \<Rightarrow> False | Some s \<Rightarrow> strcaseeq s name) wu_fields"

lemma find_field_unknown:
  "(\<forall>(n, d) \<in> set fs. \<forall>s. n = Some s \<longrightarrow> \<not> strcaseeq s name) \<Longrightarrow> (None, e) \<in> set fs \<Longrightarrow> find_field name i fs = Inl NullPointer"
  by (induction name i fs rule: find_field.induct) auto

lemma unknown_field_faults: "\<not> known_field name \<Longrightarrow> enable_field name w = Inl NullPointer"
  using find_field_unknown [of wu_fields name None 0]
  by (fastforce simp: known_field_def enable_field_def mfail_def wu_fields_def)

text \<open>
  Two error messages of \<open>open_device\<close> fault instead of reporting: a device that is not listed under \<open>/sys/class/tty\<close> is reported with its name as the
  format, and a device node that cannot be opened with a format that wants an argument and gets none.
\<close>

theorem open_device_messages_fault:
  assumes "s_open_cwd (w_sys w) \<ge> 0" "s_chdir (w_sys w) = 0"
  shows "(fst (s_tty (w_sys w)) < 0 \<and> CHR ''%'' \<in> set (w_device w) \<longrightarrow> open_device fd w = Inl OutOfBounds)
    \<and> (s_tty (w_sys w) = (0, True) \<and> s_dev (w_sys w) = (0, True) \<and> s_access (w_sys w) = 0 \<and> s_open (w_sys w) < 0 \<longrightarrow> open_device fd w = Inl OutOfBounds)"
  using assms by (auto simp: open_device_def perr_def has_chr_def machine_simps)

theorem open_device_messages_fault_witness:
  "open_device 0 (wu_start (ready_sys\<lparr>s_open := -1\<rparr>) (\<lambda>s. s) [] [] [] []) = Inl OutOfBounds"
  using open_device_messages_fault [of "wu_start (ready_sys\<lparr>s_open := -1\<rparr>) (\<lambda>s. s) [] [] [] []" 0] by (simp add: wu_start_def ready_sys_def)

text \<open>
  Names of fields. A name that is not in the table makes \<open>enable_field\<close> follow a null pointer, because the table has 18
  rows and 16 names; and the names of the two extremes of the voltage are exchanged: \<open>max-volts\<close>
  enables column 11, which the code calls the minimum, and \<open>min-volts\<close> column 8, the maximum.
\<close>

theorem field_names:
  assumes "\<not> known_field name"
  shows "enable_field name w = Inl NullPointer
    \<and> enable_field ''max-volts'' w = Inr ((), w\<lparr>w_enable := (w_enable w)[11 := True]\<rparr>) \<and> p_label data_packet ! 11 = Some ''min volts''
    \<and> enable_field ''min-volts'' w = Inr ((), w\<lparr>w_enable := (w_enable w)[8 := True]\<rparr>) \<and> p_label data_packet ! 8 = Some ''max volts''"
proof -
  have "find_field ''max-volts'' 0 wu_fields = Inr (Some 11)" "find_field ''min-volts'' 0 wu_fields = Inr (Some 8)"
    "p_label data_packet ! 11 = Some ''min volts''" "p_label data_packet ! 8 = Some ''max volts''"
    by code_simp+
  with unknown_field_faults [OF assms] show ?thesis by (simp add: enable_field_def machine_simps)
qed

lemma foo_unknown: "\<not> known_field ''foo''"
  by code_simp

theorem field_names_witness:
  "enable_field ''foo'' example_start = Inl NullPointer
    \<and> enable_field ''max-volts'' example_start = Inr ((), example_start\<lparr>w_enable := (w_enable example_start)[11 := True]\<rparr>)"
  using field_names [OF foo_unknown, of example_start] by blast

text \<open>
  A short option with an optional value takes no value: the option string has a semicolon where \<open>getopt_long\<close> wants two
  colons. \<open>wattsup -i 5 ttyUSB0\<close> therefore takes 5 for the device and \<open>ttyUSB0\<close> for a field, which is a null
  pointer dereference unless it happens to be the name of a field.
\<close>

theorem short_interval_takes_no_value:
  assumes "chr_at v 0 \<noteq> CHR ''-''" "chr_at dev 0 \<noteq> CHR ''-''" "\<not> known_field dev"
    and "length (w_options w) = length wu_option_rows" "\<And>x. x \<in> set (w_options w) \<Longrightarrow> \<not> o_flag x"
  shows "getopt_long [''-i'', v, dev] = ([ShortOpt CHR ''i'' None], [v, dev]) \<and> wattsup_main [''-i'', v, dev] w = Inl NullPointer"
proof -
  have nd: "\<not> is_prefix ''--'' a" if "chr_at a 0 \<noteq> CHR ''-''" for a
    using that by (cases a) (auto simp: is_prefix_def chr_at_def)
  have s: "short_results make_shortopt ''i'' rest = ([ShortOpt CHR ''i'' None], rest)" for rest
  proof -
    have "short_kind make_shortopt CHR ''i'' = Some False" by code_simp
    then show ?thesis by simp
  qed
  have g: "getopt_long [''-i'', v, dev] = ([ShortOpt CHR ''i'' None], [v, dev])"
    using assms(1,2) nd [OF assms(1)] nd [OF assms(2)] s by (auto simp: is_prefix_def chr_at_def)
  have n: "length wu_option_rows = 19" by code_simp
  have idx: "filter (\<lambda>i. r_short (wu_option_rows ! i) = CHR ''i'') [0..<length wu_option_rows] = [13]" by code_simp
  have flag: "\<not> o_flag (w_options w ! 0)" "\<not> o_flag (w_options w ! 1)" using assms(4,5) n by (auto simp: nth_mem)
  define w1 where "w1 = w\<lparr>w_options := (w_options w)[13 := \<lparr>o_flag = True, o_value = o_value (w_options w ! 13)\<rparr>]\<rparr>"
  have opt: "enable_short_option CHR ''i'' None w = Inr ((), w1)"
    by (simp add: enable_short_option_def idx set_option_def machine_simps w1_def)
  have "wu_check_show wu_option_help w1 = Inr (False, w1)" "wu_check_show wu_option_version w1 = Inr (False, w1)"
    using flag by (simp_all add: wu_check_show_def wu_check_option_def machine_simps w1_def)
  with opt have "parse_args [''-i'', v, dev] w = Inl NullPointer"
    unfolding parse_args_def g
    by (simp add: machine_simps unknown_field_faults [OF assms(3)])
  with g show ?thesis by (simp add: wattsup_main_def machine_simps)
qed

theorem short_interval_takes_no_value_witness:
  "getopt_long [''-i'', ''5'', ''ttyUSB0''] = ([ShortOpt CHR ''i'' None], [''5'', ''ttyUSB0''])
    \<and> wattsup_main [''-i'', ''5'', ''ttyUSB0''] example_start = Inl NullPointer"
proof (rule short_interval_takes_no_value)
  show "\<not> known_field ''ttyUSB0''" by code_simp
qed (simp_all add: chr_at_def example_start_def wu_start_def)

text \<open>
  What storing settings sends. The interval and the mode go out with a letter d behind each number
  (the format is \<open>%ud\<close>), and storing the user parameters sends the same request \<open>#U,R,0;\<close>, a read without
  parameters, whatever the four values are.
\<close>

theorem settings_on_the_wire:
  assumes "w_writes w = []"
  shows "wu_write_interval 1 v w = Inr (0, w\<lparr>w_sent := w_sent w @ [''#S,W,2,1d,'' @ dec_nat (unat v) @ ''d;'']\<rparr>)
    \<and> wu_write_mode v w = Inr (0, w\<lparr>w_sent := w_sent w @ [''#M,W,1,'' @ dec_nat (unat v) @ ''d;'']\<rparr>)
    \<and> wu_write_user a b c d w = Inr (0, w\<lparr>w_sent := w_sent w @ [''#U,R,0;'']\<rparr>)"
proof -
  have "unat v < 10 ^ 10" using unsigned_less [of v, where 'a = nat] by simp
  then have l: "length (dec_nat (unat v)) \<le> 10" by (intro dec_nat_length) auto
  then have v: "param_str v = dec_nat (unat v) @ ''d''" by (simp add: param_str_def)
  have one: "param_str 1 = ''1d''" "dec_nat 2 = ''2''" "dec_nat 1 = ''1''" "dec_nat 0 = ''0''" by code_simp+
  have u: "wu_write_user a b c d w = wu_write (new_packet CHR ''U'' CHR ''R'' [] []) w"
    by (simp add: wu_write_user_def wu_write_def wu_command_def new_packet_def)
  show ?thesis
    using l assms wu_command_new [of "[''1d'', dec_nat (unat v) @ ''d'']"  "CHR ''S''" "CHR ''W''" "[]"]
      wu_command_new [of "[dec_nat (unat v) @ ''d'']"  "CHR ''M''" "CHR ''W''" "[]"]
      wu_command_new [of "[]"  "CHR ''U''" "CHR ''R''" "[]"]
    by (simp add: u wu_write_interval_def wu_write_mode_def v one one [simplified] comma_fields_def wu_write_def machine_simps
        numeral_2_eq_2 [symmetric])
qed

theorem settings_on_the_wire_witness:
  "wu_write_user 1 2 3 4 example_start = Inr (0, example_start\<lparr>w_sent := w_sent example_start @ [''#U,R,0;'']\<rparr>)"
  using settings_on_the_wire [of example_start 5 1 2 3 4] by (simp add: example_start_def wu_start_def)

end
