(* ===== verification/Lanplus_Crypt.thy ===== *)
theory Lanplus_Crypt
  imports Lan_Packet
begin

text \<open>
  The cryptographic part of the RMCP+ interface: the key exchange codes, the session keys, the integrity code of a packet
  and the encryption of a payload (\<open>src/plugins/lanplus/lanplus_crypt.c\<close> and \<open>lanplus_crypt_impl.c\<close>).

  The primitives come from OpenSSL, which is not part of the sources: they are fields of the record \<open>openssl\<close>, an argument
  of the definitions. \<open>openssl_ok\<close> is what is documented about them. \<open>alloc\<close> tells for which sizes \<open>malloc\<close>
  succeeds.
\<close>

section \<open>The session\<close>

datatype lanplus_state =
    LANPLUS_STATE_PRESESSION
  | LANPLUS_STATE_OPEN_SESSION_SENT
  | LANPLUS_STATE_OPEN_SESSION_RECEIEVED
  | LANPLUS_STATE_RAKP_1_SENT
  | LANPLUS_STATE_RAKP_2_RECEIVED
  | LANPLUS_STATE_RAKP_3_SENT
  | LANPLUS_STATE_ACTIVE
  | LANPLUS_STATE_CLOSE_SENT

text \<open>
  The session with what only RMCP+ uses: the outbound sequence number, the sequence number of \<open>sol_data\<close> and the fields of \<open>v2_data\<close>; \<open>lookupbit\<close> and \<open>kg\<close> are
  fields of \<open>ipmi_session\<close> already.
\<close>

record v2_session = ipmi_session +
  s_out_seq :: u32
  s_sol_sequence_number :: u8
  v_session_state :: lanplus_state
  v_requested_auth_alg :: u8
  v_requested_integrity_alg :: u8
  v_requested_crypt_alg :: u8
  v_auth_alg :: u8
  v_integrity_alg :: u8
  v_crypt_alg :: u8
  v_max_priv_level :: u8
  v_console_id :: u32
  v_bmc_id :: u32
  v_console_rand :: bytes
  v_bmc_rand :: bytes
  v_bmc_guid :: bytes
  v_requested_role :: u8
  v_rakp2_return_code :: u8
  v_sik :: bytes
  v_k1 :: bytes
  v_k2 :: bytes

text \<open>\<open>memset(intf->session, 0, sizeof(struct ipmi_session))\<close> of \<open>ipmi_lanplus_setup\<close>.\<close>

definition zero_v2_session :: v2_session where
  "zero_v2_session = \<lparr>s_hostname = replicate 64 0, s_username = replicate 17 0,
     s_authcode = replicate 21 0, s_challenge = replicate 16 0, s_authtype = 0, s_authtype_set = 0,
     s_authstatus = 0, s_privlvl = 0, s_cipher_suite_id = 0, s_sol_escape_char = 0,
     s_password = False, s_port = 0, s_active = False, s_retry = 0, s_session_id = 0, s_in_seq = 0,
     s_timeout = 0, s_lookupbit = 0, s_kg = replicate 21 0, s_out_seq = 0, s_sol_sequence_number = 0, v_session_state = LANPLUS_STATE_PRESESSION,
     v_requested_auth_alg = 0, v_requested_integrity_alg = 0, v_requested_crypt_alg = 0, v_auth_alg = 0, v_integrity_alg = 0,
     v_crypt_alg = 0, v_max_priv_level = 0, v_console_id = 0, v_bmc_id = 0, v_console_rand = replicate 16 0,
     v_bmc_rand = replicate 16 0, v_bmc_guid = replicate 16 0, v_requested_role = 0, v_rakp2_return_code = 0,
     v_sik = replicate 20 0, v_k1 = replicate 20 0, v_k2 = replicate 20 0\<rparr>"

definition v2_session_wf :: "v2_session \<Rightarrow> bool" where
  "v2_session_wf s \<longleftrightarrow> length (s_username s) = 17 \<and> length (s_authcode s) = 21 \<and> length (s_kg s) = 21
     \<and> length (v_console_rand s) = 16 \<and> length (v_bmc_rand s) = 16 \<and> length (v_bmc_guid s) = 16
     \<and> length (v_sik s) = 20 \<and> length (v_k1 s) = 20 \<and> length (v_k2 s) = 20"

abbreviation (input) IPMI_AUTH_RAKP_NONE :: u8 where "IPMI_AUTH_RAKP_NONE \<equiv> 0"
abbreviation (input) IPMI_AUTH_RAKP_HMAC_SHA1 :: u8 where "IPMI_AUTH_RAKP_HMAC_SHA1 \<equiv> 1"
abbreviation (input) IPMI_AUTH_RAKP_HMAC_MD5 :: u8 where "IPMI_AUTH_RAKP_HMAC_MD5 \<equiv> 2"
abbreviation (input) IPMI_INTEGRITY_NONE :: u8 where "IPMI_INTEGRITY_NONE \<equiv> 0"
abbreviation (input) IPMI_INTEGRITY_HMAC_SHA1_96 :: u8 where "IPMI_INTEGRITY_HMAC_SHA1_96 \<equiv> 1"
abbreviation (input) IPMI_INTEGRITY_HMAC_MD5_128 :: u8 where "IPMI_INTEGRITY_HMAC_MD5_128 \<equiv> 2"
abbreviation (input) IPMI_INTEGRITY_MD5_128 :: u8 where "IPMI_INTEGRITY_MD5_128 \<equiv> 3"
abbreviation (input) IPMI_CRYPT_NONE :: u8 where "IPMI_CRYPT_NONE \<equiv> 0"
abbreviation (input) IPMI_CRYPT_AES_CBC_128 :: u8 where "IPMI_CRYPT_AES_CBC_128 \<equiv> 1"
abbreviation (input) IPMI_CRYPT_XRC4_128 :: u8 where "IPMI_CRYPT_XRC4_128 \<equiv> 2"
abbreviation (input) IPMI_CRYPT_XRC4_40 :: u8 where "IPMI_CRYPT_XRC4_40 \<equiv> 3"
abbreviation (input) IPMI_SESSION_AUTHTYPE_RMCP_PLUS :: u8 where "IPMI_SESSION_AUTHTYPE_RMCP_PLUS \<equiv> 6"

section \<open>Primitives\<close>

text \<open>
  \<open>HMAC(EVP_sha1(), key, data)\<close>, and \<open>EVP_EncryptUpdate\<close> and \<open>EVP_DecryptUpdate\<close> with their final calls for AES-128 in CBC mode
  without padding, of key, initialization vector and data; None is a failure of one of the calls.
\<close>

record openssl =
  ssl_hmac :: "bytes \<Rightarrow> bytes \<Rightarrow> bytes"
  ssl_encrypt :: "bytes \<Rightarrow> bytes \<Rightarrow> bytes \<Rightarrow> bytes option"
  ssl_decrypt :: "bytes \<Rightarrow> bytes \<Rightarrow> bytes \<Rightarrow> bytes option"

definition openssl_ok :: "openssl \<Rightarrow> bool" where
  "openssl_ok ssl \<longleftrightarrow>
     (\<forall>key d. length (ssl_hmac ssl key d) = 20) \<and>
     (\<forall>key iv d. length key = 16 \<and> length iv = 16 \<and> length d mod 16 = 0 \<longrightarrow>
        (\<exists>c. ssl_encrypt ssl key iv d = Some c \<and> length c = length d \<and> ssl_decrypt ssl key iv c = Some d))"

definition lanplus_HMAC :: "openssl \<Rightarrow> u8 \<Rightarrow> bytes \<Rightarrow> bytes \<Rightarrow> fault + bytes" where
  "lanplus_HMAC ssl mac key d =
     (if mac = IPMI_AUTH_RAKP_HMAC_SHA1 \<or> mac = IPMI_INTEGRITY_HMAC_SHA1_96 then Inr (ssl_hmac ssl key d)
      else Inl AssertFailed)"

text \<open>The bytes written; none on a failure or when there is nothing to encrypt. The key is the 16 bytes that AES-128 takes of it.\<close>

definition lanplus_encrypt_aes_cbc_128 :: "openssl \<Rightarrow> bytes \<Rightarrow> bytes \<Rightarrow> bytes \<Rightarrow> fault + bytes" where
  "lanplus_encrypt_aes_cbc_128 ssl iv key input =
     (if length input = 0 then Inr []
      else if length input mod 16 \<noteq> 0 then Inl AssertFailed
      else Inr (case ssl_encrypt ssl (take 16 key) iv input of None \<Rightarrow> [] | Some c \<Rightarrow> c))"

definition lanplus_decrypt_aes_cbc_128 :: "openssl \<Rightarrow> bytes \<Rightarrow> bytes \<Rightarrow> bytes \<Rightarrow> fault + bytes" where
  "lanplus_decrypt_aes_cbc_128 ssl iv key input =
     (if length input = 0 then Inr []
      else if length input mod 16 \<noteq> 0 then Inl AssertFailed
      else Inr (case ssl_decrypt ssl (take 16 key) iv input of None \<Rightarrow> [] | Some d \<Rightarrow> d))"

section \<open>Key exchange\<close>

text \<open>
  The user name as the functions below append it: its length as a byte, and its characters. \<open>strlen\<close> runs out of
  the array when there is no NUL in it.
\<close>

definition user_name :: "v2_session \<Rightarrow> fault + bytes" where
  "user_name s = (if 0 \<in> set (s_username s) then Inr (cstring (s_username s)) else Inl OutOfBounds)"

definition with_length :: "bytes \<Rightarrow> bytes" where
  "with_length name = of_nat (length name) # name"

definition rakp2_input :: "v2_session \<Rightarrow> bytes \<Rightarrow> bytes" where
  "rakp2_input s name =
     le32 (v_console_id s) @ le32 (v_bmc_id s) @ v_console_rand s @ v_bmc_rand s @ v_bmc_guid s @ [v_requested_role s] @ with_length name"

definition lanplus_rakp2_hmac_matches :: "openssl \<Rightarrow> (nat \<Rightarrow> bool) \<Rightarrow> v2_session \<Rightarrow> bytes \<Rightarrow> fault + bool" where
  "lanplus_rakp2_hmac_matches ssl alloc s bmc_mac =
     (if v_auth_alg s = IPMI_AUTH_RAKP_NONE then Inr True
      else if v_auth_alg s \<noteq> IPMI_AUTH_RAKP_HMAC_SHA1 then Inl AssertFailed
      else case user_name s of
             Inl e \<Rightarrow> Inl e
           | Inr name \<Rightarrow>
               if \<not> alloc (58 + length name) then Inr True
               else (case lanplus_HMAC ssl (v_auth_alg s) (take 20 (s_authcode s)) (rakp2_input s name) of
                       Inl e \<Rightarrow> Inl e
                     | Inr mac \<Rightarrow> Inr (take (length mac) bmc_mac = mac)))"

definition rakp4_input :: "v2_session \<Rightarrow> bytes" where
  "rakp4_input s = v_console_rand s @ le32 (v_bmc_id s) @ v_bmc_guid s"

definition lanplus_rakp4_hmac_matches :: "openssl \<Rightarrow> (nat \<Rightarrow> bool) \<Rightarrow> ipmi_intf \<Rightarrow> v2_session \<Rightarrow> bytes \<Rightarrow> fault + bool" where
  "lanplus_rakp4_hmac_matches ssl alloc intf s bmc_mac =
     (let alg = (if ipmi_oem_active intf ''intelplus'' then v_integrity_alg s else v_auth_alg s)
      in if alg = 0 then Inr True
         else if alg \<noteq> 1 then Inl AssertFailed
         else if \<not> alloc 36 then Inr True
         else (case lanplus_HMAC ssl alg (v_sik s) (rakp4_input s) of
                 Inl e \<Rightarrow> Inl e
               | Inr mac \<Rightarrow> if length mac \<noteq> 20 then Inl AssertFailed else Inr (take 12 bmc_mac = take 12 mac)))"

definition rakp3_input :: "ipmi_intf \<Rightarrow> v2_session \<Rightarrow> bytes \<Rightarrow> bytes" where
  "rakp3_input intf s name =
     v_bmc_rand s @ le32 (v_console_id s) @ [if ipmi_oem_active intf ''intelplus'' then s_privlvl s else v_requested_role s] @ with_length name"

text \<open>None is the return value 1; otherwise the code, whose length is \<open>mac_length\<close>.\<close>

definition lanplus_generate_rakp3_authcode :: "openssl \<Rightarrow> (nat \<Rightarrow> bool) \<Rightarrow> ipmi_intf \<Rightarrow> v2_session \<Rightarrow> fault + bytes option" where
  "lanplus_generate_rakp3_authcode ssl alloc intf s =
     (if v_auth_alg s = IPMI_AUTH_RAKP_NONE then Inr (Some [])
      else if v_auth_alg s \<noteq> IPMI_AUTH_RAKP_HMAC_SHA1 then Inl AssertFailed
      else case user_name s of
             Inl e \<Rightarrow> Inl e
           | Inr name \<Rightarrow>
               if \<not> alloc (22 + length name) then Inr None
               else (case lanplus_HMAC ssl (v_auth_alg s) (take 20 (s_authcode s)) (rakp3_input intf s name) of
                       Inl e \<Rightarrow> Inl e
                     | Inr mac \<Rightarrow> Inr (Some mac)))"

definition sik_input :: "v2_session \<Rightarrow> bytes \<Rightarrow> bytes" where
  "sik_input s name = v_console_rand s @ v_bmc_rand s @ [v_requested_role s] @ with_length name"

text \<open>Kg if its first byte is not zero, the user's key otherwise.\<close>

definition sik_key :: "v2_session \<Rightarrow> bytes" where
  "sik_key s = take 20 (if s_kg s ! 0 \<noteq> 0 then s_kg s else s_authcode s)"

definition lanplus_generate_sik :: "openssl \<Rightarrow> (nat \<Rightarrow> bool) \<Rightarrow> v2_session \<Rightarrow> fault + int \<times> v2_session" where
  "lanplus_generate_sik ssl alloc s0 =
     (let s = s0\<lparr>v_sik := replicate 20 0\<rparr>
      in if v_auth_alg s = IPMI_AUTH_RAKP_NONE then Inr (0, s)
         else if v_auth_alg s \<noteq> IPMI_AUTH_RAKP_HMAC_SHA1 then Inl AssertFailed
         else case user_name s of
                Inl e \<Rightarrow> Inl e
              | Inr name \<Rightarrow>
                  if \<not> alloc (34 + length name) then Inr (1, s)
                  else (case lanplus_HMAC ssl (v_auth_alg s) (sik_key s) (sik_input s name) of
                          Inl e \<Rightarrow> Inl e
                        | Inr mac \<Rightarrow> if length mac \<noteq> 20 then Inl AssertFailed else Inr (0, s\<lparr>v_sik := mac\<rparr>)))"

text \<open>K1 and K2: the HMAC of a constant under the session integrity key, or the constant itself.\<close>

definition additional_key :: "openssl \<Rightarrow> v2_session \<Rightarrow> u8 \<Rightarrow> fault + bytes" where
  "additional_key ssl s c =
     (if v_auth_alg s = IPMI_AUTH_RAKP_NONE then Inr (replicate 20 c)
      else case lanplus_HMAC ssl (v_auth_alg s) (v_sik s) (replicate 20 c) of
             Inl e \<Rightarrow> Inl e
           | Inr mac \<Rightarrow> if length mac \<noteq> 20 then Inl AssertFailed else Inr mac)"

definition lanplus_generate_k1 :: "openssl \<Rightarrow> v2_session \<Rightarrow> fault + v2_session" where
  "lanplus_generate_k1 ssl s = map_sum (\<lambda>e. e) (\<lambda>k. s\<lparr>v_k1 := k\<rparr>) (additional_key ssl s 1)"

definition lanplus_generate_k2 :: "openssl \<Rightarrow> v2_session \<Rightarrow> fault + v2_session" where
  "lanplus_generate_k2 ssl s = map_sum (\<lambda>e. e) (\<lambda>k. s\<lparr>v_k2 := k\<rparr>) (additional_key ssl s 2)"

section \<open>Encryption\<close>

text \<open>Sixteen random bytes: whether \<open>RAND_bytes\<close> succeeds, and what it leaves in the buffer.\<close>

type_synonym rand16 = "bool \<times> bytes"

definition conf_pad_length :: "nat \<Rightarrow> nat" where
  "conf_pad_length n = (if (n + 1) mod 16 \<noteq> 0 then 16 - (n + 1) mod 16 else 0)"

definition padded_input :: "bytes \<Rightarrow> bytes" where
  "padded_input input =
     (let p = conf_pad_length (length input) in input @ map (\<lambda>i. of_nat (i + 1)) [0..<p] @ [of_nat p])"

text \<open>
  \<open>lanplus_encrypt_payload\<close> as its one caller uses it, with the same buffer for input and output: the return value,
  what the buffer then holds, and \<open>bytes_written\<close>, which on an error stays what it was.
\<close>

definition lanplus_encrypt_payload ::
  "openssl \<Rightarrow> (nat \<Rightarrow> bool) \<Rightarrow> rand16 \<Rightarrow> u8 \<Rightarrow> bytes \<Rightarrow> bytes \<Rightarrow> fault + int \<times> bytes \<times> u16" where
  "lanplus_encrypt_payload ssl alloc rnd crypt_alg key input =
     (let n = length input
      in if crypt_alg = IPMI_CRYPT_NONE then Inr (0, input, of_nat n)
         else if crypt_alg \<noteq> IPMI_CRYPT_AES_CBC_128 \<or> n > 0xFFFF then Inl AssertFailed
         else if \<not> alloc (n + conf_pad_length n + 1) then Inr (1, input, of_nat n)
         else if \<not> fst rnd then Inr (1, take n (snd rnd @ drop 16 input), of_nat n)
         else case lanplus_encrypt_aes_cbc_128 ssl (snd rnd) key (padded_input input) of
                Inl e \<Rightarrow> Inl e
              | Inr c \<Rightarrow> Inr (0, snd rnd @ c, of_nat (16 + length c)))"

text \<open>
  \<open>lanplus_decrypt_payload\<close>, also in place: the return value, the output and \<open>payload_size\<close>, which is not set when \<open>malloc\<close> fails. The
  length of the data to decrypt is computed in 32 bits.
\<close>

definition bad_padding :: "bytes \<Rightarrow> nat \<Rightarrow> nat \<Rightarrow> fault option" where
  "bad_padding d start n =
     foldl (\<lambda>r i. case r of
              Some e \<Rightarrow> Some e
            | None \<Rightarrow> if start + i \<ge> length d then Some OutOfBounds
                      else if d ! (start + i) = of_nat i then Some AssertFailed else None) None [0..<n]"

definition lanplus_decrypt_payload ::
  "openssl \<Rightarrow> (nat \<Rightarrow> bool) \<Rightarrow> u8 \<Rightarrow> bytes \<Rightarrow> bytes \<Rightarrow> fault + int \<times> bytes \<times> u16 option" where
  "lanplus_decrypt_payload ssl alloc crypt_alg key input =
     (if crypt_alg = IPMI_CRYPT_NONE then Inr (0, input, Some (of_nat (length input)))
      else if crypt_alg \<noteq> IPMI_CRYPT_AES_CBC_128 then Inl AssertFailed
      else if \<not> alloc (length input) then Inr (1, input, None)
      else if length input < 16 then Inl (if length input = 0 then OutOfBounds else AssertFailed)
      else case lanplus_decrypt_aes_cbc_128 ssl (take 16 input) key (drop 16 input) of
             Inl e \<Rightarrow> Inl e
           | Inr d \<Rightarrow>
               if d = [] then Inl AssertFailed
               else
                 let pad = unat (last d);
                     payload_size = of_nat (length d) - of_nat pad - 1 :: u16
                 in case bad_padding d (unat payload_size) pad of
                      Some e \<Rightarrow> Inl e
                    | None \<Rightarrow> Inr (0, d @ drop (length d) input, Some payload_size))"

section \<open>Encryption is undone\<close>

lemma openssl_hmac_len: "openssl_ok ssl \<Longrightarrow> length (ssl_hmac ssl key d) = 20"
  by (simp add: openssl_ok_def)

lemma openssl_crypt:
  assumes "openssl_ok ssl" "length key = 16" "length iv = 16" "length d mod 16 = 0"
  obtains c where "ssl_encrypt ssl key iv d = Some c" "length c = length d" "ssl_decrypt ssl key iv c = Some d"
  using assms(1) [unfolded openssl_ok_def, THEN conjunct2, rule_format, of key iv d] assms(2-4) that by auto

lemma conf_pad_bound: "conf_pad_length n < 16"
  by (simp add: conf_pad_length_def)

lemma length_padded_input: "length (padded_input input) = length input + conf_pad_length (length input) + 1"
  by (simp add: padded_input_def Let_def)

lemma conf_pad_multiple: "(n + conf_pad_length n + 1) mod 16 = 0"
proof -
  have "n + conf_pad_length n + 1 = (n + 1) + (16 - (n + 1) mod 16)" if "(n + 1) mod 16 \<noteq> 0"
    using that by (simp add: conf_pad_length_def)
  moreover have "((n + 1) + (16 - (n + 1) mod 16)) mod 16 = 0"
    using mod_less_divisor [of 16 "n + 1"] by presburger
  ultimately show ?thesis by (cases "(n + 1) mod 16 = 0") (auto simp: conf_pad_length_def)
qed

lemma length_padded_input_le: "length (padded_input input) \<le> length input + 16"
  using conf_pad_bound [of "length input"] by (simp add: length_padded_input)

text \<open>The test of the padding passes when no byte of it is its index.\<close>

lemma bad_padding_Some: "foldl (\<lambda>r i. case r of Some e \<Rightarrow> Some e | None \<Rightarrow> f i) (Some e) xs = Some e"
  by (induction xs) auto

lemma bad_padding_Suc:
  "bad_padding d start (Suc n) =
     (case bad_padding d start n of
        Some e \<Rightarrow> Some e
      | None \<Rightarrow> if start + n \<ge> length d then Some OutOfBounds
                else if d ! (start + n) = of_nat n then Some AssertFailed else None)"
  by (simp add: bad_padding_def)

lemma bad_padding_iff:
  "start + n \<le> length d \<Longrightarrow> bad_padding d start n = (if \<exists>i<n. d ! (start + i) = of_nat i then Some AssertFailed else None)"
  by (induction n) (auto simp: bad_padding_Suc less_Suc_eq, simp add: bad_padding_def)

lemma good_padding:
  assumes "n = length input"
  shows "bad_padding (padded_input input) n (conf_pad_length n) = None"
proof -
  have "(of_nat (Suc i) :: u8) \<noteq> of_nat i" for i by simp
  then show ?thesis
    using assms by (subst bad_padding_iff) (auto simp: padded_input_def Let_def nth_append)
qed

lemma last_padded_input: "unat (last (padded_input input)) = conf_pad_length (length input)"
  using conf_pad_bound [of "length input"] by (simp add: padded_input_def Let_def unat_of_nat)

lemma decrypt_padded:
  assumes "alloc (length (padded_input input) + 16)" "length input \<le> 65503"
    and "length iv = 16" "ssl_decrypt ssl (take 16 key) iv c = Some (padded_input input)" "length c = length (padded_input input)"
  shows "lanplus_decrypt_payload ssl alloc IPMI_CRYPT_AES_CBC_128 key (iv @ c)
    = Inr (0, padded_input input @ drop (length c) (iv @ c), Some (of_nat (length input)))"
proof -
  let ?n = "length input" and ?p = "conf_pad_length (length input)"
  have l: "length c = ?n + ?p + 1" using assms(5) by (simp add: length_padded_input)
  then have "length c mod 16 = 0" using conf_pad_multiple [of ?n] by simp
  with assms(4) l have d: "lanplus_decrypt_aes_cbc_128 ssl iv key c = Inr (padded_input input)"
    by (simp add: lanplus_decrypt_aes_cbc_128_def)
  have sz: "(of_nat (length (padded_input input)) - of_nat ?p - 1 :: u16) = of_nat ?n"
    by (simp add: length_padded_input)
  have n: "unat (of_nat ?n :: u16) = ?n" using assms(2) by (simp add: unat_of_nat)
  have ne: "padded_input input \<noteq> []" by (simp add: padded_input_def Let_def)
  show ?thesis
    using assms(1,3,5) l d ne good_padding [OF refl, of input]
    by (simp add: lanplus_decrypt_payload_def Let_def last_padded_input sz n add.commute)
qed

lemma encrypt_decrypt:
  assumes "openssl_ok ssl" "\<And>n. alloc n" "fst rnd" "length (snd rnd) = 16" "16 \<le> length key" "length input \<le> 65503"
  obtains c d where "lanplus_encrypt_payload ssl alloc rnd IPMI_CRYPT_AES_CBC_128 key input = Inr (0, c, of_nat (length c))"
    "length c mod 16 = 0" "length input + 17 \<le> length c" "length c \<le> length input + 32"
    "lanplus_decrypt_payload ssl alloc IPMI_CRYPT_AES_CBC_128 key c = Inr (0, d, Some (of_nat (length input)))"
    "take (length input) d = input" "length d = length c"
proof -
  have m: "length (padded_input input) mod 16 = 0" using conf_pad_multiple [of "length input"] by (simp add: length_padded_input)
  have k: "length (take 16 key) = 16" using assms(5) by simp
  from openssl_crypt [OF assms(1) k assms(4) m]
  obtain c where c: "ssl_encrypt ssl (take 16 key) (snd rnd) (padded_input input) = Some c"
    "length c = length (padded_input input)" "ssl_decrypt ssl (take 16 key) (snd rnd) c = Some (padded_input input)" by blast
  have ne: "padded_input input \<noteq> []" by (simp add: padded_input_def Let_def)
  have "lanplus_encrypt_payload ssl alloc rnd IPMI_CRYPT_AES_CBC_128 key input = Inr (0, snd rnd @ c, of_nat (length (snd rnd @ c)))"
    using assms(2,3,4,6) c m ne
    by (simp add: lanplus_encrypt_payload_def Let_def lanplus_encrypt_aes_cbc_128_def)
  moreover have "lanplus_decrypt_payload ssl alloc IPMI_CRYPT_AES_CBC_128 key (snd rnd @ c)
      = Inr (0, padded_input input @ drop (length c) (snd rnd @ c), Some (of_nat (length input)))"
    using decrypt_padded [OF _ assms(6,4) c(3,2)] assms(2) by blast
  moreover have "take (length input) (padded_input input @ drop (length c) (snd rnd @ c)) = input"
    by (simp add: padded_input_def Let_def)
  moreover have lc: "length (snd rnd @ c) = length (padded_input input) + 16" using c(2) assms(4) by simp
  moreover have "length (snd rnd @ c) mod 16 = 0" using lc m by (metis mod_add_self2)
  moreover have "length input + 17 \<le> length (snd rnd @ c)" "length (snd rnd @ c) \<le> length input + 32"
    using lc length_padded_input [of input] length_padded_input_le [of input] by simp_all
  moreover have "length (padded_input input @ drop (length c) (snd rnd @ c)) = length (snd rnd @ c)" using c(2) assms(4) by simp
  ultimately show ?thesis
    by (intro that [of "snd rnd @ c" "padded_input input @ drop (length c) (snd rnd @ c)"])
qed

text \<open>
  C5. What is encrypted is decrypted to the same payload. With an AES of OpenSSL whose decryption undoes its
  encryption, \<open>lanplus_encrypt_payload\<close> of any payload of up to 65503 bytes succeeds, yields a whole number of blocks behind the initialization
  vector, at most 32 bytes more than the payload, and \<open>lanplus_decrypt_payload\<close> with the same key succeeds, finds the padding in order and
  reports exactly the length of the payload, whose bytes are at the start of its output.
\<close>

theorem payload_encryption_round_trip:
  assumes "openssl_ok ssl" "\<And>n. alloc n" "fst rnd" "length (snd rnd) = 16" "16 \<le> length key" "length input \<le> 65503"
  shows "\<exists>c d. lanplus_encrypt_payload ssl alloc rnd IPMI_CRYPT_AES_CBC_128 key input = Inr (0, c, of_nat (length c))
    \<and> length c mod 16 = 0 \<and> length input + 17 \<le> length c \<and> length c \<le> length input + 32
    \<and> lanplus_decrypt_payload ssl alloc IPMI_CRYPT_AES_CBC_128 key c = Inr (0, d, Some (of_nat (length input)))
    \<and> take (length input) d = input"
  using encrypt_decrypt [of ssl alloc rnd key input] assms by (metis (full_types))

text \<open>A stand-in for OpenSSL that adds the first key byte to every byte, for concrete runs.\<close>

definition demo_ssl :: openssl where
  "demo_ssl = \<lparr>ssl_hmac = (\<lambda>key d. replicate 19 (sum_list key) @ [sum_list d]),
     ssl_encrypt = (\<lambda>key iv d. Some (map (\<lambda>b. b + key ! 0) d)),
     ssl_decrypt = (\<lambda>key iv d. Some (map (\<lambda>b. b - key ! 0) d))\<rparr>"

lemma demo_ssl_ok: "openssl_ok demo_ssl"
  by (simp add: openssl_ok_def demo_ssl_def comp_def)

theorem payload_encryption_round_trip_witness:
  "\<exists>c d. lanplus_encrypt_payload demo_ssl (\<lambda>_. True) (True, replicate 16 9) IPMI_CRYPT_AES_CBC_128 (replicate 20 7) [1, 2, 3] = Inr (0, c, of_nat (length c))
    \<and> length c mod 16 = 0 \<and> length [1, 2, 3 :: u8] + 17 \<le> length c \<and> length c \<le> length [1, 2, 3 :: u8] + 32
    \<and> lanplus_decrypt_payload demo_ssl (\<lambda>_. True) IPMI_CRYPT_AES_CBC_128 (replicate 20 7) c = Inr (0, d, Some (of_nat (length [1, 2, 3 :: u8])))
    \<and> take (length [1, 2, 3 :: u8]) d = [1, 2, 3]"
  by (rule payload_encryption_round_trip [OF demo_ssl_ok]) simp_all

text \<open>
  C28. The test of the padding is the wrong way round: for a payload that decrypts to \<open>d\<close> with a pad of \<open>p\<close> bytes the program is aborted exactly if
  one of the pad bytes equals its index, counted from 0; the pad 1, 2, 3 and so on that the specification prescribes passes, but so does
  every other one without such a byte.
\<close>

theorem padding_test_is_inverted:
  assumes "ssl_decrypt ssl (take 16 key) (take 16 input) (drop 16 input) = Some d" "16 < length input" "length input mod 16 = 0" "alloc (length input)"
    and "d \<noteq> []" "p = unat (last d)" "p < length d" "length d < 2 ^ 16"
  shows "lanplus_decrypt_payload ssl alloc IPMI_CRYPT_AES_CBC_128 key input =
    (if \<exists>i<p. d ! (length d - 1 - p + i) = of_nat i then Inl AssertFailed
     else Inr (0, d @ drop (length d) input, Some (of_nat (length d - 1 - p))))"
proof -
  have sz: "(of_nat (length d) - of_nat p - 1 :: u16) = of_nat (length d - 1 - p)" using assms(7) by (simp add: of_nat_diff)
  have n: "unat (of_nat (length d - 1 - p) :: u16) = length d - 1 - p" using assms(8) by (simp add: unat_of_nat)
  have m: "(length input - 16) mod 16 = 0" using assms(2,3) le_mod_geq [of 16 "length input"] by simp
  have d: "lanplus_decrypt_aes_cbc_128 ssl (take 16 input) key (drop 16 input) = Inr d"
    using assms(1-3) m by (simp add: lanplus_decrypt_aes_cbc_128_def)
  have "bad_padding d (length d - 1 - p) p = (if \<exists>i<p. d ! (length d - 1 - p + i) = of_nat i then Some AssertFailed else None)"
    using assms(7) by (intro bad_padding_iff) simp
  moreover have "lanplus_decrypt_payload ssl alloc IPMI_CRYPT_AES_CBC_128 key input =
      (case bad_padding d (unat (of_nat (length d) - of_nat p - 1 :: u16)) p of
         Some e \<Rightarrow> Inl e
       | None \<Rightarrow> Inr (0, d @ drop (length d) input, Some (of_nat (length d) - of_nat p - 1)))"
    using assms(2,4,5) d unfolding assms(6) lanplus_decrypt_payload_def Let_def by simp
  ultimately show ?thesis unfolding sz n by simp
qed

theorem padding_test_is_inverted_witness:
  "lanplus_decrypt_payload demo_ssl (\<lambda>_. True) IPMI_CRYPT_AES_CBC_128 (replicate 20 0) (replicate 16 0 @ replicate 12 7 @ [9, 9, 9, 3])
    = (if \<exists>i<3. (replicate 12 7 @ [9, 9, 9, 3 :: u8]) ! (length (replicate 12 7 @ [9, 9, 9, 3 :: u8]) - 1 - 3 + i) = of_nat i then Inl AssertFailed
       else Inr (0, (replicate 12 7 @ [9, 9, 9, 3]) @ drop (length (replicate 12 7 @ [9, 9, 9, 3 :: u8])) (replicate 16 0 @ replicate 12 7 @ [9, 9, 9, 3]),
         Some (of_nat (length (replicate 12 7 @ [9, 9, 9, 3 :: u8]) - 1 - 3))))"
  by (rule padding_test_is_inverted) (simp_all add: demo_ssl_def)

text \<open>
  A failing \<open>malloc\<close> counts as a match: when the buffer for the HMAC input cannot be allocated, both checks of the BMC's key
  exchange codes report a match, whatever code the BMC has sent.
\<close>

theorem failing_malloc_authenticates:
  assumes "v_auth_alg s = IPMI_AUTH_RAKP_HMAC_SHA1" "\<not> ipmi_oem_active intf ''intelplus''" "0 \<in> set (s_username s)" "\<And>n. \<not> alloc n"
  shows "lanplus_rakp2_hmac_matches ssl alloc s mac = Inr True \<and> lanplus_rakp4_hmac_matches ssl alloc intf s mac = Inr True"
  using assms by (simp add: lanplus_rakp2_hmac_matches_def lanplus_rakp4_hmac_matches_def user_name_def Let_def)

definition no_oem_intf :: ipmi_intf where
  "no_oem_intf = \<lparr>i_fd = 0, i_opened = True, i_abort = False, i_noanswer = False, i_session = None, i_oem = None, i_my_addr = 0x20,
     i_target_addr = 0x20, i_target_channel = 0\<rparr>"

theorem failing_malloc_authenticates_witness:
  "lanplus_rakp2_hmac_matches demo_ssl (\<lambda>_. False) (zero_v2_session\<lparr>v_auth_alg := 1\<rparr>) (replicate 20 5) = Inr True
    \<and> lanplus_rakp4_hmac_matches demo_ssl (\<lambda>_. False) no_oem_intf (zero_v2_session\<lparr>v_auth_alg := 1\<rparr>) (replicate 20 5) = Inr True"
  by (rule failing_malloc_authenticates) (simp_all add: zero_v2_session_def no_oem_intf_def ipmi_oem_active_def)

end
