(* ===== verification/Lanplus_Packet.thy ===== *)
theory Lanplus_Packet
  imports Lanplus_Crypt
begin

text \<open>
  The packets of the RMCP+ interface (\<open>src/plugins/lanplus/lanplus.c\<close>): what \<open>ipmi_lanplus_build_v2x_msg\<close> puts together, what the
  \<open>read_\<close> functions take apart, and the check and decryption of a received packet.
\<close>

section \<open>Cipher suites\<close>

text \<open>Authentication, integrity and encryption algorithm of a cipher suite; None for the return value 1.\<close>

definition lanplus_get_requested_ciphers :: "int \<Rightarrow> (u8 \<times> u8 \<times> u8) option" where
  "lanplus_get_requested_ciphers n =
     (if n < 0 \<or> n > 14 then None
      else Some ([(IPMI_AUTH_RAKP_NONE, IPMI_INTEGRITY_NONE, IPMI_CRYPT_NONE),
        (IPMI_AUTH_RAKP_HMAC_SHA1, IPMI_INTEGRITY_NONE, IPMI_CRYPT_NONE),
        (IPMI_AUTH_RAKP_HMAC_SHA1, IPMI_INTEGRITY_HMAC_SHA1_96, IPMI_CRYPT_NONE),
        (IPMI_AUTH_RAKP_HMAC_SHA1, IPMI_INTEGRITY_HMAC_SHA1_96, IPMI_CRYPT_AES_CBC_128),
        (IPMI_AUTH_RAKP_HMAC_SHA1, IPMI_INTEGRITY_HMAC_SHA1_96, IPMI_CRYPT_XRC4_128),
        (IPMI_AUTH_RAKP_HMAC_SHA1, IPMI_INTEGRITY_HMAC_SHA1_96, IPMI_CRYPT_XRC4_40),
        (IPMI_AUTH_RAKP_HMAC_MD5, IPMI_INTEGRITY_NONE, IPMI_CRYPT_NONE),
        (IPMI_AUTH_RAKP_HMAC_MD5, IPMI_INTEGRITY_HMAC_MD5_128, IPMI_CRYPT_NONE),
        (IPMI_AUTH_RAKP_HMAC_MD5, IPMI_INTEGRITY_HMAC_MD5_128, IPMI_CRYPT_AES_CBC_128),
        (IPMI_AUTH_RAKP_HMAC_MD5, IPMI_INTEGRITY_HMAC_MD5_128, IPMI_CRYPT_XRC4_128),
        (IPMI_AUTH_RAKP_HMAC_MD5, IPMI_INTEGRITY_HMAC_MD5_128, IPMI_CRYPT_XRC4_40),
        (IPMI_AUTH_RAKP_HMAC_MD5, IPMI_INTEGRITY_MD5_128, IPMI_CRYPT_NONE),
        (IPMI_AUTH_RAKP_HMAC_MD5, IPMI_INTEGRITY_MD5_128, IPMI_CRYPT_AES_CBC_128),
        (IPMI_AUTH_RAKP_HMAC_MD5, IPMI_INTEGRITY_MD5_128, IPMI_CRYPT_XRC4_128),
        (IPMI_AUTH_RAKP_HMAC_MD5, IPMI_INTEGRITY_MD5_128, IPMI_CRYPT_XRC4_40)] ! nat n))"

text \<open>\<open>lanplus_swap\<close>: exchange the ends, then the next ones, up to the middle.\<close>

definition swap_step :: "nat \<Rightarrow> bytes \<Rightarrow> nat \<Rightarrow> bytes" where
  "swap_step len buffer i = buffer[i := buffer ! (len - 1 - i), len - 1 - i := buffer ! i]"

definition lanplus_swap :: "bytes \<Rightarrow> nat \<Rightarrow> bytes" where
  "lanplus_swap buffer len = foldl (swap_step len) buffer [0..<len div 2]"

section \<open>Responses\<close>

text \<open>
  \<open>struct ipmi_rs\<close> as this interface uses it. The union \<open>payload\<close> is kept as its 60 bytes of memory, since the code also reads it through
  another member than the one that was written; the functions below name the members by their offsets.
\<close>

record v2_rs =
  p_ccode :: u8
  p_data :: bytes
  p_data_len :: int
  p_authtype :: u8
  p_seq :: u32
  p_id :: u32
  p_bEncrypted :: bool
  p_bAuthenticated :: bool
  p_payloadtype :: u8
  p_msglen :: u16
  p_payload :: bytes

definition v2_rs_ok :: "v2_rs \<Rightarrow> bool" where
  "v2_rs_ok rsp \<longleftrightarrow> length (p_data rsp) = 1024 \<and> length (p_payload rsp) = 60"

abbreviation (input) IPMI_PAYLOAD_TYPE_IPMI :: u8 where "IPMI_PAYLOAD_TYPE_IPMI \<equiv> 0"
abbreviation (input) IPMI_PAYLOAD_TYPE_SOL :: u8 where "IPMI_PAYLOAD_TYPE_SOL \<equiv> 1"
abbreviation (input) IPMI_PAYLOAD_TYPE_RMCP_OPEN_REQUEST :: u8 where "IPMI_PAYLOAD_TYPE_RMCP_OPEN_REQUEST \<equiv> 0x10"
abbreviation (input) IPMI_PAYLOAD_TYPE_RMCP_OPEN_RESPONSE :: u8 where "IPMI_PAYLOAD_TYPE_RMCP_OPEN_RESPONSE \<equiv> 0x11"
abbreviation (input) IPMI_PAYLOAD_TYPE_RAKP_1 :: u8 where "IPMI_PAYLOAD_TYPE_RAKP_1 \<equiv> 0x12"
abbreviation (input) IPMI_PAYLOAD_TYPE_RAKP_2 :: u8 where "IPMI_PAYLOAD_TYPE_RAKP_2 \<equiv> 0x13"
abbreviation (input) IPMI_PAYLOAD_TYPE_RAKP_3 :: u8 where "IPMI_PAYLOAD_TYPE_RAKP_3 \<equiv> 0x14"
abbreviation (input) IPMI_PAYLOAD_TYPE_RAKP_4 :: u8 where "IPMI_PAYLOAD_TYPE_RAKP_4 \<equiv> 0x15"

definition put :: "nat \<Rightarrow> bytes \<Rightarrow> v2_rs \<Rightarrow> v2_rs" where
  "put off b rsp = rsp\<lparr>p_payload := memcpy_at (p_payload rsp) off b\<rparr>"

text \<open>Members: the return code and, in the order of the structures, the offsets of what follows it.\<close>

definition rakp_return_code :: "v2_rs \<Rightarrow> u8" where
  "rakp_return_code rsp = p_payload rsp ! 1"

definition read_open_session_response :: "v2_rs \<Rightarrow> nat \<Rightarrow> v2_rs" where
  "read_open_session_response rsp off =
     (let d = p_data rsp;
          r = put 4 (bytes_at d (off + 4) 4) (put 2 [d ! (off + 2)] (put 1 [d ! (off + 1)] (put 0 [d ! off] (put 0 (replicate 16 0) rsp))))
      in if rakp_return_code r \<noteq> 0 then r
         else put 14 [d ! (off + 32)] (put 13 [d ! (off + 24)] (put 12 [d ! (off + 16)] (put 8 (bytes_at d (off + 8) 4) r))))"

definition read_rakp2_message :: "v2_rs \<Rightarrow> nat \<Rightarrow> u8 \<Rightarrow> fault + v2_rs" where
  "read_rakp2_message rsp off auth_alg =
     (let d = p_data rsp;
          r = put 24 (bytes_at d (off + 24) 16) (put 8 (bytes_at d (off + 8) 16) (put 4 (bytes_at d (off + 4) 4)
                (put 1 [d ! (off + 1)] (put 0 [d ! off] rsp))))
      in if auth_alg = IPMI_AUTH_RAKP_HMAC_SHA1 then Inr (put 40 (bytes_at d (off + 40) 20) r)
         else if auth_alg = IPMI_AUTH_RAKP_HMAC_MD5 then Inl AssertFailed
         else Inr r)"

definition read_rakp4_message :: "v2_rs \<Rightarrow> nat \<Rightarrow> u8 \<Rightarrow> fault + v2_rs" where
  "read_rakp4_message rsp off auth_alg =
     (let d = p_data rsp;
          r = put 4 (bytes_at d (off + 4) 4) (put 1 [d ! (off + 1)] (put 0 [d ! off] rsp))
      in if auth_alg = IPMI_AUTH_RAKP_HMAC_SHA1 then Inr (put 8 (bytes_at d (off + 8) 12) r)
         else if auth_alg = IPMI_AUTH_RAKP_HMAC_MD5 then Inl AssertFailed
         else Inr r)"

definition read_session_data_v2x :: "v2_rs \<Rightarrow> nat \<Rightarrow> v2_session \<Rightarrow> fault + v2_rs \<times> nat" where
  "read_session_data_v2x rsp off s =
     (let d = p_data rsp;
          r = rsp\<lparr>p_authtype := d ! off, p_bEncrypted := (d ! (off + 1) AND 0x80 \<noteq> 0), p_bAuthenticated := (d ! (off + 1) AND 0x40 \<noteq> 0),
                p_payloadtype := d ! (off + 1) AND 0x3F, p_id := of_le32 (bytes_at d (off + 2) 4)\<rparr>
      in if v_session_state s = LANPLUS_STATE_ACTIVE \<and> p_id r \<noteq> v_console_id s then Inl AssertFailed
         else Inr (r\<lparr>p_seq := of_le32 (bytes_at d (off + 6) 4), p_msglen := of_le16 (bytes_at d (off + 10) 2)\<rparr>, off + 12))"

definition read_session_data_v15 :: "v2_rs \<Rightarrow> nat \<Rightarrow> v2_rs \<times> nat" where
  "read_session_data_v15 rsp off =
     (rsp\<lparr>p_payloadtype := IPMI_PAYLOAD_TYPE_IPMI, p_authtype := p_data rsp ! off, p_bEncrypted := False, p_bAuthenticated := False,
        p_msglen := ucast (p_data rsp ! (off + 9))\<rparr>, off + 10)"

definition read_session_data :: "v2_rs \<Rightarrow> nat \<Rightarrow> v2_session \<Rightarrow> fault + v2_rs \<times> nat" where
  "read_session_data rsp off s =
     (if p_data rsp ! off = IPMI_SESSION_AUTHTYPE_RMCP_PLUS then read_session_data_v2x rsp off s
      else Inr (read_session_data_v15 rsp off))"

text \<open>An IPMI response: addresses, function, sequence number and command into the union, and the completion code.\<close>

definition read_ipmi_response :: "v2_rs \<Rightarrow> nat \<Rightarrow> v2_rs \<times> nat" where
  "read_ipmi_response rsp off =
     (let d = p_data rsp
      in ((put 0 [d ! off, drop_bit 2 (d ! (off + 1)), d ! (off + 1) AND 3, d ! (off + 3),
             drop_bit 2 (d ! (off + 4)), d ! (off + 4) AND 3, d ! (off + 5)] rsp)\<lparr>p_ccode := d ! (off + 6)\<rparr>, off + 7))"

definition read_sol_packet :: "v2_rs \<Rightarrow> nat \<Rightarrow> v2_rs \<times> nat" where
  "read_sol_packet rsp off =
     (let d = p_data rsp; b = d ! (off + 3)
      in (put 0 [d ! off AND 0x0F, d ! (off + 1) AND 0x0F, d ! (off + 2), b AND 0x40, b AND 0x20, b AND 0x10, b AND 0x08, b AND 0x04] rsp, off + 4))"

section \<open>The integrity check\<close>

text \<open>A packet too short for a code and the session header makes the lengths negative.\<close>

definition lanplus_has_valid_auth_code :: "openssl \<Rightarrow> v2_rs \<Rightarrow> v2_session \<Rightarrow> fault + bool" where
  "lanplus_has_valid_auth_code ssl rs s =
     (if p_authtype rs \<noteq> IPMI_SESSION_AUTHTYPE_RMCP_PLUS \<or> v_session_state s \<noteq> LANPLUS_STATE_ACTIVE
         \<or> \<not> p_bAuthenticated rs \<or> v_integrity_alg s = IPMI_INTEGRITY_NONE then Inr True
      else if v_integrity_alg s \<noteq> IPMI_INTEGRITY_HMAC_SHA1_96 then Inl AssertFailed
      else if p_data_len rs < 16 then Inl OutOfBounds
      else
        let n = nat (p_data_len rs)
        in case lanplus_HMAC ssl (v_integrity_alg s) (v_k1 s) (bytes_at (p_data rs) 4 (n - 16)) of
             Inl e \<Rightarrow> Inl e
           | Inr mac \<Rightarrow> if length mac \<noteq> 20 then Inl AssertFailed else Inr (bytes_at (p_data rs) (n - 12) 12 = take 12 mac))"

text \<open>
  What \<open>ipmi_lan_poll_recv\<close> does with a packet of class IPMI before it looks at the payload: read the session header, check the
  code, decrypt in place. The results are the response, the offset of the payload and \<open>payload_size\<close>, None if not set.
\<close>

definition open_packet :: "openssl \<Rightarrow> (nat \<Rightarrow> bool) \<Rightarrow> v2_session \<Rightarrow> v2_rs \<Rightarrow> fault + v2_rs \<times> nat \<times> u16 option" where
  "open_packet ssl alloc s rsp =
     (case read_session_data rsp 4 s of
        Inl e \<Rightarrow> Inl e
      | Inr (rsp, off) \<Rightarrow>
          (case lanplus_has_valid_auth_code ssl rsp s of
             Inl e \<Rightarrow> Inl e
           | Inr False \<Rightarrow> Inl AssertFailed
           | Inr True \<Rightarrow>
               if v_session_state s = LANPLUS_STATE_ACTIVE \<and> p_authtype rsp = IPMI_SESSION_AUTHTYPE_RMCP_PLUS \<and> p_bEncrypted rsp then
                 (let n = unat (p_msglen rsp)
                  in if off + n > length (p_data rsp) then Inl OutOfBounds
                     else case lanplus_decrypt_payload ssl alloc (v_crypt_alg s) (v_k2 s) (bytes_at (p_data rsp) off n) of
                            Inl e \<Rightarrow> Inl e
                          | Inr (rc, d, payload_size) \<Rightarrow> Inr (rsp\<lparr>p_data := memcpy_at (p_data rsp) off d\<rparr>, off, payload_size))
               else Inr (rsp, off, Some (p_msglen rsp))))"

section \<open>Building packets\<close>

record sol_packet =
  sol_data :: bytes
  sol_character_count :: u16
  sol_packet_sequence_number :: u8
  sol_acked_packet_number :: u8
  sol_accepted_character_count :: u8
  sol_is_nack :: bool
  sol_assert_ring_wor :: bool
  sol_generate_break :: bool
  sol_deassert_cts :: bool
  sol_deassert_dcd_dsr :: bool
  sol_flush_inbound :: bool
  sol_flush_outbound :: bool

datatype v2_payload_data =
    Ipmi_Request ipmi_rq u8
  | Open_Session_Request bytes
  | Rakp_1_Message bytes
  | Rakp_3_Message bytes
  | Sol_Packet sol_packet

record ipmi_v2_payload =
  pl_length :: u16
  pl_data :: v2_payload_data

fun payload_type :: "v2_payload_data \<Rightarrow> u8" where
  "payload_type (Ipmi_Request _ _) = IPMI_PAYLOAD_TYPE_IPMI"
| "payload_type (Open_Session_Request _) = IPMI_PAYLOAD_TYPE_RMCP_OPEN_REQUEST"
| "payload_type (Rakp_1_Message _) = IPMI_PAYLOAD_TYPE_RAKP_1"
| "payload_type (Rakp_3_Message _) = IPMI_PAYLOAD_TYPE_RAKP_3"
| "payload_type (Sol_Packet _) = IPMI_PAYLOAD_TYPE_SOL"

definition getIpmiPayloadWireRep :: "ipmi_intf \<Rightarrow> bool \<Rightarrow> ipmi_rq \<Rightarrow> u8 \<Rightarrow> u8 \<Rightarrow> bytes" where
  "getIpmiPayloadWireRep intf bridge req rq_seq curr_seq =
     (let inner = ipmb_frame [ucast (i_target_addr intf), netfn_lun req]
                    ([if bridge then ucast (i_my_addr intf) else IPMI_REMOTE_SWID, push_bit 2 rq_seq, rq_cmd req] @ rq_data req)
      in if \<not> bridge then inner
         else ipmb_frame [IPMI_BMC_SLAVE_ADDR, push_bit 2 IPMI_NETFN_APP]
                ([IPMI_REMOTE_SWID, push_bit 2 curr_seq, 0x34, 0x40 OR i_target_channel intf] @ inner))"

definition getSolPayloadWireRep :: "sol_packet \<Rightarrow> bytes" where
  "getSolPayloadWireRep p =
     [sol_packet_sequence_number p, sol_acked_packet_number p, sol_accepted_character_count p,
      (if sol_is_nack p then 0x40 else 0) OR (if sol_assert_ring_wor p then 0x20 else 0) OR (if sol_generate_break p then 0x10 else 0)
        OR (if sol_deassert_cts p then 0x08 else 0) OR (if sol_deassert_dcd_dsr p then 0x04 else 0)
        OR (if sol_flush_inbound p then 0x02 else 0) OR (if sol_flush_outbound p then 0x01 else 0)]
     @ take (unat (sol_character_count p)) (sol_data p)"

text \<open>
  The payload as it is written into the message, and \<open>payload_length\<close> afterwards: a bridged request adds the eight bytes of
  the message around it, a SOL packet its four header bytes.
\<close>

definition wire_payload :: "ipmi_intf \<Rightarrow> bool \<Rightarrow> u8 \<Rightarrow> ipmi_v2_payload \<Rightarrow> bytes \<times> u16" where
  "wire_payload intf bridge_possible curr_seq payload =
     (case pl_data payload of
        Ipmi_Request req rq_seq \<Rightarrow>
          (let bridge = is_bridged intf bridge_possible
           in (getIpmiPayloadWireRep intf bridge req rq_seq curr_seq, pl_length payload + (if bridge then 8 else 0)))
      | Sol_Packet p \<Rightarrow> (getSolPayloadWireRep p, sol_character_count p + 4)
      | Open_Session_Request m \<Rightarrow> (take (unat (pl_length payload)) m, pl_length payload)
      | Rakp_1_Message m \<Rightarrow> (take (unat (pl_length payload)) m, pl_length payload)
      | Rakp_3_Message m \<Rightarrow> (take (unat (pl_length payload)) m, pl_length payload))"

text \<open>Whether the copy of the payload reads behind the block it comes from.\<close>

definition reads_behind :: "ipmi_v2_payload \<Rightarrow> bool" where
  "reads_behind payload =
     (case pl_data payload of
        Ipmi_Request req rq_seq \<Rightarrow> False
      | Sol_Packet p \<Rightarrow> unat (sol_character_count p) > length (sol_data p)
      | Open_Session_Request m \<Rightarrow> unat (pl_length payload) > length m
      | Rakp_1_Message m \<Rightarrow> unat (pl_length payload) > length m
      | Rakp_3_Message m \<Rightarrow> unat (pl_length payload) > length m)"

text \<open>The size that \<open>malloc\<close> is asked for.\<close>

definition v2x_alloc :: "ipmi_v2_payload \<Rightarrow> nat" where
  "v2x_alloc payload = 82 + unat (pl_length payload)"

definition v2x_header :: "v2_session \<Rightarrow> u8 \<Rightarrow> u16 \<Rightarrow> bytes" where
  "v2x_header s ptype len =
     (if v_session_state s = LANPLUS_STATE_ACTIVE
      then [0x06, ptype OR (if v_crypt_alg s \<noteq> IPMI_CRYPT_NONE then 0x80 else 0) OR (if v_integrity_alg s \<noteq> IPMI_INTEGRITY_NONE then 0x40 else 0)]
           @ le32 (v_bmc_id s) @ le32 (s_out_seq s)
      else [0x06, ptype] @ replicate 8 0) @ le16 len"

definition integrity_pad_size :: "ipmi_intf \<Rightarrow> u16 \<Rightarrow> nat" where
  "integrity_pad_size intf len =
     (let n = 12 + unat len + (if ipmi_oem_active intf ''icts'' then 0 else 2)
      in if n mod 4 \<noteq> 0 then 4 - n mod 4 else 0)"

text \<open>The session trailer behind the given bytes: padding, its length, next header, and 12 of the 20 bytes that the HMAC leaves in the message.\<close>

definition v2x_trailer :: "openssl \<Rightarrow> ipmi_intf \<Rightarrow> v2_session \<Rightarrow> u16 \<Rightarrow> bytes \<Rightarrow> fault + bytes" where
  "v2x_trailer ssl intf s len covered =
     (if v_session_state s = LANPLUS_STATE_ACTIVE \<and> v_integrity_alg s \<noteq> IPMI_INTEGRITY_NONE then
        (let p = integrity_pad_size intf len; pad = replicate p 0xFF @ [of_nat p, 0x07]
         in case lanplus_HMAC ssl (v_integrity_alg s) (v_k1 s) (covered @ pad) of
              Inl e \<Rightarrow> Inl e
            | Inr mac \<Rightarrow> if length mac \<noteq> 20 then Inl AssertFailed else Inr (pad @ take 12 mac))
      else Inr [])"

definition next_out_seq :: "v2_session \<Rightarrow> v2_session" where
  "next_out_seq s = (let n = s_out_seq s + 1 in s\<lparr>s_out_seq := (if n = 0 then n + 1 else n)\<rparr>)"

text \<open>
  \<open>ipmi_lanplus_build_v2x_msg\<close>: the message and \<open>payload_length\<close>, or None when \<open>malloc\<close> fails and neither is set, and the session with its next
  sequence number. Writing behind the allocated block is a fault: the payload, its encryption, or the 20 bytes of the HMAC.
\<close>

definition ipmi_lanplus_build_v2x_msg ::
  "openssl \<Rightarrow> (nat \<Rightarrow> bool) \<Rightarrow> rand16 \<Rightarrow> ipmi_intf \<Rightarrow> bool \<Rightarrow> v2_session \<Rightarrow> ipmi_v2_payload \<Rightarrow> u8
    \<Rightarrow> fault + (bytes \<times> u16) option \<times> v2_session" where
  "ipmi_lanplus_build_v2x_msg ssl alloc rnd intf bridge_possible s payload curr_seq =
     (if \<not> alloc (v2x_alloc payload) then Inr (None, s)
      else
        let (wire, len) = wire_payload intf bridge_possible curr_seq payload;
            size = v2x_alloc payload
        in if reads_behind payload then Inl OutOfBounds
           else if 16 + length wire > size then Inl BufferOverflow
           else case (let input = take (unat len) (wire @ replicate (size - 16 - length wire) 0)
                      in if v_session_state s = LANPLUS_STATE_ACTIVE
                         then lanplus_encrypt_payload ssl alloc rnd (v_crypt_alg s) (v_k2 s) input
                         else Inr (0, input, len)) of
                  Inl e \<Rightarrow> Inl e
                | Inr (rc, body, len) \<Rightarrow>
                    if 16 + length body > size then Inl BufferOverflow
                    else
                      let covered = v2x_header s (payload_type (pl_data payload)) len @ take (unat len) body
                      in case v2x_trailer ssl intf s len covered of
                           Inl e \<Rightarrow> Inl e
                         | Inr trailer \<Rightarrow>
                             if trailer \<noteq> [] \<and> 4 + length covered + length trailer + 8 > size then Inl BufferOverflow
                             else Inr (Some (rmcp_ipmi @ covered @ trailer, len), next_out_seq s))"

text \<open>The message of version 1.5 for the one command that is sent before the session.\<close>

definition build_v15_msg :: "v2_session \<Rightarrow> ipmi_rq \<Rightarrow> bytes" where
  "build_v15_msg s req =
     rmcp_ipmi @ [IPMI_SESSION_AUTHTYPE_NONE] @ le32 (s_out_seq s) @ [0, 0, 0, 0, ucast (rq_data_len req) + 7]
     @ ipmb_frame [IPMI_BMC_SLAVE_ADDR, push_bit 2 (ucast (rq_netfn req))] ([IPMI_REMOTE_SWID, 0, rq_cmd req] @ rq_data req)"

section \<open>Layout\<close>

lemma length_put [simp]: "off + length b \<le> length (p_payload rsp) \<Longrightarrow> length (p_payload (put off b rsp)) = length (p_payload rsp)"
  by (simp add: put_def)

lemma put_simps [simp]:
  "p_data (put off b rsp) = p_data rsp" "p_data_len (put off b rsp) = p_data_len rsp" "p_authtype (put off b rsp) = p_authtype rsp"
  "p_payloadtype (put off b rsp) = p_payloadtype rsp" "p_ccode (put off b rsp) = p_ccode rsp"
  by (simp_all add: put_def)

text \<open>\<open>lanplus_swap\<close> reverses what it is given.\<close>

lemma swap_steps:
  assumes "k \<le> len div 2" "len \<le> length buffer"
  shows "length (foldl (swap_step len) buffer [0..<k]) = length buffer
    \<and> (\<forall>j < length buffer. foldl (swap_step len) buffer [0..<k] ! j
         = (if j < len \<and> (j < k \<or> len - 1 - j < k) then buffer ! (len - 1 - j) else buffer ! j))"
  using assms(1)
proof (induction k)
  case (Suc k)
  let ?b = "foldl (swap_step len) buffer [0..<k]"
  have IH: "length ?b = length buffer"
    "\<And>j. j < length buffer \<Longrightarrow> ?b ! j = (if j < len \<and> (j < k \<or> len - 1 - j < k) then buffer ! (len - 1 - j) else buffer ! j)"
    using Suc by auto
  have k: "k < len" "len - 1 - k < len" "k < len - 1 - k \<or> k = len - 1 - k" "len - 1 - (len - 1 - k) = k" using Suc.prems by auto
  have s: "foldl (swap_step len) buffer [0..<Suc k] = swap_step len ?b k" by simp
  have "?b ! k = buffer ! k" "?b ! (len - 1 - k) = buffer ! (len - 1 - k)"
    using IH(2) [of k] IH(2) [of "len - 1 - k"] k assms(2) by (auto split: if_splits)
  with IH k assms(2) show ?case
    unfolding s swap_step_def by (auto simp: nth_list_update)
qed simp

lemma lanplus_swap_rev:
  assumes "len \<le> length buffer"
  shows "lanplus_swap buffer len = rev (take len buffer) @ drop len buffer"
proof (rule nth_equalityI)
  note s = swap_steps [OF order_refl assms, folded lanplus_swap_def]
  show l: "length (lanplus_swap buffer len) = length (rev (take len buffer) @ drop len buffer)" using s assms by simp
  fix j
  assume j: "j < length (lanplus_swap buffer len)"
  have mid: "len - 1 - j = j" if "j < len" "\<not> (j < len div 2 \<or> len - 1 - j < len div 2)" using that by presburger
  have "lanplus_swap buffer len ! j = (if j < len then buffer ! (len - 1 - j) else buffer ! j)"
    using s j mid by (auto split: if_splits)
  also have "\<dots> = (rev (take len buffer) @ drop len buffer) ! j" using assms by (auto simp: nth_append rev_nth)
  finally show "lanplus_swap buffer len ! j = (rev (take len buffer) @ drop len buffer) ! j" .
qed

text \<open>The payload of an IPMI request is the one of the LAN interface.\<close>

lemma wire_rep_is_lan: "getIpmiPayloadWireRep intf bridge req seq seq = build_cmd_payload intf bridge seq req"
  by (simp add: getIpmiPayloadWireRep_def build_cmd_payload_def build_cmd_body_def Let_def)

lemma length_wire_rep: "length (getIpmiPayloadWireRep intf bridge req rq_seq curr_seq) = length (rq_data req) + (if bridge then 15 else 7)"
  by (simp add: getIpmiPayloadWireRep_def Let_def)

text \<open>What the callers hand over: the length announced is the length of the data, and all of it fits 16 bits with header and trailer.\<close>

definition payload_ok :: "ipmi_v2_payload \<Rightarrow> bool" where
  "payload_ok payload =
     (case pl_data payload of
        Ipmi_Request req rq_seq \<Rightarrow> length (rq_data req) \<le> 65000 \<and> pl_length payload = of_nat (length (rq_data req) + 7)
      | Sol_Packet p \<Rightarrow> length (sol_data p) = 1024 \<and> unat (sol_character_count p) \<le> 1024
          \<and> unat (sol_character_count p) \<le> unat (pl_length payload) \<and> unat (pl_length payload) \<le> 65000
      | Open_Session_Request m \<Rightarrow> unat (pl_length payload) \<le> length m \<and> unat (pl_length payload) \<le> 65000
      | Rakp_1_Message m \<Rightarrow> unat (pl_length payload) \<le> length m \<and> unat (pl_length payload) \<le> 65000
      | Rakp_3_Message m \<Rightarrow> unat (pl_length payload) \<le> length m \<and> unat (pl_length payload) \<le> 65000)"

lemma wire_payload_ok:
  assumes "payload_ok payload" "wire_payload intf bp seq payload = (wire, len)"
  shows "unat len = length wire" "length wire \<le> unat (pl_length payload) + 8" "unat (pl_length payload) \<le> 65007" "\<not> reads_behind payload"
proof -
  have "unat len = length wire \<and> length wire \<le> unat (pl_length payload) + 8 \<and> unat (pl_length payload) \<le> 65007 \<and> \<not> reads_behind payload"
  proof (cases "pl_data payload")
    case (Ipmi_Request req rq_seq)
    then have l: "length (rq_data req) \<le> 65000" "pl_length payload = of_nat (length (rq_data req) + 7)" using assms(1) by (auto simp: payload_ok_def)
    then have u: "unat (pl_length payload) = length (rq_data req) + 7" by (simp only: unat_of_nat) simp
    have "unat (pl_length payload + 8) = length (rq_data req) + 15"
      using u l(1) by (subst unat_word_ariths(1)) simp
    with u l(1) Ipmi_Request assms(2) show ?thesis
      by (auto simp: wire_payload_def Let_def length_wire_rep reads_behind_def split: if_splits)
  next
    case (Sol_Packet p)
    have "unat (sol_character_count p + 4) = unat (sol_character_count p) + 4"
      using assms(1) Sol_Packet by (subst unat_word_ariths(1)) (simp add: payload_ok_def)
    with Sol_Packet assms show ?thesis
      by (auto simp: payload_ok_def wire_payload_def getSolPayloadWireRep_def reads_behind_def)
  qed (use assms in \<open>auto simp: payload_ok_def wire_payload_def reads_behind_def\<close>)
  then show "unat len = length wire" "length wire \<le> unat (pl_length payload) + 8" "unat (pl_length payload) \<le> 65007" "\<not> reads_behind payload" by auto
qed

lemma length_v2x_header [simp]: "length (v2x_header s pt len) = 12"
  by (simp add: v2x_header_def)

lemma integrity_pad_le: "integrity_pad_size intf len \<le> 3"
  by (auto simp: integrity_pad_size_def Let_def)

section \<open>Packets that are built\<close>

definition alg_supported :: "u8 \<Rightarrow> bool" where
  "alg_supported alg \<longleftrightarrow> alg = 0 \<or> alg = 1"

lemma crypt_any:
  assumes "openssl_ok ssl" "\<And>n. alloc n" "fst rnd" "length (snd rnd) = 16" "16 \<le> length key" "length input \<le> 65503" "alg_supported alg"
  obtains c d where "lanplus_encrypt_payload ssl alloc rnd alg key input = Inr (0, c, of_nat (length c))" "length c \<le> length input + 32"
    "lanplus_decrypt_payload ssl alloc alg key c = Inr (0, d, Some (of_nat (length input)))" "take (length input) d = input" "length d = length c"
proof (cases "alg = 0")
  case True
  then show ?thesis
    by (intro that [of input input]) (simp_all add: lanplus_encrypt_payload_def lanplus_decrypt_payload_def)
next
  case False
  with assms(7) have "alg = 1" by (simp add: alg_supported_def)
  with encrypt_decrypt [of ssl alloc rnd key input] assms show ?thesis by (metis that)
qed

lemma v2x_trailer_ok:
  assumes "openssl_ok ssl" "alg_supported (v_integrity_alg s)"
  shows "\<exists>trailer. v2x_trailer ssl intf s len covered = Inr trailer \<and> length trailer \<le> 17"
  using assms integrity_pad_le [of intf len]
  by (auto simp: v2x_trailer_def Let_def lanplus_HMAC_def alg_supported_def openssl_hmac_len)

lemma build_v2x_builds:
  assumes "openssl_ok ssl" "\<And>n. alloc n" "fst rnd" "length (snd rnd) = 16" "16 \<le> length (v_k2 s)"
    and "alg_supported (v_crypt_alg s)" "alg_supported (v_integrity_alg s)" "payload_ok payload" "wire_payload intf bp seq payload = (wire, len)"
  obtains body trailer where
    "ipmi_lanplus_build_v2x_msg ssl alloc rnd intf bp s payload seq =
       Inr (Some (rmcp_ipmi @ v2x_header s (payload_type (pl_data payload)) (of_nat (length body)) @ body @ trailer, of_nat (length body)), next_out_seq s)"
    "length body \<le> length wire + 32" "length trailer \<le> 17"
    "v2x_trailer ssl intf s (of_nat (length body)) (v2x_header s (payload_type (pl_data payload)) (of_nat (length body)) @ body) = Inr trailer"
    "v_session_state s \<noteq> LANPLUS_STATE_ACTIVE \<longrightarrow> body = wire"
    "v_session_state s = LANPLUS_STATE_ACTIVE \<longrightarrow> lanplus_encrypt_payload ssl alloc rnd (v_crypt_alg s) (v_k2 s) wire = Inr (0, body, of_nat (length body))"
proof -
  note w = wire_payload_ok [OF assms(8,9)]
  have lw: "length wire \<le> 65015" using w by simp
  obtain body where body: "length body \<le> length wire + 32"
    "v_session_state s \<noteq> LANPLUS_STATE_ACTIVE \<longrightarrow> body = wire"
    "v_session_state s = LANPLUS_STATE_ACTIVE \<longrightarrow> lanplus_encrypt_payload ssl alloc rnd (v_crypt_alg s) (v_k2 s) wire = Inr (0, body, of_nat (length body))"
  proof (cases "v_session_state s = LANPLUS_STATE_ACTIVE")
    case True
    have "length wire \<le> 65503" using lw by simp
    then obtain c d
      where "lanplus_encrypt_payload ssl alloc rnd (v_crypt_alg s) (v_k2 s) wire = Inr (0, c, of_nat (length c))" "length c \<le> length wire + 32"
        "lanplus_decrypt_payload ssl alloc (v_crypt_alg s) (v_k2 s) c = Inr (0, d, Some (of_nat (length wire)))" "take (length wire) d = wire" "length d = length c"
      by (rule crypt_any [OF assms(1-5) _ assms(6)])
    with True show ?thesis by (intro that [of c]) auto
  qed (use that [of wire] in auto)
  let ?len = "of_nat (length body) :: u16"
  let ?hdr = "v2x_header s (payload_type (pl_data payload)) ?len"
  obtain trailer where tr: "v2x_trailer ssl intf s ?len (?hdr @ body) = Inr trailer" "length trailer \<le> 17"
    using v2x_trailer_ok [OF assms(1,7)] by blast
  have ul: "unat ?len = length body" using body(1) lw by (simp add: unat_of_nat)
  have size: "16 + length wire \<le> v2x_alloc payload" "16 + length body \<le> v2x_alloc payload" "length body + 41 \<le> v2x_alloc payload"
    using w(2) body(1) by (simp_all add: v2x_alloc_def)
  have len: "len = of_nat (length wire)" using w(1) by (metis of_nat_unat ucast_id)
  have "ipmi_lanplus_build_v2x_msg ssl alloc rnd intf bp s payload seq =
       Inr (Some (rmcp_ipmi @ ?hdr @ body @ trailer, ?len), next_out_seq s)"
    using assms(2,9) w(1,4) size body(2,3) tr ul len
    by (cases "v_session_state s = LANPLUS_STATE_ACTIVE") (simp_all add: ipmi_lanplus_build_v2x_msg_def Let_def)
  then show ?thesis using that body tr by blast
qed

end
