(* ===== verification/Lanplus.thy ===== *)
theory Lanplus
  imports Lanplus_Packet
begin

text \<open>
  The RMCP+ interface (\<open>src/plugins/lanplus/lanplus.c\<close>): sending a payload with its retries, receiving and telling apart the answers, serial
  over LAN packets.

  The state \<open>lanplus\<close> holds the interface, its session, the request list, the static variables of the file and the environment: OpenSSL,
  which allocations succeed, and scripts of what \<open>select\<close>, \<open>recv\<close>, \<open>send\<close>, \<open>RAND_bytes\<close>, the clock, the name lookup, \<open>socket\<close> and \<open>connect\<close>
  answer. Log output and waiting are left out. The static \<open>rsp\<close> of \<open>ipmi_lan_recv_packet\<close> is the field \<open>n_rsp\<close>; a returned
  pointer to it is a copy of its value. The request list is that of \<open>lan.c\<close>, whose text this file repeats, except for what is
  defined here.
\<close>

section \<open>State\<close>

record lanplus =
  n_intf :: ipmi_intf
  n_session :: "v2_session option"
  n_queue :: reqlist
  n_rsp :: v2_rs
  n_bridge_possible :: bool
  n_curr_seq :: u8
  n_last_received_sequence_number :: u8
  n_last_received_byte_count :: u8
  n_ssl :: openssl
  n_alloc :: "nat \<Rightarrow> bool"
  n_selects :: "(int \<times> bool \<times> bool) list"
  n_recvs :: "bytes option list"
  n_sends :: "bool list"
  n_sent :: "bytes list"
  n_rands :: "rand16 list"
  n_elapsed :: "bool list"
  n_lookups :: "bool list"
  n_sockets :: "int list"
  n_connects :: "bool list"
  n_sol_input :: "bytes list"

definition plus_session :: "(lanplus, v2_session) machine" where
  "plus_session s = (case n_session s of None \<Rightarrow> Inl NullPointer | Some x \<Rightarrow> Inr (x, s))"

definition set_session :: "(v2_session \<Rightarrow> v2_session) \<Rightarrow> (lanplus, unit) machine" where
  "set_session f = mbind plus_session (\<lambda>x. mmod (\<lambda>s. s\<lparr>n_session := Some (f x)\<rparr>))"

definition set_intf :: "(ipmi_intf \<Rightarrow> ipmi_intf) \<Rightarrow> (lanplus, unit) machine" where
  "set_intf f = mmod (\<lambda>s. s\<lparr>n_intf := f (n_intf s)\<rparr>)"

definition plus_queue :: "(reqlist, 'a) machine \<Rightarrow> (lanplus, 'a) machine" where
  "plus_queue m s = (case m (n_queue s) of Inl e \<Rightarrow> Inl e | Inr (a, q) \<Rightarrow> Inr (a, s\<lparr>n_queue := q\<rparr>))"

definition lift_sum :: "fault + 'a \<Rightarrow> ('s, 'a) machine" where
  "lift_sum x = (case x of Inl e \<Rightarrow> mfail e | Inr a \<Rightarrow> mret a)"

definition plus_script :: "(lanplus \<Rightarrow> 'a list) \<Rightarrow> ('a list \<Rightarrow> lanplus \<Rightarrow> lanplus) \<Rightarrow> 'a \<Rightarrow> (lanplus, 'a) machine" where
  "plus_script get upd d s = Inr (script_hd d (get s), upd (tl (get s)) s)"

section \<open>Request list\<close>

definition plus_req_add_entry :: "ipmi_rq \<Rightarrow> u8 \<Rightarrow> (reqlist, nat option) machine" where
  "plus_req_add_entry req req_seq =
     mbind (ipmi_req_add_entry req) (\<lambda>entry.
     case entry of None \<Rightarrow> mret None
     | Some e \<Rightarrow> mbind (store e (\<lambda>c. c\<lparr>e_rq_seq := req_seq\<rparr>)) (\<lambda>_. mret (Some e)))"

text \<open>Other than in \<open>lan.c\<close> the pointers to the list are left as they are.\<close>

definition plus_req_clear_entries :: "(reqlist, unit) machine" where
  "plus_req_clear_entries = mbind (mget (\<lambda>q. (Suc (q_fresh q), ipmi_req_entries q))) (\<lambda>(n, e). clear_from n e)"

section \<open>Datagrams\<close>

definition plus_send_packet :: "bytes \<Rightarrow> (lanplus, bool) machine" where
  "plus_send_packet data =
     mbind (plus_script n_sends (\<lambda>xs s. s\<lparr>n_sends := xs\<rparr>) True) (\<lambda>ok.
     mbind (if ok then mmod (\<lambda>s. s\<lparr>n_sent := n_sent s @ [data]\<rparr>) else mret ()) (\<lambda>_. mret ok))"

definition plus_select :: "(lanplus, int \<times> bool \<times> bool) machine" where
  "plus_select = plus_script n_selects (\<lambda>xs s. s\<lparr>n_selects := xs\<rparr>) (0, False, False)"

definition plus_recv :: "(lanplus, int) machine" where
  "plus_recv =
     mbind (plus_script n_recvs (\<lambda>xs s. s\<lparr>n_recvs := xs\<rparr>) None) (\<lambda>r.
     case r of None \<Rightarrow> mret (-1)
     | Some d \<Rightarrow>
         let d = take IPMI_BUF_SIZE d
         in mbind (mmod (\<lambda>s. s\<lparr>n_rsp := (n_rsp s)\<lparr>p_data := memcpy_at (p_data (n_rsp s)) 0 d\<rparr>\<rparr>)) (\<lambda>_. mret (int (length d))))"

definition plus_recv_finish :: "int \<Rightarrow> (lanplus, v2_rs option) machine" where
  "plus_recv_finish ret =
     (if ret = 0 then mret None
      else if ret \<ge> int IPMI_BUF_SIZE \<or> ret < 0 then mfail BufferOverflow
      else mbind (mmod (\<lambda>s. s\<lparr>n_rsp := (n_rsp s)\<lparr>p_data := (p_data (n_rsp s))[nat ret := 0], p_data_len := ret\<rparr>\<rparr>)) (\<lambda>_.
           mget (\<lambda>s. Some (n_rsp s))))"

definition plus_recv_packet :: "(lanplus, v2_rs option) machine" where
  "plus_recv_packet =
     mbind plus_session (\<lambda>_.
     mbind plus_select (\<lambda>(ret, err, rd).
     if ret < 0 \<or> err \<or> \<not> rd then mret None
     else
       mbind plus_recv (\<lambda>ret.
       if ret < 0 then
         mbind plus_select (\<lambda>(ret, err, rd).
         if ret < 0 then
           (if err \<or> \<not> rd then mret None
            else mbind plus_recv (\<lambda>ret. if ret < 0 then mret None else plus_recv_finish ret))
         else plus_recv_finish ret)
       else plus_recv_finish ret)))"

definition plus_handle_pong :: "v2_rs \<Rightarrow> int" where
  "plus_handle_pong rsp = (if p_data rsp ! 20 AND 0x80 \<noteq> 0 then 1 else 0)"

section \<open>Receiving\<close>

definition keep_rsp :: "v2_rs \<Rightarrow> (lanplus, unit) machine" where
  "keep_rsp rsp = mmod (\<lambda>s. s\<lparr>n_rsp := rsp\<rparr>)"

text \<open>
  The data behind the header of a payload move to the front: \<open>used\<close> bytes of the payload are header and checksum. A length
  that was never set, a negative one, and one that leads out of the array are faults.
\<close>

definition move_data :: "v2_rs \<Rightarrow> nat \<Rightarrow> u16 option \<Rightarrow> int \<Rightarrow> (lanplus, v2_rs option) machine" where
  "move_data rsp off payload_size used =
     (case payload_size of
        None \<Rightarrow> mfail Uninitialised
      | Some n \<Rightarrow>
          let extra = int (unat n) - used
          in if extra = 0 then
               (let r = rsp\<lparr>p_data_len := 0\<rparr> in mbind (keep_rsp r) (\<lambda>_. mret (Some r)))
             else if extra < 0 \<or> int off + extra > int (length (p_data rsp)) then mfail OutOfBounds
             else
               (let r = rsp\<lparr>p_data_len := extra, p_data := memcpy_at (p_data rsp) 0 (bytes_at (p_data rsp) off (nat extra))\<rparr>
                in mbind (keep_rsp r) (\<lambda>_. mret (Some r))))"

text \<open>
  The body of the loop of \<open>ipmi_lan_poll_recv\<close>, with the next turn as its first argument.
\<close>

definition plus_poll_step :: "(v2_rs option \<Rightarrow> (lanplus, v2_rs option) machine) \<Rightarrow> v2_rs \<Rightarrow> (lanplus, v2_rs option) machine" where
  "plus_poll_step again rsp =
     (let cls = p_data rsp ! 3; more = mbind plus_recv_packet again
      in if cls = 0x06 then mret (if plus_handle_pong rsp \<le> 0 then None else Some rsp)
         else if cls \<noteq> 0x07 then more
         else
           mbind plus_session (\<lambda>ses.
           mbind (mget (\<lambda>s. (n_ssl s, n_alloc s))) (\<lambda>(ssl, alloc).
           mbind (lift_sum (open_packet ssl alloc ses rsp)) (\<lambda>(rsp, off, payload_size).
           mbind (keep_rsp rsp) (\<lambda>_.
           let ptype = p_payloadtype rsp; state = v_session_state ses
           in
           if ptype = IPMI_PAYLOAD_TYPE_IPMI then
             (let (rsp, off) = read_ipmi_response rsp off; seq = p_payload rsp ! 4; cmd = p_payload rsp ! 6
              in
              mbind (keep_rsp rsp) (\<lambda>_.
              mbind (plus_queue (ipmi_req_lookup_entry seq cmd)) (\<lambda>entry.
              case entry of
                None \<Rightarrow> more
              | Some e \<Rightarrow>
                  mbind (mget (\<lambda>s. i_target_addr (n_intf s) \<noteq> ucast (our_address (n_intf s)) \<and> n_bridge_possible s)) (\<lambda>bridged.
                  if bridged \<and> cmd = 0x34 \<and> p_data_len rsp = 38 then
                    mbind (plus_queue (store e (\<lambda>c. c\<lparr>e_req := (e_req c)\<lparr>rq_cmd := rq_target_cmd (e_req c)\<rparr>\<rparr>))) (\<lambda>_. more)
                  else
                    mbind (plus_queue (ipmi_req_remove_entry seq cmd)) (\<lambda>_.
                    move_data rsp off payload_size 8)))))
           else if ptype = IPMI_PAYLOAD_TYPE_RMCP_OPEN_RESPONSE then
             (if state \<noteq> LANPLUS_STATE_OPEN_SESSION_SENT then more
              else let r = read_open_session_response rsp off in mbind (keep_rsp r) (\<lambda>_. mret (Some r)))
           else if ptype = IPMI_PAYLOAD_TYPE_RAKP_2 then
             (if state \<noteq> LANPLUS_STATE_RAKP_1_SENT then more
              else mbind (lift_sum (read_rakp2_message rsp off (v_auth_alg ses))) (\<lambda>r. mbind (keep_rsp r) (\<lambda>_. mret (Some r))))
           else if ptype = IPMI_PAYLOAD_TYPE_RAKP_4 then
             (if state \<noteq> LANPLUS_STATE_RAKP_3_SENT then more
              else mbind (lift_sum (read_rakp4_message rsp off (v_auth_alg ses))) (\<lambda>r. mbind (keep_rsp r) (\<lambda>_. mret (Some r))))
           else if ptype = IPMI_PAYLOAD_TYPE_SOL then
             (if state \<noteq> LANPLUS_STATE_ACTIVE then more
              else let (rsp, off) = read_sol_packet rsp off in move_data rsp off payload_size 4)
           else mfail AssertFailed)))))"

primrec plus_poll_loop :: "nat \<Rightarrow> v2_rs option \<Rightarrow> (lanplus, v2_rs option) machine" where
  "plus_poll_loop 0 rsp = (case rsp of None \<Rightarrow> mret None | Some r \<Rightarrow> mfail NoReturn)"
| "plus_poll_loop (Suc n) rsp = (case rsp of None \<Rightarrow> mret None | Some r \<Rightarrow> plus_poll_step (plus_poll_loop n) r)"

text \<open>As in the LAN interface a packet uses up an answer of \<open>select\<close>.\<close>

definition plus_poll_recv :: "(lanplus, v2_rs option) machine" where
  "plus_poll_recv =
     mbind (mget (\<lambda>s. Suc (length (n_selects s)))) (\<lambda>n.
     mbind plus_recv_packet (\<lambda>rsp. plus_poll_loop n rsp))"

definition ipmiv2_lan_ping :: "(lanplus, int) machine" where
  "ipmiv2_lan_ping =
     mbind (mget (\<lambda>s. n_alloc s 12)) (\<lambda>ok.
     if \<not> ok then mret (-1)
     else
       mbind (plus_send_packet rmcp_asf_ping) (\<lambda>ok.
       if \<not> ok then mret (-1)
       else mbind plus_poll_recv (\<lambda>r. mret (if r = None then 0 else 1))))"

section \<open>Sending\<close>

definition plus_build_v2x :: "ipmi_v2_payload \<Rightarrow> u8 \<Rightarrow> (lanplus, (bytes \<times> u16) option) machine" where
  "plus_build_v2x payload curr_seq =
     mbind plus_session (\<lambda>ses.
     mbind (if v_session_state ses = LANPLUS_STATE_ACTIVE \<and> v_crypt_alg ses = IPMI_CRYPT_AES_CBC_128
            then plus_script n_rands (\<lambda>xs s. s\<lparr>n_rands := xs\<rparr>) (True, replicate 16 0) else mret (True, replicate 16 0)) (\<lambda>rnd.
     mbind (mget (\<lambda>s. ipmi_lanplus_build_v2x_msg (n_ssl s) (n_alloc s) rnd (n_intf s) (n_bridge_possible s) ses payload curr_seq)) (\<lambda>res.
     mbind (lift_sum res) (\<lambda>(msg, ses').
     mbind (set_session (\<lambda>_. ses')) (\<lambda>_. mret msg)))))"

definition ipmi_lanplus_build_v2x_ipmi_cmd :: "ipmi_rq \<Rightarrow> (lanplus, nat option) machine" where
  "ipmi_lanplus_build_v2x_ipmi_cmd req =
     mbind (mmod (\<lambda>s. let c = n_curr_seq s + 1 in s\<lparr>n_curr_seq := (if c \<ge> 64 then 0 else c)\<rparr>)) (\<lambda>_.
     mbind (mget n_curr_seq) (\<lambda>seq.
     mbind (plus_queue (plus_req_add_entry req seq)) (\<lambda>entry.
     case entry of None \<Rightarrow> mret None
     | Some e \<Rightarrow>
         mbind (plus_build_v2x \<lparr>pl_length = rq_data_len req + 7, pl_data = Ipmi_Request req seq\<rparr> seq) (\<lambda>msg.
         mbind (case msg of None \<Rightarrow> mret () | Some (m, _) \<Rightarrow> plus_queue (store e (\<lambda>c. c\<lparr>e_msg_data := m\<rparr>))) (\<lambda>_.
         mret (Some e))))))"

definition ipmi_lanplus_build_v15_ipmi_cmd :: "ipmi_rq \<Rightarrow> (lanplus, nat option) machine" where
  "ipmi_lanplus_build_v15_ipmi_cmd req =
     mbind plus_session (\<lambda>ses.
     mbind (plus_queue (plus_req_add_entry req 0)) (\<lambda>entry.
     case entry of None \<Rightarrow> mret None
     | Some e \<Rightarrow>
         mbind (mget (\<lambda>s. n_alloc s (unat (rq_data_len req) + 21))) (\<lambda>ok.
         if \<not> ok then mret None
         else if length (build_v15_msg ses req) > unat (rq_data_len req) + 21 then mfail BufferOverflow
         else mbind (plus_queue (store e (\<lambda>c. c\<lparr>e_rq_seq := 0, e_msg_data := build_v15_msg ses req\<rparr>))) (\<lambda>_. mret (Some e)))))"

text \<open>
  Building and sending in one turn of the loop of \<open>ipmi_lanplus_send_payload\<close>; None is a return of NULL. The length of the payload
  is what the building made of it. For the messages without a request entry the pointer to the message is not set when \<open>malloc\<close> fails.
\<close>

definition send_built :: "ipmi_v2_payload \<Rightarrow> (lanplus, ipmi_v2_payload option) machine" where
  "send_built payload =
     mbind (plus_build_v2x payload 0) (\<lambda>r.
     case r of None \<Rightarrow> mfail Uninitialised
     | Some (m, n) \<Rightarrow>
         mbind (plus_send_packet m) (\<lambda>ok. mret (if ok then Some (payload\<lparr>pl_length := n\<rparr>) else None)))"

definition require_state :: "lanplus_state \<Rightarrow> (lanplus, unit) machine" where
  "require_state st = mbind plus_session (\<lambda>ses. if v_session_state ses = st then mret () else mfail AssertFailed)"

definition transmit :: "ipmi_v2_payload \<Rightarrow> (lanplus, ipmi_v2_payload option) machine" where
  "transmit payload =
     (case pl_data payload of
        Ipmi_Request req rq_seq \<Rightarrow>
          mbind plus_session (\<lambda>ses.
          mbind (if rq_netfn req = 6 \<and> rq_cmd req = 0x38 \<and> v_bmc_id ses = 0 then ipmi_lanplus_build_v15_ipmi_cmd req
                 else ipmi_lanplus_build_v2x_ipmi_cmd req) (\<lambda>entry.
          case entry of None \<Rightarrow> mret None
          | Some e \<Rightarrow>
              mbind (plus_queue (deref e)) (\<lambda>c.
              mbind (plus_send_packet (e_msg_data c)) (\<lambda>ok. mret (if ok then Some payload else None)))))
      | Open_Session_Request m \<Rightarrow> mbind (require_state LANPLUS_STATE_PRESESSION) (\<lambda>_. send_built payload)
      | Rakp_1_Message m \<Rightarrow> mbind (require_state LANPLUS_STATE_OPEN_SESSION_RECEIEVED) (\<lambda>_. send_built payload)
      | Rakp_3_Message m \<Rightarrow> mbind (require_state LANPLUS_STATE_RAKP_2_RECEIVED) (\<lambda>_. send_built payload)
      | Sol_Packet p \<Rightarrow> mbind (require_state LANPLUS_STATE_ACTIVE) (\<lambda>_. send_built payload))"

definition remember_state :: "v2_payload_data \<Rightarrow> (lanplus, unit) machine" where
  "remember_state d =
     (case d of
        Open_Session_Request m \<Rightarrow> set_session (\<lambda>x. x\<lparr>v_session_state := LANPLUS_STATE_OPEN_SESSION_SENT\<rparr>)
      | Rakp_1_Message m \<Rightarrow> set_session (\<lambda>x. x\<lparr>v_session_state := LANPLUS_STATE_RAKP_1_SENT\<rparr>)
      | Rakp_3_Message m \<Rightarrow> set_session (\<lambda>x. x\<lparr>v_session_state := LANPLUS_STATE_RAKP_3_SENT\<rparr>)
      | _ \<Rightarrow> mret ())"

section \<open>Serial over LAN\<close>

definition is_sol_packet :: "v2_rs option \<Rightarrow> bool" where
  "is_sol_packet rsp =
     (case rsp of None \<Rightarrow> False
      | Some r \<Rightarrow> p_authtype r = IPMI_SESSION_AUTHTYPE_RMCP_PLUS \<and> p_payloadtype r = IPMI_PAYLOAD_TYPE_SOL)"

definition sol_response_acks_packet :: "v2_rs option \<Rightarrow> ipmi_v2_payload \<Rightarrow> bool" where
  "sol_response_acks_packet rsp payload \<longleftrightarrow>
     (case (rsp, pl_data payload) of
        (Some r, Sol_Packet p) \<Rightarrow> is_sol_packet rsp \<and> p_payload r ! 1 = sol_packet_sequence_number p
      | _ \<Rightarrow> False)"

text \<open>
  \<open>ipmi_lanplus_send_payload\<close> for a SOL packet without a sequence number, an acknowledgement: its loop sends it once and does not wait
  (\<open>send_payload_ack\<close> below).
\<close>

definition send_ack :: "ipmi_v2_payload \<Rightarrow> (lanplus, unit) machine" where
  "send_ack payload =
     mbind plus_session (\<lambda>ses.
     mbind (if s_retry ses > 0 then transmit payload else mret (Some payload)) (\<lambda>r.
     if r = None then mret () else set_session (\<lambda>x. x\<lparr>s_timeout := 1\<rparr>)))"

definition zero_sol_packet :: sol_packet where
  "zero_sol_packet = \<lparr>sol_data = replicate 1024 0, sol_character_count = 0, sol_packet_sequence_number = 0, sol_acked_packet_number = 0,
     sol_accepted_character_count = 0, sol_is_nack = False, sol_assert_ring_wor = False, sol_generate_break = False, sol_deassert_cts = False,
     sol_deassert_dcd_dsr = False, sol_flush_inbound = False, sol_flush_outbound = False\<rparr>"

definition ack_sol_packet :: "v2_rs option \<Rightarrow> (lanplus, unit) machine" where
  "ack_sol_packet rsp =
     (case rsp of None \<Rightarrow> mret ()
      | Some r \<Rightarrow>
          if is_sol_packet rsp \<and> p_payload r ! 0 \<noteq> 0 then
            send_ack \<lparr>pl_length = 0, pl_data = Sol_Packet (zero_sol_packet\<lparr>sol_acked_packet_number := p_payload r ! 0,
              sol_accepted_character_count := of_int (p_data_len r)\<rparr>)\<rparr>
          else mret ())"

text \<open>The response without what has been seen before; the lengths are kept in bytes.\<close>

definition check_sol_packet_for_new_data :: "v2_rs option \<Rightarrow> (lanplus, v2_rs option) machine" where
  "check_sol_packet_for_new_data rsp =
     (case rsp of None \<Rightarrow> mret None
      | Some r \<Rightarrow>
          if \<not> is_sol_packet rsp then mret rsp
          else
            mbind (mget (\<lambda>s. (n_last_received_sequence_number s, n_last_received_byte_count s))) (\<lambda>(last, count).
            let seq = p_payload r ! 0; len = p_data_len r; fresh = len - int (unat count);
                r' = (if seq = last
                      then r\<lparr>p_data_len := fresh,
                             p_data := (if fresh > 0 then memcpy_at (p_data r) 0 (bytes_at (p_data r) (unat count) (nat fresh)) else p_data r)\<rparr>
                      else r)
            in
            mbind (if seq \<noteq> 0 then mmod (\<lambda>s. s\<lparr>n_last_received_sequence_number := seq, n_last_received_byte_count := of_int len\<rparr>) else mret ()) (\<lambda>_.
            mbind (keep_rsp r') (\<lambda>_. mret (Some r')))))"

definition ipmi_lanplus_recv_sol :: "(lanplus, v2_rs option) machine" where
  "ipmi_lanplus_recv_sol =
     mbind plus_poll_recv (\<lambda>rsp.
     case rsp of None \<Rightarrow> mret None
     | Some r \<Rightarrow>
         if p_authtype r \<noteq> 0 then mbind (ack_sol_packet rsp) (\<lambda>_. check_sol_packet_for_new_data rsp)
         else mret rsp)"

text \<open>\<open>sol_input_handler\<close> is a callback of the caller; the model collects what it is given.\<close>

definition sol_input_handler :: "v2_rs \<Rightarrow> (lanplus, unit) machine" where
  "sol_input_handler r = mmod (\<lambda>s. s\<lparr>n_sol_input := n_sol_input s @ [bytes_at (p_data r) 0 (nat (p_data_len r))]\<rparr>)"

section \<open>Sending with retries\<close>

text \<open>
  The loop of \<open>ipmi_lanplus_send_payload\<close>, with the turns that are left: \<open>Inl\<close> is a return of NULL from inside it, \<open>Inr\<close> the
  response and the payload after it. \<open>send_rest\<close> is a turn after the sending, \<open>send_next\<close> its end, both with the next turn as argument.
\<close>

type_synonym turn = "ipmi_v2_payload \<Rightarrow> bool \<Rightarrow> v2_rs option \<Rightarrow> (lanplus, unit + v2_rs option \<times> ipmi_v2_payload) machine"

definition send_next :: "turn \<Rightarrow> ipmi_v2_payload \<Rightarrow> v2_rs option \<Rightarrow> (lanplus, unit + v2_rs option \<times> ipmi_v2_payload) machine" where
  "send_next again payload rsp =
     mbind (plus_script n_elapsed (\<lambda>xs s. s\<lparr>n_elapsed := xs\<rparr>) True) (\<lambda>xmit.
     mbind (if xmit then set_session (\<lambda>x. x\<lparr>s_timeout := s_timeout x + 1\<rparr>) else mret ()) (\<lambda>_.
     again payload xmit rsp))"

definition send_rest :: "turn \<Rightarrow> ipmi_v2_payload \<Rightarrow> v2_rs option \<Rightarrow> (lanplus, unit + v2_rs option \<times> ipmi_v2_payload) machine" where
  "send_rest again payload rsp =
     (case pl_data payload of
        Sol_Packet p \<Rightarrow>
          if sol_packet_sequence_number p = 0 then mret (Inr (rsp, payload))
          else
            mbind ipmi_lanplus_recv_sol (\<lambda>rsp.
            if sol_response_acks_packet rsp payload then mret (Inr (rsp, payload))
            else
              (case rsp of
                 Some r \<Rightarrow>
                   if is_sol_packet rsp \<and> p_data_len r \<noteq> 0 then
                     mbind (sol_input_handler r) (\<lambda>_.
                     mbind (keep_rsp (r\<lparr>p_data_len := 0\<rparr>)) (\<lambda>_. send_next again payload (Some (r\<lparr>p_data_len := 0\<rparr>))))
                   else send_next again payload rsp
               | None \<Rightarrow> send_next again payload rsp))
      | _ \<Rightarrow>
          mbind plus_poll_recv (\<lambda>rsp.
          if rsp \<noteq> None then mret (Inr (rsp, payload)) else send_next again payload rsp))"

primrec send_turns :: "nat \<Rightarrow> turn" where
  "send_turns 0 payload xmit rsp = mret (Inr (rsp, payload))"
| "send_turns (Suc n) payload xmit rsp =
     mbind (if xmit then transmit payload else mret (Some payload)) (\<lambda>sent.
     case sent of None \<Rightarrow> mret (Inl ())
     | Some payload \<Rightarrow>
         mbind (mget (\<lambda>s. i_noanswer (n_intf s))) (\<lambda>noanswer.
         if noanswer then mret (Inr (rsp, payload))
         else mbind (remember_state (pl_data payload)) (\<lambda>_. send_rest (send_turns n) payload rsp)))"

text \<open>
  \<open>ipmi_lanplus_send_payload\<close> once the interface is open: the response and the payload. Without a single turn the pointer
  that is freed in the end has not been set.
\<close>

definition frees_message :: "v2_payload_data \<Rightarrow> bool" where
  "frees_message d \<longleftrightarrow> (case d of Open_Session_Request m \<Rightarrow> True | Rakp_1_Message m \<Rightarrow> True | Rakp_3_Message m \<Rightarrow> True | _ \<Rightarrow> False)"

definition send_payload_opened :: "ipmi_v2_payload \<Rightarrow> (lanplus, v2_rs option \<times> ipmi_v2_payload) machine" where
  "send_payload_opened payload =
     mbind plus_session (\<lambda>ses.
     mbind (send_turns (nat (s_retry ses)) payload True None) (\<lambda>r.
     case r of
       Inl _ \<Rightarrow> mret (None, payload)
     | Inr (rsp, payload) \<Rightarrow>
         mbind (set_session (\<lambda>x. x\<lparr>s_timeout := 1\<rparr>)) (\<lambda>_.
         if frees_message (pl_data payload) \<and> nat (s_retry ses) = 0 then mfail Uninitialised
         else mret (rsp, payload))))"

definition send_cmd_plus :: "ipmi_rq \<Rightarrow> (lanplus, v2_rs option) machine" where
  "send_cmd_plus req = mbind (send_payload_opened \<lparr>pl_length = 0, pl_data = Ipmi_Request req 0\<rparr>) (\<lambda>(rsp, _). mret rsp)"

end
