(* ===== verification/Lanplus_Session.thy ===== *)
theory Lanplus_Session
  imports Lanplus
begin

text \<open>
  Session set-up and tear-down of the RMCP+ interface, serial over LAN output and the interface functions (\<open>src/plugins/lanplus/lanplus.c\<close>,
  from \<open>is_sol_partial_ack\<close> to the end of the file).

  The commands of the session call \<open>intf->sendrecv\<close> while \<open>intf->opened\<close> is set, which is then \<open>send_cmd_plus\<close>.
\<close>

section \<open>Session commands\<close>

definition plus_app_rq :: "u8 \<Rightarrow> bytes \<Rightarrow> ipmi_rq" where
  "plus_app_rq cmd data = \<lparr>rq_netfn = 6, rq_lun = 0, rq_cmd = cmd, rq_target_cmd = 0, rq_data = data\<rparr>"

definition set_bridge :: "bool \<Rightarrow> (lanplus, unit) machine" where
  "set_bridge b = mmod (\<lambda>s. s\<lparr>n_bridge_possible := b\<rparr>)"

text \<open>
  \<open>ipmi_get_auth_capabilities_cmd\<close>: None for the return value 1, otherwise the data of the answer. On an error \<open>bridgePossible\<close> stays cleared.
\<close>

definition plus_get_auth_capabilities_cmd :: "(lanplus, bytes option) machine" where
  "plus_get_auth_capabilities_cmd =
     mbind (mget n_bridge_possible) (\<lambda>backup.
     mbind (set_bridge False) (\<lambda>_.
     mbind plus_session (\<lambda>ses.
     mbind (send_cmd_plus (plus_app_rq 0x38 [0x8e, s_privlvl ses])) (\<lambda>rsp.
     mbind (case rsp of
              None \<Rightarrow> send_cmd_plus (plus_app_rq 0x38 [0x0e, s_privlvl ses])
            | Some r \<Rightarrow> if p_ccode r > 0 then send_cmd_plus (plus_app_rq 0x38 [0x0e, s_privlvl ses]) else mret rsp) (\<lambda>rsp.
     case rsp of None \<Rightarrow> mret None
     | Some r \<Rightarrow>
         if p_ccode r > 0 then mret None
         else mbind (set_bridge backup) (\<lambda>_. mret (Some (p_data r))))))))"

definition impi_close_session_cmd :: "(lanplus, int) machine" where
  "impi_close_session_cmd =
     mbind plus_session (\<lambda>ses.
     if v_session_state ses \<noteq> LANPLUS_STATE_ACTIVE then mret (-1)
     else
       mbind (mget n_bridge_possible) (\<lambda>backup.
       mbind (set_bridge False) (\<lambda>_.
       mbind (send_cmd_plus (plus_app_rq 0x3c (le32 (v_bmc_id ses)))) (\<lambda>rsp.
       case rsp of None \<Rightarrow> mret (-1)
       | Some r \<Rightarrow>
           if p_ccode r > 0 then mret (-1)
           else mbind (set_bridge backup) (\<lambda>_. mret 0)))))"

text \<open>
  The open session request, 32 bytes. The privilege level is zero for an administrator.
\<close>

definition open_session_msg :: "u8 \<Rightarrow> u32 \<Rightarrow> u8 \<times> u8 \<times> u8 \<Rightarrow> bytes" where
  "open_session_msg role console_id algs =
     (case algs of (a, i, c) \<Rightarrow>
        [0, role, 0, 0] @ le32 console_id @ [0, 0, 0, 8, a, 0, 0, 0] @ [1, 0, 0, 8, i, 0, 0, 0] @ [2, 0, 0, 8, c, 0, 0, 0])"

definition ipmi_lanplus_open_session :: "(lanplus, int) machine" where
  "ipmi_lanplus_open_session =
     mbind (mget (\<lambda>s. n_alloc s 32)) (\<lambda>ok.
     if \<not> ok then mret (-1)
     else
       mbind (mget n_intf) (\<lambda>intf.
       mbind (set_session (\<lambda>x. x\<lparr>v_console_id := 0xA0A2A3A4\<rparr>)) (\<lambda>_.
       mbind plus_session (\<lambda>ses.
       case lanplus_get_requested_ciphers (int (unat (s_cipher_suite_id ses))) of
         None \<Rightarrow> mret (-1)
       | Some (a, i, c) \<Rightarrow>
           mbind (set_session (\<lambda>x. x\<lparr>v_requested_auth_alg := a, v_requested_integrity_alg := i, v_requested_crypt_alg := c\<rparr>)) (\<lambda>_.
           let role = (if ipmi_oem_active intf ''intelplus'' \<or> s_privlvl ses \<noteq> 4 then s_privlvl ses else 0)
           in
           mbind (send_payload_opened \<lparr>pl_length = 32, pl_data = Open_Session_Request (open_session_msg role 0xA0A2A3A4 (a, i, c))\<rparr>) (\<lambda>(rsp, _).
           case rsp of None \<Rightarrow> mfail NullPointer
           | Some r \<Rightarrow>
               if rakp_return_code r \<noteq> 0 then mret (-1)
               else
                 let u = p_payload r
                 in
                 mbind (set_session (\<lambda>x. x\<lparr>v_max_priv_level := u ! 2, v_bmc_id := of_le32 (bytes_at u 8 4), v_auth_alg := u ! 12,
                   v_integrity_alg := u ! 13, v_crypt_alg := u ! 14, v_session_state := LANPLUS_STATE_OPEN_SESSION_RECEIEVED\<rparr>)) (\<lambda>_.
                 mret (if u ! 12 \<noteq> a \<or> u ! 13 \<noteq> i \<or> u ! 14 \<noteq> c then -1 else 0))))))))"

text \<open>The RAKP 1 message: 28 bytes and the user name.\<close>

definition rakp1_msg :: "v2_session \<Rightarrow> bytes \<Rightarrow> bytes" where
  "rakp1_msg ses name =
     [0, 0, 0, 0] @ le32 (v_bmc_id ses) @ v_console_rand ses @ [v_requested_role ses, 0, 0] @ with_length name"

definition ipmi_lanplus_rakp1 :: "(lanplus, int) machine" where
  "ipmi_lanplus_rakp1 =
     mbind (mget (\<lambda>s. n_alloc s 44)) (\<lambda>ok.
     if \<not> ok then mret 1
     else
       mbind (plus_script n_rands (\<lambda>xs s. s\<lparr>n_rands := xs\<rparr>) (True, replicate 16 0)) (\<lambda>rnd.
       mbind (set_session (\<lambda>x. x\<lparr>v_console_rand := snd rnd\<rparr>)) (\<lambda>_.
       if \<not> fst rnd then mret 1
       else
         mbind (set_session (\<lambda>x. x\<lparr>v_requested_role := s_privlvl x OR s_lookupbit x\<rparr>)) (\<lambda>_.
         mbind plus_session (\<lambda>ses.
         mbind (lift_sum (user_name ses)) (\<lambda>name.
         if length name > 16 then mret 1
         else
           mbind (send_payload_opened \<lparr>pl_length = of_nat (length (rakp1_msg ses name)), pl_data = Rakp_1_Message (rakp1_msg ses name)\<rparr>) (\<lambda>(rsp, _).
           case rsp of None \<Rightarrow> mret 1
           | Some r \<Rightarrow>
               mbind (set_session (\<lambda>x. x\<lparr>v_session_state := LANPLUS_STATE_RAKP_2_RECEIVED\<rparr>)) (\<lambda>_.
               if rakp_return_code r \<noteq> 0 then mret 1
               else
                 mbind (set_session (\<lambda>x. x\<lparr>v_bmc_rand := bytes_at (p_payload r) 8 16, v_bmc_guid := bytes_at (p_payload r) 24 16\<rparr>)) (\<lambda>_.
                 mbind plus_session (\<lambda>ses.
                 mbind (mget (\<lambda>s. lanplus_rakp2_hmac_matches (n_ssl s) (n_alloc s) ses (bytes_at (p_payload r) 40 20))) (\<lambda>m.
                 mbind (lift_sum m) (\<lambda>ok.
                 mbind (set_session (\<lambda>x. x\<lparr>v_rakp2_return_code := (if ok then 0 else 0x0F)\<rparr>)) (\<lambda>_.
                 mret 0)))))))))))))"

text \<open>The keys and the code for the RAKP 3 message; None for a return of 1. Nothing is generated after an error in RAKP 2.\<close>

definition rakp3_keys :: "(lanplus, bytes option) machine" where
  "rakp3_keys =
     mbind plus_session (\<lambda>ses.
     mbind (mget (\<lambda>s. (n_ssl s, n_alloc s, n_intf s))) (\<lambda>(ssl, alloc, intf).
     if v_rakp2_return_code ses \<noteq> 0 then mret (Some [])
     else
       mbind (lift_sum (lanplus_generate_rakp3_authcode ssl alloc intf ses)) (\<lambda>code.
       case code of None \<Rightarrow> mret None
       | Some mac \<Rightarrow>
           mbind (lift_sum (lanplus_generate_sik ssl alloc ses)) (\<lambda>(rc, ses).
           mbind (set_session (\<lambda>_. ses)) (\<lambda>_.
           if rc \<noteq> 0 then mret None
           else
             mbind (lift_sum (lanplus_generate_k1 ssl ses)) (\<lambda>ses.
             mbind (lift_sum (lanplus_generate_k2 ssl ses)) (\<lambda>ses.
             mbind (set_session (\<lambda>_. ses)) (\<lambda>_. mret (Some mac)))))))))"

definition rakp3_msg :: "v2_session \<Rightarrow> bytes \<Rightarrow> bytes" where
  "rakp3_msg ses mac = [0, v_rakp2_return_code ses, 0, 0] @ le32 (v_bmc_id ses) @ mac"

text \<open>The RAKP 4 message, which is checked before the session becomes active.\<close>

definition accept_rakp4 :: "v2_rs \<Rightarrow> (lanplus, int) machine" where
  "accept_rakp4 r =
     (if rakp_return_code r \<noteq> 0 then mret 1
      else
        mbind plus_session (\<lambda>ses.
        mbind (mget (\<lambda>s. lanplus_rakp4_hmac_matches (n_ssl s) (n_alloc s) (n_intf s) ses (bytes_at (p_payload r) 8 20))) (\<lambda>m.
        mbind (lift_sum m) (\<lambda>ok.
        if \<not> ok then mret 1
        else
          mbind (set_session (\<lambda>x. x\<lparr>v_session_state := LANPLUS_STATE_ACTIVE\<rparr>)) (\<lambda>_.
          mbind (set_intf (\<lambda>i. i\<lparr>i_abort := False\<rparr>)) (\<lambda>_. mret 0))))))"

definition exchange_rakp3 :: "bytes \<Rightarrow> (lanplus, int) machine" where
  "exchange_rakp3 mac =
     (if length mac > 20 then mfail BufferOverflow
      else
        mbind plus_session (\<lambda>ses.
        mbind (send_payload_opened \<lparr>pl_length = of_nat (8 + length mac), pl_data = Rakp_3_Message (rakp3_msg ses mac)\<rparr>) (\<lambda>(rsp, _).
        if v_rakp2_return_code ses \<noteq> 0 then mret 1
        else (case rsp of None \<Rightarrow> mret 1 | Some r \<Rightarrow> accept_rakp4 r))))"

definition ipmi_lanplus_rakp3 :: "(lanplus, int) machine" where
  "ipmi_lanplus_rakp3 =
     mbind (require_state LANPLUS_STATE_RAKP_2_RECEIVED) (\<lambda>_.
     mbind (mget (\<lambda>s. n_alloc s 28)) (\<lambda>ok.
     if \<not> ok then mret 1
     else mbind rakp3_keys (\<lambda>mac. case mac of None \<Rightarrow> mret 1 | Some mac \<Rightarrow> exchange_rakp3 mac)))"

definition plus_set_session_privlvl_cmd :: "(lanplus, int) machine" where
  "plus_set_session_privlvl_cmd =
     mbind plus_session (\<lambda>ses.
     if s_privlvl ses \<le> 2 then mret 0
     else
       mbind (mget n_bridge_possible) (\<lambda>backup.
       mbind (set_bridge False) (\<lambda>_.
       mbind (send_cmd_plus (plus_app_rq 0x3b [s_privlvl ses])) (\<lambda>rsp.
       case rsp of None \<Rightarrow> mret (-1)
       | Some r \<Rightarrow>
           if p_ccode r > 0 then mret (-1)
           else mbind (set_bridge backup) (\<lambda>_. mret 0)))))"

section \<open>Opening and closing\<close>

definition ipmi_lanplus_close :: "(lanplus, unit) machine" where
  "ipmi_lanplus_close =
     mbind (mget (\<lambda>s. i_abort (n_intf s))) (\<lambda>aborted.
     mbind (if \<not> aborted then impi_close_session_cmd else mret 0) (\<lambda>_.
     mbind (plus_queue plus_req_clear_entries) (\<lambda>_.
     mbind (mmod (\<lambda>s. s\<lparr>n_session := None\<rparr>)) (\<lambda>_.
     set_intf (\<lambda>i. i\<lparr>i_opened := False\<rparr>)))))"

definition plus_defaults :: "v2_session \<Rightarrow> v2_session" where
  "plus_defaults x =
     (let x = (if s_port x = 0 then x\<lparr>s_port := 0x26f\<rparr> else x);
          x = (if s_privlvl x = 0 then x\<lparr>s_privlvl := 4\<rparr> else x);
          x = (if s_timeout x = 0 then x\<lparr>s_timeout := 1\<rparr> else x)
      in if s_retry x = 0 then x\<lparr>s_retry := 4\<rparr> else x)"

definition open_state :: "v2_session \<Rightarrow> v2_session" where
  "open_state x = x\<lparr>v_session_state := LANPLUS_STATE_PRESESSION, v_auth_alg := IPMI_AUTH_RAKP_NONE, v_crypt_alg := IPMI_CRYPT_NONE,
     v_console_id := 0, v_bmc_id := 0, s_sol_sequence_number := 1, v_sik := replicate 20 0\<rparr>"

definition open_fail :: "(lanplus, int) machine" where
  "open_fail = mbind (set_intf (\<lambda>i. i\<lparr>i_opened := False\<rparr>)) (\<lambda>_. mret (-1))"

text \<open>
  From the first command to the end of \<open>ipmi_lanplus_open\<close>. The second \<open>if\<close> around the authentication capabilities has an empty body, so
  that opening fails once the first request has failed, whatever the second one brings. \<open>v20_data_available\<close> is bit 7 of byte 1 of the answer.
\<close>

definition open_negotiate :: "(lanplus, int) machine" where
  "open_negotiate =
     mbind plus_get_auth_capabilities_cmd (\<lambda>cap.
     case cap of
       None \<Rightarrow> mbind plus_get_auth_capabilities_cmd (\<lambda>_. open_fail)
     | Some d \<Rightarrow>
         if d ! 1 AND 0x80 = 0 then open_fail
         else
           mbind ipmi_lanplus_open_session (\<lambda>rc.
           if rc \<noteq> 0 then mbind ipmi_lanplus_close (\<lambda>_. open_fail)
           else
             mbind ipmi_lanplus_rakp1 (\<lambda>rc.
             if rc \<noteq> 0 then mbind ipmi_lanplus_close (\<lambda>_. open_fail)
             else
               mbind ipmi_lanplus_rakp3 (\<lambda>rc.
               if rc \<noteq> 0 then mbind ipmi_lanplus_close (\<lambda>_. open_fail)
               else
                 mbind (set_bridge True) (\<lambda>_.
                 mbind plus_set_session_privlvl_cmd (\<lambda>rc.
                 if rc < 0 then open_fail
                 else mget (\<lambda>s. i_fd (n_intf s))))))))"

definition ipmi_lanplus_open :: "(lanplus, int) machine" where
  "ipmi_lanplus_open =
     mbind (mget n_session) (\<lambda>so.
     if so = None then mret (-1)
     else
       mbind (set_session plus_defaults) (\<lambda>_.
       mbind plus_session (\<lambda>ses.
       if 0 \<notin> set (s_hostname ses) then mfail OutOfBounds
       else if cstring (s_hostname ses) = [] then mret (-1)
       else
         mbind (set_intf (\<lambda>i. i\<lparr>i_abort := True\<rparr>)) (\<lambda>_.
         mbind (set_session open_state) (\<lambda>_.
         mbind (plus_script n_lookups (\<lambda>xs s. s\<lparr>n_lookups := xs\<rparr>) True) (\<lambda>found.
         if \<not> found then mret (-1)
         else
           mbind (plus_script n_sockets (\<lambda>xs s. s\<lparr>n_sockets := xs\<rparr>) 3) (\<lambda>fd.
           mbind (set_intf (\<lambda>i. i\<lparr>i_fd := fd\<rparr>)) (\<lambda>_.
           if fd < 0 then mret (-1)
           else
             mbind (plus_script n_connects (\<lambda>xs s. s\<lparr>n_connects := xs\<rparr>) True) (\<lambda>connected.
             if \<not> connected then mbind ipmi_lanplus_close (\<lambda>_. mret (-1))
             else
               mbind (set_intf (\<lambda>i. i\<lparr>i_opened := True\<rparr>)) (\<lambda>_.
               open_negotiate))))))))))"

section \<open>The interface\<close>

definition plus_opened :: "(lanplus, bool) machine" where
  "plus_opened =
     mbind (mget (\<lambda>s. i_opened (n_intf s))) (\<lambda>opened.
     if opened then mret True else mbind ipmi_lanplus_open (\<lambda>rc. mret (\<not> rc < 0)))"

definition ipmi_lanplus_send_payload :: "ipmi_v2_payload \<Rightarrow> (lanplus, v2_rs option \<times> ipmi_v2_payload) machine" where
  "ipmi_lanplus_send_payload payload =
     mbind plus_opened (\<lambda>ok. if ok then send_payload_opened payload else mret (None, payload))"

definition ipmi_lanplus_send_ipmi_cmd :: "ipmi_rq \<Rightarrow> (lanplus, v2_rs option) machine" where
  "ipmi_lanplus_send_ipmi_cmd req =
     mbind (ipmi_lanplus_send_payload \<lparr>pl_length = 0, pl_data = Ipmi_Request req 0\<rparr>) (\<lambda>(rsp, _). mret rsp)"

text \<open>
  The loop of \<open>ipmi_lanplus_keepalive\<close> over SOL packets that arrive instead of the answer: None is a return of 0 from inside it. Each turn
  receives a packet.
\<close>

primrec keepalive_loop :: "nat \<Rightarrow> v2_rs option \<Rightarrow> (lanplus, v2_rs option option) machine" where
  "keepalive_loop 0 rsp = (if is_sol_packet rsp then mfail NoReturn else mret (Some rsp))"
| "keepalive_loop (Suc n) rsp =
     (if is_sol_packet rsp then
        mbind (ack_sol_packet rsp) (\<lambda>_.
        mbind (check_sol_packet_for_new_data rsp) (\<lambda>rsp.
        mbind (case rsp of Some r \<Rightarrow> if p_data_len r \<noteq> 0 then sol_input_handler r else mret () | None \<Rightarrow> mret ()) (\<lambda>_.
        mbind plus_poll_recv (\<lambda>rsp.
        if rsp = None then mret None else keepalive_loop n rsp))))
      else mret (Some rsp))"

definition ipmi_lanplus_keepalive :: "(lanplus, int) machine" where
  "ipmi_lanplus_keepalive =
     mbind (mget (\<lambda>s. i_opened (n_intf s))) (\<lambda>opened.
     if \<not> opened then mret 0
     else
       mbind (ipmi_lanplus_send_ipmi_cmd (plus_app_rq 1 [])) (\<lambda>rsp.
       mbind (mget (\<lambda>s. Suc (length (n_selects s)))) (\<lambda>n.
       mbind (keepalive_loop n rsp) (\<lambda>r.
       case r of None \<Rightarrow> mret 0
       | Some None \<Rightarrow> mret (-1)
       | Some (Some r) \<Rightarrow> mret (if p_ccode r > 0 then -1 else 0)))))"

definition ipmi_lanplus_setup :: "bool \<Rightarrow> (lanplus, int) machine" where
  "ipmi_lanplus_setup seeded =
     (if \<not> seeded then mret (-1)
      else
        mbind (plus_queue q_malloc) (\<lambda>ok.
        if \<not> ok then mbind (mmod (\<lambda>s. s\<lparr>n_session := None\<rparr>)) (\<lambda>_. mret (-1))
        else mbind (mmod (\<lambda>s. s\<lparr>n_session := Some zero_v2_session\<rparr>)) (\<lambda>_. mret 0)))"

section \<open>Serial over LAN output\<close>

text \<open>The fields of a SOL response: accepted character count, \<open>is_nack\<close> and \<open>transfer_unavailable\<close> at offsets 2, 3 and 4 of the union.\<close>

definition is_sol_partial_ack :: "ipmi_intf \<Rightarrow> ipmi_v2_payload \<Rightarrow> v2_rs option \<Rightarrow> nat" where
  "is_sol_partial_ack intf payload rs =
     (case (rs, pl_data payload) of
        (Some r, Sol_Packet p) \<Rightarrow>
          if sol_response_acks_packet rs payload \<and> unat (p_payload r ! 2) < unat (sol_character_count p) then
            (if ipmi_oem_active intf ''intelplus'' \<and> p_payload r ! 2 = 0 then 0
             else unat (sol_character_count p) - unat (p_payload r ! 2))
          else 0
      | _ \<Rightarrow> 0)"

definition set_sol_packet_sequence_number :: "sol_packet \<Rightarrow> (lanplus, sol_packet) machine" where
  "set_sol_packet_sequence_number p =
     mbind (set_session (\<lambda>x. if s_sol_sequence_number x > 0x0F then x\<lparr>s_sol_sequence_number := 1\<rparr> else x)) (\<lambda>_.
     mbind plus_session (\<lambda>ses.
     mbind (set_session (\<lambda>x. x\<lparr>s_sol_sequence_number := s_sol_sequence_number x + 1\<rparr>)) (\<lambda>_.
     mret (p\<lparr>sol_packet_sequence_number := s_sol_sequence_number ses\<rparr>))))"

text \<open>
  The loop of \<open>ipmi_lanplus_send_sol\<close>: as long as a response acknowledges only a part, the rest is sent. A BMC that accepts nothing is sent
  the same characters again and again; every turn that is followed by another one has received a packet, so that one more than the answers left of
  \<open>select\<close> is enough fuel.
\<close>

definition sol_send_once :: "sol_packet \<Rightarrow> (lanplus, v2_rs option \<times> nat) machine" where
  "sol_send_once p =
     mbind (ipmi_lanplus_send_payload \<lparr>pl_length = sol_character_count p, pl_data = Sol_Packet p\<rparr>) (\<lambda>(rs, payload).
     mget (\<lambda>s. (rs, is_sol_partial_ack (n_intf s) payload rs)))"

primrec sol_resend :: "nat \<Rightarrow> sol_packet \<Rightarrow> v2_rs option \<times> nat \<Rightarrow> (lanplus, v2_rs option) machine" where
  "sol_resend 0 p x = (if snd x = 0 then mret (fst x) else mfail NoReturn)"
| "sol_resend (Suc n) p x =
     (case x of
        (Some r, k) \<Rightarrow>
          if p_payload r ! 4 = 0 \<and> p_payload r ! 3 = 0 \<and> k \<noteq> 0 then
            mbind (if p_data_len r \<noteq> 0 then sol_input_handler r else mret ()) (\<lambda>_.
            mbind (set_sol_packet_sequence_number p) (\<lambda>p.
            let p = p\<lparr>sol_data := memcpy_at (sol_data p) 0 (bytes_at (sol_data p) (unat (p_payload r ! 2)) k), sol_character_count := of_nat k\<rparr>
            in mbind (sol_send_once p) (\<lambda>y. sol_resend n p y)))
          else mret (Some r)
      | (None, k) \<Rightarrow> mret None)"

definition ipmi_lanplus_send_sol :: "sol_packet \<Rightarrow> (lanplus, v2_rs option) machine" where
  "ipmi_lanplus_send_sol p =
     mbind (set_sol_packet_sequence_number (p\<lparr>sol_acked_packet_number := 0\<rparr>)) (\<lambda>p.
     let p = p\<lparr>sol_accepted_character_count := 0\<rparr>
     in
     mbind (mget (\<lambda>s. Suc (length (n_selects s)))) (\<lambda>n.
     mbind (sol_send_once p) (\<lambda>x. sol_resend n p x)))"

end
