(* ===== verification/Lanplus_Frame.thy ===== *)
theory Lanplus_Frame
  imports Lanplus_Session
begin

text \<open>
  What sending and receiving leave alone: OpenSSL, the interface, and of the session everything but the outbound sequence number, the state and the
  timeout; and that a response that is returned is the one in the static variable.
\<close>

section \<open>Frames\<close>

definition core :: "v2_session \<Rightarrow> v2_session" where
  "core x = x\<lparr>s_out_seq := 0, v_session_state := LANPLUS_STATE_PRESESSION, s_timeout := 0\<rparr>"

definition plus_same :: "lanplus \<Rightarrow> lanplus \<Rightarrow> bool" where
  "plus_same s t \<longleftrightarrow> map_option core (n_session t) = map_option core (n_session s) \<and> n_ssl t = n_ssl s \<and> n_alloc t = n_alloc s \<and> n_intf t = n_intf s"

lemma plus_same_refl [simp]: "plus_same s s"
  by (simp add: plus_same_def)

lemma plus_same_trans: "plus_same s t \<Longrightarrow> plus_same t u \<Longrightarrow> plus_same s u"
  by (simp add: plus_same_def)

definition mframe :: "(lanplus, 'a) machine \<Rightarrow> bool" where
  "mframe m \<longleftrightarrow> (\<forall>s a t. m s = Inr (a, t) \<longrightarrow> plus_same s t)"

named_theorems frame_intros \<open>rules for \<open>mframe\<close>\<close>

lemma mframeD: "mframe m \<Longrightarrow> m s = Inr (a, t) \<Longrightarrow> plus_same s t"
  by (auto simp: mframe_def)

lemma mframe_mret [frame_intros]: "mframe (mret a)" by (simp add: mframe_def mret_def)
lemma mframe_mget [frame_intros]: "mframe (mget g)" by (simp add: mframe_def mget_def)
lemma mframe_mfail [frame_intros]: "mframe (mfail e)" by (simp add: mframe_def mfail_def)
lemma mframe_mmod [frame_intros]: "(\<And>s. plus_same s (g s)) \<Longrightarrow> mframe (mmod g)" by (auto simp: mframe_def mmod_def)

lemma mframe_mbind [frame_intros]: "mframe m \<Longrightarrow> (\<And>a. mframe (f a)) \<Longrightarrow> mframe (mbind m f)"
  unfolding mframe_def by (auto elim!: mbind_InrE) (meson plus_same_trans)

lemma mframe_if [frame_intros]: "(b \<Longrightarrow> mframe m) \<Longrightarrow> (\<not> b \<Longrightarrow> mframe n) \<Longrightarrow> mframe (if b then m else n)"
  by simp

lemma mframe_option [frame_intros]: "mframe m \<Longrightarrow> (\<And>x. mframe (f x)) \<Longrightarrow> mframe (case z of None \<Rightarrow> m | Some x \<Rightarrow> f x)"
  by (cases z) auto

lemma mframe_prod [frame_intros]: "(\<And>a b. mframe (f a b)) \<Longrightarrow> mframe (case z of (a, b) \<Rightarrow> f a b)"
  by (cases z) auto

lemma mframe_let [frame_intros]: "(\<And>x. mframe (f x)) \<Longrightarrow> mframe (Let a f)"
  by (simp add: Let_def)

lemma mframe_lift [frame_intros]: "mframe (lift_sum x)"
  by (cases x) (simp_all add: lift_sum_def frame_intros)

lemma mframe_session [frame_intros]: "mframe plus_session"
  by (auto simp: mframe_def plus_session_def split: option.splits)

lemma mframe_set [frame_intros]: "(\<And>x. core (f x) = core x) \<Longrightarrow> mframe (set_session f)"
  by (auto simp: mframe_def set_session_def plus_session_def mbind_def mmod_def plus_same_def split: option.splits)

lemma mframe_queue [frame_intros]: "mframe (plus_queue m)"
  by (auto simp: mframe_def plus_queue_def plus_same_def split: sum.splits)

lemma mframe_script [frame_intros]: "(\<And>xs s. plus_same s (upd xs s)) \<Longrightarrow> mframe (plus_script g upd d)"
  by (auto simp: mframe_def plus_script_def)

lemmas plus_same_simps [simp] = plus_same_def core_def

lemma mframe_select [frame_intros]: "mframe plus_select"
  unfolding plus_select_def by (intro frame_intros) simp

lemma mframe_recv [frame_intros]: "mframe plus_recv"
  unfolding plus_recv_def by (intro frame_intros) simp_all

lemma mframe_recv_finish [frame_intros]: "mframe (plus_recv_finish ret)"
  unfolding plus_recv_finish_def by (intro frame_intros) simp

lemma mframe_recv_packet [frame_intros]: "mframe plus_recv_packet"
  unfolding plus_recv_packet_def by (intro frame_intros)

lemma mframe_send_packet [frame_intros]: "mframe (plus_send_packet d)"
  unfolding plus_send_packet_def by (intro frame_intros) simp_all

lemma mframe_keep_rsp [frame_intros]: "mframe (keep_rsp r)"
  unfolding keep_rsp_def by (intro frame_intros) simp

lemma mframe_move_data [frame_intros]: "mframe (move_data rsp off n used)"
  unfolding move_data_def by (intro frame_intros)

lemma mframe_poll_step:
  assumes again: "\<And>r. mframe (again r)"
  shows "mframe (plus_poll_step again rsp)"
  unfolding plus_poll_step_def Let_def by (intro frame_intros again)

lemma mframe_poll_loop [frame_intros]: "mframe (plus_poll_loop n rsp)"
  by (induction n arbitrary: rsp) (auto intro!: frame_intros mframe_poll_step)

lemma mframe_poll_recv [frame_intros]: "mframe plus_poll_recv"
  unfolding plus_poll_recv_def by (intro frame_intros)

text \<open>Building a message changes the sequence number.\<close>

lemma build_v2x_session:
  "ipmi_lanplus_build_v2x_msg ssl alloc rnd intf bp s payload seq = Inr (r, t) \<Longrightarrow> t = s \<or> t = next_out_seq s"
  by (auto simp: ipmi_lanplus_build_v2x_msg_def Let_def split: if_splits sum.splits prod.splits)

lemma mframe_build [frame_intros]: "mframe (plus_build_v2x payload seq)"
proof -
  have "core (next_out_seq x) = core x" for x by (simp add: next_out_seq_def Let_def)
  then show ?thesis
    unfolding mframe_def plus_build_v2x_def
    by (fastforce simp: mbind_Inr_iff mret_def mget_def plus_script_def plus_session_def set_session_def lift_sum_def mmod_def mfail_def
        dest!: build_v2x_session split: if_splits option.splits sum.splits)
qed

lemma mframe_build_v2x_cmd [frame_intros]: "mframe (ipmi_lanplus_build_v2x_ipmi_cmd req)"
  unfolding ipmi_lanplus_build_v2x_ipmi_cmd_def by (intro frame_intros) (simp add: Let_def)

lemma mframe_build_v15_cmd [frame_intros]: "mframe (ipmi_lanplus_build_v15_ipmi_cmd req)"
  unfolding ipmi_lanplus_build_v15_ipmi_cmd_def by (intro frame_intros)

lemma mframe_require [frame_intros]: "mframe (require_state st)"
  unfolding require_state_def by (intro frame_intros)

lemma mframe_send_built [frame_intros]: "mframe (send_built payload)"
  unfolding send_built_def by (intro frame_intros)

lemma mframe_transmit [frame_intros]: "mframe (transmit payload)"
  unfolding transmit_def by (cases "pl_data payload") (simp_all, (intro frame_intros)+)

lemma mframe_remember [frame_intros]: "mframe (remember_state d)"
  unfolding remember_state_def by (cases d) (simp_all, (intro frame_intros; simp)+)

lemma mframe_send_ack [frame_intros]: "mframe (send_ack p)"
  unfolding send_ack_def by (intro frame_intros) simp

lemma mframe_ack [frame_intros]: "mframe (ack_sol_packet rsp)"
  unfolding ack_sol_packet_def by (intro frame_intros)

lemma mframe_check_sol [frame_intros]: "mframe (check_sol_packet_for_new_data rsp)"
  unfolding check_sol_packet_for_new_data_def by (intro frame_intros) simp_all

lemma mframe_recv_sol [frame_intros]: "mframe ipmi_lanplus_recv_sol"
  unfolding ipmi_lanplus_recv_sol_def by (intro frame_intros)

lemma mframe_input [frame_intros]: "mframe (sol_input_handler r)"
  unfolding sol_input_handler_def by (intro frame_intros) simp

lemma mframe_next [frame_intros]: "(\<And>p x r. mframe (again p x r)) \<Longrightarrow> mframe (send_next again payload rsp)"
  unfolding send_next_def by (intro frame_intros) simp_all

lemma mframe_rest [frame_intros]: "(\<And>p x r. mframe (again p x r)) \<Longrightarrow> mframe (send_rest again payload rsp)"
  unfolding send_rest_def by (cases "pl_data payload") (auto intro!: frame_intros)

lemma mframe_turns [frame_intros]: "mframe (send_turns n payload xmit rsp)"
  by (induction n arbitrary: payload xmit rsp) (auto intro!: frame_intros)

lemma mframe_send_payload [frame_intros]: "mframe (send_payload_opened payload)"
  unfolding send_payload_opened_def by (intro frame_intros) (auto intro!: frame_intros split: sum.splits)

lemma mframe_send_cmd [frame_intros]: "mframe (send_cmd_plus req)"
  unfolding send_cmd_plus_def by (intro frame_intros)

section \<open>The response that is returned\<close>

text \<open>Started with \<open>P\<close>, the operation returns only what is then in the static variable.\<close>

definition returns_rsp :: "(lanplus \<Rightarrow> bool) \<Rightarrow> (lanplus, v2_rs option) machine \<Rightarrow> bool" where
  "returns_rsp P m \<longleftrightarrow> (\<forall>s r t. P s \<longrightarrow> m s = Inr (Some r, t) \<longrightarrow> n_rsp t = r)"

named_theorems rsp_intros \<open>rules for \<open>returns_rsp\<close>\<close>

lemma returns_rspD: "returns_rsp P m \<Longrightarrow> P s \<Longrightarrow> m s = Inr (Some r, t) \<Longrightarrow> n_rsp t = r"
  by (auto simp: returns_rsp_def)

lemma returns_bind [rsp_intros]: "(\<And>a. returns_rsp (\<lambda>_. True) (f a)) \<Longrightarrow> returns_rsp P (mbind m f)"
  unfolding returns_rsp_def by (auto elim!: mbind_InrE)

lemma returns_none [rsp_intros]: "returns_rsp P (mret None)" by (simp add: returns_rsp_def mret_def)
lemma returns_fail [rsp_intros]: "returns_rsp P (mfail e)" by (simp add: returns_rsp_def mfail_def)
lemma returns_get [rsp_intros]: "returns_rsp P (mget (\<lambda>s. Some (n_rsp s)))" by (simp add: returns_rsp_def mget_def)

lemma returns_if [rsp_intros]: "(b \<Longrightarrow> returns_rsp P m) \<Longrightarrow> (\<not> b \<Longrightarrow> returns_rsp P n) \<Longrightarrow> returns_rsp P (if b then m else n)"
  by simp

lemma returns_prod [rsp_intros]: "(\<And>a b. returns_rsp P (f a b)) \<Longrightarrow> returns_rsp P (case z of (a, b) \<Rightarrow> f a b)"
  by (cases z) auto

lemma returns_option [rsp_intros]: "returns_rsp P m \<Longrightarrow> (\<And>x. returns_rsp P (f x)) \<Longrightarrow> returns_rsp P (case z of None \<Rightarrow> m | Some x \<Rightarrow> f x)"
  by (cases z) auto

lemma returns_kept [rsp_intros]: "returns_rsp P (mbind (keep_rsp r) (\<lambda>_. mret (Some r)))"
  by (auto simp: returns_rsp_def keep_rsp_def mbind_def mmod_def mret_def)

lemma returns_finish [rsp_intros]: "returns_rsp P (plus_recv_finish ret)"
  unfolding plus_recv_finish_def by (intro rsp_intros)

lemma returns_recv_packet: "returns_rsp P plus_recv_packet"
  unfolding plus_recv_packet_def by (intro rsp_intros)

definition rsp_is :: "v2_rs option \<Rightarrow> lanplus \<Rightarrow> bool" where
  "rsp_is x s \<longleftrightarrow> (\<forall>r. x = Some r \<longrightarrow> n_rsp s = r)"

lemma returns_more:
  assumes "\<And>x. returns_rsp (rsp_is x) (again x)"
  shows "returns_rsp P (mbind plus_recv_packet again)"
  unfolding returns_rsp_def
proof (intro allI impI)
  fix s r t
  assume "mbind plus_recv_packet again s = Inr (Some r, t)"
  then obtain x u where x: "plus_recv_packet s = Inr (x, u)" "again x u = Inr (Some r, t)" by blast
  then have "rsp_is x u" using returns_rspD [OF returns_recv_packet, of "\<lambda>_. True" s] by (auto simp: rsp_is_def)
  with x(2) assms show "n_rsp t = r" by (auto dest: returns_rspD)
qed

lemma returns_move [rsp_intros]: "returns_rsp P (move_data rsp off n used)"
  unfolding move_data_def Let_def by (intro rsp_intros)

lemma returns_poll_step:
  assumes "\<And>x. returns_rsp (rsp_is x) (again x)"
  shows "returns_rsp (rsp_is (Some r)) (plus_poll_step again r)"
proof -
  have pong: "returns_rsp (rsp_is (Some r)) (mret (if plus_handle_pong r \<le> 0 then None else Some r))"
    by (auto simp: returns_rsp_def rsp_is_def mret_def)
  show ?thesis
    unfolding plus_poll_step_def Let_def by (intro returns_if pong returns_more [OF assms] rsp_intros)
qed

lemma returns_poll_loop: "returns_rsp (rsp_is x) (plus_poll_loop n x)"
proof (induction n arbitrary: x)
  case 0
  show ?case by (auto intro!: rsp_intros)
next
  case (Suc n)
  show ?case by (cases x) (auto intro!: rsp_intros returns_poll_step Suc.IH)
qed

lemma poll_recv_rsp:
  assumes "plus_poll_recv s = Inr (Some r, t)"
  shows "n_rsp t = r"
proof -
  have "mbind plus_recv_packet (plus_poll_loop (Suc (length (n_selects s)))) s = Inr (Some r, t)"
    using assms by (simp add: plus_poll_recv_def mbind_def mget_def)
  then show ?thesis by (rule returns_rspD [OF returns_more [OF returns_poll_loop, of "\<lambda>_. True"] TrueI])
qed

lemma set_session_rsp: "set_session f s = Inr (u, t) \<Longrightarrow> n_rsp t = n_rsp s"
  by (auto simp: set_session_def plus_session_def mbind_def mmod_def split: option.splits)

lemma transmit_data: "transmit payload s = Inr (Some p, t) \<Longrightarrow> pl_data p = pl_data payload"
  by (cases "pl_data payload")
     (auto simp: transmit_def send_built_def mbind_Inr_iff mret_def mfail_def split: option.splits if_splits)

lemma send_rest_plain:
  "(\<And>p. pl_data q \<noteq> Sol_Packet p) \<Longrightarrow>
     send_rest again q x = mbind plus_poll_recv (\<lambda>rsp. if rsp \<noteq> None then mret (Inr (rsp, q)) else send_next again q rsp)"
  by (cases "pl_data q") (simp_all add: send_rest_def, blast)

lemma send_turns_rsp:
  assumes "\<And>p. pl_data payload \<noteq> Sol_Packet p"
  shows "send_turns n payload xmit None s = Inr (Inr (Some r, p'), t) \<Longrightarrow> n_rsp t = r"
  using assms
proof (induction n arbitrary: payload xmit s)
  case 0
  then show ?case by (simp add: mret_def)
next
  case (Suc n)
  from Suc.prems(1) obtain sent u where u: "(if xmit then transmit payload else mret (Some payload)) s = Inr (sent, u)"
    and rest: "(case sent of None \<Rightarrow> mret (Inl ()) | Some payload \<Rightarrow>
         mbind (mget (\<lambda>s. i_noanswer (n_intf s))) (\<lambda>noanswer.
         if noanswer then mret (Inr (None, payload))
         else mbind (remember_state (pl_data payload)) (\<lambda>_. send_rest (send_turns n) payload None))) u = Inr (Inr (Some r, p'), t)"
    by auto
  from rest obtain q where q: "sent = Some q" by (cases sent) (auto simp: mret_def)
  have d: "pl_data q = pl_data payload" using u q transmit_data [of payload s q u] by (auto simp: mret_def split: if_splits)
  from rest q obtain v where "send_rest (send_turns n) q None v = Inr (Inr (Some r, p'), t)"
    by (auto simp: mget_def mret_def elim!: mbind_InrE split: if_splits)
  moreover have "send_rest (send_turns n) q None = mbind plus_poll_recv (\<lambda>rsp. if rsp \<noteq> None then mret (Inr (rsp, q)) else send_next (send_turns n) q rsp)"
    using Suc.prems(2) d by (simp add: send_rest_plain)
  ultimately obtain rsp w where w: "plus_poll_recv v = Inr (rsp, w)"
    "(if rsp \<noteq> None then mret (Inr (rsp, q)) else send_next (send_turns n) q rsp) w = Inr (Inr (Some r, p'), t)" by auto
  show ?case
  proof (cases rsp)
    case None
    with w(2) obtain x y where "send_turns n q x None y = Inr (Inr (Some r, p'), t)"
      by (auto simp: send_next_def elim!: mbind_InrE)
    then show ?thesis using Suc.IH Suc.prems(2) d by simp
  next
    case (Some r')
    with w poll_recv_rsp show ?thesis by (auto simp: mret_def)
  qed
qed

lemma send_payload_rsp:
  assumes "send_payload_opened payload s = Inr ((Some r, p), t)" "\<And>p. pl_data payload \<noteq> Sol_Packet p"
  shows "n_rsp t = r"
proof -
  from assms(1) obtain n u v w where "send_turns n payload True None u = Inr (Inr (Some r, p), v)" "set_session w v = Inr ((), t)"
    by (auto simp: send_payload_opened_def mret_def mfail_def elim!: mbind_InrE split: sum.splits if_splits)
  with send_turns_rsp [of payload n True u r p v] assms(2) set_session_rsp show ?thesis by metis
qed

text \<open>An acknowledgement goes through the same loop.\<close>

lemma send_payload_ack:
  assumes "pl_data payload = Sol_Packet p" "sol_packet_sequence_number p = 0"
  shows "mbind (send_payload_opened payload) (\<lambda>_. mret ()) s = send_ack payload s"
proof (cases "n_session s")
  case None
  then show ?thesis by (simp add: send_payload_opened_def send_ack_def mbind_def plus_session_def)
next
  case (Some ses)
  note run = send_payload_opened_def send_ack_def mbind_def plus_session_def mret_def mget_def set_session_def mmod_def frees_message_def
  show ?thesis
  proof (cases "s_retry ses > 0")
    case False
    with Some assms show ?thesis by (simp add: run)
  next
    case True
    then obtain n where n: "nat (s_retry ses) = Suc n" by (cases "nat (s_retry ses)") auto
    consider e where "transmit payload s = Inl e" | u where "transmit payload s = Inr (None, u)" | q u where "transmit payload s = Inr (Some q, u)"
      by (metis option.exhaust surj_pair sum.exhaust)
    then show ?thesis
    proof cases
      case 3
      then have "pl_data q = Sol_Packet p" using transmit_data assms(1) by simp
      with 3 True Some n assms show ?thesis
        by (cases "n_session u") (simp_all add: run remember_state_def send_rest_def)
    qed (use True Some n in \<open>simp_all add: run\<close>)
  qed
qed

declare plus_same_simps [simp del]

end
