(* ===== verification/Lanplus_Wire.thy ===== *)
theory Lanplus_Wire
  imports Lanplus_Packet
begin

text \<open>
  RMCP+ packets from one side to the other: the round trip of a packet, the bounds of the message buffer and what the integrity check
  lets pass.
\<close>

section \<open>Packets that are received\<close>

lemma v2x_layout:
  assumes "d = rmcp_ipmi @ v2x_header s pt len @ xs" "v_session_state s = LANPLUS_STATE_ACTIVE"
  shows "d ! 4 = 6" "d ! 5 = pt OR (if v_crypt_alg s \<noteq> 0 then 0x80 else 0) OR (if v_integrity_alg s \<noteq> 0 then 0x40 else 0)"
    "bytes_at d 6 4 = le32 (v_bmc_id s)" "bytes_at d 10 4 = le32 (s_out_seq s)" "bytes_at d 14 2 = le16 len" "drop 16 d = xs"
    "drop 4 d = v2x_header s pt len @ xs"
  using assms by (simp_all add: rmcp_ipmi_def v2x_header_def bytes_at_def le32_def le16_def nth_Cons numeral_eq_Suc)

lemma type_flags:
  "payload_type p AND 0x3F = payload_type p" "payload_type p AND 0x80 = 0" "payload_type p AND 0x40 = 0"
  by (cases p; simp)+

lemma type_byte:
  "(payload_type p OR (if b then 0x80 else 0) OR (if c then 0x40 else 0)) AND 0x3F = payload_type p"
  "((payload_type p OR (if b then 0x80 else 0) OR (if c then 0x40 else 0)) AND 0x80 \<noteq> 0) = b"
  "((payload_type p OR (if b then 0x80 else 0) OR (if c then 0x40 else 0)) AND 0x40 \<noteq> 0) = c"
  by (cases p; cases b; cases c; simp)+

lemma read_built_packet:
  assumes "p_data rsp = rmcp_ipmi @ v2x_header s (payload_type p) len @ xs" "v_session_state s = LANPLUS_STATE_ACTIVE" "v_console_id r = v_bmc_id s"
  shows "read_session_data rsp 4 r =
    Inr (rsp\<lparr>p_authtype := 6, p_bEncrypted := (v_crypt_alg s \<noteq> 0), p_bAuthenticated := (v_integrity_alg s \<noteq> 0), p_payloadtype := payload_type p,
           p_id := v_bmc_id s, p_seq := s_out_seq s, p_msglen := len\<rparr>, 16)"
  using v2x_layout [OF assms(1,2)] assms(3)
  by (simp add: read_session_data_def read_session_data_v2x_def Let_def type_byte)

lemma trailer_authenticates:
  assumes "openssl_ok ssl" "v2x_trailer ssl intf s len covered = Inr trailer" "v_session_state s = LANPLUS_STATE_ACTIVE"
    and "p_data rsp = rmcp_ipmi @ covered @ trailer @ rest" "p_data_len rsp = int (4 + length covered + length trailer)"
    and "v_integrity_alg r = v_integrity_alg s" "alg_supported (v_integrity_alg s)" "v_k1 r = v_k1 s"
  shows "lanplus_has_valid_auth_code ssl rsp r = Inr True"
proof (cases "v_integrity_alg s = 0")
  case True
  then show ?thesis using assms(6) by (simp add: lanplus_has_valid_auth_code_def)
next
  case False
  then have one: "v_integrity_alg s = 1" using assms(7) by (simp add: alg_supported_def)
  define pad where "pad = replicate (integrity_pad_size intf len) 0xFF @ [of_nat (integrity_pad_size intf len), 0x07 :: u8]"
  define mac where "mac = ssl_hmac ssl (v_k1 s) (covered @ pad)"
  have mac: "length mac = 20" using assms(1) by (simp add: mac_def openssl_hmac_len)
  with assms(2,3) one have tr: "trailer = pad @ take 12 mac"
    by (simp add: v2x_trailer_def Let_def lanplus_HMAC_def pad_def [symmetric] mac_def [symmetric])
  have n: "nat (p_data_len rsp) = 16 + length (covered @ pad)" using assms(5) tr mac by simp
  have "bytes_at (p_data rsp) 4 (nat (p_data_len rsp) - 16) = covered @ pad"
    using n assms(4) tr by (simp add: bytes_at_def rmcp_ipmi_def)
  moreover have "bytes_at (p_data rsp) (nat (p_data_len rsp) - 12) 12 = take 12 mac"
    using n assms(4) tr mac by (simp add: bytes_at_def)
  moreover have "\<not> p_data_len rsp < 16" using n by linarith
  ultimately show ?thesis
    using one mac assms(6,8)
    by (simp add: lanplus_has_valid_auth_code_def lanplus_HMAC_def mac_def [symmetric])
qed

text \<open>
  C4. A packet that one side of an active session builds arrives at the other side. For the algorithms the program supports (HMAC-SHA1-96 or none, AES-CBC-128 or none)
  and keys on which both sides agree, \<open>ipmi_lanplus_build_v2x_msg\<close> builds a packet of at most 65 bytes more than the payload, and whoever receives it under the session id it
  carries finds its integrity code valid, decrypts it, and gets the payload type, the sequence number and the payload
  that were sent, byte for byte.
\<close>

theorem rmcp_packet_round_trip:
  assumes "openssl_ok ssl" "\<And>n. alloc n" "fst rnd" "length (snd rnd) = 16" "payload_ok payload" "wire_payload intf bp seq payload = (wire, len)"
    and "v_session_state s = LANPLUS_STATE_ACTIVE" "v_session_state r = LANPLUS_STATE_ACTIVE" "v_console_id r = v_bmc_id s"
    and "alg_supported (v_integrity_alg s)" "v_integrity_alg r = v_integrity_alg s" "v_k1 r = v_k1 s"
    and "alg_supported (v_crypt_alg s)" "v_crypt_alg r = v_crypt_alg s" "v_k2 r = v_k2 s" "16 \<le> length (v_k2 s)"
  shows "\<exists>msg n. ipmi_lanplus_build_v2x_msg ssl alloc rnd intf bp s payload seq = Inr (Some (msg, n), next_out_seq s)
    \<and> length msg \<le> length wire + 65
    \<and> (\<forall>rsp rest. p_data rsp = msg @ rest \<and> p_data_len rsp = int (length msg) \<longrightarrow>
        (\<exists>rsp'. open_packet ssl alloc r rsp = Inr (rsp', 16, Some len) \<and> p_payloadtype rsp' = payload_type (pl_data payload)
           \<and> p_seq rsp' = s_out_seq s \<and> bytes_at (p_data rsp') 16 (unat len) = wire))"
proof -
  note w = wire_payload_ok [OF assms(5,6)]
  obtain body trailer where b:
    "ipmi_lanplus_build_v2x_msg ssl alloc rnd intf bp s payload seq =
       Inr (Some (rmcp_ipmi @ v2x_header s (payload_type (pl_data payload)) (of_nat (length body)) @ body @ trailer, of_nat (length body)), next_out_seq s)"
    "length body \<le> length wire + 32" "length trailer \<le> 17"
    "v2x_trailer ssl intf s (of_nat (length body)) (v2x_header s (payload_type (pl_data payload)) (of_nat (length body)) @ body) = Inr trailer"
    "v_session_state s \<noteq> LANPLUS_STATE_ACTIVE \<longrightarrow> body = wire"
    "v_session_state s = LANPLUS_STATE_ACTIVE \<longrightarrow> lanplus_encrypt_payload ssl alloc rnd (v_crypt_alg s) (v_k2 s) wire = Inr (0, body, of_nat (length body))"
    by (rule build_v2x_builds [where alloc = alloc, OF assms(1-4,16,13,10,5,6)])
  let ?len = "of_nat (length body) :: u16"
  let ?hdr = "v2x_header s (payload_type (pl_data payload)) ?len"
  let ?msg = "rmcp_ipmi @ ?hdr @ body @ trailer"
  have lw: "length wire \<le> 65503" using w by simp
  have len: "len = of_nat (length wire)" using w(1) by (metis of_nat_unat ucast_id)
  have ul: "unat ?len = length body" using b(2) w by (simp add: unat_of_nat)
  obtain c d where cd: "lanplus_encrypt_payload ssl alloc rnd (v_crypt_alg s) (v_k2 s) wire = Inr (0, c, of_nat (length c))" "length c \<le> length wire + 32"
    "lanplus_decrypt_payload ssl alloc (v_crypt_alg s) (v_k2 s) c = Inr (0, d, Some (of_nat (length wire)))" "take (length wire) d = wire" "length d = length c"
    using lw by (rule crypt_any [where alloc = alloc, OF assms(1-4,16) _ assms(13)])
  have c: "c = body" using cd(1) b(6) assms(7) by simp
  have "\<exists>rsp'. open_packet ssl alloc r rsp = Inr (rsp', 16, Some len) \<and> p_payloadtype rsp' = payload_type (pl_data payload)
       \<and> p_seq rsp' = s_out_seq s \<and> bytes_at (p_data rsp') 16 (unat len) = wire"
    if rsp: "p_data rsp = ?msg @ rest" "p_data_len rsp = int (length ?msg)" for rsp rest
  proof -
    have rd: "read_session_data rsp 4 r =
      Inr (rsp\<lparr>p_authtype := 6, p_bEncrypted := (v_crypt_alg s \<noteq> 0), p_bAuthenticated := (v_integrity_alg s \<noteq> 0),
             p_payloadtype := payload_type (pl_data payload), p_id := v_bmc_id s, p_seq := s_out_seq s, p_msglen := ?len\<rparr>, 16)"
      (is "_ = Inr (?r, 16)") using rsp(1) assms(7,9) by (intro read_built_packet) simp_all
    have ac: "lanplus_has_valid_auth_code ssl ?r r = Inr True"
      using rsp assms(10,11,12) by (intro trailer_authenticates [OF assms(1) b(4) assms(7)]) (simp_all add: rmcp_ipmi_def)
    have at: "bytes_at (p_data rsp) 16 (length body) = body" using rsp(1) by (simp add: bytes_at_def rmcp_ipmi_def)
    have fits: "16 + length body \<le> length (p_data rsp)" using rsp(1) by (simp add: rmcp_ipmi_def)
    show ?thesis
    proof (cases "v_crypt_alg s = 0")
      case True
      then have bw: "body = wire" using b(6) assms(7) by (simp add: lanplus_encrypt_payload_def)
      then show ?thesis using True rd ac at assms(8) w(1) len by (simp add: open_packet_def)
    next
      case False
      let ?r' = "?r\<lparr>p_data := memcpy_at (p_data ?r) 16 d\<rparr>"
      have "open_packet ssl alloc r rsp = Inr (?r', 16, Some len)"
        using False rd ac at fits ul cd(3) c assms(8,14,15) len by (simp add: open_packet_def Let_def)
      moreover have "bytes_at (p_data ?r') 16 (unat len) = wire"
      proof -
        have "length wire \<le> length d" using cd(4) by (metis length_take min.cobounded1 min_def le_cases)
        then show ?thesis using cd(4) w(1) fits by (simp add: bytes_at_def memcpy_at_def)
      qed
      ultimately show ?thesis by (intro exI [of _ ?r']) simp
    qed
  qed
  moreover have "length ?msg \<le> length wire + 65" using b(2,3) by (simp add: rmcp_ipmi_def)
  ultimately show ?thesis using b(1) by (intro exI [of _ ?msg] exI [of _ ?len]) simp
qed

definition demo_session :: v2_session where
  "demo_session = zero_v2_session\<lparr>v_session_state := LANPLUS_STATE_ACTIVE, v_integrity_alg := 1, v_crypt_alg := 1, v_bmc_id := 0x1234,
     v_console_id := 0x1234, s_out_seq := 9, v_k1 := replicate 20 3, v_k2 := replicate 20 7\<rparr>"

definition demo_payload :: ipmi_v2_payload where
  "demo_payload = \<lparr>pl_length = 9, pl_data = Ipmi_Request \<lparr>rq_netfn = 6, rq_lun = 0, rq_cmd = 1, rq_target_cmd = 0, rq_data = [1, 2]\<rparr> 5\<rparr>"

theorem rmcp_packet_round_trip_witness:
  "\<exists>msg n. ipmi_lanplus_build_v2x_msg demo_ssl (\<lambda>_. True) (True, replicate 16 9) no_oem_intf False demo_session demo_payload 5
      = Inr (Some (msg, n), next_out_seq demo_session)
    \<and> length msg \<le> length (fst (wire_payload no_oem_intf False 5 demo_payload)) + 65
    \<and> (\<forall>rsp rest. p_data rsp = msg @ rest \<and> p_data_len rsp = int (length msg) \<longrightarrow>
        (\<exists>rsp'. open_packet demo_ssl (\<lambda>_. True) demo_session rsp = Inr (rsp', 16, Some (snd (wire_payload no_oem_intf False 5 demo_payload)))
           \<and> p_payloadtype rsp' = payload_type (pl_data demo_payload) \<and> p_seq rsp' = s_out_seq demo_session
           \<and> bytes_at (p_data rsp') 16 (unat (snd (wire_payload no_oem_intf False 5 demo_payload))) = fst (wire_payload no_oem_intf False 5 demo_payload)))"
  by (rule rmcp_packet_round_trip [OF demo_ssl_ok])
     (simp_all add: demo_payload_def payload_ok_def demo_session_def zero_v2_session_def alg_supported_def)

section \<open>The message buffer\<close>

lemma encrypt_length:
  assumes "openssl_ok ssl" "length (snd rnd) = 16" "16 \<le> length key" "lanplus_encrypt_payload ssl alloc rnd alg key input = Inr (rc, c, n)"
  shows "length c \<le> length input + 32 \<and> unat n \<le> length c"
proof -
  have of_nat_le: "unat (of_nat k :: u16) \<le> k" for k by (simp add: unat_of_nat)
  have m: "length (padded_input input) mod 16 = 0" using conf_pad_multiple [of "length input"] by (simp add: length_padded_input)
  have k: "length (take 16 key) = 16" using assms(3) by simp
  obtain e where e: "ssl_encrypt ssl (take 16 key) (snd rnd) (padded_input input) = Some e" "length e = length (padded_input input)"
    by (rule openssl_crypt [OF assms(1) k assms(2) m])
  show ?thesis
    using assms(2,4) e m length_padded_input_le [of input] of_nat_le [of "length input"] of_nat_le [of "16 + length e"]
    by (auto simp: lanplus_encrypt_payload_def Let_def lanplus_encrypt_aes_cbc_128_def split: if_splits)
qed

text \<open>
  C24. The message never leaves its buffer. Whatever the state of the session, the algorithms agreed on and the random numbers, for every payload
  that the callers hand over (also bridged, with the eight bytes that are added only after the buffer has been allocated, encrypted, padded
  and with the 20 bytes that the HMAC writes where 12 are sent) \<open>ipmi_lanplus_build_v2x_msg\<close> neither writes behind the block it has
  allocated nor reads behind the payload; it stops with an error only for an algorithm that is not supported.
\<close>

theorem v2x_msg_stays_in_buffer:
  assumes "openssl_ok ssl" "length (snd rnd) = 16" "16 \<le> length (v_k2 s)" "payload_ok payload"
  shows "case ipmi_lanplus_build_v2x_msg ssl alloc rnd intf bp s payload seq of
      Inl e \<Rightarrow> e = AssertFailed \<and> \<not> (alg_supported (v_crypt_alg s) \<and> alg_supported (v_integrity_alg s))
    | Inr (None, t) \<Rightarrow> \<not> alloc (v2x_alloc payload)
    | Inr (Some (msg, n), t) \<Rightarrow> length msg \<le> v2x_alloc payload \<and> t = next_out_seq s"
proof (cases "alloc (v2x_alloc payload)")
  case False
  then show ?thesis by (simp add: ipmi_lanplus_build_v2x_msg_def)
next
  case True
  obtain wire len where wl: "wire_payload intf bp seq payload = (wire, len)" by fastforce
  note w = wire_payload_ok [OF assms(4) wl]
  define enc where "enc = (if v_session_state s = LANPLUS_STATE_ACTIVE
    then lanplus_encrypt_payload ssl alloc rnd (v_crypt_alg s) (v_k2 s) wire else Inr (0, wire, len))"
  have size: "16 + length wire \<le> v2x_alloc payload" using w by (simp add: v2x_alloc_def)
  have build: "ipmi_lanplus_build_v2x_msg ssl alloc rnd intf bp s payload seq =
    (case enc of
       Inl e \<Rightarrow> Inl e
     | Inr (rc, body, len) \<Rightarrow>
         if 16 + length body > v2x_alloc payload then Inl BufferOverflow
         else
           let before = v2x_header s (payload_type (pl_data payload)) len @ take (unat len) body
           in case v2x_trailer ssl intf s len before of
                Inl e \<Rightarrow> Inl e
              | Inr trailer \<Rightarrow>
                  if trailer \<noteq> [] \<and> 4 + length before + length trailer + 8 > v2x_alloc payload then Inl BufferOverflow
                  else Inr (Some (rmcp_ipmi @ before @ trailer, len), next_out_seq s))"
    using True wl w(1,4) size by (simp add: ipmi_lanplus_build_v2x_msg_def Let_def enc_def)
  show ?thesis
  proof (cases enc)
    case (Inl e)
    then have "v_session_state s = LANPLUS_STATE_ACTIVE" "lanplus_encrypt_payload ssl alloc rnd (v_crypt_alg s) (v_k2 s) wire = Inl e"
      by (auto simp: enc_def split: if_splits)
    then have "e = AssertFailed \<and> \<not> alg_supported (v_crypt_alg s)"
      using w(2,3) conf_pad_multiple [of "length wire"]
      by (auto simp: lanplus_encrypt_payload_def Let_def lanplus_encrypt_aes_cbc_128_def alg_supported_def length_padded_input split: if_splits)
    then show ?thesis using Inl build by simp
  next
    case (Inr x)
    then obtain rc body n where x: "enc = Inr (rc, body, n)" by (cases x) auto
    have b: "length body \<le> length wire + 32 \<and> unat n \<le> length body"
      using x encrypt_length [OF assms(1-3), of alloc "v_crypt_alg s" wire rc body n] w(1) by (auto simp: enc_def split: if_splits)
    have fit: "16 + length body + 25 \<le> v2x_alloc payload" using b w(2) by (simp add: v2x_alloc_def)
    let ?before = "v2x_header s (payload_type (pl_data payload)) n @ take (unat n) body"
    show ?thesis
    proof (cases "v2x_trailer ssl intf s n ?before")
      case (Inl e)
      then have "e = AssertFailed \<and> \<not> alg_supported (v_integrity_alg s)"
        using assms(1) by (auto simp: v2x_trailer_def Let_def lanplus_HMAC_def alg_supported_def openssl_hmac_len split: if_splits)
      then show ?thesis using Inl build x fit by (simp add: Let_def)
    next
      case (Inr tr)
      then have "length tr \<le> 17"
        using assms(1) integrity_pad_le [of intf n] by (auto simp: v2x_trailer_def Let_def lanplus_HMAC_def openssl_hmac_len split: if_splits)
      then show ?thesis using Inr build x fit b by (auto simp: Let_def)
    qed
  qed
qed

theorem v2x_msg_stays_in_buffer_witness:
  "case ipmi_lanplus_build_v2x_msg demo_ssl (\<lambda>_. True) (True, replicate 16 9) no_oem_intf True demo_session demo_payload 5 of
      Inl e \<Rightarrow> e = AssertFailed \<and> \<not> (alg_supported (v_crypt_alg demo_session) \<and> alg_supported (v_integrity_alg demo_session))
    | Inr (None, t) \<Rightarrow> \<not> True
    | Inr (Some (msg, n), t) \<Rightarrow> length msg \<le> v2x_alloc demo_payload \<and> t = next_out_seq demo_session"
  by (rule v2x_msg_stays_in_buffer [OF demo_ssl_ok]) (simp_all add: demo_session_def zero_v2_session_def demo_payload_def payload_ok_def)

section \<open>What the integrity check lets pass\<close>

text \<open>
  C21. What becomes of a packet that carries the id of an active session with integrity protection (HMAC-SHA1-96) and has at least 16 bytes, whatever else it holds. If it is marked as authenticated and its last 12 bytes are not the HMAC under K1
  of all that lies between the RMCP header and them, the program is aborted by an assertion, encrypted or not. If they are, or if the packet is not marked as authenticated, it passes the check: a packet that is not marked
  as encrypted is accepted as it stands, with the type, sequence number and length of its header, and for one that is, decryption with K2 of the bytes that the header counts has the last word, unless they reach behind the buffer. So
  a packet without the mark gets past the integrity protection that was agreed on.
\<close>

theorem integrity_check_decides:
  assumes "openssl_ok ssl" "v_session_state s = LANPLUS_STATE_ACTIVE" "v_integrity_alg s = IPMI_INTEGRITY_HMAC_SHA1_96"
    and "p_data rsp ! 4 = 6" "of_le32 (bytes_at (p_data rsp) 6 4) = v_console_id s" "p_data_len rsp = int n" "16 \<le> n"
  shows "open_packet ssl alloc s rsp =
    (let d = p_data rsp; len = of_le16 (bytes_at d 14 2);
         authentic = (bytes_at d (n - 12) 12 = take 12 (ssl_hmac ssl (v_k1 s) (bytes_at d 4 (n - 16))));
         rsp' = rsp\<lparr>p_authtype := 6, p_bEncrypted := (d ! 5 AND 0x80 \<noteq> 0), p_bAuthenticated := (d ! 5 AND 0x40 \<noteq> 0), p_payloadtype := d ! 5 AND 0x3F,
           p_id := v_console_id s, p_seq := of_le32 (bytes_at d 10 4), p_msglen := len\<rparr>
     in if d ! 5 AND 0x40 \<noteq> 0 \<and> \<not> authentic then Inl AssertFailed
        else if d ! 5 AND 0x80 = 0 then Inr (rsp', 16, Some len)
        else if 16 + unat len > length d then Inl OutOfBounds
        else case lanplus_decrypt_payload ssl alloc (v_crypt_alg s) (v_k2 s) (bytes_at d 16 (unat len)) of
               Inl e \<Rightarrow> Inl e
             | Inr (rc, plain, payload_size) \<Rightarrow> Inr (rsp'\<lparr>p_data := memcpy_at d 16 plain\<rparr>, 16, payload_size))"
proof -
  let ?r = "rsp\<lparr>p_authtype := 6, p_bEncrypted := (p_data rsp ! 5 AND 0x80 \<noteq> 0), p_bAuthenticated := (p_data rsp ! 5 AND 0x40 \<noteq> 0), p_payloadtype := p_data rsp ! 5 AND 0x3F,
    p_id := v_console_id s, p_seq := of_le32 (bytes_at (p_data rsp) 10 4), p_msglen := of_le16 (bytes_at (p_data rsp) 14 2)\<rparr>"
  have rd: "read_session_data rsp 4 s = Inr (?r, 16)"
    using assms(4,5) by (simp add: read_session_data_def read_session_data_v2x_def Let_def)
  have hm: "length (ssl_hmac ssl k d) = 20" for k d by (rule openssl_hmac_len [OF assms(1)])
  have ac: "lanplus_has_valid_auth_code ssl ?r s = Inr (\<not> (p_data rsp ! 5 AND 0x40 \<noteq> 0 \<and>
      \<not> bytes_at (p_data rsp) (n - 12) 12 = take 12 (ssl_hmac ssl (v_k1 s) (bytes_at (p_data rsp) 4 (n - 16)))))"
    using assms(2,3,6,7) by (auto simp: lanplus_has_valid_auth_code_def lanplus_HMAC_def hm)
  show ?thesis
  proof (cases "p_data rsp ! 5 AND 0x40 \<noteq> 0 \<and> \<not> bytes_at (p_data rsp) (n - 12) 12 = take 12 (ssl_hmac ssl (v_k1 s) (bytes_at (p_data rsp) 4 (n - 16)))")
    case True
    then show ?thesis using rd ac by (simp add: open_packet_def Let_def)
  next
    case False
    then have ok: "lanplus_has_valid_auth_code ssl ?r s = Inr True" using ac by simp
    show ?thesis
      using assms(2) unfolding open_packet_def rd sum.case prod.case ok bool.case Let_def if_not_P [OF False] by (simp split: sum.splits prod.splits)
  qed
qed

text \<open>A packet that is marked as authenticated, with a code that is right under \<open>demo_ssl\<close> or not.\<close>

definition demo_packet :: "u8 \<Rightarrow> v2_rs" where
  "demo_packet c = \<lparr>p_ccode = 0, p_data = rmcp_ipmi @ [6, 0x40] @ le32 0x1234 @ le32 1 @ le16 4 @ [1, 2, 3, 4] @ replicate 12 c @ replicate 992 0, p_data_len = int 32,
     p_authtype = 0, p_seq = 0, p_id = 0, p_bEncrypted = False, p_bAuthenticated = False, p_payloadtype = 0, p_msglen = 0, p_payload = replicate 60 0\<rparr>"

theorem integrity_check_decides_witness:
  "(\<exists>r. open_packet demo_ssl (\<lambda>_. True) demo_session (demo_packet 60) = Inr (r, 16, Some 4)) \<and>
   open_packet demo_ssl (\<lambda>_. True) demo_session (demo_packet 7) = Inl AssertFailed"
proof -
  have d: "p_data (demo_packet c) ! 4 = 6" "of_le32 (bytes_at (p_data (demo_packet c)) 6 4) = v_console_id demo_session" "p_data_len (demo_packet c) = int 32"
    "p_data (demo_packet c) ! 5 = 0x40" "of_le16 (bytes_at (p_data (demo_packet c)) 14 2) = 4" "bytes_at (p_data (demo_packet c)) 20 12 = replicate 12 c" for c
    by (simp_all add: demo_packet_def demo_session_def rmcp_ipmi_def bytes_at_def le32_def le16_def of_le32_def of_le16_def)
  have s: "v_session_state demo_session = LANPLUS_STATE_ACTIVE" "v_integrity_alg demo_session = IPMI_INTEGRITY_HMAC_SHA1_96" by (simp_all add: demo_session_def)
  have h: "take 12 (ssl_hmac demo_ssl (v_k1 demo_session) x) = replicate 12 60" for x by (simp add: demo_ssl_def demo_session_def numeral_eq_Suc)
  have ne: "replicate 12 (7 :: u8) \<noteq> replicate 12 60" by simp
  note dec = integrity_check_decides [OF demo_ssl_ok s d(1-3), of "\<lambda>_. True", unfolded Let_def, simplified d h]
  show ?thesis using dec [of 60] dec [of 7] ne by (simp add: d(6))
qed

end
