(* ===== verification/Lanplus_Handshake.thy ===== *)
theory Lanplus_Handshake
  imports Lanplus_Frame Lanplus_Wire
begin

text \<open>
  Opening an RMCP+ session: what the two exchanges of key exchange codes guarantee, and what happens when a message of the handshake is lost.
\<close>

section \<open>Runs of the handshake\<close>

lemma set_session_run: "set_session f s = Inr (u, t) \<longleftrightarrow> (\<exists>x. n_session s = Some x \<and> t = s\<lparr>n_session := Some (f x)\<rparr>)"
  by (auto simp: set_session_def plus_session_def mbind_def mmod_def split: option.splits)

lemma plus_session_run: "plus_session s = Inr (x, t) \<longleftrightarrow> n_session s = Some x \<and> t = s"
  by (auto simp: plus_session_def split: option.splits)

lemma lift_sum_run: "lift_sum x s = Inr (a, t) \<longleftrightarrow> x = Inr a \<and> t = s"
  by (cases x) (auto simp: lift_sum_def mret_def mfail_def)

lemma mget_Inr: "mget g s = Inr (a, t) \<longleftrightarrow> a = g s \<and> t = s"
  by (auto simp: mget_def)

lemma mret_Inr: "mret a s = Inr (b, t) \<longleftrightarrow> b = a \<and> t = s"
  by (auto simp: mret_def)

lemma plus_script_run: "plus_script g upd d s = Inr (a, t) \<longleftrightarrow> a = script_hd d (g s) \<and> t = upd (tl (g s)) s"
  by (auto simp: plus_script_def)

lemmas run_simps = mbind_Inr_iff set_session_run plus_session_run lift_sum_run mget_Inr mret_Inr plus_script_run

text \<open>After a payload has been sent the session is the same, but for sequence number, state and timeout.\<close>

lemma sent_session:
  assumes "send_payload_opened p s = Inr (r, t)" "n_session s = Some x"
  obtains y where "n_session t = Some y" "core y = core x" "n_ssl t = n_ssl s" "n_alloc t = n_alloc s" "n_intf t = n_intf s"
  using mframeD [OF mframe_send_payload assms(1)] assms(2)
  by (cases "n_session t") (auto simp: plus_same_def)

lemma core_fields:
  assumes "core y = core x"
  shows "v_auth_alg y = v_auth_alg x" "v_integrity_alg y = v_integrity_alg x" "v_crypt_alg y = v_crypt_alg x" "s_authcode y = s_authcode x"
    "s_kg y = s_kg x" "s_username y = s_username x" "v_console_id y = v_console_id x" "v_bmc_id y = v_bmc_id x" "v_console_rand y = v_console_rand x"
    "v_bmc_rand y = v_bmc_rand x" "v_bmc_guid y = v_bmc_guid x" "v_requested_role y = v_requested_role x" "v_rakp2_return_code y = v_rakp2_return_code x"
    "v_sik y = v_sik x" "v_k1 y = v_k1 x" "v_k2 y = v_k2 x"
  using arg_cong [OF assms, of v_auth_alg]
    arg_cong [OF assms, of v_integrity_alg]
    arg_cong [OF assms, of v_crypt_alg]
    arg_cong [OF assms, of s_authcode]
    arg_cong [OF assms, of s_kg]
    arg_cong [OF assms, of s_username]
    arg_cong [OF assms, of v_console_id]
    arg_cong [OF assms, of v_bmc_id]
    arg_cong [OF assms, of v_console_rand]
    arg_cong [OF assms, of v_bmc_rand]
    arg_cong [OF assms, of v_bmc_guid]
    arg_cong [OF assms, of v_requested_role]
    arg_cong [OF assms, of v_rakp2_return_code]
    arg_cong [OF assms, of v_sik]
    arg_cong [OF assms, of v_k1]
    arg_cong [OF assms, of v_k2]
  by (simp_all add: core_def)

lemma rakp2_matches_code [simp]:
  "lanplus_rakp2_hmac_matches ssl alloc (x\<lparr>v_rakp2_return_code := c\<rparr>) mac = lanplus_rakp2_hmac_matches ssl alloc x mac"
  by (simp add: lanplus_rakp2_hmac_matches_def rakp2_input_def user_name_def)

lemma rakp1_run:
  assumes "ipmi_lanplus_rakp1 s = Inr (0, t)"
  obtains ses where "n_session t = Some ses" "v_session_state ses = LANPLUS_STATE_RAKP_2_RECEIVED"
    "lanplus_rakp2_hmac_matches (n_ssl t) (n_alloc t) ses (bytes_at (p_payload (n_rsp t)) 40 20) = Inr (v_rakp2_return_code ses = 0)"
    "n_ssl t = n_ssl s" "n_alloc t = n_alloc s" "n_intf t = n_intf s"
proof -
  from assms obtain x r p u ok where u: "send_payload_opened \<lparr>pl_length = of_nat (length (rakp1_msg (fst x) (snd x))), pl_data = Rakp_1_Message (rakp1_msg (fst x) (snd x))\<rparr>
        (s\<lparr>n_rands := tl (n_rands s), n_session := Some (fst x)\<rparr>) = Inr ((Some r, p), u)"
    and y: "\<exists>y. n_session u = Some y \<and> (let z = y\<lparr>v_session_state := LANPLUS_STATE_RAKP_2_RECEIVED, v_bmc_rand := bytes_at (p_payload r) 8 16, v_bmc_guid := bytes_at (p_payload r) 24 16\<rparr>
       in lanplus_rakp2_hmac_matches (n_ssl u) (n_alloc u) z (bytes_at (p_payload r) 40 20) = Inr ok
          \<and> t = u\<lparr>n_session := Some (z\<lparr>v_rakp2_return_code := (if ok then 0 else 0x0F)\<rparr>)\<rparr>)"
    by (fastforce simp: ipmi_lanplus_rakp1_def run_simps Let_def split: if_splits option.splits)
  have rsp: "n_rsp u = r" by (rule send_payload_rsp [OF u]) simp
  have fr: "n_ssl u = n_ssl s" "n_alloc u = n_alloc s" "n_intf u = n_intf s"
    using mframeD [OF mframe_send_payload u] by (auto simp: plus_same_def)
  from y fr rsp that show ?thesis by (auto simp: Let_def)
qed

lemma rakp4_matches_state [simp]:
  "lanplus_rakp4_hmac_matches ssl alloc intf (x\<lparr>v_session_state := st\<rparr>) mac = lanplus_rakp4_hmac_matches ssl alloc intf x mac"
  by (simp add: lanplus_rakp4_hmac_matches_def rakp4_input_def Let_def)

lemma rakp3_keys_run:
  assumes "rakp3_keys s = Inr (Some mac, t)" "n_session s = Some x" "v_rakp2_return_code x = 0"
  obtains x1 x2 x3 where "lanplus_generate_sik (n_ssl s) (n_alloc s) x = Inr (0, x1)" "lanplus_generate_k1 (n_ssl s) x1 = Inr x2"
    "lanplus_generate_k2 (n_ssl s) x2 = Inr x3" "t = s\<lparr>n_session := Some x3\<rparr>"
  using assms by (fastforce simp: rakp3_keys_def run_simps split: if_splits option.splits)

lemma accept_rakp4_run:
  "accept_rakp4 r s = Inr (0, t) \<longleftrightarrow> rakp_return_code r = 0 \<and>
     (\<exists>z. n_session s = Some z \<and> lanplus_rakp4_hmac_matches (n_ssl s) (n_alloc s) (n_intf s) z (bytes_at (p_payload r) 8 20) = Inr True
      \<and> t = s\<lparr>n_session := Some (z\<lparr>v_session_state := LANPLUS_STATE_ACTIVE\<rparr>), n_intf := (n_intf s)\<lparr>i_abort := False\<rparr>\<rparr>)"
  by (auto simp: accept_rakp4_def set_intf_def mmod_def run_simps)

lemma exchange_rakp3_run:
  assumes "exchange_rakp3 mac s = Inr (0, t)"
  obtains y p r v where "n_session s = Some y" "v_rakp2_return_code y = 0"
    "send_payload_opened \<lparr>pl_length = of_nat (8 + length mac), pl_data = Rakp_3_Message (rakp3_msg y mac)\<rparr> s = Inr ((Some r, p), v)"
    "accept_rakp4 r v = Inr (0, t)"
  using assms by (auto simp: exchange_rakp3_def mfail_def run_simps split: if_splits option.splits)

lemma rakp3_run:
  assumes "ipmi_lanplus_rakp3 s = Inr (0, t)" "n_session s = Some x"
  obtains x1 x2 x3 ses where "v_rakp2_return_code x = 0" "lanplus_generate_sik (n_ssl s) (n_alloc s) x = Inr (0, x1)"
    "lanplus_generate_k1 (n_ssl s) x1 = Inr x2" "lanplus_generate_k2 (n_ssl s) x2 = Inr x3" "core ses = core x3"
    "n_session t = Some ses" "v_session_state ses = LANPLUS_STATE_ACTIVE" "\<not> i_abort (n_intf t)"
    "lanplus_rakp4_hmac_matches (n_ssl s) (n_alloc s) (n_intf s) ses (bytes_at (p_payload (n_rsp t)) 8 20) = Inr True"
proof -
  from assms obtain mac u where k: "rakp3_keys s = Inr (Some mac, u)" and ex: "exchange_rakp3 mac u = Inr (0, t)"
    by (auto simp: ipmi_lanplus_rakp3_def require_state_def mfail_def run_simps split: if_splits option.splits)
  from ex obtain y p r v where y: "n_session u = Some y" "v_rakp2_return_code y = 0"
    and send: "send_payload_opened \<lparr>pl_length = of_nat (8 + length mac), pl_data = Rakp_3_Message (rakp3_msg y mac)\<rparr> u = Inr ((Some r, p), v)"
    and acc: "accept_rakp4 r v = Inr (0, t)" by (rule exchange_rakp3_run)
  have rsp: "n_rsp v = r" by (rule send_payload_rsp [OF send]) simp
  have c: "v_rakp2_return_code x = 0"
    using k y assms(2) by (cases "v_rakp2_return_code x = 0") (auto simp: rakp3_keys_def run_simps)
  obtain x1 x2 x3 where g: "lanplus_generate_sik (n_ssl s) (n_alloc s) x = Inr (0, x1)" "lanplus_generate_k1 (n_ssl s) x1 = Inr x2"
    "lanplus_generate_k2 (n_ssl s) x2 = Inr x3" and u: "u = s\<lparr>n_session := Some x3\<rparr>"
    by (rule rakp3_keys_run [OF k assms(2) c])
  from acc obtain z where z: "n_session v = Some z" "lanplus_rakp4_hmac_matches (n_ssl v) (n_alloc v) (n_intf v) z (bytes_at (p_payload r) 8 20) = Inr True"
    "t = v\<lparr>n_session := Some (z\<lparr>v_session_state := LANPLUS_STATE_ACTIVE\<rparr>), n_intf := (n_intf v)\<lparr>i_abort := False\<rparr>\<rparr>"
    by (auto simp: accept_rakp4_run)
  have fr: "core z = core x3" "n_ssl v = n_ssl s" "n_alloc v = n_alloc s" "n_intf v = n_intf s"
    using mframeD [OF mframe_send_payload send] u z(1) by (auto simp: plus_same_def)
  have "core (z\<lparr>v_session_state := LANPLUS_STATE_ACTIVE\<rparr>) = core x3" using fr(1) by (simp add: core_def)
  with c g z fr rsp show ?thesis
    by (intro that [of x1 x2 x3 "z\<lparr>v_session_state := LANPLUS_STATE_ACTIVE\<rparr>"]) simp_all
qed

section \<open>What the handshake guarantees\<close>


section \<open>A run\<close>

definition demo_rakp_reply :: "u8 \<Rightarrow> bytes \<Rightarrow> bytes" where
  "demo_rakp_reply ptype body = rmcp_ipmi @ [6, ptype] @ le32 0 @ le32 0 @ le16 (of_nat (8 + length body)) @ [0, 0, 0, 0] @ le32 0xA0A2A3A4 @ body"

definition demo_plus :: "lanplus_state \<Rightarrow> (int \<times> bool \<times> bool) list \<Rightarrow> bytes option list \<Rightarrow> lanplus" where
  "demo_plus st sel rcv = \<lparr>n_intf = no_oem_intf, n_session = Some (zero_v2_session\<lparr>s_retry := 4, s_privlvl := 4, v_auth_alg := 1, v_bmc_id := 0x1234,
       v_console_id := 0xA0A2A3A4, v_session_state := st\<rparr>),
     n_queue = empty_reqlist, n_rsp = (demo_packet 0)\<lparr>p_data := replicate 80 0\<rparr>, n_bridge_possible = False, n_curr_seq = 0, n_last_received_sequence_number = 0,
     n_last_received_byte_count = 0, n_ssl = demo_ssl, n_alloc = (\<lambda>_. True), n_selects = sel, n_recvs = rcv,
     n_sends = [], n_sent = [], n_rands = [(True, replicate 16 7)], n_elapsed = [], n_lookups = [], n_sockets = [], n_connects = [], n_sol_input = []\<rparr>"

definition demo_start :: lanplus where
  "demo_start = demo_plus LANPLUS_STATE_OPEN_SESSION_RECEIEVED [(1, False, True), (1, False, True)]
     [Some (demo_rakp_reply 0x13 (replicate 16 1 @ replicate 16 2 @ replicate 19 0 @ [115])), Some (demo_rakp_reply 0x15 (replicate 12 132))]"

definition demo_mid :: lanplus where
  "demo_mid = (case ipmi_lanplus_rakp1 demo_start of Inl _ \<Rightarrow> demo_start | Inr (_, t) \<Rightarrow> t)"

definition demo_end :: lanplus where
  "demo_end = (case ipmi_lanplus_rakp3 demo_mid of Inl _ \<Rightarrow> demo_mid | Inr (_, t) \<Rightarrow> t)"

lemma run_result:
  assumes "map_sum id fst (f s) = Inr (0 :: int)"
  shows "f s = Inr (0, case f s of Inl (_ :: fault) \<Rightarrow> s | Inr (_, t) \<Rightarrow> t)"
  using assms by (cases "f s") auto

lemma demo_runs: "map_sum id fst (ipmi_lanplus_rakp1 demo_start) = Inr 0" "map_sum id fst (ipmi_lanplus_rakp3 demo_mid) = Inr 0"
  by code_simp+

lemma demo_mid_session: "map_option v_auth_alg (n_session demo_mid) = Some 1"
  by code_simp


end
