(* ===== verification/Lanplus_Sol.thy ===== *)
theory Lanplus_Sol
  imports Lanplus_Handshake
begin

text \<open>
  Lost messages of the handshake, and serial over LAN: what reaches the terminal when the BMC sends packets again, and the sequence numbers.
\<close>

section \<open>A lost message of the handshake\<close>

definition sent_in :: "v2_payload_data \<Rightarrow> lanplus_state" where
  "sent_in d =
     (case d of
        Open_Session_Request m \<Rightarrow> LANPLUS_STATE_PRESESSION
      | Rakp_1_Message m \<Rightarrow> LANPLUS_STATE_OPEN_SESSION_RECEIEVED
      | Rakp_3_Message m \<Rightarrow> LANPLUS_STATE_RAKP_2_RECEIVED
      | _ \<Rightarrow> LANPLUS_STATE_ACTIVE)"

lemma transmit_handshake:
  assumes "frees_message (pl_data p)"
  shows "transmit p = mbind (require_state (sent_in (pl_data p))) (\<lambda>_. send_built p)"
  using assms by (auto simp: transmit_def sent_in_def frees_message_def split: v2_payload_data.splits)

lemma send_rest_handshake:
  assumes "frees_message (pl_data p)"
  shows "send_rest again p rsp = mbind plus_poll_recv (\<lambda>rsp. if rsp \<noteq> None then mret (Inr (rsp, p)) else send_next again p rsp)"
  using assms by (auto simp: send_rest_def frees_message_def split: v2_payload_data.splits)

lemma remember_handshake:
  assumes "frees_message d"
  obtains st where "remember_state d = set_session (\<lambda>x. x\<lparr>v_session_state := st\<rparr>)" "st \<noteq> sent_in d"
  using assms by (cases d) (auto simp: remember_state_def frees_message_def sent_in_def)

lemma poll_nothing:
  assumes "n_session s \<noteq> None" "n_selects s = []"
  shows "plus_poll_recv s = Inr (None, s)"
  using assms by (cases "n_session s")
    (auto simp: plus_poll_recv_def plus_recv_packet_def mbind_def mget_def plus_session_def plus_select_def plus_script_def script_hd_def mret_def)

lemma require_fails:
  assumes "n_session s = Some x" "v_session_state x \<noteq> st"
  shows "require_state st s = Inl AssertFailed"
  using assms by (simp add: require_state_def plus_session_def mbind_def mfail_def)

lemma transmit_in_other_state:
  assumes "n_session s = Some x" "v_session_state x \<noteq> sent_in (pl_data p)" "frees_message (pl_data p)"
  shows "transmit p s = Inl AssertFailed"
  using assms by (simp add: transmit_handshake mbind_def require_fails)

lemma send_built_data:
  "send_built p s = Inr (Some q, t) \<Longrightarrow> pl_data q = pl_data p"
  by (auto simp: send_built_def run_simps mfail_def split: option.splits if_splits)

text \<open>
  C26. A message of the RMCP+ handshake cannot be sent twice. If an Open Session request, a RAKP 1 or a RAKP 3 message goes out (\<open>transmit\<close> sends it) and no
  packet comes back within the timeout, the retry of \<open>ipmi_lanplus_send_payload\<close> stops the program: the first attempt has changed the session's state, and
  the second asserts the state of the first.
\<close>

theorem lost_handshake_message_aborts:
  assumes "frees_message (pl_data p)" "n_session s = Some x" "2 \<le> s_retry x" "\<not> i_noanswer (n_intf s)"
    and "transmit p s = Inr (Some q, t)" "n_selects t = []" "script_hd True (n_elapsed t)"
  shows "send_payload_opened p s = Inl AssertFailed"
proof -
  obtain n where n: "nat (s_retry x) = Suc (Suc n)" using assms(3)
    by (metis Suc_le_D nat_le_iff numeral_2_eq_2 Suc_le_mono nat_2 nat_mono zero_le)
  have q: "pl_data q = pl_data p"
    using assms(1,5) by (auto simp: transmit_handshake run_simps dest: send_built_data)
  have same: "plus_same s t" by (rule mframeD [OF mframe_transmit assms(5)])
  then obtain y where y: "n_session t = Some y" using assms(2) by (cases "n_session t") (auto simp: plus_same_def)
  have na: "\<not> i_noanswer (n_intf t)" using same assms(4) by (simp add: plus_same_def)
  obtain st where st: "remember_state (pl_data p) = set_session (\<lambda>x. x\<lparr>v_session_state := st\<rparr>)" "st \<noteq> sent_in (pl_data p)"
    using remember_handshake [OF assms(1)] by blast
  have "send_turns (Suc (Suc n)) p True None s = Inl AssertFailed"
    using assms(1,6,7) q y na st
    by (simp add: assms(5) mbind_def mget_def mmod_def mret_def set_session_def plus_session_def send_rest_handshake poll_nothing send_next_def plus_script_def
        transmit_in_other_state)
  then show ?thesis using assms(2) n by (simp add: send_payload_opened_def mbind_def plus_session_def)
qed

definition demo_open_request :: ipmi_v2_payload where
  "demo_open_request = \<lparr>pl_length = 32, pl_data = Open_Session_Request (open_session_msg 0 0xA0A2A3A4 (1, 1, 1))\<rparr>"

lemma demo_transmit:
  "case transmit demo_open_request (demo_plus LANPLUS_STATE_PRESESSION [] []) of
     Inr (Some q, t) \<Rightarrow> n_selects t = [] \<and> n_elapsed t = [] | _ \<Rightarrow> False"
  by code_simp

theorem lost_handshake_message_aborts_witness:
  "send_payload_opened demo_open_request (demo_plus LANPLUS_STATE_PRESESSION [] []) = Inl AssertFailed"
proof -
  let ?s = "demo_plus LANPLUS_STATE_PRESESSION [] []"
  obtain q t where run: "transmit demo_open_request ?s = Inr (Some q, t)" "n_selects t = []" "n_elapsed t = []"
    using demo_transmit by (auto split: sum.splits option.splits)
  obtain x where x: "n_session ?s = Some x" "2 \<le> s_retry x" by (simp add: demo_plus_def)
  show ?thesis
    by (rule lost_handshake_message_aborts [OF _ x _ run(1,2)])
      (simp_all add: run demo_open_request_def frees_message_def demo_plus_def no_oem_intf_def script_hd_def)
qed

section \<open>Characters from the BMC\<close>

text \<open>
  The characters of successive SOL packets that \<open>check_sol_packet_for_new_data\<close> leaves for the terminal.
\<close>

definition sol_bytes :: "v2_rs option \<Rightarrow> bytes" where
  "sol_bytes rsp = (case rsp of None \<Rightarrow> [] | Some r \<Rightarrow> bytes_at (p_data r) 0 (nat (p_data_len r)))"

primrec sol_deliver :: "v2_rs list \<Rightarrow> (lanplus, bytes) machine" where
  "sol_deliver [] = mret []"
| "sol_deliver (r # rs) =
     mbind (check_sol_packet_for_new_data (Some r)) (\<lambda>out. mbind (sol_deliver rs) (\<lambda>d. mret (sol_bytes out @ d)))"

text \<open>A packet with a sequence number and its characters, and what a sequence of such packets says when a packet may be repeated with more characters.\<close>

definition sol_carries :: "u8 \<times> bytes \<Rightarrow> v2_rs \<Rightarrow> bool" where
  "sol_carries pkt r \<longleftrightarrow> is_sol_packet (Some r) \<and> p_payload r ! 0 = fst pkt \<and> fst pkt \<noteq> 0 \<and> length (snd pkt) \<le> 255
     \<and> p_data_len r = int (length (snd pkt)) \<and> take (length (snd pkt)) (p_data r) = snd pkt"

fun last_versions :: "(u8 \<times> bytes) list \<Rightarrow> bytes" where
  "last_versions [] = []"
| "last_versions [(q, d)] = d"
| "last_versions ((q, d) # (q', d') # ps) = (if q = q' then last_versions ((q', d') # ps) else d @ last_versions ((q', d') # ps))"

fun repeats_grow :: "(u8 \<times> bytes) list \<Rightarrow> bool" where
  "repeats_grow ((q, d) # (q', d') # ps) \<longleftrightarrow> (q = q' \<longrightarrow> take (length d) d' = d) \<and> repeats_grow ((q', d') # ps)"
| "repeats_grow _ \<longleftrightarrow> True"

definition sol_seen :: "u8 \<times> bytes \<Rightarrow> lanplus \<Rightarrow> bool" where
  "sol_seen pkt s \<longleftrightarrow> n_last_received_sequence_number s = fst pkt \<and> n_last_received_byte_count s = of_nat (length (snd pkt))"

lemma check_sol_carries:
  assumes "sol_carries (q, d) r" "n_last_received_sequence_number s = q \<Longrightarrow> unat (n_last_received_byte_count s) \<le> length d"
  obtains out t where "check_sol_packet_for_new_data (Some r) s = Inr (Some out, t)" "sol_seen (q, d) t"
    "sol_bytes (Some out) = (if n_last_received_sequence_number s = q then drop (unat (n_last_received_byte_count s)) d else d)"
proof -
  have d: "take (length d) (p_data r) = d" using assms(1) by (simp add: sol_carries_def)
  then have "length d \<le> length (p_data r)" by (metis length_take min.cobounded1)
  with d have mv: "take (length d - c) (take (length d - c) (drop c (p_data r)) @ z) = drop c d" if "c \<le> length d" for c z
    using that by (metis append_eq_conv_conj drop_take length_drop length_take min.absorb2 diff_le_mono)
  define t where "t = s\<lparr>n_last_received_sequence_number := q, n_last_received_byte_count := of_nat (length d)\<rparr>"
  have t: "sol_seen (q, d) (t\<lparr>n_rsp := z\<rparr>)" for z by (simp add: t_def sol_seen_def)
  show ?thesis
  proof (cases "n_last_received_sequence_number s = q \<and> unat (n_last_received_byte_count s) < length d")
    case True
    let ?c = "unat (n_last_received_byte_count s)"
    let ?r = "r\<lparr>p_data_len := int (length d) - int ?c, p_data := memcpy_at (p_data r) 0 (bytes_at (p_data r) ?c (length d - ?c))\<rparr>"
    have "int ?c < int (length d)" using True by (simp only: of_nat_less_iff)
    then have "check_sol_packet_for_new_data (Some r) s = Inr (Some ?r, t\<lparr>n_rsp := ?r\<rparr>)"
      using True assms(1)
      by (simp add: check_sol_packet_for_new_data_def mbind_def mget_def mmod_def mret_def keep_rsp_def Let_def sol_carries_def t_def nat_diff_distrib)
    moreover have "sol_bytes (Some ?r) = drop ?c d"
    proof -
      have "nat (int (length d) - int ?c) = length d - ?c" by (simp only: nat_minus_as_int)
      then have "sol_bytes (Some ?r) = take (length d - ?c) (take (length d - ?c) (drop ?c (p_data r)) @ drop (length (take (length d - ?c) (drop ?c (p_data r)))) (p_data r))"
        by (simp add: sol_bytes_def bytes_at_def memcpy_at_def del: of_nat_unat take_append)
      with mv True show ?thesis by (simp del: take_append)
    qed
    ultimately show ?thesis using that t True by simp
  next
    case False
    let ?r = "if n_last_received_sequence_number s = q then r\<lparr>p_data_len := 0\<rparr> else r"
    have "check_sol_packet_for_new_data (Some r) s = Inr (Some ?r, t\<lparr>n_rsp := ?r\<rparr>)"
      using False assms
      by (auto simp: check_sol_packet_for_new_data_def mbind_def mget_def mmod_def mret_def keep_rsp_def Let_def sol_carries_def t_def simp del: of_nat_unat)
    moreover have "sol_bytes (Some ?r) = (if n_last_received_sequence_number s = q then drop (unat (n_last_received_byte_count s)) d else d)"
      using False assms d by (auto simp: sol_bytes_def bytes_at_def sol_carries_def)
    ultimately show ?thesis using that t by blast
  qed
qed

lemma deliver_step:
  assumes "check_sol_packet_for_new_data (Some r) s = Inr (out, t)" "sol_deliver rs t = Inr (d, u)"
  shows "sol_deliver (r # rs) s = Inr (sol_bytes out @ d, u)"
  using assms by (simp add: mbind_def mret_def)

lemma sol_deliver_after:
  assumes "list_all2 sol_carries ps rs" "repeats_grow (pkt # ps)" "sol_seen pkt s" "length (snd pkt) \<le> 255"
  shows "\<exists>d t. sol_deliver rs s = Inr (d, t) \<and> last_versions (pkt # ps) = snd pkt @ d"
  using assms
proof (induction ps rs arbitrary: pkt s rule: list_all2_induct)
  case Nil
  then show ?case by (cases pkt) (simp add: mret_def)
next
  case (Cons p ps r rs)
  obtain q d where p: "p = (q, d)" by (cases p)
  obtain q0 d0 where p0: "pkt = (q0, d0)" by (cases pkt)
  have seen: "n_last_received_sequence_number s = q0" "unat (n_last_received_byte_count s) = length d0"
    using Cons.prems(2,3) p0 by (auto simp: sol_seen_def unat_of_nat)
  have g: "q0 = q \<Longrightarrow> take (length d0) d = d0" "repeats_grow (p # ps)" using Cons.prems(1) p p0 by auto
  then have "q0 = q \<Longrightarrow> length d0 \<le> length d" by (metis length_take min.cobounded1)
  then obtain out t where c: "check_sol_packet_for_new_data (Some r) s = Inr (Some out, t)" "sol_seen (q, d) t"
    "sol_bytes (Some out) = (if q0 = q then drop (length d0) d else d)"
    using check_sol_carries [of q d r s] Cons.hyps(1) p seen by metis
  have "length d \<le> 255" using Cons.hyps(1) p by (simp add: sol_carries_def)
  then obtain e u where e: "sol_deliver rs t = Inr (e, u)" "last_versions (p # ps) = d @ e"
    using Cons.IH [OF g(2), of t] c(2) p by fastforce
  have "last_versions (pkt # p # ps) = d0 @ sol_bytes (Some out) @ e"
    using e(2) p p0 c(3) g(1) by (auto) (metis append_assoc append_take_drop_id)
  with deliver_step [OF c(1) e(1)] p0 show ?case by auto
qed

text \<open>
  C25. Characters of the serial console reach the terminal once. When the BMC sends SOL packets with sequence numbers, repeating a packet, possibly with more characters, until
  it is acknowledged, and the first number differs from the last one seen, then what \<open>check_sol_packet_for_new_data\<close> hands on is the
  concatenation of the last version of every packet: nothing is printed twice and nothing is lost.
\<close>

theorem sol_characters_delivered_once:
  assumes "list_all2 sol_carries ps rs" "repeats_grow ps" "ps \<noteq> [] \<Longrightarrow> n_last_received_sequence_number s \<noteq> fst (hd ps)"
  shows "\<exists>t. sol_deliver rs s = Inr (last_versions ps, t)"
proof (cases rs)
  case Nil
  then show ?thesis using assms(1) by (simp add: mret_def)
next
  case (Cons r rs')
  then obtain q d ps' where ps: "ps = (q, d) # ps'" and l: "sol_carries (q, d) r" "list_all2 sol_carries ps' rs'"
    using assms(1) by (auto simp: list_all2_Cons2)
  have ne: "n_last_received_sequence_number s \<noteq> q" using assms(3) ps by simp
  obtain out t where c: "check_sol_packet_for_new_data (Some r) s = Inr (Some out, t)" "sol_seen (q, d) t" "sol_bytes (Some out) = d"
    using check_sol_carries [OF l(1), of s] ne by metis
  have "length d \<le> 255" using l(1) by (simp add: sol_carries_def)
  then obtain e u where "sol_deliver rs' t = Inr (e, u)" "last_versions ps = d @ e"
    using sol_deliver_after [OF l(2) _ c(2)] assms(2) ps by auto
  with deliver_step [OF c(1)] c(3) Cons show ?thesis by auto
qed

definition demo_sol_rsp :: "u8 \<Rightarrow> bytes \<Rightarrow> v2_rs" where
  "demo_sol_rsp q d = (demo_packet 0)\<lparr>p_authtype := 6, p_payloadtype := 1, p_payload := q # replicate 59 0, p_data_len := int (length d), p_data := d @ replicate 1000 0\<rparr>"

theorem sol_characters_delivered_once_witness:
  "\<exists>t. sol_deliver [demo_sol_rsp 1 [65, 66], demo_sol_rsp 1 [65, 66, 67], demo_sol_rsp 2 [68]] (demo_plus LANPLUS_STATE_ACTIVE [] [])
     = Inr (last_versions [(1, [65, 66]), (1, [65, 66, 67]), (2, [68])], t)"
  by (rule sol_characters_delivered_once)
    (simp_all add: sol_carries_def demo_sol_rsp_def demo_plus_def is_sol_packet_def)

end
