(* ===== verification/Sdr.thy ===== *)
theory Sdr
  imports Ipmi_Cmd
begin

text \<open>
  The sensor data repository (\<open>lib/ipmi_sdr.c\<close>): reading its records through the interface, the list that caches them, the lookups in
  it, and the transfer to and from a file.

  The state \<open>sdr\<close> holds the state of the transport, the static variables of the file and the environment: which calls of \<open>malloc\<close> succeed, and
  \<open>d_turns\<close>, the number of turns after which the model takes a loop that depends on the BMC for one that does not end (\<open>NoReturn\<close>). The linked list
  from \<open>sdr_list_head\<close> to \<open>sdr_list_tail\<close> is only ever extended at its end and is a list here. A record is the array of its \<open>length + 1\<close> bytes; its
  fields are read at the offsets of the packed structures, and reading behind the array is a fault. Log output and waiting are left out.
\<close>

section \<open>Data\<close>

record sdr_header =
  h_next :: u16
  h_id :: u16
  h_version :: u8
  h_type :: u8
  h_length :: u8

record sdr_iterator =
  t_reservation :: u16
  t_total :: nat
  t_next :: u16

text \<open>An entry of the list: the pointer \<open>raw\<close> and the union of pointers \<open>record\<close>.\<close>

record sdr_entry =
  l_id :: u16
  l_version :: u8
  l_type :: u8
  l_length :: u8
  l_raw :: "bytes option"
  l_record :: "bytes option"

record 's sdr =
  d_bmc :: 's
  d_use_built_in :: bool
  d_max_read :: int
  d_sdriana :: u32
  d_list :: "sdr_entry list"
  d_itr :: "sdr_iterator option"
  d_mallocs :: "bool list"
  d_turns :: nat

abbreviation (input) SDR_RECORD_TYPE_FULL_SENSOR :: u8 where "SDR_RECORD_TYPE_FULL_SENSOR \<equiv> 0x01"
abbreviation (input) SDR_RECORD_TYPE_COMPACT_SENSOR :: u8 where "SDR_RECORD_TYPE_COMPACT_SENSOR \<equiv> 0x02"
abbreviation (input) SDR_RECORD_TYPE_EVENTONLY_SENSOR :: u8 where "SDR_RECORD_TYPE_EVENTONLY_SENSOR \<equiv> 0x03"
abbreviation (input) SDR_RECORD_TYPE_ENTITY_ASSOC :: u8 where "SDR_RECORD_TYPE_ENTITY_ASSOC \<equiv> 0x08"
abbreviation (input) SDR_RECORD_TYPE_GENERIC_DEVICE_LOCATOR :: u8 where "SDR_RECORD_TYPE_GENERIC_DEVICE_LOCATOR \<equiv> 0x10"
abbreviation (input) SDR_RECORD_TYPE_FRU_DEVICE_LOCATOR :: u8 where "SDR_RECORD_TYPE_FRU_DEVICE_LOCATOR \<equiv> 0x11"
abbreviation (input) SDR_RECORD_TYPE_MC_DEVICE_LOCATOR :: u8 where "SDR_RECORD_TYPE_MC_DEVICE_LOCATOR \<equiv> 0x12"

definition sdr_send :: "'s transport \<Rightarrow> ipmi_rq \<Rightarrow> ('s sdr, ipmi_rs option) machine" where
  "sdr_send sr req s = (case sr req (d_bmc s) of Inl e \<Rightarrow> Inl e | Inr (r, b) \<Rightarrow> Inr (r, s\<lparr>d_bmc := b\<rparr>))"

definition sdr_malloc :: "('s sdr, bool) machine" where
  "sdr_malloc s = Inr (script_hd True (d_mallocs s), s\<lparr>d_mallocs := tl (d_mallocs s)\<rparr>)"

section \<open>Commands\<close>

definition sdr_reserve_rq :: "bool \<Rightarrow> ipmi_rq" where
  "sdr_reserve_rq built_in = ipmi_request (if built_in then 0x04 else 0x0a) 0x22 []"

definition sdr_get_rq :: "bool \<Rightarrow> u16 \<Rightarrow> u16 \<Rightarrow> u8 \<Rightarrow> u8 \<Rightarrow> ipmi_rq" where
  "sdr_get_rq built_in reserve_id rid offset len =
     ipmi_request (if built_in then 0x04 else 0x0a) (if built_in then 0x21 else 0x23) (le16 reserve_id @ le16 rid @ [offset, len])"

definition ipmi_sdr_get_sensor_thresholds :: "'s transport \<Rightarrow> u8 \<Rightarrow> ('s, ipmi_rs option) machine" where
  "ipmi_sdr_get_sensor_thresholds sr sensor = sr (ipmi_request 0x04 0x27 [sensor])"

definition ipmi_sdr_get_sensor_hysteresis :: "'s transport \<Rightarrow> u8 \<Rightarrow> ('s, ipmi_rs option) machine" where
  "ipmi_sdr_get_sensor_hysteresis sr sensor = sr (ipmi_request 0x04 0x25 [sensor, 0xff])"

definition ipmi_sdr_get_sensor_reading :: "'s transport \<Rightarrow> u8 \<Rightarrow> ('s, ipmi_rs option) machine" where
  "ipmi_sdr_get_sensor_reading sr sensor = sr (ipmi_request 0x04 0x2d [sensor])"

definition ipmi_sdr_get_sensor_event_status :: "'s transport \<Rightarrow> u8 \<Rightarrow> ('s, ipmi_rs option) machine" where
  "ipmi_sdr_get_sensor_event_status sr sensor = sr (ipmi_request 0x04 0x2b [sensor])"

definition ipmi_sdr_get_sensor_event_enable :: "'s transport \<Rightarrow> u8 \<Rightarrow> ('s, ipmi_rs option) machine" where
  "ipmi_sdr_get_sensor_event_enable sr sensor = sr (ipmi_request 0x04 0x29 [sensor])"

text \<open>\<open>ipmi_sdr_get_reservation\<close>: None for the return value -1, otherwise the reservation that it stores.\<close>

definition ipmi_sdr_get_reservation :: "'s transport \<Rightarrow> ('s sdr, u16 option) machine" where
  "ipmi_sdr_get_reservation sr =
     mbind (mget d_use_built_in) (\<lambda>b.
     mbind (sdr_send sr (sdr_reserve_rq b)) (\<lambda>rsp.
     case rsp of None \<Rightarrow> mret None
     | Some r \<Rightarrow> mret (if r_ccode r > 0 then None else Some (of_le16 (r_data r)))))"

text \<open>
  \<open>ipmi_sdr_start\<close>. The completion code of Get Device ID is not looked at. With device SDRs the number of records is
  one byte.
\<close>

definition ipmi_sdr_start :: "'s transport \<Rightarrow> ('s sdr, sdr_iterator option) machine" where
  "ipmi_sdr_start sr =
     mbind sdr_malloc (\<lambda>ok.
     if \<not> ok then mret None
     else
       mbind (sdr_send sr (ipmi_request 0x06 0x01 [])) (\<lambda>rsp.
       case rsp of None \<Rightarrow> mret None
       | Some r \<Rightarrow>
           let d = r_data r; device_sdrs = d ! 1 AND 0x80 \<noteq> 0 \<and> d ! 5 AND 0x02 = 0
           in
           mbind (mmod (\<lambda>s. s\<lparr>d_sdriana := push_bit 16 (ucast (d ! 8 AND 0x0F)) OR push_bit 8 (ucast (d ! 7)) OR ucast (d ! 6)\<rparr>)) (\<lambda>_.
           if device_sdrs \<and> d ! 5 AND 0x01 = 0 then mret None
           else
             mbind (if device_sdrs then mmod (\<lambda>s. s\<lparr>d_use_built_in := True\<rparr>) else mret ()) (\<lambda>_.
             mbind (mget d_use_built_in) (\<lambda>b.
             mbind (sdr_send sr (if b then ipmi_request 0x04 0x20 [] else ipmi_request 0x0a 0x20 [])) (\<lambda>rsp.
             case rsp of None \<Rightarrow> mret None
             | Some r \<Rightarrow>
                 if r_ccode r > 0 \<or> b \<and> r_data_len r = 0 then mret None
                 else
                   mbind (ipmi_sdr_get_reservation sr) (\<lambda>res.
                   mret (case res of None \<Rightarrow> None
                         | Some v \<Rightarrow> Some \<lparr>t_reservation = v,
                             t_total = (if b then unat (r_data r ! 0) else unat (of_le16 (bytes_at (r_data r) 1 2))), t_next = 0\<rparr>))))))))"

section \<open>Headers\<close>

text \<open>
  The five tries of \<open>ipmi_sdr_get_header\<close>: None for a return of NULL from inside the loop, otherwise the response of the last try and the
  iterator.
\<close>

primrec get_header_tries :: "nat \<Rightarrow> 's transport \<Rightarrow> ipmi_rs option \<Rightarrow> sdr_iterator \<Rightarrow> ('s sdr, ipmi_rs option option \<times> sdr_iterator) machine" where
  "get_header_tries 0 sr rsp itr = mret (Some rsp, itr)"
| "get_header_tries (Suc n) sr rsp itr =
     mbind (mget d_use_built_in) (\<lambda>b.
     mbind (sdr_send sr (sdr_get_rq b (t_reservation itr) (t_next itr) 0 5)) (\<lambda>rsp.
     case rsp of None \<Rightarrow> get_header_tries n sr rsp itr
     | Some r \<Rightarrow>
         if r_ccode r = 0xc5 then
           mbind (ipmi_sdr_get_reservation sr) (\<lambda>res.
           case res of None \<Rightarrow> mret (None, itr)
           | Some v \<Rightarrow> get_header_tries n sr rsp (itr\<lparr>t_reservation := v\<rparr>))
         else if r_ccode r > 0 then get_header_tries n sr rsp itr
         else mret (Some rsp, itr)))"

text \<open>
  \<open>ipmi_sdr_get_header\<close>: after the last try its response is used whatever its completion code is. The record id is replaced by the one
  that was asked for.
\<close>

definition ipmi_sdr_get_header :: "'s transport \<Rightarrow> sdr_iterator \<Rightarrow> ('s sdr, sdr_header option \<times> sdr_iterator) machine" where
  "ipmi_sdr_get_header sr itr =
     mbind (get_header_tries 5 sr None itr) (\<lambda>(rsp, itr).
     case rsp of None \<Rightarrow> mret (None, itr)
     | Some None \<Rightarrow> mret (None, itr)
     | Some (Some r) \<Rightarrow>
         let d = r_data r
         in mret (if d ! 6 = 0 then None
                  else Some \<lparr>h_next = of_le16 d, h_id = t_next itr, h_version = d ! 4, h_type = d ! 5, h_length = d ! 6\<rparr>, itr))"

definition ipmi_sdr_get_next_header :: "'s transport \<Rightarrow> sdr_iterator \<Rightarrow> ('s sdr, sdr_header option \<times> sdr_iterator) machine" where
  "ipmi_sdr_get_next_header sr itr =
     (if t_next itr = 0xffff then mret (None, itr)
      else
        mbind (ipmi_sdr_get_header sr itr) (\<lambda>(header, itr).
        mret (case header of None \<Rightarrow> (None, itr) | Some h \<Rightarrow> (Some h, itr\<lparr>t_next := h_next h\<rparr>))))"

section \<open>Records\<close>

text \<open>
  The loop of \<open>ipmi_sdr_get_record\<close>: the data, or None for a return of NULL, and the iterator. \<open>sdr_max_read_len\<close> is an \<open>int\<close> that each refusal
  halves and lowers by one, so that it may reach zero and less.
\<close>

primrec get_record_loop :: "nat \<Rightarrow> 's transport \<Rightarrow> u16 \<Rightarrow> nat \<Rightarrow> sdr_iterator \<Rightarrow> int \<Rightarrow> bytes \<Rightarrow> ('s sdr, bytes option \<times> sdr_iterator) machine" where
  "get_record_loop 0 sr rid len itr i data = (if i < int len then mfail NoReturn else mret (Some data, itr))"
| "get_record_loop (Suc n) sr rid len itr i data =
     (if i < int len then
        mbind (mget (\<lambda>s. (d_use_built_in s, d_max_read s))) (\<lambda>(b, m).
        let k = of_int (if int len - i < m then int len - i else m) :: u8
        in
        mbind (sdr_send sr (sdr_get_rq b (t_reservation itr) rid (of_int (i + 5)) k)) (\<lambda>rsp.
        case rsp of None \<Rightarrow> mret (None, itr)
        | Some r \<Rightarrow>
            if r_ccode r = 0xca then
              mbind (mmod (\<lambda>s. s\<lparr>d_max_read := m div 2 - 1\<rparr>)) (\<lambda>_. get_record_loop n sr rid len itr i data)
            else if r_ccode r = 0xc5 then
              mbind (ipmi_sdr_get_reservation sr) (\<lambda>res.
              case res of None \<Rightarrow> mret (None, itr)
              | Some v \<Rightarrow> get_record_loop n sr rid len (itr\<lparr>t_reservation := v\<rparr>) i data)
            else if r_ccode r > 0 \<or> r_data_len r = 0 then mret (None, itr)
            else if i < 0 \<or> nat i + unat k > length data then mfail BufferOverflow
            else get_record_loop n sr rid len itr (i + m) (memcpy_at data (nat i) (bytes_at (r_data r) 2 (unat k)))))
      else mret (Some data, itr))"

definition ipmi_sdr_get_record :: "'s transport \<Rightarrow> sdr_header \<Rightarrow> sdr_iterator \<Rightarrow> ('s sdr, bytes option \<times> sdr_iterator) machine" where
  "ipmi_sdr_get_record sr header itr =
     (let len = unat (h_length header)
      in if len < 1 then mret (None, itr)
         else
           mbind sdr_malloc (\<lambda>ok.
           if \<not> ok then mret (None, itr)
           else
             mbind (mget d_turns) (\<lambda>n.
             get_record_loop n sr (h_id header) len itr 0 (replicate (len + 1) 0))))"

section \<open>The list\<close>

definition is_known_type :: "u8 \<Rightarrow> bool" where
  "is_known_type ty \<longleftrightarrow> ty \<in> {SDR_RECORD_TYPE_FULL_SENSOR, SDR_RECORD_TYPE_COMPACT_SENSOR, SDR_RECORD_TYPE_EVENTONLY_SENSOR, SDR_RECORD_TYPE_ENTITY_ASSOC,
     SDR_RECORD_TYPE_GENERIC_DEVICE_LOCATOR, SDR_RECORD_TYPE_FRU_DEVICE_LOCATOR, SDR_RECORD_TYPE_MC_DEVICE_LOCATOR}"

definition zero_entry :: sdr_entry where
  "zero_entry = \<lparr>l_id = 0, l_version = 0, l_type = 0, l_length = 0, l_raw = None, l_record = None\<rparr>"

definition list_append :: "sdr_entry \<Rightarrow> ('s sdr, unit) machine" where
  "list_append e = mmod (\<lambda>s. s\<lparr>d_list := d_list s @ [e]\<rparr>)"

text \<open>\<open>__sdr_list_add\<close> copies an entry behind the others; its callers do not look at its return value.\<close>

definition sdr_list_add :: "sdr_entry list \<Rightarrow> sdr_entry \<Rightarrow> ('s sdr, sdr_entry list) machine" where
  "sdr_list_add head e = mbind sdr_malloc (\<lambda>ok. mret (if ok then head @ [e] else head))"

definition ipmi_sdr_list_empty :: "('s sdr, unit) machine" where
  "ipmi_sdr_list_empty = mmod (\<lambda>s. s\<lparr>d_list := [], d_itr := None\<rparr>)"

text \<open>The beginning of every lookup: the iterator \<open>sdr_list_itr\<close>, started if there is none.\<close>

definition list_start :: "'s transport \<Rightarrow> ('s sdr, sdr_iterator option) machine" where
  "list_start sr =
     mbind (mget d_itr) (\<lambda>itr.
     case itr of
       Some i \<Rightarrow> mret (Some i)
     | None \<Rightarrow>
         mbind (ipmi_sdr_start sr) (\<lambda>itr.
         mbind (mmod (\<lambda>s. s\<lparr>d_itr := itr\<rparr>)) (\<lambda>_. mret itr)))"

text \<open>
  The loop "now keep looking" that the five lookups and \<open>ipmi_sdr_list_cache\<close> have in common: read the next record, skip it if it cannot be read or
  is of no known type, and append it to the list. \<open>visit\<close> is what the function at hand does with the new entry before it is appended: it
  returns whether to stop, and its own result so far. A failing \<open>malloc\<close> ends the loop.
\<close>

definition next_record :: "'s transport \<Rightarrow> ('s sdr, (sdr_header \<times> bytes option) option) machine" where
  "next_record sr =
     mbind (mget d_itr) (\<lambda>itr.
     case itr of None \<Rightarrow> mfail NullPointer
     | Some itr \<Rightarrow>
         mbind (ipmi_sdr_get_next_header sr itr) (\<lambda>(header, itr).
         mbind (mmod (\<lambda>s. s\<lparr>d_itr := Some itr\<rparr>)) (\<lambda>_.
         case header of None \<Rightarrow> mret None
         | Some h \<Rightarrow>
             mbind sdr_malloc (\<lambda>ok.
             if \<not> ok then mret None
             else
               mbind (ipmi_sdr_get_record sr h itr) (\<lambda>(rec, itr).
               mbind (mmod (\<lambda>s. s\<lparr>d_itr := Some itr\<rparr>)) (\<lambda>_. mret (Some (h, rec))))))))"

definition entry_of :: "sdr_header \<Rightarrow> bytes \<Rightarrow> sdr_entry" where
  "entry_of h rec = zero_entry\<lparr>l_id := h_id h, l_type := h_type h, l_record := Some rec\<rparr>"

primrec sdr_list_loop :: "nat \<Rightarrow> 's transport \<Rightarrow> ('r \<Rightarrow> sdr_entry \<Rightarrow> ('s sdr, bool \<times> 'r) machine) \<Rightarrow> 'r \<Rightarrow> ('s sdr, 'r) machine" where
  "sdr_list_loop 0 sr visit acc = mfail NoReturn"
| "sdr_list_loop (Suc n) sr visit acc =
     mbind (next_record sr) (\<lambda>nr.
     case nr of None \<Rightarrow> mret acc
     | Some (h, None) \<Rightarrow> sdr_list_loop n sr visit acc
     | Some (h, Some rec) \<Rightarrow>
         if \<not> is_known_type (h_type h) then sdr_list_loop n sr visit acc
         else
           mbind (visit acc (entry_of h rec)) (\<lambda>(stop, acc).
           mbind (list_append (entry_of h rec)) (\<lambda>_.
           if stop then mret acc else sdr_list_loop n sr visit acc)))"

definition keep_looking :: "'s transport \<Rightarrow> ('r \<Rightarrow> sdr_entry \<Rightarrow> ('s sdr, bool \<times> 'r) machine) \<Rightarrow> 'r \<Rightarrow> ('s sdr, 'r) machine" where
  "keep_looking sr visit acc = mbind (mget d_turns) (\<lambda>n. sdr_list_loop n sr visit acc)"

definition ipmi_sdr_list_cache :: "'s transport \<Rightarrow> ('s sdr, int) machine" where
  "ipmi_sdr_list_cache sr =
     mbind (list_start sr) (\<lambda>itr.
     if itr = None then mret (-1)
     else mbind (keep_looking sr (\<lambda>_ _. mret (False, ())) ()) (\<lambda>_. mret 0))"

section \<open>Fields of records\<close>

definition rec_byte :: "sdr_entry \<Rightarrow> nat \<Rightarrow> fault + u8" where
  "rec_byte e off =
     (case l_record e of None \<Rightarrow> Inl NullPointer
      | Some rec \<Rightarrow> if off < length rec then Inr (rec ! off) else Inl OutOfBounds)"

text \<open>Offsets in the packed structures: \<open>sensor.type\<close> or \<open>sensor_type\<close>, \<open>entity\<close>, \<open>id_code\<close> and \<open>id_string\<close> behind it.\<close>

definition sensor_type_off :: "u8 \<Rightarrow> nat option" where
  "sensor_type_off ty =
     (if ty = SDR_RECORD_TYPE_FULL_SENSOR \<or> ty = SDR_RECORD_TYPE_COMPACT_SENSOR then Some 7
      else if ty = SDR_RECORD_TYPE_EVENTONLY_SENSOR then Some 5 else None)"

definition entity_off :: "u8 \<Rightarrow> nat option" where
  "entity_off ty =
     (if ty = SDR_RECORD_TYPE_FULL_SENSOR \<or> ty = SDR_RECORD_TYPE_COMPACT_SENSOR \<or> ty = SDR_RECORD_TYPE_EVENTONLY_SENSOR then Some 3
      else if ty = SDR_RECORD_TYPE_GENERIC_DEVICE_LOCATOR \<or> ty = SDR_RECORD_TYPE_FRU_DEVICE_LOCATOR \<or> ty = SDR_RECORD_TYPE_MC_DEVICE_LOCATOR then Some 7
      else if ty = SDR_RECORD_TYPE_ENTITY_ASSOC then Some 0 else None)"

definition id_code_off :: "u8 \<Rightarrow> nat option" where
  "id_code_off ty =
     (if ty = SDR_RECORD_TYPE_FULL_SENSOR then Some 42
      else if ty = SDR_RECORD_TYPE_COMPACT_SENSOR then Some 26
      else if ty = SDR_RECORD_TYPE_EVENTONLY_SENSOR then Some 11
      else if ty = SDR_RECORD_TYPE_GENERIC_DEVICE_LOCATOR \<or> ty = SDR_RECORD_TYPE_FRU_DEVICE_LOCATOR \<or> ty = SDR_RECORD_TYPE_MC_DEVICE_LOCATOR then Some 10
      else None)"

definition both :: "fault + bool \<Rightarrow> fault + bool \<Rightarrow> fault + bool" where
  "both a b = (case a of Inl e \<Rightarrow> Inl e | Inr False \<Rightarrow> Inr False | Inr True \<Rightarrow> b)"

definition byte_is :: "sdr_entry \<Rightarrow> nat \<Rightarrow> (u8 \<Rightarrow> bool) \<Rightarrow> fault + bool" where
  "byte_is e off P = (case rec_byte e off of Inl f \<Rightarrow> Inl f | Inr b \<Rightarrow> Inr (P b))"

definition match_numtype :: "u8 \<Rightarrow> u8 \<Rightarrow> sdr_entry \<Rightarrow> fault + bool" where
  "match_numtype num ty e =
     (case sensor_type_off (l_type e) of None \<Rightarrow> Inr False
      | Some off \<Rightarrow> both (byte_is e 2 (\<lambda>b. b = num)) (byte_is e off (\<lambda>b. b = ty)))"

definition match_sensortype :: "u8 \<Rightarrow> sdr_entry \<Rightarrow> fault + bool" where
  "match_sensortype ty e = (case sensor_type_off (l_type e) of None \<Rightarrow> Inr False | Some off \<Rightarrow> byte_is e off (\<lambda>b. b = ty))"

text \<open>An entity is its id and its 7-bit instance; instance 7f stands for every instance.\<close>

definition match_entity :: "u8 \<Rightarrow> u8 \<Rightarrow> sdr_entry \<Rightarrow> fault + bool" where
  "match_entity eid inst e =
     (case entity_off (l_type e) of None \<Rightarrow> Inr False
      | Some off \<Rightarrow>
          both (byte_is e off (\<lambda>b. b = eid)) (if inst = 0x7f then Inr True else byte_is e (off + 1) (\<lambda>b. b AND 0x7f = inst)))"

definition match_type :: "u8 \<Rightarrow> sdr_entry \<Rightarrow> fault + bool" where
  "match_type ty e = Inr (l_type e = ty)"

text \<open>\<open>strncmp\<close> for equality, on what the two pointers point into.\<close>

fun strncmp_bytes :: "nat \<Rightarrow> bytes \<Rightarrow> bytes \<Rightarrow> fault + bool" where
  "strncmp_bytes 0 a b = Inr True"
| "strncmp_bytes (Suc n) (x # a) (y # b) = (if x \<noteq> y then Inr False else if x = 0 then Inr True else strncmp_bytes n a b)"
| "strncmp_bytes (Suc n) a b = Inl OutOfBounds"

definition match_id :: "bytes \<Rightarrow> sdr_entry \<Rightarrow> fault + bool" where
  "match_id name e =
     (case id_code_off (l_type e) of None \<Rightarrow> Inr False
      | Some off \<Rightarrow>
          (case rec_byte e off of Inl f \<Rightarrow> Inl f
           | Inr code \<Rightarrow> strncmp_bytes (max (unat (code AND 0x1f)) (length name)) (drop (off + 1) (the (l_record e))) (name @ [0])))"

section \<open>Lookups\<close>

text \<open>The first match among what has been read, and all matches, copied by \<open>__sdr_list_add\<close>.\<close>

fun first_match :: "(sdr_entry \<Rightarrow> fault + bool) \<Rightarrow> sdr_entry list \<Rightarrow> fault + sdr_entry option" where
  "first_match m [] = Inr None"
| "first_match m (e # es) = (case m e of Inl f \<Rightarrow> Inl f | Inr True \<Rightarrow> Inr (Some e) | Inr False \<Rightarrow> first_match m es)"

fun add_matches :: "(sdr_entry \<Rightarrow> fault + bool) \<Rightarrow> sdr_entry list \<Rightarrow> sdr_entry list \<Rightarrow> ('s sdr, sdr_entry list) machine" where
  "add_matches m head [] = mret head"
| "add_matches m head (e # es) =
     mbind (lift_fault (m e)) (\<lambda>ok.
     mbind (if ok then sdr_list_add head e else mret head) (\<lambda>head. add_matches m head es))"

definition find_one :: "'s transport \<Rightarrow> (sdr_entry \<Rightarrow> fault + bool) \<Rightarrow> ('s sdr, sdr_entry option) machine" where
  "find_one sr m =
     mbind (list_start sr) (\<lambda>itr.
     if itr = None then mret None
     else
       mbind (mget d_list) (\<lambda>list.
       mbind (lift_fault (first_match m list)) (\<lambda>found.
       if found \<noteq> None then mret found
       else keep_looking sr (\<lambda>acc e. mbind (lift_fault (m e)) (\<lambda>ok. mret (ok, if ok then Some e else acc))) None)))"

text \<open>The head of the list that is returned is an entry without a record; the result is None if there is none.\<close>

definition find_all :: "'s transport \<Rightarrow> (sdr_entry \<Rightarrow> fault + bool) \<Rightarrow> ('s sdr, sdr_entry list option) machine" where
  "find_all sr m =
     mbind sdr_malloc (\<lambda>ok.
     if \<not> ok then mret None
     else
       mbind (list_start sr) (\<lambda>itr.
       if itr = None then mret None
       else
         mbind (mget d_list) (\<lambda>list.
         mbind (add_matches m [zero_entry] list) (\<lambda>head.
         mbind (keep_looking sr (\<lambda>acc e. mbind (lift_fault (m e)) (\<lambda>ok. if ok then mbind (sdr_list_add acc e) (\<lambda>acc. mret (False, acc)) else mret (False, acc))) head)
           (\<lambda>head. mret (Some head))))))"

definition ipmi_sdr_find_sdr_bynumtype :: "'s transport \<Rightarrow> u8 \<Rightarrow> u8 \<Rightarrow> ('s sdr, sdr_entry option) machine" where
  "ipmi_sdr_find_sdr_bynumtype sr num ty = find_one sr (match_numtype num ty)"

definition ipmi_sdr_find_sdr_byid :: "'s transport \<Rightarrow> bytes option \<Rightarrow> ('s sdr, sdr_entry option) machine" where
  "ipmi_sdr_find_sdr_byid sr name = (case name of None \<Rightarrow> mret None | Some n \<Rightarrow> find_one sr (match_id n))"

definition ipmi_sdr_find_sdr_bysensortype :: "'s transport \<Rightarrow> u8 \<Rightarrow> ('s sdr, sdr_entry list option) machine" where
  "ipmi_sdr_find_sdr_bysensortype sr ty = find_all sr (match_sensortype ty)"

definition ipmi_sdr_find_sdr_byentity :: "'s transport \<Rightarrow> u8 \<Rightarrow> u8 \<Rightarrow> ('s sdr, sdr_entry list option) machine" where
  "ipmi_sdr_find_sdr_byentity sr eid inst = find_all sr (match_entity eid inst)"

definition ipmi_sdr_find_sdr_bytype :: "'s transport \<Rightarrow> u8 \<Rightarrow> ('s sdr, sdr_entry list option) machine" where
  "ipmi_sdr_find_sdr_bytype sr ty = find_all sr (match_type ty)"

section \<open>Files\<close>

text \<open>
  \<open>ipmi_sdr_dump_bin\<close>: the return value and the contents of the file, given whether it can be opened and which calls of \<open>fwrite\<close>
  write all they are given; what a failing one writes is left out. Entries that were in the list before have no \<open>raw\<close> data.
\<close>

primrec dump_loop :: "nat \<Rightarrow> 's transport \<Rightarrow> sdr_iterator \<Rightarrow> ('s sdr, bool) machine" where
  "dump_loop 0 sr itr = mfail NoReturn"
| "dump_loop (Suc n) sr itr =
     mbind (ipmi_sdr_get_next_header sr itr) (\<lambda>(header, itr).
     case header of None \<Rightarrow> mret True
     | Some h \<Rightarrow>
         mbind sdr_malloc (\<lambda>ok.
         if \<not> ok then mret False
         else
           mbind (ipmi_sdr_get_record sr h itr) (\<lambda>(rec, itr).
           mbind (list_append (zero_entry\<lparr>l_id := h_id h, l_version := h_version h, l_type := h_type h, l_length := h_length h, l_raw := rec\<rparr>)) (\<lambda>_.
           dump_loop n sr itr))))"

definition dump_header :: "sdr_entry \<Rightarrow> bytes" where
  "dump_header e = le16 (l_id e) @ [l_version e, l_type e, l_length e]"

fun dump_write :: "bool list \<Rightarrow> sdr_entry list \<Rightarrow> fault + int \<times> bytes" where
  "dump_write disk [] = Inr (0, [])"
| "dump_write disk (e # es) =
     (if \<not> script_hd True disk then Inr (-1, [])
      else case l_raw e of
             None \<Rightarrow> Inl NullPointer
           | Some raw \<Rightarrow>
               if unat (l_length e) > length raw then Inl OutOfBounds
               else if \<not> script_hd True (tl disk) then Inr (-1, dump_header e)
               else case dump_write (tl (tl disk)) es of
                      Inl f \<Rightarrow> Inl f
                    | Inr (rc, out) \<Rightarrow> Inr (rc, dump_header e @ take (unat (l_length e)) raw @ out))"

definition ipmi_sdr_dump_bin :: "'s transport \<Rightarrow> bool \<Rightarrow> bool list \<Rightarrow> ('s sdr, int \<times> bytes) machine" where
  "ipmi_sdr_dump_bin sr opened disk =
     mbind (ipmi_sdr_start sr) (\<lambda>itr.
     case itr of None \<Rightarrow> mret (-1, [])
     | Some itr \<Rightarrow>
         mbind (mget d_turns) (\<lambda>n.
         mbind (dump_loop n sr itr) (\<lambda>ok.
         if \<not> ok \<or> \<not> opened then mret (-1, [])
         else mbind (mget d_list) (\<lambda>list. lift_fault (dump_write disk list)))))"

text \<open>
  The loop of \<open>ipmi_sdr_list_cache_fromfile\<close> on what is left of the file: the return value and the number of records.
\<close>

definition known_version :: "u8 \<Rightarrow> bool" where
  "known_version v \<longleftrightarrow> v = 0x51 \<or> v = 0x01 \<or> v = 0x02"

function fromfile_loop :: "bytes \<Rightarrow> nat \<Rightarrow> ('s sdr, int \<times> nat) machine" where
  "fromfile_loop file count =
     (if file = [] then mret (0, count)
      else if length file < 5 then mret (-1, count)
      else
        let len = unat (file ! 4); rest = drop 5 file
        in if len = 0 then fromfile_loop rest count
           else if \<not> known_version (file ! 2) then mret (-1, count)
           else
             mbind sdr_malloc (\<lambda>ok.
             if \<not> ok then mret (-1, count)
             else
               mbind sdr_malloc (\<lambda>ok.
               if \<not> ok \<or> length rest < len then mret (-1, count)
               else if \<not> is_known_type (file ! 3) then fromfile_loop (drop len rest) count
               else
                 mbind (list_append (zero_entry\<lparr>l_id := of_le16 file, l_type := file ! 3, l_record := Some (take len rest @ [0])\<rparr>)) (\<lambda>_.
                 fromfile_loop (drop len rest) (count + 1)))))"
  by pat_completeness auto
termination
  by (relation "measure (\<lambda>(file, count). length file)") auto

declare fromfile_loop.simps [simp del]

definition ipmi_sdr_list_cache_fromfile :: "bytes option \<Rightarrow> ('s sdr, int) machine" where
  "ipmi_sdr_list_cache_fromfile file =
     (case file of None \<Rightarrow> mret (-1)
      | Some f \<Rightarrow>
          mbind (fromfile_loop f 0) (\<lambda>(ret, count).
          mbind (mget d_itr) (\<lambda>itr.
          mbind (if itr = None then mbind sdr_malloc (\<lambda>ok. if ok then mmod (\<lambda>s. s\<lparr>d_itr := Some \<lparr>t_reservation = 0, t_total = count, t_next = 0xffff\<rparr>\<rparr>) else mret ())
                 else mret ()) (\<lambda>_. mret ret))))"

end
