(* ===== verification/Sdr_Repository.thy ===== *)
theory Sdr_Repository
  imports Sdr
begin

text \<open>
  The repository of a BMC that does what the specification says, and what the reading, caching and looking up of records make of it.
\<close>

section \<open>A repository\<close>

record sdr_rec =
  g_id :: u16
  g_version :: u8
  g_type :: u8
  g_data :: bytes

definition rec_bytes :: "sdr_rec \<Rightarrow> bytes" where
  "rec_bytes r = le16 (g_id r) @ [g_version r, g_type r, of_nat (length (g_data r))] @ g_data r"

text \<open>The id by which a record is asked for: the first record has the id 0, the end is marked by \<open>ffff\<close>.\<close>

definition handle :: "sdr_rec list \<Rightarrow> nat \<Rightarrow> u16" where
  "handle rs i = (if i = 0 then 0 else if i < length rs then g_id (rs ! i) else 0xffff)"

definition repo_ok :: "sdr_rec list \<Rightarrow> bool" where
  "repo_ok rs \<longleftrightarrow> rs \<noteq> [] \<and> (\<forall>r \<in> set rs. 0 < length (g_data r) \<and> length (g_data r) \<le> 250) \<and> (\<forall>i < length rs. handle rs i \<noteq> 0xffff)"

text \<open>
  \<open>sdr_device sr rs cur canc maxn\<close>: the BMC behind \<open>sr\<close> holds the records \<open>rs\<close>. \<open>cur\<close> is its current reservation; a read with that reservation is answered
  with the bytes, or with the completion code \<open>ca\<close> if it asks for more than \<open>maxn\<close>, or finds the reservation cancelled, which happens at
  most \<open>canc\<close> more times. Nothing is said about reads with any other reservation.
\<close>

definition get_answer :: "sdr_rec list \<Rightarrow> nat \<Rightarrow> nat \<Rightarrow> nat \<Rightarrow> nat \<Rightarrow> ipmi_rs \<Rightarrow> bool" where
  "get_answer rs maxn i off n r \<longleftrightarrow>
     (if n \<le> maxn then r_ccode r = 0 \<and> r_data_len r \<noteq> 0 \<and> length (r_data r) = 1024
        \<and> take (n + 2) (r_data r) = le16 (handle rs (Suc i)) @ bytes_at (rec_bytes (rs ! i)) off n
      else r_ccode r = 0xca)"

definition sdr_device :: "'s transport \<Rightarrow> sdr_rec list \<Rightarrow> ('s \<Rightarrow> u16) \<Rightarrow> ('s \<Rightarrow> nat) \<Rightarrow> nat \<Rightarrow> bool" where
  "sdr_device sr rs cur canc maxn \<longleftrightarrow>
     (\<forall>s. \<exists>r t. sr (ipmi_request 0x06 0x01 []) s = Inr (Some r, t) \<and> canc t \<le> canc s \<and> \<not> (r_data r ! 1 AND 0x80 \<noteq> 0 \<and> r_data r ! 5 AND 0x02 = 0)) \<and>
     (\<forall>s. \<exists>r t. sr (ipmi_request 0x0a 0x20 []) s = Inr (Some r, t) \<and> canc t \<le> canc s \<and> r_ccode r = 0) \<and>
     (\<forall>s. \<exists>r t. sr (sdr_reserve_rq False) s = Inr (Some r, t) \<and> canc t \<le> canc s \<and> r_ccode r = 0 \<and> of_le16 (r_data r) = cur t) \<and>
     (\<forall>s i off n. i < length rs \<and> off + n \<le> length (rec_bytes (rs ! i)) \<and> 0 < n \<longrightarrow>
        (\<exists>r t. sr (sdr_get_rq False (cur s) (handle rs i) (of_nat off) (of_nat n)) s = Inr (Some r, t) \<and>
           (r_ccode r = 0xc5 \<and> canc t < canc s \<or> cur t = cur s \<and> canc t \<le> canc s \<and> get_answer rs maxn i off n r)))"

text \<open>What the list holds for record \<open>i\<close>, and for the first \<open>k\<close> records.\<close>

definition header_of :: "sdr_rec list \<Rightarrow> nat \<Rightarrow> sdr_header" where
  "header_of rs i = \<lparr>h_next = handle rs (Suc i), h_id = handle rs i, h_version = g_version (rs ! i), h_type = g_type (rs ! i),
     h_length = of_nat (length (g_data (rs ! i)))\<rparr>"

definition entry_at :: "sdr_rec list \<Rightarrow> nat \<Rightarrow> sdr_entry" where
  "entry_at rs i = entry_of (header_of rs i) (g_data (rs ! i) @ [0])"

definition entries :: "sdr_rec list \<Rightarrow> nat \<Rightarrow> nat \<Rightarrow> sdr_entry list" where
  "entries rs j k = map (entry_at rs) (filter (\<lambda>i. is_known_type (g_type (rs ! i))) [j..<k])"

text \<open>A state in which reading works: records from the repository, memory, enough turns, a sensible read size.\<close>

definition sdr_ready :: "('s \<Rightarrow> nat) \<Rightarrow> nat \<Rightarrow> 's sdr \<Rightarrow> bool" where
  "sdr_ready canc len s \<longleftrightarrow> \<not> d_use_built_in s \<and> 2 \<le> d_max_read s \<and> d_max_read s \<le> 255 \<and> d_mallocs s = [] \<and> canc (d_bmc s) < 5 \<and> 520 + len \<le> d_turns s"

section \<open>One record\<close>

lemma repo_record:
  assumes "repo_ok rs" "i < length rs"
  shows "0 < length (g_data (rs ! i))" "length (g_data (rs ! i)) \<le> 250" "unat (of_nat (length (g_data (rs ! i))) :: u8) = length (g_data (rs ! i))"
proof -
  show l: "0 < length (g_data (rs ! i))" "length (g_data (rs ! i)) \<le> 250" using assms by (auto simp: repo_ok_def)
  then show "unat (of_nat (length (g_data (rs ! i))) :: u8) = length (g_data (rs ! i))" by (simp add: unat_of_nat)
qed

lemma length_rec_bytes: "length (rec_bytes r) = 5 + length (g_data r)"
  by (simp add: rec_bytes_def)

lemma rec_bytes_tail: "bytes_at (rec_bytes r) (i + 5) n = bytes_at (g_data r) i n"
proof -
  have "drop 5 (rec_bytes r) = g_data r" by (simp add: rec_bytes_def le16_def)
  then show ?thesis by (metis bytes_at_def drop_drop)
qed

lemma device_reserve:
  assumes "sdr_device sr rs cur canc maxn" "\<not> d_use_built_in s"
  obtains b where "ipmi_sdr_get_reservation sr s = Inr (Some (cur b), s\<lparr>d_bmc := b\<rparr>)" "canc b \<le> canc (d_bmc s)"
proof -
  obtain r b where "sr (sdr_reserve_rq False) (d_bmc s) = Inr (Some r, b)" "canc b \<le> canc (d_bmc s)" "r_ccode r = 0" "of_le16 (r_data r) = cur b"
    using assms(1) unfolding sdr_device_def by blast
  with assms(2) that show ?thesis
    by (simp add: ipmi_sdr_get_reservation_def machine_simps sdr_send_def)
qed

lemma device_get:
  assumes "sdr_device sr rs cur canc maxn" "i < length rs" "off + n \<le> length (rec_bytes (rs ! i))" "0 < n" "v = cur (d_bmc s)"
  obtains (cancelled) r b where "sdr_send sr (sdr_get_rq False v (handle rs i) (of_nat off) (of_nat n)) s = Inr (Some r, s\<lparr>d_bmc := b\<rparr>)" "r_ccode r = 0xc5" "canc b < canc (d_bmc s)"
  | (answered) r b where "sdr_send sr (sdr_get_rq False v (handle rs i) (of_nat off) (of_nat n)) s = Inr (Some r, s\<lparr>d_bmc := b\<rparr>)" "cur b = v" "canc b \<le> canc (d_bmc s)" "get_answer rs maxn i off n r"
proof -
  obtain r b where r: "sr (sdr_get_rq False (cur (d_bmc s)) (handle rs i) (of_nat off) (of_nat n)) (d_bmc s) = Inr (Some r, b)"
    "r_ccode r = 0xc5 \<and> canc b < canc (d_bmc s) \<or> cur b = cur (d_bmc s) \<and> canc b \<le> canc (d_bmc s) \<and> get_answer rs maxn i off n r"
    using assms(1-4) unfolding sdr_device_def by blast
  have send: "sdr_send sr (sdr_get_rq False v (handle rs i) (of_nat off) (of_nat n)) s = Inr (Some r, s\<lparr>d_bmc := b\<rparr>)"
    using r(1) assms(5) by (simp add: sdr_send_def)
  from r(2) show ?thesis
  proof
    assume "r_ccode r = 0xc5 \<and> canc b < canc (d_bmc s)"
    then show ?thesis using cancelled [OF send] by blast
  next
    assume "cur b = cur (d_bmc s) \<and> canc b \<le> canc (d_bmc s) \<and> get_answer rs maxn i off n r"
    then show ?thesis using answered [OF send] assms(5) by auto
  qed
qed

text \<open>The header: at most four cancellations leave a try that is answered.\<close>

lemma get_header_tries_reads:
  assumes "sdr_device sr rs cur canc maxn" "5 \<le> maxn" "i < length rs" "\<not> d_use_built_in s" "t_reservation itr = cur (d_bmc s)" "t_next itr = handle rs i"
    and "canc (d_bmc s) < n"
  shows "\<exists>r b. get_header_tries n sr rsp itr s = Inr ((Some (Some r), itr\<lparr>t_reservation := cur b\<rparr>), s\<lparr>d_bmc := b\<rparr>) \<and> canc b \<le> canc (d_bmc s)
    \<and> get_answer rs maxn i 0 5 r"
  using assms(4-7)
proof (induction n arbitrary: rsp itr s)
  case (Suc n)
  have l: "0 + 5 \<le> length (rec_bytes (rs ! i))" by (simp add: length_rec_bytes)
  show ?case
  proof (rule device_get [OF assms(1,3) l _ Suc.prems(2)])
    show "0 < (5 :: nat)" by simp
  next
    fix r b assume r: "sdr_send sr (sdr_get_rq False (t_reservation itr) (handle rs i) (of_nat 0) (of_nat 5)) s = Inr (Some r, s\<lparr>d_bmc := b\<rparr>)"
      "r_ccode r = 0xc5" "canc b < canc (d_bmc s)"
    obtain b' where b': "ipmi_sdr_get_reservation sr (s\<lparr>d_bmc := b\<rparr>) = Inr (Some (cur b'), s\<lparr>d_bmc := b'\<rparr>)" "canc b' \<le> canc b"
      using device_reserve [OF assms(1), of "s\<lparr>d_bmc := b\<rparr>"] Suc.prems(1) by (simp add: sdr.splits) (metis sdr.select_convs sdr.update_convs)
    have "canc b' < n" using r(3) b'(2) Suc.prems(4) by simp
    with Suc.IH [of "s\<lparr>d_bmc := b'\<rparr>" "itr\<lparr>t_reservation := cur b'\<rparr>" "Some r"] Suc.prems
    obtain r' b'' where "get_header_tries n sr (Some r) (itr\<lparr>t_reservation := cur b'\<rparr>) (s\<lparr>d_bmc := b'\<rparr>) = Inr ((Some (Some r'), itr\<lparr>t_reservation := cur b''\<rparr>), s\<lparr>d_bmc := b''\<rparr>)"
      "canc b'' \<le> canc b'" "get_answer rs maxn i 0 5 r'" by auto
    with r b' Suc.prems show ?thesis by (auto simp: machine_simps intro: exI [of _ b''])
  next
    fix r b assume r: "sdr_send sr (sdr_get_rq False (t_reservation itr) (handle rs i) (of_nat 0) (of_nat 5)) s = Inr (Some r, s\<lparr>d_bmc := b\<rparr>)"
      "cur b = t_reservation itr" "canc b \<le> canc (d_bmc s)" "get_answer rs maxn i 0 5 r"
    have "r_ccode r = 0" using r(4) assms(2) by (simp add: get_answer_def)
    with r Suc.prems show ?thesis by (auto simp: machine_simps intro!: exI [of _ r] exI [of _ b])
  qed
qed simp

lemma answer_header:
  assumes "get_answer rs maxn i 0 5 r" "5 \<le> maxn"
  shows "of_le16 (r_data r) = handle rs (Suc i)" "r_data r ! 4 = g_version (rs ! i)" "r_data r ! 5 = g_type (rs ! i)" "r_data r ! 6 = of_nat (length (g_data (rs ! i)))"
proof -
  let ?w = "le16 (handle rs (Suc i)) @ bytes_at (rec_bytes (rs ! i)) 0 5"
  have w: "take 7 (r_data r) = ?w" using assms by (simp add: get_answer_def)
  then have n: "r_data r ! j = ?w ! j" if "j < 7" for j using that by (metis nth_take)
  show "r_data r ! 4 = g_version (rs ! i)" "r_data r ! 5 = g_type (rs ! i)" "r_data r ! 6 = of_nat (length (g_data (rs ! i)))"
    using n by (simp_all add: bytes_at_def rec_bytes_def le16_def)
  show "of_le16 (r_data r) = handle rs (Suc i)"
    using n [of 0] n [of 1] of_le16_le16 [of "handle rs (Suc i)"] by (simp add: of_le16_def le16_def)
qed

lemma answer_bytes:
  assumes "get_answer rs maxn i off n r" "n \<le> maxn"
  shows "bytes_at (r_data r) 2 n = bytes_at (rec_bytes (rs ! i)) off n"
proof -
  have "drop 2 (take (n + 2) (r_data r)) = bytes_at (rec_bytes (rs ! i)) off n" using assms by (simp add: get_answer_def)
  then show ?thesis by (simp add: bytes_at_def drop_take)
qed

lemma get_next_header_reads:
  assumes "sdr_device sr rs cur canc maxn" "5 \<le> maxn" "repo_ok rs" "i < length rs" "\<not> d_use_built_in s" "t_reservation itr = cur (d_bmc s)" "t_next itr = handle rs i"
    and "canc (d_bmc s) < 5"
  shows "\<exists>b. ipmi_sdr_get_next_header sr itr s = Inr ((Some (header_of rs i), itr\<lparr>t_reservation := cur b, t_next := handle rs (Suc i)\<rparr>), s\<lparr>d_bmc := b\<rparr>)
    \<and> canc b \<le> canc (d_bmc s)"
proof -
  obtain r b where r: "get_header_tries 5 sr None itr s = Inr ((Some (Some r), itr\<lparr>t_reservation := cur b\<rparr>), s\<lparr>d_bmc := b\<rparr>)" "canc b \<le> canc (d_bmc s)"
    "get_answer rs maxn i 0 5 r"
    using get_header_tries_reads [OF assms(1,2,4,5-8), of None] by blast
  have "handle rs i \<noteq> 0xffff" using assms(3,4) by (auto simp: repo_ok_def)
  moreover have "r_data r ! 6 \<noteq> 0" using answer_header(4) [OF r(3) assms(2)] repo_record [OF assms(3,4)] by (metis gr_implies_not0 unat_0)
  ultimately show ?thesis
    using r answer_header [OF r(3) assms(2)] assms(7)
    by (auto simp: ipmi_sdr_get_next_header_def ipmi_sdr_get_header_def machine_simps header_of_def)
qed

text \<open>
  The record: every turn brings the end closer, lowers the read size or uses up a cancellation. \<open>part g i\<close> is the array when \<open>i\<close> of its bytes are there.
\<close>

definition part :: "bytes \<Rightarrow> nat \<Rightarrow> bytes" where
  "part g i = take i g @ replicate (length g - i + 1) 0"

lemma length_part [simp]: "i \<le> length g \<Longrightarrow> length (part g i) = length g + 1"
  by (simp add: part_def)

lemma part_store:
  assumes "i + k \<le> length g"
  shows "memcpy_at (part g i) i (bytes_at g i k) = part g (i + k)"
proof -
  have "drop k (replicate (length g - i + 1) 0) = replicate (length g - (i + k) + 1) (0 :: u8)" using assms by (simp add: Suc_diff_le del: replicate_Suc)
  with assms show ?thesis by (simp add: memcpy_at_def part_def bytes_at_def take_add del: replicate_Suc)
qed

lemma get_record_loop_reads:
  assumes "sdr_device sr rs cur canc maxn" "5 \<le> maxn" "repo_ok rs" "j < length rs"
    and "\<not> d_use_built_in s" "2 \<le> d_max_read s" "d_max_read s \<le> 255" "t_reservation itr = cur (d_bmc s)" "g = g_data (rs ! j)" "i \<le> length g"
    and "length g - i + nat (d_max_read s) + canc (d_bmc s) \<le> n"
  shows "\<exists>b m. get_record_loop n sr (handle rs j) (length g) itr (int i) (part g i) s
      = Inr ((Some (g @ [0]), itr\<lparr>t_reservation := cur b\<rparr>), s\<lparr>d_bmc := b, d_max_read := m\<rparr>) \<and> canc b \<le> canc (d_bmc s) \<and> 2 \<le> m \<and> m \<le> 255"
  using assms(5-)
proof (induction n arbitrary: s itr i)
  case 0
  then show ?case by simp
next
  case (Suc n)
  note g = \<open>g = g_data (rs ! j)\<close>
  let ?m = "d_max_read s"
  have eg: "get_record_loop (Suc n) sr (handle rs j) (length g) itr (int i) (part g i) s = Inr ((Some (g @ [0]), itr), s)" if "i = length g"
    using that by (simp add: machine_simps part_def)
  show ?case
  proof (cases "i = length g")
    case True
    have "s = s\<lparr>d_bmc := d_bmc s, d_max_read := d_max_read s\<rparr>" "itr = itr\<lparr>t_reservation := cur (d_bmc s)\<rparr>" using Suc.prems(4) by simp_all
    with eg [OF True] Suc.prems(2,3) show ?thesis by (metis order_refl)
  next
    case False
    define k where "k = min (length g - i) (nat ?m)"
    have lg: "length g \<le> 250" using repo_record(2) [OF assms(3,4)] g by simp
    have k: "0 < k" "i + k \<le> length g" "k \<le> nat ?m" "k < 256" using False Suc.prems(2,6) lg by (auto simp: k_def)
    have kw: "(of_int (if int (length g) - int i < ?m then int (length g) - int i else ?m) :: u8) = of_nat k"
    proof -
      have "(if int (length g) - int i < ?m then int (length g) - int i else ?m) = int k" using Suc.prems(2,6) by (auto simp: k_def min_def)
      then show ?thesis by simp
    qed
    have ow: "(of_int (int i + 5) :: u8) = of_nat (i + 5)" by simp
    have uk: "unat (of_nat k :: u8) = k" using k(4) by (simp add: unat_of_nat)
    have l: "(i + 5) + k \<le> length (rec_bytes (rs ! j))" using k(2) g by (simp add: length_rec_bytes)
    have lt: "int i < int (length g)" using False Suc.prems(6) by simp
    show ?thesis
    proof (rule device_get [OF assms(1,4) l k(1) Suc.prems(4)])
      fix r b assume r: "sdr_send sr (sdr_get_rq False (t_reservation itr) (handle rs j) (of_nat (i + 5)) (of_nat k)) s = Inr (Some r, s\<lparr>d_bmc := b\<rparr>)"
        "r_ccode r = 0xc5" "canc b < canc (d_bmc s)"
      obtain b' where b': "ipmi_sdr_get_reservation sr (s\<lparr>d_bmc := b\<rparr>) = Inr (Some (cur b'), s\<lparr>d_bmc := b'\<rparr>)" "canc b' \<le> canc b"
        using device_reserve [OF assms(1), of "s\<lparr>d_bmc := b\<rparr>"] Suc.prems(1) by (simp) (metis sdr.select_convs sdr.update_convs)
      have ar: "length g - i + nat (d_max_read (s\<lparr>d_bmc := b'\<rparr>)) + canc (d_bmc (s\<lparr>d_bmc := b'\<rparr>)) \<le> n" using Suc.prems(7) r(3) b'(2) by simp
      obtain b'' m where "get_record_loop n sr (handle rs j) (length g) (itr\<lparr>t_reservation := cur b'\<rparr>) (int i) (part g i) (s\<lparr>d_bmc := b'\<rparr>)
          = Inr ((Some (g @ [0]), itr\<lparr>t_reservation := cur b''\<rparr>), s\<lparr>d_bmc := b'', d_max_read := m\<rparr>)" "canc b'' \<le> canc b'" "2 \<le> m" "m \<le> 255"
        using Suc.IH [OF _ _ _ _ g _ ar, of "itr\<lparr>t_reservation := cur b'\<rparr>"] Suc.prems(1-3,6) by auto
      with r b' Suc.prems(1) lt show ?thesis
        by (auto simp: machine_simps kw ow Let_def simp del: of_int_add intro!: exI [of _ b''] exI [of _ m])
    next
      fix r b assume r: "sdr_send sr (sdr_get_rq False (t_reservation itr) (handle rs j) (of_nat (i + 5)) (of_nat k)) s = Inr (Some r, s\<lparr>d_bmc := b\<rparr>)"
        "cur b = t_reservation itr" "canc b \<le> canc (d_bmc s)" "get_answer rs maxn j (i + 5) k r"
      show ?thesis
      proof (cases "k \<le> maxn")
        case False
        then have cc: "r_ccode r = 0xca" using r(4) by (simp add: get_answer_def)
        have m: "6 \<le> ?m" "2 < ?m div 2" "?m div 2 \<le> 256" using False k(3) assms(2) Suc.prems(3) by linarith+
        have ar: "length g - i + nat (d_max_read (s\<lparr>d_bmc := b, d_max_read := ?m div 2 - 1\<rparr>)) + canc (d_bmc (s\<lparr>d_bmc := b, d_max_read := ?m div 2 - 1\<rparr>)) \<le> n"
          using Suc.prems(7) r(3) m by simp
        obtain b'' m where "get_record_loop n sr (handle rs j) (length g) itr (int i) (part g i) (s\<lparr>d_bmc := b, d_max_read := ?m div 2 - 1\<rparr>)
            = Inr ((Some (g @ [0]), itr\<lparr>t_reservation := cur b''\<rparr>), s\<lparr>d_bmc := b'', d_max_read := m\<rparr>)" "canc b'' \<le> canc b" "2 \<le> m" "m \<le> 255"
          using Suc.IH [OF _ _ _ _ g _ ar, of itr] Suc.prems(1,3,4,6) r(2) m by auto
        with r cc Suc.prems(1) lt show ?thesis
          by (auto simp: machine_simps kw ow Let_def simp del: of_int_add intro!: exI [of _ b''] exI [of _ m])
      next
        case True
        then have cc: "r_ccode r = 0" "r_data_len r \<noteq> 0" "bytes_at (r_data r) 2 k = bytes_at g i k"
          using r(4) answer_bytes [OF r(4) True] rec_bytes_tail [of "rs ! j" i k] g by (auto simp: get_answer_def)
        define i' where "i' = (if nat ?m \<le> length g - i then i + nat ?m else length g)"
        have ik: "i + k = i'" using k Suc.prems(6) by (auto simp: k_def i'_def min_def)
        have store: "memcpy_at (part g i) i (bytes_at g i k) = part g i'" using part_store [OF k(2)] ik by simp
        have "\<exists>b'' m. get_record_loop n sr (handle rs j) (length g) itr (int i + ?m) (part g i') (s\<lparr>d_bmc := b\<rparr>)
            = Inr ((Some (g @ [0]), itr\<lparr>t_reservation := cur b''\<rparr>), s\<lparr>d_bmc := b'', d_max_read := m\<rparr>) \<and> canc b'' \<le> canc b \<and> 2 \<le> m \<and> m \<le> 255"
        proof (cases "nat ?m \<le> length g - i")
          case True
          then have "int i' = int i + ?m" "length g - i' < length g - i" using Suc.prems(2) by (auto simp: i'_def)
          moreover have ar: "length g - i' + nat (d_max_read (s\<lparr>d_bmc := b\<rparr>)) + canc (d_bmc (s\<lparr>d_bmc := b\<rparr>)) \<le> n"
            using Suc.prems(7) r(3) calculation(2) by simp
          ultimately show ?thesis using Suc.IH [OF _ _ _ _ g _ ar, of itr] Suc.prems(1-4) r(2) ik k(2) by auto
        next
          case False
          then have "\<not> int i + ?m < int (length g)" "i' = length g" by (auto simp: i'_def)
          moreover have "part g (length g) = g @ [0]" by (simp add: part_def)
          ultimately show ?thesis using r(2) Suc.prems(2,3)
            by (cases n) (auto simp: machine_simps intro!: exI [of _ b] exI [of _ ?m])
        qed
        moreover have "\<not> length (part g i) < i + k" using k(2) Suc.prems(6) by simp
        ultimately show ?thesis using r cc Suc.prems(1) lt uk store
          by (fastforce simp: machine_simps kw ow Let_def simp del: of_int_add)
      qed
    qed
  qed
qed

section \<open>The cached list\<close>

text \<open>
  The list holds the known records among the first \<open>j\<close> of the repository and the iterator stands before record \<open>k\<close>; between two calls \<open>j\<close> and \<open>k\<close> agree.
\<close>

definition sdr_mid :: "sdr_rec list \<Rightarrow> ('s \<Rightarrow> u16) \<Rightarrow> ('s \<Rightarrow> nat) \<Rightarrow> nat \<Rightarrow> nat \<Rightarrow> 's sdr \<Rightarrow> bool" where
  "sdr_mid rs cur canc j k s \<longleftrightarrow> sdr_ready canc (length rs) s \<and> k \<le> length rs \<and> d_list s = entries rs 0 j
     \<and> (\<exists>itr. d_itr s = Some itr \<and> t_next itr = handle rs k \<and> t_reservation itr = cur (d_bmc s))"

abbreviation sdr_at :: "sdr_rec list \<Rightarrow> ('s \<Rightarrow> u16) \<Rightarrow> ('s \<Rightarrow> nat) \<Rightarrow> nat \<Rightarrow> 's sdr \<Rightarrow> bool" where
  "sdr_at rs cur canc k \<equiv> sdr_mid rs cur canc k k"

definition good_repo :: "'s transport \<Rightarrow> sdr_rec list \<Rightarrow> ('s \<Rightarrow> u16) \<Rightarrow> ('s \<Rightarrow> nat) \<Rightarrow> nat \<Rightarrow> bool" where
  "good_repo sr rs cur canc maxn \<longleftrightarrow> sdr_device sr rs cur canc maxn \<and> 5 \<le> maxn \<and> repo_ok rs"

lemma sdr_malloc_ok [simp]: "d_mallocs s = [] \<Longrightarrow> sdr_malloc s = Inr (True, s)"
  by (simp add: sdr_malloc_def)

lemma get_record_reads:
  assumes "good_repo sr rs cur canc maxn" "k < length rs" "sdr_ready canc l s" "t_reservation itr = cur (d_bmc s)"
  shows "\<exists>b m. ipmi_sdr_get_record sr (header_of rs k) itr s = Inr ((Some (g_data (rs ! k) @ [0]), itr\<lparr>t_reservation := cur b\<rparr>), s\<lparr>d_bmc := b, d_max_read := m\<rparr>)
    \<and> canc b \<le> canc (d_bmc s) \<and> 2 \<le> m \<and> m \<le> 255"
proof -
  let ?g = "g_data (rs ! k)"
  have dev: "sdr_device sr rs cur canc maxn" "5 \<le> maxn" "repo_ok rs" using assms(1) by (auto simp: good_repo_def)
  note g = repo_record [OF dev(3) assms(2)]
  have st: "\<not> d_use_built_in s" "2 \<le> d_max_read s" "d_max_read s \<le> 255" "d_mallocs s = []" using assms(3) by (auto simp: sdr_ready_def)
  have "nat (d_max_read s) \<le> 255" "canc (d_bmc s) < 5" "520 \<le> d_turns s" using assms(3) by (auto simp: sdr_ready_def)
  then have "length ?g - 0 + nat (d_max_read s) + canc (d_bmc s) \<le> d_turns s" using g(2) by linarith
  from get_record_loop_reads [OF dev assms(2) st(1-3) assms(4) refl _ this] show ?thesis
    using g(1,3) st(4) by (simp add: ipmi_sdr_get_record_def header_of_def machine_simps part_def Let_def)
qed

lemma next_record_end:
  assumes "sdr_mid rs cur canc j (length rs) s" "repo_ok rs"
  shows "next_record sr s = Inr (None, s)"
  using assms by (auto simp: sdr_mid_def next_record_def ipmi_sdr_get_next_header_def machine_simps handle_def repo_ok_def)

lemma next_record_reads:
  assumes "good_repo sr rs cur canc maxn" "k < length rs" "sdr_mid rs cur canc j k s"
  shows "\<exists>t. next_record sr s = Inr (Some (header_of rs k, Some (g_data (rs ! k) @ [0])), t) \<and> sdr_mid rs cur canc j (Suc k) t"
proof -
  obtain itr where itr: "d_itr s = Some itr" "t_next itr = handle rs k" "t_reservation itr = cur (d_bmc s)" using assms(3) by (auto simp: sdr_mid_def)
  have st: "sdr_ready canc (length rs) s" "\<not> d_use_built_in s" "canc (d_bmc s) < 5" "d_mallocs s = []" using assms(3) by (auto simp: sdr_mid_def sdr_ready_def)
  have dev: "sdr_device sr rs cur canc maxn" "5 \<le> maxn" "repo_ok rs" using assms(1) by (auto simp: good_repo_def)
  obtain b where b: "ipmi_sdr_get_next_header sr itr s = Inr ((Some (header_of rs k), itr\<lparr>t_reservation := cur b, t_next := handle rs (Suc k)\<rparr>), s\<lparr>d_bmc := b\<rparr>)"
    "canc b \<le> canc (d_bmc s)"
    using get_next_header_reads [OF dev assms(2) st(2) itr(3,2) st(3)] by blast
  let ?itr = "itr\<lparr>t_reservation := cur b, t_next := handle rs (Suc k)\<rparr>"
  let ?s = "s\<lparr>d_bmc := b, d_itr := Some ?itr\<rparr>"
  have "sdr_ready canc (length rs) ?s" using st(1) b(2) by (simp add: sdr_ready_def)
  then obtain b' m where b': "ipmi_sdr_get_record sr (header_of rs k) ?itr ?s
      = Inr ((Some (g_data (rs ! k) @ [0]), ?itr\<lparr>t_reservation := cur b'\<rparr>), ?s\<lparr>d_bmc := b', d_max_read := m\<rparr>)" "canc b' \<le> canc b" "2 \<le> m" "m \<le> 255"
    using get_record_reads [OF assms(1,2), of "length rs" ?s ?itr] by auto
  let ?t = "?s\<lparr>d_bmc := b', d_max_read := m, d_itr := Some (?itr\<lparr>t_reservation := cur b'\<rparr>)\<rparr>"
  have "next_record sr s = Inr (Some (header_of rs k, Some (g_data (rs ! k) @ [0])), ?t)"
    using itr b b' st(4) by (simp add: next_record_def machine_simps)
  moreover have "sdr_mid rs cur canc j (Suc k) ?t"
    using assms(2,3) b(2) b'(2-4) by (auto simp: sdr_mid_def sdr_ready_def)
  ultimately show ?thesis by blast
qed

lemma entries_Suc: "j \<le> k \<Longrightarrow> entries rs j (Suc k) = entries rs j k @ (if is_known_type (g_type (rs ! k)) then [entry_at rs k] else [])"
  by (simp add: entries_def)

lemma entries_Cons: "k < n \<Longrightarrow> entries rs k n = (if is_known_type (g_type (rs ! k)) then [entry_at rs k] else []) @ entries rs (Suc k) n"
  by (simp add: entries_def upt_conv_Cons)

lemma entries_split: "j \<le> k \<Longrightarrow> k \<le> n \<Longrightarrow> entries rs j k @ entries rs k n = entries rs j n"
proof -
  assume "j \<le> k" "k \<le> n"
  then have "[j..<n] = [j..<k] @ [k..<n]" by (metis le_add_diff_inverse upt_add_eq_append)
  then show ?thesis by (simp add: entries_def)
qed

fun scan :: "('r \<Rightarrow> 'e \<Rightarrow> bool \<times> 'r) \<Rightarrow> 'r \<Rightarrow> 'e list \<Rightarrow> 'r" where
  "scan f acc [] = acc"
| "scan f acc (e # es) = (if fst (f acc e) then snd (f acc e) else scan f (snd (f acc e)) es)"

lemma sdr_list_loop_scans:
  assumes "good_repo sr rs cur canc maxn" "\<And>acc e u. e \<in> set (entries rs 0 (length rs)) \<Longrightarrow> d_mallocs u = [] \<Longrightarrow> visit acc e u = Inr (f acc e, u)"
    and "sdr_at rs cur canc k s" "length rs - k < n"
  shows "\<exists>k' t. sdr_list_loop n sr visit acc s = Inr (scan f acc (entries rs k (length rs)), t) \<and> sdr_at rs cur canc k' t
    \<and> ((\<forall>acc e. \<not> fst (f acc e)) \<longrightarrow> k' = length rs)"
  using assms(3,4)
proof (induction n arbitrary: k s acc)
  case (Suc n)
  have rk: "repo_ok rs" "k \<le> length rs" using assms(1) Suc.prems(1) by (auto simp: good_repo_def sdr_mid_def)
  show ?case
  proof (cases "k = length rs")
    case True
    with next_record_end [OF Suc.prems(1) [unfolded True] rk(1)] Suc.prems(1) show ?thesis
      by (auto simp: machine_simps entries_def intro!: exI [of _ "length rs"])
  next
    case False
    then have k: "k < length rs" using rk(2) by simp
    obtain t where t: "next_record sr s = Inr (Some (header_of rs k, Some (g_data (rs ! k) @ [0])), t)" "sdr_mid rs cur canc k (Suc k) t"
      using next_record_reads [OF assms(1) k Suc.prems(1)] by blast
    have ty: "h_type (header_of rs k) = g_type (rs ! k)" by (simp add: header_of_def)
    show ?thesis
    proof (cases "is_known_type (g_type (rs ! k))")
      case False
      then have "sdr_at rs cur canc (Suc k) t" using t(2) by (simp add: sdr_mid_def entries_Suc)
      with Suc.IH [of "Suc k" t acc] Suc.prems(2) k t(1) False ty show ?thesis by (simp add: machine_simps entries_Cons)
    next
      case True
      have e: "entry_of (header_of rs k) (g_data (rs ! k) @ [0]) = entry_at rs k" by (simp add: entry_at_def)
      have mem: "entry_at rs k \<in> set (entries rs 0 (length rs))" using k True by (auto simp: entries_def)
      let ?t = "t\<lparr>d_list := d_list t @ [entry_at rs k]\<rparr>"
      have at: "sdr_at rs cur canc (Suc k) ?t" using t(2) True by (simp add: sdr_mid_def entries_Suc sdr_ready_def)
      have visit: "visit acc (entry_at rs k) t = Inr (f acc (entry_at rs k), t)" using assms(2) [OF mem, of t acc] t(2) by (simp add: sdr_mid_def sdr_ready_def)
      show ?thesis
      proof (cases "fst (f acc (entry_at rs k))")
        case True
        then show ?thesis using t(1) visit e at \<open>is_known_type _\<close> ty k
          by (cases "f acc (entry_at rs k)") (auto simp: machine_simps entries_Cons list_append_def intro!: exI [of _ "Suc k"], metis fst_conv)
      next
        case False
        with Suc.IH [of "Suc k" ?t "snd (f acc (entry_at rs k))", OF at] Suc.prems(2) k t(1) visit e \<open>is_known_type _\<close> ty show ?thesis
          by (cases "f acc (entry_at rs k)") (auto simp: machine_simps entries_Cons list_append_def)
      qed
    qed
  qed
qed simp

end
