(* ===== verification/Sdr_Lookup.thy ===== *)
theory Sdr_Lookup
  imports Sdr_Repository
begin

text \<open>
  The lookups as one would specify them: whatever part of the repository the list already caches, each lookup answers from the whole repository.
\<close>

section \<open>Starting\<close>

definition sdr_fresh :: "sdr_rec list \<Rightarrow> ('s \<Rightarrow> nat) \<Rightarrow> 's sdr \<Rightarrow> bool" where
  "sdr_fresh rs canc s \<longleftrightarrow> sdr_ready canc (length rs) s \<and> d_itr s = None \<and> d_list s = []"

definition sdr_state :: "sdr_rec list \<Rightarrow> ('s \<Rightarrow> u16) \<Rightarrow> ('s \<Rightarrow> nat) \<Rightarrow> 's sdr \<Rightarrow> bool" where
  "sdr_state rs cur canc s \<longleftrightarrow> sdr_fresh rs canc s \<or> (\<exists>k. sdr_at rs cur canc k s)"

lemma start_run:
  assumes "good_repo sr rs cur canc maxn" "sdr_ready canc l s"
  shows "\<exists>b v n. ipmi_sdr_start sr s = Inr (Some \<lparr>t_reservation = cur b, t_total = n, t_next = 0\<rparr>, s\<lparr>d_bmc := b, d_sdriana := v\<rparr>) \<and> canc b \<le> canc (d_bmc s)"
proof -
  have st: "d_mallocs s = []" "\<not> d_use_built_in s" using assms(2) by (auto simp: sdr_ready_def)
  have dev: "sdr_device sr rs cur canc maxn" using assms(1) by (simp add: good_repo_def)
  obtain r1 b1 where r1: "sr (ipmi_request 0x06 0x01 []) (d_bmc s) = Inr (Some r1, b1)" "canc b1 \<le> canc (d_bmc s)" "\<not> (r_data r1 ! 1 AND 0x80 \<noteq> 0 \<and> r_data r1 ! 5 AND 0x02 = 0)"
    using dev unfolding sdr_device_def by blast
  obtain r2 b2 where r2: "sr (ipmi_request 0x0a 0x20 []) b1 = Inr (Some r2, b2)" "canc b2 \<le> canc b1" "r_ccode r2 = 0"
    using dev unfolding sdr_device_def by blast
  let ?v = "push_bit 16 (ucast (r_data r1 ! 8 AND 0x0F)) OR push_bit 8 (ucast (r_data r1 ! 7)) OR ucast (r_data r1 ! 6) :: u32"
  obtain b3 where r3: "ipmi_sdr_get_reservation sr (s\<lparr>d_sdriana := ?v, d_bmc := b2\<rparr>) = Inr (Some (cur b3), s\<lparr>d_sdriana := ?v, d_bmc := b3\<rparr>)" "canc b3 \<le> canc b2"
    using device_reserve [OF dev, of "s\<lparr>d_sdriana := ?v, d_bmc := b2\<rparr>"] st(2) by auto
  have "ipmi_sdr_start sr s = Inr (Some \<lparr>t_reservation = cur b3, t_total = unat (of_le16 (bytes_at (r_data r2) 1 2)), t_next = 0\<rparr>, s\<lparr>d_bmc := b3, d_sdriana := ?v\<rparr>)"
    using r1 r2 r3 st by (auto simp: ipmi_sdr_start_def machine_simps sdr_send_def Let_def)
  with r1(2) r2(2) r3(2) show ?thesis by (meson order_trans)
qed

lemma list_start_run:
  assumes "good_repo sr rs cur canc maxn" "sdr_state rs cur canc s"
  shows "\<exists>itr t k. list_start sr s = Inr (Some itr, t) \<and> sdr_at rs cur canc k t"
proof (cases "sdr_fresh rs canc s")
  case False
  then obtain k where at: "sdr_at rs cur canc k s" using assms(2) by (auto simp: sdr_state_def)
  then obtain itr where "d_itr s = Some itr" by (auto simp: sdr_mid_def)
  then have "list_start sr s = Inr (Some itr, s)" by (simp add: list_start_def machine_simps)
  with at show ?thesis by blast
next
  case True
  then obtain b v n where run: "ipmi_sdr_start sr s = Inr (Some \<lparr>t_reservation = cur b, t_total = n, t_next = 0\<rparr>, s\<lparr>d_bmc := b, d_sdriana := v\<rparr>)" "canc b \<le> canc (d_bmc s)"
    using start_run [OF assms(1), of "length rs" s] by (auto simp: sdr_fresh_def)
  let ?itr = "\<lparr>t_reservation = cur b, t_total = n, t_next = 0\<rparr>"
  have "list_start sr s = Inr (Some ?itr, s\<lparr>d_bmc := b, d_sdriana := v, d_itr := Some ?itr\<rparr>)"
    using run True by (simp add: list_start_def machine_simps sdr_fresh_def)
  moreover have "sdr_at rs cur canc 0 (s\<lparr>d_bmc := b, d_sdriana := v, d_itr := Some ?itr\<rparr>)"
    using True run(2) by (auto simp: sdr_mid_def sdr_fresh_def sdr_ready_def handle_def entries_def)
  ultimately show ?thesis by blast
qed

section \<open>One match and all matches\<close>

definition holds :: "(sdr_entry \<Rightarrow> fault + bool) \<Rightarrow> sdr_entry \<Rightarrow> bool" where
  "holds m e \<longleftrightarrow> m e = Inr True"

definition total_on :: "(sdr_entry \<Rightarrow> fault + bool) \<Rightarrow> sdr_entry list \<Rightarrow> bool" where
  "total_on m es \<longleftrightarrow> (\<forall>e \<in> set es. m e = Inr (holds m e))"

lemma total_onI: "(\<And>e. e \<in> set es \<Longrightarrow> \<exists>v. m e = Inr v) \<Longrightarrow> total_on m es"
  by (fastforce simp: total_on_def holds_def)

lemma find_append: "List.find P (xs @ ys) = (case List.find P xs of None \<Rightarrow> List.find P ys | Some x \<Rightarrow> Some x)"
  by (induction xs) auto

lemma first_match_find: "total_on m es \<Longrightarrow> first_match m es = Inr (List.find (holds m) es)"
  by (induction es) (auto simp: total_on_def split: bool.splits)

lemma scan_find: "scan (\<lambda>acc e. (P e, if P e then Some e else acc)) None es = List.find P es"
  by (induction es) auto

lemma scan_filter: "scan (\<lambda>acc e. (False, if P e then acc @ [e] else acc)) acc es = acc @ filter P es"
  by (induction es arbitrary: acc) auto

lemma scan_unit: "scan (\<lambda>acc e. (False, ())) () es = ()"
  by simp

lemma add_matches_run: "total_on m es \<Longrightarrow> d_mallocs s = [] \<Longrightarrow> add_matches m head es s = Inr (head @ filter (holds m) es, s)"
  by (induction es arbitrary: head) (auto simp: total_on_def machine_simps lift_fault_def sdr_list_add_def)

lemma keep_looking_run:
  assumes "good_repo sr rs cur canc maxn" "\<And>acc e u. e \<in> set (entries rs 0 (length rs)) \<Longrightarrow> d_mallocs u = [] \<Longrightarrow> visit acc e u = Inr (f acc e, u)"
    and "sdr_at rs cur canc k s"
  shows "\<exists>k' t. keep_looking sr visit acc s = Inr (scan f acc (entries rs k (length rs)), t) \<and> sdr_at rs cur canc k' t
    \<and> ((\<forall>acc e. \<not> fst (f acc e)) \<longrightarrow> k' = length rs)"
proof -
  have "length rs - k < d_turns s" using assms(3) by (auto simp: sdr_mid_def sdr_ready_def)
  from sdr_list_loop_scans [OF assms(1,2,3) this] show ?thesis by (simp add: keep_looking_def machine_simps)
qed

lemma total_on_part:
  assumes "total_on m (entries rs 0 (length rs))" "k \<le> length rs"
  shows "total_on m (entries rs 0 k)"
  using assms entries_split [of 0 k "length rs" rs] by (auto simp: total_on_def) (metis Un_iff set_append)

lemma find_one_run:
  assumes "good_repo sr rs cur canc maxn" "sdr_state rs cur canc s" "total_on m (entries rs 0 (length rs))"
  shows "\<exists>t. find_one sr m s = Inr (List.find (holds m) (entries rs 0 (length rs)), t) \<and> sdr_state rs cur canc t"
proof -
  obtain itr t k where st: "list_start sr s = Inr (Some itr, t)" "sdr_at rs cur canc k t" using list_start_run [OF assms(1,2)] by blast
  then have k: "k \<le> length rs" "d_list t = entries rs 0 k" by (auto simp: sdr_mid_def)
  note part = total_on_part [OF assms(3) k(1)]
  let ?visit = "\<lambda>acc e. mbind (lift_fault (m e)) (\<lambda>ok. mret (ok, if ok then Some e else acc))"
  have visit: "?visit acc e u = Inr ((holds m e, if holds m e then Some e else acc), u)" if "e \<in> set (entries rs 0 (length rs))" for acc e u
    using that assms(3) by (simp add: total_on_def machine_simps lift_fault_def)
  obtain k' u where run: "keep_looking sr ?visit None t = Inr (List.find (holds m) (entries rs k (length rs)), u)" "sdr_at rs cur canc k' u"
    using keep_looking_run [OF assms(1), of ?visit "\<lambda>acc e. (holds m e, if holds m e then Some e else acc)" k t None, OF visit st(2)] by (auto simp: scan_find)
  have "List.find (holds m) (entries rs 0 (length rs)) = (case List.find (holds m) (entries rs 0 k) of None \<Rightarrow> List.find (holds m) (entries rs k (length rs)) | Some x \<Rightarrow> Some x)"
    using find_append [of "holds m" "entries rs 0 k" "entries rs k (length rs)"] entries_split [of 0 k "length rs" rs] k(1) by simp
  with st run k(2) first_match_find [OF part] show ?thesis
    by (cases "List.find (holds m) (entries rs 0 k)") (auto simp: find_one_def machine_simps lift_fault_def sdr_state_def)
qed

lemma find_all_run:
  assumes "good_repo sr rs cur canc maxn" "sdr_state rs cur canc s" "total_on m (entries rs 0 (length rs))"
  shows "\<exists>t. find_all sr m s = Inr (Some (zero_entry # filter (holds m) (entries rs 0 (length rs))), t) \<and> sdr_state rs cur canc t"
proof -
  have ma: "d_mallocs s = []" using assms(2) by (auto simp: sdr_state_def sdr_fresh_def sdr_mid_def sdr_ready_def)
  obtain itr t k where st: "list_start sr s = Inr (Some itr, t)" "sdr_at rs cur canc k t" using list_start_run [OF assms(1,2)] by blast
  then have k: "k \<le> length rs" "d_list t = entries rs 0 k" "d_mallocs t = []" by (auto simp: sdr_mid_def sdr_ready_def)
  note part = total_on_part [OF assms(3) k(1)]
  let ?visit = "\<lambda>acc e. mbind (lift_fault (m e)) (\<lambda>ok. if ok then mbind (sdr_list_add acc e) (\<lambda>acc. mret (False, acc)) else mret (False, acc))"
  have visit: "?visit acc e u = Inr ((False, if holds m e then acc @ [e] else acc), u)" if "e \<in> set (entries rs 0 (length rs))" "d_mallocs u = []" for acc e u
    using that assms(3) by (simp add: total_on_def machine_simps lift_fault_def sdr_list_add_def)
  obtain k' u where run: "keep_looking sr ?visit (zero_entry # filter (holds m) (entries rs 0 k)) t
      = Inr ((zero_entry # filter (holds m) (entries rs 0 k)) @ filter (holds m) (entries rs k (length rs)), u)" "sdr_at rs cur canc k' u"
    using keep_looking_run [OF assms(1), of ?visit "\<lambda>acc e. (False, if holds m e then acc @ [e] else acc)" k t "zero_entry # filter (holds m) (entries rs 0 k)", OF visit st(2)]
    by (auto simp: scan_filter)
  have "filter (holds m) (entries rs 0 k) @ filter (holds m) (entries rs k (length rs)) = filter (holds m) (entries rs 0 (length rs))"
    using entries_split [of 0 k "length rs" rs] k(1) by (metis filter_append le0)
  with st run k(2,3) ma add_matches_run [OF part, of t "[zero_entry]"] show ?thesis
    by (auto simp: find_all_def machine_simps sdr_state_def)
qed

lemma list_cache_run:
  assumes "good_repo sr rs cur canc maxn" "sdr_state rs cur canc s"
  shows "\<exists>t. ipmi_sdr_list_cache sr s = Inr (0, t) \<and> sdr_at rs cur canc (length rs) t"
proof -
  obtain itr t k where st: "list_start sr s = Inr (Some itr, t)" "sdr_at rs cur canc k t" using list_start_run [OF assms] by blast
  obtain u where "keep_looking sr (\<lambda>_ _. mret (False, ())) () t = Inr ((), u)" "sdr_at rs cur canc (length rs) u"
    using keep_looking_run [OF assms(1), of "\<lambda>_ _. mret (False, ())" "\<lambda>_ _. (False, ())" k t "()"] st(2) by (auto simp: machine_simps)
  with st show ?thesis by (auto simp: ipmi_sdr_list_cache_def machine_simps)
qed

section \<open>Sequences of lookups\<close>

datatype sdr_op = Cache | By_numtype u8 u8 | By_id bytes | By_sensortype u8 | By_entity u8 u8 | By_type u8 | Empty_list

datatype sdr_result = Code int | One "sdr_entry option" | Many "sdr_entry list option" | Done

definition mmap :: "('a \<Rightarrow> 'b) \<Rightarrow> ('s, 'a) machine \<Rightarrow> ('s, 'b) machine" where
  "mmap f m = mbind m (\<lambda>a. mret (f a))"

primrec sdr_do :: "'s transport \<Rightarrow> sdr_op \<Rightarrow> ('s sdr, sdr_result) machine" where
  "sdr_do sr Cache = mmap Code (ipmi_sdr_list_cache sr)"
| "sdr_do sr (By_numtype num ty) = mmap One (ipmi_sdr_find_sdr_bynumtype sr num ty)"
| "sdr_do sr (By_id name) = mmap One (ipmi_sdr_find_sdr_byid sr (Some name))"
| "sdr_do sr (By_sensortype ty) = mmap Many (ipmi_sdr_find_sdr_bysensortype sr ty)"
| "sdr_do sr (By_entity eid inst) = mmap Many (ipmi_sdr_find_sdr_byentity sr eid inst)"
| "sdr_do sr (By_type ty) = mmap Many (ipmi_sdr_find_sdr_bytype sr ty)"
| "sdr_do sr Empty_list = mmap (\<lambda>_. Done) ipmi_sdr_list_empty"

primrec sdr_run :: "'s transport \<Rightarrow> sdr_op list \<Rightarrow> ('s sdr, sdr_result list) machine" where
  "sdr_run sr [] = mret []"
| "sdr_run sr (op # ops) = mbind (sdr_do sr op) (\<lambda>r. mbind (sdr_run sr ops) (\<lambda>rs. mret (r # rs)))"

text \<open>The specification: a lookup in the whole repository, without a state.\<close>

primrec sdr_spec :: "sdr_rec list \<Rightarrow> sdr_op \<Rightarrow> sdr_result" where
  "sdr_spec rs Cache = Code 0"
| "sdr_spec rs (By_numtype num ty) = One (List.find (holds (match_numtype num ty)) (entries rs 0 (length rs)))"
| "sdr_spec rs (By_id name) = One (List.find (holds (match_id name)) (entries rs 0 (length rs)))"
| "sdr_spec rs (By_sensortype ty) = Many (Some (zero_entry # filter (holds (match_sensortype ty)) (entries rs 0 (length rs))))"
| "sdr_spec rs (By_entity eid inst) = Many (Some (zero_entry # filter (holds (match_entity eid inst)) (entries rs 0 (length rs))))"
| "sdr_spec rs (By_type ty) = Many (Some (zero_entry # filter (holds (match_type ty)) (entries rs 0 (length rs))))"
| "sdr_spec rs Empty_list = Done"

text \<open>Records that reach to the fields the lookups read.\<close>

definition fields_ok :: "sdr_rec \<Rightarrow> bool" where
  "fields_ok r \<longleftrightarrow> (case id_code_off (g_type r) of Some off \<Rightarrow> off < length (g_data r) | None \<Rightarrow> 2 \<le> length (g_data r))"

lemma strncmp_total: "\<exists>v. strncmp_bytes n (a @ [0]) (b @ [0]) = Inr v"
proof (induction n arbitrary: a b)
  case (Suc n)
  then show ?case by (cases a; cases b) auto
qed auto

lemma entry_fields:
  assumes "e \<in> set (entries rs 0 (length rs))" "\<forall>r \<in> set rs. fields_ok r"
  obtains r where "r \<in> set rs" "l_type e = g_type r" "l_record e = Some (g_data r @ [0])" "is_known_type (g_type r)" "fields_ok r"
  using assms by (auto simp: entries_def entry_at_def entry_of_def header_of_def zero_entry_def) (metis assms(2) nth_mem)

lemma byte_is_total: "l_record e = Some rec \<Longrightarrow> off < length rec \<Longrightarrow> \<exists>v. byte_is e off P = Inr v"
  by (simp add: byte_is_def rec_byte_def)

lemma both_total: "\<exists>v. a = Inr v \<Longrightarrow> \<exists>v. b = Inr v \<Longrightarrow> \<exists>v. both a b = Inr v"
  by (auto simp: both_def split: bool.splits)

lemma matches_total:
  assumes "\<forall>r \<in> set rs. fields_ok r"
  shows "total_on (match_numtype num ty) (entries rs 0 (length rs))" "total_on (match_id name) (entries rs 0 (length rs))"
    "total_on (match_sensortype ty) (entries rs 0 (length rs))" "total_on (match_entity eid inst) (entries rs 0 (length rs))"
    "total_on (match_type ty) (entries rs 0 (length rs))"
proof (rule_tac [1-5] total_onI)
  fix e assume "e \<in> set (entries rs 0 (length rs))"
  then obtain r where r: "l_type e = g_type r" "l_record e = Some (g_data r @ [0])" "is_known_type (g_type r)" "fields_ok r"
    by (rule entry_fields [OF _ assms])
  note b = byte_is_total [OF r(2)]
  show "\<exists>v. match_numtype num ty e = Inr v"
    using r(3,4) unfolding match_numtype_def r(1)
    by (auto simp: sensor_type_off_def fields_ok_def id_code_off_def is_known_type_def intro!: both_total b split: option.splits if_splits)
  show "\<exists>v. match_sensortype ty e = Inr v"
    using r(3,4) unfolding match_sensortype_def r(1)
    by (auto simp: sensor_type_off_def fields_ok_def id_code_off_def is_known_type_def intro!: b split: option.splits if_splits)
  show "\<exists>v. match_entity eid inst e = Inr v"
    using r(3,4) unfolding match_entity_def r(1)
    by (auto simp: entity_off_def fields_ok_def id_code_off_def is_known_type_def intro!: both_total b split: option.splits if_splits)
  show "\<exists>v. match_type ty e = Inr v" by (simp add: match_type_def)
  show "\<exists>v. match_id name e = Inr v"
  proof (cases "id_code_off (g_type r)")
    case (Some off)
    then have off: "off < length (g_data r)" using r(4) by (simp add: fields_ok_def)
    then have d: "drop (off + 1) (g_data r @ [0]) = drop (off + 1) (g_data r) @ [0]" by simp
    show ?thesis using Some off r strncmp_total [of _ "drop (off + 1) (g_data r)" name] by (simp add: match_id_def rec_byte_def d)
  qed (auto simp: match_id_def r(1))
qed

lemma sdr_do_refines:
  assumes "good_repo sr rs cur canc maxn" "sdr_state rs cur canc s" "\<forall>r \<in> set rs. fields_ok r"
  shows "\<exists>t. sdr_do sr op s = Inr (sdr_spec rs op, t) \<and> sdr_state rs cur canc t"
proof (cases op)
  case Cache
  then show ?thesis using list_cache_run [OF assms(1,2)] by (auto simp: mmap_def machine_simps sdr_state_def)
next
  case Empty_list
  then show ?thesis using assms(2)
    by (auto simp: mmap_def machine_simps ipmi_sdr_list_empty_def sdr_state_def sdr_fresh_def sdr_mid_def sdr_ready_def)
next
  case (By_numtype num ty)
  from find_one_run [OF assms(1,2) matches_total(1) [OF assms(3), of num ty]] show ?thesis
    unfolding By_numtype by (auto simp: mmap_def machine_simps ipmi_sdr_find_sdr_bynumtype_def)
next
  case (By_id name)
  from find_one_run [OF assms(1,2) matches_total(2) [OF assms(3), of name]] show ?thesis
    unfolding By_id by (auto simp: mmap_def machine_simps ipmi_sdr_find_sdr_byid_def)
next
  case (By_sensortype ty)
  from find_all_run [OF assms(1,2) matches_total(3) [OF assms(3), of ty]] show ?thesis
    unfolding By_sensortype by (auto simp: mmap_def machine_simps ipmi_sdr_find_sdr_bysensortype_def)
next
  case (By_entity eid inst)
  from find_all_run [OF assms(1,2) matches_total(4) [OF assms(3), of eid inst]] show ?thesis
    unfolding By_entity by (auto simp: mmap_def machine_simps ipmi_sdr_find_sdr_byentity_def)
next
  case (By_type ty)
  from find_all_run [OF assms(1,2) matches_total(5) [OF assms(3), of ty]] show ?thesis
    unfolding By_type by (auto simp: mmap_def machine_simps ipmi_sdr_find_sdr_bytype_def)
qed

text \<open>
  C6. The cache of sensor records is transparent. In front of a BMC that follows the specification, even one that refuses long reads and cancels the
  reservation up to four times, every sequence of lookups by number, name, sensor type, entity and record type, of fillings and emptyings of the
  cache, in any order, returns what the same lookups in the whole repository return: the first record that matches, or all of them in order.
\<close>

theorem sdr_lookups_refine:
  assumes "good_repo sr rs cur canc maxn" "sdr_fresh rs canc s" "\<forall>r \<in> set rs. fields_ok r"
  shows "\<exists>t. sdr_run sr ops s = Inr (map (sdr_spec rs) ops, t)"
proof -
  have "sdr_state rs cur canc s \<Longrightarrow> \<exists>t. sdr_run sr ops s = Inr (map (sdr_spec rs) ops, t)" for s
  proof (induction ops arbitrary: s)
    case (Cons op ops)
    obtain t where t: "sdr_do sr op s = Inr (sdr_spec rs op, t)" "sdr_state rs cur canc t" using sdr_do_refines [OF assms(1) Cons.prems assms(3)] by blast
    with Cons.IH [OF t(2)] show ?case by (auto simp: machine_simps)
  qed (simp add: machine_simps)
  then show ?thesis using assms(2) by (auto simp: sdr_state_def)
qed

text \<open>
  A BMC: its state is the current reservation and the number of cancellations to come.
\<close>

definition index_of :: "sdr_rec list \<Rightarrow> u16 \<Rightarrow> nat" where
  "index_of rs h = length (takeWhile (\<lambda>i. handle rs i \<noteq> h) [0..<length rs])"

definition sdr_bmc :: "sdr_rec list \<Rightarrow> nat \<Rightarrow> (u16 \<times> nat) transport" where
  "sdr_bmc rs maxn req s =
     (let q = rq_data req; i = index_of rs (of_le16 (drop 2 q))
      in if rq_netfn req = 0x06 then Inr (Some (answer 0 (replicate 15 0)), s)
         else if rq_cmd req = 0x20 then Inr (Some (answer 0 (0x51 # le16 (of_nat (length rs)))), s)
         else if rq_cmd req = 0x22 then Inr (Some (answer 0 (le16 (fst s + 1))), (fst s + 1, snd s))
         else if of_le16 q \<noteq> fst s then Inr (Some (answer 0xc5 []), s)
         else if snd s > 0 then Inr (Some (answer 0xc5 []), (fst s + 1, snd s - 1))
         else if unat (q ! 5) > maxn then Inr (Some (answer 0xca []), s)
         else Inr (Some (answer 0 (le16 (handle rs (Suc i)) @ bytes_at (rec_bytes (rs ! i)) (unat (q ! 4)) (unat (q ! 5)))), s))"

lemma of_le16_Cons [simp]: "of_le16 (ucast w # ucast (drop_bit 8 w) # xs) = w"
  using of_le16_le16 [of w] by (simp add: of_le16_def le16_def)

lemma index_of_handle:
  assumes "distinct (map (handle rs) [0..<length rs])" "i < length rs"
  shows "index_of rs (handle rs i) = i"
proof -
  have inj: "handle rs j \<noteq> handle rs i" if "j < i" for j
    using nth_eq_iff_index_eq [OF assms(1), of j i] that assms(2) by simp
  have "[0..<length rs] = [0..<i] @ i # [Suc i..<length rs]" using assms(2) by (metis upt_add_eq_append upt_conv_Cons le_add_diff_inverse less_imp_le_nat zero_le)
  moreover have "takeWhile (\<lambda>j. handle rs j \<noteq> handle rs i) ([0..<i] @ i # [Suc i..<length rs]) = [0..<i]"
    using inj by (subst takeWhile_append2) auto
  ultimately show ?thesis by (simp add: index_of_def)
qed

lemma sdr_bmc_device:
  assumes "repo_ok rs" "distinct (map (handle rs) [0..<length rs])" "maxn < 256"
  shows "sdr_device (sdr_bmc rs maxn) rs fst snd maxn"
proof -
  have get: "sdr_bmc rs maxn (sdr_get_rq False (fst s) (handle rs i) (of_nat off) (of_nat n)) s =
      (if snd s > 0 then Inr (Some (answer 0xc5 []), (fst s + 1, snd s - 1)) else if n > maxn then Inr (Some (answer 0xca []), s)
       else Inr (Some (answer 0 (le16 (handle rs (Suc i)) @ bytes_at (rec_bytes (rs ! i)) off n)), s))"
    if "i < length rs" "off + n \<le> length (rec_bytes (rs ! i))" for s i off n
  proof -
    have "length (rec_bytes (rs ! i)) < 256" using repo_record(2) [OF assms(1) that(1)] by (simp add: length_rec_bytes)
    then have u: "unat (of_nat off :: u8) = off" "unat (of_nat n :: u8) = n" using that(2) by (simp_all add: unat_of_nat)
    show ?thesis using u index_of_handle [OF assms(2) that(1)] by (simp add: sdr_bmc_def sdr_get_rq_def ipmi_request_def le16_def Let_def)
  qed
  have len: "length (bytes_at (rec_bytes (rs ! i)) off n) = n" if "off + n \<le> length (rec_bytes (rs ! i))" for i off n
    using that by (simp add: bytes_at_def)
  show ?thesis
    unfolding sdr_device_def
  proof (intro conjI allI impI)
    fix s i off n
    assume a: "i < length rs \<and> off + n \<le> length (rec_bytes (rs ! i)) \<and> 0 < n"
    then have l: "length (le16 (handle rs (Suc i)) @ bytes_at (rec_bytes (rs ! i)) off n) = n + 2" "n \<le> 255"
      using len [of off n i] repo_record(2) [OF assms(1), of i] by (auto simp: length_rec_bytes)
    show "\<exists>r t. sdr_bmc rs maxn (sdr_get_rq False (fst s) (handle rs i) (of_nat off) (of_nat n)) s = Inr (Some r, t) \<and>
        (r_ccode r = 0xc5 \<and> snd t < snd s \<or> fst t = fst s \<and> snd t \<le> snd s \<and> get_answer rs maxn i off n r)"
      using a get [of i off n s] l by (cases s) (auto simp: get_answer_def answer_def)
  qed (auto simp: sdr_bmc_def ipmi_request_def sdr_reserve_rq_def answer_def le16_def nth_append)
qed

definition demo_records :: "sdr_rec list" where
  "demo_records = [\<lparr>g_id = 1, g_version = 0x51, g_type = 1, g_data = replicate 42 7 @ [0xc2, 65, 66]\<rparr>,
     \<lparr>g_id = 9, g_version = 0x51, g_type = 0xc0, g_data = [1, 2, 3]\<rparr>,
     \<lparr>g_id = 2, g_version = 0x51, g_type = 3, g_data = [0x20, 0, 5, 7, 1, 4, 1, 0, 0, 0, 0, 0xc1, 67]\<rparr>]"

definition demo_sdr :: "(u16 \<times> nat) sdr" where
  "demo_sdr = \<lparr>d_bmc = (3, 2), d_use_built_in = False, d_max_read = 255, d_sdriana = 0, d_list = [], d_itr = None, d_mallocs = [], d_turns = 600\<rparr>"

lemma demo_repo: "good_repo (sdr_bmc demo_records 16) demo_records fst snd 16" "\<forall>r \<in> set demo_records. fields_ok r" "sdr_fresh demo_records snd demo_sdr"
proof -
  have "repo_ok demo_records" by code_simp
  moreover have "distinct (map (handle demo_records) [0..<length demo_records])" by (simp add: demo_records_def handle_def upt_rec)
  ultimately show "good_repo (sdr_bmc demo_records 16) demo_records fst snd 16" by (simp add: good_repo_def sdr_bmc_device)
  show "\<forall>r \<in> set demo_records. fields_ok r" by (simp add: demo_records_def fields_ok_def id_code_off_def)
  show "sdr_fresh demo_records snd demo_sdr" by (simp add: demo_sdr_def sdr_fresh_def sdr_ready_def demo_records_def)
qed

theorem sdr_lookups_refine_witness:
  "\<exists>t. sdr_run (sdr_bmc demo_records 16) [By_id [67], Cache, By_type 1, Empty_list, By_entity 7 0x7f] demo_sdr
    = Inr (map (sdr_spec demo_records) [By_id [67], Cache, By_type 1, Empty_list, By_entity 7 0x7f], t)"
  by (rule sdr_lookups_refine [OF demo_repo(1,3,2)])

end
