(* ===== verification/Sdr_Files.thy ===== *)
theory Sdr_Files
  imports Sdr_Lookup
begin

text \<open>
  The repository in a file, and what happens when the BMC does not keep to the specification.
\<close>

section \<open>Dump and load\<close>

definition raw_entry :: "sdr_rec list \<Rightarrow> nat \<Rightarrow> sdr_entry" where
  "raw_entry rs i = zero_entry\<lparr>l_id := handle rs i, l_version := g_version (rs ! i), l_type := g_type (rs ! i),
     l_length := of_nat (length (g_data (rs ! i))), l_raw := Some (g_data (rs ! i) @ [0])\<rparr>"

text \<open>The file: the records as the BMC sends them, the first one with the id 0 by which it was asked for.\<close>

definition file_record :: "sdr_rec list \<Rightarrow> nat \<Rightarrow> bytes" where
  "file_record rs i = le16 (handle rs i) @ [g_version (rs ! i), g_type (rs ! i), of_nat (length (g_data (rs ! i)))] @ g_data (rs ! i)"

lemma dump_loop_run:
  assumes "good_repo sr rs cur canc maxn" "sdr_ready canc (length rs) s" "t_next itr = handle rs k" "t_reservation itr = cur (d_bmc s)" "k \<le> length rs" "length rs - k < n"
  shows "\<exists>b m. dump_loop n sr itr s = Inr (True, s\<lparr>d_bmc := b, d_max_read := m, d_list := d_list s @ map (raw_entry rs) [k..<length rs]\<rparr>)
    \<and> canc b \<le> canc (d_bmc s) \<and> 2 \<le> m \<and> m \<le> 255"
  using assms(2-)
proof (induction n arbitrary: k s itr)
  case (Suc n)
  have dev: "sdr_device sr rs cur canc maxn" "5 \<le> maxn" "repo_ok rs" using assms(1) by (auto simp: good_repo_def)
  have st: "\<not> d_use_built_in s" "canc (d_bmc s) < 5" "d_mallocs s = []" "2 \<le> d_max_read s" "d_max_read s \<le> 255" using Suc.prems(1) by (auto simp: sdr_ready_def)
  show ?case
  proof (cases "k = length rs")
    case True
    then have "t_next itr = 0xffff" using Suc.prems(2) dev(3) by (simp add: handle_def repo_ok_def)
    with st True show ?thesis
      by (auto simp: ipmi_sdr_get_next_header_def machine_simps intro!: exI [of _ "d_bmc s"] exI [of _ "d_max_read s"])
  next
    case False
    then have k: "k < length rs" using Suc.prems(4) by simp
    obtain b where b: "ipmi_sdr_get_next_header sr itr s = Inr ((Some (header_of rs k), itr\<lparr>t_reservation := cur b, t_next := handle rs (Suc k)\<rparr>), s\<lparr>d_bmc := b\<rparr>)"
      "canc b \<le> canc (d_bmc s)"
      using get_next_header_reads [OF dev k st(1) Suc.prems(3,2) st(2)] by blast
    let ?itr = "itr\<lparr>t_reservation := cur b, t_next := handle rs (Suc k)\<rparr>"
    have "sdr_ready canc (length rs) (s\<lparr>d_bmc := b\<rparr>)" using Suc.prems(1) b(2) by (simp add: sdr_ready_def)
    then obtain b' m where b': "ipmi_sdr_get_record sr (header_of rs k) ?itr (s\<lparr>d_bmc := b\<rparr>)
        = Inr ((Some (g_data (rs ! k) @ [0]), ?itr\<lparr>t_reservation := cur b'\<rparr>), s\<lparr>d_bmc := b', d_max_read := m\<rparr>)" "canc b' \<le> canc b" "2 \<le> m" "m \<le> 255"
      using get_record_reads [OF assms(1) k, of "length rs" "s\<lparr>d_bmc := b\<rparr>" ?itr] by auto
    let ?s = "s\<lparr>d_bmc := b', d_max_read := m, d_list := d_list s @ [raw_entry rs k]\<rparr>"
    have rdy: "sdr_ready canc (length rs) ?s" using Suc.prems(1) b(2) b'(2-4) by (simp add: sdr_ready_def)
    have ar: "length rs - Suc k < n" using Suc.prems(5) k by linarith
    obtain b'' m' where run: "dump_loop n sr (?itr\<lparr>t_reservation := cur b'\<rparr>) ?s
        = Inr (True, ?s\<lparr>d_bmc := b'', d_max_read := m', d_list := d_list ?s @ map (raw_entry rs) [Suc k..<length rs]\<rparr>)" "canc b'' \<le> canc b'" "2 \<le> m'" "m' \<le> 255"
      using Suc.IH [OF rdy, of "?itr\<lparr>t_reservation := cur b'\<rparr>" "Suc k"] k ar by auto
    have e: "zero_entry\<lparr>l_id := h_id (header_of rs k), l_version := h_version (header_of rs k), l_type := h_type (header_of rs k),
        l_length := h_length (header_of rs k), l_raw := Some (g_data (rs ! k) @ [0])\<rparr> = raw_entry rs k"
      by (simp add: raw_entry_def header_of_def)
    have "dump_loop (Suc n) sr itr s = Inr (True, s\<lparr>d_bmc := b'', d_max_read := m', d_list := d_list s @ map (raw_entry rs) [k..<length rs]\<rparr>)"
      using b(1) b'(1) run(1) st(3) k by (simp add: machine_simps list_append_def e upt_conv_Cons)
    with b(2) b'(2) run(2-4) show ?thesis by (meson order_trans)
  qed
qed simp

lemma dump_write_run:
  assumes "repo_ok rs" "\<forall>i \<in> set is. i < length rs"
  shows "dump_write [] (map (raw_entry rs) is) = Inr (0, concat (map (file_record rs) is))"
  using assms(2)
proof (induction "is")
  case (Cons i "is")
  then have "unat (of_nat (length (g_data (rs ! i))) :: u8) = length (g_data (rs ! i))" using repo_record(3) [OF assms(1)] by simp
  with Cons show ?case by (simp add: raw_entry_def file_record_def dump_header_def)
qed simp

lemma fromfile_run:
  assumes "repo_ok rs" "\<forall>r \<in> set rs. known_version (g_version r)" "k \<le> length rs" "d_mallocs s = []"
  shows "\<exists>n. fromfile_loop (concat (map (file_record rs) [k..<length rs])) count s = Inr ((0, n), s\<lparr>d_list := d_list s @ entries rs k (length rs)\<rparr>)"
  using assms(3,4)
proof (induction "length rs - k" arbitrary: k s count)
  case 0
  then show ?case by (simp add: fromfile_loop.simps machine_simps entries_def)
next
  case (Suc n)
  then have k: "k < length rs" "n = length rs - Suc k" by auto
  let ?g = "g_data (rs ! k)" and ?rest = "concat (map (file_record rs) [Suc k..<length rs])"
  define img where "img = file_record rs k @ ?rest"
  note g = repo_record [OF assms(1) k(1)]
  have f: "of_le16 img = handle rs k" "img ! 2 = g_version (rs ! k)" "img ! 3 = g_type (rs ! k)" "unat (img ! 4) = length ?g" "drop 5 img = ?g @ ?rest" "5 \<le> length img"
    using g(3) by (simp_all add: img_def file_record_def le16_def)
  then have ne: "img \<noteq> []" by auto
  have v: "known_version (g_version (rs ! k))" using assms(2) k(1) by simp
  have e: "zero_entry\<lparr>l_id := handle rs k, l_type := g_type (rs ! k), l_record := Some (?g @ [0])\<rparr> = entry_at rs k"
    by (simp add: entry_at_def entry_of_def header_of_def)
  have step: "fromfile_loop img count s =
      (if is_known_type (g_type (rs ! k)) then fromfile_loop ?rest (count + 1) (s\<lparr>d_list := d_list s @ [entry_at rs k]\<rparr>) else fromfile_loop ?rest count s)"
    using f g(1) v Suc.prems(2) ne by (subst fromfile_loop.simps) (simp add: machine_simps list_append_def Let_def e)
  have whole: "concat (map (file_record rs) [k..<length rs]) = img" using k(1) by (simp add: upt_conv_Cons img_def)
  show ?case
  proof (cases "is_known_type (g_type (rs ! k))")
    case True
    with Suc.hyps(1) [OF k(2), of "s\<lparr>d_list := d_list s @ [entry_at rs k]\<rparr>" "count + 1"] k(1) Suc.prems(2) show ?thesis
      unfolding whole step by (simp add: entries_Cons)
  next
    case False
    with Suc.hyps(1) [OF k(2), of s count] k(1) Suc.prems(2) show ?thesis
      unfolding whole step by (simp add: entries_Cons)
  qed
qed

text \<open>
  C36. A dumped repository is the repository. In front of a BMC that follows the specification and whose records all have a version that the loader accepts, \<open>ipmi_sdr_dump_bin\<close> returns 0 and writes every record, and
  \<open>ipmi_sdr_list_cache_fromfile\<close> of that file returns 0 and leaves in the list exactly what \<open>ipmi_sdr_list_cache\<close> reads from the BMC, with an iterator
  that does not ask the BMC again.
\<close>

theorem sdr_dump_load_round_trip:
  assumes "good_repo sr rs cur canc maxn" "sdr_fresh rs canc s" "\<forall>r \<in> set rs. known_version (g_version r)"
    and "d_itr u = None" "d_list u = []" "d_mallocs u = []"
  shows "\<exists>file t1 t2 t3 itr. ipmi_sdr_dump_bin sr True [] s = Inr ((0, file), t1) \<and> ipmi_sdr_list_cache sr s = Inr (0, t2)
    \<and> ipmi_sdr_list_cache_fromfile (Some file) u = Inr (0, t3) \<and> d_list t3 = d_list t2 \<and> d_itr t3 = Some itr \<and> t_next itr = 0xffff \<and> d_bmc t3 = d_bmc u"
proof -
  have rs: "repo_ok rs" using assms(1) by (simp add: good_repo_def)
  have st: "sdr_ready canc (length rs) s" "d_list s = []" using assms(2) by (auto simp: sdr_fresh_def)
  obtain b v n where start: "ipmi_sdr_start sr s = Inr (Some \<lparr>t_reservation = cur b, t_total = n, t_next = 0\<rparr>, s\<lparr>d_bmc := b, d_sdriana := v\<rparr>)" "canc b \<le> canc (d_bmc s)"
    using start_run [OF assms(1) st(1)] by blast
  let ?s = "s\<lparr>d_bmc := b, d_sdriana := v\<rparr>"
  have "sdr_ready canc (length rs) ?s" "length rs < d_turns s" using st(1) start(2) by (auto simp: sdr_ready_def)
  then obtain b' m where dump: "dump_loop (d_turns s) sr \<lparr>t_reservation = cur b, t_total = n, t_next = 0\<rparr> ?s
      = Inr (True, ?s\<lparr>d_bmc := b', d_max_read := m, d_list := map (raw_entry rs) [0..<length rs]\<rparr>)"
    using dump_loop_run [OF assms(1), of ?s "\<lparr>t_reservation = cur b, t_total = n, t_next = 0\<rparr>" 0 "d_turns s"] st(2) by (auto simp: handle_def)
  have bin: "\<exists>t. ipmi_sdr_dump_bin sr True [] s = Inr ((0, concat (map (file_record rs) [0..<length rs])), t)"
    using start dump dump_write_run [OF rs, of "[0..<length rs]"] by (simp add: ipmi_sdr_dump_bin_def machine_simps lift_fault_def)
  obtain t2 where cache: "ipmi_sdr_list_cache sr s = Inr (0, t2)" "d_list t2 = entries rs 0 (length rs)"
    using list_cache_run [OF assms(1), of s] assms(2) by (auto simp: sdr_state_def sdr_mid_def)
  obtain n' where load: "fromfile_loop (concat (map (file_record rs) [0..<length rs])) 0 u = Inr ((0, n'), u\<lparr>d_list := entries rs 0 (length rs)\<rparr>)"
    using fromfile_run [OF rs assms(3), of 0 u 0] assms(5,6) by auto
  have "\<exists>t3 itr. ipmi_sdr_list_cache_fromfile (Some (concat (map (file_record rs) [0..<length rs]))) u = Inr (0, t3)
      \<and> d_list t3 = entries rs 0 (length rs) \<and> d_itr t3 = Some itr \<and> t_next itr = 0xffff \<and> d_bmc t3 = d_bmc u"
    using load assms(4,6) by (simp add: ipmi_sdr_list_cache_fromfile_def machine_simps)
  with bin cache show ?thesis by metis
qed

theorem sdr_dump_load_round_trip_witness:
  "\<exists>file t1 t2 t3 itr. ipmi_sdr_dump_bin (sdr_bmc demo_records 16) True [] demo_sdr = Inr ((0, file), t1)
    \<and> ipmi_sdr_list_cache (sdr_bmc demo_records 16) demo_sdr = Inr (0, t2)
    \<and> ipmi_sdr_list_cache_fromfile (Some file) demo_sdr = Inr (0, t3) \<and> d_list t3 = d_list t2 \<and> d_itr t3 = Some itr \<and> t_next itr = 0xffff \<and> d_bmc t3 = d_bmc demo_sdr"
  by (rule sdr_dump_load_round_trip [OF demo_repo(1,3)]) (simp_all add: demo_records_def known_version_def demo_sdr_def)

section \<open>Answers that are not checked\<close>

text \<open>
  A refused header is used as a header. When the BMC answers all five requests for a header with an error (other than the one for a lost reservation), \<open>ipmi_sdr_get_header\<close>
  still takes the bytes of the last answer, whatever they are, for the header of the record.
\<close>

theorem sdr_error_taken_for_header:
  assumes "\<And>s. sr (sdr_get_rq (d_use_built_in s0) (t_reservation itr) (t_next itr) 0 5) s = Inr (Some r, s)" "r_ccode r \<noteq> 0" "r_ccode r \<noteq> 0xc5" "r_data r ! 6 \<noteq> 0"
  shows "ipmi_sdr_get_header sr itr s0
    = Inr ((Some \<lparr>h_next = of_le16 (r_data r), h_id = t_next itr, h_version = r_data r ! 4, h_type = r_data r ! 5, h_length = r_data r ! 6\<rparr>, itr), s0)"
proof -
  have "sdr_send sr (sdr_get_rq (d_use_built_in s0) (t_reservation itr) (t_next itr) 0 5) s0 = Inr (Some r, s0)" using assms(1) by (simp add: sdr_send_def)
  moreover have "r_ccode r > 0" using assms(2) by (simp add: word_gt_0)
  ultimately have "get_header_tries n sr (Some r) itr s0 = Inr ((Some (Some r), itr), s0)" "get_header_tries (Suc n) sr rsp itr s0 = Inr ((Some (Some r), itr), s0)" for n rsp
    using assms(3) by (induction n arbitrary: rsp) (auto simp: machine_simps)
  then have "get_header_tries 5 sr None itr s0 = Inr ((Some (Some r), itr), s0)" by (simp only: numeral_eq_Suc pred_numeral_simps)
  then show ?thesis using assms(4) by (simp add: ipmi_sdr_get_header_def machine_simps Let_def)
qed

definition demo_itr :: sdr_iterator where
  "demo_itr = \<lparr>t_reservation = 0, t_total = 0, t_next = 0\<rparr>"

theorem sdr_error_taken_for_header_witness:
  "ipmi_sdr_get_header (\<lambda>req s. Inr (Some (answer 0xc1 (replicate 7 9)), s)) demo_itr demo_sdr
    = Inr ((Some \<lparr>h_next = of_le16 (r_data (answer 0xc1 (replicate 7 9))), h_id = t_next demo_itr, h_version = r_data (answer 0xc1 (replicate 7 9)) ! 4,
        h_type = r_data (answer 0xc1 (replicate 7 9)) ! 5, h_length = r_data (answer 0xc1 (replicate 7 9)) ! 6\<rparr>, demo_itr), demo_sdr)"
  by (rule sdr_error_taken_for_header) (simp_all add: answer_def nth_append)

definition refusing_bmc :: "nat \<Rightarrow> ipmi_rq \<Rightarrow> (nat, ipmi_rs option) machine" where
  "refusing_bmc k req n = Inr (Some (if n < k then answer 0xca [] else answer 0 (replicate 20 1)), Suc n)"

definition refused_sdr :: "nat \<Rightarrow> nat sdr" where
  "refused_sdr turns = \<lparr>d_bmc = 0, d_use_built_in = False, d_max_read = 255, d_sdriana = 0, d_list = [], d_itr = None, d_mallocs = [], d_turns = turns\<rparr>"

definition demo_header :: sdr_header where
  "demo_header = \<lparr>h_next = 0xffff, h_id = 0, h_version = 0x51, h_type = 1, h_length = 10\<rparr>"

lemma all_refused:
  "(\<And>s. \<exists>t. sdr_send sr (sdr_get_rq False (t_reservation itr) rid (of_int (i + 5)) (of_int (if int len - i < d_max_read s then int len - i else d_max_read s))) s
      = Inr (Some r, t) \<and> d_use_built_in t = d_use_built_in s) \<Longrightarrow> r_ccode r = 0xca \<Longrightarrow> i < int len \<Longrightarrow> \<not> d_use_built_in s \<Longrightarrow>
    get_record_loop n sr rid len itr i data s = Inl NoReturn"
proof (induction n arbitrary: s)
  case (Suc n)
  let ?rq = "sdr_get_rq False (t_reservation itr) rid (of_int (i + 5)) (of_int (if int len - i < d_max_read s then int len - i else d_max_read s))"
  obtain t where t: "sdr_send sr ?rq s = Inr (Some r, t)" "\<not> d_use_built_in t" using Suc.prems(1) [of s] Suc.prems(4) by auto
  have "get_record_loop n sr rid len itr i data (t\<lparr>d_max_read := d_max_read s div 2 - 1\<rparr>) = Inl NoReturn"
    using Suc.IH [OF Suc.prems(1-3)] t(2) by simp
  with t Suc.prems(2-4) show ?case by (simp add: machine_simps Let_def del: of_int_add)
qed (simp add: machine_simps)

text \<open>
  Refused reads lower the read size without a limit. A BMC that refuses every read of a record as too long keeps \<open>ipmi_sdr_get_record\<close> in its loop for
  ever; one that refuses eight reads and then accepts makes it copy 255 bytes into the array of the record: the read size, 255
  at first, has fallen to -1.
\<close>

theorem sdr_read_size_has_no_floor:
  assumes "\<And>req b. \<exists>b'. sr req b = Inr (Some r, b')" "r_ccode r = 0xca" "\<not> d_use_built_in s" "d_mallocs s = []"
  shows "ipmi_sdr_get_record sr demo_header itr s = Inl NoReturn
    \<and> ipmi_sdr_get_record (refusing_bmc 8) demo_header demo_itr (refused_sdr 100) = Inl BufferOverflow"
proof
  have send: "\<exists>t. sdr_send sr req u = Inr (Some r, t) \<and> d_use_built_in t = d_use_built_in u" for req u
    using assms(1) [of req "d_bmc u"] by (auto simp: sdr_send_def)
  have "get_record_loop (d_turns s) sr 0 10 itr 0 (replicate 11 0) s = Inl NoReturn"
    by (rule all_refused [where r = r]) (use send assms in auto)
  with assms(4) show "ipmi_sdr_get_record sr demo_header itr s = Inl NoReturn"
    by (simp add: ipmi_sdr_get_record_def demo_header_def machine_simps)
  show "ipmi_sdr_get_record (refusing_bmc 8) demo_header demo_itr (refused_sdr 100) = Inl BufferOverflow" by code_simp
qed

theorem sdr_read_size_has_no_floor_witness:
  "ipmi_sdr_get_record (\<lambda>req n. Inr (Some (answer 0xca []), n)) demo_header demo_itr (refused_sdr 100) = Inl NoReturn
    \<and> ipmi_sdr_get_record (refusing_bmc 8) demo_header demo_itr (refused_sdr 100) = Inl BufferOverflow"
  by (rule sdr_read_size_has_no_floor [where r = "answer 0xca []"]) (simp_all add: refused_sdr_def answer_def)

end
