(* ===== verification/Sdr_Value.thy ===== *)
theory Sdr_Value
  imports Complex_Main Ipmi_Cmd
begin

text \<open>
  From raw sensor readings to values and back (\<open>lib/ipmi_sdr.c\<close>, the macros of \<open>include/ipmitool/ipmi_sdr.h\<close>).

  A sensor is the bytes of its full record. A \<open>double\<close> is a real number: rounding is not modelled, and the theorem on the way back allows for
  it. A result that is not a number or infinite is None, and so is a conversion to an integer type that does not have the value, which C leaves undefined.
\<close>

section \<open>Fields\<close>

text \<open>\<open>tos32\<close>: the sign of a number of so many bits.\<close>

definition tos32 :: "u32 \<Rightarrow> nat \<Rightarrow> int" where
  "tos32 val bits = sint (if val AND push_bit (bits - 1) 1 \<noteq> 0 then (- (val AND push_bit (bits - 1) 1)) OR val else val)"

definition to_tol :: "bytes \<Rightarrow> u8" where
  "to_tol d = d ! 20 AND 0x3f"

definition to_m :: "bytes \<Rightarrow> int" where
  "to_m d = tos32 (ucast (d ! 19) OR push_bit 2 (ucast (d ! 20 AND 0xc0))) 10"

definition to_b :: "bytes \<Rightarrow> int" where
  "to_b d = tos32 (ucast (d ! 21) OR push_bit 2 (ucast (d ! 22 AND 0xc0))) 10"

definition to_b_exp :: "bytes \<Rightarrow> int" where
  "to_b_exp d = tos32 (ucast (d ! 24 AND 0x0f)) 4"

definition to_r_exp :: "bytes \<Rightarrow> int" where
  "to_r_exp d = tos32 (ucast (drop_bit 4 (d ! 24))) 4"

definition unit_analog :: "bytes \<Rightarrow> u8" where
  "unit_analog d = drop_bit 6 (d ! 15)"

section \<open>Conversions\<close>

definition linearize :: "u8 \<Rightarrow> real \<Rightarrow> real option" where
  "linearize l x =
     (let k = l AND 0x7f
      in if k = 0x01 then (if x > 0 then Some (ln x) else None)
         else if k = 0x02 then (if x > 0 then Some (log 10 x) else None)
         else if k = 0x03 then (if x > 0 then Some (ln x / ln 2) else None)
         else if k = 0x04 then Some (exp x)
         else if k = 0x05 then Some (10 powr x)
         else if k = 0x06 then Some (2 powr x)
         else if k = 0x07 then (if x \<noteq> 0 then Some (inverse x) else None)
         else if k = 0x08 then Some (x ^ 2)
         else if k = 0x09 then Some (x ^ 3)
         else if k = 0x0a then (if x \<ge> 0 then Some (sqrt x) else None)
         else if k = 0x0b then Some (root 3 x)
         else Some x)"

text \<open>The raw value as a number: unsigned, ones' complement or two's complement; None for a sensor that is not analog.\<close>

definition raw_number :: "u8 \<Rightarrow> u8 \<Rightarrow> int option" where
  "raw_number analog val =
     (if analog = 0 then Some (uint val)
      else if analog = 1 then Some (sint (if val AND 0x80 \<noteq> 0 then val + 1 else val))
      else if analog = 2 then Some (sint val)
      else None)"

definition sdr_convert_sensor_reading :: "bytes \<Rightarrow> u8 \<Rightarrow> real option" where
  "sdr_convert_sensor_reading sensor val =
     (case raw_number (unit_analog sensor) val of None \<Rightarrow> Some 0
      | Some v \<Rightarrow> linearize (sensor ! 18)
          ((of_int (to_m sensor * v) + of_int (to_b sensor) * 10 powi to_b_exp sensor) * 10 powi to_r_exp sensor))"

definition sdr_convert_sensor_hysterisis :: "bytes \<Rightarrow> u8 \<Rightarrow> real option" where
  "sdr_convert_sensor_hysterisis sensor val =
     (case raw_number (unit_analog sensor) val of None \<Rightarrow> Some 0
      | Some v \<Rightarrow> linearize (sensor ! 18) (of_int (to_m sensor * v) * 10 powi to_r_exp sensor))"

definition sdr_convert_sensor_tolerance :: "bytes \<Rightarrow> u8 \<Rightarrow> real option" where
  "sdr_convert_sensor_tolerance sensor val =
     (case raw_number (unit_analog sensor) val of None \<Rightarrow> Some 0
      | Some v \<Rightarrow> linearize (sensor ! 18) (of_int (to_m sensor) * (of_int v / 2) * 10 powi to_r_exp sensor))"

text \<open>Conversion of a \<open>double\<close> to an integer type drops the fraction.\<close>

definition ctrunc :: "real \<Rightarrow> int" where
  "ctrunc x = (if x \<ge> 0 then \<lfloor>x\<rfloor> else \<lceil>x\<rceil>)"

definition to_u8 :: "real \<Rightarrow> u8 option" where
  "to_u8 x = (if 0 \<le> ctrunc x \<and> ctrunc x \<le> 255 then Some (of_int (ctrunc x)) else None)"

definition sdr_convert_sensor_value_to_raw :: "bytes \<Rightarrow> real \<Rightarrow> u8 option" where
  "sdr_convert_sensor_value_to_raw sensor val =
     (if unit_analog sensor > 2 \<or> to_m sensor = 0 then Some 0
      else
        let result = (val / 10 powi to_r_exp sensor - of_int (to_b sensor) * 10 powi to_b_exp sensor) / of_int (to_m sensor)
        in if ctrunc result < - (2 ^ 31) \<or> 2 ^ 31 \<le> ctrunc result then None
           else if result - of_int (ctrunc result) \<ge> 1 / 2 then to_u8 (of_int \<lceil>result\<rceil>)
           else to_u8 result)"

section \<open>Signed fields\<close>

lemma zdiv_mult_self_le: "a div 2 ^ n * 2 ^ n \<le> (a :: int)"
proof -
  have "0 \<le> a mod 2 ^ n" by simp
  then show ?thesis using div_mult_mod_eq [of a "2 ^ n"] by linarith
qed

lemma tos32_signed:
  assumes "n < 31" "uint val < 2 ^ Suc n"
  shows "tos32 val (Suc n) = (if uint val < 2 ^ n then uint val else uint val - 2 ^ Suc n)"
proof -
  have bit: "val AND push_bit n 1 = (if bit val n then 2 ^ n else 0)"
    by (rule bit_word_eqI) (auto simp: bit_and_iff bit_push_bit_iff bit_simps)
  have high: "\<not> bit val i" if "n < i" for i
  proof -
    have "take_bit (Suc n) (uint val) = uint val" using assms(2) by (simp add: take_bit_int_eq_self)
    then have "\<not> bit (uint val) i" using that by (metis bit_take_bit_iff not_less_eq less_imp_not_less)
    then show ?thesis using bit_imp_le_length [of val i] by (auto simp: bit_uint_iff)
  qed
  define w where "w = (if val AND push_bit n 1 \<noteq> 0 then (- (val AND push_bit n 1)) OR val else val)"
  have nz: "(2 ^ n :: u32) \<noteq> 0" using assms(1) by (simp add: exp_eq_0_imp_not_bit)
  have w: "w = (if bit val n then NOT (mask n) OR val else val)" unfolding w_def bit using nz by (simp add: minus_exp_eq_not_mask)
  have wi: "bit w i \<longleftrightarrow> (if i < n then bit val i else bit val n)" if "i < 32" for i
    using that high [of i] assms(1) unfolding w by (cases "i = n") (auto simp: bit_or_iff bit_not_iff bit_mask_iff)
  have "sint w = signed_take_bit n (uint val)"
  proof (rule bit_eqI)
    fix i
    show "bit (sint w) i = bit (signed_take_bit n (uint val)) i"
      using wi [of i] wi [of 31] assms(1) bit_imp_le_length [of w i] by (cases "i < 32") (auto simp: bit_sint_iff bit_signed_take_bit_iff bit_uint_iff min_def)
  qed
  moreover have "signed_take_bit n (uint val) = take_bit (Suc n) (uint val) - 2 ^ Suc n * of_bool (bit (uint val) n)"
    by (rule signed_take_bit_eq_take_bit_minus)
  moreover have "bit (uint val) n \<longleftrightarrow> \<not> uint val < 2 ^ n"
  proof -
    have "uint val div 2 ^ n < 2"
    proof (rule ccontr)
      assume "\<not> uint val div 2 ^ n < 2"
      then have "2 * 2 ^ n \<le> uint val div 2 ^ n * 2 ^ n" by (intro mult_right_mono) auto
      also have "\<dots> \<le> uint val" by (rule zdiv_mult_self_le)
      finally show False using assms(2) by simp
    qed
    moreover have "0 \<le> uint val div 2 ^ n" by (simp add: pos_imp_zdiv_nonneg_iff)
    ultimately have "uint val div 2 ^ n = 0 \<or> uint val div 2 ^ n = 1" by linarith
    moreover have "uint val div 2 ^ n = 0 \<longleftrightarrow> uint val < 2 ^ n" by (auto simp: zdiv_eq_0_iff not_less)
    ultimately show ?thesis by (auto simp: bit_iff_odd)
  qed
  moreover have "tos32 val (Suc n) = sint w" by (simp only: tos32_def w_def diff_Suc_1)
  ultimately show ?thesis using assms(2) by (simp add: take_bit_int_eq_self)
qed

text \<open>
  The bytes from number 19 to 24 of a full sensor record as the specification lays them out: M and B in two's complement of ten bits, the low eight bits in a byte of
  their own and the high two on top of the next, with the tolerance and a part of the accuracy below; the rest of the accuracy; and the two exponents in
  two's complement of four bits.
\<close>

definition factor_bytes :: "int \<Rightarrow> u8 \<Rightarrow> int \<Rightarrow> u8 \<Rightarrow> u8 \<Rightarrow> int \<Rightarrow> int \<Rightarrow> bytes" where
  "factor_bytes m tol b acc acc' r_exp b_exp =
     [of_int m, push_bit 6 (of_int (m div 256)) OR (tol AND 0x3f), of_int b, push_bit 6 (of_int (b div 256)) OR (acc AND 0x3f), acc',
      push_bit 4 (of_int r_exp) OR (of_int b_exp AND 0x0f)]"

lemma masks: "(0xc0 :: u8) = push_bit 6 (mask 2)" "(0x3f :: u8) = mask 6" "(0x0f :: u8) = mask 4"
  by (simp_all add: mask_eq_exp_minus_1)

lemma ten_bits_of:
  "(ucast (of_int m :: u8) OR push_bit 2 (ucast ((push_bit 6 (of_int (m div 256)) OR (t AND 0x3f)) AND (0xc0 :: u8))) :: u32)
     = take_bit 10 (of_int m)"
proof -
  have m: "m div 256 = drop_bit 8 m" by (simp add: drop_bit_eq_div)
  show ?thesis unfolding masks m
    by (rule bit_word_eqI) (auto simp: bit_simps le_less_Suc_eq)
qed

lemma four_bits_of:
  "(ucast ((push_bit 4 (of_int r) OR (of_int b AND 0x0f)) AND (0x0f :: u8)) :: u32) = take_bit 4 (of_int b)"
  "(ucast (drop_bit 4 (push_bit 4 (of_int r) OR (of_int b AND 0x0f) :: u8)) :: u32) = take_bit 4 (of_int r)"
  unfolding masks by (rule bit_word_eqI, auto simp: bit_simps)+

lemma tos32_take_bit:
  assumes "n < 31" "- (2 ^ n) \<le> m" "m < 2 ^ n"
  shows "tos32 (take_bit (Suc n) (of_int m)) (Suc n) = m"
proof -
  have "uint (take_bit (Suc n) (of_int m) :: u32) = take_bit (Suc n) (take_bit 32 m)"
    by (simp only: unsigned_take_bit_eq unsigned_of_int) simp
  also have "\<dots> = take_bit (Suc n) m" using assms(1) by (simp only: take_bit_take_bit)
  finally have u: "uint (take_bit (Suc n) (of_int m) :: u32) = m mod 2 ^ Suc n" by (simp only: take_bit_eq_mod)
  have "uint (take_bit (Suc n) (of_int m) :: u32) < 2 ^ Suc n" unfolding u by simp
  from tos32_signed [OF assms(1) this] have t: "tos32 (take_bit (Suc n) (of_int m)) (Suc n) = (if m mod 2 ^ Suc n < 2 ^ n then m mod 2 ^ Suc n else m mod 2 ^ Suc n - 2 ^ Suc n)"
    unfolding u .
  show ?thesis
  proof (cases "0 \<le> m")
    case True
    then show ?thesis using assms(3) t by simp
  next
    case False
    then have "(m + 2 ^ Suc n) mod 2 ^ Suc n = m + 2 ^ Suc n" using assms(2) by (intro mod_pos_pos_trivial) auto
    then have "m mod 2 ^ Suc n = m + 2 ^ Suc n" by (simp only: mod_add_self2)
    then show ?thesis using False assms(2) t by simp
  qed
qed

text \<open>
  C38. The fields of a sensor record are decoded as the specification encodes them: from a record whose bytes 19 to 24 hold M, the tolerance, B, the accuracy and the exponents of the result and
  of B in the prescribed layout, the macros of \<open>ipmi_sdr.h\<close> give back exactly M and B, for all values of ten bits with their sign, the exponents, for all values of four bits
  with their sign, and the tolerance in its six bits, whatever the other bytes and the accuracy are.
\<close>

theorem sensor_fields_decoded:
  assumes "length front = 19" "- 512 \<le> m" "m < 512" "- 512 \<le> b" "b < 512" "- 8 \<le> r_exp" "r_exp < 8" "- 8 \<le> b_exp" "b_exp < 8"
    and d_def: "d = front @ factor_bytes m tol b acc acc' r_exp b_exp @ rest"
  shows "to_m d = m \<and> to_b d = b \<and> to_r_exp d = r_exp \<and> to_b_exp d = b_exp \<and> to_tol d = tol AND 0x3f"
proof -
  have d: "d ! 19 = of_int m" "d ! 20 = push_bit 6 (of_int (m div 256)) OR (tol AND 0x3f)" "d ! 21 = of_int b"
    "d ! 22 = push_bit 6 (of_int (b div 256)) OR (acc AND 0x3f)" "d ! 24 = push_bit 4 (of_int r_exp) OR (of_int b_exp AND 0x0f)"
    using assms(1) by (simp_all add: d_def factor_bytes_def nth_append numeral_eq_Suc)
  have "(push_bit 6 (of_int (m div 256)) OR (tol AND 0x3f)) AND 0x3f = tol AND (0x3f :: u8)"
    unfolding masks by (rule bit_word_eqI) (auto simp: bit_simps)
  then show ?thesis
    unfolding to_m_def to_b_def to_r_exp_def to_b_exp_def to_tol_def d ten_bits_of four_bits_of
    using assms(2-9) tos32_take_bit [of 9 m] tos32_take_bit [of 9 b] tos32_take_bit [of 3 r_exp] tos32_take_bit [of 3 b_exp] by simp
qed

theorem sensor_fields_decoded_witness:
  "to_m (replicate 19 0 @ factor_bytes (-300) 5 17 0 0 (-2) 1 @ [9]) = -300 \<and> to_r_exp (replicate 19 0 @ factor_bytes (-300) 5 17 0 0 (-2) 1 @ [9]) = -2"
proof -
  let ?d = "replicate 19 0 @ factor_bytes (-300) 5 17 0 0 (-2) 1 @ [9]"
  have "to_m ?d = -300 \<and> to_b ?d = 17 \<and> to_r_exp ?d = -2 \<and> to_b_exp ?d = 1 \<and> to_tol ?d = 5 AND 0x3f"
    by (rule sensor_fields_decoded [where front = "replicate 19 0" and rest = "[9]"]) simp_all
  then show ?thesis by blast
qed

section \<open>There and back\<close>

lemma ctrunc_near:
  assumes "0 \<le> v" "\<bar>x - of_int v\<bar> < 1 / 2"
  shows "(if x - of_int (ctrunc x) \<ge> 1 / 2 then ctrunc (of_int \<lceil>x\<rceil>) else ctrunc x) = v" "\<bar>ctrunc x\<bar> \<le> v + 1"
proof -
  consider "of_int v \<le> x" | "x < of_int v" "0 \<le> x" | "x < 0" by linarith
  then have "(if x - of_int (ctrunc x) \<ge> 1 / 2 then ctrunc (of_int \<lceil>x\<rceil>) else ctrunc x) = v \<and> \<bar>ctrunc x\<bar> \<le> v + 1"
  proof cases
    case 1
    then have "\<lfloor>x\<rfloor> = v" "0 \<le> x" using assms by (auto simp: floor_eq_iff abs_less_iff)
    then show ?thesis using assms by (auto simp: ctrunc_def abs_less_iff)
  next
    case 2
    then have "\<lfloor>x\<rfloor> = v - 1" "\<lceil>x\<rceil> = v" using assms by (auto simp: floor_eq_iff ceiling_eq_iff abs_less_iff)
    then show ?thesis using assms 2 by (auto simp: ctrunc_def abs_less_iff)
  next
    case 3
    then have "v = 0" "\<lceil>x\<rceil> = 0" using assms by (auto simp: ceiling_eq_iff abs_less_iff)
    then show ?thesis using assms 3 by (auto simp: ctrunc_def)
  qed
  then show "(if x - of_int (ctrunc x) \<ge> 1 / 2 then ctrunc (of_int \<lceil>x\<rceil>) else ctrunc x) = v" "\<bar>ctrunc x\<bar> \<le> v + 1" by auto
qed

text \<open>
  C37. A converted reading is converted back to its raw value. For a linear sensor with a multiplier other than zero, unsigned, or two's complement with a reading that is not negative,
  every value that is less than half a step of the sensor away from the converted reading, so also one spoilt by rounding, is converted to the raw reading it came from. The
  conversion back of a negative reading is undefined: it converts a negative \<open>double\<close> to \<open>uint8_t\<close>.
\<close>

theorem sensor_value_round_trip:
  assumes "to_m sensor \<noteq> 0" "sensor ! 18 AND 0x7f = 0" "unit_analog sensor = 0 \<or> unit_analog sensor = 2"
    and "sdr_convert_sensor_reading sensor raw = Some val" "\<bar>val' - val\<bar> < \<bar>of_int (to_m sensor)\<bar> * 10 powi to_r_exp sensor / 2"
  shows "(unit_analog sensor = 0 \<or> 0 \<le> sint raw \<longrightarrow> sdr_convert_sensor_value_to_raw sensor val' = Some raw)
    \<and> (unit_analog sensor = 2 \<and> sint raw < 0 \<longrightarrow> sdr_convert_sensor_value_to_raw sensor val = None)"
proof -
  obtain v where v: "raw_number (unit_analog sensor) raw = Some v" using assms(3) by (auto simp: raw_number_def)
  let ?m = "of_int (to_m sensor) :: real" and ?k = "10 powi to_r_exp sensor :: real" and ?b = "of_int (to_b sensor) * 10 powi to_b_exp sensor :: real"
  have k: "?k > 0" by simp
  have val: "val = (?m * of_int v + ?b) * ?k" using assms(2,4) v by (simp add: sdr_convert_sensor_reading_def linearize_def Let_def)
  define x where "x = (val' / ?k - ?b) / ?m"
  have conv: "sdr_convert_sensor_value_to_raw sensor y =
      (let result = (y / ?k - ?b) / ?m in if ctrunc result < - (2 ^ 31) \<or> 2 ^ 31 \<le> ctrunc result then None
       else if result - of_int (ctrunc result) \<ge> 1 / 2 then to_u8 (of_int \<lceil>result\<rceil>) else to_u8 result)" for y
    using assms(1,3) by (auto simp: sdr_convert_sensor_value_to_raw_def)
  have "x - of_int v = (val' - val) / (?k * ?m)" using assms(1) k unfolding x_def val by (simp add: field_simps)
  then have near: "\<bar>x - of_int v\<bar> < 1 / 2"
    using assms(1,5) k by (simp add: abs_mult divide_less_eq) (simp add: mult.commute)
  show ?thesis
  proof (intro conjI impI)
    assume a: "unit_analog sensor = 0 \<or> 0 \<le> sint raw"
    have r: "0 \<le> v" "v \<le> 255" "of_int v = raw"
      using v a assms(3) sint_less [of raw] unsigned_less [of raw, where 'a = int] by (auto simp: raw_number_def split: if_splits)
    note t = ctrunc_near [OF r(1) near]
    have "- (2 ^ 31) \<le> ctrunc x \<and> ctrunc x < 2 ^ 31" using t(2) r by (simp add: abs_le_iff)
    then show "sdr_convert_sensor_value_to_raw sensor val' = Some raw"
      using t(1) r unfolding conv by (auto simp: to_u8_def Let_def simp flip: x_def split: if_splits)
  next
    assume a: "unit_analog sensor = 2 \<and> sint raw < 0"
    then have r: "v < 0" "- 128 \<le> v" using v sint_ge [of raw] by (auto simp: raw_number_def split: if_splits)
    have "(val / ?k - ?b) / ?m = of_int v" using assms(1) k unfolding val by (simp add: field_simps)
    then show "sdr_convert_sensor_value_to_raw sensor val = None" using r unfolding conv by (simp add: ctrunc_def to_u8_def)
  qed
qed

text \<open>A sensor of temperature: M is 2, B is 5, both exponents are 0.\<close>

definition demo_sensor :: bytes where
  "demo_sensor = replicate 19 0 @ [2, 0, 5, 0, 0, 0] @ replicate 34 0"

theorem sensor_value_round_trip_witness: "sdr_convert_sensor_value_to_raw demo_sensor 25.5 = Some 10"
proof -
  have f: "to_m demo_sensor = 2" "to_b demo_sensor = 5" "to_r_exp demo_sensor = 0" "to_b_exp demo_sensor = 0" "unit_analog demo_sensor = 0" "demo_sensor ! 18 = 0"
    by code_simp+
  show ?thesis
    using sensor_value_round_trip [of demo_sensor 10 25 "25.5"] by (simp add: f sdr_convert_sensor_reading_def raw_number_def linearize_def)
qed

end
