(* ===== verification/Sel_Tables.thy ===== *)
theory Sel_Tables
  imports Prelude
begin

text \<open>
  The tables of event descriptions (\<open>include/ipmitool/ipmi_sel.h\<close> and the one of \<open>lib/ipmi_sel.c\<close>), without the entry that ends a table.
\<close>

record ipmi_event_sensor_types =
  v_code :: u8
  v_offset :: u8
  v_data :: u8
  v_class :: u8
  v_type :: string
  v_desc :: "string option"

definition evrow :: "u8 \<Rightarrow> u8 \<Rightarrow> u8 \<Rightarrow> u8 \<Rightarrow> string \<Rightarrow> string option \<Rightarrow> ipmi_event_sensor_types" where
  "evrow c ofs d k t ds = \<lparr>v_code = c, v_offset = ofs, v_data = d, v_class = k, v_type = t, v_desc = ds\<rparr>"

definition oem_kontron_event_types :: "ipmi_event_sensor_types list" where
  "oem_kontron_event_types =
    [evrow 0xc0 0xff 0xff 0 ''OEM Firmware Info'' None,
     evrow 0xc0 0xff 0xff 0 ''OEM Firmware Info'' None,
     evrow 0xc1 0x00 0xff 0 ''Board Reset(cPCI)'' (Some ''Push Button''),
     evrow 0xc1 0x01 0xff 0 ''Board Reset(cPCI)'' (Some ''Bridge Reset''),
     evrow 0xc1 0x02 0xff 0 ''Board Reset(cPCI)'' (Some ''Backplane''),
     evrow 0xc1 0x03 0xff 0 ''Board Reset(cPCI)'' (Some ''Hotswap Fault''),
     evrow 0xc1 0x04 0xff 0 ''Board Reset(cPCI)'' (Some ''Hotswap Healty''),
     evrow 0xc1 0x05 0xff 0 ''Board Reset(cPCI)'' (Some ''Unknown''),
     evrow 0xc1 0x06 0xff 0 ''Board Reset(cPCI)'' (Some ''ITP''),
     evrow 0xc1 0x07 0xff 0 ''Board Reset(cPCI)'' (Some ''Hardware Watchdog''),
     evrow 0xc1 0x08 0xff 0 ''Board Reset(cPCI)'' (Some ''Software Reset''),
     evrow 0xc2 0xff 0xff 1 ''SDRR Init Agent'' None,
     evrow 0xc3 0x02 0xff 0 ''IPMB-L Link State'' (Some ''IPMB L Disabled''),
     evrow 0xc3 0x03 0xff 0 ''IPMB-L Link State'' (Some ''IPMB L Enabled''),
     evrow 0xc4 0x00 0xff 0 ''Board Reset'' (Some ''Push Button''),
     evrow 0xc4 0x01 0xff 0 ''Board Reset'' (Some ''Hardware Power Failure''),
     evrow 0xc4 0x02 0xff 0 ''Board Reset'' (Some ''Unknown''),
     evrow 0xc4 0x03 0xff 0 ''Board Reset'' (Some ''Hardware Watchdog''),
     evrow 0xc4 0x04 0xff 0 ''Board Reset'' (Some ''Soft Reset''),
     evrow 0xc4 0x05 0xff 0 ''Board Reset'' (Some ''Warm Reset''),
     evrow 0xc4 0x06 0xff 0 ''Board Reset'' (Some ''Cold Reset''),
     evrow 0xc4 0x07 0xff 0 ''Board Reset'' (Some ''IPMI Command''),
     evrow 0xc4 0x08 0xff 0 ''Board Reset'' (Some ''Setup Reset (Save CMOS)''),
     evrow 0xc4 0x09 0xff 0 ''Board Reset'' (Some ''Power Up Reset''),
     evrow 0xc5 0xff 0xff 0 ''FRU Information Agent'' None,
     evrow 0xc6 0x0e 0xff 0 ''POST Value'' (Some ''Post Error (see data2)''),
     evrow 0xc7 0x00 0xff 0 ''FWUM Status'' (Some ''First Boot After Upgrade''),
     evrow 0xc7 0x01 0xff 0 ''FWUM Status'' (Some ''First Boot After Rollback(error)''),
     evrow 0xc7 0x02 0xff 0 ''FWUM Status'' (Some ''First Boot After Errors (watchdog)''),
     evrow 0xc7 0x03 0xff 0 ''FWUM Status'' (Some ''First Boot After Manual Rollback''),
     evrow 0xc7 0x08 0xff 0 ''FWUM Status'' (Some ''Firmware Watchdog Bite, reset occured''),
     evrow 0xc8 0x00 0xff 0 ''Switch Mngt Software Status'' (Some ''Not Loaded''),
     evrow 0xc8 0x01 0xff 0 ''Switch Mngt Software Status'' (Some ''Initializing''),
     evrow 0xc8 0x02 0xff 0 ''Switch Mngt Software Status'' (Some ''Ready''),
     evrow 0xc8 0x03 0xff 0 ''Switch Mngt Software Status'' (Some ''Failure (see data2)''),
     evrow 0xc9 0x00 0xff 0 ''Diagnostic Status'' (Some ''Started''),
     evrow 0xc9 0x01 0xff 0 ''Diagnostic Status'' (Some ''Pass''),
     evrow 0xc9 0x02 0xff 0 ''Diagnostic Status'' (Some ''Fail'')]"

definition generic_event_types :: "ipmi_event_sensor_types list" where
  "generic_event_types =
    [evrow 0x01 0x00 0xff 2 ''Threshold'' (Some ''Lower Non-critical going low ''),
     evrow 0x01 0x01 0xff 2 ''Threshold'' (Some ''Lower Non-critical going high''),
     evrow 0x01 0x02 0xff 2 ''Threshold'' (Some ''Lower Critical going low ''),
     evrow 0x01 0x03 0xff 2 ''Threshold'' (Some ''Lower Critical going high''),
     evrow 0x01 0x04 0xff 2 ''Threshold'' (Some ''Lower Non-recoverable going low ''),
     evrow 0x01 0x05 0xff 2 ''Threshold'' (Some ''Lower Non-recoverable going high''),
     evrow 0x01 0x06 0xff 2 ''Threshold'' (Some ''Upper Non-critical going low ''),
     evrow 0x01 0x07 0xff 2 ''Threshold'' (Some ''Upper Non-critical going high''),
     evrow 0x01 0x08 0xff 2 ''Threshold'' (Some ''Upper Critical going low ''),
     evrow 0x01 0x09 0xff 2 ''Threshold'' (Some ''Upper Critical going high''),
     evrow 0x01 0x0a 0xff 2 ''Threshold'' (Some ''Upper Non-recoverable going low ''),
     evrow 0x01 0x0b 0xff 2 ''Threshold'' (Some ''Upper Non-recoverable going high''),
     evrow 0x02 0x00 0xff 0 ''Usage State'' (Some ''Transition to Idle''),
     evrow 0x02 0x01 0xff 0 ''Usage State'' (Some ''Transition to Active''),
     evrow 0x02 0x02 0xff 0 ''Usage State'' (Some ''Transition to Busy''),
     evrow 0x03 0x00 0xff 1 ''Digital State'' (Some ''State Deasserted''),
     evrow 0x03 0x01 0xff 1 ''Digital State'' (Some ''State Asserted''),
     evrow 0x04 0x00 0xff 1 ''Digital State'' (Some ''Predictive Failure Deasserted''),
     evrow 0x04 0x01 0xff 1 ''Digital State'' (Some ''Predictive Failure Asserted''),
     evrow 0x05 0x00 0xff 1 ''Digital State'' (Some ''Limit Not Exceeded''),
     evrow 0x05 0x01 0xff 1 ''Digital State'' (Some ''Limit Exceeded''),
     evrow 0x06 0x00 0xff 1 ''Digital State'' (Some ''Performance Met''),
     evrow 0x06 0x01 0xff 1 ''Digital State'' (Some ''Performance Lags''),
     evrow 0x07 0x00 0xff 0 ''Severity State'' (Some ''Transition to OK''),
     evrow 0x07 0x01 0xff 0 ''Severity State'' (Some ''Transition to Non-critical from OK''),
     evrow 0x07 0x02 0xff 0 ''Severity State'' (Some ''Transition to Critical from less severe''),
     evrow 0x07 0x03 0xff 0 ''Severity State'' (Some ''Transition to Non-recoverable from less severe''),
     evrow 0x07 0x04 0xff 0 ''Severity State'' (Some ''Transition to Non-critical from more severe''),
     evrow 0x07 0x05 0xff 0 ''Severity State'' (Some ''Transition to Critical from Non-recoverable''),
     evrow 0x07 0x06 0xff 0 ''Severity State'' (Some ''Transition to Non-recoverable''),
     evrow 0x07 0x07 0xff 0 ''Severity State'' (Some ''Monitor''),
     evrow 0x07 0x08 0xff 0 ''Severity State'' (Some ''Informational''),
     evrow 0x08 0x00 0xff 1 ''Availability State'' (Some ''Device Absent''),
     evrow 0x08 0x01 0xff 1 ''Availability State'' (Some ''Device Present''),
     evrow 0x09 0x00 0xff 1 ''Availability State'' (Some ''Device Disabled''),
     evrow 0x09 0x01 0xff 1 ''Availability State'' (Some ''Device Enabled''),
     evrow 0x0a 0x00 0xff 0 ''Availability State'' (Some ''Transition to Running''),
     evrow 0x0a 0x01 0xff 0 ''Availability State'' (Some ''Transition to In Test''),
     evrow 0x0a 0x02 0xff 0 ''Availability State'' (Some ''Transition to Power Off''),
     evrow 0x0a 0x03 0xff 0 ''Availability State'' (Some ''Transition to On Line''),
     evrow 0x0a 0x04 0xff 0 ''Availability State'' (Some ''Transition to Off Line''),
     evrow 0x0a 0x05 0xff 0 ''Availability State'' (Some ''Transition to Off Duty''),
     evrow 0x0a 0x06 0xff 0 ''Availability State'' (Some ''Transition to Degraded''),
     evrow 0x0a 0x07 0xff 0 ''Availability State'' (Some ''Transition to Power Save''),
     evrow 0x0a 0x08 0xff 0 ''Availability State'' (Some ''Install Error''),
     evrow 0x0b 0x00 0xff 0 ''Redundancy State'' (Some ''Fully Redundant''),
     evrow 0x0b 0x01 0xff 0 ''Redundancy State'' (Some ''Redundancy Lost''),
     evrow 0x0b 0x02 0xff 0 ''Redundancy State'' (Some ''Redundancy Degraded''),
     evrow 0x0b 0x03 0xff 0 ''Redundancy State'' (Some ''Non-Redundant: Sufficient from Redundant''),
     evrow 0x0b 0x04 0xff 0 ''Redundancy State'' (Some ''Non-Redundant: Sufficient from Insufficient''),
     evrow 0x0b 0x05 0xff 0 ''Redundancy State'' (Some ''Non-Redundant: Insufficient Resources''),
     evrow 0x0b 0x06 0xff 0 ''Redundancy State'' (Some ''Redundancy Degraded from Fully Redundant''),
     evrow 0x0b 0x07 0xff 0 ''Redundancy State'' (Some ''Redundancy Degraded from Non-Redundant''),
     evrow 0x0c 0x00 0xff 0 ''ACPI Device Power State'' (Some ''D0 Power State''),
     evrow 0x0c 0x01 0xff 0 ''ACPI Device Power State'' (Some ''D1 Power State''),
     evrow 0x0c 0x02 0xff 0 ''ACPI Device Power State'' (Some ''D2 Power State''),
     evrow 0x0c 0x03 0xff 0 ''ACPI Device Power State'' (Some ''D3 Power State'')]"

definition sensor_specific_types_1 :: "ipmi_event_sensor_types list" where
  "sensor_specific_types_1 =
    [evrow 0x00 0x00 0xff 0 ''Reserved'' None,
     evrow 0x01 0x00 0xff 0 ''Temperature'' None,
     evrow 0x02 0x00 0xff 0 ''Voltage'' None,
     evrow 0x03 0x00 0xff 0 ''Current'' None,
     evrow 0x04 0x00 0xff 0 ''Fan'' None,
     evrow 0x05 0x00 0xff 0 ''Physical Security'' (Some ''General Chassis intrusion''),
     evrow 0x05 0x01 0xff 0 ''Physical Security'' (Some ''Drive Bay intrusion''),
     evrow 0x05 0x02 0xff 0 ''Physical Security'' (Some ''I/O Card area intrusion''),
     evrow 0x05 0x03 0xff 0 ''Physical Security'' (Some ''Processor area intrusion''),
     evrow 0x05 0x04 0xff 0 ''Physical Security'' (Some ''System unplugged from LAN''),
     evrow 0x05 0x05 0xff 0 ''Physical Security'' (Some ''Unauthorized dock''),
     evrow 0x05 0x06 0xff 0 ''Physical Security'' (Some ''FAN area intrusion''),
     evrow 0x06 0x00 0xff 0 ''Platform Security'' (Some ''Front Panel Lockout violation attempted''),
     evrow 0x06 0x01 0xff 0 ''Platform Security'' (Some ''Pre-boot password violation - user password''),
     evrow 0x06 0x02 0xff 0 ''Platform Security'' (Some ''Pre-boot password violation - setup password''),
     evrow 0x06 0x03 0xff 0 ''Platform Security'' (Some ''Pre-boot password violation - network boot password''),
     evrow 0x06 0x04 0xff 0 ''Platform Security'' (Some ''Other pre-boot password violation''),
     evrow 0x06 0x05 0xff 0 ''Platform Security'' (Some ''Out-of-band access password violation''),
     evrow 0x07 0x00 0xff 0 ''Processor'' (Some ''IERR''),
     evrow 0x07 0x01 0xff 0 ''Processor'' (Some ''Thermal Trip''),
     evrow 0x07 0x02 0xff 0 ''Processor'' (Some ''FRB1/BIST failure''),
     evrow 0x07 0x03 0xff 0 ''Processor'' (Some ''FRB2/Hang in POST failure''),
     evrow 0x07 0x04 0xff 0 ''Processor'' (Some ''FRB3/Processor startup/init failure''),
     evrow 0x07 0x05 0xff 0 ''Processor'' (Some ''Configuration Error''),
     evrow 0x07 0x06 0xff 0 ''Processor'' (Some ''SM BIOS Uncorrectable CPU-complex Error''),
     evrow 0x07 0x07 0xff 0 ''Processor'' (Some ''Presence detected''),
     evrow 0x07 0x08 0xff 0 ''Processor'' (Some ''Disabled''),
     evrow 0x07 0x09 0xff 0 ''Processor'' (Some ''Terminator presence detected''),
     evrow 0x07 0x0a 0xff 0 ''Processor'' (Some ''Throttled''),
     evrow 0x08 0x00 0xff 0 ''Power Supply'' (Some ''Presence detected''),
     evrow 0x08 0x01 0xff 0 ''Power Supply'' (Some ''Failure detected''),
     evrow 0x08 0x02 0xff 0 ''Power Supply'' (Some ''Predictive failure''),
     evrow 0x08 0x03 0xff 0 ''Power Supply'' (Some ''Power Supply AC lost''),
     evrow 0x08 0x04 0xff 0 ''Power Supply'' (Some ''AC lost or out-of-range''),
     evrow 0x08 0x05 0xff 0 ''Power Supply'' (Some ''AC out-of-range, but present''),
     evrow 0x08 0x06 0x00 0 ''Power Supply'' (Some ''Config Error: Vendor Mismatch''),
     evrow 0x08 0x06 0x01 0 ''Power Supply'' (Some ''Config Error: Revision Mismatch''),
     evrow 0x08 0x06 0x02 0 ''Power Supply'' (Some ''Config Error: Processor Missing''),
     evrow 0x08 0x06 0xff 0 ''Power Supply'' (Some ''Config Error''),
     evrow 0x09 0x00 0xff 0 ''Power Unit'' (Some ''Power off/down''),
     evrow 0x09 0x01 0xff 0 ''Power Unit'' (Some ''Power cycle''),
     evrow 0x09 0x02 0xff 0 ''Power Unit'' (Some ''240VA power down''),
     evrow 0x09 0x03 0xff 0 ''Power Unit'' (Some ''Interlock power down''),
     evrow 0x09 0x04 0xff 0 ''Power Unit'' (Some ''AC lost''),
     evrow 0x09 0x05 0xff 0 ''Power Unit'' (Some ''Soft-power control failure''),
     evrow 0x09 0x06 0xff 0 ''Power Unit'' (Some ''Failure detected''),
     evrow 0x09 0x07 0xff 0 ''Power Unit'' (Some ''Predictive failure''),
     evrow 0x0a 0x00 0xff 0 ''Cooling Device'' None,
     evrow 0x0b 0x00 0xff 0 ''Other Units-based Sensor'' None,
     evrow 0x0c 0x00 0xff 0 ''Memory'' (Some ''Correctable ECC''),
     evrow 0x0c 0x01 0xff 0 ''Memory'' (Some ''Uncorrectable ECC''),
     evrow 0x0c 0x02 0xff 0 ''Memory'' (Some ''Parity''),
     evrow 0x0c 0x03 0xff 0 ''Memory'' (Some ''Memory Scrub Failed''),
     evrow 0x0c 0x04 0xff 0 ''Memory'' (Some ''Memory Device Disabled''),
     evrow 0x0c 0x05 0xff 0 ''Memory'' (Some ''Correctable ECC logging limit reached''),
     evrow 0x0c 0x06 0xff 0 ''Memory'' (Some ''Presence Detected''),
     evrow 0x0c 0x07 0xff 0 ''Memory'' (Some ''Configuration Error''),
     evrow 0x0c 0x08 0xff 0 ''Memory'' (Some ''Spare''),
     evrow 0x0c 0x09 0xff 0 ''Memory'' (Some ''Throttled''),
     evrow 0x0d 0x00 0xff 0 ''Drive Slot'' (Some ''Drive Present''),
     evrow 0x0d 0x01 0xff 0 ''Drive Slot'' (Some ''Drive Fault''),
     evrow 0x0d 0x02 0xff 0 ''Drive Slot'' (Some ''Predictive Failure''),
     evrow 0x0d 0x03 0xff 0 ''Drive Slot'' (Some ''Hot Spare''),
     evrow 0x0d 0x04 0xff 0 ''Drive Slot'' (Some ''Parity Check In Progress''),
     evrow 0x0d 0x05 0xff 0 ''Drive Slot'' (Some ''In Critical Array''),
     evrow 0x0d 0x06 0xff 0 ''Drive Slot'' (Some ''In Failed Array''),
     evrow 0x0d 0x07 0xff 0 ''Drive Slot'' (Some ''Rebuild In Progress''),
     evrow 0x0d 0x08 0xff 0 ''Drive Slot'' (Some ''Rebuild Aborted'')]"

definition sensor_specific_types_2 :: "ipmi_event_sensor_types list" where
  "sensor_specific_types_2 =
    [evrow 0x0e 0x00 0xff 0 ''POST Memory Resize'' None,
     evrow 0x0f 0x00 0x00 0 ''System Firmware Error'' (Some ''Unspecified''),
     evrow 0x0f 0x00 0x01 0 ''System Firmware Error'' (Some ''No system memory installed''),
     evrow 0x0f 0x00 0x02 0 ''System Firmware Error'' (Some ''No usable system memory''),
     evrow 0x0f 0x00 0x03 0 ''System Firmware Error'' (Some ''Unrecoverable IDE device failure''),
     evrow 0x0f 0x00 0x04 0 ''System Firmware Error'' (Some ''Unrecoverable system-board failure''),
     evrow 0x0f 0x00 0x05 0 ''System Firmware Error'' (Some ''Unrecoverable diskette failure''),
     evrow 0x0f 0x00 0x06 0 ''System Firmware Error'' (Some ''Unrecoverable hard-disk controller failure''),
     evrow 0x0f 0x00 0x07 0 ''System Firmware Error'' (Some ''Unrecoverable PS/2 or USB keyboard failure''),
     evrow 0x0f 0x00 0x08 0 ''System Firmware Error'' (Some ''Removable boot media not found''),
     evrow 0x0f 0x00 0x09 0 ''System Firmware Error'' (Some ''Unrecoverable video controller failure''),
     evrow 0x0f 0x00 0x0a 0 ''System Firmware Error'' (Some ''No video device selected''),
     evrow 0x0f 0x00 0x0b 0 ''System Firmware Error'' (Some ''BIOS corruption detected''),
     evrow 0x0f 0x00 0x0c 0 ''System Firmware Error'' (Some ''CPU voltage mismatch''),
     evrow 0x0f 0x00 0x0d 0 ''System Firmware Error'' (Some ''CPU speed mismatch failure''),
     evrow 0x0f 0x00 0xff 0 ''System Firmware Error'' (Some ''Unknown Error''),
     evrow 0x0f 0x01 0x00 0 ''System Firmware Hang'' (Some ''Unspecified''),
     evrow 0x0f 0x01 0x01 0 ''System Firmware Hang'' (Some ''Memory initialization''),
     evrow 0x0f 0x01 0x02 0 ''System Firmware Hang'' (Some ''Hard-disk initialization''),
     evrow 0x0f 0x01 0x03 0 ''System Firmware Hang'' (Some ''Secondary CPU Initialization''),
     evrow 0x0f 0x01 0x04 0 ''System Firmware Hang'' (Some ''User authentication''),
     evrow 0x0f 0x01 0x05 0 ''System Firmware Hang'' (Some ''User-initiated system setup''),
     evrow 0x0f 0x01 0x06 0 ''System Firmware Hang'' (Some ''USB resource configuration''),
     evrow 0x0f 0x01 0x07 0 ''System Firmware Hang'' (Some ''PCI resource configuration''),
     evrow 0x0f 0x01 0x08 0 ''System Firmware Hang'' (Some ''Option ROM initialization''),
     evrow 0x0f 0x01 0x09 0 ''System Firmware Hang'' (Some ''Video initialization''),
     evrow 0x0f 0x01 0x0a 0 ''System Firmware Hang'' (Some ''Cache initialization''),
     evrow 0x0f 0x01 0x0b 0 ''System Firmware Hang'' (Some ''SMBus initialization''),
     evrow 0x0f 0x01 0x0c 0 ''System Firmware Hang'' (Some ''Keyboard controller initialization''),
     evrow 0x0f 0x01 0x0d 0 ''System Firmware Hang'' (Some ''Management controller initialization''),
     evrow 0x0f 0x01 0x0e 0 ''System Firmware Hang'' (Some ''Docking station attachment''),
     evrow 0x0f 0x01 0x0f 0 ''System Firmware Hang'' (Some ''Enabling docking station''),
     evrow 0x0f 0x01 0x10 0 ''System Firmware Hang'' (Some ''Docking station ejection''),
     evrow 0x0f 0x01 0x11 0 ''System Firmware Hang'' (Some ''Disabling docking station''),
     evrow 0x0f 0x01 0x12 0 ''System Firmware Hang'' (Some ''Calling operating system wake-up vector''),
     evrow 0x0f 0x01 0x13 0 ''System Firmware Hang'' (Some ''System boot initiated''),
     evrow 0x0f 0x01 0x14 0 ''System Firmware Hang'' (Some ''Motherboard initialization''),
     evrow 0x0f 0x01 0x15 0 ''System Firmware Hang'' (Some ''reserved''),
     evrow 0x0f 0x01 0x16 0 ''System Firmware Hang'' (Some ''Floppy initialization''),
     evrow 0x0f 0x01 0x17 0 ''System Firmware Hang'' (Some ''Keyboard test''),
     evrow 0x0f 0x01 0x18 0 ''System Firmware Hang'' (Some ''Pointing device test''),
     evrow 0x0f 0x01 0x19 0 ''System Firmware Hang'' (Some ''Primary CPU initialization''),
     evrow 0x0f 0x01 0xff 0 ''System Firmware Hang'' (Some ''Unknown Hang''),
     evrow 0x0f 0x02 0x00 0 ''System Firmware Progress'' (Some ''Unspecified''),
     evrow 0x0f 0x02 0x01 0 ''System Firmware Progress'' (Some ''Memory initialization''),
     evrow 0x0f 0x02 0x02 0 ''System Firmware Progress'' (Some ''Hard-disk initialization''),
     evrow 0x0f 0x02 0x03 0 ''System Firmware Progress'' (Some ''Secondary CPU Initialization''),
     evrow 0x0f 0x02 0x04 0 ''System Firmware Progress'' (Some ''User authentication''),
     evrow 0x0f 0x02 0x05 0 ''System Firmware Progress'' (Some ''User-initiated system setup''),
     evrow 0x0f 0x02 0x06 0 ''System Firmware Progress'' (Some ''USB resource configuration''),
     evrow 0x0f 0x02 0x07 0 ''System Firmware Progress'' (Some ''PCI resource configuration''),
     evrow 0x0f 0x02 0x08 0 ''System Firmware Progress'' (Some ''Option ROM initialization''),
     evrow 0x0f 0x02 0x09 0 ''System Firmware Progress'' (Some ''Video initialization''),
     evrow 0x0f 0x02 0x0a 0 ''System Firmware Progress'' (Some ''Cache initialization''),
     evrow 0x0f 0x02 0x0b 0 ''System Firmware Progress'' (Some ''SMBus initialization''),
     evrow 0x0f 0x02 0x0c 0 ''System Firmware Progress'' (Some ''Keyboard controller initialization''),
     evrow 0x0f 0x02 0x0d 0 ''System Firmware Progress'' (Some ''Management controller initialization''),
     evrow 0x0f 0x02 0x0e 0 ''System Firmware Progress'' (Some ''Docking station attachment''),
     evrow 0x0f 0x02 0x0f 0 ''System Firmware Progress'' (Some ''Enabling docking station''),
     evrow 0x0f 0x02 0x10 0 ''System Firmware Progress'' (Some ''Docking station ejection''),
     evrow 0x0f 0x02 0x11 0 ''System Firmware Progress'' (Some ''Disabling docking station''),
     evrow 0x0f 0x02 0x12 0 ''System Firmware Progress'' (Some ''Calling operating system wake-up vector''),
     evrow 0x0f 0x02 0x13 0 ''System Firmware Progress'' (Some ''System boot initiated''),
     evrow 0x0f 0x02 0x14 0 ''System Firmware Progress'' (Some ''Motherboard initialization''),
     evrow 0x0f 0x02 0x15 0 ''System Firmware Progress'' (Some ''reserved''),
     evrow 0x0f 0x02 0x16 0 ''System Firmware Progress'' (Some ''Floppy initialization''),
     evrow 0x0f 0x02 0x17 0 ''System Firmware Progress'' (Some ''Keyboard test''),
     evrow 0x0f 0x02 0x18 0 ''System Firmware Progress'' (Some ''Pointing device test''),
     evrow 0x0f 0x02 0x19 0 ''System Firmware Progress'' (Some ''Primary CPU initialization''),
     evrow 0x0f 0x02 0xff 0 ''System Firmware Progress'' (Some ''Unknown Progress'')]"

definition sensor_specific_types_3 :: "ipmi_event_sensor_types list" where
  "sensor_specific_types_3 =
    [evrow 0x10 0x00 0xff 0 ''Event Logging Disabled'' (Some ''Correctable memory error logging disabled''),
     evrow 0x10 0x01 0xff 0 ''Event Logging Disabled'' (Some ''Event logging disabled''),
     evrow 0x10 0x02 0xff 0 ''Event Logging Disabled'' (Some ''Log area reset/cleared''),
     evrow 0x10 0x03 0xff 0 ''Event Logging Disabled'' (Some ''All event logging disabled''),
     evrow 0x10 0x04 0xff 0 ''Event Logging Disabled'' (Some ''Log full''),
     evrow 0x10 0x05 0xff 0 ''Event Logging Disabled'' (Some ''Log almost full''),
     evrow 0x11 0x00 0xff 0 ''Watchdog 1'' (Some ''BIOS Reset''),
     evrow 0x11 0x01 0xff 0 ''Watchdog 1'' (Some ''OS Reset''),
     evrow 0x11 0x02 0xff 0 ''Watchdog 1'' (Some ''OS Shut Down''),
     evrow 0x11 0x03 0xff 0 ''Watchdog 1'' (Some ''OS Power Down''),
     evrow 0x11 0x04 0xff 0 ''Watchdog 1'' (Some ''OS Power Cycle''),
     evrow 0x11 0x05 0xff 0 ''Watchdog 1'' (Some ''OS NMI/Diag Interrupt''),
     evrow 0x11 0x06 0xff 0 ''Watchdog 1'' (Some ''OS Expired''),
     evrow 0x11 0x07 0xff 0 ''Watchdog 1'' (Some ''OS pre-timeout Interrupt''),
     evrow 0x12 0x00 0xff 0 ''System Event'' (Some ''System Reconfigured''),
     evrow 0x12 0x01 0xff 0 ''System Event'' (Some ''OEM System boot event''),
     evrow 0x12 0x02 0xff 0 ''System Event'' (Some ''Undetermined system hardware failure''),
     evrow 0x12 0x03 0xff 0 ''System Event'' (Some ''Entry added to auxiliary log''),
     evrow 0x12 0x04 0xff 0 ''System Event'' (Some ''PEF Action''),
     evrow 0x12 0x05 0xff 0 ''System Event'' (Some ''Timestamp Clock Sync''),
     evrow 0x13 0x00 0xff 0 ''Critical Interrupt'' (Some ''NMI/Diag Interrupt''),
     evrow 0x13 0x01 0xff 0 ''Critical Interrupt'' (Some ''Bus Timeout''),
     evrow 0x13 0x02 0xff 0 ''Critical Interrupt'' (Some ''I/O Channel check NMI''),
     evrow 0x13 0x03 0xff 0 ''Critical Interrupt'' (Some ''Software NMI''),
     evrow 0x13 0x04 0xff 0 ''Critical Interrupt'' (Some ''PCI PERR''),
     evrow 0x13 0x05 0xff 0 ''Critical Interrupt'' (Some ''PCI SERR''),
     evrow 0x13 0x06 0xff 0 ''Critical Interrupt'' (Some ''EISA failsafe timeout''),
     evrow 0x13 0x07 0xff 0 ''Critical Interrupt'' (Some ''Bus Correctable error''),
     evrow 0x13 0x08 0xff 0 ''Critical Interrupt'' (Some ''Bus Uncorrectable error''),
     evrow 0x13 0x09 0xff 0 ''Critical Interrupt'' (Some ''Fatal NMI''),
     evrow 0x13 0x0a 0xff 0 ''Critical Interrupt'' (Some ''Bus Fatal Error''),
     evrow 0x14 0x00 0xff 0 ''Button'' (Some ''Power Button pressed''),
     evrow 0x14 0x01 0xff 0 ''Button'' (Some ''Sleep Button pressed''),
     evrow 0x14 0x02 0xff 0 ''Button'' (Some ''Reset Button pressed''),
     evrow 0x14 0x03 0xff 0 ''Button'' (Some ''FRU Latch''),
     evrow 0x14 0x04 0xff 0 ''Button'' (Some ''FRU Service''),
     evrow 0x15 0x00 0xff 0 ''Module/Board'' None,
     evrow 0x16 0x00 0xff 0 ''Microcontroller/Coprocessor'' None,
     evrow 0x17 0x00 0xff 0 ''Add-in Card'' None,
     evrow 0x18 0x00 0xff 0 ''Chassis'' None,
     evrow 0x19 0x00 0xff 0 ''Chip Set'' None,
     evrow 0x1a 0x00 0xff 0 ''Other FRU'' None,
     evrow 0x1b 0x00 0xff 0 ''Cable/Interconnect'' (Some ''Connected''),
     evrow 0x1b 0x01 0xff 0 ''Cable/Interconnect'' (Some ''Config Error''),
     evrow 0x1c 0x00 0xff 0 ''Terminator'' None,
     evrow 0x1d 0x00 0xff 0 ''System Boot Initiated'' (Some ''Initiated by power up''),
     evrow 0x1d 0x01 0xff 0 ''System Boot Initiated'' (Some ''Initiated by hard reset''),
     evrow 0x1d 0x02 0xff 0 ''System Boot Initiated'' (Some ''Initiated by warm reset''),
     evrow 0x1d 0x03 0xff 0 ''System Boot Initiated'' (Some ''User requested PXE boot''),
     evrow 0x1d 0x04 0xff 0 ''System Boot Initiated'' (Some ''Automatic boot to diagnostic''),
     evrow 0x1d 0x05 0xff 0 ''System Boot Initiated'' (Some ''OS initiated hard reset''),
     evrow 0x1d 0x06 0xff 0 ''System Boot Initiated'' (Some ''OS initiated warm reset''),
     evrow 0x1d 0x07 0xff 0 ''System Boot Initiated'' (Some ''System Restart''),
     evrow 0x1e 0x00 0xff 0 ''Boot Error'' (Some ''No bootable media''),
     evrow 0x1e 0x01 0xff 0 ''Boot Error'' (Some ''Non-bootable disk in drive''),
     evrow 0x1e 0x02 0xff 0 ''Boot Error'' (Some ''PXE server not found''),
     evrow 0x1e 0x03 0xff 0 ''Boot Error'' (Some ''Invalid boot sector''),
     evrow 0x1e 0x04 0xff 0 ''Boot Error'' (Some ''Timeout waiting for selection''),
     evrow 0x1f 0x00 0xff 0 ''OS Boot'' (Some ''A: boot completed''),
     evrow 0x1f 0x01 0xff 0 ''OS Boot'' (Some ''C: boot completed''),
     evrow 0x1f 0x02 0xff 0 ''OS Boot'' (Some ''PXE boot completed''),
     evrow 0x1f 0x03 0xff 0 ''OS Boot'' (Some ''Diagnostic boot completed''),
     evrow 0x1f 0x04 0xff 0 ''OS Boot'' (Some ''CD-ROM boot completed''),
     evrow 0x1f 0x05 0xff 0 ''OS Boot'' (Some ''ROM boot completed''),
     evrow 0x1f 0x06 0xff 0 ''OS Boot'' (Some ''boot completed - device not specified'')]"

definition sensor_specific_types_4 :: "ipmi_event_sensor_types list" where
  "sensor_specific_types_4 =
    [evrow 0x20 0x00 0xff 0 ''OS Stop/Shutdown'' (Some ''Error during system startup''),
     evrow 0x20 0x01 0xff 0 ''OS Stop/Shutdown'' (Some ''Run-time critical stop''),
     evrow 0x20 0x02 0xff 0 ''OS Stop/Shutdown'' (Some ''OS graceful stop''),
     evrow 0x20 0x03 0xff 0 ''OS Stop/Shutdown'' (Some ''OS graceful shutdown''),
     evrow 0x20 0x04 0xff 0 ''OS Stop/Shutdown'' (Some ''PEF initiated soft shutdown''),
     evrow 0x20 0x05 0xff 0 ''OS Stop/Shutdown'' (Some ''Agent not responding''),
     evrow 0x21 0x00 0xff 0 ''Slot/Connector'' (Some ''Fault Status''),
     evrow 0x21 0x01 0xff 0 ''Slot/Connector'' (Some ''Identify Status''),
     evrow 0x21 0x02 0xff 0 ''Slot/Connector'' (Some ''Device Installed''),
     evrow 0x21 0x03 0xff 0 ''Slot/Connector'' (Some ''Ready for Device Installation''),
     evrow 0x21 0x04 0xff 0 ''Slot/Connector'' (Some ''Ready for Device Removal''),
     evrow 0x21 0x05 0xff 0 ''Slot/Connector'' (Some ''Slot Power is Off''),
     evrow 0x21 0x06 0xff 0 ''Slot/Connector'' (Some ''Device Removal Request''),
     evrow 0x21 0x07 0xff 0 ''Slot/Connector'' (Some ''Interlock''),
     evrow 0x21 0x08 0xff 0 ''Slot/Connector'' (Some ''Slot is Disabled''),
     evrow 0x21 0x09 0xff 0 ''Slot/Connector'' (Some ''Spare Device''),
     evrow 0x22 0x00 0xff 0 ''System ACPI Power State'' (Some ''S0/G0: working''),
     evrow 0x22 0x01 0xff 0 ''System ACPI Power State'' (Some ''S1: sleeping with system hw & processor context maintained''),
     evrow 0x22 0x02 0xff 0 ''System ACPI Power State'' (Some ''S2: sleeping, processor context lost''),
     evrow 0x22 0x03 0xff 0 ''System ACPI Power State'' (Some ''S3: sleeping, processor & hw context lost, memory retained''),
     evrow 0x22 0x04 0xff 0 ''System ACPI Power State'' (Some ''S4: non-volatile sleep/suspend-to-disk''),
     evrow 0x22 0x05 0xff 0 ''System ACPI Power State'' (Some ''S5/G2: soft-off''),
     evrow 0x22 0x06 0xff 0 ''System ACPI Power State'' (Some ''S4/S5: soft-off''),
     evrow 0x22 0x07 0xff 0 ''System ACPI Power State'' (Some ''G3: mechanical off''),
     evrow 0x22 0x08 0xff 0 ''System ACPI Power State'' (Some ''Sleeping in S1/S2/S3 state''),
     evrow 0x22 0x09 0xff 0 ''System ACPI Power State'' (Some ''G1: sleeping''),
     evrow 0x22 0x0a 0xff 0 ''System ACPI Power State'' (Some ''S5: entered by override''),
     evrow 0x22 0x0b 0xff 0 ''System ACPI Power State'' (Some ''Legacy ON state''),
     evrow 0x22 0x0c 0xff 0 ''System ACPI Power State'' (Some ''Legacy OFF state''),
     evrow 0x22 0x0e 0xff 0 ''System ACPI Power State'' (Some ''Unknown''),
     evrow 0x23 0x00 0xff 0 ''Watchdog 2'' (Some ''Timer expired''),
     evrow 0x23 0x01 0xff 0 ''Watchdog 2'' (Some ''Hard reset''),
     evrow 0x23 0x02 0xff 0 ''Watchdog 2'' (Some ''Power down''),
     evrow 0x23 0x03 0xff 0 ''Watchdog 2'' (Some ''Power cycle''),
     evrow 0x23 0x04 0xff 0 ''Watchdog 2'' (Some ''reserved''),
     evrow 0x23 0x05 0xff 0 ''Watchdog 2'' (Some ''reserved''),
     evrow 0x23 0x06 0xff 0 ''Watchdog 2'' (Some ''reserved''),
     evrow 0x23 0x07 0xff 0 ''Watchdog 2'' (Some ''reserved''),
     evrow 0x23 0x08 0xff 0 ''Watchdog 2'' (Some ''Timer interrupt''),
     evrow 0x24 0x00 0xff 0 ''Platform Alert'' (Some ''Platform generated page''),
     evrow 0x24 0x01 0xff 0 ''Platform Alert'' (Some ''Platform generated LAN alert''),
     evrow 0x24 0x02 0xff 0 ''Platform Alert'' (Some ''Platform Event Trap generated''),
     evrow 0x24 0x03 0xff 0 ''Platform Alert'' (Some ''Platform generated SNMP trap, OEM format''),
     evrow 0x25 0x00 0xff 0 ''Entity Presence'' (Some ''Present''),
     evrow 0x25 0x01 0xff 0 ''Entity Presence'' (Some ''Absent''),
     evrow 0x25 0x02 0xff 0 ''Entity Presence'' (Some ''Disabled''),
     evrow 0x26 0x00 0xff 0 ''Monitor ASIC/IC'' None,
     evrow 0x27 0x00 0xff 0 ''LAN'' (Some ''Heartbeat Lost''),
     evrow 0x27 0x01 0xff 0 ''LAN'' (Some ''Heartbeat''),
     evrow 0x28 0x00 0xff 0 ''Management Subsystem Health'' (Some ''Sensor access degraded or unavailable''),
     evrow 0x28 0x01 0xff 0 ''Management Subsystem Health'' (Some ''Controller access degraded or unavailable''),
     evrow 0x28 0x02 0xff 0 ''Management Subsystem Health'' (Some ''Management controller off-line''),
     evrow 0x28 0x03 0xff 0 ''Management Subsystem Health'' (Some ''Management controller unavailable''),
     evrow 0x28 0x04 0xff 0 ''Management Subsystem Health'' (Some ''Sensor failure''),
     evrow 0x28 0x05 0xff 0 ''Management Subsystem Health'' (Some ''FRU failure''),
     evrow 0x29 0x00 0xff 0 ''Battery'' (Some ''Low''),
     evrow 0x29 0x01 0xff 0 ''Battery'' (Some ''Failed''),
     evrow 0x29 0x02 0xff 0 ''Battery'' (Some ''Presence Detected''),
     evrow 0x2b 0x00 0xff 0 ''Version Change'' (Some ''Hardware change detected''),
     evrow 0x2b 0x01 0xff 0 ''Version Change'' (Some ''Firmware or software change detected''),
     evrow 0x2b 0x02 0xff 0 ''Version Change'' (Some ''Hardware incompatibility detected''),
     evrow 0x2b 0x03 0xff 0 ''Version Change'' (Some ''Firmware or software incompatibility detected''),
     evrow 0x2b 0x04 0xff 0 ''Version Change'' (Some ''Invalid or unsupported hardware version''),
     evrow 0x2b 0x05 0xff 0 ''Version Change'' (Some ''Invalid or unsupported firmware or software version''),
     evrow 0x2b 0x06 0xff 0 ''Version Change'' (Some ''Hardware change success''),
     evrow 0x2b 0x07 0xff 0 ''Version Change'' (Some ''Firmware or software change success'')]"

definition sensor_specific_types_5 :: "ipmi_event_sensor_types list" where
  "sensor_specific_types_5 =
    [evrow 0x2c 0x00 0xff 0 ''FRU State'' (Some ''Not Installed''),
     evrow 0x2c 0x01 0xff 0 ''FRU State'' (Some ''Inactive''),
     evrow 0x2c 0x02 0xff 0 ''FRU State'' (Some ''Activation Requested''),
     evrow 0x2c 0x03 0xff 0 ''FRU State'' (Some ''Activation in Progress''),
     evrow 0x2c 0x04 0xff 0 ''FRU State'' (Some ''Active''),
     evrow 0x2c 0x05 0xff 0 ''FRU State'' (Some ''Deactivation Requested''),
     evrow 0x2c 0x06 0xff 0 ''FRU State'' (Some ''Deactivation in Progress''),
     evrow 0x2c 0x07 0xff 0 ''FRU State'' (Some ''Communication lost''),
     evrow 0xf0 0x00 0xff 0 ''FRU Hot Swap'' (Some ''Transition to M0''),
     evrow 0xf0 0x01 0xff 0 ''FRU Hot Swap'' (Some ''Transition to M1''),
     evrow 0xf0 0x02 0xff 0 ''FRU Hot Swap'' (Some ''Transition to M2''),
     evrow 0xf0 0x03 0xff 0 ''FRU Hot Swap'' (Some ''Transition to M3''),
     evrow 0xf0 0x04 0xff 0 ''FRU Hot Swap'' (Some ''Transition to M4''),
     evrow 0xf0 0x05 0xff 0 ''FRU Hot Swap'' (Some ''Transition to M5''),
     evrow 0xf0 0x06 0xff 0 ''FRU Hot Swap'' (Some ''Transition to M6''),
     evrow 0xf0 0x06 0xff 0 ''FRU Hot Swap'' (Some ''Transition to M7''),
     evrow 0xf1 0x00 0xff 0 ''IPMB-0 Status'' (Some ''IPMB-A disabled, IPMB-B disabled''),
     evrow 0xf1 0x01 0xff 0 ''IPMB-0 Status'' (Some ''IPMB-A enabled, IPMB-B disabled''),
     evrow 0xf1 0x02 0xff 0 ''IPMB-0 Status'' (Some ''IPMB-A disabled, IPMB-B enabled''),
     evrow 0xf1 0x03 0xff 0 ''IPMB-0 Status'' (Some ''IPMB-A enabled, IPMP-B enabled''),
     evrow 0xf2 0x00 0xff 0 ''Module Hot Swap'' (Some ''Module Handle Closed''),
     evrow 0xf2 0x01 0xff 0 ''Module Hot Swap'' (Some ''Module Handle Opened''),
     evrow 0xf2 0x02 0xff 0 ''Module Hot Swap'' (Some ''Quiesced''),
     evrow 0xc0 0x00 0xff 0 ''OEM'' (Some ''OEM Specific'')]"

definition sensor_specific_types :: "ipmi_event_sensor_types list" where
  "sensor_specific_types =
     sensor_specific_types_1 @ sensor_specific_types_2 @ sensor_specific_types_3 @ sensor_specific_types_4 @ sensor_specific_types_5"

text \<open>This table has no entry that ends it.\<close>

definition oem_kontron_event_reading_types :: "ipmi_event_sensor_types list" where
  "oem_kontron_event_reading_types =
    [evrow 0x70 0x00 0xff 0 ''OEM Firmware Info 1'' (Some ''Reserved''),
     evrow 0x71 0x00 0xff 0 ''OEM Firmware Info 2'' (Some ''Reserved'')]"

text \<open>The completion codes of \<open>lib/ipmi_strings.c\<close> and the units of \<open>include/ipmitool/ipmi_sdr.h\<close>.\<close>

definition completion_code_vals :: "(u16 \<times> string) list" where
  "completion_code_vals =
    [(0x00, ''Command completed normally''),
     (0xc0, ''Node busy''),
     (0xc1, ''Invalid command''),
     (0xc2, ''Invalid command on LUN''),
     (0xc3, ''Timeout''),
     (0xc4, ''Out of space''),
     (0xc5, ''Reservation cancelled or invalid''),
     (0xc6, ''Request data truncated''),
     (0xc7, ''Request data length invalid''),
     (0xc8, ''Request data field length limit exceeded''),
     (0xc9, ''Parameter out of range''),
     (0xca, ''Cannot return number of requested data bytes''),
     (0xcb, ''Requested sensor, data, or record not found''),
     (0xcc, ''Invalid data field in request''),
     (0xcd, ''Command illegal for specified sensor or record type''),
     (0xce, ''Command response could not be provided''),
     (0xcf, ''Cannot execute duplicated request''),
     (0xd0, ''SDR Repository in update mode''),
     (0xd1, ''Device firmeware in update mode''),
     (0xd2, ''BMC initialization in progress''),
     (0xd3, ''Destination unavailable''),
     (0xd4, ''Insufficient privilege level''),
     (0xd5, ''Command not supported in present state''),
     (0xff, ''Unspecified error'')]"

definition unit_desc :: "string list" where
  "unit_desc =
    [''unspecified'', ''degrees C'', ''degrees F'', ''degrees K'', ''Volts'', ''Amps'',
     ''Watts'', ''Joules'', ''Coulombs'', ''VA'', ''Nits'', ''lumen'',
     ''lux'', ''Candela'', ''kPa'', ''PSI'', ''Newton'', ''CFM'',
     ''RPM'', ''Hz'', ''microsecond'', ''millisecond'', ''second'', ''minute'',
     ''hour'', ''day'', ''week'', ''mil'', ''inches'', ''feet'',
     ''cu in'', ''cu feet'', ''mm'', ''cm'', ''m'', ''cu cm'',
     ''cu m'', ''liters'', ''fluid ounce'', ''radians'', ''steradians'', ''revolutions'',
     ''cycles'', ''gravities'', ''ounce'', ''pound'', ''ft-lb'', ''oz-in'',
     ''gauss'', ''gilberts'', ''henry'', ''millihenry'', ''farad'', ''microfarad'',
     ''ohms'', ''siemens'', ''mole'', ''becquerel'', ''PPM'', ''reserved'',
     ''Decibels'', ''DbA'', ''DbC'', ''gray'', ''sievert'', ''color temp deg K'',
     ''bit'', ''kilobit'', ''megabit'', ''gigabit'', ''byte'', ''kilobyte'',
     ''megabyte'', ''gigabyte'', ''word'', ''dword'', ''qword'', ''line'',
     ''hit'', ''miss'', ''retry'', ''reset'', ''overflow'', ''underrun'',
     ''collision'', ''packets'', ''messages'', ''characters'', ''error'', ''correctable error'',
     ''uncorrectable error'']"

text \<open>Every text of a table fits on a line of a file: it has no line end and at most 80 characters.\<close>

definition plain_text :: "string \<Rightarrow> bool" where
  "plain_text s \<longleftrightarrow> CHR 0x0A \<notin> set s \<and> CHR 0x00 \<notin> set s \<and> length s \<le> 80"

definition plain_row :: "ipmi_event_sensor_types \<Rightarrow> bool" where
  "plain_row r \<longleftrightarrow> plain_text (v_type r) \<and> (case v_desc r of None \<Rightarrow> True | Some d \<Rightarrow> plain_text d)"

lemma generic_rows_plain: "list_all plain_row generic_event_types"
  by code_simp

lemma specific_rows_plain:
  "list_all plain_row sensor_specific_types_1" "list_all plain_row sensor_specific_types_2"
  "list_all plain_row sensor_specific_types_3" "list_all plain_row sensor_specific_types_4"
  "list_all plain_row sensor_specific_types_5"
  by code_simp+

lemma sensor_specific_rows_plain: "list_all plain_row sensor_specific_types"
  using specific_rows_plain by (simp add: sensor_specific_types_def)

end
