(* ===== verification/Sel.thy ===== *)
theory Sel
  imports Sdr Sdr_Value Sel_Tables Fru_Text
begin

text \<open>
  The system event log (\<open>lib/ipmi_sel.c\<close>): reading, listing, saving, adding, deleting and clearing of its entries, their description, and the
  file of messages of a manufacturer.

  The state \<open>sel\<close> holds the sensor repository with the state of the transport, the static variables of the file, the global options and the
  environment: what \<open>localtime\<close> and \<open>strftime\<close> make of a time stamp, the clock, \<open>strptime\<close> with \<open>mktime\<close>, and the conversions of \<open>double\<close> by
  \<open>printf\<close>. A \<open>struct sel_event_record\<close> is its 16 bytes in memory; a variable of that type that has not been set is None. What is written to the file is the
  text \<open>e_save\<close> or the records \<open>e_raw\<close>. Messages for the log are left out, but not the calls in their arguments.
\<close>

section \<open>Data\<close>

record sel_oem_rec =
  o_value :: "int list"
  o_string :: "string list"
  o_text :: string

record 's sel =
  e_sdr :: "'s sdr"
  e_fd :: int
  e_extended :: int
  e_oem :: "sel_oem_rec list"
  e_csv :: bool
  e_verbose :: int
  e_date :: "u32 \<Rightarrow> string"
  e_time :: "u32 \<Rightarrow> string"
  e_now :: int
  e_mktime :: "string \<Rightarrow> int option"
  e_float :: "nat \<Rightarrow> real option \<Rightarrow> string"
  e_percent :: "u16 \<Rightarrow> u16 \<Rightarrow> int"
  e_out :: string
  e_save :: string
  e_raw :: bytes

definition rec_id :: "bytes \<Rightarrow> u16" where "rec_id e = of_le16 e"
definition rec_type :: "bytes \<Rightarrow> u8" where "rec_type e = e ! 2"
definition timestamp :: "bytes \<Rightarrow> u32" where "timestamp e = of_le32 (drop 3 e)"
definition gen_id :: "bytes \<Rightarrow> u16" where "gen_id e = of_le16 (drop 7 e)"
definition evm_rev :: "bytes \<Rightarrow> u8" where "evm_rev e = e ! 9"
definition sensor_type :: "bytes \<Rightarrow> u8" where "sensor_type e = e ! 10"
definition sensor_num :: "bytes \<Rightarrow> u8" where "sensor_num e = e ! 11"
definition event_type :: "bytes \<Rightarrow> u8" where "event_type e = e ! 12 AND 0x7f"
definition event_dir :: "bytes \<Rightarrow> u8" where "event_dir e = drop_bit 7 (e ! 12)"
definition event_data :: "bytes \<Rightarrow> nat \<Rightarrow> u8" where "event_data e i = e ! (13 + i)"
definition manf_id :: "bytes \<Rightarrow> nat \<Rightarrow> u8" where "manf_id e i = e ! (7 + i)"
definition oem_ts_defined :: "bytes \<Rightarrow> bytes" where "oem_ts_defined e = bytes_at e 10 6"
definition oem_nots_defined :: "bytes \<Rightarrow> bytes" where "oem_nots_defined e = bytes_at e 3 13"

abbreviation (input) IPMI_OEM_UNKNOWN :: u32 where "IPMI_OEM_UNKNOWN \<equiv> 0"
abbreviation (input) IPMI_OEM_SUN :: u32 where "IPMI_OEM_SUN \<equiv> 42"
abbreviation (input) IPMI_OEM_INTEL :: u32 where "IPMI_OEM_INTEL \<equiv> 343"
abbreviation (input) IPMI_OEM_TYAN :: u32 where "IPMI_OEM_TYAN \<equiv> 6653"
abbreviation (input) IPMI_OEM_NEWISYS :: u32 where "IPMI_OEM_NEWISYS \<equiv> 9237"
abbreviation (input) IPMI_OEM_SUPERMICRO :: u32 where "IPMI_OEM_SUPERMICRO \<equiv> 10876"
abbreviation (input) IPMI_OEM_KONTRON :: u32 where "IPMI_OEM_KONTRON \<equiv> 15000"

section \<open>Sending and printing\<close>

definition on_sdr :: "('s sdr, 'a) machine \<Rightarrow> ('s sel, 'a) machine" where
  "on_sdr m s = (case m (e_sdr s) of Inl f \<Rightarrow> Inl f | Inr (a, d) \<Rightarrow> Inr (a, s\<lparr>e_sdr := d\<rparr>))"

definition sel_send :: "'s transport \<Rightarrow> ipmi_rq \<Rightarrow> ('s sel, ipmi_rs option) machine" where
  "sel_send sr req = on_sdr (sdr_send sr req)"

text \<open>A command whose answer must have the completion code 0: its data, None for no answer or an error.\<close>

definition sel_command :: "'s transport \<Rightarrow> u8 \<Rightarrow> bytes \<Rightarrow> ('s sel, ipmi_rs option) machine" where
  "sel_command sr cmd d =
     mbind (sel_send sr (ipmi_request 0x0a cmd d)) (\<lambda>rsp.
     case rsp of None \<Rightarrow> mret None | Some r \<Rightarrow> mret (if r_ccode r > 0 then None else Some r))"

definition sel_put :: "string \<Rightarrow> ('s sel, unit) machine" where
  "sel_put t = mmod (\<lambda>s. s\<lparr>e_out := e_out s @ t\<rparr>)"

text \<open>Text that depends on \<open>csv_output\<close>.\<close>

definition sel_sep :: "string \<Rightarrow> string \<Rightarrow> ('s sel, unit) machine" where
  "sel_sep a b = mbind (mget e_csv) (\<lambda>csv. sel_put (if csv then a else b))"

text \<open>\<open>%x\<close> with a width, filled with zeros or spaces.\<close>

definition hex_fill :: "char \<Rightarrow> nat \<Rightarrow> nat \<Rightarrow> string" where
  "hex_fill c k n = replicate (k - length (hex_nat n)) c @ hex_nat n"

abbreviation (input) nl :: string where "nl \<equiv> [CHR 0x0A]"

section \<open>Messages of a manufacturer\<close>

text \<open>\<open>sscanf(str, "0x%x", &ret)\<close>: the number is read as an \<open>unsigned long\<close> in base 16 and cut to 32 bits.\<close>

definition scan_hex :: "string \<Rightarrow> int option" where
  "scan_hex str =
     (if take 2 str \<noteq> ''0x'' then None
      else
        let s = dropWhile is_space (drop 2 str);
            neg = (chr_at s 0 = CHR ''-'');
            s = (if neg \<or> chr_at s 0 = CHR ''+'' then tl s else s);
            s = (if chr_at s 0 = CHR ''0'' \<and> lower (chr_at s 1) = CHR ''x'' \<and> digit_in 16 (chr_at s 2) \<noteq> None then drop 2 s else s)
        in if digit_in 16 (chr_at s 0) = None then None
           else let v = fst (scan_digits 16 0 s)
                in Some (to_int32 (if v \<ge> 2 ^ 64 then - 1 else if neg then - v else v)))"

definition ipmi_sel_oem_readval :: "string \<Rightarrow> int" where
  "ipmi_sel_oem_readval str =
     (if str = ''XX'' then - 1 else if str = ''R'' then - 2
      else case scan_hex str of None \<Rightarrow> - 3 | Some v \<Rightarrow> v)"

definition ipmi_sel_oem_match :: "bytes \<Rightarrow> sel_oem_rec \<Rightarrow> bool" where
  "ipmi_sel_oem_match evt rec \<longleftrightarrow>
     uint (evt ! 2) = o_value rec ! 0
     \<and> list_all (\<lambda>k. o_value rec ! (k - 3) < 0 \<or> uint (evt ! (k - 1)) = o_value rec ! (k - 3)) [4, 5, 6, 7, 11, 12]"

text \<open>
  The number of lines: \<open>fscanf(fp, "%*[^\n]\n")\<close> does not move on at a line end, which only the first line can begin with, so that the loop does not end there.
\<close>

function count_lines :: "string \<Rightarrow> fault + nat" where
  "count_lines s =
     (if s = [] then Inr 0
      else if hd s = CHR 0x0A then Inl NoReturn
      else case count_lines (dropWhile is_space (dropWhile (\<lambda>c. c \<noteq> CHR 0x0A) s)) of Inl f \<Rightarrow> Inl f | Inr n \<Rightarrow> Inr (Suc n))"
  by pat_completeness auto

termination
proof (relation "measure length", goal_cases)
  case (2 s)
  then obtain c r where "s = c # r" "c \<noteq> CHR 0x0A" by (cases s) auto
  moreover have "length (dropWhile is_space (dropWhile (\<lambda>c. c \<noteq> CHR 0x0A) r)) \<le> length r"
    by (rule order_trans [OF length_dropWhile_le length_dropWhile_le])
  ultimately show ?case by simp
qed simp

declare count_lines.simps [simp del]

text \<open>The fields of a line that \<open>fscanf\<close> reads, up to so many, and what is left of the file.\<close>

fun scan_fields :: "nat \<Rightarrow> string \<Rightarrow> fault + string list \<times> string" where
  "scan_fields 0 s = Inr ([], s)"
| "scan_fields (Suc k) s =
     (if chr_at s 0 \<noteq> CHR 0x22 then Inr ([], s)
      else
        let f = takeWhile (\<lambda>c. c \<noteq> CHR 0x22) (tl s); r = dropWhile (\<lambda>c. c \<noteq> CHR 0x22) (tl s)
        in if f = [] then Inr ([], r)
           else if length f \<ge> 150 then Inl BufferOverflow
           else if r = [] then Inr ([f], r)
           else if k = 0 then Inr ([f], dropWhile is_space (tl r))
           else if chr_at (tl r) 0 \<noteq> CHR '','' then Inr ([f], tl r)
           else case scan_fields k (tl (tl r)) of Inl e \<Rightarrow> Inl e | Inr (fs, s) \<Rightarrow> Inr (f # fs, s))"

text \<open>\<open>strcpy\<close> into fresh memory; the result of \<open>malloc\<close> is not tested.\<close>

definition sel_strdup :: "string \<Rightarrow> ('s sel, string) machine" where
  "sel_strdup t = mbind (on_sdr sdr_malloc) (\<lambda>ok. if ok then mret t else mfail NullPointer)"

fun oem_values :: "string list \<Rightarrow> ('s sel, (int \<times> string) list) machine" where
  "oem_values [] = mret []"
| "oem_values (f # fs) =
     (let v = ipmi_sel_oem_readval f
      in mbind (if v = - 3 then sel_strdup f else mret []) (\<lambda>t.
         mbind (oem_values fs) (\<lambda>vs. mret ((v, t) # vs))))"

fun oem_rows :: "nat \<Rightarrow> string \<Rightarrow> ('s sel, sel_oem_rec list option) machine" where
  "oem_rows 0 s = mret (Some [])"
| "oem_rows (Suc n) s =
     mbind (lift_fault (scan_fields 15 s)) (\<lambda>(fs, s).
     if length fs \<noteq> 15 then mret None
     else
       mbind (oem_values (take 14 fs)) (\<lambda>vs.
       mbind (sel_strdup (fs ! 14)) (\<lambda>t.
       mbind (oem_rows n s) (\<lambda>rs.
       mret (map_option (\<lambda>rs. \<lparr>o_value = map fst vs, o_string = map snd vs, o_text = t\<rparr> # rs) rs)))))"

text \<open>\<open>ipmi_sel_oem_init\<close> on the contents of the file, None if there is no name or the file cannot be opened.\<close>

definition ipmi_sel_oem_init :: "string option \<Rightarrow> ('s sel, int) machine" where
  "ipmi_sel_oem_init f =
     (case f of None \<Rightarrow> mret (- 1)
      | Some s \<Rightarrow>
          mbind (lift_fault (count_lines s)) (\<lambda>n.
          mbind (sel_put (''nrecs='' @ dec_nat n @ nl)) (\<lambda>_.
          mbind (on_sdr sdr_malloc) (\<lambda>ok.
          if \<not> ok \<and> n > 0 then mfail NullPointer
          else
            mbind (oem_rows n s) (\<lambda>rs.
            case rs of None \<Rightarrow> mbind (mmod (\<lambda>s. s\<lparr>e_oem := []\<rparr>)) (\<lambda>_. mret (- 1))
            | Some rs \<Rightarrow> mbind (mmod (\<lambda>s. s\<lparr>e_oem := rs\<rparr>)) (\<lambda>_. mret 0))))))"

definition oem_text :: "bool \<Rightarrow> bytes \<Rightarrow> sel_oem_rec \<Rightarrow> string" where
  "oem_text csv evt rec =
     (if csv then '',\"'' @ o_text rec @ ''\"'' else '' | '' @ o_text rec)
     @ concat (map (\<lambda>j. if o_value rec ! (j - 3) = - 3
         then (if csv then '','' @ o_string rec ! (j - 3) @ ''=0x'' else '' '' @ o_string rec ! (j - 3) @ '' = 0x'') @ hex_nat (unat (evt ! (j - 3)))
         else []) [4..<17])"

definition ipmi_sel_oem_message :: "bytes \<Rightarrow> ('s sel, unit) machine" where
  "ipmi_sel_oem_message evt =
     mbind (mget e_oem) (\<lambda>recs.
     mbind (mget e_csv) (\<lambda>csv.
     sel_put (concat (map (oem_text csv evt) (filter (ipmi_sel_oem_match evt) recs)))))"

section \<open>Descriptions\<close>

definition ipmi_get_event_type :: "u8 \<Rightarrow> string" where
  "ipmi_get_event_type code =
     (if code = 0 then ''Unspecified'' else if code = 1 then ''Threshold''
      else if code \<ge> 0x02 \<and> code \<le> 0x0b then ''Generic Discrete''
      else if code = 0x6f then ''Sensor-specific Discrete''
      else if code \<ge> 0x70 \<and> code \<le> 0x7f then ''OEM'' else ''Reserved'')"

definition hex2ascii :: "bytes \<Rightarrow> nat \<Rightarrow> string" where
  "hex2ascii hexChars numBytes =
     map (\<lambda>i. if hexChars ! i < 0x40 \<or> hexChars ! i > 0x7e then CHR ''.'' else byte_char (hexChars ! i)) [0..<min numBytes 13]"

definition IPM_DEV_MANUFACTURER_ID :: "bytes \<Rightarrow> u32" where
  "IPM_DEV_MANUFACTURER_ID x = push_bit 16 (ucast (x ! 2 AND 0x0f)) OR push_bit 8 (ucast (x ! 1)) OR ucast (x ! 0)"

definition ipmi_get_oem :: "'s transport \<Rightarrow> ('s sel, u32) machine" where
  "ipmi_get_oem sr =
     mbind (mget e_fd) (\<lambda>fd.
     if fd = 0 then mret IPMI_OEM_UNKNOWN
     else
       mbind (sel_send sr (ipmi_request 0x06 0x01 [])) (\<lambda>rsp.
       case rsp of None \<Rightarrow> mret IPMI_OEM_UNKNOWN
       | Some r \<Rightarrow> mret (if r_ccode r > 0 then IPMI_OEM_UNKNOWN else IPM_DEV_MANUFACTURER_ID (drop 6 (r_data r)))))"

text \<open>A description is in memory from \<open>malloc\<close>, or a constant of the program, which must not be freed.\<close>

datatype description = Allocated string | Constant string

definition desc_text :: "description \<Rightarrow> string" where
  "desc_text d = (case d of Allocated t \<Rightarrow> t | Constant t \<Rightarrow> t)"

definition free_desc :: "description option \<Rightarrow> ('s sel, unit) machine" where
  "free_desc d = (case d of Some (Constant t) \<Rightarrow> mfail InvalidFree | _ \<Rightarrow> mret ())"

text \<open>The loop over a table without an end runs out of it when nothing matches.\<close>

definition get_kontron_evt_desc :: "bytes \<Rightarrow> ('s sel, description option) machine" where
  "get_kontron_evt_desc rec =
     (if rec_type rec < 0xc0 then
        (case find (\<lambda>st. v_code st = event_type rec) oem_kontron_event_reading_types of
           None \<Rightarrow> mfail OutOfBounds
         | Some st \<Rightarrow> mbind (sel_strdup (the (v_desc st))) (\<lambda>t. mret (Some (Allocated t))))
      else mret (Some (Constant ''Unsupported event'')))"

definition get_newisys_evt_desc :: "'s transport \<Rightarrow> bytes \<Rightarrow> ('s sel, description option) machine" where
  "get_newisys_evt_desc sr rec =
     mbind (sel_send sr (ipmi_request 0x2e 0x01 ([0x15, 0x24, 0x00, 0x01] @ le16 (rec_id rec)))) (\<lambda>rsp.
     case rsp of None \<Rightarrow> mret None
     | Some r \<Rightarrow>
         if r_ccode r > 0 \<or> r_data_len r < 5 \<or> r_data_len r \<noteq> 4 + uint (r_data r ! 3)
           \<or> IPM_DEV_MANUFACTURER_ID (r_data r) \<noteq> IPMI_OEM_NEWISYS
         then mret None
         else mbind (sel_strdup (cstr (map byte_char (bytes_at (r_data r) 4 (unat (r_data r ! 3)))))) (\<lambda>t. mret (Some (Allocated t))))"

definition ipmi_get_oem_desc :: "'s transport \<Rightarrow> bytes \<Rightarrow> ('s sel, description option) machine" where
  "ipmi_get_oem_desc sr rec =
     mbind (ipmi_get_oem sr) (\<lambda>oem.
     if oem = IPMI_OEM_NEWISYS then get_newisys_evt_desc sr rec
     else if oem \<in> set [IPMI_OEM_SUN, IPMI_OEM_INTEL, IPMI_OEM_TYAN, IPMI_OEM_SUPERMICRO, IPMI_OEM_KONTRON] then get_kontron_evt_desc rec
     else mret None)"

definition describes :: "u8 \<Rightarrow> bytes \<Rightarrow> ipmi_event_sensor_types \<Rightarrow> bool" where
  "describes code rec evt \<longleftrightarrow>
     v_code evt = code \<and> v_offset evt = event_data rec 0 AND 0xf \<and> v_desc evt \<noteq> None
     \<and> (v_data evt = 0xff \<or> (event_data rec 0 AND 0xc0 \<noteq> 0 \<and> v_data evt = event_data rec 1))"

text \<open>The table for an event and the code to look for in it.\<close>

definition event_table :: "'s transport \<Rightarrow> bytes \<Rightarrow> ('s sel, ipmi_event_sensor_types list \<times> u8) machine" where
  "event_table sr rec =
     (if event_type rec = 0x6f then
        if sensor_type rec \<ge> 0xc0 \<and> sensor_type rec < 0xf0 then
          mbind (ipmi_get_oem sr) (\<lambda>iana.
          mret (if iana = IPMI_OEM_KONTRON then oem_kontron_event_types else sensor_specific_types, sensor_type rec))
        else mret (sensor_specific_types, sensor_type rec)
      else mret (generic_event_types, event_type rec))"

definition ipmi_get_event_desc :: "'s transport \<Rightarrow> bytes \<Rightarrow> ('s sel, description option) machine" where
  "ipmi_get_event_desc sr rec =
     (if event_type rec \<ge> 0x70 \<and> event_type rec < 0x7f then ipmi_get_oem_desc sr rec
      else
        mbind (event_table sr rec) (\<lambda>(table, code).
        case find (describes code rec) table of None \<Rightarrow> mret None
        | Some evt \<Rightarrow> mbind (on_sdr sdr_malloc) (\<lambda>ok. mret (if ok then Some (Allocated (the (v_desc evt))) else None))))"

definition ipmi_sel_get_sensor_type :: "u8 \<Rightarrow> string" where
  "ipmi_sel_get_sensor_type code =
     (case find (\<lambda>st. v_code st = code) sensor_specific_types of None \<Rightarrow> ''Unknown'' | Some st \<Rightarrow> v_type st)"

definition ipmi_sel_get_sensor_type_offset :: "u8 \<Rightarrow> u8 \<Rightarrow> string" where
  "ipmi_sel_get_sensor_type_offset code offset =
     (case find (\<lambda>st. v_code st = code \<and> v_offset st = offset AND 0xf) sensor_specific_types of
        None \<Rightarrow> ipmi_sel_get_sensor_type code | Some st \<Rightarrow> v_type st)"

definition ipmi_sel_get_oem_sensor_type :: "u32 \<Rightarrow> u8 \<Rightarrow> string" where
  "ipmi_sel_get_oem_sensor_type iana code =
     (case find (\<lambda>st. v_code st = code) (if iana = IPMI_OEM_KONTRON then oem_kontron_event_types else []) of
        None \<Rightarrow> ipmi_sel_get_sensor_type code | Some st \<Rightarrow> v_type st)"

definition ipmi_sel_get_oem_sensor_type_offset :: "u32 \<Rightarrow> u8 \<Rightarrow> u8 \<Rightarrow> string" where
  "ipmi_sel_get_oem_sensor_type_offset iana code offset =
     (case find (\<lambda>st. v_code st = code \<and> v_offset st = offset AND 0xf) (if iana = IPMI_OEM_KONTRON then oem_kontron_event_types else []) of
        None \<Rightarrow> ipmi_sel_get_oem_sensor_type iana code | Some st \<Rightarrow> v_type st)"

text \<open>The name of the sensor type of an event, as the printing functions ask for it.\<close>

definition sensor_type_name :: "'s transport \<Rightarrow> bytes \<Rightarrow> ('s sel, string) machine" where
  "sensor_type_name sr evt =
     (if sensor_type evt \<ge> 0xc0 \<and> sensor_type evt < 0xf0 then
        mbind (ipmi_get_oem sr) (\<lambda>iana. mret (ipmi_sel_get_oem_sensor_type_offset iana (sensor_type evt) (event_data evt 0)))
      else mret (ipmi_sel_get_sensor_type_offset (sensor_type evt) (event_data evt 0)))"

end
