(* ===== verification/Sel_Commands.thy ===== *)
theory Sel_Commands
  imports Sel
begin

text \<open>The commands of \<open>lib/ipmi_sel.c\<close>: what they send, print and write.\<close>

section \<open>Information about the log\<close>

definition stamp_text :: "'s sel \<Rightarrow> u32 \<Rightarrow> string" where
  "stamp_text s t = e_date s t @ '' '' @ e_time s t"

definition stamp_or_not :: "'s sel \<Rightarrow> bytes \<Rightarrow> string" where
  "stamp_or_not s d = (if take 4 d = [0xff, 0xff, 0xff, 0xff] \<or> take 4 d = [0, 0, 0, 0] then ''Not Available'' else stamp_text s (buf2long d))"

definition supported_text :: "u8 \<Rightarrow> string" where
  "supported_text b =
     (if b AND 0x0f \<noteq> 0 then
        (if b AND 0x08 \<noteq> 0 then [CHR 0x27] @ ''Delete'' @ [CHR 0x27] @ '' '' else [])
        @ (if b AND 0x04 \<noteq> 0 then [CHR 0x27] @ ''Partial Add'' @ [CHR 0x27] @ '' '' else [])
        @ (if b AND 0x02 \<noteq> 0 then [CHR 0x27] @ ''Reserve'' @ [CHR 0x27] @ '' '' else [])
        @ (if b AND 0x01 \<noteq> 0 then [CHR 0x27] @ ''Get Alloc Info'' @ [CHR 0x27] @ '' '' else [])
      else ''None'')"

definition info_text :: "'s sel \<Rightarrow> bytes \<Rightarrow> string" where
  "info_text s d =
     (let version = d ! 0; e = buf2short (drop 1 d); f = buf2short (drop 3 d); pctfull = (if e \<noteq> 0 then e_percent s (e * 16) (f + e * 16) else 0)
      in ''SEL Information'' @ nl
         @ ''Version          : '' @ dec_nat (unat (version AND 0xf)) @ ''.'' @ dec_nat (unat (drop_bit 4 version AND 0xf))
         @ '' ('' @ (if version = 0x51 \<or> version = 0x02 then ''v1.5, v2 compliant'' else ''Unknown'') @ '')'' @ nl
         @ ''Entries          : '' @ dec_nat (unat e) @ nl
         @ ''Free Space       : '' @ dec_nat (unat f) @ '' bytes'' @ nl
         @ ''Percent Used     : '' @ dec_int pctfull @ ''%'' @ nl
         @ ''Last Add Time    : '' @ stamp_or_not s (drop 5 d) @ nl
         @ ''Last Del Time    : '' @ stamp_or_not s (drop 9 d) @ nl
         @ ''Overflow         : '' @ (if d ! 13 AND 0x80 \<noteq> 0 then ''true'' else ''false'') @ nl
         @ ''Supported Cmds   : '' @ supported_text (d ! 13) @ nl)"

definition alloc_text :: "bytes \<Rightarrow> string" where
  "alloc_text d =
     ''# of Alloc Units : '' @ dec_nat (unat (buf2short d)) @ nl
     @ ''Alloc Unit Size  : '' @ dec_nat (unat (buf2short (drop 2 d))) @ nl
     @ ''# Free Units     : '' @ dec_nat (unat (buf2short (drop 4 d))) @ nl
     @ ''Largest Free Blk : '' @ dec_nat (unat (buf2short (drop 6 d))) @ nl
     @ ''Max Record Size  : '' @ dec_nat (unat (d ! 7)) @ nl"

definition ipmi_sel_get_info :: "'s transport \<Rightarrow> ('s sel, int) machine" where
  "ipmi_sel_get_info sr =
     mbind (sel_command sr 0x40 []) (\<lambda>rsp.
     case rsp of None \<Rightarrow> mret (- 1)
     | Some r \<Rightarrow>
         mbind (mget (\<lambda>s. info_text s (r_data r))) (\<lambda>t.
         mbind (sel_put t) (\<lambda>_.
         if r_data r ! 13 AND 1 = 0 then mret 0
         else
           mbind (sel_command sr 0x41 []) (\<lambda>rsp.
           case rsp of None \<Rightarrow> mret (- 1)
           | Some r \<Rightarrow> mbind (sel_put (alloc_text (r_data r))) (\<lambda>_. mret 0)))))"

section \<open>Reading an entry\<close>

text \<open>The record from the data of an answer; the manufacturer id of a record with time stamp is stored in reverse.\<close>

definition std_entry :: "bytes \<Rightarrow> bytes" where
  "std_entry d =
     (if d ! 4 < 0xc0 \<or> d ! 4 \<ge> 0xe0 then bytes_at d 2 16
      else bytes_at d 2 7 @ [d ! 11, d ! 10, d ! 9] @ bytes_at d 12 6)"

text \<open>The id of the next entry, 0 after an error, and the variable \<open>evt\<close>.\<close>

definition ipmi_sel_get_std_entry :: "'s transport \<Rightarrow> u16 \<Rightarrow> bytes option \<Rightarrow> ('s sel, u16 \<times> bytes option) machine" where
  "ipmi_sel_get_std_entry sr i evt =
     mbind (sel_command sr 0x43 ([0x00, 0x00] @ le16 i @ [0x00, 0xff])) (\<lambda>rsp.
     case rsp of None \<Rightarrow> mret (0, evt)
     | Some r \<Rightarrow>
         mbind (lift_fault (buf2str (drop 2 (r_data r)) (r_data_len r - 2))) (\<lambda>_.
         mret (of_le16 (r_data r), Some (std_entry (r_data r)))))"

section \<open>Printing an entry\<close>

definition event_byte :: "bytes \<Rightarrow> u8" where
  "event_byte evt = event_type evt OR push_bit 7 (event_dir evt)"

definition event_line :: "bytes \<Rightarrow> string \<Rightarrow> string \<Rightarrow> string" where
  "event_line evt ty desc =
     concat (map (\<lambda>b. ''0x'' @ hex2 b @ '' '')
       [evm_rev evt, sensor_type evt, sensor_num evt, event_byte evt, event_data evt 0, event_data evt 1, event_data evt 2])
     @ ''# '' @ ty @ '' #0x'' @ hex2 (sensor_num evt) @ '' '' @ desc @ nl"

definition ipmi_sel_print_event_file :: "'s transport \<Rightarrow> bytes \<Rightarrow> ('s sel, unit) machine" where
  "ipmi_sel_print_event_file sr evt =
     mbind (ipmi_get_event_desc sr evt) (\<lambda>desc.
     mbind (sensor_type_name sr evt) (\<lambda>ty.
     mbind (mmod (\<lambda>s. s\<lparr>e_save := e_save s @ event_line evt ty (case desc of None \<Rightarrow> ''Unknown'' | Some d \<Rightarrow> desc_text d)\<rparr>)) (\<lambda>_.
     free_desc desc)))"

definition panic_text :: "bytes \<Rightarrow> string" where
  "panic_text evt = cstr (map byte_char (drop 5 evt))"

definition print_when :: "bytes \<Rightarrow> ('s sel, unit) machine" where
  "print_when evt =
     (if rec_type evt < 0xe0 then
        if timestamp evt < 0x20000000 then mbind (sel_put ''Pre-Init Time-stamp'') (\<lambda>_. sel_sep '',,'' ''   | '')
        else
          mbind (mget e_date) (\<lambda>date. mbind (sel_put (date (timestamp evt))) (\<lambda>_. mbind (sel_sep '','' '' | '') (\<lambda>_.
          mbind (mget e_time) (\<lambda>time. mbind (sel_put (time (timestamp evt))) (\<lambda>_. sel_sep '','' '' | '')))))
      else sel_sep '',,'' '''')"

definition print_oem_record :: "bytes \<Rightarrow> ('s sel, unit) machine" where
  "print_oem_record evt =
     mbind (sel_put (''OEM record '' @ hex2 (rec_type evt))) (\<lambda>_. mbind (sel_sep '','' '' | '') (\<lambda>_.
     mbind (if rec_type evt < 0xdf
            then mbind (sel_put (hex2 (manf_id evt 0) @ hex2 (manf_id evt 1) @ hex2 (manf_id evt 2))) (\<lambda>_.
                 mbind (sel_sep '','' '' | '') (\<lambda>_. sel_put (concat (map hex2 (oem_ts_defined evt)))))
            else sel_put (concat (map hex2 (oem_nots_defined evt)))) (\<lambda>_.
     mbind (ipmi_sel_oem_message evt) (\<lambda>_. sel_put nl))))"

text \<open>The string \<open>id_string\<close> of a sensor record, and the record itself as far as it is used as a full sensor record.\<close>

definition id_text :: "sdr_entry \<Rightarrow> nat \<Rightarrow> fault + string" where
  "id_text e off =
     (case l_record e of None \<Rightarrow> Inl NullPointer
      | Some rec \<Rightarrow> if 0 \<in> set (drop (off + 1) rec) then Inr (cstr (map byte_char (drop (off + 1) rec))) else Inl OutOfBounds)"

definition full_record :: "sdr_entry \<Rightarrow> nat \<Rightarrow> fault + bytes" where
  "full_record e n = (case l_record e of None \<Rightarrow> Inl NullPointer | Some rec \<Rightarrow> if length rec < n then Inl OutOfBounds else Inr rec)"

definition print_sensor :: "'s transport \<Rightarrow> sdr_entry option \<Rightarrow> bytes \<Rightarrow> ('s sel, unit) machine" where
  "print_sensor sr sdr evt =
     mbind (sensor_type_name sr evt) (\<lambda>ty.
     case sdr of
       None \<Rightarrow> sel_put (ty @ (if sensor_num evt \<noteq> 0 then '' #0x'' @ hex2 (sensor_num evt) else []))
     | Some e \<Rightarrow>
         mbind (sel_put (ty @ '' '')) (\<lambda>_.
         case id_code_off (l_type e) of
           None \<Rightarrow> sel_put (''#'' @ hex2 (sensor_num evt))
         | Some off \<Rightarrow> mbind (lift_fault (id_text e off)) sel_put))"

definition unit_at :: "u8 \<Rightarrow> fault + string" where
  "unit_at b = (if unat b < length unit_desc then Inr (unit_desc ! unat b) else Inl OutOfBounds)"

text \<open>\<open>ipmi_sdr_get_unit_string\<close> of \<open>ipmi_sdr.c\<close>: at most 15 characters.\<close>

definition ipmi_sdr_get_unit_string :: "u8 \<Rightarrow> u8 \<Rightarrow> u8 \<Rightarrow> fault + string" where
  "ipmi_sdr_get_unit_string ty base modifier =
     (case unit_at base of Inl f \<Rightarrow> Inl f
      | Inr a \<Rightarrow>
          if ty = 2 \<or> ty = 1 then
            (case unit_at modifier of Inl f \<Rightarrow> Inl f | Inr b \<Rightarrow> Inr (take 15 (a @ (if ty = 2 then '' * '' else ''/'') @ b)))
          else Inr (take 15 a))"

definition unit_modifier :: "bytes \<Rightarrow> u8" where
  "unit_modifier rec = drop_bit 1 (rec ! 15) AND 3"

text \<open>A reading in the event data, 0 if the data has none.\<close>

definition event_reading :: "sdr_entry \<Rightarrow> bool \<Rightarrow> u8 \<Rightarrow> fault + real option" where
  "event_reading e present raw =
     (if \<not> present then Inr (Some 0)
      else case full_record e 25 of Inl f \<Rightarrow> Inl f | Inr rec \<Rightarrow> Inr (sdr_convert_sensor_reading rec raw))"

definition short_float :: "'s sel \<Rightarrow> real option \<Rightarrow> string" where
  "short_float s x = e_float s (case x of Some v \<Rightarrow> if v = of_int (ctrunc v) then 0 else 2 | None \<Rightarrow> 2) x"

definition print_threshold :: "sdr_entry \<Rightarrow> bytes \<Rightarrow> ('s sel, unit) machine" where
  "print_threshold e evt =
     mbind (lift_fault (event_reading e (drop_bit 6 (event_data evt 0) AND 3 = 1) (event_data evt 1))) (\<lambda>trigger.
     mbind (lift_fault (event_reading e (drop_bit 4 (event_data evt 0) AND 3 = 1) (event_data evt 2))) (\<lambda>threshold.
     mbind (sel_sep '','' '' | '') (\<lambda>_.
     mbind (lift_fault (full_record e 18)) (\<lambda>rec.
     mbind (lift_fault (ipmi_sdr_get_unit_string (unit_modifier rec) (rec ! 16) (rec ! 17))) (\<lambda>u.
     mbind (mget (\<lambda>s. ''Reading '' @ short_float s trigger @ '' '' @ (if (event_data evt 0 AND 0xf) mod 2 \<noteq> 0 then ''>'' else ''<'')
         @ '' Threshold '' @ short_float s threshold @ '' '' @ u)) sel_put)))))"

definition is_ecc :: "bytes \<Rightarrow> bool" where
  "is_ecc evt \<longleftrightarrow> sensor_type evt = 0xc \<and> sensor_num evt = 0 \<and> event_data evt 0 AND 0x30 = 0x20"

definition dimm_text :: "bytes \<Rightarrow> string" where
  "dimm_text evt = ''CPU '' @ dec_nat (unat (event_data evt 2 AND 0x0f)) @ '' DIMM '' @ dec_nat (unat (drop_bit 4 (event_data evt 2 AND 0xf0)))"

definition print_details :: "sdr_entry option \<Rightarrow> bytes \<Rightarrow> ('s sel, unit) machine" where
  "print_details sdr evt =
     mbind (if event_type evt = 0x6f
            then mbind (sel_sep '','' '' | '') (\<lambda>_. sel_put (if event_dir evt \<noteq> 0 then ''Deasserted'' else ''Asserted'')) else mret ()) (\<lambda>_.
     mbind (if sdr \<noteq> None \<and> event_type evt = 1 then print_threshold (the sdr) evt
            else if event_type evt = 0x6f \<and> is_ecc evt then mbind (sel_sep '','' '' | '') (\<lambda>_. sel_put (dimm_text evt))
            else mret ()) (\<lambda>_.
     sel_put nl))"

definition print_described :: "'s transport \<Rightarrow> bytes \<Rightarrow> (string \<Rightarrow> string) \<Rightarrow> ('s sel, unit) machine" where
  "print_described sr evt layout =
     mbind (ipmi_get_event_desc sr evt) (\<lambda>desc.
     mbind (sel_put (layout (case desc of None \<Rightarrow> [] | Some d \<Rightarrow> desc_text d))) (\<lambda>_. free_desc desc))"

definition ipmi_sel_print_std_entry :: "'s transport \<Rightarrow> bytes \<Rightarrow> ('s sel, unit) machine" where
  "ipmi_sel_print_std_entry sr evt =
     mbind (mget e_extended) (\<lambda>ext.
     mbind (if ext \<noteq> 0 \<and> rec_type evt < 0xc0 then on_sdr (ipmi_sdr_find_sdr_bynumtype sr (sensor_num evt) (sensor_type evt)) else mret None) (\<lambda>sdr.
     mbind (sel_sep (hex_nat (unat (rec_id evt)) @ '','') (hex_fill CHR '' '' 4 (unat (rec_id evt)) @ '' | '')) (\<lambda>_.
     if rec_type evt = 0xf0 then
       mbind (sel_sep '',,'' '''') (\<lambda>_. sel_put (''Linux kernel panic: '' @ panic_text evt @ nl))
     else
       mbind (print_when evt) (\<lambda>_.
       if rec_type evt \<ge> 0xc0 then print_oem_record evt
       else
         mbind (print_sensor sr sdr evt) (\<lambda>_.
         mbind (sel_sep '','' '' | '') (\<lambda>_.
         mbind (print_described sr evt (\<lambda>d. d)) (\<lambda>_.
         print_details sdr evt)))))))"

definition ipmi_sel_print_extended_entry :: "'s transport \<Rightarrow> bytes \<Rightarrow> ('s sel, unit) machine" where
  "ipmi_sel_print_extended_entry sr evt =
     mbind (mmod (\<lambda>s. s\<lparr>e_extended := e_extended s + 1\<rparr>)) (\<lambda>_.
     mbind (ipmi_sel_print_std_entry sr evt) (\<lambda>_.
     mmod (\<lambda>s. s\<lparr>e_extended := e_extended s - 1\<rparr>)))"

section \<open>Printing an entry in full\<close>

definition event_dir_vals :: valstr where
  "event_dir_vals = [(0, ''Assertion Event''), (1, ''Deassertion Event'')]"

definition record_id_line :: "bytes \<Rightarrow> string" where
  "record_id_line evt = ''SEL Record ID          : '' @ hex_fill CHR ''0'' 4 (unat (rec_id evt)) @ nl"

definition panic_lines :: "bytes \<Rightarrow> string" where
  "panic_lines evt =
     '' Record Type           : Linux kernel panic (OEM record '' @ hex2 (rec_type evt) @ '')'' @ nl
     @ '' Panic string          : '' @ panic_text evt @ nl @ nl"

definition event_data_text :: "bytes \<Rightarrow> string" where
  "event_data_text evt = hex2 (event_data evt 0) @ hex2 (event_data evt 1) @ hex2 (event_data evt 2)"

text \<open>The lines from the sensor number to the event direction.\<close>

definition event_lines :: "bytes \<Rightarrow> string" where
  "event_lines evt =
     '' Sensor Number         : '' @ hex2 (sensor_num evt) @ nl
     @ '' Event Type            : '' @ ipmi_get_event_type (event_type evt) @ nl
     @ '' Event Direction       : '' @ val2str (ucast (event_dir evt)) event_dir_vals @ nl"

definition generator_lines :: "bytes \<Rightarrow> string" where
  "generator_lines evt =
     '' Generator ID          : '' @ hex_fill CHR ''0'' 4 (unat (gen_id evt)) @ nl
     @ '' EvM Revision          : '' @ hex2 (evm_rev evt) @ nl"

definition print_timestamp :: "bytes \<Rightarrow> ('s sel, unit) machine" where
  "print_timestamp evt = mbind (mget (\<lambda>s. '' Timestamp             : '' @ stamp_text s (timestamp evt) @ nl)) sel_put"

definition oem_lines :: "bytes \<Rightarrow> string" where
  "oem_lines evt =
     (if rec_type evt < 0xdf then
        '' Manufactacturer ID    : '' @ hex2 (manf_id evt 0) @ hex2 (manf_id evt 1) @ hex2 (manf_id evt 2) @ nl
        @ '' OEM Defined           : '' @ concat (map hex2 (oem_ts_defined evt)) @ '' ['' @ hex2ascii (oem_ts_defined evt) 6 @ '']'' @ nl @ nl
      else
        '' OEM Defined           : '' @ concat (map hex2 (oem_nots_defined evt)) @ '' ['' @ hex2ascii (oem_nots_defined evt) 13 @ '']'' @ nl @ nl)"

definition ipmi_sel_print_std_entry_verbose :: "'s transport \<Rightarrow> bytes \<Rightarrow> ('s sel, unit) machine" where
  "ipmi_sel_print_std_entry_verbose sr evt =
     mbind (sel_put (record_id_line evt)) (\<lambda>_.
     if rec_type evt = 0xf0 then sel_put (panic_lines evt)
     else
       mbind (sel_put ('' Record Type           : '' @ hex2 (rec_type evt)
         @ (if rec_type evt \<ge> 0xc0 then if rec_type evt < 0xe0 then ''  (OEM timestamped)'' else ''  (OEM non-timestamped)'' else []) @ nl)) (\<lambda>_.
       mbind (if rec_type evt < 0xe0 then print_timestamp evt else mret ()) (\<lambda>_.
       if rec_type evt \<ge> 0xc0 then
         mbind (sel_put (oem_lines evt)) (\<lambda>_. if rec_type evt < 0xdf then mret () else ipmi_sel_oem_message evt)
       else
         mbind (sensor_type_name sr evt) (\<lambda>ty.
         mbind (sel_put (generator_lines evt @ '' Sensor Type           : '' @ ty @ nl @ event_lines evt
           @ '' Event Data            : '' @ event_data_text evt @ nl)) (\<lambda>_.
         print_described sr evt (\<lambda>d. '' Description           : '' @ d @ nl @ nl))))))"

text \<open>A byte of the event data of a threshold event, by what the first byte says about it.\<close>

definition unit_line :: "bytes \<Rightarrow> fault + string" where
  "unit_line rec =
     (let k = unit_modifier rec
      in if k = 3 then Inr nl
         else case unit_at (rec ! 16) of Inl f \<Rightarrow> Inl f
              | Inr a \<Rightarrow>
                  if k = 0 then Inr ('' '' @ a @ nl)
                  else case unit_at (rec ! 17) of Inl f \<Rightarrow> Inl f
                       | Inr b \<Rightarrow> Inr ('' '' @ a @ (if k = 2 then '' * '' else ''/'') @ b @ nl))"

definition print_data_byte :: "sdr_entry \<Rightarrow> u8 \<Rightarrow> string \<Rightarrow> u8 \<Rightarrow> ('s sel, unit) machine" where
  "print_data_byte e kind label b =
     (if kind = 0 then mret ()
      else if kind = 1 then
        mbind (lift_fault (event_reading e True b)) (\<lambda>x.
        mbind (mget (\<lambda>s. label @ e_float s 3 x)) (\<lambda>t.
        mbind (sel_put t) (\<lambda>_.
        mbind (lift_fault (full_record e 25)) (\<lambda>rec.
        mbind (lift_fault (unit_line rec)) sel_put))))
      else if kind = 2 then sel_put ('' OEM Data              : '' @ hex2 b @ nl)
      else sel_put ('' Sensor Extension Code : '' @ hex2 b @ nl))"

definition print_event_data :: "sdr_entry \<Rightarrow> bytes \<Rightarrow> ('s sel, unit) machine" where
  "print_event_data e evt =
     (if event_type evt = 1 \<and> l_type e = SDR_RECORD_TYPE_FULL_SENSOR then
        mbind (print_data_byte e (drop_bit 6 (event_data evt 0) AND 3) '' Trigger Reading       : '' (event_data evt 1)) (\<lambda>_.
        print_data_byte e (drop_bit 4 (event_data evt 0) AND 3) '' Trigger Threshold     : '' (event_data evt 2))
      else if event_type evt \<ge> 0x2 \<and> event_type evt \<le> 0xc then mret ()
      else if event_type evt = 0x6f then
        sel_put (if is_ecc evt then '' Event Data            : '' @ dimm_text evt @ nl else '' Event Interpretation Missing'' @ nl)
      else if event_type evt \<ge> 0x70 \<and> event_type evt \<le> 0x7f then mret ()
      else sel_put ('' Event Data            : '' @ event_data_text evt @ nl))"

definition ipmi_sel_print_extended_entry_verbose :: "'s transport \<Rightarrow> bytes \<Rightarrow> ('s sel, unit) machine" where
  "ipmi_sel_print_extended_entry_verbose sr evt =
     mbind (on_sdr (ipmi_sdr_find_sdr_bynumtype sr (sensor_num evt) (sensor_type evt))) (\<lambda>sdr.
     case sdr of None \<Rightarrow> ipmi_sel_print_std_entry_verbose sr evt
     | Some e \<Rightarrow>
         mbind (sel_put (record_id_line evt)) (\<lambda>_.
         if rec_type evt = 0xf0 then sel_put (panic_lines evt)
         else
           mbind (sel_put ('' Record Type           : '' @ hex2 (rec_type evt) @ nl)) (\<lambda>_.
           mbind (if rec_type evt < 0xe0 then print_timestamp evt else mret ()) (\<lambda>_.
           mbind (sel_put (generator_lines evt @ '' Sensor Type           : '' @ ipmi_sel_get_sensor_type_offset (sensor_type evt) (event_data evt 0) @ nl
             @ event_lines evt @ '' Event Data (RAW)      : '' @ event_data_text evt @ nl)) (\<lambda>_.
           mbind (print_event_data e evt) (\<lambda>_.
           print_described sr evt (\<lambda>d. '' Description           : '' @ d @ nl @ nl)))))))"

section \<open>Listing and saving\<close>

definition print_entry :: "'s transport \<Rightarrow> bytes \<Rightarrow> ('s sel, unit) machine" where
  "print_entry sr evt =
     mbind (mget e_verbose) (\<lambda>v. if v \<noteq> 0 then ipmi_sel_print_std_entry_verbose sr evt else ipmi_sel_print_std_entry sr evt)"

definition save_entry :: "'s transport \<Rightarrow> bool \<Rightarrow> bool \<Rightarrow> bytes \<Rightarrow> ('s sel, unit) machine" where
  "save_entry sr opened binary evt =
     (if \<not> opened then mret ()
      else if binary then mmod (\<lambda>s. s\<lparr>e_raw := e_raw s @ take 16 evt\<rparr>)
      else ipmi_sel_print_event_file sr evt)"

primrec savelist_loop ::
  "nat \<Rightarrow> 's transport \<Rightarrow> int \<Rightarrow> bool \<Rightarrow> bool \<Rightarrow> int \<Rightarrow> u16 \<Rightarrow> bytes option \<Rightarrow> ('s sel, unit) machine" where
  "savelist_loop 0 sr count opened binary n next_id evt = mfail NoReturn"
| "savelist_loop (Suc k) sr count opened binary n next_id evt =
     (if next_id = 0xffff then mret ()
      else
        mbind (ipmi_sel_get_std_entry sr next_id evt) (\<lambda>(i, evt).
        mbind (if i = 0 then ipmi_sel_get_std_entry sr next_id evt else mret (i, evt)) (\<lambda>(i, evt).
        if i = 0 then mret ()
        else case evt of None \<Rightarrow> mfail Uninitialised
             | Some e \<Rightarrow>
                 mbind (print_entry sr e) (\<lambda>_.
                 mbind (save_entry sr opened binary e) (\<lambda>_.
                 if n + 1 = count then mret () else savelist_loop k sr count opened binary (n + 1) i evt)))))"

text \<open>A negative count, corrected to the number of entries.\<close>

definition last_count :: "int \<Rightarrow> int \<Rightarrow> int" where
  "last_count entries count = (if - count > entries then - entries else count)"

text \<open>
  Where to begin for the last entries: the step between the first two entries is taken for the step between any two. None after an error. The
  result is the id to begin with, the count, which is corrected to the number of entries, and the variable \<open>evt\<close>.
\<close>

definition last_entries :: "'s transport \<Rightarrow> int \<Rightarrow> ('s sel, (u16 \<times> int \<times> bytes option) option) machine" where
  "last_entries sr count =
     mbind (sel_command sr 0x40 []) (\<lambda>rsp.
     case rsp of None \<Rightarrow> mret None
     | Some r \<Rightarrow>
         if count = - (2 ^ 31) then mfail IntOverflow
         else let entries = uint (buf2short (drop 1 (r_data r))); count = last_count entries count
         in mbind (ipmi_sel_get_std_entry sr 0 None) (\<lambda>(i, evt).
            case evt of None \<Rightarrow> mfail Uninitialised
            | Some e \<Rightarrow>
                let delta = uint i - uint (rec_id e)
                in mbind (ipmi_sel_get_std_entry sr 0xffff evt) (\<lambda>(_, evt).
                   let v = uint (rec_id (the evt)) + count * delta + delta
                   in if \<bar>count * delta\<bar> \<ge> 2 ^ 31 \<or> \<bar>v\<bar> \<ge> 2 ^ 31 then mfail IntOverflow
                      else mret (Some (of_int v, count, evt)))))"

text \<open>
  \<open>savefile\<close> tells whether a file is given and can be opened for writing.
\<close>

definition ipmi_sel_savelist_entries :: "'s transport \<Rightarrow> int \<Rightarrow> bool \<Rightarrow> bool \<Rightarrow> ('s sel, int) machine" where
  "ipmi_sel_savelist_entries sr count opened binary =
     mbind (sel_command sr 0x40 []) (\<lambda>rsp.
     case rsp of None \<Rightarrow> mret (- 1)
     | Some r \<Rightarrow>
         if r_data r ! 1 = 0 \<and> r_data r ! 2 = 0 then mret 0
         else
           mbind (sel_command sr 0x42 []) (\<lambda>rsp.
           if rsp = None then mret (- 1)
           else
             mbind (if count < 0 then last_entries sr count else mret (Some (0, count, None))) (\<lambda>start.
             case start of None \<Rightarrow> mret (- 1)
             | Some (next_id, count, evt) \<Rightarrow>
                 mbind (mget (\<lambda>s. d_turns (e_sdr s))) (\<lambda>k.
                 mbind (savelist_loop k sr count opened binary 0 next_id evt) (\<lambda>_. mret 0)))))"

definition ipmi_sel_list_entries :: "'s transport \<Rightarrow> int \<Rightarrow> ('s sel, int) machine" where
  "ipmi_sel_list_entries sr count = ipmi_sel_savelist_entries sr count False False"

definition ipmi_sel_save_entries :: "'s transport \<Rightarrow> int \<Rightarrow> bool \<Rightarrow> ('s sel, int) machine" where
  "ipmi_sel_save_entries sr count opened = ipmi_sel_savelist_entries sr count opened False"

definition ipmi_sel_writeraw :: "'s transport \<Rightarrow> bool \<Rightarrow> ('s sel, int) machine" where
  "ipmi_sel_writeraw sr opened = ipmi_sel_savelist_entries sr 0 opened True"

text \<open>\<open>ipmi_sel_readraw\<close> on the contents of the file, None if it cannot be opened.\<close>

function readraw_loop :: "'s transport \<Rightarrow> bytes \<Rightarrow> ('s sel, int) machine" where
  "readraw_loop sr d =
     (if length d \<ge> 16 then mbind (print_entry sr (take 16 d)) (\<lambda>_. readraw_loop sr (drop 16 d))
      else mret (if d = [] then 0 else - 1))"
  by pat_completeness auto

termination
  by (relation "measure (\<lambda>(sr, d). length d)") auto

declare readraw_loop.simps [simp del]

definition ipmi_sel_readraw :: "'s transport \<Rightarrow> bytes option \<Rightarrow> ('s sel, int) machine" where
  "ipmi_sel_readraw sr f = (case f of None \<Rightarrow> mret (- 1) | Some d \<Rightarrow> readraw_loop sr d)"

section \<open>Reserving, clearing and deleting\<close>

definition ipmi_sel_reserve :: "'s transport \<Rightarrow> ('s sel, u16) machine" where
  "ipmi_sel_reserve sr =
     mbind (sel_send sr (ipmi_request 0x0a 0x42 [])) (\<lambda>rsp.
     case rsp of None \<Rightarrow> mret 0
     | Some r \<Rightarrow>
         if r_ccode r > 0 then mbind (sel_put (''Unable to reserve SEL: '' @ val2str (ucast (r_ccode r)) completion_code_vals)) (\<lambda>_. mret 0)
         else mret (of_le16 (r_data r)))"

definition ipmi_sel_clear :: "'s transport \<Rightarrow> ('s sel, int) machine" where
  "ipmi_sel_clear sr =
     mbind (ipmi_sel_reserve sr) (\<lambda>reserve_id.
     if reserve_id = 0 then mret (- 1)
     else
       mbind (sel_command sr 0x47 (le16 reserve_id @ [0x43, 0x4c, 0x52, 0xaa])) (\<lambda>rsp.
       if rsp = None then mret (- 1)
       else mbind (sel_put (''Clearing SEL.  Please allow a few seconds to erase.'' @ nl)) (\<lambda>_. mret 0)))"

text \<open>The arguments from the last to the first.\<close>

primrec delete_loop :: "'s transport \<Rightarrow> u16 \<Rightarrow> int \<Rightarrow> string list \<Rightarrow> ('s sel, int) machine" where
  "delete_loop sr reserve_id rc [] = mret rc"
| "delete_loop sr reserve_id rc (a # as) =
     (let i = of_int (atoi a) :: u16
      in mbind (sel_command sr 0x46 (le16 reserve_id @ le16 i)) (\<lambda>rsp.
         if rsp = None then delete_loop sr reserve_id (- 1) as
         else mbind (sel_put (''Deleted entry '' @ dec_nat (unat i) @ nl)) (\<lambda>_. delete_loop sr reserve_id rc as)))"

definition ipmi_sel_delete :: "'s transport \<Rightarrow> string list \<Rightarrow> ('s sel, int) machine" where
  "ipmi_sel_delete sr argv =
     (if argv = [] \<or> take 4 (hd argv) = ''help'' then mret (- 1)
      else
        mbind (ipmi_sel_reserve sr) (\<lambda>i.
        if i = 0 then mret (- 1) else delete_loop sr i 0 (rev argv)))"

section \<open>The clock of the log\<close>

definition ipmi_sel_get_time :: "'s transport \<Rightarrow> ('s sel, int) machine" where
  "ipmi_sel_get_time sr =
     mbind (sel_command sr 0x48 []) (\<lambda>rsp.
     case rsp of None \<Rightarrow> mret (- 1)
     | Some r \<Rightarrow>
         if r_data_len r \<noteq> 4 then mret (- 1)
         else mbind (mget (\<lambda>s. stamp_text s (of_le32 (r_data r)) @ nl)) (\<lambda>t. mbind (sel_put t) (\<lambda>_. mret 0)))"

definition ipmi_sel_set_time :: "'s transport \<Rightarrow> string \<Rightarrow> ('s sel, int) machine" where
  "ipmi_sel_set_time sr time_string =
     mbind (mget (\<lambda>s. if map lower (take 3 time_string) = ''now'' then Some (e_now s)
       else case e_mktime s time_string of None \<Rightarrow> None | Some t \<Rightarrow> if t < 0 then None else Some t)) (\<lambda>t.
     case t of None \<Rightarrow> mret (- 1)
     | Some t \<Rightarrow>
         mbind (sel_command sr 0x49 (le32 (of_int t))) (\<lambda>rsp.
         if rsp = None then mret (- 1) else mbind (ipmi_sel_get_time sr) (\<lambda>_. mret 0)))"

section \<open>Adding entries\<close>

text \<open>The request is not cleared: what else it holds, here \<open>junk\<close>, is what is on the stack.\<close>

definition ipmi_sel_add_entry :: "'s transport \<Rightarrow> ipmi_rq \<Rightarrow> bytes \<Rightarrow> ('s sel, int) machine" where
  "ipmi_sel_add_entry sr junk rec =
     mbind (ipmi_sel_print_std_entry sr rec) (\<lambda>_.
     mbind (sel_send sr (junk\<lparr>rq_netfn := 0x0a, rq_cmd := 0x44, rq_data := rec\<rparr>)) (\<lambda>rsp.
     case rsp of None \<Rightarrow> mret (- 1) | Some r \<Rightarrow> mret (if r_ccode r > 0 then - 1 else 0)))"

text \<open>The lines of the file as \<open>fgets\<close> reads them into 1024 characters, up to a NUL.\<close>

function file_lines :: "string \<Rightarrow> string list" where
  "file_lines s = (if s = [] then [] else cstr (fst (get_line 1023 s)) # file_lines (snd (get_line 1023 s)))"
  by pat_completeness auto

termination
  by (relation "measure length") (auto intro: get_line_length)

declare file_lines.simps [simp del]

text \<open>
  The part of a line before a comment, without white space around it: the loop that clips white space at the end reads the character before the buffer when there is nothing else.
\<close>

definition clip_line :: "string \<Rightarrow> fault + string" where
  "clip_line buf =
     (let t = takeWhile (\<lambda>c. c \<noteq> CHR ''#'') buf
      in if list_all is_space t then Inl OutOfBounds
         else Inr (dropWhile is_space (rev (dropWhile is_space (rev t)))))"

text \<open>\<open>strtok\<close> with the delimiter space.\<close>

fun tokens_from :: "nat \<Rightarrow> string \<Rightarrow> string list" where
  "tokens_from 0 s = []"
| "tokens_from (Suc n) s =
     (let r = dropWhile (\<lambda>c. c = CHR '' '') s
      in if r = [] then [] else takeWhile (\<lambda>c. c \<noteq> CHR '' '') r # tokens_from n (dropWhile (\<lambda>c. c \<noteq> CHR '' '') r))"

definition parse_event :: "string \<Rightarrow> bytes option" where
  "parse_event ptr =
     (let rqdata = map (\<lambda>tok. of_int (fst (strtol0 tok))) (tokens_from 7 ptr)
      in if length rqdata < 7 then None else Some ([0, 0, 0x02] @ le32 0 @ le16 0 @ rqdata))"

primrec add_lines :: "'s transport \<Rightarrow> ipmi_rq \<Rightarrow> int \<Rightarrow> string list \<Rightarrow> ('s sel, int) machine" where
  "add_lines sr junk rc [] = mret rc"
| "add_lines sr junk rc (l # ls) =
     mbind (lift_fault (clip_line l)) (\<lambda>t.
     case parse_event t of None \<Rightarrow> add_lines sr junk rc ls
     | Some e \<Rightarrow> mbind (ipmi_sel_add_entry sr junk e) (\<lambda>rc. if rc < 0 then mret rc else add_lines sr junk rc ls))"

definition ipmi_sel_add_entries_fromfile :: "'s transport \<Rightarrow> ipmi_rq \<Rightarrow> string option \<Rightarrow> ('s sel, int) machine" where
  "ipmi_sel_add_entries_fromfile sr junk f = (case f of None \<Rightarrow> mret (- 1) | Some s \<Rightarrow> add_lines sr junk 0 (file_lines s))"

section \<open>The command\<close>

definition make_int :: "string \<Rightarrow> int option" where
  "make_int str = (case strtol0 str of (v, r) \<Rightarrow> if r = [] then Some (to_int32 v) else None)"

definition is_cmd :: "string \<Rightarrow> string \<Rightarrow> bool" where
  "is_cmd a c \<longleftrightarrow> take (length c) a = c"

text \<open>The count of \<open>list\<close>: None for a bad argument.\<close>

definition list_count :: "string list \<Rightarrow> int option" where
  "list_count argv =
     (case argv of
        [_, c] \<Rightarrow> make_int c
      | [_, w, c] \<Rightarrow>
          if is_cmd w ''last'' then map_option uminus (make_int c)
          else if w = ''first'' then make_int c else None
      | _ \<Rightarrow> Some 0)"

text \<open>What the file system and the command \<open>get\<close> (\<open>ipmi_sel_show_entry\<close>) do are arguments.\<close>

definition ipmi_sel_main :: "'s transport \<Rightarrow> ipmi_rq \<Rightarrow> (string \<Rightarrow> string option) \<Rightarrow> (string \<Rightarrow> bytes option) \<Rightarrow> (string \<Rightarrow> bool)
    \<Rightarrow> (string list \<Rightarrow> ('s sel, int) machine) \<Rightarrow> string list \<Rightarrow> ('s sel, int) machine" where
  "ipmi_sel_main sr junk text_file raw_file writable show argv =
     (case argv of
        [] \<Rightarrow> ipmi_sel_get_info sr
      | c # as \<Rightarrow>
          if is_cmd c ''help'' then mret 0
          else if is_cmd c ''info'' then ipmi_sel_get_info sr
          else if is_cmd c ''save'' then (case as of [] \<Rightarrow> mret 0 | f # _ \<Rightarrow> ipmi_sel_save_entries sr 0 (writable f))
          else if is_cmd c ''add'' then (case as of [] \<Rightarrow> mret 0 | f # _ \<Rightarrow> ipmi_sel_add_entries_fromfile sr junk (text_file f))
          else if is_cmd c ''writeraw'' then (case as of [] \<Rightarrow> mret 0 | f # _ \<Rightarrow> ipmi_sel_writeraw sr (writable f))
          else if is_cmd c ''readraw'' then (case as of [] \<Rightarrow> mret 0 | f # _ \<Rightarrow> ipmi_sel_readraw sr (raw_file f))
          else if is_cmd c ''ereadraw'' then
            (case as of [] \<Rightarrow> mret 0 | f # _ \<Rightarrow> mbind (mmod (\<lambda>s. s\<lparr>e_extended := 1\<rparr>)) (\<lambda>_. ipmi_sel_readraw sr (raw_file f)))
          else if is_cmd c ''list'' \<or> is_cmd c ''elist'' then
            mbind (mmod (\<lambda>s. s\<lparr>e_extended := (if is_cmd c ''elist'' then 1 else 0)\<rparr>)) (\<lambda>_.
            case list_count argv of None \<Rightarrow> mret (- 1) | Some n \<Rightarrow> ipmi_sel_list_entries sr n)
          else if is_cmd c ''clear'' then ipmi_sel_clear sr
          else if is_cmd c ''delete'' then (if as = [] then mret 0 else ipmi_sel_delete sr as)
          else if is_cmd c ''get'' then (if as = [] then mret 0 else show as)
          else if is_cmd c ''time'' then
            (case as of [] \<Rightarrow> mret 0
             | w # bs \<Rightarrow>
                 if is_cmd w ''get'' then mbind (ipmi_sel_get_time sr) (\<lambda>_. mret 0)
                 else if is_cmd w ''set'' then (case bs of [] \<Rightarrow> mret 0 | t # _ \<Rightarrow> ipmi_sel_set_time sr t)
                 else mret 0)
          else mret (- 1))"

end
