(* ===== verification/Sel_Print.thy ===== *)
theory Sel_Print
  imports Sel_Commands Sdr_Repository
begin

text \<open>
  What the lines of the log say: the text of an entry as a function of the entry and of the settings, and that the printing functions print it for
  every entry that is not described by the manufacturer.
\<close>

section \<open>The text of an entry\<close>

text \<open>Entries whose description does not depend on the manufacturer of the BMC.\<close>

definition plain_event :: "bytes \<Rightarrow> bool" where
  "plain_event e \<longleftrightarrow> \<not> (sensor_type e \<ge> 0xc0 \<and> sensor_type e < 0xf0) \<and> \<not> (event_type e \<ge> 0x70 \<and> event_type e < 0x7f)"

definition plain_entry :: "bytes \<Rightarrow> bool" where
  "plain_entry e \<longleftrightarrow> rec_type e \<ge> 0xc0 \<or> plain_event e"

definition desc_of :: "bytes \<Rightarrow> string option" where
  "desc_of e =
     (case find (describes (if event_type e = 0x6f then sensor_type e else event_type e) e)
        (if event_type e = 0x6f then sensor_specific_types else generic_event_types) of
        None \<Rightarrow> None | Some evt \<Rightarrow> v_desc evt)"

definition sep :: "'s sel \<Rightarrow> string" where
  "sep s = (if e_csv s then '','' else '' | '')"

definition when_text :: "'s sel \<Rightarrow> bytes \<Rightarrow> string" where
  "when_text s e =
     (if rec_type e \<ge> 0xe0 then (if e_csv s then '',,'' else [])
      else if timestamp e < 0x20000000 then ''Pre-Init Time-stamp'' @ (if e_csv s then '',,'' else ''   | '')
      else e_date s (timestamp e) @ sep s @ e_time s (timestamp e) @ sep s)"

definition oem_record_text :: "'s sel \<Rightarrow> bytes \<Rightarrow> string" where
  "oem_record_text s e =
     ''OEM record '' @ hex2 (rec_type e) @ sep s
     @ (if rec_type e < 0xdf then concat (map (\<lambda>i. hex2 (manf_id e i)) [0, 1, 2]) @ sep s @ concat (map hex2 (oem_ts_defined e))
        else concat (map hex2 (oem_nots_defined e)))
     @ concat (map (oem_text (e_csv s) e) (filter (ipmi_sel_oem_match e) (e_oem s))) @ nl"

definition event_text :: "'s sel \<Rightarrow> bytes \<Rightarrow> string" where
  "event_text s e =
     ipmi_sel_get_sensor_type_offset (sensor_type e) (event_data e 0)
     @ (if sensor_num e \<noteq> 0 then '' #0x'' @ hex2 (sensor_num e) else []) @ sep s
     @ (case desc_of e of None \<Rightarrow> [] | Some d \<Rightarrow> d)
     @ (if event_type e = 0x6f then
          sep s @ (if event_dir e \<noteq> 0 then ''Deasserted'' else ''Asserted'') @ (if is_ecc e then sep s @ dimm_text e else [])
        else []) @ nl"

definition entry_line :: "'s sel \<Rightarrow> bytes \<Rightarrow> string" where
  "entry_line s e =
     (if e_csv s then hex_nat (unat (rec_id e)) @ '','' else hex_fill CHR '' '' 4 (unat (rec_id e)) @ '' | '')
     @ (if rec_type e = 0xf0 then (if e_csv s then '',,'' else []) @ ''Linux kernel panic: '' @ panic_text e @ nl
        else when_text s e @ (if rec_type e \<ge> 0xc0 then oem_record_text s e else event_text s e))"

definition save_line :: "bytes \<Rightarrow> string" where
  "save_line e =
     event_line e (ipmi_sel_get_sensor_type_offset (sensor_type e) (event_data e 0)) (case desc_of e of None \<Rightarrow> ''Unknown'' | Some d \<Rightarrow> d)"

section \<open>Runs\<close>

lemma sel_put_run [machine_simps]: "sel_put t s = Inr ((), s\<lparr>e_out := e_out s @ t\<rparr>)"
  by (simp add: sel_put_def machine_simps)

lemma sel_sep_run [machine_simps]: "sel_sep a b s = Inr ((), s\<lparr>e_out := e_out s @ (if e_csv s then a else b)\<rparr>)"
  by (simp add: sel_sep_def machine_simps)

lemma sel_malloc_run: "d_mallocs (e_sdr s) = [] \<Longrightarrow> on_sdr sdr_malloc s = Inr (True, s)"
  by (simp add: on_sdr_def)

lemma find_describes: "find (describes code e) t = Some x \<Longrightarrow> \<exists>d. v_desc x = Some d"
  by (auto simp: find_Some_iff describes_def)

lemma event_desc_run:
  assumes "plain_event e" "d_mallocs (e_sdr s) = []"
  shows "ipmi_get_event_desc sr e s = Inr (map_option Allocated (desc_of e), s)"
  using assms
  by (auto simp: ipmi_get_event_desc_def event_table_def plain_event_def desc_of_def machine_simps sel_malloc_run split: option.splits dest: find_describes)

lemma sensor_type_name_run:
  "plain_event e \<Longrightarrow> sensor_type_name sr e s = Inr (ipmi_sel_get_sensor_type_offset (sensor_type e) (event_data e 0), s)"
  by (auto simp: sensor_type_name_def plain_event_def machine_simps)

lemma free_desc_run [simp]: "free_desc (map_option Allocated d) s = Inr ((), s)"
  by (cases d) (simp_all add: free_desc_def machine_simps)

lemma desc_text_Allocated [simp]: "desc_text (Allocated t) = t"
  by (simp add: desc_text_def)

lemma print_when_run: "print_when e s = Inr ((), s\<lparr>e_out := e_out s @ when_text s e\<rparr>)"
  by (auto simp: print_when_def when_text_def sep_def machine_simps)

lemma print_oem_record_run: "print_oem_record e s = Inr ((), s\<lparr>e_out := e_out s @ oem_record_text s e\<rparr>)"
  by (auto simp: print_oem_record_def oem_record_text_def sep_def ipmi_sel_oem_message_def machine_simps)

lemma print_described_run:
  assumes "plain_event e" "d_mallocs (e_sdr s) = []"
  shows "print_described sr e f s = Inr ((), s\<lparr>e_out := e_out s @ f (case desc_of e of None \<Rightarrow> [] | Some d \<Rightarrow> d)\<rparr>)"
  using assms by (auto simp: print_described_def event_desc_run machine_simps split: option.splits)

lemma print_std_entry_run:
  assumes "plain_entry e" "e_extended s = 0" "d_mallocs (e_sdr s) = []"
  shows "ipmi_sel_print_std_entry sr e s = Inr ((), s\<lparr>e_out := e_out s @ entry_line s e\<rparr>)"
proof (cases "rec_type e \<ge> 0xc0")
  case True
  then show ?thesis
    using assms by (auto simp: ipmi_sel_print_std_entry_def entry_line_def machine_simps print_when_run print_oem_record_run when_text_def oem_record_text_def sep_def)
next
  case False
  then have "plain_event e" using assms(1) by (simp add: plain_entry_def)
  with False assms show ?thesis
    by (auto simp: ipmi_sel_print_std_entry_def entry_line_def event_text_def machine_simps print_when_run when_text_def sep_def print_sensor_def
        sensor_type_name_run print_described_run print_details_def)
qed

lemma save_entry_run:
  assumes "plain_event e" "d_mallocs (e_sdr s) = []"
  shows "ipmi_sel_print_event_file sr e s = Inr ((), s\<lparr>e_save := e_save s @ save_line e\<rparr>)"
  using assms by (auto simp: ipmi_sel_print_event_file_def event_desc_run sensor_type_name_run save_line_def machine_simps split: option.splits)

end
