(* ===== verification/Sel_Log.thy ===== *)
theory Sel_Log
  imports Sel_Print
begin

text \<open>
  The log of a BMC that does what the specification says, and what the listing commands make of it: every entry is shown once and in order, the
  files that are written hold the log, and reading them back shows the same.
\<close>

section \<open>A BMC with a log\<close>

definition log_ok :: "bytes list \<Rightarrow> bool" where
  "log_ok lg \<longleftrightarrow> (\<forall>r \<in> set lg. length r = 16 \<and> rec_id r \<noteq> 0 \<and> rec_id r \<noteq> 0xffff) \<and> distinct (map rec_id lg) \<and> length lg < 2 ^ 16"

definition next_of :: "bytes list \<Rightarrow> nat \<Rightarrow> u16" where
  "next_of lg k = (if Suc k < length lg then rec_id (lg ! Suc k) else 0xffff)"

text \<open>The id 0 asks for the first entry, \<open>ffff\<close> for the last one.\<close>

definition names_entry :: "bytes list \<Rightarrow> u16 \<Rightarrow> nat \<Rightarrow> bool" where
  "names_entry lg i k \<longleftrightarrow> k < length lg \<and> (i = rec_id (lg ! k) \<or> i = 0 \<and> k = 0 \<or> i = 0xffff \<and> Suc k = length lg)"

definition sel_device :: "'s transport \<Rightarrow> ('s \<Rightarrow> bytes list) \<Rightarrow> bool" where
  "sel_device sr view \<longleftrightarrow> (\<forall>b. log_ok (view b) \<longrightarrow>
     (\<exists>d b'. sr (ipmi_request 0x0a 0x40 []) b = Inr (Some (answer 0 d), b') \<and> view b' = view b \<and> length d = 14
        \<and> take 2 (drop 1 d) = le16 (of_nat (length (view b))))
     \<and> (\<exists>v b'. sr (ipmi_request 0x0a 0x42 []) b = Inr (Some (answer 0 (le16 v)), b') \<and> view b' = view b)
     \<and> (\<forall>i k. names_entry (view b) i k \<longrightarrow>
          (\<exists>b'. sr (ipmi_request 0x0a 0x43 ([0x00, 0x00] @ le16 i @ [0x00, 0xff])) b = Inr (Some (answer 0 (le16 (next_of (view b) k) @ view b ! k)), b')
             \<and> view b' = view b)))"

text \<open>An entry as it is stored by the program: a manufacturer id next to a time stamp is reversed.\<close>

definition shown :: "bytes \<Rightarrow> bytes" where
  "shown r = (if r ! 2 < 0xc0 \<or> r ! 2 \<ge> 0xe0 then r else take 7 r @ [r ! 9, r ! 8, r ! 7] @ drop 10 r)"

abbreviation bmc_of :: "'s sel \<Rightarrow> 's" where
  "bmc_of s \<equiv> d_bmc (e_sdr s)"

abbreviation with_bmc :: "'s \<Rightarrow> 's sel \<Rightarrow> 's sel" where
  "with_bmc b s \<equiv> s\<lparr>e_sdr := (e_sdr s)\<lparr>d_bmc := b\<rparr>\<rparr>"

lemma length_shown [simp]: "length r = 16 \<Longrightarrow> length (shown r) = 16"
  by (simp add: shown_def)

lemma std_entry_shown: "length r = 16 \<Longrightarrow> std_entry (r_data (answer 0 (le16 n @ r))) = shown r"
  by (auto simp: std_entry_def shown_def answer_def le16_def bytes_at_def nth_append min_def)

lemma log_entry: "log_ok lg \<Longrightarrow> k < length lg \<Longrightarrow> length (lg ! k) = 16 \<and> rec_id (lg ! k) \<noteq> 0 \<and> rec_id (lg ! k) \<noteq> 0xffff"
  by (simp add: log_ok_def)

lemma next_of_nonzero: "log_ok lg \<Longrightarrow> next_of lg k \<noteq> 0"
  using log_entry [of lg "Suc k"] by (simp add: next_of_def)

lemma get_entry_run:
  assumes "sel_device sr view" "log_ok (view (bmc_of s))" "names_entry (view (bmc_of s)) i k"
  obtains b where "ipmi_sel_get_std_entry sr i evt s = Inr ((next_of (view (bmc_of s)) k, Some (shown (view (bmc_of s) ! k))), with_bmc b s)"
    "view b = view (bmc_of s)"
proof -
  let ?lg = "view (bmc_of s)"
  obtain b where b: "sr (ipmi_request 0x0a 0x43 ([0x00, 0x00] @ le16 i @ [0x00, 0xff])) (bmc_of s) = Inr (Some (answer 0 (le16 (next_of ?lg k) @ ?lg ! k)), b)"
    "view b = ?lg"
    using assms unfolding sel_device_def by blast
  have r: "length (?lg ! k) = 16" using assms(2,3) log_entry by (auto simp: names_entry_def)
  let ?a = "answer 0 (le16 (next_of ?lg k) @ ?lg ! k)"
  have a: "r_ccode ?a = 0" "r_data_len ?a = 18" "of_le16 (r_data ?a) = next_of ?lg k" "length (r_data ?a) = 1024"
    using r of_le16_le16 [of "next_of ?lg k"] by (simp_all add: answer_def of_le16_def le16_def)
  have s: "\<exists>z. buf2str (drop 2 (r_data ?a)) 16 = Inr z" using a by (auto simp: buf2str_def)
  have "sel_command sr 0x43 ([0x00, 0x00] @ le16 i @ [0x00, 0xff]) s = Inr (Some ?a, with_bmc b s)"
    using b(1) a(1) by (simp add: sel_command_def sel_send_def on_sdr_def sdr_send_def machine_simps)
  then have "ipmi_sel_get_std_entry sr i evt s = Inr ((next_of ?lg k, Some (shown (?lg ! k))), with_bmc b s)"
    using s a std_entry_shown [OF r, of "next_of ?lg k"] by (auto simp: ipmi_sel_get_std_entry_def lift_fault_def machine_simps)
  then show ?thesis using b(2) that by blast
qed

lemma info_run:
  assumes "sel_device sr view" "log_ok (view (bmc_of s))"
  obtains d b where "sel_command sr 0x40 [] s = Inr (Some (answer 0 d), with_bmc b s)" "view b = view (bmc_of s)"
    "length d = 14" "take 2 (drop 1 d) = le16 (of_nat (length (view (bmc_of s))))"
proof -
  obtain d b where d: "sr (ipmi_request 0x0a 0x40 []) (bmc_of s) = Inr (Some (answer 0 d), b)" "view b = view (bmc_of s)"
    "length d = 14" "take 2 (drop 1 d) = le16 (of_nat (length (view (bmc_of s))))"
    using assms unfolding sel_device_def by blast
  have "sel_command sr 0x40 [] s = Inr (Some (answer 0 d), with_bmc b s)"
    using d(1) by (simp add: sel_command_def sel_send_def on_sdr_def sdr_send_def answer_def machine_simps)
  with d that show ?thesis by blast
qed

lemma reserve_run:
  assumes "sel_device sr view" "log_ok (view (bmc_of s))"
  obtains v b where "sel_command sr 0x42 [] s = Inr (Some (answer 0 (le16 v)), with_bmc b s)" "view b = view (bmc_of s)"
proof -
  obtain v b where d: "sr (ipmi_request 0x0a 0x42 []) (bmc_of s) = Inr (Some (answer 0 (le16 v)), b)" "view b = view (bmc_of s)"
    using assms unfolding sel_device_def by blast
  have "sel_command sr 0x42 [] s = Inr (Some (answer 0 (le16 v)), with_bmc b s)"
    using d(1) by (simp add: sel_command_def sel_send_def on_sdr_def sdr_send_def answer_def machine_simps)
  with d that show ?thesis by blast
qed

section \<open>The loop\<close>

definition sel_ready :: "'s sel \<Rightarrow> bool" where
  "sel_ready s \<longleftrightarrow> e_extended s = 0 \<and> e_verbose s = 0 \<and> d_mallocs (e_sdr s) = []"

text \<open>The entries that can be shown and, for a text file, saved without asking for the manufacturer.\<close>

definition showable :: "bool \<Rightarrow> bytes list \<Rightarrow> bool" where
  "showable saved lg \<longleftrightarrow> (\<forall>r \<in> set lg. plain_entry (shown r) \<and> (saved \<longrightarrow> plain_event (shown r)))"

text \<open>The state after entries have been shown and saved.\<close>

definition after_show :: "bool \<Rightarrow> bool \<Rightarrow> bytes list \<Rightarrow> 's sel \<Rightarrow> 's sel" where
  "after_show opened binary es s =
     s\<lparr>e_out := e_out s @ concat (map (entry_line s) es),
       e_save := e_save s @ (if opened \<and> \<not> binary then concat (map save_line es) else []),
       e_raw := e_raw s @ (if opened \<and> binary then concat es else [])\<rparr>"

lemma entry_line_settings [simp]:
  "entry_line (s\<lparr>e_out := x\<rparr>) = entry_line s" "entry_line (s\<lparr>e_save := y\<rparr>) = entry_line s"
  "entry_line (s\<lparr>e_raw := z\<rparr>) = entry_line s" "entry_line (s\<lparr>e_sdr := w\<rparr>) = entry_line s"
  by (auto simp: fun_eq_iff entry_line_def when_text_def oem_record_text_def event_text_def sep_def)

lemma after_show_settings [simp]:
  "e_sdr (after_show opened binary es s) = e_sdr s" "entry_line (after_show opened binary es s) = entry_line s"
  "sel_ready (after_show opened binary es s) = sel_ready s" "sel_ready (with_bmc b s) = sel_ready s"
  by (simp_all add: after_show_def sel_ready_def)

lemma after_show_Nil [simp]: "after_show opened binary [] s = s"
  by (simp add: after_show_def)

lemma after_show_Cons: "after_show opened binary es (after_show opened binary [e] s) = after_show opened binary (e # es) s"
  by (simp add: after_show_def)

lemma after_show_bmc: "after_show opened binary es (with_bmc b s) = with_bmc b (after_show opened binary es s)"
  by (simp add: after_show_def)

lemma show_and_save:
  assumes "sel_ready s" "plain_entry e" "opened \<and> \<not> binary \<longrightarrow> plain_event e" "length e = 16"
  shows "\<exists>t. print_entry sr e s = Inr ((), t) \<and> save_entry sr opened binary e t = Inr ((), after_show opened binary [e] s)"
proof -
  let ?t = "s\<lparr>e_out := e_out s @ entry_line s e\<rparr>"
  have "print_entry sr e s = Inr ((), ?t)"
    using assms by (simp add: print_entry_def sel_ready_def print_std_entry_run machine_simps)
  moreover have "save_entry sr opened binary e ?t = Inr ((), after_show opened binary [e] s)"
    using assms by (auto simp: save_entry_def after_show_def save_entry_run sel_ready_def machine_simps)
  ultimately show ?thesis by blast
qed

lemma savelist_loop_run:
  assumes "sel_device sr view" "log_ok lg" "showable (opened \<and> \<not> binary) lg"
  shows "view (bmc_of s) = lg \<Longrightarrow> sel_ready s \<Longrightarrow> k < length lg \<Longrightarrow> i = rec_id (lg ! k) \<or> i = 0 \<and> k = 0 \<Longrightarrow> length lg - k < fuel
    \<Longrightarrow> 0 \<le> n \<Longrightarrow> count \<le> 0 \<or> n < count
    \<Longrightarrow> \<exists>b. savelist_loop fuel sr count opened binary n i evt s
          = Inr ((), with_bmc b (after_show opened binary (map shown (take (if count \<le> 0 then length lg else nat (count - n)) (drop k lg))) s))
        \<and> view b = lg"
proof (induction fuel arbitrary: s k i n evt)
  case 0
  then show ?case by simp
next
  case (Suc fuel)
  let ?e = "shown (lg ! k)" and ?m = "if count \<le> 0 then length lg else nat (count - n)"
  have rk: "lg ! k \<in> set lg" using Suc.prems(3) by simp
  have e: "plain_entry ?e" "opened \<and> \<not> binary \<longrightarrow> plain_event ?e" "length ?e = 16"
    using assms(3) rk log_entry [OF assms(2) Suc.prems(3)] by (auto simp: showable_def)
  have nm: "names_entry lg i k" using Suc.prems(3,4) by (auto simp: names_entry_def)
  obtain b where b: "ipmi_sel_get_std_entry sr i evt s = Inr ((next_of lg k, Some ?e), with_bmc b s)" "view b = lg"
    using get_entry_run [OF assms(1), of s i k evt] assms(2) Suc.prems(1) nm by metis
  have i: "i \<noteq> 0xffff" using Suc.prems(4) log_entry [OF assms(2) Suc.prems(3)] by auto
  obtain t where t: "print_entry sr ?e (with_bmc b s) = Inr ((), t)"
    "save_entry sr opened binary ?e t = Inr ((), after_show opened binary [?e] (with_bmc b s))"
    using show_and_save [of "with_bmc b s" ?e opened binary sr] Suc.prems(2) e by auto
  let ?s = "after_show opened binary [?e] (with_bmc b s)"
  have run: "savelist_loop (Suc fuel) sr count opened binary n i evt s
      = (if n + 1 = count then Inr ((), ?s) else savelist_loop fuel sr count opened binary (n + 1) (next_of lg k) (Some ?e) ?s)"
    using b(1) t i next_of_nonzero [OF assms(2), of k] by (simp add: machine_simps)
  have m: "take ?m (drop k lg) = lg ! k # take (?m - 1) (drop (Suc k) lg)"
  proof -
    obtain j where "?m = Suc j" using Suc.prems(3,6,7) by (cases ?m) (auto split: if_splits)
    then show ?thesis using Suc.prems(3) by (simp add: Cons_nth_drop_Suc [symmetric])
  qed
  show ?case
  proof (cases "n + 1 = count")
    case True
    then have "?m = 1" using Suc.prems(6) by auto
    then have "take ?m (drop k lg) = [lg ! k]" using m by simp
    with True run b(2) show ?thesis by (auto simp: after_show_bmc)
  next
    case False
    show ?thesis
    proof (cases "Suc k < length lg")
      case True
      have "\<exists>c. savelist_loop fuel sr count opened binary (n + 1) (next_of lg k) (Some ?e) ?s
          = Inr ((), with_bmc c (after_show opened binary (map shown (take (if count \<le> 0 then length lg else nat (count - (n + 1))) (drop (Suc k) lg))) ?s))
        \<and> view c = lg"
        by (rule Suc.IH) (use Suc.prems True b(2) False in \<open>auto simp: next_of_def\<close>)
      then obtain c where c: "savelist_loop fuel sr count opened binary (n + 1) (next_of lg k) (Some ?e) ?s
          = Inr ((), with_bmc c (after_show opened binary (map shown (take (if count \<le> 0 then length lg else nat (count - (n + 1))) (drop (Suc k) lg))) ?s))"
        "view c = lg" by blast
      have "take (if count \<le> 0 then length lg else nat (count - (n + 1))) (drop (Suc k) lg) = take (?m - 1) (drop (Suc k) lg)"
      proof -
        have "nat (count - (n + 1)) = nat (count - n) - 1" by arith
        then show ?thesis by simp
      qed
      then have "savelist_loop (Suc fuel) sr count opened binary n i evt s
          = Inr ((), with_bmc c (after_show opened binary (?e # map shown (take (?m - 1) (drop (Suc k) lg))) (with_bmc b s)))"
        unfolding run using False c(1) by (simp only: if_False after_show_Cons)
      then show ?thesis using c(2) unfolding m by (auto simp: after_show_bmc)
    next
      case last: False
      have "drop (Suc k) lg = []" "next_of lg k = 0xffff" using last by (simp_all add: next_of_def)
      moreover obtain f where "fuel = Suc f" using Suc.prems(3,5) by (cases fuel) auto
      ultimately show ?thesis using run False m b(2) by (auto simp: after_show_bmc machine_simps)
    qed
  qed
qed

section \<open>Listing\<close>

lemma info_count:
  assumes "length d = 14" "take 2 (drop 1 d) = le16 (of_nat n)" "n < 2 ^ 16"
  shows "uint (buf2short (drop 1 (r_data (answer 0 d)))) = int n" "r_data (answer 0 d) ! 1 = 0 \<and> r_data (answer 0 d) ! 2 = 0 \<longleftrightarrow> n = 0"
proof -
  let ?w = "of_nat n :: u16"
  have "d ! 1 = le16 ?w ! 0" "d ! 2 = le16 ?w ! 1" using assms(1) unfolding assms(2) [symmetric] by (simp_all add: numeral_2_eq_2)
  then have d: "r_data (answer 0 d) ! 1 = ucast ?w" "r_data (answer 0 d) ! 2 = ucast (drop_bit 8 ?w)"
    using assms(1) by (simp_all add: answer_def nth_append le16_def)
  have len: "length (r_data (answer 0 d)) = 1024" using assms(1) by (simp add: answer_def)
  then have w: "buf2short (drop 1 (r_data (answer 0 d))) = ?w"
    using of_le16_le16 [of ?w] d by (simp add: buf2short_def of_le16_def le16_def or.commute numeral_2_eq_2)
  then show "uint (buf2short (drop 1 (r_data (answer 0 d)))) = int n"
    using assms(3) by (simp add: unsigned_of_nat take_bit_nat_eq_self flip: of_nat_take_bit)
  have "r_data (answer 0 d) ! 1 = 0 \<and> r_data (answer 0 d) ! 2 = 0 \<longleftrightarrow> ?w = 0"
    using w d len by (auto simp: buf2short_def numeral_2_eq_2)
  also have "\<dots> \<longleftrightarrow> n = 0" using assms(3) by (auto simp: word_of_nat_eq_0_iff dest: nat_dvd_not_less)
  finally show "r_data (answer 0 d) ! 1 = 0 \<and> r_data (answer 0 d) ! 2 = 0 \<longleftrightarrow> n = 0" .
qed

text \<open>Ids that grow by the same amount from entry to entry, which the code takes for granted when it looks for the last entries.\<close>

definition evenly_numbered :: "bytes list \<Rightarrow> bool" where
  "evenly_numbered lg \<longleftrightarrow> (\<exists>d. \<forall>k < length lg. uint (rec_id (lg ! k)) = uint (rec_id (lg ! 0)) + int k * d)"

text \<open>The entries asked for: all for 0, the first ones for a positive count, the last ones for a negative one.\<close>

definition wanted :: "int \<Rightarrow> 'a list \<Rightarrow> 'a list" where
  "wanted count lg = (if count = 0 then lg else if count > 0 then take (nat count) lg else drop (length lg - nat (- count)) lg)"

lemma rec_id_shown: "length r = 16 \<Longrightarrow> rec_id (shown r) = rec_id r"
  by (simp add: rec_id_def shown_def of_le16_def nth_append)

lemma step_bound:
  assumes "lg \<noteq> []" "\<forall>k < length lg. uint (rec_id (lg ! k)) = a + int k * d" "Suc 0 < length lg" "0 < c" "c \<le> int (length lg)"
  shows "\<bar>c * d\<bar> < 2 ^ 31" "\<bar>d\<bar> < 2 ^ 17"
proof -
  let ?n = "length lg"
  have u: "0 \<le> a + int k * d" "a + int k * d < 2 ^ 16" if "k < ?n" for k
    using assms(2) that unsigned_less [of "rec_id (lg ! k)", where 'a = int] unsigned_greater_eq [of "rec_id (lg ! k)", where 'a = int] by auto
  have p: "0 < ?n" "1 < ?n" "?n - 1 < ?n" using assms(3) by auto
  have "\<bar>d\<bar> < 2 ^ 16" using u [OF p(1)] u [OF p(2)] by auto
  then show "\<bar>d\<bar> < 2 ^ 17" by simp
  have "\<bar>int (?n - 1) * d\<bar> < 2 ^ 16" using u [OF p(1)] u [OF p(3)] by auto
  moreover have "\<bar>c * d\<bar> \<le> \<bar>int ?n * d\<bar>" using assms(4,5) by (simp add: abs_mult mult_right_mono)
  moreover have "int ?n * d = int (?n - 1) * d + d" using assms(3) by (simp add: algebra_simps of_nat_diff)
  moreover have "\<bar>q\<bar> < 2 ^ 31" if "\<bar>r\<bar> < 2 ^ 16" "\<bar>q\<bar> \<le> \<bar>r + d\<bar>" for q r :: int
    using that \<open>\<bar>d\<bar> < 2 ^ 16\<close> by (auto simp: abs_if split: if_splits)
  ultimately show "\<bar>c * d\<bar> < 2 ^ 31" by metis
qed

lemma last_entries_run:
  assumes "sel_device sr view" "log_ok lg" "view (bmc_of s) = lg" "lg \<noteq> []" "evenly_numbered lg" "count < 0" "- (2 ^ 31) < count"
  shows "\<exists>b evt c. last_entries sr count s = Inr (Some (rec_id (lg ! (length lg - nat (- count))), c, evt), with_bmc b s) \<and> view b = lg \<and> c < 0"
proof -
  let ?n = "length lg"
  define c where "c = last_count (int ?n) count"
  obtain d b where d: "sel_command sr 0x40 [] s = Inr (Some (answer 0 d), with_bmc b s)" "view b = lg" "length d = 14" "take 2 (drop 1 d) = le16 (of_nat ?n)"
    using info_run [OF assms(1), of s] assms(2,3) by metis
  have n: "uint (buf2short (drop 1 (r_data (answer 0 d)))) = int ?n" using info_count(1) [OF d(3,4)] assms(2) by (simp add: log_ok_def)
  have nm: "names_entry lg 0 0" "names_entry lg 0xffff (?n - 1)" using assms(4) by (auto simp: names_entry_def)
  obtain b1 where b1: "ipmi_sel_get_std_entry sr 0 None (with_bmc b s) = Inr ((next_of lg 0, Some (shown (lg ! 0))), with_bmc b1 s)" "view b1 = lg"
    using get_entry_run [OF assms(1), of "with_bmc b s" 0 0 None] assms(2) d(2) nm(1) by auto
  obtain b2 where b2: "ipmi_sel_get_std_entry sr 0xffff (Some (shown (lg ! 0))) (with_bmc b1 s)
      = Inr ((next_of lg (?n - 1), Some (shown (lg ! (?n - 1)))), with_bmc b2 s)" "view b2 = lg"
    using get_entry_run [OF assms(1), of "with_bmc b1 s" "0xffff" "?n - 1" "Some (shown (lg ! 0))"] assms(2) b1(2) nm(2) by auto
  define delta where "delta = uint (next_of lg 0) - uint (rec_id (lg ! 0))"
  have ids: "rec_id (shown (lg ! 0)) = rec_id (lg ! 0)" "rec_id (shown (lg ! (?n - 1))) = rec_id (lg ! (?n - 1))"
    using log_entry [OF assms(2)] assms(4) by (auto intro!: rec_id_shown)
  define v where "v = uint (rec_id (lg ! (?n - 1))) + c * delta + delta"
  have v: "v = uint (rec_id (lg ! (?n - nat (- count)))) \<and> \<bar>c * delta\<bar> < 2 ^ 31 \<and> \<bar>v\<bar> < 2 ^ 31"
  proof (cases "?n = 1")
    case True
    then have "c = - 1" "?n - nat (- count) = 0" using assms(6) by (auto simp: c_def last_count_def)
    moreover have "\<bar>0xffff - u\<bar> < 2 ^ 31 \<and> \<bar>u\<bar> < 2 ^ 31" if "0 \<le> u" "u < 2 ^ 16" for u :: int
      using that by auto
    note this [OF unsigned_greater_eq [of "rec_id (lg ! 0)", where 'a = int]]
    ultimately show ?thesis using True unsigned_less [of "rec_id (lg ! 0)", where 'a = int] by (simp add: v_def delta_def next_of_def)
  next
    case False
    then have n2: "Suc 0 < ?n" using assms(4) by (cases lg) auto
    obtain e where e: "\<forall>k < ?n. uint (rec_id (lg ! k)) = uint (rec_id (lg ! 0)) + int k * e" using assms(5) by (auto simp: evenly_numbered_def)
    have delta: "delta = e" using e n2 by (simp add: delta_def next_of_def)
    have c: "0 < - c" "- c \<le> int ?n" "int (?n - nat (- count)) = int ?n + c" using assms(4,6) by (auto simp: c_def last_count_def)
    have at: "uint (rec_id (lg ! k)) = uint (rec_id (lg ! 0)) + int k * e" if "k < ?n" for k using e that by blast
    have lt: "?n - 1 < ?n" "?n - nat (- count) < ?n" using assms(4,6) by auto
    have "v = uint (rec_id (lg ! 0)) + int (?n - 1) * e + c * e + e" unfolding v_def delta at [OF lt(1)] by (rule refl)
    also have "\<dots> = uint (rec_id (lg ! 0)) + (int ?n + c) * e"
    proof -
      have "int (?n - 1) = int ?n - 1" using n2 by simp
      then show ?thesis by (simp only: left_diff_distrib ring_distribs mult_1)
    qed
    also have "\<dots> = uint (rec_id (lg ! (?n - nat (- count))))" unfolding at [OF lt(2)] c(3) by (rule refl)
    finally have "v = uint (rec_id (lg ! (?n - nat (- count))))" .
    moreover have "\<bar>c * delta\<bar> < 2 ^ 31" using step_bound(1) [OF assms(4) e n2 c(1,2)] by (simp add: delta abs_mult)
    ultimately show ?thesis using unsigned_less [of "rec_id (lg ! (?n - nat (- count)))", where 'a = int] by (auto simp: abs_if)
  qed
  have w: "uint (rec_id (lg ! (?n - Suc 0))) + c * delta + delta = v" by (simp add: v_def)
  have "of_int v = rec_id (lg ! (?n - nat (- count)))" using v by simp
  then have "last_entries sr count s = Inr (Some (rec_id (lg ! (?n - nat (- count))), c, Some (shown (lg ! (?n - 1)))), with_bmc b2 s)"
    using d(1) b1(1) b2(1) n assms(6,7) v [THEN conjunct2] ids by (simp add: last_entries_def machine_simps Let_def w flip: c_def delta_def)
  moreover have "c < 0" using assms(4,6) by (auto simp: c_def last_count_def)
  ultimately show ?thesis using b2(2) by blast
qed

lemma sel_list_shows_log_run:
  assumes "sel_device sr view" "log_ok (view (bmc_of s))" "sel_ready s" "showable (opened \<and> \<not> binary) (view (bmc_of s))"
    and "length (view (bmc_of s)) < d_turns (e_sdr s)" "0 \<le> count \<or> - (2 ^ 31) < count \<and> evenly_numbered (view (bmc_of s))"
  shows "\<exists>b. ipmi_sel_savelist_entries sr count opened binary s
      = Inr (0, with_bmc b (after_show opened binary (map shown (wanted count (view (bmc_of s)))) s)) \<and> view b = view (bmc_of s)"
proof -
  let ?lg = "view (bmc_of s)"
  obtain d b where d: "sel_command sr 0x40 [] s = Inr (Some (answer 0 d), with_bmc b s)" "view b = ?lg" "length d = 14" "take 2 (drop 1 d) = le16 (of_nat (length ?lg))"
    using info_run [OF assms(1,2)] by metis
  have n: "r_data (answer 0 d) ! 1 = 0 \<and> r_data (answer 0 d) ! 2 = 0 \<longleftrightarrow> ?lg = []" using info_count(2) [OF d(3,4)] assms(2) by (simp add: log_ok_def)
  obtain v b1 where b1: "sel_command sr 0x42 [] (with_bmc b s) = Inr (Some (answer 0 (le16 v)), with_bmc b1 s)" "view b1 = ?lg"
    using reserve_run [OF assms(1), of "with_bmc b s"] d(2) assms(2) by auto
  show ?thesis
  proof (cases "?lg = []")
    case True
    then show ?thesis using d(1,2) n by (auto simp: ipmi_sel_savelist_entries_def wanted_def machine_simps)
  next
    case False
    let ?k = "if count < 0 then length ?lg - nat (- count) else 0"
    obtain i c evt b2 where st: "(if count < 0 then last_entries sr count else mret (Some (0, count, None))) (with_bmc b1 s) = Inr (Some (i, c, evt), with_bmc b2 s)"
      "view b2 = ?lg" "i = rec_id (?lg ! ?k) \<or> i = 0 \<and> ?k = 0" "count < 0 \<and> c < 0 \<or> 0 \<le> count \<and> c = count"
    proof (cases "count < 0")
      case True
      with last_entries_run [OF assms(1,2), of "with_bmc b1 s" count] b1(2) False assms(6) that show ?thesis by auto
    next
      case False
      with b1(2) that [of 0 count None b1] show ?thesis by (simp add: mret_def)
    qed
    have "\<exists>b. savelist_loop (d_turns (e_sdr s)) sr c opened binary 0 i evt (with_bmc b2 s)
        = Inr ((), with_bmc b (after_show opened binary (map shown (take (if c \<le> 0 then length ?lg else nat (c - 0)) (drop ?k ?lg))) (with_bmc b2 s)))
      \<and> view b = ?lg"
      by (rule savelist_loop_run [OF assms(1,2,4)]) (use st assms(3,5) False in auto)
    then obtain b3 where b3: "savelist_loop (d_turns (e_sdr s)) sr c opened binary 0 i evt (with_bmc b2 s)
        = Inr ((), with_bmc b3 (after_show opened binary (map shown (take (if c \<le> 0 then length ?lg else nat c) (drop ?k ?lg))) s))" "view b3 = ?lg"
      unfolding diff_0_right after_show_bmc by auto
    have "take (if c \<le> 0 then length ?lg else nat c) (drop ?k ?lg) = wanted count ?lg" using st(4) by (auto simp: wanted_def)
    then have "ipmi_sel_savelist_entries sr count opened binary s = Inr (0, with_bmc b3 (after_show opened binary (map shown (wanted count ?lg)) s))"
      using d(1) b1(1) st(1) b3(1) n False by (auto simp: ipmi_sel_savelist_entries_def machine_simps)
    then show ?thesis using b3(2) by blast
  qed
qed

text \<open>
  C9. The listing shows the log. On a BMC with a log whose ids are distinct and neither 0 nor \<open>ffff\<close>, with a count of 0 every entry is shown once and in the order of the log, with a positive count the
  first entries, and with a negative one, if the ids grow evenly, the last ones; the same entries are written to the file, as text or as they are. The
  log is unchanged, and the loop needs no more turns than there are entries.
  The conditions are \<open>sel_ready\<close> and \<open>showable\<close>: neither verbose nor extended output is asked for and \<open>malloc\<close> succeeds, and
  no event of the log has a sensor type \<open>c0\<close> to \<open>ef\<close> or an event type \<open>70\<close> to \<open>7e\<close>, which the manufacturer describes
  (entries of the record types from \<open>c0\<close> on may occur unless a text file is written). For the events left out the code asks the BMC for its
  manufacturer, and on a Kontron BMC it runs out of a table or frees a constant (\<open>sel_kontron_descriptions_fault\<close>).
\<close>

theorem sel_list_shows_log:
  assumes "sel_device sr view" "log_ok (view (bmc_of s))" "sel_ready s" "showable (opened \<and> \<not> binary) (view (bmc_of s))"
    and "length (view (bmc_of s)) < d_turns (e_sdr s)" "0 \<le> count \<or> - (2 ^ 31) < count \<and> evenly_numbered (view (bmc_of s))"
  shows "\<exists>b. ipmi_sel_savelist_entries sr count opened binary s
      = Inr (0, with_bmc b (after_show opened binary (map shown (wanted count (view (bmc_of s)))) s)) \<and> view b = view (bmc_of s)"
  by (rule sel_list_shows_log_run [OF assms])

text \<open>A BMC whose state is its log.\<close>

definition sel_bmc :: "bytes list transport" where
  "sel_bmc req lg =
     (if rq_cmd req = 0x40 then Inr (Some (answer 0 ([0x51] @ le16 (of_nat (length lg)) @ replicate 11 0)), lg)
      else if rq_cmd req = 0x42 then Inr (Some (answer 0 (le16 1)), lg)
      else if rq_cmd req = 0x43 then
        (case find (names_entry lg (of_le16 (drop 2 (rq_data req)))) [0..<length lg] of
           None \<Rightarrow> Inr (Some (answer 0xcb []), lg)
         | Some k \<Rightarrow> Inr (Some (answer 0 (le16 (next_of lg k) @ lg ! k)), lg))
      else if rq_cmd req = 0x44 then Inr (Some (answer 0 (le16 1)), lg @ [rq_data req])
      else Inr (Some (answer 0xc1 []), lg))"

lemma names_entry_unique:
  assumes "log_ok lg" "names_entry lg i k" "names_entry lg i j"
  shows "j = k"
proof -
  have "rec_id (lg ! j) = rec_id (lg ! k) \<longrightarrow> j = k" if "j < length lg" "k < length lg"
    using assms(1) that by (auto simp: log_ok_def distinct_conv_nth)
  then show ?thesis using assms log_entry [OF assms(1), of k] log_entry [OF assms(1), of j] by (auto simp: names_entry_def)
qed

lemma sel_bmc_device: "sel_device sel_bmc (\<lambda>lg. lg)"
proof -
  have "\<exists>b'. sel_bmc (ipmi_request 0x0a 0x43 ([0x00, 0x00] @ le16 i @ [0x00, 0xff])) lg = Inr (Some (answer 0 (le16 (next_of lg k) @ lg ! k)), b') \<and> b' = lg"
    if "log_ok lg" "names_entry lg i k" for lg i k
  proof -
    have i: "of_le16 (drop 2 (rq_data (ipmi_request 0x0a 0x43 ([0x00, 0x00] @ le16 i @ [0x00, 0xff])))) = i"
      using of_le16_le16 [of i] by (simp add: le16_def of_le16_def)
    have k: "k < length lg" using that(2) by (simp add: names_entry_def)
    have "find (names_entry lg i) [0..<length lg] = Some k"
    proof -
      have "\<not> names_entry lg i j" if "j < k" for j using names_entry_unique [OF \<open>log_ok lg\<close> \<open>names_entry lg i k\<close>, of j] that by auto
      then have "k < length [0..<length lg] \<and> names_entry lg i ([0..<length lg] ! k) \<and> k = [0..<length lg] ! k \<and> (\<forall>j < k. \<not> names_entry lg i ([0..<length lg] ! j))"
        using k that(2) by simp
      then show ?thesis unfolding find_Some_iff by blast
    qed
    then show ?thesis using i by (simp add: sel_bmc_def ipmi_request_def)
  qed
  then show ?thesis by (auto simp: sel_device_def sel_bmc_def ipmi_request_def)
qed

definition demo_log :: "bytes list" where
  "demo_log = map (\<lambda>i. le16 i @ [0x02] @ le32 0x3000000 @ le16 0x20 @ [0x04, 0x0c, 0x00, 0x6f, 0xa0, 0xff, 0x12]) [1, 3, 5]"

definition demo_repository :: "'s \<Rightarrow> 's sdr" where
  "demo_repository b = \<lparr>d_bmc = b, d_use_built_in = False, d_max_read = 255, d_sdriana = 0, d_list = [], d_itr = None, d_mallocs = [], d_turns = 10\<rparr>"

definition demo_sel :: "'s \<Rightarrow> 's sel" where
  "demo_sel b = \<lparr>e_sdr = demo_repository b, e_fd = 3, e_extended = 0, e_oem = [], e_csv = False, e_verbose = 0, e_date = \<lambda>_. ''01/01/2000'',
     e_time = \<lambda>_. ''00:00:00'', e_now = 0, e_mktime = \<lambda>_. None, e_float = \<lambda>_ _. ''0'', e_percent = \<lambda>_ _. 0, e_out = [], e_save = [], e_raw = []\<rparr>"

lemma demo_log_ok: "log_ok demo_log" "showable True demo_log" "evenly_numbered demo_log"
proof -
  have "list_all (\<lambda>r. length r = 16 \<and> rec_id r \<noteq> 0 \<and> rec_id r \<noteq> 0xffff) demo_log" "distinct (map rec_id demo_log)" by code_simp+
  moreover have "length demo_log < 2 ^ 16" by (simp add: demo_log_def)
  ultimately show "log_ok demo_log" by (simp add: log_ok_def list_all_iff)
  have "list_all (\<lambda>r. plain_entry (shown r) \<and> plain_event (shown r)) demo_log" by code_simp
  then show "showable True demo_log" by (auto simp: showable_def list_all_iff)
  have "list_all (\<lambda>k. uint (rec_id (demo_log ! k)) = uint (rec_id (demo_log ! 0)) + int k * 2) [0..<length demo_log]" by code_simp
  then show "evenly_numbered demo_log" by (auto simp: evenly_numbered_def list_all_iff)
qed

theorem sel_list_shows_log_witness:
  "\<exists>b. ipmi_sel_savelist_entries sel_bmc (- 2) True False (demo_sel demo_log)
      = Inr (0, with_bmc b (after_show True False (map shown (wanted (- 2) demo_log)) (demo_sel demo_log))) \<and> b = demo_log"
proof -
  have v: "bmc_of (demo_sel demo_log) = demo_log" by (simp add: demo_sel_def demo_repository_def)
  have "length demo_log < d_turns (e_sdr (demo_sel demo_log))" by (simp add: demo_log_def demo_sel_def demo_repository_def)
  moreover have "sel_ready (demo_sel demo_log)" by (simp add: sel_ready_def demo_sel_def demo_repository_def)
  ultimately show ?thesis
    using sel_list_shows_log [OF sel_bmc_device, of "demo_sel demo_log" True False "- 2"] demo_log_ok unfolding v by simp
qed

end
