(* ===== verification/Sel_Files.thy ===== *)
theory Sel_Files
  imports Sel_Log
begin

text \<open>
  The log in files: what \<open>writeraw\<close> writes is shown by \<open>readraw\<close>, what \<open>save\<close> writes is added by \<open>add\<close>; the file of messages of a manufacturer; and
  the inputs that the code does not stand.
\<close>

section \<open>Records\<close>

lemma readraw_loop_run:
  assumes "\<forall>e \<in> set es. length e = 16 \<and> plain_entry e" "sel_ready t"
  shows "readraw_loop sr (concat es) t = Inr (0, t\<lparr>e_out := e_out t @ concat (map (entry_line t) es)\<rparr>)"
  using assms
proof (induction es arbitrary: t)
  case Nil
  then show ?case by (subst readraw_loop.simps) (simp add: machine_simps)
next
  case (Cons e es)
  let ?t = "t\<lparr>e_out := e_out t @ entry_line t e\<rparr>"
  have "print_entry sr e t = Inr ((), ?t)"
    using Cons.prems by (simp add: print_entry_def sel_ready_def print_std_entry_run machine_simps)
  moreover have "readraw_loop sr (concat es) ?t = Inr (0, ?t\<lparr>e_out := e_out ?t @ concat (map (entry_line ?t) es)\<rparr>)"
    using Cons by (intro Cons.IH) (auto simp: sel_ready_def)
  ultimately show ?case using Cons.prems by (subst readraw_loop.simps) (simp add: machine_simps)
qed

text \<open>
  The raw file holds the log. What \<open>sel writeraw\<close> writes on a BMC that follows the specification is read by \<open>sel readraw\<close>, which then shows every entry of the
  log once and in order, as \<open>sel list\<close> does, without asking a BMC.
\<close>

theorem sel_raw_round_trip:
  assumes "sel_device sr view" "log_ok (view (bmc_of s))" "sel_ready s" "showable False (view (bmc_of s))"
    and "length (view (bmc_of s)) < d_turns (e_sdr s)" "e_raw s = []" "sel_ready t"
  shows "\<exists>u. ipmi_sel_writeraw sr True s = Inr (0, u)
    \<and> ipmi_sel_readraw sr' (Some (e_raw u)) t = Inr (0, t\<lparr>e_out := e_out t @ concat (map (entry_line t) (map shown (view (bmc_of s))))\<rparr>)"
proof -
  let ?es = "map shown (view (bmc_of s))"
  obtain b where "ipmi_sel_writeraw sr True s = Inr (0, with_bmc b (after_show True True ?es s))"
    using sel_list_shows_log_run [OF assms(1-3), of True True 0] assms(4,5) by (auto simp: ipmi_sel_writeraw_def wanted_def)
  moreover have "e_raw (with_bmc b (after_show True True ?es s)) = concat ?es" using assms(6) by (simp add: after_show_def)
  moreover have "\<forall>e \<in> set ?es. length e = 16 \<and> plain_entry e" using assms(2,4) by (auto simp: log_ok_def showable_def)
  ultimately show ?thesis using readraw_loop_run [of ?es t sr'] assms(7) by (auto simp: ipmi_sel_readraw_def)
qed

section \<open>Text\<close>

definition tok :: "u8 \<Rightarrow> string" where
  "tok b = ''0x'' @ hex2 b"

lemma digit_in_hex: "n < 16 \<Longrightarrow> digit_in 16 (hex_digits ! n) = Some (int n)"
proof -
  assume "n < 16"
  then have "n \<in> {0, 1, 2, 3, 4, 5, 6, 7, 8, 9, 10, 11, 12, 13, 14, 15}" unfolding insert_iff empty_iff by presburger
  then show ?thesis by (auto simp: digit_in_def lower_def hex_digits_def Let_def)
qed

lemma hex_char: "n < 16 \<Longrightarrow> \<not> is_space (hex_digits ! n) \<and> hex_digits ! n \<noteq> CHR '' '' \<and> hex_digits ! n \<noteq> CHR ''#'' \<and> hex_digits ! n \<noteq> CHR 0x0A \<and> hex_digits ! n \<noteq> CHR 0x00"
proof -
  have "list_all (\<lambda>n. \<not> is_space (hex_digits ! n) \<and> hex_digits ! n \<noteq> CHR '' '' \<and> hex_digits ! n \<noteq> CHR ''#'' \<and> hex_digits ! n \<noteq> CHR 0x0A \<and> hex_digits ! n \<noteq> CHR 0x00) [0..<16]"
    by code_simp
  then show "n < 16 \<Longrightarrow> ?thesis" by (auto simp: list_all_iff)
qed

lemma nibble_values: "unat (drop_bit 4 b) < 16" "unat (b AND 15 :: u8) < 16" "16 * int (unat (drop_bit 4 b)) + int (unat (b AND 15)) = uint b"
proof -
  have "unat b < 256" by (rule order_less_le_trans [OF unsigned_less]) simp
  then show "unat (drop_bit 4 b) < 16" unfolding unat_drop_bit_eq by (simp add: drop_bit_eq_div)
  show "unat (b AND 15) < 16" using take_bit_nat_less_exp [of 4 "unat b"] by (simp add: low_nibble unsigned_take_bit_eq)
  have "unat (drop_bit 4 b) = unat b div 16" "unat (b AND 15) = unat b mod 16"
    unfolding low_nibble unat_drop_bit_eq unsigned_take_bit_eq by (simp_all add: drop_bit_eq_div take_bit_eq_mod)
  then have "16 * unat (drop_bit 4 b) + unat (b AND 15) = unat b" by simp
  then have "int (16 * unat (drop_bit 4 b) + unat (b AND 15)) = int (unat b)" by (rule arg_cong)
  then show "16 * int (unat (drop_bit 4 b)) + int (unat (b AND 15)) = uint b" by (simp only: of_nat_add of_nat_mult of_nat_numeral uint_nat)
qed

lemma tok_form:
  obtains y z where "tok b = [CHR ''0'', CHR ''x'', y, z]" "digit_in 16 y = Some (int (unat (drop_bit 4 b)))" "digit_in 16 z = Some (int (unat (b AND 15)))"
    "\<not> is_space y" "\<not> is_space z" "\<forall>c \<in> {y, z}. c \<noteq> CHR '' '' \<and> c \<noteq> CHR ''#'' \<and> c \<noteq> CHR 0x0A \<and> c \<noteq> CHR 0x00"
  using digit_in_hex [OF nibble_values(1) [of b]] digit_in_hex [OF nibble_values(2) [of b]]
    hex_char [OF nibble_values(1) [of b]] hex_char [OF nibble_values(2) [of b]] by (auto simp: tok_def hex2_def)

lemma strtol0_tok: "strtol0 (tok b) = (uint b, [])"
proof -
  obtain y z where y: "tok b = [CHR ''0'', CHR ''x'', y, z]" "digit_in 16 y = Some (int (unat (drop_bit 4 b)))" "digit_in 16 z = Some (int (unat (b AND 15)))"
    by (rule tok_form)
  have "sat_long v = v" if "0 \<le> v" "v < 2 ^ 8" for v using that by (simp add: sat_long_def)
  then have "sat_long (uint b) = uint b" using unsigned_less [of b, where 'a = int] by simp
  moreover have "scan_digits 16 0 [y, z] = (uint b, [])" using y(2,3) nibble_values(3) [of b] by simp
  ultimately show ?thesis using y by (simp add: strtol0_def scan_number_def chr_at_def is_space_def Let_def lower_def)
qed

lemma tok_chars: "c \<in> set (tok b) \<Longrightarrow> c \<noteq> CHR '' '' \<and> c \<noteq> CHR ''#'' \<and> c \<noteq> CHR 0x0A \<and> c \<noteq> CHR 0x00"
  by (rule tok_form [of b]) auto

definition toks :: "bytes \<Rightarrow> string" where
  "toks bs = concat (map (\<lambda>b. tok b @ '' '') bs)"

lemma toks_simps [simp]: "toks [] = []" "toks (b # bs) = tok b @ '' '' @ toks bs" "toks (bs @ [b]) = toks bs @ tok b @ '' ''"
  by (simp_all add: toks_def)

lemma toks_chars: "\<forall>c \<in> set (toks bs). c \<noteq> CHR ''#'' \<and> c \<noteq> CHR 0x0A \<and> c \<noteq> CHR 0x00"
  by (induction bs) (auto dest: tok_chars)

lemma clip_toks: "clip_line (toks (bs @ [b]) @ ''#'' @ r) = Inr (toks bs @ tok b)"
proof -
  let ?h = "toks bs @ tok b"
  have "takeWhile (\<lambda>c. c \<noteq> CHR ''#'') (toks (bs @ [b]) @ ''#'' @ r) = toks (bs @ [b])"
    using toks_chars [of "bs @ [b]"] by (subst takeWhile_append2) auto
  moreover obtain y z where y: "tok b = [CHR ''0'', CHR ''x'', y, z]" "\<not> is_space y" "\<not> is_space z" by (rule tok_form)
  then have "dropWhile is_space (rev (toks (bs @ [b]))) = rev ?h" by (simp add: is_space_def)
  moreover have "dropWhile is_space ?h = ?h"
  proof (cases bs)
    case Nil
    then show ?thesis using y(1) by (simp add: is_space_def)
  next
    case (Cons c cs)
    obtain v w where "tok c = [CHR ''0'', CHR ''x'', v, w]" by (rule tok_form)
    then show ?thesis using Cons by (simp add: is_space_def)
  qed
  moreover have "\<not> list_all is_space (toks (bs @ [b]))" using y by simp
  ultimately show ?thesis by (simp add: clip_line_def Let_def)
qed

lemma tokens_from_space: "tokens_from n (CHR '' '' # s) = tokens_from n s"
  by (cases n) simp_all

lemma tokens_from_toks: "tokens_from (Suc (length bs)) (toks bs @ tok b) = map tok (bs @ [b])"
proof (induction bs)
  case Nil
  obtain y z where "tok b = [CHR ''0'', CHR ''x'', y, z]" "\<forall>c \<in> {y, z}. c \<noteq> CHR '' ''" by (rule tok_form) blast
  then show ?case by (simp add: Let_def)
next
  case (Cons c bs)
  obtain y z where "tok c = [CHR ''0'', CHR ''x'', y, z]" "\<forall>c \<in> {y, z}. c \<noteq> CHR '' ''" by (rule tok_form) blast
  then show ?case using Cons.IH by (simp add: Let_def tokens_from_space)
qed

lemma parse_event_toks: "length bs = 6 \<Longrightarrow> parse_event (toks bs @ tok b) = Some ([0, 0, 0x02] @ le32 0 @ le16 0 @ bs @ [b])"
  using tokens_from_toks [of bs b] by (simp add: parse_event_def strtol0_tok comp_def)

lemma file_lines_run:
  assumes "\<forall>l \<in> set ls. CHR 0x0A \<notin> set l \<and> CHR 0x00 \<notin> set l \<and> length l < 1023"
  shows "file_lines (concat (map (\<lambda>l. l @ nl) ls)) = map (\<lambda>l. l @ nl) ls"
  using assms
proof (induction ls)
  case Nil
  then show ?case by (subst file_lines.simps) simp
next
  case (Cons l ls)
  have "get_line 1023 (l @ CHR 0x0A # concat (map (\<lambda>l. l @ nl) ls)) = (l @ nl, concat (map (\<lambda>l. l @ nl) ls))"
    using Cons.prems by (intro get_line_newline) auto
  then show ?case using Cons by (subst file_lines.simps) simp
qed

section \<open>Saving and adding\<close>

text \<open>What \<open>add\<close> makes of an entry: the same event without its id, time stamp and generator.\<close>

definition added :: "bytes \<Rightarrow> bytes" where
  "added e = [0, 0, 0x02] @ le32 0 @ le16 0 @ drop 9 e"

definition event_bytes :: "bytes \<Rightarrow> bytes" where
  "event_bytes e = [evm_rev e, sensor_type e, sensor_num e, event_byte e, event_data e 0, event_data e 1, event_data e 2]"

lemma event_byte_same: "event_byte e = e ! 12"
proof -
  have "(0x7f :: u8) = mask 7" by (simp add: mask_eq_exp_minus_1)
  then have "event_byte e = take_bit 7 (e ! 12) OR push_bit 7 (drop_bit 7 (e ! 12))"
    by (simp only: event_byte_def event_type_def event_dir_def take_bit_eq_mask)
  also have "\<dots> = e ! 12"
  proof (rule bit_word_eqI)
    fix n
    assume "n < LENGTH(8)"
    then have "n < 7 \<or> n = 7" by auto
    then show "bit (take_bit 7 (e ! 12) OR push_bit 7 (drop_bit 7 (e ! 12))) n = bit (e ! 12) n"
      by (auto simp: bit_or_iff bit_push_bit_iff bit_drop_bit_eq bit_take_bit_iff)
  qed
  finally show ?thesis .
qed

lemma event_bytes_drop: "length e = 16 \<Longrightarrow> event_bytes e = drop 9 e"
  by (rule nth_equalityI) (auto simp: event_bytes_def event_byte_same evm_rev_def sensor_type_def sensor_num_def event_data_def less_Suc_eq numeral_eq_Suc)

lemma plain_added: "length e = 16 \<Longrightarrow> plain_event (added e) = plain_event e \<and> length (added e) = 16"
  by (simp add: added_def plain_event_def sensor_type_def event_type_def le32_def le16_def numeral_eq_Suc)

lemma find_plain_row: "list_all plain_row rows \<Longrightarrow> find P rows = Some r \<Longrightarrow> plain_row r"
  by (auto simp: find_Some_iff list_all_length)

lemma type_name_plain: "plain_text (ipmi_sel_get_sensor_type_offset code offset)"
proof -
  have "plain_text (ipmi_sel_get_sensor_type code)"
    using find_plain_row [OF sensor_specific_rows_plain]
    by (auto simp: ipmi_sel_get_sensor_type_def plain_row_def plain_text_def split: option.splits)
  then show ?thesis
    using find_plain_row [OF sensor_specific_rows_plain]
    by (auto simp: ipmi_sel_get_sensor_type_offset_def plain_row_def split: option.splits)
qed

lemma desc_of_plain: "desc_of e = Some d \<Longrightarrow> plain_text d"
proof -
  assume "desc_of e = Some d"
  then obtain x P where x: "v_desc x = Some d" "find P sensor_specific_types = Some x \<or> find P generic_event_types = Some x"
    by (auto simp: desc_of_def split: option.splits if_splits)
  then have "plain_row x" using find_plain_row [OF sensor_specific_rows_plain] find_plain_row [OF generic_rows_plain] by blast
  then show ?thesis using x(1) by (simp add: plain_row_def)
qed

lemma save_line_form:
  assumes "length e = 16"
  obtains r where "save_line e = toks (drop 9 e) @ ''#'' @ r @ nl" "CHR 0x0A \<notin> set r" "CHR 0x00 \<notin> set r" "length r \<le> 200"
proof -
  let ?ty = "ipmi_sel_get_sensor_type_offset (sensor_type e) (event_data e 0)" and ?d = "case desc_of e of None \<Rightarrow> ''Unknown'' | Some d \<Rightarrow> d"
  let ?r = "'' '' @ ?ty @ '' #'' @ tok (sensor_num e) @ '' '' @ ?d"
  have "save_line e = toks (event_bytes e) @ ''#'' @ ?r @ nl"
    by (simp add: save_line_def event_line_def event_bytes_def toks_def tok_def)
  moreover have "plain_text ?ty" "plain_text ?d" using type_name_plain desc_of_plain [of e] by (auto simp: plain_text_def split: option.splits)
  moreover have "length (tok (sensor_num e)) = 4" by (simp add: tok_def hex2_def)
  ultimately show ?thesis
    using that [of ?r] event_bytes_drop [OF assms] by (auto simp: plain_text_def dest: tok_chars)
qed

lemma length_toks: "length (toks bs) = 5 * length bs"
  by (induction bs) (simp_all add: tok_def hex2_def)

lemma save_line_added:
  assumes "length e = 16"
  shows "\<exists>t. clip_line (save_line e) = Inr t \<and> parse_event t = Some (added e)"
proof -
  obtain r where r: "save_line e = toks (drop 9 e) @ ''#'' @ r @ nl" by (rule save_line_form [OF assms])
  have d: "drop 9 e = take 6 (drop 9 e) @ [e ! 15]"
    using take_Suc_conv_app_nth [of 6 "drop 9 e"] assms by simp
  have "clip_line (save_line e) = Inr (toks (take 6 (drop 9 e)) @ tok (e ! 15))"
    using clip_toks [of "take 6 (drop 9 e)" "e ! 15" "r @ nl"] unfolding r d [symmetric] .
  moreover have "parse_event (toks (take 6 (drop 9 e)) @ tok (e ! 15)) = Some (added e)"
    using parse_event_toks [of "take 6 (drop 9 e)" "e ! 15"] assms d by (simp add: added_def)
  ultimately show ?thesis by blast
qed

text \<open>A BMC that adds what it is given.\<close>

definition sel_adds :: "'s transport \<Rightarrow> ('s \<Rightarrow> bytes list) \<Rightarrow> bool" where
  "sel_adds sr view \<longleftrightarrow> (\<forall>req b. rq_netfn req = 0x0a \<and> rq_cmd req = 0x44 \<and> length (rq_data req) = 16 \<longrightarrow>
     (\<exists>r b'. sr req b = Inr (Some r, b') \<and> r_ccode r = 0 \<and> view b' = view b @ [rq_data req]))"

lemma add_lines_run:
  assumes "sel_adds sr view" "\<forall>e \<in> set es. length e = 16 \<and> plain_event e" "sel_ready t"
  shows "\<exists>u. add_lines sr junk 0 (map save_line es) t = Inr (0, u) \<and> view (bmc_of u) = view (bmc_of t) @ map added es"
  using assms(2,3)
proof (induction es arbitrary: t)
  case Nil
  then show ?case by (simp add: machine_simps)
next
  case (Cons e es)
  let ?a = "added e"
  have a: "plain_event ?a" "length ?a = 16" using plain_added [of e] Cons.prems(1) by auto
  obtain c where c: "clip_line (save_line e) = Inr c" "parse_event c = Some ?a" using save_line_added [of e] Cons.prems(1) by auto
  let ?t = "t\<lparr>e_out := e_out t @ entry_line t ?a\<rparr>"
  have p: "ipmi_sel_print_std_entry sr ?a t = Inr ((), ?t)"
    using Cons.prems(2) a(1) by (intro print_std_entry_run) (auto simp: plain_entry_def sel_ready_def)
  obtain r b where r: "sr (junk\<lparr>rq_netfn := 0x0a, rq_cmd := 0x44, rq_data := ?a\<rparr>) (bmc_of t) = Inr (Some r, b)" "r_ccode r = 0" "view b = view (bmc_of t) @ [?a]"
    using assms(1) [unfolded sel_adds_def, rule_format, of "junk\<lparr>rq_netfn := 0x0a, rq_cmd := 0x44, rq_data := ?a\<rparr>" "bmc_of t"] a(2) by auto
  let ?u = "with_bmc b ?t"
  have "ipmi_sel_add_entry sr junk ?a t = Inr (0, ?u)"
    using p r(1,2) by (simp add: ipmi_sel_add_entry_def sel_send_def on_sdr_def sdr_send_def machine_simps)
  moreover obtain u where "add_lines sr junk 0 (map save_line es) ?u = Inr (0, u)" "view (bmc_of u) = view (bmc_of ?u) @ map added es"
    using Cons.IH [of ?u] Cons.prems by (auto simp: sel_ready_def)
  ultimately show ?case using c r(3) by (auto simp: lift_fault_def machine_simps)
qed

text \<open>
  C10. What is saved can be added. The text file that \<open>sel save\<close> writes from a log, with the types and descriptions of the events as comments, is read by \<open>sel add\<close>, which
  adds each event of the log once and in order: revision, sensor, direction, type and data of the events are those of the log, id, time stamp and
  generator are zero.
  As for the listing, neither verbose nor extended output is asked for, \<open>malloc\<close> succeeds, and no entry of the log has a sensor type \<open>c0\<close> to \<open>ef\<close> or an
  event type \<open>70\<close> to \<open>7e\<close> (\<open>sel_ready\<close>, \<open>showable\<close>): those the manufacturer describes, and on a Kontron BMC describing them faults (\<open>sel_kontron_descriptions_fault\<close>).
\<close>

theorem sel_save_add_round_trip:
  assumes "sel_device sr view" "log_ok (view (bmc_of s))" "sel_ready s" "showable True (view (bmc_of s))"
    and "length (view (bmc_of s)) < d_turns (e_sdr s)" "e_save s = []" "sel_adds sr' view'" "sel_ready t"
  shows "\<exists>u v. ipmi_sel_save_entries sr 0 True s = Inr (0, u) \<and> ipmi_sel_add_entries_fromfile sr' junk (Some (e_save u)) t = Inr (0, v)
    \<and> view' (bmc_of v) = view' (bmc_of t) @ map (\<lambda>r. added (shown r)) (view (bmc_of s))"
proof -
  let ?es = "map shown (view (bmc_of s))"
  obtain b where save: "ipmi_sel_save_entries sr 0 True s = Inr (0, with_bmc b (after_show True False ?es s))"
    using sel_list_shows_log_run [OF assms(1-3), of True False 0] assms(4,5) by (auto simp: ipmi_sel_save_entries_def wanted_def)
  have es: "\<forall>e \<in> set ?es. length e = 16 \<and> plain_event e" using assms(2,4) by (auto simp: log_ok_def showable_def)
  have "\<exists>l. save_line e = l @ nl \<and> CHR 0x0A \<notin> set l \<and> CHR 0x00 \<notin> set l \<and> length l < 1023" if "e \<in> set ?es" for e
  proof -
    have e: "length e = 16" using es that by blast
    obtain r where "save_line e = toks (drop 9 e) @ ''#'' @ r @ nl" "CHR 0x0A \<notin> set r" "CHR 0x00 \<notin> set r" "length r \<le> 200"
      by (rule save_line_form [OF e])
    then show ?thesis using toks_chars [of "drop 9 e"] e by (intro exI [of _ "toks (drop 9 e) @ ''#'' @ r"]) (auto simp: length_toks)
  qed
  then obtain f where f: "\<And>e. e \<in> set ?es \<Longrightarrow> save_line e = f e @ nl \<and> CHR 0x0A \<notin> set (f e) \<and> CHR 0x00 \<notin> set (f e) \<and> length (f e) < 1023" by metis
  then have m: "map save_line ?es = map (\<lambda>l. l @ nl) (map f ?es)" by simp
  have "file_lines (concat (map save_line ?es)) = map save_line ?es" unfolding m using f by (intro file_lines_run) auto
  moreover obtain v where "add_lines sr' junk 0 (map save_line ?es) t = Inr (0, v)" "view' (bmc_of v) = view' (bmc_of t) @ map added ?es"
    using add_lines_run [OF assms(7) es assms(8)] by blast
  ultimately show ?thesis using save assms(6) by (auto simp: after_show_def ipmi_sel_add_entries_fromfile_def comp_def)
qed

section \<open>Witnesses\<close>

lemma demo_sel_facts:
  "bmc_of (demo_sel b) = b" "sel_ready (demo_sel b)" "e_raw (demo_sel b) = []" "e_save (demo_sel b) = []" "length demo_log < d_turns (e_sdr (demo_sel b))"
  by (simp_all add: demo_sel_def demo_repository_def sel_ready_def demo_log_def)

lemma demo_log_raw: "showable False demo_log"
  using demo_log_ok(2) by (auto simp: showable_def)

lemma sel_bmc_adds: "sel_adds sel_bmc (\<lambda>lg. lg)"
  by (auto simp: sel_adds_def sel_bmc_def answer_def)

theorem sel_raw_round_trip_witness:
  "\<exists>u. ipmi_sel_writeraw sel_bmc True (demo_sel demo_log) = Inr (0, u)
    \<and> ipmi_sel_readraw sel_bmc (Some (e_raw u)) (demo_sel [])
      = Inr (0, (demo_sel [])\<lparr>e_out := concat (map (entry_line (demo_sel ([] :: bytes list))) (map shown demo_log))\<rparr>)"
  using sel_raw_round_trip [OF sel_bmc_device, of "demo_sel demo_log" "demo_sel []" sel_bmc] demo_log_ok demo_log_raw
  by (simp add: demo_sel_facts) (simp add: demo_sel_def)

theorem sel_save_add_round_trip_witness:
  "\<exists>u v. ipmi_sel_save_entries sel_bmc 0 True (demo_sel demo_log) = Inr (0, u)
    \<and> ipmi_sel_add_entries_fromfile sel_bmc (ipmi_request 0 0 []) (Some (e_save u)) (demo_sel []) = Inr (0, v)
    \<and> bmc_of v = map (\<lambda>r. added (shown r)) demo_log"
  using sel_save_add_round_trip [OF sel_bmc_device _ _ _ _ _ sel_bmc_adds, of "demo_sel demo_log" "demo_sel []" "ipmi_request 0 0 []"] demo_log_ok
  by (simp add: demo_sel_facts)

end
