(* ===== verification/Sel_Oem.thy ===== *)
theory Sel_Oem
  imports Sel_Files
begin

text \<open>
  The file of messages of a manufacturer, and the inputs that the code does not stand: lines without an event in a file of events, and events of
  manufacturers without a description.
\<close>

section \<open>Messages of a manufacturer\<close>

text \<open>A line of the file: fields in quotes, separated by commas.\<close>

fun row_text :: "string list \<Rightarrow> string" where
  "row_text [] = []"
| "row_text [f] = CHR 0x22 # f @ [CHR 0x22]"
| "row_text (f # fs) = CHR 0x22 # f @ [CHR 0x22, CHR '',''] @ row_text fs"

definition field_ok :: "string \<Rightarrow> bool" where
  "field_ok f \<longleftrightarrow> f \<noteq> [] \<and> length f < 150 \<and> CHR 0x22 \<notin> set f \<and> CHR 0x0A \<notin> set f"

definition row_ok :: "string list \<Rightarrow> bool" where
  "row_ok fs \<longleftrightarrow> length fs = 15 \<and> list_all field_ok fs"

definition oem_rec :: "string list \<Rightarrow> sel_oem_rec" where
  "oem_rec fs =
     \<lparr>o_value = map ipmi_sel_oem_readval (take 14 fs),
      o_string = map (\<lambda>f. if ipmi_sel_oem_readval f = - 3 then f else []) (take 14 fs), o_text = fs ! 14\<rparr>"

definition oem_file :: "string list list \<Rightarrow> string" where
  "oem_file rows = concat (map (\<lambda>fs. row_text fs @ nl) rows)"

lemma upto_char: "c \<notin> set f \<Longrightarrow> takeWhile (\<lambda>x. x \<noteq> c) (f @ c # r) = f" "c \<notin> set f \<Longrightarrow> dropWhile (\<lambda>x. x \<noteq> c) (f @ c # r) = c # r"
  by (induction f) auto

lemma quoted_field:
  assumes "field_ok f"
  shows "takeWhile (\<lambda>c. c \<noteq> CHR 0x22) (f @ CHR 0x22 # r) = f" "dropWhile (\<lambda>c. c \<noteq> CHR 0x22) (f @ CHR 0x22 # r) = CHR 0x22 # r"
  using assms by (simp_all add: field_ok_def upto_char)

lemma scan_fields_row:
  "fs \<noteq> [] \<Longrightarrow> list_all field_ok fs \<Longrightarrow> scan_fields (length fs) (row_text fs @ r) = Inr (fs, dropWhile is_space r)"
proof (induction fs rule: row_text.induct)
  case (2 f)
  then show ?case using quoted_field [of f r] by (simp add: chr_at_def Let_def field_ok_def)
next
  case (3 f g fs)
  have "scan_fields (length (g # fs)) (row_text (g # fs) @ r) = Inr (g # fs, dropWhile is_space r)" using 3 by simp
  then show ?case
    using 3 quoted_field [of f "CHR '','' # row_text (g # fs) @ r"] by (simp add: chr_at_def Let_def field_ok_def)
qed simp

lemma row_text_head: "fs \<noteq> [] \<Longrightarrow> \<exists>r. row_text fs = CHR 0x22 # r"
  by (cases fs rule: row_text.cases) auto

lemma row_text_no_newline: "list_all field_ok fs \<Longrightarrow> CHR 0x0A \<notin> set (row_text fs)"
  by (induction fs rule: row_text.induct) (auto simp: field_ok_def)

lemma oem_file_head: "list_all row_ok rows \<Longrightarrow> dropWhile is_space (oem_file rows) = oem_file rows"
proof (cases rows)
  case (Cons fs rows')
  assume "list_all row_ok rows"
  then obtain r where "row_text fs = CHR 0x22 # r" using row_text_head [of fs] Cons by (cases fs) (auto simp: row_ok_def)
  then show ?thesis using Cons by (simp add: oem_file_def is_space_def)
qed (simp add: oem_file_def)

lemma oem_file_Cons: "oem_file (fs # rows) = row_text fs @ CHR 0x0A # oem_file rows"
  by (simp add: oem_file_def)

lemma count_lines_rows: "list_all row_ok rows \<Longrightarrow> count_lines (oem_file rows) = Inr (length rows)"
proof (induction rows)
  case Nil
  then show ?case by (subst count_lines.simps) (simp add: oem_file_def)
next
  case (Cons fs rows)
  have fs: "fs \<noteq> []" "list_all field_ok fs" using Cons.prems by (auto simp: row_ok_def)
  obtain r where r: "row_text fs = CHR 0x22 # r" using row_text_head [OF fs(1)] by blast
  have "dropWhile (\<lambda>c. c \<noteq> CHR 0x0A) (oem_file (fs # rows)) = CHR 0x0A # oem_file rows"
    using row_text_no_newline [OF fs(2)] by (simp add: oem_file_Cons upto_char)
  then have "dropWhile is_space (dropWhile (\<lambda>c. c \<noteq> CHR 0x0A) (oem_file (fs # rows))) = oem_file rows"
    using oem_file_head [of rows] Cons.prems by (simp add: is_space_def)
  then show ?case using Cons r by (subst count_lines.simps) (simp add: oem_file_Cons)
qed

lemma sel_strdup_run: "d_mallocs (e_sdr s) = [] \<Longrightarrow> sel_strdup t s = Inr (t, s)"
  by (simp add: sel_strdup_def sel_malloc_run machine_simps)

lemma oem_values_run:
  "d_mallocs (e_sdr s) = [] \<Longrightarrow>
   oem_values fs s = Inr (map (\<lambda>f. (ipmi_sel_oem_readval f, if ipmi_sel_oem_readval f = - 3 then f else [])) fs, s)"
  by (induction fs) (simp_all add: sel_strdup_run machine_simps Let_def)

lemma oem_rows_run:
  "list_all row_ok rows \<Longrightarrow> d_mallocs (e_sdr s) = [] \<Longrightarrow> oem_rows (length rows) (oem_file rows) s = Inr (Some (map oem_rec rows), s)"
proof (induction rows)
  case (Cons fs rows)
  have fs: "fs \<noteq> []" "list_all field_ok fs" "length fs = 15" using Cons.prems by (auto simp: row_ok_def)
  have "scan_fields 15 (oem_file (fs # rows)) = Inr (fs, oem_file rows)"
    using scan_fields_row [OF fs(1,2)] fs(3) oem_file_head [of rows] Cons.prems by (simp add: oem_file_Cons is_space_def)
  then show ?case
    using Cons fs(3) by (simp add: machine_simps lift_fault_def oem_values_run sel_strdup_run oem_rec_def comp_def del: scan_fields.simps)
qed (simp add: machine_simps)

text \<open>
  The file of messages is loaded as it is written. From a file with any number of lines of fifteen quoted fields, none of them empty or longer than 149 characters,
  \<open>ipmi_sel_oem_init\<close> loads one message per line, with the values of the fields and the fields that are not values. A file that begins with an empty line keeps it counting
  lines for ever.
\<close>

theorem sel_oem_file_loaded:
  assumes "list_all row_ok rows" "d_mallocs (e_sdr s) = []"
  shows "ipmi_sel_oem_init (Some (oem_file rows)) s
      = Inr (0, s\<lparr>e_out := e_out s @ ''nrecs='' @ dec_nat (length rows) @ nl, e_oem := map oem_rec rows\<rparr>)
    \<and> ipmi_sel_oem_init (Some (nl @ f)) s = Inl NoReturn"
proof
  let ?t = "s\<lparr>e_out := e_out s @ ''nrecs='' @ dec_nat (length rows) @ nl\<rparr>"
  have "on_sdr sdr_malloc ?t = Inr (True, ?t)" using assms(2) by (simp add: sel_malloc_run)
  then show "ipmi_sel_oem_init (Some (oem_file rows)) s
      = Inr (0, s\<lparr>e_out := e_out s @ ''nrecs='' @ dec_nat (length rows) @ nl, e_oem := map oem_rec rows\<rparr>)"
    using assms by (simp add: ipmi_sel_oem_init_def count_lines_rows oem_rows_run lift_fault_def machine_simps)
  have "count_lines (nl @ f) = Inl NoReturn" by (subst count_lines.simps) simp
  then show "ipmi_sel_oem_init (Some (nl @ f)) s = Inl NoReturn" by (simp add: ipmi_sel_oem_init_def lift_fault_def machine_simps)
qed

definition demo_row :: "string list" where
  "demo_row = ''0xc1'' # ''XX'' # ''R'' # replicate 11 ''voltage'' @ [''A message'']"

theorem sel_oem_file_loaded_witness:
  "ipmi_sel_oem_init (Some (oem_file [demo_row])) (demo_sel ())
      = Inr (0, (demo_sel ())\<lparr>e_out := ''nrecs=1'' @ nl, e_oem := [oem_rec demo_row]\<rparr>)"
proof -
  have "list_all row_ok [demo_row]" by code_simp
  moreover have "dec_nat 1 = ''1''" by code_simp
  ultimately show ?thesis
    using sel_oem_file_loaded [of "[demo_row]" "demo_sel ()" "[]"] by (simp add: demo_sel_def demo_repository_def)
qed

section \<open>Inputs that are not expected\<close>

text \<open>
  A line without an event is not skipped. When the first line of a file of events is empty, blank or only a comment, \<open>sel add\<close> reads the character before its line buffer, although the test behind
  is meant to skip such lines.
\<close>

theorem sel_add_blank_line_faults:
  assumes "file_lines f = l # ls" "list_all is_space (takeWhile (\<lambda>c. c \<noteq> CHR ''#'') l)"
  shows "ipmi_sel_add_entries_fromfile sr junk (Some f) s = Inl OutOfBounds"
  using assms by (simp add: ipmi_sel_add_entries_fromfile_def clip_line_def lift_fault_def machine_simps)

theorem sel_add_blank_line_faults_witness:
  "ipmi_sel_add_entries_fromfile sel_bmc (ipmi_request 0 0 []) (Some (''# events'' @ nl)) (demo_sel []) = Inl OutOfBounds"
proof -
  have "file_lines (''# events'' @ nl) = [''# events'' @ nl]" using file_lines_run [of "[''# events'']"] by simp
  then show ?thesis by (rule sel_add_blank_line_faults) simp
qed

text \<open>
  Events of a Kontron BMC with an own event type. The table of their descriptions has no end: for every event type from 72 to 7e hexadecimal the search runs out of it. For a record of
  an own type the description is a constant of the program, which is then freed.
\<close>

theorem sel_kontron_descriptions_fault:
  assumes "ipmi_get_oem sr s = Inr (15000, t)" "event_type e \<ge> 0x70" "event_type e < 0x7f" "\<not> (sensor_type e \<ge> 0xc0 \<and> sensor_type e < 0xf0)"
  shows "(rec_type e < 0xc0 \<and> event_type e \<ge> 0x72 \<longrightarrow> ipmi_get_event_desc sr e s = Inl OutOfBounds)
    \<and> (rec_type e \<ge> 0xc0 \<longrightarrow> ipmi_sel_print_event_file sr e s = Inl InvalidFree)"
proof (intro conjI impI)
  assume a: "rec_type e < 0xc0 \<and> event_type e \<ge> 0x72"
  have "x \<noteq> 0x70 \<and> x \<noteq> 0x71" if "x \<ge> 0x72" for x :: u8 using that by auto
  then show "ipmi_get_event_desc sr e s = Inl OutOfBounds"
    using a assms by (auto simp: ipmi_get_event_desc_def ipmi_get_oem_desc_def get_kontron_evt_desc_def oem_kontron_event_reading_types_def evrow_def machine_simps)
next
  assume a: "rec_type e \<ge> 0xc0"
  then show "ipmi_sel_print_event_file sr e s = Inl InvalidFree"
    using assms
    by (auto simp: ipmi_sel_print_event_file_def ipmi_get_event_desc_def ipmi_get_oem_desc_def get_kontron_evt_desc_def sensor_type_name_def free_desc_def machine_simps)
qed

text \<open>A Kontron BMC.\<close>

definition kontron_bmc :: "unit transport" where
  "kontron_bmc req b = Inr (Some (answer 0 [0, 0, 0, 0, 0, 0, 0x98, 0x3a, 0x00]), b)"

theorem sel_kontron_descriptions_fault_witness:
  "ipmi_get_event_desc kontron_bmc [1, 0, 0x02, 0, 0, 0, 0, 0, 0, 0, 0, 0, 0x72, 0, 0, 0] (demo_sel ()) = Inl OutOfBounds"
proof -
  have "ipmi_get_oem kontron_bmc (demo_sel ()) = Inr (15000, demo_sel ())"
    by (simp add: ipmi_get_oem_def kontron_bmc_def demo_sel_def demo_repository_def sel_send_def on_sdr_def sdr_send_def answer_def IPM_DEV_MANUFACTURER_ID_def machine_simps)
  from sel_kontron_descriptions_fault [OF this, of "[1, 0, 0x02, 0, 0, 0, 0, 0, 0, 0, 0, 0, 0x72, 0, 0, 0]"]
  show ?thesis by (simp add: event_type_def sensor_type_def rec_type_def)
qed

end
