(* ===== verification/Hpm.thy ===== *)
theory Hpm
  imports Ipmi_Cmd Fru_Text
begin

text \<open>
  The HPM.1 firmware upgrade agent (\<open>lib/ipmi_hpmfwupg.c\<close>): its data, the sending of a command with its timeouts, and the commands.
  \<open>Hpm_Upgrade\<close> has the stages of an upgrade.

  The state \<open>hpm\<close> holds the state of the transport, the global \<open>verbose\<close>, the static counter of \<open>HpmfwupgSendCmd\<close> and the environment: \<open>hp_clock\<close> gives
  the results of the successive calls of \<open>time\<close>, \<open>hp_percent\<close> what \<open>printf\<close> makes of a percentage, \<open>hp_turns\<close> the number of turns after which the model takes a
  loop that depends on the BMC or the clock for one that does not end (\<open>NoReturn\<close>). Standard output is \<open>hp_out\<close>, the messages at the
  level of notices, which are always shown, are \<open>hp_notes\<close>; debug messages and the pauses of \<open>usleep\<close> are left out, the calls of \<open>sleep\<close> are in \<open>hp_sleeps\<close>. The
  retry for a driver that is not compiled in (\<open>ENABLE_OPENIPMI_V39_PATCH\<close>) is not part of the program.

  A structure is the array of its bytes; one that has not been filled is None, and using it is the fault \<open>Uninitialised\<close>.
\<close>

section \<open>Data\<close>

text \<open>What the agent uses of \<open>struct ipmi_intf\<close>; \<open>n_reopen\<close> drops the session and opens a new one.\<close>

record 's hpm_intf =
  n_name :: string
  n_my_addr :: u32
  n_target_addr :: u32
  n_target_channel :: u8
  n_sendrecv :: "'s transport"
  n_reopen :: "('s, unit) machine"

record 's hpm =
  hp_bmc :: 's
  hp_verbose :: int
  hp_errorCount :: int
  hp_clock :: "nat \<Rightarrow> u32"
  hp_ticks :: nat
  hp_sleeps :: "u32 list"
  hp_malloc :: bool
  hp_blocks :: nat
  hp_percent :: "u32 \<Rightarrow> u32 \<Rightarrow> string"
  hp_turns :: nat
  hp_out :: string
  hp_notes :: "string list"

record upgrade_ctx =
  u_imageSize :: u32
  u_imageData :: bytes
  u_targetCap :: "bytes option"
  u_genCompProp :: "u8 option"
  u_devId :: "bytes option"

abbreviation (input) HPMFWUPG_SUCCESS :: int where "HPMFWUPG_SUCCESS \<equiv> 0"
abbreviation (input) HPMFWUPG_ERROR :: int where "HPMFWUPG_ERROR \<equiv> - 1"
abbreviation (input) HPMFWUPG_UPLOAD_BLOCK_LENGTH :: int where "HPMFWUPG_UPLOAD_BLOCK_LENGTH \<equiv> 1"
abbreviation (input) HPMFWUPG_UPLOAD_RETRY :: int where "HPMFWUPG_UPLOAD_RETRY \<equiv> 2"
abbreviation (input) HPMFWUPG_COMMAND_IN_PROGRESS :: u8 where "HPMFWUPG_COMMAND_IN_PROGRESS \<equiv> 0x80"

abbreviation (input) HPMFWUPG_GET_TARGET_UPG_CAPABILITIES :: u8 where "HPMFWUPG_GET_TARGET_UPG_CAPABILITIES \<equiv> 0x2e"
abbreviation (input) HPMFWUPG_GET_COMPONENT_PROPERTIES :: u8 where "HPMFWUPG_GET_COMPONENT_PROPERTIES \<equiv> 0x2f"
abbreviation (input) HPMFWUPG_BACKUP_COMPONENTS :: u8 where "HPMFWUPG_BACKUP_COMPONENTS \<equiv> 0x30"
abbreviation (input) HPMFWUPG_PREPARE_COMPONENTS :: u8 where "HPMFWUPG_PREPARE_COMPONENTS \<equiv> 0x31"
abbreviation (input) HPMFWUPG_UPLOAD_FIRMWARE_BLOCK :: u8 where "HPMFWUPG_UPLOAD_FIRMWARE_BLOCK \<equiv> 0x32"
abbreviation (input) HPMFWUPG_FINISH_FIRMWARE_UPLOAD :: u8 where "HPMFWUPG_FINISH_FIRMWARE_UPLOAD \<equiv> 0x33"
abbreviation (input) HPMFWUPG_GET_UPGRADE_STATUS :: u8 where "HPMFWUPG_GET_UPGRADE_STATUS \<equiv> 0x34"
abbreviation (input) HPMFWUPG_ACTIVATE_FIRMWARE :: u8 where "HPMFWUPG_ACTIVATE_FIRMWARE \<equiv> 0x35"
abbreviation (input) HPMFWUPG_QUERY_SELFTEST_RESULT :: u8 where "HPMFWUPG_QUERY_SELFTEST_RESULT \<equiv> 0x36"
abbreviation (input) HPMFWUPG_QUERY_ROLLBACK_STATUS :: u8 where "HPMFWUPG_QUERY_ROLLBACK_STATUS \<equiv> 0x37"
abbreviation (input) HPMFWUPG_MANUAL_FIRMWARE_ROLLBACK :: u8 where "HPMFWUPG_MANUAL_FIRMWARE_ROLLBACK \<equiv> 0x38"

section \<open>Environment\<close>

definition on_bmc :: "('s, 'a) machine \<Rightarrow> ('s hpm, 'a) machine" where
  "on_bmc m s = (case m (hp_bmc s) of Inl f \<Rightarrow> Inl f | Inr (a, b) \<Rightarrow> Inr (a, s\<lparr>hp_bmc := b\<rparr>))"

definition hpm_time :: "('s hpm, u32) machine" where
  "hpm_time s = Inr (hp_clock s (hp_ticks s), s\<lparr>hp_ticks := Suc (hp_ticks s)\<rparr>)"

definition hpm_sleep :: "u32 \<Rightarrow> ('s hpm, unit) machine" where
  "hpm_sleep n = mmod (\<lambda>s. s\<lparr>hp_sleeps := hp_sleeps s @ [n]\<rparr>)"

definition hpm_put :: "string \<Rightarrow> ('s hpm, unit) machine" where
  "hpm_put t = mmod (\<lambda>s. s\<lparr>hp_out := hp_out s @ t\<rparr>)"

text \<open>\<open>lprintf(LOG_NOTICE, ...)\<close> cuts a message to its buffer of 1024 characters.\<close>

definition notice :: "string \<Rightarrow> ('s hpm, unit) machine" where
  "notice t = mmod (\<lambda>s. s\<lparr>hp_notes := hp_notes s @ [take 1023 t]\<rparr>)"

definition notices :: "string list \<Rightarrow> ('s hpm, unit) machine" where
  "notices ts = mmod (\<lambda>s. s\<lparr>hp_notes := hp_notes s @ map (take 1023) ts\<rparr>)"

text \<open>A failed operation with its message.\<close>

definition hpm_error :: "string \<Rightarrow> ('s hpm, int) machine" where
  "hpm_error t = mbind (notice t) (\<lambda>_. mret HPMFWUPG_ERROR)"

text \<open>Formats: \<open>%d\<close>, \<open>%x\<close> and \<open>%03d\<close> of a byte.\<close>

definition dec8 :: "u8 \<Rightarrow> string" where "dec8 b = dec_nat (unat b)"
definition hex8 :: "u8 \<Rightarrow> string" where "hex8 b = hex_nat (unat b)"
definition dec03 :: "u8 \<Rightarrow> string" where "dec03 b = replicate (3 - length (dec8 b)) CHR ''0'' @ dec8 b"

definition strstr :: "string \<Rightarrow> string \<Rightarrow> bool" where
  "strstr s t \<longleftrightarrow> list_ex (\<lambda>i. take (length t) (drop i s) = t) [0..<Suc (length s)]"

section \<open>Sending a command\<close>

text \<open>A timeout of the context, in seconds as an \<open>unsigned char\<close>; without a context it is 60.\<close>

definition ctx_timeout :: "nat \<Rightarrow> upgrade_ctx option \<Rightarrow> ('s hpm, u8) machine" where
  "ctx_timeout i ctx =
     (case ctx of None \<Rightarrow> mret 60
      | Some c \<Rightarrow> (case u_targetCap c of None \<Rightarrow> mfail Uninitialised | Some cap \<Rightarrow> mret (cap ! i * 5)))"

text \<open>The body for a missing response: over a LAN it may be replaced.\<close>

definition no_response :: "'s hpm_intf \<Rightarrow> ipmi_rq \<Rightarrow> u8 \<Rightarrow> u8 \<Rightarrow> ('s hpm, ipmi_rs option) machine" where
  "no_response intf req inaccessTimeout inaccessTimeoutCounter =
     (if \<not> strstr (n_name intf) ''lan'' then mret None
      else
        mbind (mget hp_errorCount) (\<lambda>errorCount.
        if rq_netfn req = 0x2c \<and> rq_cmd req = HPMFWUPG_UPLOAD_FIRMWARE_BLOCK \<and> errorCount < 6 then
          mbind (mmod (\<lambda>s. s\<lparr>hp_errorCount := errorCount + 1\<rparr>)) (\<lambda>_. mret (Some (answer 0xc7 [])))
        else if rq_netfn req = 0x2c \<and> (rq_cmd req = HPMFWUPG_ACTIVATE_FIRMWARE \<or> rq_cmd req = HPMFWUPG_MANUAL_FIRMWARE_ROLLBACK) then
          mret (Some (answer HPMFWUPG_COMMAND_IN_PROGRESS []))
        else if rq_netfn req = 0x2c \<and> (rq_cmd req = HPMFWUPG_GET_UPGRADE_STATUS \<or> rq_cmd req = HPMFWUPG_QUERY_ROLLBACK_STATUS) then
          mbind (hpm_sleep (ucast inaccessTimeout - ucast inaccessTimeoutCounter)) (\<lambda>_.
          mbind (on_bmc (n_reopen intf)) (\<lambda>_. mret None))
        else mret None))"

text \<open>The time spent since \<open>timeoutSec1\<close> is added to the counter, and \<open>timeoutSec1\<close> set: for an inaccessible target, and for a busy one.\<close>

definition count_inaccess :: "u8 \<Rightarrow> u32 \<Rightarrow> ('s hpm, u8 \<times> u32) machine" where
  "count_inaccess counter timeoutSec1 =
     mbind hpm_time (\<lambda>timeoutSec2.
     if timeoutSec2 > timeoutSec1 then mbind hpm_time (\<lambda>now. mret (counter + ucast (timeoutSec2 - timeoutSec1), now))
     else mret (counter, timeoutSec1))"

definition count_busy :: "u8 \<Rightarrow> u32 \<Rightarrow> ('s hpm, u8 \<times> u32) machine" where
  "count_busy counter timeoutSec1 =
     mbind hpm_time (\<lambda>timeoutSec2.
     if timeoutSec2 > timeoutSec1 then mbind hpm_time (\<lambda>now. mret (counter + ucast (timeoutSec2 - now), now))
     else mret (counter, timeoutSec1))"

primrec send_retry :: "nat \<Rightarrow> 's hpm_intf \<Rightarrow> ipmi_rq \<Rightarrow> u8 \<Rightarrow> u8 \<Rightarrow> u8 \<Rightarrow> u8 \<Rightarrow> u32 \<Rightarrow> ('s hpm, ipmi_rs option) machine" where
  "send_retry 0 intf req inaccessTimeout upgradeTimeout inaccessCounter upgradeCounter timeoutSec1 = mfail NoReturn"
| "send_retry (Suc k) intf req inaccessTimeout upgradeTimeout inaccessCounter upgradeCounter timeoutSec1 =
     mbind (on_bmc (n_sendrecv intf req)) (\<lambda>rsp.
     mbind (case rsp of None \<Rightarrow> no_response intf req inaccessTimeout inaccessCounter | Some r \<Rightarrow> mret (Some r)) (\<lambda>rsp.
     if rsp = None \<or> r_ccode (the rsp) = 0xff \<or> r_ccode (the rsp) = 0xc3 then
       if inaccessCounter < inaccessTimeout then
         mbind (count_inaccess inaccessCounter timeoutSec1) (\<lambda>(counter, timeoutSec1).
         send_retry k intf req inaccessTimeout upgradeTimeout counter upgradeCounter timeoutSec1)
       else mret rsp
     else if r_ccode (the rsp) = 0xc0 then
       if upgradeCounter < upgradeTimeout then
         mbind (count_busy upgradeCounter timeoutSec1) (\<lambda>(counter, timeoutSec1).
         send_retry k intf req inaccessTimeout upgradeTimeout inaccessCounter counter timeoutSec1)
       else mret rsp
     else mret rsp))"

definition HpmfwupgSendCmd :: "'s hpm_intf \<Rightarrow> ipmi_rq \<Rightarrow> upgrade_ctx option \<Rightarrow> ('s hpm, ipmi_rs option) machine" where
  "HpmfwupgSendCmd intf req ctx =
     mbind (ctx_timeout 5 ctx) (\<lambda>inaccessTimeout.
     mbind (ctx_timeout 2 ctx) (\<lambda>upgradeTimeout.
     mbind hpm_time (\<lambda>timeoutSec1.
     mbind (mget hp_turns) (\<lambda>n.
     send_retry n intf req inaccessTimeout upgradeTimeout 0 0 timeoutSec1))))"

section \<open>Status of a command that takes long\<close>

text \<open>The fields \<open>cmdInProcess\<close> and \<open>lastCmdCompCode\<close> of the response, None if they have not been set.\<close>

definition HpmfwupgGetUpgradeStatus ::
  "'s hpm_intf \<Rightarrow> (u8 \<times> u8) option \<Rightarrow> upgrade_ctx option \<Rightarrow> ('s hpm, int \<times> (u8 \<times> u8) option) machine" where
  "HpmfwupgGetUpgradeStatus intf resp ctx =
     mbind (HpmfwupgSendCmd intf (ipmi_request 0x2c HPMFWUPG_GET_UPGRADE_STATUS [0]) ctx) (\<lambda>rsp.
     mbind (mget hp_verbose) (\<lambda>verbose.
     case rsp of
       None \<Rightarrow>
         if verbose \<noteq> 0 then mbind (hpm_error ''Error getting upgrade status'') (\<lambda>rc. mret (rc, resp)) else mret (HPMFWUPG_SUCCESS, resp)
     | Some r \<Rightarrow>
         if r_ccode r = 0 then
           mbind (if verbose \<noteq> 0 then
                    notices [''Upgrade status:'', '' Command in progress:          '' @ hex8 (r_data r ! 1),
                      '' Last command completion code: '' @ hex8 (r_data r ! 2)]
                  else mret ()) (\<lambda>_.
           mret (HPMFWUPG_SUCCESS, Some (r_data r ! 1, r_data r ! 2)))
         else if verbose \<noteq> 0 then
           mbind (hpm_error (''Error getting upgrade status, compcode = '' @ hex8 (r_ccode r) @ [CHR 0x0A])) (\<lambda>rc. mret (rc, resp))
         else mret (HPMFWUPG_SUCCESS, resp)))"

definition last_code :: "(u8 \<times> u8) option \<Rightarrow> ('s hpm, u8) machine" where
  "last_code resp = (case resp of None \<Rightarrow> mfail Uninitialised | Some (_, code) \<Rightarrow> mret code)"

primrec wait_loop :: "nat \<Rightarrow> 's hpm_intf \<Rightarrow> upgrade_ctx option \<Rightarrow> u8 \<Rightarrow> u32 \<Rightarrow> u32 \<Rightarrow> int \<Rightarrow> (u8 \<times> u8) option
    \<Rightarrow> ('s hpm, int \<times> (u8 \<times> u8) option) machine" where
  "wait_loop 0 intf ctx upgradeTimeout timeoutSec1 timeoutSec2 rc resp = mfail NoReturn"
| "wait_loop (Suc k) intf ctx upgradeTimeout timeoutSec1 timeoutSec2 rc resp =
     mbind (last_code resp) (\<lambda>code.
     if code = HPMFWUPG_COMMAND_IN_PROGRESS \<and> timeoutSec2 - timeoutSec1 < ucast upgradeTimeout \<and> rc = HPMFWUPG_SUCCESS then
       mbind hpm_time (\<lambda>timeoutSec2.
       mbind (HpmfwupgGetUpgradeStatus intf resp ctx) (\<lambda>(rc, resp).
       wait_loop k intf ctx upgradeTimeout timeoutSec1 timeoutSec2 rc resp))
     else mret (rc, resp))"

definition HpmfwupgWaitLongDurationCmd :: "'s hpm_intf \<Rightarrow> upgrade_ctx option \<Rightarrow> ('s hpm, int) machine" where
  "HpmfwupgWaitLongDurationCmd intf ctx =
     mbind (ctx_timeout 2 ctx) (\<lambda>upgradeTimeout.
     mbind hpm_time (\<lambda>timeoutSec1.
     mbind hpm_time (\<lambda>timeoutSec2.
     mbind (HpmfwupgGetUpgradeStatus intf None ctx) (\<lambda>(rc, resp).
     mbind (mget hp_turns) (\<lambda>n.
     mbind (wait_loop n intf ctx upgradeTimeout timeoutSec1 timeoutSec2 rc resp) (\<lambda>(rc, resp).
     mbind (last_code resp) (\<lambda>code.
     if code \<noteq> 0 then
       mbind (mget hp_verbose) (\<lambda>verbose.
       mbind (if verbose \<noteq> 0
              then notice (''Error waiting for command '' @ hex8 (fst (the resp)) @ '', compcode = '' @ hex8 code) else mret ()) (\<lambda>_.
       mret HPMFWUPG_ERROR))
     else mret rc)))))))"

text \<open>
  The common end of the commands that change the target: a completion code \<open>80\<close> is waited for, any other but 0 is an error with the message \<open>what\<close>.
\<close>

definition long_duration :: "'s hpm_intf \<Rightarrow> upgrade_ctx option \<Rightarrow> string \<Rightarrow> string \<Rightarrow> ipmi_rs option \<Rightarrow> ('s hpm, int) machine" where
  "long_duration intf ctx what none rsp =
     (case rsp of None \<Rightarrow> hpm_error (none @ [CHR 0x0A])
      | Some r \<Rightarrow>
          if r_ccode r = HPMFWUPG_COMMAND_IN_PROGRESS then HpmfwupgWaitLongDurationCmd intf ctx
          else if r_ccode r \<noteq> 0 then hpm_error (what @ '', compcode = '' @ hex8 (r_ccode r) @ [CHR 0x0A])
          else mret HPMFWUPG_SUCCESS)"

definition HpmfwupgPrepareComponents :: "'s hpm_intf \<Rightarrow> u8 \<Rightarrow> u8 \<Rightarrow> upgrade_ctx option \<Rightarrow> ('s hpm, int) machine" where
  "HpmfwupgPrepareComponents intf componentsMask uploadMode ctx =
     mbind (HpmfwupgSendCmd intf (ipmi_request 0x2c HPMFWUPG_PREPARE_COMPONENTS [0, componentsMask, uploadMode]) ctx)
       (long_duration intf ctx ''Error preparing components'' ''Error preparing components'')"

definition HpmfwupgBackupComponents :: "'s hpm_intf \<Rightarrow> u8 \<Rightarrow> upgrade_ctx option \<Rightarrow> ('s hpm, int) machine" where
  "HpmfwupgBackupComponents intf componentsMask ctx =
     mbind (HpmfwupgSendCmd intf (ipmi_request 0x2c HPMFWUPG_BACKUP_COMPONENTS [0, componentsMask]) ctx)
       (long_duration intf ctx ''Error backuping components'' ''Error backuping component'')"

text \<open>A block: a refused length asks for a shorter block; \<open>cc\<close>, a block sent twice, counts as accepted.\<close>

definition HpmfwupgUploadFirmwareBlock :: "'s hpm_intf \<Rightarrow> u8 \<Rightarrow> u8 \<Rightarrow> bytes \<Rightarrow> upgrade_ctx option \<Rightarrow> ('s hpm, int) machine" where
  "HpmfwupgUploadFirmwareBlock intf componentsMask blockNumber data ctx =
     mbind (HpmfwupgSendCmd intf (ipmi_request 0x2c HPMFWUPG_UPLOAD_FIRMWARE_BLOCK ([0, componentsMask, blockNumber] @ data)) ctx) (\<lambda>rsp.
     case rsp of None \<Rightarrow> hpm_error (''Error uploading firmware block'' @ [CHR 0x0A])
     | Some r \<Rightarrow>
         if r_ccode r = HPMFWUPG_COMMAND_IN_PROGRESS then HpmfwupgWaitLongDurationCmd intf ctx
         else if r_ccode r \<noteq> 0 \<and> r_ccode r \<noteq> 0xcc then
           if r_ccode r = 0xc7 then mret HPMFWUPG_UPLOAD_BLOCK_LENGTH
           else hpm_error (''Error uploading firmware block, compcode = '' @ hex8 (r_ccode r) @ [CHR 0x0A])
         else mret HPMFWUPG_SUCCESS)"

definition HpmfwupgFinishFirmwareUpload :: "'s hpm_intf \<Rightarrow> u8 \<Rightarrow> bytes \<Rightarrow> upgrade_ctx option \<Rightarrow> ('s hpm, int) machine" where
  "HpmfwupgFinishFirmwareUpload intf componentsMask imageLength ctx =
     mbind (HpmfwupgSendCmd intf (ipmi_request 0x2c HPMFWUPG_FINISH_FIRMWARE_UPLOAD ([0, componentsMask] @ imageLength)) ctx)
       (long_duration intf ctx ''Error finishing firmware upload'' ''Error fininshing firmware upload'')"

definition HpmfwupgActivateFirmware :: "'s hpm_intf \<Rightarrow> upgrade_ctx option \<Rightarrow> ('s hpm, int) machine" where
  "HpmfwupgActivateFirmware intf ctx =
     mbind (HpmfwupgSendCmd intf (ipmi_request 0x2c HPMFWUPG_ACTIVATE_FIRMWARE [0]) ctx) (\<lambda>rsp.
     case rsp of None \<Rightarrow> hpm_error (''Error activating firmware'' @ [CHR 0x0A])
     | Some r \<Rightarrow>
         if r_ccode r = HPMFWUPG_COMMAND_IN_PROGRESS then
           mbind (hpm_put ''Waiting firmware activation...'') (\<lambda>_.
           mbind (HpmfwupgWaitLongDurationCmd intf ctx) (\<lambda>rc.
           mbind (notice (if rc = HPMFWUPG_SUCCESS then ''OK'' else ''Failed'')) (\<lambda>_. mret rc)))
         else if r_ccode r \<noteq> 0 then hpm_error (''Error activating firmware, compcode = '' @ hex8 (r_ccode r) @ [CHR 0x0A])
         else mret HPMFWUPG_SUCCESS)"

end
