(* ===== verification/Hpm_Upgrade.thy ===== *)
theory Hpm_Upgrade
  imports Hpm Md5
begin

text \<open>
  The queries of the HPM.1 upgrade agent, the stages of an upgrade and the command line (\<open>lib/ipmi_hpmfwupg.c\<close>). The image is the array that the file has been
  read into; reading behind it is a fault. The stages after the validation read the header without tests of their own: a validated image is longer than the header.
\<close>

section \<open>Queries\<close>

text \<open>\<open>do ... while\<close> until there is no answer, another completion code, or the time is over.\<close>

primrec poll_result :: "nat \<Rightarrow> 's hpm_intf \<Rightarrow> ipmi_rq \<Rightarrow> upgrade_ctx option \<Rightarrow> u8 \<Rightarrow> u32 \<Rightarrow> ('s hpm, ipmi_rs option) machine" where
  "poll_result 0 intf req ctx timeout timeoutSec1 = mfail NoReturn"
| "poll_result (Suc k) intf req ctx timeout timeoutSec1 =
     mbind (HpmfwupgSendCmd intf req ctx) (\<lambda>rsp.
     mbind hpm_time (\<lambda>timeoutSec2.
     if rsp \<noteq> None \<and> r_ccode (the rsp) = HPMFWUPG_COMMAND_IN_PROGRESS \<and> timeoutSec2 - timeoutSec1 < ucast timeout
     then poll_result k intf req ctx timeout timeoutSec1 else mret rsp))"

definition poll :: "'s hpm_intf \<Rightarrow> ipmi_rq \<Rightarrow> upgrade_ctx option \<Rightarrow> u8 \<Rightarrow> ('s hpm, ipmi_rs option) machine" where
  "poll intf req ctx timeout =
     mbind hpm_time (\<lambda>timeoutSec1.
     mbind hpm_time (\<lambda>_.
     mbind (mget hp_turns) (\<lambda>n. poll_result n intf req ctx timeout timeoutSec1)))"

text \<open>The mask printed when a rollback has failed has not been set.\<close>

definition HpmfwupgQueryRollbackStatus :: "'s hpm_intf \<Rightarrow> upgrade_ctx option \<Rightarrow> ('s hpm, int) machine" where
  "HpmfwupgQueryRollbackStatus intf ctx =
     mbind (ctx_timeout 4 ctx) (\<lambda>rollbackTimeout.
     mbind (poll intf (ipmi_request 0x2c HPMFWUPG_QUERY_ROLLBACK_STATUS [0]) ctx rollbackTimeout) (\<lambda>rsp.
     case rsp of None \<Rightarrow> hpm_error (''Error getting upgrade status'' @ [CHR 0x0A])
     | Some r \<Rightarrow>
         if r_ccode r = 0 then
           mbind (notice (if r_data r ! 1 \<noteq> 0 then ''Rollback occured on component mask: 0x'' @ hex2 (r_data r ! 1)
                          else ''No Firmware rollback occured'')) (\<lambda>_. mret HPMFWUPG_SUCCESS)
         else if r_ccode r = 0x81 then mfail Uninitialised
         else hpm_error (''Error getting rollback status, compcode = '' @ hex8 (r_ccode r))))"

text \<open>The timeout of the image has two bytes, of which the variable keeps one. The result is \<open>result1\<close> and \<open>result2\<close>.\<close>

definition HpmfwupgQuerySelftestResult :: "'s hpm_intf \<Rightarrow> upgrade_ctx option \<Rightarrow> ('s hpm, int \<times> (u8 \<times> u8) option) machine" where
  "HpmfwupgQuerySelftestResult intf ctx =
     (let selfTestTimeout =
        (case ctx of None \<Rightarrow> 60 | Some c \<Rightarrow> u_imageData c ! 21 OR ucast (push_bit 8 (ucast (u_imageData c ! 22) :: u32)))
      in mbind (poll intf (ipmi_request 0x2c HPMFWUPG_QUERY_SELFTEST_RESULT [0]) ctx selfTestTimeout) (\<lambda>rsp.
         case rsp of None \<Rightarrow> mbind (hpm_error (''Error getting upgrade status'' @ [CHR 0x0A])) (\<lambda>rc. mret (rc, None))
         | Some r \<Rightarrow>
             if r_ccode r = 0 then
               mbind (mget hp_verbose) (\<lambda>verbose.
               mbind (if verbose \<noteq> 0
                      then notices [''Self test results:'', ''Result1 = '' @ hex8 (r_data r ! 1), ''Result2 = '' @ hex8 (r_data r ! 2)]
                      else mret ()) (\<lambda>_.
               mret (HPMFWUPG_SUCCESS, Some (r_data r ! 1, r_data r ! 2))))
             else mbind (hpm_error (''Error getting self test results, compcode = '' @ hex8 (r_ccode r) @ [CHR 0x0A])) (\<lambda>rc. mret (rc, None))))"

definition HpmfwupgManualFirmwareRollback :: "'s hpm_intf \<Rightarrow> upgrade_ctx option \<Rightarrow> ('s hpm, int) machine" where
  "HpmfwupgManualFirmwareRollback intf ctx =
     mbind (HpmfwupgSendCmd intf (ipmi_request 0x2c HPMFWUPG_MANUAL_FIRMWARE_ROLLBACK [0]) ctx) (\<lambda>rsp.
     case rsp of None \<Rightarrow> hpm_error (''Error sending manual rollback'' @ [CHR 0x0A])
     | Some r \<Rightarrow>
         if r_ccode r = HPMFWUPG_COMMAND_IN_PROGRESS then
           mbind (hpm_put ''Waiting firmware rollback...'') (\<lambda>_. HpmfwupgQueryRollbackStatus intf ctx)
         else if r_ccode r \<noteq> 0 then hpm_error (''Error sending manual rollback, compcode = '' @ hex8 (r_ccode r) @ [CHR 0x0A])
         else mret HPMFWUPG_SUCCESS)"

definition HpmfwupgGetDeviceId :: "'s hpm_intf \<Rightarrow> ('s hpm, int \<times> bytes option) machine" where
  "HpmfwupgGetDeviceId intf =
     mbind (HpmfwupgSendCmd intf (ipmi_request 0x06 0x01 []) None) (\<lambda>rsp.
     case rsp of None \<Rightarrow> mbind (hpm_error (''Error getting device ID'' @ [CHR 0x0A])) (\<lambda>rc. mret (rc, None))
     | Some r \<Rightarrow>
         if r_ccode r = 0 then mret (HPMFWUPG_SUCCESS, Some (take 15 (r_data r)))
         else mbind (hpm_error (''Error getting device ID, compcode = '' @ hex8 (r_ccode r) @ [CHR 0x0A])) (\<lambda>rc. mret (rc, None)))"

definition yn :: "string \<Rightarrow> u8 \<Rightarrow> nat \<Rightarrow> string" where
  "yn label b i = label @ ''['' @ (if bit b i then ''y'' else ''n'') @ '']   ''"

definition sec5 :: "string \<Rightarrow> u8 \<Rightarrow> string" where
  "sec5 label b = label @ ''['' @ dec_nat (unat b * 5) @ '' sec] ''"

text \<open>The seven bytes of the capabilities: global capabilities, the four timeouts, components present.\<close>

definition capability_notes :: "bytes \<Rightarrow> string list" where
  "capability_notes cap =
     [''TARGET UPGRADE CAPABILITIES'', ''-------------------------------'',
      yn ''Component 0 presence....'' (cap ! 6) 0, yn ''Component 1 presence....'' (cap ! 6) 1, yn ''Component 2 presence....'' (cap ! 6) 2,
      yn ''Component 3 presence....'' (cap ! 6) 3, yn ''Component 4 presence....'' (cap ! 6) 4, yn ''Component 5 presence....'' (cap ! 6) 5,
      yn ''Component 6 presence....'' (cap ! 6) 6, yn ''Component 7 presence....'' (cap ! 6) 7,
      yn ''Payload affected........'' (cap ! 1) 6, yn ''Manual rollback.........'' (cap ! 1) 5, yn ''Defered activation......'' (cap ! 1) 4,
      yn ''Automatic rollback......'' (cap ! 1) 3, yn ''Self test...............'' (cap ! 1) 2, yn ''IPMB-B access...........'' (cap ! 1) 1,
      yn ''IPMB-A access...........'' (cap ! 1) 0,
      sec5 ''Upgrade timeout.........'' (cap ! 2), sec5 ''Self test timeout.......'' (cap ! 3), sec5 ''Rollback timeout........'' (cap ! 4),
      sec5 ''Inaccessibility timeout.'' (cap ! 4) @ [CHR 0x0A]]"

definition HpmfwupgGetTargetUpgCapabilities :: "'s hpm_intf \<Rightarrow> ('s hpm, int \<times> bytes option) machine" where
  "HpmfwupgGetTargetUpgCapabilities intf =
     mbind (HpmfwupgSendCmd intf (ipmi_request 0x2c HPMFWUPG_GET_TARGET_UPG_CAPABILITIES [0]) None) (\<lambda>rsp.
     case rsp of None \<Rightarrow> mbind (hpm_error (''Error getting target upgrade capabilities'' @ [CHR 0x0A])) (\<lambda>rc. mret (rc, None))
     | Some r \<Rightarrow>
         if r_ccode r = 0 then
           mbind (mget hp_verbose) (\<lambda>verbose.
           mbind (if verbose \<noteq> 0 then notices (capability_notes (r_data r)) else mret ()) (\<lambda>_.
           mret (HPMFWUPG_SUCCESS, Some (take 7 (r_data r)))))
         else mbind (hpm_error (''Error getting target upgrade capabilities'' @ [CHR 0x0A])) (\<lambda>rc. mret (rc, None)))"

definition version_notes :: "string \<Rightarrow> bytes \<Rightarrow> string list" where
  "version_notes title v =
     [title, '' Major: '' @ dec8 (v ! 0), '' Minor: '' @ hex8 (v ! 1),
      '' Aux  : '' @ dec03 (v ! 2) @ '' '' @ dec03 (v ! 3) @ '' '' @ dec03 (v ! 4) @ '' '' @ dec03 (v ! 5) @ [CHR 0x0A]]"

text \<open>\<open>rollbackBackup\<close> is two bits.\<close>

definition property_notes :: "u8 \<Rightarrow> string list" where
  "property_notes b =
     [''GENERAL PROPERTIES'', ''-------------------------------'', yn ''IPMB-A accessibility......'' b 0, yn ''IPMB-B accessibility......'' b 1,
      ''Rollback supported........['' @ (if bit b 2 \<or> bit b 3 then ''y'' else ''n'') @ '']   '', yn ''Preparation supported.....'' b 4,
      yn ''Validation supported......'' b 5, yn ''Def. activation supported.'' b 6, yn ''Payload cold reset req....'' b 7 @ [CHR 0x0A]]"

text \<open>The answer by its selector: the number of bytes copied and what is printed; the description string is only printed for debugging.\<close>

definition component_property :: "u8 \<Rightarrow> bytes \<Rightarrow> (nat \<times> string list) option" where
  "component_property selector d =
     (if selector = 0 then Some (2, property_notes (d ! 1))
      else if selector = 1 then Some (7, version_notes ''Current Version: '' (drop 1 d))
      else if selector = 2 then Some (2, [''Grouping ID: '' @ hex8 (d ! 1) @ [CHR 0x0A]])
      else if selector = 3 then Some (13, [])
      else if selector = 4 then Some (7, version_notes ''Rollback FW Version: '' (drop 1 d))
      else if selector = 5 then Some (7, version_notes ''Deferred FW Version: '' (drop 1 d))
      else None)"

definition HpmfwupgGetComponentProperties :: "'s hpm_intf \<Rightarrow> u8 \<Rightarrow> u8 \<Rightarrow> ('s hpm, int \<times> bytes option) machine" where
  "HpmfwupgGetComponentProperties intf componentId selector =
     mbind (HpmfwupgSendCmd intf (ipmi_request 0x2c HPMFWUPG_GET_COMPONENT_PROPERTIES [0, componentId, selector]) None) (\<lambda>rsp.
     case rsp of None \<Rightarrow> mbind (hpm_error (''Error getting component properties'' @ [CHR 0x0A])) (\<lambda>rc. mret (rc, None))
     | Some r \<Rightarrow>
         if r_ccode r = 0 then
           (case component_property selector (r_data r) of
              None \<Rightarrow> mbind (hpm_error ''Unsupported component selector'') (\<lambda>rc. mret (rc, None))
            | Some (n, notes) \<Rightarrow>
                mbind (mget hp_verbose) (\<lambda>verbose.
                mbind (if verbose \<noteq> 0 then notices notes else mret ()) (\<lambda>_.
                mret (HPMFWUPG_SUCCESS, Some (take n (r_data r))))))
         else mbind (hpm_error (''Error getting component properties, compcode = '' @ hex8 (r_ccode r) @ [CHR 0x0A])) (\<lambda>rc. mret (rc, None)))"

section \<open>The image\<close>

definition HpmfwupgCalculateChecksum :: "bytes \<Rightarrow> u8" where
  "HpmfwupgCalculateChecksum data = foldl (+) 0 data"

text \<open>A block of memory is allocated for the image and freed again: \<open>hp_blocks\<close> counts the blocks in use.\<close>

definition hpm_free :: "('s hpm, unit) machine" where
  "hpm_free s = (if hp_blocks s = 0 then Inl InvalidFree else Inr ((), s\<lparr>hp_blocks := hp_blocks s - 1\<rparr>))"

text \<open>The contents of the file, None if it cannot be opened; its size is kept in 32 bits.\<close>

definition HpmfwupgGetBufferFromFile :: "(string \<Rightarrow> bytes option) \<Rightarrow> string \<Rightarrow> ('s hpm, int \<times> upgrade_ctx option) machine" where
  "HpmfwupgGetBufferFromFile files imageFilename =
     (case files imageFilename of
        None \<Rightarrow> mbind (hpm_error (''Cannot open image file '' @ imageFilename)) (\<lambda>rc. mret (rc, None))
      | Some f \<Rightarrow>
          mbind (mget hp_malloc) (\<lambda>ok.
          if \<not> ok then mret (HPMFWUPG_ERROR, None)
          else
            let imageSize = of_nat (length f) :: u32
            in mbind (mmod (\<lambda>s. s\<lparr>hp_blocks := Suc (hp_blocks s)\<rparr>)) (\<lambda>_.
               mret (HPMFWUPG_SUCCESS, Some \<lparr>u_imageSize = imageSize, u_imageData = take (unat imageSize) f, u_targetCap = None,
                 u_genCompProp = None, u_devId = None\<rparr>))))"

definition image_bytes :: "bytes \<Rightarrow> nat \<Rightarrow> nat \<Rightarrow> fault + bytes" where
  "image_bytes d off n = (if off + n \<le> length d then Inr (bytes_at d off n) else Inl OutOfBounds)"

abbreviation (input) header_size :: nat where "header_size \<equiv> 37"

definition oemDataLength :: "bytes \<Rightarrow> nat" where
  "oemDataLength d = unat (of_le16 (drop 35 d))"

text \<open>\<open>md5_append\<close> takes its length as an \<open>int\<close>; a negative one appends nothing.\<close>

definition image_digest :: "upgrade_ctx \<Rightarrow> bytes" where
  "image_digest c =
     snd (md5_finish (md5_append (md5_init \<lparr>md5_count = (0, 0), md5_abcd = (0, 0, 0, 0), md5_buf = replicate 64 0\<rparr>)
       (take (nat (to_int32 (uint (u_imageSize c - 16)))) (u_imageData c))))"

definition HpmfwupgValidateImageIntegrity :: "upgrade_ctx \<Rightarrow> ('s hpm, int) machine" where
  "HpmfwupgValidateImageIntegrity c =
     (let d = u_imageData c
      in mbind (lift_fault (image_bytes d (unat (u_imageSize c - 16)) 16)) (\<lambda>md5Sig.
         if image_digest c \<noteq> md5Sig then hpm_error ([CHR 0x0A] @ ''    Invalid MD5 signature'')
         else if map byte_char (take 8 d) \<noteq> ''PICMGFWU'' then hpm_error ([CHR 0x0A] @ ''    Invalid image signature'')
         else if d ! 8 \<noteq> 0 then hpm_error ([CHR 0x0A] @ ''    Unrecognized image version'')
         else
           mbind (lift_fault (image_bytes d 35 2)) (\<lambda>_.
           mbind (lift_fault (image_bytes d 0 (header_size + oemDataLength d + 1))) (\<lambda>header.
           if HpmfwupgCalculateChecksum header \<noteq> 0 then hpm_error ([CHR 0x0A] @ ''    Invalid header checksum'')
           else mret HPMFWUPG_SUCCESS))))"

section \<open>Preparation\<close>

text \<open>The earliest firmware revision that the image can replace, against the revision of the target.\<close>

definition revision_ok :: "bytes \<Rightarrow> bytes \<Rightarrow> bool" where
  "revision_ok img devId \<longleftrightarrow> img ! 27 < devId ! 2 \<or> (img ! 27 = devId ! 2 \<and> \<not> img ! 28 > devId ! 3)"

definition revision_notes :: "bytes \<Rightarrow> bytes \<Rightarrow> string list" where
  "revision_notes img devId =
     [[CHR 0x0A] @ ''    Version: Major: '' @ dec8 (img ! 27), ''             Minor: '' @ hex8 (img ! 28), ''    Not compatible with '',
      ''    Version: Major: '' @ dec8 (devId ! 2), ''             Minor: '' @ hex8 (devId ! 3)]"

definition match_ids :: "bytes \<Rightarrow> bytes \<Rightarrow> ('s hpm, int) machine" where
  "match_ids img devId =
     (if img ! 9 \<noteq> devId ! 0 then hpm_error ([CHR 0x0A] @ ''    Invalid device ID '' @ hex8 (devId ! 0))
      else if bytes_at img 13 2 \<noteq> bytes_at devId 9 2 then
        hpm_error ([CHR 0x0A] @ ''    Invalid image file for product '' @ dec_nat (unat (buf2short (drop 9 devId))))
      else if bytes_at img 10 3 \<noteq> bytes_at devId 6 3 then
        hpm_error ([CHR 0x0A] @ ''    Invalid image file for manufacturer '' @ dec_nat (unat (buf2short (drop 6 devId))))
      else mret HPMFWUPG_SUCCESS)"

definition match_capabilities :: "bytes \<Rightarrow> bytes \<Rightarrow> ('s hpm, int) machine" where
  "match_capabilities img cap =
     (if \<not> (bit (cap ! 1) 1 \<and> bit (cap ! 1) 0) then
        hpm_error ([CHR 0x0A] @ ''    This Upgrade Agent uses both IPMB-A and IPMB-B. Cannot continue'')
      else if img ! 20 AND cap ! 6 \<noteq> img ! 20 then
        hpm_error ([CHR 0x0A] @ ''    Some components present in the image file are not supported by the IPMC'')
      else mret HPMFWUPG_SUCCESS)"

definition HpmfwupgPreparationStage :: "'s hpm_intf \<Rightarrow> upgrade_ctx \<Rightarrow> ('s hpm, int \<times> upgrade_ctx) machine" where
  "HpmfwupgPreparationStage intf c =
     (let img = u_imageData c
      in mbind (HpmfwupgGetDeviceId intf) (\<lambda>(rc, devId).
         let c = c\<lparr>u_devId := devId\<rparr>
         in mbind (if rc = HPMFWUPG_SUCCESS then match_ids img (the devId) else mret rc) (\<lambda>rc.
            if rc \<noteq> HPMFWUPG_SUCCESS then mret (rc, c)
            else
              mbind (HpmfwupgGetTargetUpgCapabilities intf) (\<lambda>(rc, cap).
              let c = c\<lparr>u_targetCap := cap\<rparr>
              in mbind (if rc = HPMFWUPG_SUCCESS then match_capabilities img (the cap) else mret rc) (\<lambda>rc.
                 if rc \<noteq> HPMFWUPG_SUCCESS then mret (rc, c)
                 else if revision_ok img (the devId) then mret (HPMFWUPG_SUCCESS, c)
                 else mbind (notices (revision_notes img (the devId))) (\<lambda>_. mret (HPMFWUPG_ERROR, c)))))))"

section \<open>Upgrade\<close>

text \<open>
  Every component of a prepare action must support it. An error of the command itself does not end the loop, and the next component overwrites it.
\<close>

primrec check_preparation :: "'s hpm_intf \<Rightarrow> u8 \<Rightarrow> nat list \<Rightarrow> int \<Rightarrow> upgrade_ctx \<Rightarrow> ('s hpm, int \<times> upgrade_ctx) machine" where
  "check_preparation intf components [] rc c = mret (rc, c)"
| "check_preparation intf components (componentId # ids) rc c =
     (if \<not> bit components componentId then check_preparation intf components ids rc c
      else
        mbind (HpmfwupgGetComponentProperties intf (of_nat componentId) 0) (\<lambda>(rc, resp).
        let c = (case resp of None \<Rightarrow> c | Some r \<Rightarrow> c\<lparr>u_genCompProp := Some (r ! 1)\<rparr>)
        in if rc = HPMFWUPG_SUCCESS \<and> \<not> bit (the (u_genCompProp c)) 4 then
             mbind (hpm_error (''    Prepare component not supported by component ID '' @ dec_nat componentId)) (\<lambda>rc. mret (rc, c))
           else check_preparation intf components ids rc c))"

definition block_size :: "'s hpm_intf \<Rightarrow> u8" where
  "block_size intf =
     (if strstr (n_name intf) ''lan'' then 26
      else if strstr (n_name intf) ''open'' \<and> (n_target_addr intf = 0x20 \<or> n_target_addr intf = n_my_addr intf) then 32
      else if n_target_channel intf = 7 then 26 else 26)"

text \<open>
  The upload of a firmware of \<open>len\<close> bytes at \<open>start\<close>. Each turn copies \<open>bufLength\<close> bytes of the image into an array of 32 and sends \<open>count\<close> of them.
\<close>

primrec upload_loop ::
  "nat \<Rightarrow> 's hpm_intf \<Rightarrow> upgrade_ctx \<Rightarrow> u8 \<Rightarrow> nat \<Rightarrow> nat \<Rightarrow> nat \<Rightarrow> u8 \<Rightarrow> u8 \<Rightarrow> u32 \<Rightarrow> ('s hpm, int) machine" where
  "upload_loop 0 intf c components start len pos bufLength blockNumber totalSent = mfail NoReturn"
| "upload_loop (Suc k) intf c components start len pos bufLength blockNumber totalSent =
     (if \<not> pos < len then mret HPMFWUPG_SUCCESS
      else
        let count = (if pos + unat bufLength \<le> len then bufLength else of_nat (len - pos));
            totalSent = totalSent + ucast count
        in if bufLength > 32 then mfail BufferOverflow
           else if start + pos + unat bufLength > length (u_imageData c) then mfail OutOfBounds
           else
             mbind (HpmfwupgUploadFirmwareBlock intf components blockNumber (bytes_at (u_imageData c) (start + pos) (unat count)) (Some c)) (\<lambda>rc.
             if rc = HPMFWUPG_SUCCESS then
               mbind (mget (\<lambda>s. ''    Writing firmware: '' @ hp_percent s totalSent (of_nat len) @ '' % completed'' @ [CHR 0x0D])) (\<lambda>t.
               mbind (hpm_put t) (\<lambda>_.
               upload_loop k intf c components start len (pos + unat count) bufLength (blockNumber + 1) totalSent))
             else if rc = HPMFWUPG_UPLOAD_BLOCK_LENGTH then upload_loop k intf c components start len pos (bufLength - 1) blockNumber totalSent
             else if rc = HPMFWUPG_UPLOAD_RETRY then upload_loop k intf c components start len pos bufLength blockNumber totalSent
             else mret rc))"

text \<open>The header of a firmware image: version, description, length. The description is printed up to its first NUL.\<close>

definition firmware_notes :: "bytes \<Rightarrow> nat \<Rightarrow> fault + string list" where
  "firmware_notes d p =
     (if p + 30 \<le> length d \<and> 0 \<in> set (drop (p + 6) d) then
        Inr [''    Upgrading '' @ cstr (map byte_char (drop (p + 6) d)), ''    with Version: Major: '' @ dec8 (d ! p),
          ''                  Minor: '' @ hex8 (d ! (p + 1)),
          ''                  Aux  : '' @ dec03 (d ! (p + 2)) @ '' '' @ dec03 (d ! (p + 3)) @ '' '' @ dec03 (d ! (p + 4)) @ '' '' @ dec03 (d ! (p + 5))]
      else Inl OutOfBounds)"

definition firmware_length :: "bytes \<Rightarrow> nat" where
  "firmware_length l =
     unat (ucast (l ! 0) OR (push_bit 8 (ucast (l ! 1)) AND 0xff00) OR (push_bit 16 (ucast (l ! 2)) AND 0xff0000) :: u32)"

definition upload_action :: "'s hpm_intf \<Rightarrow> upgrade_ctx \<Rightarrow> u8 \<Rightarrow> nat \<Rightarrow> ('s hpm, int) machine" where
  "upload_action intf c components p =
     mbind (lift_fault (firmware_notes (u_imageData c) p)) (\<lambda>ts.
     mbind (notices ts) (\<lambda>_.
     let l = bytes_at (u_imageData c) (p + 27) 3
     in mbind (mget hp_turns) (\<lambda>n.
        mbind (upload_loop n intf c components (p + 30) (firmware_length l) 0 (block_size intf) 0 0) (\<lambda>rc.
        mbind (notice []) (\<lambda>_.
        if rc = HPMFWUPG_SUCCESS then HpmfwupgFinishFirmwareUpload intf components l (Some c) else mret rc)))))"

text \<open>The actions behind the header, up to \<open>lim\<close>, where the digest begins.\<close>

function action_loop :: "'s hpm_intf \<Rightarrow> nat \<Rightarrow> upgrade_ctx \<Rightarrow> nat \<Rightarrow> ('s hpm, int \<times> upgrade_ctx) machine" where
  "action_loop intf lim c p =
     (if \<not> p < lim then mret (HPMFWUPG_SUCCESS, c)
      else
        mbind (lift_fault (image_bytes (u_imageData c) p 3)) (\<lambda>record.
        if HpmfwupgCalculateChecksum record \<noteq> 0 then mbind (hpm_error ''    Invalid Action record.'') (\<lambda>rc. mret (rc, c))
        else if record ! 0 = 0 then
          mbind (hpm_error ''    Backup component not supported by this Upgrade Agent'') (\<lambda>rc. mret (rc, c))
        else if record ! 0 = 1 then
          mbind (check_preparation intf (record ! 1) [0..<8] HPMFWUPG_SUCCESS c) (\<lambda>(rc, c).
          if rc \<noteq> HPMFWUPG_SUCCESS then mret (rc, c)
          else
            mbind (HpmfwupgPrepareComponents intf (record ! 1) 0 (Some c)) (\<lambda>rc.
            if rc \<noteq> HPMFWUPG_SUCCESS then mret (rc, c) else action_loop intf lim c (p + 3)))
        else if record ! 0 = 2 then
          mbind (upload_action intf c (record ! 1) (p + 3)) (\<lambda>rc.
          if rc \<noteq> HPMFWUPG_SUCCESS then mret (rc, c)
          else action_loop intf lim c (p + 33 + firmware_length (bytes_at (u_imageData c) (p + 30) 3)))
        else mbind (hpm_error ''    Invalid Action type. Cannot continue'') (\<lambda>rc. mret (rc, c))))"
  by pat_completeness auto

termination
  by (relation "measure (\<lambda>(_, lim, _, p). lim - p)") auto

declare action_loop.simps [simp del]

definition HpmfwupgUpgradeStage :: "'s hpm_intf \<Rightarrow> upgrade_ctx \<Rightarrow> ('s hpm, int \<times> upgrade_ctx) machine" where
  "HpmfwupgUpgradeStage intf c =
     action_loop intf (unat (u_imageSize c) - 16) c (header_size + oemDataLength (u_imageData c) + 1)"

section \<open>Activation\<close>

definition cap_bit :: "nat \<Rightarrow> upgrade_ctx \<Rightarrow> ('s hpm, bool) machine" where
  "cap_bit i c = (case u_targetCap c of None \<Rightarrow> mfail Uninitialised | Some cap \<Rightarrow> mret (bit (cap ! 1) i))"

definition auto_rollback :: "upgrade_ctx \<Rightarrow> ('s hpm, bool) machine" where
  "auto_rollback c =
     mbind (cap_bit 3 c) (\<lambda>ipmcRollback.
     if \<not> ipmcRollback then mret False
     else case u_genCompProp c of None \<Rightarrow> mfail Uninitialised | Some b \<Rightarrow> mret (drop_bit 2 b AND 3 = 2))"

definition self_test :: "'s hpm_intf \<Rightarrow> upgrade_ctx \<Rightarrow> ('s hpm, int) machine" where
  "self_test intf c =
     mbind (HpmfwupgQuerySelftestResult intf (Some c)) (\<lambda>(rc, result).
     if rc = HPMFWUPG_SUCCESS then
       if fst (the result) \<noteq> 0x55 then
         mbind (notices [''    Self test failed:'', ''    Result1 = '' @ hex8 (fst (the result)), ''    Result2 = '' @ hex8 (snd (the result))]) (\<lambda>_.
         mret HPMFWUPG_ERROR)
       else mret HPMFWUPG_SUCCESS
     else mbind (notice ''    Self test failed.'') (\<lambda>_. mret rc))"

definition HpmfwupgActivationStage :: "'s hpm_intf \<Rightarrow> upgrade_ctx \<Rightarrow> ('s hpm, int) machine" where
  "HpmfwupgActivationStage intf c =
     mbind (hpm_put ''    '') (\<lambda>_.
     mbind (HpmfwupgActivateFirmware intf (Some c)) (\<lambda>rc.
     mbind (if rc = HPMFWUPG_SUCCESS then
              mbind (cap_bit 2 c) (\<lambda>ipmcSelftest.
              if ipmcSelftest \<and> bit (u_imageData c ! 19) 7 then self_test intf c else mret rc)
            else mret rc) (\<lambda>rc.
     if rc = HPMFWUPG_ERROR then
       mbind (auto_rollback c) (\<lambda>rollback.
       if rollback then mbind (notice ''    Getting rollback status...'') (\<lambda>_. HpmfwupgQueryRollbackStatus intf (Some c))
       else mret rc)
     else mret rc)))"

section \<open>The upgrade and the command line\<close>

definition target_notes :: "bytes \<Rightarrow> string list" where
  "target_notes devId =
     [''    Target Product ID     : '' @ dec_nat (unat (buf2short (drop 9 devId))),
      ''    Target Manufacturer ID: '' @ dec_nat (unat (buf2short (drop 6 devId)))]"

definition upgrade_failed :: "int \<Rightarrow> ('s hpm, int) machine" where
  "upgrade_failed rc = mbind (notice ([CHR 0x0A] @ ''Firmware upgrade procedure failed'' @ [CHR 0x0A])) (\<lambda>_. mret rc)"

text \<open>Where a stage fails, the image is freed and the next stages are skipped.\<close>

definition HpmfwupgUpgrade :: "'s hpm_intf \<Rightarrow> (string \<Rightarrow> bytes option) \<Rightarrow> string \<Rightarrow> bool \<Rightarrow> ('s hpm, int) machine" where
  "HpmfwupgUpgrade intf files imageFilename activate =
     mbind (HpmfwupgGetBufferFromFile files imageFilename) (\<lambda>(rc, buf).
     case buf of None \<Rightarrow> upgrade_failed rc
     | Some c \<Rightarrow>
         mbind (hpm_put ''Validating firmware image integrity...'') (\<lambda>_.
         mbind (HpmfwupgValidateImageIntegrity c) (\<lambda>rc.
         if rc \<noteq> HPMFWUPG_SUCCESS then mbind hpm_free (\<lambda>_. upgrade_failed rc)
         else
           mbind (hpm_put (''OK'' @ [CHR 0x0A] @ ''Performing preparation stage...'')) (\<lambda>_.
           mbind (HpmfwupgPreparationStage intf c) (\<lambda>(rc, c).
           if rc \<noteq> HPMFWUPG_SUCCESS then mbind hpm_free (\<lambda>_. upgrade_failed rc)
           else
             mbind (hpm_put (''OK'' @ [CHR 0x0A])) (\<lambda>_.
             mbind (notices (target_notes (the (u_devId c)) @ [''Performing upgrade stage:''])) (\<lambda>_.
             mbind (HpmfwupgUpgradeStage intf c) (\<lambda>(rc, c).
             if rc \<noteq> HPMFWUPG_SUCCESS then mbind hpm_free (\<lambda>_. upgrade_failed rc)
             else
               mbind (if activate then mbind (notice ''Performing activation stage: '') (\<lambda>_. HpmfwupgActivationStage intf c)
                      else mret HPMFWUPG_SUCCESS) (\<lambda>rc.
               if rc \<noteq> HPMFWUPG_SUCCESS then mbind hpm_free (\<lambda>_. upgrade_failed rc)
               else
                 mbind (notice ([CHR 0x0A] @ ''Firmware upgrade procedure successful'' @ [CHR 0x0A])) (\<lambda>_.
                 mbind hpm_free (\<lambda>_. mret rc)))))))))))"

definition usage_notes :: "string list" where
  "usage_notes =
     [''help                    - This help menu'',
      ''upgrade <file> activate - Upgrade the firmware using a valid HPM.1 image <file>'',
      ''                          If activate is specified, activate new firmware rigth'',
      ''                          away'',
      ''activate                - Activate the newly uploaded firmware'',
      ''targetcap               - Get the target upgrade capabilities'',
      ''compprop <id> <select>  - Get the specified component properties'',
      ''                          Valid component <ID> 0-7 '',
      ''                          Properties <select> can be one of the following: '',
      ''                          0- General properties'',
      ''                          1- Current firmware version'',
      ''                          2- Grouping ID'',
      ''                          3- Description string'',
      ''                          4- Rollback firmware version'',
      ''                          5- Deferred firmware version'',
      ''upgstatus               - Returns the status of the last long duration command'',
      ''rollback                - Performs a manual rollback on the IPM Controller'',
      ''                          firmware'',
      ''rollbackstatus          - Query the rollback status'',
      ''selftestresult          - Query the self test results'' @ [CHR 0x0A]]"

definition HpmfwupgPrintUsage :: "('s hpm, int) machine" where
  "HpmfwupgPrintUsage = mbind (notices usage_notes) (\<lambda>_. mret HPMFWUPG_SUCCESS)"

text \<open>A query prints its result: it runs with \<open>verbose\<close> increased.\<close>

definition loud :: "('s hpm, 'a) machine \<Rightarrow> ('s hpm, 'a) machine" where
  "loud m = mbind (mmod (\<lambda>s. s\<lparr>hp_verbose := hp_verbose s + 1\<rparr>)) (\<lambda>_. m)"

definition ipmi_hpmfwupg_main :: "'s hpm_intf \<Rightarrow> (string \<Rightarrow> bytes option) \<Rightarrow> string list \<Rightarrow> ('s hpm, int) machine" where
  "ipmi_hpmfwupg_main intf files argv =
     mbind (notice ([CHR 0x0A] @ ''PICMG HPM.1 Upgrade Agent 0.4: '' @ [CHR 0x0A])) (\<lambda>_.
     if argv = [] \<or> hd argv = ''help'' then HpmfwupgPrintUsage
     else if length argv = 2 \<and> hd argv = ''upgrade'' then HpmfwupgUpgrade intf files (argv ! 1) False
     else if length argv = 3 \<and> hd argv = ''upgrade'' then
       if argv ! 2 = ''activate'' then HpmfwupgUpgrade intf files (argv ! 1) True else HpmfwupgPrintUsage
     else if argv = [''activate''] then HpmfwupgActivateFirmware intf None
     else if argv = [''targetcap''] then mbind (loud (HpmfwupgGetTargetUpgCapabilities intf)) (\<lambda>(rc, _). mret rc)
     else if length argv = 3 \<and> hd argv = ''compprop'' then
       mbind (loud (HpmfwupgGetComponentProperties intf (of_int (fst (strtol0 (argv ! 1)))) (of_int (fst (strtol0 (argv ! 2)))))) (\<lambda>(rc, _). mret rc)
     else if argv = [''upgstatus''] then mbind (loud (HpmfwupgGetUpgradeStatus intf None None)) (\<lambda>(rc, _). mret rc)
     else if argv = [''rollback''] then loud (HpmfwupgManualFirmwareRollback intf None)
     else if argv = [''rollbackstatus''] then loud (HpmfwupgQueryRollbackStatus intf None)
     else if argv = [''selftestresult''] then mbind (loud (HpmfwupgQuerySelftestResult intf None)) (\<lambda>(rc, _). mret rc)
     else HpmfwupgPrintUsage)"

end
