(* ===== verification/Hpm_Device.thy ===== *)
theory Hpm_Device
  imports Hpm_Upgrade
begin

text \<open>
  What an upgrade does to a target that follows the HPM.1 specification: images are built from their actions, a target is described by its answers and by what it has
  received so far, and the whole procedure delivers the actions of the image in order.
\<close>

section \<open>Images\<close>

datatype hpm_action = Prepare u8 | Upload u8 bytes bytes bytes

text \<open>A record with its checksum, and a length in three bytes.\<close>

definition checked :: "bytes \<Rightarrow> bytes" where
  "checked r = r @ [- HpmfwupgCalculateChecksum r]"

definition le24 :: "nat \<Rightarrow> bytes" where
  "le24 n = take 3 (le32 (of_nat n))"

fun action_bytes :: "hpm_action \<Rightarrow> bytes" where
  "action_bytes (Prepare m) = checked [1, m]"
| "action_bytes (Upload m v d f) = checked [2, m] @ v @ d @ le24 (length f) @ f"

definition image_body :: "bytes \<Rightarrow> bytes \<Rightarrow> hpm_action list \<Rightarrow> bytes" where
  "image_body h oem as = checked (h @ oem) @ concat (map action_bytes as)"

definition hpm_image :: "bytes \<Rightarrow> bytes \<Rightarrow> hpm_action list \<Rightarrow> bytes" where
  "hpm_image h oem as = image_body h oem as @ md5_reference (image_body h oem as)"

definition header_ok :: "bytes \<Rightarrow> bytes \<Rightarrow> bool" where
  "header_ok h oem \<longleftrightarrow> length h = header_size \<and> map byte_char (take 8 h) = ''PICMGFWU'' \<and> h ! 8 = 0 \<and> oemDataLength h = length oem"

section \<open>Targets\<close>

datatype hpm_event = Prepared u8 | Installed u8 bytes | Activated

record hpm_view =
  v_done :: "hpm_event list"
  v_part :: bytes
  v_next :: u8

record hpm_target =
  t_devId :: bytes
  t_cap :: bytes
  t_prop :: "nat \<Rightarrow> u8"
  t_max :: nat
  t_polls :: nat

text \<open>
  A command is taken: it is done, or it goes on in the background, for at most \<open>t_polls\<close> queries of its status.
\<close>

definition taken :: "hpm_target \<Rightarrow> ('s \<Rightarrow> nat) \<Rightarrow> ipmi_rs \<Rightarrow> 's \<Rightarrow> bool" where
  "taken tg pending r t \<longleftrightarrow> r_ccode r = 0 \<or> (r_ccode r = HPMFWUPG_COMMAND_IN_PROGRESS \<and> pending t \<le> t_polls tg)"

abbreviation (input) picmg :: "u8 \<Rightarrow> bytes \<Rightarrow> ipmi_rq" where "picmg cmd d \<equiv> ipmi_request 0x2c cmd (0 # d)"

definition hpm_target_ok :: "'s transport \<Rightarrow> hpm_target \<Rightarrow> ('s \<Rightarrow> hpm_view) \<Rightarrow> ('s \<Rightarrow> nat) \<Rightarrow> bool" where
  "hpm_target_ok sr tg view pending \<longleftrightarrow>
     (\<forall>s. \<exists>r t. sr (ipmi_request 0x06 0x01 []) s = Inr (Some r, t) \<and> r_ccode r = 0 \<and> take 15 (r_data r) = t_devId tg \<and> view t = view s) \<and>
     (\<forall>s. \<exists>r t. sr (picmg HPMFWUPG_GET_TARGET_UPG_CAPABILITIES []) s = Inr (Some r, t) \<and> r_ccode r = 0 \<and> take 7 (r_data r) = t_cap tg \<and> view t = view s) \<and>
     (\<forall>s i. i < 8 \<longrightarrow> (\<exists>r t. sr (picmg HPMFWUPG_GET_COMPONENT_PROPERTIES [of_nat i, 0]) s = Inr (Some r, t) \<and> r_ccode r = 0
        \<and> take 2 (r_data r) = [0, t_prop tg i] \<and> view t = view s)) \<and>
     (\<forall>s m. \<exists>r t. sr (picmg HPMFWUPG_PREPARE_COMPONENTS [m, 0]) s = Inr (Some r, t) \<and> taken tg pending r t
        \<and> view t = \<lparr>v_done = v_done (view s) @ [Prepared m], v_part = [], v_next = 0\<rparr>) \<and>
     (\<forall>s m d. length d \<le> t_max tg \<longrightarrow> (\<exists>r t. sr (picmg HPMFWUPG_UPLOAD_FIRMWARE_BLOCK ([m, v_next (view s)] @ d)) s = Inr (Some r, t)
        \<and> taken tg pending r t \<and> view t = (view s)\<lparr>v_part := v_part (view s) @ d, v_next := v_next (view s) + 1\<rparr>)) \<and>
     (\<forall>s m n d. length d > t_max tg \<longrightarrow> (\<exists>r t. sr (picmg HPMFWUPG_UPLOAD_FIRMWARE_BLOCK ([m, n] @ d)) s = Inr (Some r, t)
        \<and> r_ccode r = 0xc7 \<and> view t = view s)) \<and>
     (\<forall>s m. \<exists>r t. sr (picmg HPMFWUPG_FINISH_FIRMWARE_UPLOAD ([m] @ le24 (length (v_part (view s))))) s = Inr (Some r, t) \<and> taken tg pending r t
        \<and> view t = \<lparr>v_done = v_done (view s) @ [Installed m (v_part (view s))], v_part = [], v_next = 0\<rparr>) \<and>
     (\<forall>s. \<exists>r t. sr (picmg HPMFWUPG_GET_UPGRADE_STATUS []) s = Inr (Some r, t) \<and> r_ccode r = 0 \<and> view t = view s
        \<and> (if pending s = 0 then r_data r ! 2 = 0 else r_data r ! 2 = HPMFWUPG_COMMAND_IN_PROGRESS \<and> pending t < pending s)) \<and>
     (\<forall>s. \<exists>r t. sr (picmg HPMFWUPG_ACTIVATE_FIRMWARE []) s = Inr (Some r, t) \<and> taken tg pending r t
        \<and> view t = (view s)\<lparr>v_done := v_done (view s) @ [Activated]\<rparr>) \<and>
     (\<forall>s. \<exists>r t. sr (picmg HPMFWUPG_QUERY_SELFTEST_RESULT []) s = Inr (Some r, t) \<and> r_ccode r = 0 \<and> r_data r ! 1 = 0x55 \<and> view t = view s)"

section \<open>Runs\<close>

text \<open>What an operation leaves as it was: everything but the target, the clock and the output.\<close>

definition hp_frame :: "'s hpm \<Rightarrow> 's hpm \<Rightarrow> bool" where
  "hp_frame s t \<longleftrightarrow> hp_verbose t = hp_verbose s \<and> hp_errorCount t = hp_errorCount s \<and> hp_clock t = hp_clock s \<and> hp_sleeps t = hp_sleeps s
     \<and> hp_malloc t = hp_malloc s \<and> hp_blocks t = hp_blocks s \<and> hp_percent t = hp_percent s \<and> hp_turns t = hp_turns s"

lemma hp_frame_refl [simp]: "hp_frame s s"
  by (simp add: hp_frame_def)

lemma hp_frame_trans: "hp_frame s t \<Longrightarrow> hp_frame t u \<Longrightarrow> hp_frame s u"
  by (simp add: hp_frame_def)

text \<open>\<open>gives view m s a v\<close>: \<open>m\<close> started in \<open>s\<close> returns \<open>a\<close> with the target at \<open>v\<close>.\<close>

definition gives :: "('s \<Rightarrow> hpm_view) \<Rightarrow> ('s hpm, 'a) machine \<Rightarrow> 's hpm \<Rightarrow> 'a \<Rightarrow> hpm_view \<Rightarrow> bool" where
  "gives view m s a v \<longleftrightarrow> (\<exists>t. m s = Inr (a, t) \<and> hp_frame s t \<and> view (hp_bmc t) = v)"

lemma givesI: "m s = Inr (a, t) \<Longrightarrow> hp_frame s t \<Longrightarrow> view (hp_bmc t) = v \<Longrightarrow> gives view m s a v"
  by (auto simp: gives_def)

lemma gives_bind:
  assumes "gives view m s a v" and "\<And>t. hp_frame s t \<Longrightarrow> view (hp_bmc t) = v \<Longrightarrow> gives view (f a) t b w"
  shows "gives view (mbind m f) s b w"
proof -
  obtain t where t: "m s = Inr (a, t)" "hp_frame s t" "view (hp_bmc t) = v" using assms(1) by (auto simp: gives_def)
  obtain u where u: "f a t = Inr (b, u)" "hp_frame t u" "view (hp_bmc u) = w" using assms(2) [OF t(2,3)] by (auto simp: gives_def)
  show ?thesis by (rule givesI [of _ _ _ u]) (use t u hp_frame_trans in \<open>auto simp: machine_simps\<close>)
qed

lemma gives_mret: "a = b \<Longrightarrow> view (hp_bmc s) = v \<Longrightarrow> gives view (mret a) s b v"
  by (rule givesI [of _ _ _ s]) (simp_all add: machine_simps)

lemma gives_mget: "view (hp_bmc s) = v \<Longrightarrow> gives view (mget g) s (g s) v"
  by (rule givesI [of _ _ _ s]) (simp_all add: machine_simps)

lemma gives_output [intro]:
  "view (hp_bmc s) = v \<Longrightarrow> gives view (hpm_put t) s () v"
  "view (hp_bmc s) = v \<Longrightarrow> gives view (notice t) s () v"
  "view (hp_bmc s) = v \<Longrightarrow> gives view (notices ts) s () v"
  by (auto simp: gives_def hpm_put_def notice_def notices_def machine_simps hp_frame_def)

text \<open>The clock is slow against the polls: a command that goes on in the background is done before its timeout.\<close>

definition in_time :: "hpm_target \<Rightarrow> 's hpm \<Rightarrow> bool" where
  "in_time tg s \<longleftrightarrow> 0 < hp_turns s \<and> t_polls tg + 2 \<le> hp_turns s
     \<and> (\<forall>i j. i \<le> j \<and> j \<le> i + 2 * t_polls tg + 8 \<longrightarrow> hp_clock s j - hp_clock s i < ucast (t_cap tg ! 2 * 5))"

lemma in_time_frame: "hp_frame s t \<Longrightarrow> in_time tg s \<Longrightarrow> in_time tg t"
  by (simp add: in_time_def hp_frame_def)

text \<open>A context in the stages after the preparation.\<close>

definition ctx_of :: "hpm_target \<Rightarrow> upgrade_ctx option \<Rightarrow> bool" where
  "ctx_of tg ctx \<longleftrightarrow> (\<exists>c. ctx = Some c \<and> u_targetCap c = Some (t_cap tg))"

lemma send_answered:
  assumes "n_sendrecv intf req (hp_bmc s) = Inr (Some r, b)" "r_ccode r \<notin> {0xff, 0xc3, 0xc0}" "0 < hp_turns s" "ctx = None \<or> ctx_of tg ctx"
  shows "HpmfwupgSendCmd intf req ctx s = Inr (Some r, s\<lparr>hp_bmc := b, hp_ticks := Suc (hp_ticks s)\<rparr>)"
proof -
  have "\<exists>x. ctx_timeout i ctx u = Inr (x, u)" for i u
    using assms(4) by (auto simp: ctx_timeout_def ctx_of_def machine_simps)
  then obtain x y where "ctx_timeout 5 ctx s = Inr (x, s)" "ctx_timeout 2 ctx s = Inr (y, s)" by metis
  moreover obtain k where "hp_turns s = Suc k" using assms(3) by (cases "hp_turns s") auto
  ultimately show ?thesis
    using assms(1,2) by (simp add: HpmfwupgSendCmd_def machine_simps hpm_time_def on_bmc_def)
qed

section \<open>Waiting\<close>

lemma status_run:
  assumes "hpm_target_ok (n_sendrecv intf) tg view pending" "0 < hp_turns s" "ctx_of tg ctx"
  obtains x code t where "HpmfwupgGetUpgradeStatus intf resp ctx s = Inr ((0, Some (x, code)), t)" "hp_frame s t" "view (hp_bmc t) = view (hp_bmc s)"
    "hp_ticks t = Suc (hp_ticks s)" "pending (hp_bmc s) = 0 \<and> code = 0 \<or> code = HPMFWUPG_COMMAND_IN_PROGRESS \<and> pending (hp_bmc t) < pending (hp_bmc s)"
proof -
  obtain r b where r: "n_sendrecv intf (picmg HPMFWUPG_GET_UPGRADE_STATUS []) (hp_bmc s) = Inr (Some r, b)" "r_ccode r = 0" "view b = view (hp_bmc s)"
    "if pending (hp_bmc s) = 0 then r_data r ! 2 = 0 else r_data r ! 2 = HPMFWUPG_COMMAND_IN_PROGRESS \<and> pending b < pending (hp_bmc s)"
    using assms(1) unfolding hpm_target_ok_def by blast
  have "HpmfwupgSendCmd intf (picmg HPMFWUPG_GET_UPGRADE_STATUS []) ctx s = Inr (Some r, s\<lparr>hp_bmc := b, hp_ticks := Suc (hp_ticks s)\<rparr>)"
    by (rule send_answered [OF r(1) _ assms(2) disjI2 [OF assms(3)]]) (simp add: r(2))
  then show ?thesis
    using r(2-4) that [of "r_data r ! 1" "r_data r ! 2"]
    by (cases "hp_verbose s = 0") (auto simp: HpmfwupgGetUpgradeStatus_def machine_simps notices_def hp_frame_def split: if_splits)
qed

lemma wait_loop_run:
  assumes "hpm_target_ok (n_sendrecv intf) tg view pending" "in_time tg s" "ctx_of tg ctx"
    and "t1 = hp_clock s i" "t2 - t1 < ucast (t_cap tg ! 2 * 5)" "i \<le> hp_ticks s" "hp_ticks s + 2 * p + 1 \<le> i + 2 * t_polls tg + 8"
    and "code = 0 \<or> code = HPMFWUPG_COMMAND_IN_PROGRESS \<and> pending (hp_bmc s) < p" "p < k"
  obtains x t where "wait_loop k intf ctx (t_cap tg ! 2 * 5) t1 t2 0 (Some (y, code)) s = Inr ((0, Some (x, 0)), t)" "hp_frame s t"
    "view (hp_bmc t) = view (hp_bmc s)"
  using assms(2,4-)
proof (induction k arbitrary: s t2 code p y thesis)
  case 0
  then show ?case by simp
next
  case (Suc k)
  show ?case
  proof (cases "code = 0")
    case True
    then show ?thesis using Suc.prems(1) [of y s] by (simp add: last_code_def machine_simps)
  next
    case False
    with Suc.prems have code: "code = HPMFWUPG_COMMAND_IN_PROGRESS" and p: "pending (hp_bmc s) < p" by auto
    let ?s = "s\<lparr>hp_ticks := Suc (hp_ticks s)\<rparr>"
    have "0 < hp_turns ?s" using Suc.prems(2) by (simp add: in_time_def)
    then obtain x c t where t': "HpmfwupgGetUpgradeStatus intf (Some (y, code)) ctx ?s = Inr ((0, Some (x, c)), t)" "hp_frame ?s t"
      "view (hp_bmc t) = view (hp_bmc ?s)" "hp_ticks t = Suc (hp_ticks ?s)"
      "pending (hp_bmc ?s) = 0 \<and> c = 0 \<or> c = HPMFWUPG_COMMAND_IN_PROGRESS \<and> pending (hp_bmc t) < pending (hp_bmc ?s)"
      by (rule status_run [OF assms(1) _ assms(3)])
    then have t: "HpmfwupgGetUpgradeStatus intf (Some (y, code)) ctx ?s = Inr ((0, Some (x, c)), t)" "hp_frame ?s t"
      "view (hp_bmc t) = view (hp_bmc s)" "hp_ticks t = Suc (Suc (hp_ticks s))" "c = 0 \<or> c = HPMFWUPG_COMMAND_IN_PROGRESS \<and> pending (hp_bmc t) < pending (hp_bmc s)"
      by auto
    have fr: "hp_frame s t" using t(2) by (simp add: hp_frame_def)
    have t2: "hp_clock s (hp_ticks s) - t1 < ucast (t_cap tg ! 2 * 5)"
      using Suc.prems(2-6) by (auto simp: in_time_def)
    have clk: "t1 = hp_clock t i" using Suc.prems(3) fr by (simp add: hp_frame_def)
    have c: "c = 0 \<or> c = HPMFWUPG_COMMAND_IN_PROGRESS \<and> pending (hp_bmc t) < p - 1" using t(5) p by auto
    obtain x' u where u: "wait_loop k intf ctx (t_cap tg ! 2 * 5) t1 (hp_clock s (hp_ticks s)) 0 (Some (x, c)) t = Inr ((0, Some (x', 0)), u)"
      "hp_frame t u" "view (hp_bmc u) = view (hp_bmc t)"
      by (rule Suc.IH [OF _ in_time_frame [OF fr Suc.prems(2)] clk t2 _ _ c]) (use t(4) Suc.prems(5,6,8) p in auto)
    show ?thesis
      using Suc.prems(1) [of x' u] Suc.prems(4) code t(1,3) u hp_frame_trans [OF fr u(2)]
      by (simp add: last_code_def machine_simps hpm_time_def)
  qed
qed

lemma wait_run:
  assumes "hpm_target_ok (n_sendrecv intf) tg view pending" "in_time tg s" "ctx_of tg ctx" "pending (hp_bmc s) \<le> t_polls tg"
  shows "gives view (HpmfwupgWaitLongDurationCmd intf ctx) s 0 (view (hp_bmc s))"
proof -
  let ?s = "s\<lparr>hp_ticks := Suc (Suc (hp_ticks s))\<rparr>"
  have turns: "0 < hp_turns ?s" "t_polls tg + 2 \<le> hp_turns s" using assms(2) by (simp_all add: in_time_def)
  obtain x c t where t: "HpmfwupgGetUpgradeStatus intf None ctx ?s = Inr ((0, Some (x, c)), t)" "hp_frame ?s t" "view (hp_bmc t) = view (hp_bmc ?s)"
    "hp_ticks t = Suc (hp_ticks ?s)" "pending (hp_bmc ?s) = 0 \<and> c = 0 \<or> c = HPMFWUPG_COMMAND_IN_PROGRESS \<and> pending (hp_bmc t) < pending (hp_bmc ?s)"
    by (rule status_run [OF assms(1) turns(1) assms(3)])
  have fr: "hp_frame s t" using t(2) by (simp add: hp_frame_def)
  have to: "ctx_timeout 2 ctx s = Inr (t_cap tg ! 2 * 5, s)" using assms(3) by (auto simp: ctx_timeout_def ctx_of_def machine_simps)
  have n: "hp_turns t = hp_turns s" and clk: "hp_clock t = hp_clock s" using fr by (simp_all add: hp_frame_def)
  have c: "c = 0 \<or> c = HPMFWUPG_COMMAND_IN_PROGRESS \<and> pending (hp_bmc t) < t_polls tg"
    using t(5) assms(4) by auto
  have t2: "hp_clock s (Suc (hp_ticks s)) - hp_clock s (hp_ticks s) < ucast (t_cap tg ! 2 * 5)"
    using assms(2) by (simp add: in_time_def)
  have b: "hp_ticks s \<le> hp_ticks t" "hp_ticks t + 2 * t_polls tg + 1 \<le> hp_ticks s + 2 * t_polls tg + 4" "t_polls tg < hp_turns t" using t(4) turns n by simp_all
  obtain x' u where u: "wait_loop (hp_turns t) intf ctx (t_cap tg ! 2 * 5) (hp_clock s (hp_ticks s)) (hp_clock s (Suc (hp_ticks s))) 0 (Some (x, c)) t
      = Inr ((0, Some (x', 0)), u)" "hp_frame t u" "view (hp_bmc u) = view (hp_bmc t)"
    by (rule wait_loop_run [OF assms(1) in_time_frame [OF fr assms(2)] assms(3) _ t2 b(1) _ c b(3)]) (use clk b(2) in simp_all)
  show ?thesis
    by (rule givesI [of _ _ _ u])
      (use to t(1,3) u hp_frame_trans [OF fr u(2)] in \<open>simp_all add: HpmfwupgWaitLongDurationCmd_def machine_simps hpm_time_def last_code_def\<close>)
qed

section \<open>Commands\<close>

lemma taken_send:
  assumes "n_sendrecv intf req (hp_bmc s) = Inr (Some r, b)" "taken tg pending r b" "in_time tg s" "ctx_of tg ctx"
  shows "HpmfwupgSendCmd intf req ctx s = Inr (Some r, s\<lparr>hp_bmc := b, hp_ticks := Suc (hp_ticks s)\<rparr>)"
  by (rule send_answered [OF assms(1) _ _ disjI2 [OF assms(4)]]) (use assms(2,3) in \<open>auto simp: taken_def in_time_def\<close>)

lemma ticked: "hp_frame s (s\<lparr>hp_bmc := b, hp_ticks := k\<rparr>)"
  by (simp add: hp_frame_def)

lemma taken_run:
  assumes "hpm_target_ok (n_sendrecv intf) tg view pending" "in_time tg s" "ctx_of tg ctx"
    and "n_sendrecv intf req (hp_bmc s) = Inr (Some r, b)" "taken tg pending r b"
    and "\<And>t. hp_bmc t = b \<Longrightarrow> in_time tg t \<Longrightarrow> gives view (f (Some r)) t a (view b)"
  shows "gives view (mbind (HpmfwupgSendCmd intf req ctx) f) s a (view b)"
proof -
  let ?t = "s\<lparr>hp_bmc := b, hp_ticks := Suc (hp_ticks s)\<rparr>"
  have t: "HpmfwupgSendCmd intf req ctx s = Inr (Some r, ?t)" by (rule taken_send [OF assms(4,5,2,3)])
  have "in_time tg ?t" by (rule in_time_frame [OF ticked assms(2)])
  then have "gives view (f (Some r)) ?t a (view b)" by (intro assms(6)) simp_all
  then obtain u where "f (Some r) ?t = Inr (a, u)" "hp_frame ?t u" "view (hp_bmc u) = view b" by (auto simp: gives_def)
  then show "gives view (mbind (HpmfwupgSendCmd intf req ctx) f) s a (view b)"
    using t hp_frame_trans [OF ticked] by (intro givesI [of _ _ _ u]) (auto simp: machine_simps)
qed

lemma long_duration_run:
  assumes "hpm_target_ok (n_sendrecv intf) tg view pending" "in_time tg t" "ctx_of tg ctx" "taken tg pending r (hp_bmc t)"
  shows "gives view (long_duration intf ctx w n (Some r)) t 0 (view (hp_bmc t))"
  using assms(4) wait_run [OF assms(1-3)] gives_mret [of 0 0 view t]
  by (auto simp: taken_def long_duration_def)

lemma prepare_run:
  assumes "hpm_target_ok (n_sendrecv intf) tg view pending" "in_time tg s" "ctx_of tg ctx"
  shows "gives view (HpmfwupgPrepareComponents intf m 0 ctx) s 0 \<lparr>v_done = v_done (view (hp_bmc s)) @ [Prepared m], v_part = [], v_next = 0\<rparr>"
proof -
  obtain r b where r: "n_sendrecv intf (picmg HPMFWUPG_PREPARE_COMPONENTS [m, 0]) (hp_bmc s) = Inr (Some r, b)" "taken tg pending r b"
    "view b = \<lparr>v_done = v_done (view (hp_bmc s)) @ [Prepared m], v_part = [], v_next = 0\<rparr>"
    using assms(1) unfolding hpm_target_ok_def by blast
  show ?thesis
    unfolding HpmfwupgPrepareComponents_def r(3) [symmetric]
    by (rule taken_run [OF assms r(1,2)]) (use long_duration_run [OF assms(1) _ assms(3)] r(2) in auto)
qed

lemma finish_run:
  assumes "hpm_target_ok (n_sendrecv intf) tg view pending" "in_time tg s" "ctx_of tg ctx"
  shows "gives view (HpmfwupgFinishFirmwareUpload intf m (le24 (length (v_part (view (hp_bmc s))))) ctx) s 0
    \<lparr>v_done = v_done (view (hp_bmc s)) @ [Installed m (v_part (view (hp_bmc s)))], v_part = [], v_next = 0\<rparr>"
proof -
  obtain r b where r: "n_sendrecv intf (picmg HPMFWUPG_FINISH_FIRMWARE_UPLOAD ([m] @ le24 (length (v_part (view (hp_bmc s)))))) (hp_bmc s) = Inr (Some r, b)"
    "taken tg pending r b" "view b = \<lparr>v_done = v_done (view (hp_bmc s)) @ [Installed m (v_part (view (hp_bmc s)))], v_part = [], v_next = 0\<rparr>"
    using assms(1) unfolding hpm_target_ok_def by blast
  show ?thesis
    unfolding HpmfwupgFinishFirmwareUpload_def r(3) [symmetric] append_Cons append_Nil
    by (rule taken_run [OF assms r(1,2) [simplified append_Cons append_Nil]]) (use long_duration_run [OF assms(1) _ assms(3)] r(2) in auto)
qed

lemma block_run:
  assumes "hpm_target_ok (n_sendrecv intf) tg view pending" "in_time tg s" "ctx_of tg ctx" "n = v_next (view (hp_bmc s))" "length d \<le> t_max tg"
  shows "gives view (HpmfwupgUploadFirmwareBlock intf m n d ctx) s 0
    ((view (hp_bmc s))\<lparr>v_part := v_part (view (hp_bmc s)) @ d, v_next := v_next (view (hp_bmc s)) + 1\<rparr>)"
proof -
  obtain r b where r: "n_sendrecv intf (picmg HPMFWUPG_UPLOAD_FIRMWARE_BLOCK ([m, n] @ d)) (hp_bmc s) = Inr (Some r, b)" "taken tg pending r b"
    "view b = (view (hp_bmc s))\<lparr>v_part := v_part (view (hp_bmc s)) @ d, v_next := v_next (view (hp_bmc s)) + 1\<rparr>"
    using assms(1,5) unfolding hpm_target_ok_def assms(4) by blast
  show ?thesis
    unfolding HpmfwupgUploadFirmwareBlock_def r(3) [symmetric] append_Cons append_Nil
    by (rule taken_run [OF assms(1-3) r(1,2) [simplified append_Cons append_Nil]])
      (use wait_run [OF assms(1) _ assms(3)] r(2) in \<open>auto simp: taken_def intro: gives_mret\<close>)
qed

lemma refused_block_run:
  assumes "hpm_target_ok (n_sendrecv intf) tg view pending" "in_time tg s" "ctx_of tg ctx" "t_max tg < length d"
  shows "gives view (HpmfwupgUploadFirmwareBlock intf m n d ctx) s 1 (view (hp_bmc s))"
proof -
  obtain r b where r: "n_sendrecv intf (picmg HPMFWUPG_UPLOAD_FIRMWARE_BLOCK ([m, n] @ d)) (hp_bmc s) = Inr (Some r, b)" "r_ccode r = 0xc7" "view b = view (hp_bmc s)"
    using assms(1,4) unfolding hpm_target_ok_def by blast
  have "HpmfwupgSendCmd intf (picmg HPMFWUPG_UPLOAD_FIRMWARE_BLOCK ([m, n] @ d)) ctx s = Inr (Some r, s\<lparr>hp_bmc := b, hp_ticks := Suc (hp_ticks s)\<rparr>)"
    by (rule send_answered [OF r(1) _ _ disjI2 [OF assms(3)]]) (use r(2) assms(2) in \<open>auto simp: in_time_def\<close>)
  then show ?thesis
    using r(2,3) by (intro givesI [OF _ ticked [of s "Suc (hp_ticks s)" b]]) (auto simp: HpmfwupgUploadFirmwareBlock_def machine_simps)
qed

section \<open>Upload\<close>

text \<open>
  \<open>b\<close> is the block size that the upload begins with, \<open>n\<close> the one it ends with. The last block copies \<open>n\<close> bytes too, which must be there: the digest behind the
  firmware has 16.
\<close>

definition block_fits :: "nat \<Rightarrow> nat \<Rightarrow> nat \<Rightarrow> bool" where
  "block_fits b n l \<longleftrightarrow> b \<le> l + 16 \<and> (l mod n = 0 \<or> n \<le> l mod n + 16)"

lemma partial_block:
  fixes pos n l :: nat
  assumes "n dvd pos" "pos < l" "l < pos + n"
  shows "l mod n = l - pos"
proof -
  obtain q where q: "pos = n * q" using assms(1) by (rule dvdE)
  then have "l = n * q + (l - pos)" "l - pos < n" using assms(2,3) by auto
  then show ?thesis by (metis mod_less mod_mult_self4)
qed

definition upload_at :: "nat \<Rightarrow> nat \<Rightarrow> nat \<Rightarrow> nat \<Rightarrow> bool" where
  "upload_at n l pos b \<longleftrightarrow> n \<le> b \<and> pos \<le> l \<and> (pos = 0 \<or> pos = l \<or> b = n \<and> n dvd pos)"

lemma upload_step:
  assumes "upload_at n l pos b" "pos < l" "block_fits b0 n l" "b \<le> b0" "0 < n" "n = min b0 mx"
  defines "count \<equiv> (if pos + b \<le> l then b else l - pos)"
  shows "pos + b \<le> l + 16" "0 < count"
    and "count \<le> mx \<Longrightarrow> upload_at n l (pos + count) b" "mx < count \<Longrightarrow> pos = 0 \<and> n < b"
proof -
  show "0 < count" using assms by (auto simp: upload_at_def)
  show "pos + b \<le> l + 16"
  proof (cases "pos = 0")
    case True
    then show ?thesis using assms(3,4) by (simp add: block_fits_def)
  next
    case False
    then have b: "b = n" "n dvd pos" using assms(1,2) by (auto simp: upload_at_def)
    show ?thesis
    proof (cases "l < pos + n")
      case True
      then show ?thesis using partial_block [OF b(2) assms(2) True] assms(2,3) b(1) by (auto simp: block_fits_def)
    qed (use b in simp)
  qed
  show "upload_at n l (pos + count) b" if "count \<le> mx"
    using assms that by (auto simp: upload_at_def min_def split: if_splits)
  show "pos = 0 \<and> n < b" if "mx < count"
    using assms that by (auto simp: upload_at_def min_def split: if_splits)
qed

lemma upload_loop_run:
  assumes "hpm_target_ok (n_sendrecv intf) tg view pending" "ctx_of tg (Some c)"
    and "block_fits b0 n l" "0 < n" "n = min b0 (t_max tg)" "b0 \<le> 32"
    and "f = bytes_at (u_imageData c) start l" "start + l + 16 \<le> length (u_imageData c)"
    and "in_time tg s" "upload_at n l pos (unat b)" "unat b \<le> b0" "(l - pos) + (unat b - n) < k"
    and "view (hp_bmc s) = \<lparr>v_done = e, v_part = take pos f, v_next = blk\<rparr>"
  obtains x where "gives view (upload_loop k intf c m start l pos b blk tot) s 0 \<lparr>v_done = e, v_part = f, v_next = x\<rparr>"
  using assms(9-)
proof (induction k arbitrary: s pos b blk tot thesis)
  case 0
  then show ?case by simp
next
  case (Suc k)
  have lf: "length f = l" using assms(7,8) by (simp add: bytes_at_def)
  show ?case
  proof (cases "pos < l")
    case False
    then have "take pos f = f" using lf by simp
    then show ?thesis
      using Suc.prems(1) [of blk] Suc.prems(6) False by (simp add: gives_mret)
  next
    case True
    define cnt where "cnt = (if pos + unat b \<le> l then unat b else l - pos)"
    have cnt8: "unat (if pos + unat b \<le> l then b else of_nat (l - pos)) = cnt"
      using Suc.prems(4) assms(6) by (auto simp: cnt_def unat_of_nat)
    note st = upload_step [OF Suc.prems(3) True assms(3) Suc.prems(4) assms(4,5), folded cnt_def]
    have b32: "\<not> b > 32" using Suc.prems(4) assms(6) by (auto simp: word_less_nat_alt)
    have inb: "\<not> start + pos + unat b > length (u_imageData c)" using st(1) assms(8) by simp
    let ?d = "bytes_at (u_imageData c) (start + pos) cnt"
    have cl: "cnt \<le> l - pos" by (auto simp: cnt_def)
    have ld: "length ?d = cnt" using cl assms(8) True by (simp add: bytes_at_def)
    have d: "?d = take cnt (drop pos f)"
      unfolding assms(7) bytes_at_def drop_take take_take drop_drop by (simp add: min.absorb1 [OF cl] add.commute)
    show ?thesis
    proof (cases "cnt \<le> t_max tg")
      case acc: True
      have v: "take pos f @ ?d = take (pos + cnt) f" by (simp only: d take_add)
      have "gives view (HpmfwupgUploadFirmwareBlock intf m blk ?d (Some c)) s 0 \<lparr>v_done = e, v_part = take (pos + cnt) f, v_next = blk + 1\<rparr>"
        using block_run [OF assms(1) Suc.prems(2) assms(2), of blk ?d m] Suc.prems(6) acc ld v by simp
      then obtain t where t: "HpmfwupgUploadFirmwareBlock intf m blk ?d (Some c) s = Inr (0, t)" "hp_frame s t"
        "view (hp_bmc t) = \<lparr>v_done = e, v_part = take (pos + cnt) f, v_next = blk + 1\<rparr>" by (auto simp: gives_def)
      define msg where "msg = ''    Writing firmware: '' @ hp_percent t (tot + ucast (if pos + unat b \<le> l then b else of_nat (l - pos))) (of_nat l) @ '' % completed'' @ [CHR 0x0D]"
      let ?u = "t\<lparr>hp_out := hp_out t @ msg\<rparr>"
      have u: "hp_frame s ?u" "view (hp_bmc ?u) = \<lparr>v_done = e, v_part = take (pos + cnt) f, v_next = blk + 1\<rparr>" using t(2,3) by (simp_all add: hp_frame_def)
      obtain x where "gives view (upload_loop k intf c m start l (pos + cnt) b (blk + 1) (tot + ucast (if pos + unat b \<le> l then b else of_nat (l - pos)))) ?u 0
          \<lparr>v_done = e, v_part = f, v_next = x\<rparr>"
        by (rule Suc.IH [OF _ in_time_frame [OF u(1) Suc.prems(2)] st(3) [OF acc] Suc.prems(4) _ u(2)]) (use Suc.prems(5) st(2) True in auto)
      then obtain w where w: "upload_loop k intf c m start l (pos + cnt) b (blk + 1) (tot + ucast (if pos + unat b \<le> l then b else of_nat (l - pos))) ?u = Inr (0, w)"
        "hp_frame ?u w" "view (hp_bmc w) = \<lparr>v_done = e, v_part = f, v_next = x\<rparr>" by (auto simp: gives_def)
      have "upload_loop (Suc k) intf c m start l pos b blk tot s = Inr (0, w)"
        using True b32 inb cnt8 t(1) w(1) by (simp add: Let_def machine_simps hpm_put_def msg_def)
      then show ?thesis using Suc.prems(1) [of x] w(3) hp_frame_trans [OF u(1) w(2)] by (auto simp: gives_def)
    next
      case rej: False
      with st(4) have p0: "pos = 0" "n < unat b" by auto
      have "gives view (HpmfwupgUploadFirmwareBlock intf m blk ?d (Some c)) s 1 (view (hp_bmc s))"
        using refused_block_run [OF assms(1) Suc.prems(2) assms(2)] rej ld by simp
      then obtain t where t: "HpmfwupgUploadFirmwareBlock intf m blk ?d (Some c) s = Inr (1, t)" "hp_frame s t" "view (hp_bmc t) = view (hp_bmc s)"
        by (auto simp: gives_def)
      have b1: "unat (b - 1) = unat b - 1" using p0(2) by (metis less_nat_zero_code unat_0 unat_minus_one)
      have at: "upload_at n l pos (unat (b - 1))" "unat (b - 1) \<le> b0" "(l - pos) + (unat (b - 1) - n) < k"
        "view (hp_bmc t) = \<lparr>v_done = e, v_part = take pos f, v_next = blk\<rparr>"
        using Suc.prems(3-6) b1 p0 t(3) by (auto simp: upload_at_def)
      obtain x where "gives view (upload_loop k intf c m start l pos (b - 1) blk (tot + ucast (if pos + unat b \<le> l then b else of_nat (l - pos)))) t 0
          \<lparr>v_done = e, v_part = f, v_next = x\<rparr>"
        by (rule Suc.IH [OF _ in_time_frame [OF t(2) Suc.prems(2)] at])
      then show ?thesis
        using Suc.prems(1) [of x] True b32 inb cnt8 t(1) hp_frame_trans [OF t(2)] by (auto simp: gives_def Let_def machine_simps)
    qed
  qed
qed

end
