(* ===== verification/Hpm_Delivery.thy ===== *)
theory Hpm_Delivery
  imports Hpm_Device
begin

text \<open>
  The whole upgrade procedure on an image and a target that fit together: every action of the image reaches the target once and in order.
\<close>

section \<open>Encoded actions\<close>

lemma checksum_append: "HpmfwupgCalculateChecksum (r @ [x]) = HpmfwupgCalculateChecksum r + x"
  by (simp add: HpmfwupgCalculateChecksum_def)

lemma checksum_checked [simp]: "HpmfwupgCalculateChecksum (checked r) = 0"
  by (simp add: checked_def checksum_append)

lemma length_checked [simp]: "length (checked r) = Suc (length r)"
  by (simp add: checked_def)

lemma length_le24 [simp]: "length (le24 n) = 3"
  by (simp add: le24_def le32_def)

lemma firmware_length_le24:
  assumes "n < 2 ^ 24"
  shows "firmware_length (le24 n) = n"
proof -
  define w where "w = (of_nat n :: u32)"
  have n: "unat w = n" using assms by (simp add: w_def unat_of_nat)
  have hi: "\<not> bit w i" if "24 \<le> i" for i
  proof -
    have "(2::nat) ^ 24 \<le> 2 ^ i" using that by (intro power_increasing) simp_all
    with assms have "n div 2 ^ i = 0" by simp
    then have "\<not> bit n i" by (simp add: bit_iff_odd)
    then show ?thesis by (simp add: w_def bit_of_nat_iff)
  qed
  have e: "firmware_length (le24 n) = unat (ucast (ucast w :: u8) OR (push_bit 8 (ucast (ucast (drop_bit 8 w) :: u8)) AND 0xff00)
      OR (push_bit 16 (ucast (ucast (drop_bit 16 w) :: u8)) AND 0xff0000) :: u32)"
    by (simp add: firmware_length_def le24_def le32_def w_def)
  have "(ucast (ucast w :: u8) OR (push_bit 8 (ucast (ucast (drop_bit 8 w) :: u8)) AND 0xff00)
      OR (push_bit 16 (ucast (ucast (drop_bit 16 w) :: u8)) AND 0xff0000) :: u32) = w"
  proof (rule bit_word_eqI)
    fix i
    assume "i < LENGTH(32)"
    have m1: "bit (0xff00 :: u32) i \<longleftrightarrow> 8 \<le> i \<and> i < 16"
    proof -
      have e: "(0xff00 :: u32) = push_bit 8 (mask 8)" by (simp add: mask_numeral)
      show ?thesis unfolding e using \<open>i < LENGTH(32)\<close> by (auto simp: bit_push_bit_iff bit_mask_iff)
    qed
    have m2: "bit (0xff0000 :: u32) i \<longleftrightarrow> 16 \<le> i \<and> i < 24"
    proof -
      have e: "(0xff0000 :: u32) = push_bit 16 (mask 8)" by (simp add: mask_numeral)
      show ?thesis unfolding e using \<open>i < LENGTH(32)\<close> by (auto simp: bit_push_bit_iff bit_mask_iff)
    qed
    show "bit (ucast (ucast w :: u8) OR (push_bit 8 (ucast (ucast (drop_bit 8 w) :: u8)) AND 0xff00)
      OR (push_bit 16 (ucast (ucast (drop_bit 16 w) :: u8)) AND 0xff0000) :: u32) i = bit w i"
      using \<open>i < LENGTH(32)\<close> hi [of i] m1 m2
      by (cases "24 \<le> i"; cases "16 \<le> i"; cases "8 \<le> i")
        (auto simp: bit_or_iff bit_and_iff bit_push_bit_iff bit_ucast_iff bit_drop_bit_eq)
  qed
  with e n show ?thesis by simp
qed

section \<open>Actions\<close>

fun action_ok :: "hpm_target \<Rightarrow> nat \<Rightarrow> hpm_action \<Rightarrow> bool" where
  "action_ok tg b0 (Prepare m) \<longleftrightarrow> (\<forall>i < 8. bit m i \<longrightarrow> bit (t_prop tg i) 4)"
| "action_ok tg b0 (Upload m v d f) \<longleftrightarrow>
     length v = 6 \<and> length d = 21 \<and> 0 \<in> set d \<and> length f < 2 ^ 24 \<and> block_fits b0 (min b0 (t_max tg)) (length f)"

fun event_of :: "hpm_action \<Rightarrow> hpm_event" where
  "event_of (Prepare m) = Prepared m"
| "event_of (Upload m v d f) = Installed m f"

definition same_ctx :: "upgrade_ctx \<Rightarrow> upgrade_ctx \<Rightarrow> bool" where
  "same_ctx c d \<longleftrightarrow> (\<exists>x. d = c\<lparr>u_genCompProp := x\<rparr>)"

lemma same_ctx_simps:
  assumes "same_ctx c d"
  shows "u_targetCap d = u_targetCap c" "u_imageData d = u_imageData c" "u_imageSize d = u_imageSize c" "u_devId d = u_devId c"
  using assms by (auto simp: same_ctx_def)

lemma same_ctx_refl [simp]: "same_ctx c c"
  by (auto simp: same_ctx_def intro: exI [of _ "u_genCompProp c"])

lemma same_ctx_trans: "same_ctx c d \<Longrightarrow> same_ctx d e \<Longrightarrow> same_ctx c e"
  by (auto simp: same_ctx_def)

lemma component_run:
  assumes "hpm_target_ok (n_sendrecv intf) tg view pending" "in_time tg s" "i < 8"
  obtains resp where "resp ! 1 = t_prop tg i" "gives view (HpmfwupgGetComponentProperties intf (of_nat i) 0) s (0, Some resp) (view (hp_bmc s))"
proof -
  obtain r b where r: "n_sendrecv intf (picmg HPMFWUPG_GET_COMPONENT_PROPERTIES [of_nat i, 0]) (hp_bmc s) = Inr (Some r, b)" "r_ccode r = 0"
    "take 2 (r_data r) = [0, t_prop tg i]" "view b = view (hp_bmc s)"
    using assms(1,3) unfolding hpm_target_ok_def by blast
  let ?t = "s\<lparr>hp_bmc := b, hp_ticks := Suc (hp_ticks s)\<rparr>"
  have t: "HpmfwupgSendCmd intf (picmg HPMFWUPG_GET_COMPONENT_PROPERTIES [of_nat i, 0]) None s = Inr (Some r, ?t)"
    by (rule send_answered [OF r(1) _ _ disjI1]) (use r(2) assms(2) in \<open>auto simp: in_time_def\<close>)
  have "gives view (HpmfwupgGetComponentProperties intf (of_nat i) 0) s (0, Some [0, t_prop tg i]) (view (hp_bmc s))"
    using t r(2-4)
    by (cases "hp_verbose s = 0") (auto simp: gives_def HpmfwupgGetComponentProperties_def component_property_def machine_simps notices_def hp_frame_def)
  then show ?thesis using that [of "[0, t_prop tg i]"] by simp
qed

lemma check_preparation_run:
  assumes "hpm_target_ok (n_sendrecv intf) tg view pending" "in_time tg s" "list_all (\<lambda>i. i < 8 \<and> (bit m i \<longrightarrow> bit (t_prop tg i) 4)) ids"
  obtains d where "same_ctx c d" "gives view (check_preparation intf m ids 0 c) s (0, d) (view (hp_bmc s))"
  using assms(2,3)
proof (induction ids arbitrary: s c thesis)
  case Nil
  then show ?case using Nil.prems(1) [of c] gives_mret [of "(0, c)" "(0, c)" view s] by simp
next
  case (Cons i ids)
  show ?case
  proof (cases "bit m i")
    case False
    obtain d where "same_ctx c d" "gives view (check_preparation intf m ids 0 c) s (0, d) (view (hp_bmc s))"
      using Cons.IH [OF _ Cons.prems(2), of c] Cons.prems(3) by auto
    then show ?thesis using Cons.prems(1) False by auto
  next
    case True
    then have i: "i < 8" "bit (t_prop tg i) 4" using Cons.prems(3) by auto
    obtain resp where resp: "resp ! 1 = t_prop tg i" "gives view (HpmfwupgGetComponentProperties intf (of_nat i) 0) s (0, Some resp) (view (hp_bmc s))"
      by (rule component_run [OF assms(1) Cons.prems(2) i(1)])
    then obtain t where t: "HpmfwupgGetComponentProperties intf (of_nat i) 0 s = Inr ((0, Some resp), t)" "hp_frame s t" "view (hp_bmc t) = view (hp_bmc s)"
      by (auto simp: gives_def)
    let ?c = "c\<lparr>u_genCompProp := Some (resp ! 1)\<rparr>"
    obtain d where d: "same_ctx ?c d" "gives view (check_preparation intf m ids 0 ?c) t (0, d) (view (hp_bmc t))"
      using Cons.IH [OF _ in_time_frame [OF t(2) Cons.prems(2)], of ?c] Cons.prems(3) by auto
    have "same_ctx c d" using d(1) by (auto simp: same_ctx_def)
    moreover have "gives view (check_preparation intf m (i # ids) 0 c) s (0, d) (view (hp_bmc s))"
      using d(2) t i(2) resp(1) True hp_frame_trans [OF t(2)] by (auto simp: gives_def machine_simps)
    ultimately show ?thesis by (rule Cons.prems(1))
  qed
qed

lemma drop_parts:
  assumes "drop p D = a @ b"
  shows "drop (p + length a) D = b" "bytes_at D p (length a) = a" "p + length a \<le> length D \<or> a = []"
proof -
  have "drop (p + length a) D = drop (length a) (drop p D)" by (simp add: add.commute)
  then show "drop (p + length a) D = b" by (simp add: assms)
  show "bytes_at D p (length a) = a" by (simp add: bytes_at_def assms)
  have "length D - p = length a + length b" using assms by (metis length_append length_drop)
  then show "p + length a \<le> length D \<or> a = []" by (cases "p \<le> length D") auto
qed

lemma upload_action_run:
  assumes "hpm_target_ok (n_sendrecv intf) tg view pending" "ctx_of tg (Some c)" "in_time tg s" "0 < t_max tg"
    and "drop p (u_imageData c) = v @ d @ le24 (length f) @ f @ rest" "16 \<le> length rest" "action_ok tg (unat (block_size intf)) (Upload m v d f)"
    and "length f + 33 < hp_turns s" "view (hp_bmc s) = \<lparr>v_done = e, v_part = [], v_next = 0\<rparr>"
  shows "gives view (upload_action intf c m p) s 0 \<lparr>v_done = e @ [Installed m f], v_part = [], v_next = 0\<rparr>"
proof -
  let ?D = "u_imageData c" and ?b = "block_size intf"
  let ?n = "min (unat ?b) (t_max tg)"
  have ok: "length v = 6" "length d = 21" "0 \<in> set d" "length f < 2 ^ 24" "block_fits (unat ?b) ?n (length f)" using assms(7) by simp_all
  have b: "0 < unat ?b" "unat ?b \<le> 32" by (simp_all add: block_size_def)
  have d6: "drop (p + 6) ?D = d @ le24 (length f) @ f @ rest" using drop_parts(1) [OF assms(5)] ok(1) by simp
  have d27: "drop (p + 27) ?D = le24 (length f) @ f @ rest" using drop_parts(1) [OF d6] ok(2) by (simp add: add.assoc)
  have d30: "drop (p + 30) ?D = f @ rest" using drop_parts(1) [OF d27] by (simp add: add.assoc)
  have len: "bytes_at ?D (p + 27) 3 = le24 (length f)" using drop_parts(2) [OF d27] by simp
  have f: "f = bytes_at ?D (p + 30) (length f)" using drop_parts(2) [OF d30] by simp
  have "length ?D - (p + 30) = length f + length rest" using d30 by (metis length_append length_drop)
  then have room: "p + 30 + length f + 16 \<le> length ?D" using assms(6) by (cases "p + 30 \<le> length ?D") auto
  have "0 \<in> set (drop (p + 6) ?D)" using ok(3) by (simp add: d6)
  then obtain ts where ts: "firmware_notes ?D p = Inr ts" using room by (simp add: firmware_notes_def)
  let ?s = "s\<lparr>hp_notes := hp_notes s @ map (take 1023) ts\<rparr>"
  have fr: "hp_frame s ?s" by (simp add: hp_frame_def)
  have at: "upload_at ?n (length f) 0 (unat ?b)" by (simp add: upload_at_def)
  have pre: "0 < ?n" "(length f - 0) + (unat ?b - ?n) < hp_turns s" "view (hp_bmc ?s) = \<lparr>v_done = e, v_part = take 0 f, v_next = 0\<rparr>"
    using b assms(4,8,9) by auto
  obtain x where "gives view (upload_loop (hp_turns s) intf c m (p + 30) (length f) 0 ?b 0 0) ?s 0 \<lparr>v_done = e, v_part = f, v_next = x\<rparr>"
    by (rule upload_loop_run [OF assms(1,2) ok(5) pre(1) refl b(2) f room in_time_frame [OF fr assms(3)] at order_refl pre(2,3)])
  then obtain t where t: "upload_loop (hp_turns s) intf c m (p + 30) (length f) 0 ?b 0 0 ?s = Inr (0, t)" "hp_frame ?s t"
    "view (hp_bmc t) = \<lparr>v_done = e, v_part = f, v_next = x\<rparr>" by (auto simp: gives_def)
  let ?t = "t\<lparr>hp_notes := hp_notes t @ [[]]\<rparr>"
  have frt: "hp_frame s ?t" using t(2) by (simp add: hp_frame_def)
  have "gives view (HpmfwupgFinishFirmwareUpload intf m (le24 (length f)) (Some c)) ?t 0 \<lparr>v_done = e @ [Installed m f], v_part = [], v_next = 0\<rparr>"
    using finish_run [OF assms(1) in_time_frame [OF frt assms(3)] assms(2), of m] t(3) by simp
  then obtain u where u: "HpmfwupgFinishFirmwareUpload intf m (le24 (length f)) (Some c) ?t = Inr (0, u)" "hp_frame ?t u"
    "view (hp_bmc u) = \<lparr>v_done = e @ [Installed m f], v_part = [], v_next = 0\<rparr>" by (auto simp: gives_def)
  have "upload_action intf c m p s = Inr (0, u)"
    using ts t(1) u(1) len firmware_length_le24 [OF ok(4)]
    by (simp add: upload_action_def machine_simps lift_fault_def notices_def notice_def)
  then show ?thesis using u(3) hp_frame_trans [OF frt u(2)] by (auto simp: gives_def)
qed

text \<open>One turn of the loop over the actions.\<close>

definition action_step :: "('s \<Rightarrow> hpm_view) \<Rightarrow> 's hpm_intf \<Rightarrow> nat \<Rightarrow> hpm_action \<Rightarrow> upgrade_ctx \<Rightarrow> nat \<Rightarrow> 's hpm \<Rightarrow> hpm_event list \<Rightarrow> upgrade_ctx \<Rightarrow> 's hpm \<Rightarrow> bool" where
  "action_step view intf lim a c p s e c' t \<longleftrightarrow>
     action_loop intf lim c p s = action_loop intf lim c' (p + length (action_bytes a)) t \<and> same_ctx c c' \<and> hp_frame s t
     \<and> view (hp_bmc t) = \<lparr>v_done = e @ [event_of a], v_part = [], v_next = 0\<rparr>"

lemma action_record:
  assumes "drop p D = checked [a, m] @ rest"
  shows "image_bytes D p 3 = Inr (checked [a, m])"
  using drop_parts(2,3) [OF assms] by (auto simp: image_bytes_def checked_def numeral_3_eq_3)

lemma prepare_step:
  assumes "hpm_target_ok (n_sendrecv intf) tg view pending" "ctx_of tg (Some c)" "in_time tg s"
    and "drop p (u_imageData c) = action_bytes (Prepare m) @ rest" "p < lim" "\<forall>i < 8. bit m i \<longrightarrow> bit (t_prop tg i) 4"
    and "view (hp_bmc s) = \<lparr>v_done = e, v_part = [], v_next = 0\<rparr>"
  obtains c' t where "action_step view intf lim (Prepare m) c p s e c' t"
proof -
  have D: "drop p (u_imageData c) = checked [1, m] @ rest" using assms(4) by simp
  have rec: "image_bytes (u_imageData c) p 3 = Inr (checked [1, m])"
    by (rule action_record [OF D])
  have r: "checked [1, m] ! 0 = 1" "checked [1, m] ! 1 = m" by (simp_all add: checked_def)
  obtain c' where c': "same_ctx c c'" "gives view (check_preparation intf m [0..<8] 0 c) s (0, c') (view (hp_bmc s))"
    by (rule check_preparation_run [OF assms(1,3), of m "[0..<8]"]) (use assms(6) in \<open>auto simp: list_all_iff\<close>)
  then obtain t where t: "check_preparation intf m [0..<8] 0 c s = Inr ((0, c'), t)" "hp_frame s t" "view (hp_bmc t) = view (hp_bmc s)" by (auto simp: gives_def)
  have "ctx_of tg (Some c')" using assms(2) same_ctx_simps [OF c'(1)] by (simp add: ctx_of_def)
  then obtain u where u: "HpmfwupgPrepareComponents intf m 0 (Some c') t = Inr (0, u)" "hp_frame t u"
    "view (hp_bmc u) = \<lparr>v_done = e @ [Prepared m], v_part = [], v_next = 0\<rparr>"
    using prepare_run [OF assms(1) in_time_frame [OF t(2) assms(3)], of "Some c'" m] t(3) assms(7) by (auto simp: gives_def)
  have "action_loop intf lim c p s = action_loop intf lim c' (p + 3) u"
    using rec r t(1) u(1) assms(5) by (subst action_loop.simps) (simp add: machine_simps lift_fault_def)
  then show ?thesis using that [of c' u] c'(1) u(3) hp_frame_trans [OF t(2) u(2)] by (simp add: action_step_def numeral_3_eq_3)
qed

lemma upload_action_step:
  assumes "hpm_target_ok (n_sendrecv intf) tg view pending" "ctx_of tg (Some c)" "in_time tg s" "0 < t_max tg"
    and "drop p (u_imageData c) = action_bytes (Upload m v d f) @ rest" "16 \<le> length rest" "action_ok tg (unat (block_size intf)) (Upload m v d f)"
    and "p < lim" "length f + 33 < hp_turns s" "view (hp_bmc s) = \<lparr>v_done = e, v_part = [], v_next = 0\<rparr>"
  obtains c' t where "action_step view intf lim (Upload m v d f) c p s e c' t"
proof -
  let ?D = "u_imageData c"
  have D: "drop p ?D = checked [2, m] @ v @ d @ le24 (length f) @ f @ rest" using assms(5) by simp
  have rec: "image_bytes ?D p 3 = Inr (checked [2, m])" by (rule action_record [OF D])
  have r: "checked [2, m] ! 0 = 2" "checked [2, m] ! 1 = m" by (simp_all add: checked_def)
  have D3: "drop (p + 3) ?D = v @ d @ le24 (length f) @ f @ rest" using drop_parts(1) [OF D] by (simp add: numeral_3_eq_3)
  have lx: "length v = 6" "length d = 21" "length f < 2 ^ 24" using assms(7) by simp_all
  have D9: "drop (p + 9) ?D = d @ le24 (length f) @ f @ rest" using drop_parts(1) [OF D3] lx by (simp add: add.assoc)
  have D30: "drop (p + 30) ?D = le24 (length f) @ f @ rest" using drop_parts(1) [OF D9] lx by (simp add: add.assoc)
  have len: "firmware_length (bytes_at ?D (p + 30) 3) = length f" using drop_parts(2) [OF D30] firmware_length_le24 [OF lx(3)] by simp
  have "gives view (upload_action intf c m (p + 3)) s 0 \<lparr>v_done = e @ [Installed m f], v_part = [], v_next = 0\<rparr>"
    by (rule upload_action_run [OF assms(1-4) D3 assms(6,7,9,10)])
  then obtain t where t: "upload_action intf c m (p + 3) s = Inr (0, t)" "hp_frame s t" "view (hp_bmc t) = \<lparr>v_done = e @ [Installed m f], v_part = [], v_next = 0\<rparr>"
    by (auto simp: gives_def)
  have "action_loop intf lim c p s = action_loop intf lim c (p + 33 + length f) t"
    using rec r t(1) len assms(8) by (subst action_loop.simps) (simp add: machine_simps lift_fault_def)
  moreover have "p + length (action_bytes (Upload m v d f)) = p + 33 + length f" using lx by simp
  ultimately have "action_step view intf lim (Upload m v d f) c p s e c t"
    using t(2,3) by (simp only: action_step_def same_ctx_refl event_of.simps simp_thms)
  then show ?thesis by (rule that)
qed

lemma action_bytes_nonempty: "0 < length (action_bytes a)"
  by (cases a) simp_all

lemma action_loop_run:
  assumes "hpm_target_ok (n_sendrecv intf) tg view pending" "0 < t_max tg"
    and "ctx_of tg (Some c)" "drop p (u_imageData c) = concat (map action_bytes as) @ dig" "length dig = 16"
    and "lim = p + length (concat (map action_bytes as))" "list_all (action_ok tg (unat (block_size intf))) as"
    and "in_time tg s" "length (u_imageData c) + 33 < hp_turns s" "view (hp_bmc s) = \<lparr>v_done = e, v_part = [], v_next = 0\<rparr>"
  obtains d where "same_ctx c d" "gives view (action_loop intf lim c p) s (0, d) \<lparr>v_done = e @ map event_of as, v_part = [], v_next = 0\<rparr>"
  using assms(3-)
proof (induction as arbitrary: p c s e thesis)
  case Nil
  then have "action_loop intf lim c p = mret (0, c)" by (subst action_loop.simps) simp
  then show ?case using Nil.prems(1) [of c] Nil.prems(9) by (simp add: gives_mret)
next
  case (Cons a as)
  let ?D = "u_imageData c" and ?rest = "concat (map action_bytes as) @ dig"
  have D: "drop p ?D = action_bytes a @ ?rest" using Cons.prems(3) by simp
  have lim: "lim = p + length (action_bytes a) + length (concat (map action_bytes as))" using Cons.prems(5) by simp
  then have p: "p < lim" using action_bytes_nonempty [of a] by simp
  have ok: "action_ok tg (unat (block_size intf)) a" "list_all (action_ok tg (unat (block_size intf))) as" using Cons.prems(6) by simp_all
  have inD: "p + length (action_bytes a) \<le> length ?D" using drop_parts(3) [OF D] action_bytes_nonempty [of a] by auto
  obtain c' t where "action_step view intf lim a c p s e c' t"
  proof (cases a)
    case (Prepare m)
    show ?thesis
      by (rule prepare_step [OF assms(1) Cons.prems(2,7) D [unfolded Prepare] p _ Cons.prems(9)]) (use that Prepare ok in auto)
  next
    case (Upload m v d f)
    have "16 \<le> length ?rest" "length f + 33 < hp_turns s" using Cons.prems(4,8) inD Upload by simp_all
    then show ?thesis
      using upload_action_step [OF assms(1) Cons.prems(2,7) assms(2) D [unfolded Upload] _ ok(1) [unfolded Upload] p _ Cons.prems(9)] that
      unfolding Upload by blast
  qed
  then have st: "action_loop intf lim c p s = action_loop intf lim c' (p + length (action_bytes a)) t" "same_ctx c c'" "hp_frame s t"
    "view (hp_bmc t) = \<lparr>v_done = e @ [event_of a], v_part = [], v_next = 0\<rparr>" by (simp_all add: action_step_def)
  have c': "ctx_of tg (Some c')" "drop (p + length (action_bytes a)) (u_imageData c') = ?rest" "length (u_imageData c') + 33 < hp_turns t"
    using Cons.prems(2,8) drop_parts(1) [OF D] same_ctx_simps [OF st(2)] st(3) by (simp_all add: ctx_of_def hp_frame_def)
  obtain d where d: "same_ctx c' d" "gives view (action_loop intf lim c' (p + length (action_bytes a))) t (0, d)
      \<lparr>v_done = (e @ [event_of a]) @ map event_of as, v_part = [], v_next = 0\<rparr>"
    by (rule Cons.IH [OF _ c'(1,2) Cons.prems(4) lim ok(2) in_time_frame [OF st(3) Cons.prems(7)] c'(3) st(4)])
  then show ?case
    using Cons.prems(1) [OF same_ctx_trans [OF st(2) d(1)]] st(1) hp_frame_trans [OF st(3)] by (auto simp: gives_def)
qed

section \<open>The stages\<close>

text \<open>A target fits an image: its ids, its buses and components, and a firmware that is not too old.\<close>

definition fits_target :: "bytes \<Rightarrow> hpm_target \<Rightarrow> bool" where
  "fits_target h tg \<longleftrightarrow>
     h ! 9 = t_devId tg ! 0 \<and> bytes_at h 13 2 = bytes_at (t_devId tg) 9 2 \<and> bytes_at h 10 3 = bytes_at (t_devId tg) 6 3
     \<and> bit (t_cap tg ! 1) 0 \<and> bit (t_cap tg ! 1) 1 \<and> h ! 20 AND t_cap tg ! 6 = h ! 20
     \<and> (h ! 27 < t_devId tg ! 2 \<or> h ! 27 = t_devId tg ! 2 \<and> h ! 28 \<le> t_devId tg ! 3)"

lemma identify_run:
  assumes "hpm_target_ok (n_sendrecv intf) tg view pending" "0 < hp_turns s"
  shows "gives view (HpmfwupgGetDeviceId intf) s (0, Some (t_devId tg)) (view (hp_bmc s))"
proof -
  obtain r b where r: "n_sendrecv intf (ipmi_request 0x06 0x01 []) (hp_bmc s) = Inr (Some r, b)" "r_ccode r = 0" "take 15 (r_data r) = t_devId tg" "view b = view (hp_bmc s)"
    using assms(1) unfolding hpm_target_ok_def by blast
  have "HpmfwupgSendCmd intf (ipmi_request 0x06 0x01 []) None s = Inr (Some r, s\<lparr>hp_bmc := b, hp_ticks := Suc (hp_ticks s)\<rparr>)"
    by (rule send_answered [OF r(1) _ assms(2) disjI1]) (use r(2) in auto)
  then show ?thesis using r(2-4) by (simp add: gives_def HpmfwupgGetDeviceId_def machine_simps ticked)
qed

lemma capabilities_run:
  assumes "hpm_target_ok (n_sendrecv intf) tg view pending" "0 < hp_turns s"
  shows "gives view (HpmfwupgGetTargetUpgCapabilities intf) s (0, Some (t_cap tg)) (view (hp_bmc s))"
proof -
  obtain r b where r: "n_sendrecv intf (picmg HPMFWUPG_GET_TARGET_UPG_CAPABILITIES []) (hp_bmc s) = Inr (Some r, b)" "r_ccode r = 0" "take 7 (r_data r) = t_cap tg"
    "view b = view (hp_bmc s)"
    using assms(1) unfolding hpm_target_ok_def by blast
  have "HpmfwupgSendCmd intf (picmg HPMFWUPG_GET_TARGET_UPG_CAPABILITIES []) None s = Inr (Some r, s\<lparr>hp_bmc := b, hp_ticks := Suc (hp_ticks s)\<rparr>)"
    by (rule send_answered [OF r(1) _ assms(2) disjI1]) (use r(2) in auto)
  then show ?thesis
    using r(2-4)
    by (cases "hp_verbose s = 0") (auto simp: gives_def HpmfwupgGetTargetUpgCapabilities_def machine_simps notices_def hp_frame_def)
qed

text \<open>The preparation accepts exactly the targets that fit.\<close>

lemma preparation_decides:
  assumes "hpm_target_ok (n_sendrecv intf) tg view pending" "0 < hp_turns s"
  shows "fits_target (u_imageData c) tg \<Longrightarrow>
      gives view (HpmfwupgPreparationStage intf c) s (0, c\<lparr>u_devId := Some (t_devId tg), u_targetCap := Some (t_cap tg)\<rparr>) (view (hp_bmc s))"
    and "\<not> fits_target (u_imageData c) tg \<Longrightarrow> \<exists>d. gives view (HpmfwupgPreparationStage intf c) s (- 1, d) (view (hp_bmc s))"
proof -
  obtain t where t: "HpmfwupgGetDeviceId intf s = Inr ((0, Some (t_devId tg)), t)" "hp_frame s t" "view (hp_bmc t) = view (hp_bmc s)"
    using identify_run [OF assms(1,2)] by (auto simp: gives_def)
  have "0 < hp_turns t" using assms(2) t(2) by (simp add: hp_frame_def)
  then obtain u where u: "HpmfwupgGetTargetUpgCapabilities intf t = Inr ((0, Some (t_cap tg)), u)" "hp_frame t u" "view (hp_bmc u) = view (hp_bmc t)"
    using capabilities_run [OF assms(1), of t] by (auto simp: gives_def)
  note fr = t(2) u(2) and defs = gives_def HpmfwupgPreparationStage_def machine_simps Let_def match_ids_def match_capabilities_def revision_ok_def fits_target_def
  show "gives view (HpmfwupgPreparationStage intf c) s (0, c\<lparr>u_devId := Some (t_devId tg), u_targetCap := Some (t_cap tg)\<rparr>) (view (hp_bmc s))" if "fits_target (u_imageData c) tg"
    using t u that hp_frame_trans [OF fr] by (auto simp: defs)
  show "\<exists>d. gives view (HpmfwupgPreparationStage intf c) s (- 1, d) (view (hp_bmc s))" if "\<not> fits_target (u_imageData c) tg"
    using t u that hp_frame_trans [OF fr] fr
    by (simp add: defs hpm_error_def notice_def notices_def) (auto simp: hp_frame_def)
qed

lemmas preparation_run = preparation_decides(1)

lemma image_parts:
  assumes "header_ok h oem" "length (hpm_image h oem as) < 2 ^ 31"
  defines "D \<equiv> hpm_image h oem as"
  shows "oemDataLength D = length oem" "take header_size D = h" "length D = header_size + length oem + 1 + length (concat (map action_bytes as)) + 16"
    and "drop (header_size + length oem + 1) D = concat (map action_bytes as) @ md5_reference (image_body h oem as)"
proof -
  have h: "length h = 37" "oemDataLength h = length oem" using assms(1) by (simp_all add: header_ok_def)
  have D: "D = h @ (oem @ [- HpmfwupgCalculateChecksum (h @ oem)] @ concat (map action_bytes as) @ md5_reference (image_body h oem as))"
    by (simp add: D_def hpm_image_def image_body_def checked_def)
  have "drop 35 h = [h ! 35, h ! 36]"
    using h(1) by (simp add: Cons_nth_drop_Suc [symmetric])
  then show "oemDataLength D = length oem" using h by (simp add: oemDataLength_def D of_le16_def nth_append)
  show "take 37 D = h" using h by (simp add: D)
  show "length D = 37 + length oem + 1 + length (concat (map action_bytes as)) + 16"
    using h by (simp add: D md5_reference_def md5_digest_of_def split: prod.splits)
  show "drop (37 + length oem + 1) D = concat (map action_bytes as) @ md5_reference (image_body h oem as)"
    using h by (simp add: D)
qed

lemma digest_of_body:
  assumes "length body + 16 < 2 ^ 31" "length dig = 16" "u_imageSize c = of_nat (length (body @ dig))" "u_imageData c = body @ dig"
  shows "image_digest c = md5_reference body" "unat (u_imageSize c - 16) = length body"
proof -
  have "unat (of_nat (length body + 16) :: u32) = length body + 16" using assms(1) by (subst unat_of_nat) simp
  then have z: "unat (u_imageSize c) = length body + 16" using assms(2,3) by (simp only: length_append)
  have "unat (u_imageSize c - 16) = unat (u_imageSize c) - unat (16 :: u32)"
    by (rule unat_sub) (simp add: word_le_nat_alt z)
  then show u: "unat (u_imageSize c - 16) = length body" using z by simp
  then have "uint (u_imageSize c - 16) = int (length body)" by (metis uint_nat)
  then have "nat (to_int32 (uint (u_imageSize c - 16))) = length body" using assms(1) by (simp add: to_int32_id)
  then show "image_digest c = md5_reference body"
    unfolding image_digest_def using md5_finish_repr [OF md5_append_repr [OF md5_init_repr]] by (simp add: assms(4))
qed

definition image_ctx :: "bytes \<Rightarrow> upgrade_ctx" where
  "image_ctx D = \<lparr>u_imageSize = of_nat (length D), u_imageData = D, u_targetCap = None, u_genCompProp = None, u_devId = None\<rparr>"

lemma validate_run:
  assumes "header_ok h oem" "length (hpm_image h oem as) < 2 ^ 31"
  shows "HpmfwupgValidateImageIntegrity (image_ctx (hpm_image h oem as)) s = Inr (0, s)"
proof -
  let ?D = "hpm_image h oem as" and ?B = "image_body h oem as"
  let ?c = "image_ctx ?D"
  note parts = image_parts [OF assms]
  have c: "u_imageData ?c = ?D" "u_imageSize ?c = of_nat (length ?D)" by (simp_all add: image_ctx_def)
  have D: "?D = ?B @ md5_reference ?B" by (simp add: hpm_image_def)
  have lB: "length ?B + 16 < 2 ^ 31" using assms(2) by (simp add: hpm_image_def)
  have dig: "image_digest ?c = md5_reference ?B" "unat (u_imageSize ?c - 16) = length ?B"
    using digest_of_body [OF lB length_md5_reference, of ?c ?B] c D by simp_all
  have sig: "image_bytes ?D (length ?B) 16 = Inr (md5_reference ?B)" by (simp add: image_bytes_def bytes_at_def D)
  have "take 8 (take 37 ?D) = take 8 h" "take 37 ?D ! 8 = h ! 8" using parts(2) by simp_all
  then have "take 8 ?D = take 8 h" "?D ! 8 = h ! 8" by simp_all
  with assms(1) have h: "map byte_char (take 8 ?D) = ''PICMGFWU''" "?D ! 8 = 0" by (simp_all add: header_ok_def)
  have len: "length h = 37" using assms(1) by (simp add: header_ok_def)
  have "take (37 + length oem + 1) ?D = checked (h @ oem)"
    using len by (simp add: hpm_image_def image_body_def)
  then have hdr: "image_bytes ?D 0 (37 + length oem + 1) = Inr (checked (h @ oem))" "\<exists>x. image_bytes ?D 35 2 = Inr x"
    using parts(3) by (simp_all add: image_bytes_def bytes_at_def)
  show ?thesis
    using dig sig h hdr parts(1) by (auto simp: HpmfwupgValidateImageIntegrity_def c Let_def machine_simps lift_fault_def)
qed

lemma fits_target_image:
  assumes "header_ok h oem" "length (hpm_image h oem as) < 2 ^ 31"
  shows "fits_target (hpm_image h oem as) tg \<longleftrightarrow> fits_target h tg"
proof -
  let ?D = "hpm_image h oem as"
  have T: "take 37 ?D = h" by (rule image_parts(2) [OF assms])
  have n: "?D ! i = h ! i" if "i < 37" for i using T that by (metis nth_take)
  have b: "bytes_at ?D i k = bytes_at h i k" if "i + k \<le> 37" for i k
  proof -
    have "bytes_at (take 37 ?D) i k = bytes_at ?D i k" using that by (simp add: bytes_at_def drop_take min.absorb1)
    then show ?thesis by (simp only: T)
  qed
  show ?thesis by (simp add: fits_target_def n b)
qed

lemma activate_run:
  assumes "hpm_target_ok (n_sendrecv intf) tg view pending" "in_time tg s" "ctx_of tg ctx"
  shows "gives view (HpmfwupgActivateFirmware intf ctx) s 0 ((view (hp_bmc s))\<lparr>v_done := v_done (view (hp_bmc s)) @ [Activated]\<rparr>)"
proof -
  obtain r b where r: "n_sendrecv intf (picmg HPMFWUPG_ACTIVATE_FIRMWARE []) (hp_bmc s) = Inr (Some r, b)" "taken tg pending r b"
    "view b = (view (hp_bmc s))\<lparr>v_done := v_done (view (hp_bmc s)) @ [Activated]\<rparr>"
    using assms(1) unfolding hpm_target_ok_def by blast
  have wait: "gives view (mbind (hpm_put x) (\<lambda>_. mbind (HpmfwupgWaitLongDurationCmd intf ctx) (\<lambda>rc. mbind (notice (y rc)) (\<lambda>_. mret rc)))) t 0 (view b)"
    if t: "hp_bmc t = b" "in_time tg t" and p: "pending b \<le> t_polls tg" for t x and y :: "int \<Rightarrow> string"
  proof -
    let ?u = "t\<lparr>hp_out := hp_out t @ x\<rparr>"
    have fr: "hp_frame t ?u" by (simp add: hp_frame_def)
    have "gives view (HpmfwupgWaitLongDurationCmd intf ctx) ?u 0 (view b)"
      using wait_run [OF assms(1) in_time_frame [OF fr t(2)] assms(3)] t(1) p by simp
    then have "gives view (mbind (HpmfwupgWaitLongDurationCmd intf ctx) (\<lambda>rc. mbind (notice (y rc)) (\<lambda>_. mret rc))) ?u 0 (view b)"
      by (rule gives_bind) (rule gives_bind [OF gives_output(2)], auto intro: gives_mret)
    then show ?thesis
      using hp_frame_trans [OF fr] by (auto simp: gives_def hpm_put_def machine_simps)
  qed
  show ?thesis
    unfolding HpmfwupgActivateFirmware_def r(3) [symmetric]
    by (rule taken_run [OF assms r(1,2)]) (use r(2) wait in \<open>auto simp: taken_def intro: gives_mret\<close>)
qed

lemma self_test_run:
  assumes "hpm_target_ok (n_sendrecv intf) tg view pending" "in_time tg s" "ctx_of tg (Some c)"
  shows "gives view (self_test intf c) s 0 (view (hp_bmc s))"
proof -
  let ?s = "s\<lparr>hp_ticks := Suc (Suc (hp_ticks s))\<rparr>" and ?req = "picmg HPMFWUPG_QUERY_SELFTEST_RESULT []"
  obtain r b where r: "n_sendrecv intf ?req (hp_bmc ?s) = Inr (Some r, b)" "r_ccode r = 0" "r_data r ! 1 = 0x55" "view b = view (hp_bmc ?s)"
    using assms(1) unfolding hpm_target_ok_def by blast
  obtain k where k: "hp_turns s = Suc k" using assms(2) by (cases "hp_turns s") (auto simp: in_time_def)
  have "HpmfwupgSendCmd intf ?req (Some c) ?s = Inr (Some r, ?s\<lparr>hp_bmc := b, hp_ticks := Suc (hp_ticks ?s)\<rparr>)"
    by (rule send_answered [OF r(1) _ _ disjI2 [OF assms(3)]]) (use r(2) k in auto)
  then have "poll intf ?req (Some c) x s = Inr (Some r, s\<lparr>hp_bmc := b, hp_ticks := Suc (Suc (Suc (Suc (hp_ticks s))))\<rparr>)" for x
    using r(2) k by (simp add: poll_def machine_simps hpm_time_def)
  then show ?thesis
    using r(2-4)
    by (cases "hp_verbose s = 0")
      (auto simp: gives_def self_test_def HpmfwupgQuerySelftestResult_def machine_simps notices_def hp_frame_def Let_def)
qed

lemma activation_run:
  assumes "hpm_target_ok (n_sendrecv intf) tg view pending" "in_time tg s" "ctx_of tg (Some c)" "view (hp_bmc s) = v"
  shows "gives view (HpmfwupgActivationStage intf c) s 0 (v\<lparr>v_done := v_done v @ [Activated]\<rparr>)"
  unfolding HpmfwupgActivationStage_def
proof (rule gives_bind [OF gives_output(1) [of view s v, OF assms(4)]])
  let ?w = "v\<lparr>v_done := v_done v @ [Activated]\<rparr>"
  fix t
  assume t: "hp_frame s t" "view (hp_bmc t) = v"
  obtain cap where cap: "u_targetCap c = Some cap" using assms(3) by (auto simp: ctx_of_def)
  have it: "in_time tg t" by (rule in_time_frame [OF t(1) assms(2)])
  have act: "gives view (HpmfwupgActivateFirmware intf (Some c)) t 0 ?w"
    using activate_run [OF assms(1) it assms(3)] t(2) by simp
  have test: "gives view (if (0::int) = 0 then mbind (cap_bit 2 c) (\<lambda>b. if b \<and> bit (u_imageData c ! 19) 7 then self_test intf c else mret 0) else mret 0) u 0 ?w"
    if "hp_frame t u" "view (hp_bmc u) = ?w" for u
    using self_test_run [OF assms(1) in_time_frame [OF that(1) it] assms(3)] that(2) gives_mret [of 0 0 view u ?w] cap
    by (auto simp: cap_bit_def gives_def machine_simps)
  show "gives view (mbind (HpmfwupgActivateFirmware intf (Some c)) (\<lambda>rc. mbind
      (if rc = 0 then mbind (cap_bit 2 c) (\<lambda>b. if b \<and> bit (u_imageData c ! 19) 7 then self_test intf c else mret rc) else mret rc) (\<lambda>rc.
      if rc = - 1 then mbind (auto_rollback c) (\<lambda>rollback. if rollback then mbind (notice ''    Getting rollback status...'') (\<lambda>_. HpmfwupgQueryRollbackStatus intf (Some c)) else mret rc)
      else mret rc))) t 0 ?w"
    by (rule gives_bind [OF act], rule gives_bind [OF test]) (auto intro: gives_mret)
qed

section \<open>The whole procedure\<close>

lemma stages_run:
  assumes "hpm_target_ok (n_sendrecv intf) tg view pending" "0 < t_max tg"
    and "header_ok h oem" "fits_target h tg" "list_all (action_ok tg (unat (block_size intf))) as"
    and "length (hpm_image h oem as) < 2 ^ 31" "in_time tg s" "length (hpm_image h oem as) + 33 < hp_turns s"
    and "view (hp_bmc s) = \<lparr>v_done = e, v_part = [], v_next = 0\<rparr>"
  defines "c \<equiv> (image_ctx (hpm_image h oem as))\<lparr>u_devId := Some (t_devId tg), u_targetCap := Some (t_cap tg)\<rparr>"
  shows "gives view (HpmfwupgPreparationStage intf (image_ctx (hpm_image h oem as))) s (0, c) (view (hp_bmc s))"
    and "\<And>t. hp_frame s t \<Longrightarrow> view (hp_bmc t) = view (hp_bmc s) \<Longrightarrow> \<exists>d. same_ctx c d \<and>
       gives view (HpmfwupgUpgradeStage intf c) t (0, d) \<lparr>v_done = e @ map event_of as, v_part = [], v_next = 0\<rparr>"
proof -
  let ?D = "hpm_image h oem as"
  note parts = image_parts [OF assms(3,6)]
  have c: "u_imageData c = ?D" "u_imageSize c = of_nat (length ?D)" "u_targetCap c = Some (t_cap tg)" by (simp_all add: c_def image_ctx_def)
  have fits: "fits_target (u_imageData (image_ctx ?D)) tg"
    using fits_target_image [OF assms(3,6)] assms(4) by (simp add: image_ctx_def)
  show "gives view (HpmfwupgPreparationStage intf (image_ctx ?D)) s (0, c) (view (hp_bmc s))"
    unfolding c_def by (rule preparation_run [OF assms(1) _ fits]) (use assms(8) in simp)
  have size: "unat (of_nat (length ?D) :: u32) - 16 = 37 + length oem + 1 + length (concat (map action_bytes as))"
    using assms(6) parts(3) by (subst unat_of_nat) simp
  show "\<exists>d. same_ctx c d \<and> gives view (HpmfwupgUpgradeStage intf c) t (0, d) \<lparr>v_done = e @ map event_of as, v_part = [], v_next = 0\<rparr>"
    if t: "hp_frame s t" "view (hp_bmc t) = view (hp_bmc s)" for t
  proof -
    have pre: "ctx_of tg (Some c)" "drop (37 + length oem + 1) (u_imageData c) = concat (map action_bytes as) @ md5_reference (image_body h oem as)"
      "length (u_imageData c) + 33 < hp_turns t" "view (hp_bmc t) = \<lparr>v_done = e, v_part = [], v_next = 0\<rparr>"
      using c parts(4) assms(8,9) t by (simp_all add: ctx_of_def hp_frame_def)
    obtain d where "same_ctx c d" "gives view (action_loop intf (37 + length oem + 1 + length (concat (map action_bytes as))) c (37 + length oem + 1)) t (0, d)
        \<lparr>v_done = e @ map event_of as, v_part = [], v_next = 0\<rparr>"
      by (rule action_loop_run [OF assms(1,2) pre(1,2) length_md5_reference refl assms(5) in_time_frame [OF t(1) assms(7)] pre(3,4)])
    then show ?thesis by (auto simp: HpmfwupgUpgradeStage_def c parts(1) size)
  qed
qed

text \<open>
  C7. An upgrade installs its image: for an image that is built from actions and a target that follows the specification and fits the image, the procedure succeeds,
  the target has received every action once and in order, each firmware byte for byte, and has been activated if that was asked for; the memory of the image is freed.
  The target may refuse long blocks and finish commands in the background. The last block of each firmware must not need more bytes than there are behind it.
\<close>

theorem hpm_upgrade_delivers_image:
  assumes "hpm_target_ok (n_sendrecv intf) tg view pending" "0 < t_max tg"
    and "header_ok h oem" "fits_target h tg" "list_all (action_ok tg (unat (block_size intf))) as"
    and "length (hpm_image h oem as) < 2 ^ 31" "files name = Some (hpm_image h oem as)"
    and "hp_malloc s" "in_time tg s" "length (hpm_image h oem as) + 33 < hp_turns s"
    and "view (hp_bmc s) = \<lparr>v_done = e, v_part = [], v_next = 0\<rparr>"
  shows "\<exists>t. HpmfwupgUpgrade intf files name activate s = Inr (0, t) \<and> hp_blocks t = hp_blocks s
    \<and> view (hp_bmc t) = \<lparr>v_done = e @ map event_of as @ (if activate then [Activated] else []), v_part = [], v_next = 0\<rparr>"
proof -
  let ?D = "hpm_image h oem as"
  let ?c = "(image_ctx ?D)\<lparr>u_devId := Some (t_devId tg), u_targetCap := Some (t_cap tg)\<rparr>"
  let ?v = "\<lparr>v_done = e @ map event_of as, v_part = [], v_next = 0\<rparr>"
  define s1 where "s1 = s\<lparr>hp_blocks := Suc (hp_blocks s), hp_out := hp_out s @ ''Validating firmware image integrity...'' @ ''OK'' @ [CHR 0x0A] @ ''Performing preparation stage...''\<rparr>"
  have s1: "in_time tg s1" "length ?D + 33 < hp_turns s1" "view (hp_bmc s1) = \<lparr>v_done = e, v_part = [], v_next = 0\<rparr>"
    using assms(9-11) by (simp_all add: s1_def in_time_def)
  note prep = stages_run(1) [OF assms(1-6) s1] and up = stages_run(2) [OF assms(1-6) s1]
  obtain t1 where t1: "HpmfwupgPreparationStage intf (image_ctx ?D) s1 = Inr ((0, ?c), t1)" "hp_frame s1 t1" "view (hp_bmc t1) = view (hp_bmc s1)"
    using prep by (auto simp: gives_def)
  define t2 where "t2 = t1\<lparr>hp_out := hp_out t1 @ ''OK'' @ [CHR 0x0A], hp_notes := hp_notes t1 @ map (take 1023) (target_notes (t_devId tg) @ [''Performing upgrade stage:''])\<rparr>"
  have t2: "hp_frame s1 t2" "view (hp_bmc t2) = view (hp_bmc s1)" using t1(2,3) by (simp_all add: t2_def hp_frame_def)
  obtain d where d: "same_ctx ?c d" "gives view (HpmfwupgUpgradeStage intf ?c) t2 (0, d) ?v" using up [OF t2] by blast
  obtain t3 where t3: "HpmfwupgUpgradeStage intf ?c t2 = Inr ((0, d), t3)" "hp_frame t2 t3" "view (hp_bmc t3) = ?v" using d(2) by (auto simp: gives_def)
  have fr3: "hp_frame s1 t3" by (rule hp_frame_trans [OF t2(1) t3(2)])
  let ?act = "if activate then mbind (notice ''Performing activation stage: '') (\<lambda>_. HpmfwupgActivationStage intf d) else mret 0"
  let ?w = "\<lparr>v_done = e @ map event_of as @ (if activate then [Activated] else []), v_part = [], v_next = 0\<rparr>"
  have cd: "ctx_of tg (Some d)" using same_ctx_simps [OF d(1)] by (simp add: ctx_of_def)
  have "gives view ?act t3 0 ?w"
  proof (cases activate)
    case True
    have "gives view (mbind (notice ''Performing activation stage: '') (\<lambda>_. HpmfwupgActivationStage intf d)) t3 0 (?v\<lparr>v_done := v_done ?v @ [Activated]\<rparr>)"
      by (rule gives_bind [OF gives_output(2) [of view t3 ?v, OF t3(3)]], rule activation_run [OF assms(1) _ cd])
        (use in_time_frame [OF hp_frame_trans [OF fr3] s1(1)] in auto)
    with True show ?thesis by simp
  next
    case False
    with t3(3) show ?thesis by (simp add: gives_mret)
  qed
  then obtain t4 where t4: "?act t3 = Inr (0, t4)" "hp_frame t3 t4" "view (hp_bmc t4) = ?w" by (auto simp: gives_def)
  have blocks: "hp_blocks t4 = Suc (hp_blocks s)" using hp_frame_trans [OF fr3 t4(2)] by (simp add: hp_frame_def s1_def)
  have size: "unat (of_nat (length ?D) :: u32) = length ?D" using assms(6) by (subst unat_of_nat) simp
  let ?u = "t4\<lparr>hp_notes := hp_notes t4 @ [take 1023 ([CHR 0x0A] @ ''Firmware upgrade procedure successful'' @ [CHR 0x0A])], hp_blocks := hp_blocks s\<rparr>"
  have buf: "HpmfwupgGetBufferFromFile files name s = Inr ((0, Some (image_ctx ?D)), s\<lparr>hp_blocks := Suc (hp_blocks s)\<rparr>)"
    using assms(7,8) size by (simp add: HpmfwupgGetBufferFromFile_def machine_simps Let_def image_ctx_def)
  have dev: "u_devId ?c = Some (t_devId tg)" by simp
  have "HpmfwupgUpgrade intf files name activate s = Inr (0, ?u)"
    using t1(1) t3(1) t4(1) blocks
    by (simp add: HpmfwupgUpgrade_def buf machine_simps hpm_put_def validate_run [OF assms(3,6)] s1_def notices_def notice_def hpm_free_def t2_def)
  then show ?thesis using t4(3) by (intro exI [of _ ?u]) simp
qed

text \<open>A target that takes at most 20 bytes in a block and answers a block before it has stored it.\<close>

definition demo_target :: hpm_target where
  "demo_target = \<lparr>t_devId = [0x12, 0, 3, 5, 0x51, 0, 0x98, 0x3a, 0, 0x34, 0x12, 0, 0, 0, 0], t_cap = [0, 0x03, 5, 5, 5, 5, 0x03],
     t_prop = (\<lambda>_. 0x10), t_max = 20, t_polls = 0\<rparr>"

definition demo_sendrecv :: "hpm_view transport" where
  "demo_sendrecv req v =
     (let d = rq_data req; cmd = rq_cmd req
      in if rq_netfn req = 6 then Inr (Some (answer 0 (t_devId demo_target)), v)
         else if cmd = 0x2e then Inr (Some (answer 0 (t_cap demo_target)), v)
         else if cmd = 0x2f then Inr (Some (answer 0 [0, 0x10]), v)
         else if cmd = 0x31 then Inr (Some (answer 0 [0]), \<lparr>v_done = v_done v @ [Prepared (d ! 1)], v_part = [], v_next = 0\<rparr>)
         else if cmd = 0x32 then
           if length d > 23 then Inr (Some (answer 0xc7 []), v)
           else Inr (Some (answer 0x80 []), v\<lparr>v_part := v_part v @ drop 3 d, v_next := v_next v + 1\<rparr>)
         else if cmd = 0x33 then Inr (Some (answer 0 [0]), \<lparr>v_done = v_done v @ [Installed (d ! 1) (v_part v)], v_part = [], v_next = 0\<rparr>)
         else if cmd = 0x34 then Inr (Some (answer 0 [0, 0, 0]), v)
         else if cmd = 0x35 then Inr (Some (answer 0 [0]), v\<lparr>v_done := v_done v @ [Activated]\<rparr>)
         else Inr (Some (answer 0 [0, 0x55, 0]), v))"

lemma demo_target_ok: "hpm_target_ok demo_sendrecv demo_target (\<lambda>v. v) (\<lambda>_. 0)"
  by (simp add: hpm_target_ok_def demo_sendrecv_def ipmi_request_def demo_target_def answer_def taken_def Let_def)

definition demo_intf :: "'s transport \<Rightarrow> 's hpm_intf" where
  "demo_intf sr = \<lparr>n_name = ''lan'', n_my_addr = 0x20, n_target_addr = 0x20, n_target_channel = 0, n_sendrecv = sr, n_reopen = mret ()\<rparr>"

definition demo_hpm :: "'s \<Rightarrow> 's hpm" where
  "demo_hpm b = \<lparr>hp_bmc = b, hp_verbose = 0, hp_errorCount = 0, hp_clock = (\<lambda>_. 0), hp_ticks = 0, hp_sleeps = [], hp_malloc = True, hp_blocks = 0,
     hp_percent = (\<lambda>_ _. []), hp_turns = 1000, hp_out = [], hp_notes = []\<rparr>"

definition demo_hpm_header :: bytes where
  "demo_hpm_header = [0x50, 0x49, 0x43, 0x4d, 0x47, 0x46, 0x57, 0x55, 0, 0x12, 0x98, 0x3a, 0, 0x34, 0x12, 0, 0, 0, 0, 0, 0x01,
     0, 0, 0, 0, 0, 0, 3, 5, 0, 0, 0, 0, 0, 0, 0, 0]"

definition demo_actions :: "hpm_action list" where
  "demo_actions = [Prepare 1, Upload 1 [4, 0, 0, 0, 0, 0] (replicate 21 0) (replicate 40 0xa5)]"

lemma demo_block_size: "block_size (demo_intf sr) = 26"
  by (simp add: block_size_def demo_intf_def strstr_def)

theorem hpm_upgrade_delivers_image_witness:
  "\<exists>t. HpmfwupgUpgrade (demo_intf demo_sendrecv) (\<lambda>_. Some (hpm_image demo_hpm_header [] demo_actions)) ''fw.hpm'' True
       (demo_hpm \<lparr>v_done = [], v_part = [], v_next = 0\<rparr>) = Inr (0, t) \<and> hp_blocks t = 0
     \<and> hp_bmc t = \<lparr>v_done = [Prepared 1, Installed 1 (replicate 40 0xa5), Activated], v_part = [], v_next = 0\<rparr>"
proof -
  have "map byte_char (take 8 demo_hpm_header) = ''PICMGFWU''" by code_simp
  then have h: "header_ok demo_hpm_header []" "fits_target demo_hpm_header demo_target"
    by (simp_all add: header_ok_def fits_target_def demo_hpm_header_def demo_target_def oemDataLength_def of_le16_def bytes_at_def)
  have a: "list_all (action_ok demo_target (unat (block_size (demo_intf demo_sendrecv)))) demo_actions"
  proof -
    have "bit (0x10 :: u8) 4" by simp
    moreover have "min 26 20 = (20 :: nat)" by simp
    ultimately show ?thesis by (simp add: demo_block_size demo_actions_def demo_target_def block_fits_def)
  qed
  have l: "length (hpm_image demo_hpm_header [] demo_actions) = 130"
    by (simp add: hpm_image_def image_body_def demo_hpm_header_def demo_actions_def)
  have t: "in_time demo_target (demo_hpm \<lparr>v_done = [], v_part = [], v_next = 0\<rparr>)"
    by (simp add: in_time_def demo_hpm_def demo_target_def)
  show ?thesis
    using hpm_upgrade_delivers_image [of "demo_intf demo_sendrecv" demo_target "\<lambda>v. v" "\<lambda>_. 0" demo_hpm_header "[]" demo_actions
        "\<lambda>_. Some (hpm_image demo_hpm_header [] demo_actions)" "''fw.hpm''" "demo_hpm \<lparr>v_done = [], v_part = [], v_next = 0\<rparr>" "[]" True]
      demo_target_ok h a l t
    by (simp add: demo_hpm_def demo_intf_def demo_target_def demo_actions_def)
qed

end
