(* ===== verification/Hpm_Faults.thy ===== *)
theory Hpm_Faults
  imports Hpm_Delivery
begin

text \<open>
  Where an upgrade stops: images and targets that are refused before anything is installed, and the situations that the agent does not stand.
\<close>

section \<open>Refused images and targets\<close>

definition valid_image :: "bytes \<Rightarrow> bool" where
  "valid_image f \<longleftrightarrow>
     md5_reference (take (length f - 16) f) = drop (length f - 16) f \<and> map byte_char (take 8 f) = ''PICMGFWU'' \<and> f ! 8 = 0
     \<and> HpmfwupgCalculateChecksum (take (header_size + oemDataLength f + 1) f) = 0"

lemma validate_decides:
  assumes "header_size + oemDataLength f + 1 \<le> length f" "length f < 2 ^ 31"
  obtains t where "HpmfwupgValidateImageIntegrity (image_ctx f) s = Inr (if valid_image f then 0 else - 1, t)" "hp_bmc t = hp_bmc s" "hp_blocks t = hp_blocks s"
proof -
  let ?b = "take (length f - 16) f" and ?d = "drop (length f - 16) f" and ?c = "image_ctx f"
  have l: "length ?b + 16 < 2 ^ 31" "length ?d = 16" "u_imageSize ?c = of_nat (length (?b @ ?d))" "u_imageData ?c = ?b @ ?d"
    using assms by (simp_all add: image_ctx_def)
  note dig = digest_of_body [OF l]
  have at: "unat (u_imageSize ?c - 16) = length f - 16" using dig(2) by simp
  have imb: "image_bytes f (length f - 16) 16 = Inr ?d" "\<exists>x. image_bytes f 35 2 = Inr x"
    "image_bytes f 0 (37 + oemDataLength f + 1) = Inr (take (37 + oemDataLength f + 1) f)"
    using assms(1) by (simp_all add: image_bytes_def bytes_at_def)
  have "\<exists>t. HpmfwupgValidateImageIntegrity ?c s = Inr (if valid_image f then 0 else - 1, t) \<and> hp_bmc t = hp_bmc s \<and> hp_blocks t = hp_blocks s"
    using imb unfolding HpmfwupgValidateImageIntegrity_def at dig(1)
    by (auto simp: image_ctx_def valid_image_def Let_def machine_simps lift_fault_def hpm_error_def notice_def)
  then show ?thesis using that by blast
qed

lemma buffer_run:
  assumes "files name = Some f" "hp_malloc s" "length f < 2 ^ 31"
  shows "HpmfwupgGetBufferFromFile files name s = Inr ((0, Some (image_ctx f)), s\<lparr>hp_blocks := Suc (hp_blocks s)\<rparr>)"
proof -
  have "unat (of_nat (length f) :: u32) = length f" using assms(3) by (subst unat_of_nat) simp
  with assms(1,2) show ?thesis by (simp add: HpmfwupgGetBufferFromFile_def machine_simps Let_def image_ctx_def)
qed

text \<open>
  C19. An image that is damaged (digest, signature, format version or checksum of the header) is refused: the upgrade fails before any request is sent, and the image
  is freed. The file holds at least the header, its OEM data and the checksum; what happens to shorter files is not said here.
\<close>

theorem hpm_damaged_image_is_refused:
  assumes "files name = Some f" "hp_malloc s" "header_size + oemDataLength f + 1 \<le> length f" "length f < 2 ^ 31" "\<not> valid_image f"
  shows "\<exists>t. HpmfwupgUpgrade intf files name activate s = Inr (- 1, t) \<and> hp_bmc t = hp_bmc s \<and> hp_blocks t = hp_blocks s"
proof -
  let ?s = "s\<lparr>hp_blocks := Suc (hp_blocks s), hp_out := hp_out s @ ''Validating firmware image integrity...''\<rparr>"
  obtain t where t: "HpmfwupgValidateImageIntegrity (image_ctx f) ?s = Inr (- 1, t)" "hp_bmc t = hp_bmc s" "hp_blocks t = Suc (hp_blocks s)"
    using validate_decides [OF assms(3,4), of ?s] assms(5) by auto
  then show ?thesis
    by (simp add: HpmfwupgUpgrade_def buffer_run [of files name f s, OF assms(1,2,4)] machine_simps hpm_put_def hpm_free_def upgrade_failed_def notice_def)
qed

theorem hpm_damaged_image_is_refused_witness:
  "\<exists>t. HpmfwupgUpgrade (demo_intf demo_sendrecv) (\<lambda>_. Some (replicate 60 0)) ''fw.hpm'' True
       (demo_hpm \<lparr>v_done = [], v_part = [], v_next = 0\<rparr>) = Inr (- 1, t) \<and> hp_bmc t = \<lparr>v_done = [], v_part = [], v_next = 0\<rparr> \<and> hp_blocks t = 0"
proof -
  have "replicate 60 (0::u8) = replicate 8 0 @ replicate 52 0" by (simp add: replicate_add [symmetric])
  then have "take 8 (replicate 60 (0::u8)) = replicate 8 0" by simp
  then have "\<not> valid_image (replicate 60 0)" by (simp add: valid_image_def byte_char_def numeral_eq_Suc)
  moreover have "oemDataLength (replicate 60 0) = 0" by (simp add: oemDataLength_def of_le16_def)
  ultimately show ?thesis
    using hpm_damaged_image_is_refused [of "\<lambda>_. Some (replicate 60 0)" "''fw.hpm''" "replicate 60 0" "demo_hpm \<lparr>v_done = [], v_part = [], v_next = 0\<rparr>" "demo_intf demo_sendrecv" True]
    by (simp add: demo_hpm_def)
qed

text \<open>
  C18. A target that does not fit the image is left alone: with another device, product or manufacturer id, without both buses or one of the components, or with a
  firmware older than the image can replace, the upgrade of a valid image fails, nothing has been prepared or installed, and the image is freed.
\<close>

theorem hpm_unfit_target_is_left_alone:
  assumes "hpm_target_ok (n_sendrecv intf) tg view pending" "header_ok h oem" "\<not> fits_target h tg"
    and "length (hpm_image h oem as) < 2 ^ 31" "files name = Some (hpm_image h oem as)" "hp_malloc s" "0 < hp_turns s"
  shows "\<exists>t. HpmfwupgUpgrade intf files name activate s = Inr (- 1, t) \<and> view (hp_bmc t) = view (hp_bmc s) \<and> hp_blocks t = hp_blocks s"
proof -
  let ?D = "hpm_image h oem as"
  define s1 where "s1 = s\<lparr>hp_blocks := Suc (hp_blocks s), hp_out := hp_out s @ ''Validating firmware image integrity...'' @ ''OK'' @ [CHR 0x0A] @ ''Performing preparation stage...''\<rparr>"
  have "0 < hp_turns s1" "\<not> fits_target (u_imageData (image_ctx ?D)) tg"
    using assms(3,7) fits_target_image [OF assms(2,4)] by (simp_all add: s1_def image_ctx_def)
  then obtain d t where t: "HpmfwupgPreparationStage intf (image_ctx ?D) s1 = Inr ((- 1, d), t)" "hp_frame s1 t" "view (hp_bmc t) = view (hp_bmc s1)"
    using preparation_decides(2) [OF assms(1), of s1 "image_ctx ?D"] by (auto simp: gives_def)
  have "hp_blocks t = Suc (hp_blocks s)" "hp_bmc s1 = hp_bmc s" using t(2) by (simp_all add: hp_frame_def s1_def)
  then show ?thesis
    using t(1,3)
    by (simp add: HpmfwupgUpgrade_def buffer_run [of files name ?D s, OF assms(5,6,4)] machine_simps hpm_put_def validate_run [OF assms(2,4)] s1_def hpm_free_def
        upgrade_failed_def notice_def)
qed

text \<open>The demonstration target with a firmware 3.4, which the image for 3.5 and later does not replace.\<close>

definition old_target :: hpm_target where
  "old_target = demo_target\<lparr>t_devId := (t_devId demo_target)[3 := 4]\<rparr>"

definition old_sendrecv :: "hpm_view transport" where
  "old_sendrecv req v = (if rq_netfn req = 6 then Inr (Some (answer 0 (t_devId old_target)), v) else demo_sendrecv req v)"

theorem hpm_unfit_target_is_left_alone_witness:
  "\<exists>t. HpmfwupgUpgrade (demo_intf old_sendrecv) (\<lambda>_. Some (hpm_image demo_hpm_header [] demo_actions)) ''fw.hpm'' True
       (demo_hpm \<lparr>v_done = [], v_part = [], v_next = 0\<rparr>) = Inr (- 1, t) \<and> hp_bmc t = \<lparr>v_done = [], v_part = [], v_next = 0\<rparr> \<and> hp_blocks t = 0"
proof -
  have tg: "hpm_target_ok (n_sendrecv (demo_intf old_sendrecv)) old_target (\<lambda>v. v) (\<lambda>_. 0)"
    by (simp add: hpm_target_ok_def demo_intf_def old_sendrecv_def demo_sendrecv_def ipmi_request_def old_target_def demo_target_def answer_def taken_def Let_def)
  have "map byte_char (take 8 demo_hpm_header) = ''PICMGFWU''" by code_simp
  then have h: "header_ok demo_hpm_header []" "\<not> fits_target demo_hpm_header old_target"
    by (simp_all add: header_ok_def fits_target_def demo_hpm_header_def old_target_def demo_target_def oemDataLength_def of_le16_def bytes_at_def)
  have l: "length (hpm_image demo_hpm_header [] demo_actions) < 2 ^ 31"
    by (simp add: hpm_image_def image_body_def demo_hpm_header_def demo_actions_def)
  show ?thesis
    using hpm_unfit_target_is_left_alone [OF tg h l, of "\<lambda>_. Some (hpm_image demo_hpm_header [] demo_actions)" "''fw.hpm''" "demo_hpm \<lparr>v_done = [], v_part = [], v_next = 0\<rparr>" True]
    by (simp add: demo_hpm_def)
qed

section \<open>A busy target\<close>

text \<open>A clock that does not run back and shows every second to at least two calls in a row.\<close>

definition calm_clock :: "(nat \<Rightarrow> u32) \<Rightarrow> bool" where
  "calm_clock clock \<longleftrightarrow> (\<forall>k. clock k \<le> clock (Suc k)) \<and> (\<forall>k. clock (Suc k) \<noteq> clock k \<longrightarrow> clock (Suc (Suc k)) = clock (Suc k))"

lemma busy_turns:
  assumes "\<forall>b. \<exists>r b'. n_sendrecv intf req b = Inr (Some r, b') \<and> r_ccode r = 0xc0" "calm_clock (hp_clock s)"
    and "hp_ticks s = Suc i" "t1 = hp_clock s i" "0 < ut"
  shows "send_retry k intf req it ut ic 0 t1 s = Inl NoReturn"
  using assms(2-4)
proof (induction k arbitrary: s t1 i)
  case 0
  then show ?case by (simp add: machine_simps)
next
  case (Suc k)
  obtain r b where r: "n_sendrecv intf req (hp_bmc s) = Inr (Some r, b)" "r_ccode r = 0xc0" using assms(1) by blast
  let ?u = "s\<lparr>hp_bmc := b, hp_ticks := Suc (hp_ticks s)\<rparr>" and ?v = "s\<lparr>hp_bmc := b, hp_ticks := Suc (Suc (hp_ticks s))\<rparr>"
  have mono: "t1 \<le> hp_clock s (Suc i)" and same: "hp_clock s (Suc i) \<noteq> t1 \<Longrightarrow> hp_clock s (Suc (Suc i)) = hp_clock s (Suc i)"
    using Suc.prems by (auto simp: calm_clock_def)
  have u: "send_retry k intf req it ut ic 0 (hp_clock s (Suc i)) ?u = Inl NoReturn"
    by (rule Suc.IH [of ?u "Suc i"]) (use Suc.prems in simp_all)
  have v: "send_retry k intf req it ut ic 0 (hp_clock s (Suc (Suc i))) ?v = Inl NoReturn"
    by (rule Suc.IH [of ?v "Suc (Suc i)"]) (use Suc.prems in simp_all)
  show ?case
  proof (cases "t1 < hp_clock s (Suc i)")
    case True
    then show ?thesis
      using r v same Suc.prems(2) assms(5) by (simp add: machine_simps on_bmc_def count_busy_def hpm_time_def)
  next
    case False
    then have "hp_clock s (Suc i) = t1" using mono by simp
    then show ?thesis using r u Suc.prems(2) assms(5) by (simp add: machine_simps on_bmc_def count_busy_def hpm_time_def)
  qed
qed

text \<open>
  C30. A target that stays busy is asked for ever: the time it has been busy is computed from a clock reading taken after the one it should be measured from, so the
  timeout of 60 seconds is never reached, whatever time passes, as long as the clock does not step between two calls in a row.
\<close>

theorem hpm_busy_target_is_asked_for_ever:
  assumes "\<forall>b. \<exists>r b'. n_sendrecv intf req b = Inr (Some r, b') \<and> r_ccode r = 0xc0" "calm_clock (hp_clock s)"
  shows "HpmfwupgSendCmd intf req None (s\<lparr>hp_turns := n\<rparr>) = Inl NoReturn"
proof -
  let ?s = "s\<lparr>hp_turns := n, hp_ticks := Suc (hp_ticks s)\<rparr>"
  have "send_retry n intf req 60 60 0 0 (hp_clock s (hp_ticks s)) ?s = Inl NoReturn"
    by (rule busy_turns [OF assms(1), of ?s "hp_ticks s"]) (use assms(2) in simp_all)
  then show ?thesis by (simp add: HpmfwupgSendCmd_def ctx_timeout_def machine_simps hpm_time_def)
qed

theorem hpm_busy_target_is_asked_for_ever_witness:
  "HpmfwupgSendCmd (demo_intf (\<lambda>_ b. Inr (Some (answer 0xc0 []), b))) (ipmi_request 0x06 0x01 [])
     None ((demo_hpm ())\<lparr>hp_clock := (\<lambda>k. if k < 900 then 0 else 3600), hp_turns := 1000\<rparr>) = Inl NoReturn"
  by (rule hpm_busy_target_is_asked_for_ever) (auto simp: demo_intf_def calm_clock_def answer_def)

section \<open>A target that does not come back\<close>

text \<open>
  Over a LAN a target that does not answer its status for longer than the inaccessibility timeout makes the agent sleep for about 136 years: the second
  pause is the timeout less the time passed, which is negative, as an unsigned number.
\<close>

theorem hpm_lost_target_sleeps_for_ever:
  assumes "strstr (n_name intf) ''lan''" "\<forall>b. \<exists>b'. n_sendrecv intf req b = Inr (None, b')" "\<forall>b. \<exists>b'. n_reopen intf b = Inr ((), b')"
    and "rq_netfn req = 0x2c" "rq_cmd req = HPMFWUPG_GET_UPGRADE_STATUS \<or> rq_cmd req = HPMFWUPG_QUERY_ROLLBACK_STATUS"
    and "hp_clock s (Suc (hp_ticks s)) = hp_clock s (hp_ticks s) + of_nat d" "unat (hp_clock s (hp_ticks s)) + d < 2 ^ 32" "60 < d" "d < 256" "1 < hp_turns s"
  shows "\<exists>t n. HpmfwupgSendCmd intf req None s = Inr (None, t) \<and> hp_sleeps t = hp_sleeps s @ [60, n] \<and> unat n = 2 ^ 32 + 60 - d"
proof -
  obtain k where k: "hp_turns s = Suc (Suc k)" using assms(10) by (cases "hp_turns s"; cases "hp_turns s - 1") auto
  obtain b1 where b1: "n_sendrecv intf req (hp_bmc s) = Inr (None, b1)" using assms(2) by blast
  obtain b2 where b2: "n_reopen intf b1 = Inr ((), b2)" using assms(3) by blast
  obtain b3 where b3: "n_sendrecv intf req b2 = Inr (None, b3)" using assms(2) by blast
  obtain b4 where b4: "n_reopen intf b3 = Inr ((), b4)" using assms(3) by blast
  let ?c = "hp_clock s (hp_ticks s)"
  have "unat (?c + of_nat d) = unat ?c + d" using assms(7) by (simp add: unat_word_ariths unat_of_nat)
  then have later: "?c < ?c + of_nat d" using assms(8) by (simp add: word_less_nat_alt)
  have d8: "unat (of_nat d :: u8) = d" using assms(9) by (simp add: unat_of_nat)
  then have full: "\<not> (of_nat d :: u8) < 60" using assms(8) by (simp add: word_less_nat_alt)
  have cnt: "ucast (?c + of_nat d - ?c) = (of_nat d :: u8)"
    by (rule word_unat_eq_iff [THEN iffD2]) (use d8 assms(9) in \<open>simp add: unsigned_ucast_eq unat_of_nat take_bit_eq_mod\<close>)
  have n: "unat (ucast (60 :: u8) - ucast (of_nat d :: u8) :: u32) = 2 ^ 32 + 60 - d"
  proof -
    have "unat (ucast (of_nat d :: u8) :: u32) = d" using d8 assms(9) by (simp add: unsigned_ucast_eq take_bit_eq_mod)
    then show ?thesis using assms(8,9) by (simp add: unat_sub_if_size size_word.rep_eq)
  qed
  show ?thesis
    using assms(1,4,5) k b1 b2 b3 b4 later full cnt assms(6) n
    by (auto simp: HpmfwupgSendCmd_def ctx_timeout_def machine_simps hpm_time_def on_bmc_def no_response_def hpm_sleep_def count_inaccess_def)
qed

theorem hpm_lost_target_sleeps_for_ever_witness:
  "\<exists>t n. HpmfwupgSendCmd (demo_intf (\<lambda>_ b. Inr (None, b))) (ipmi_request 0x2c HPMFWUPG_GET_UPGRADE_STATUS [0]) None
       ((demo_hpm ())\<lparr>hp_clock := (\<lambda>k. 100 * of_nat k)\<rparr>) = Inr (None, t) \<and> hp_sleeps t = [60, n] \<and> unat n = 4294967256"
  using hpm_lost_target_sleeps_for_ever [of "demo_intf (\<lambda>_ b. Inr (None, b))" "ipmi_request 0x2c HPMFWUPG_GET_UPGRADE_STATUS [0]"
      "(demo_hpm ())\<lparr>hp_clock := (\<lambda>k. 100 * of_nat k)\<rparr>" 100]
  by (simp add: demo_intf_def demo_hpm_def strstr_def ipmi_request_def machine_simps)

text \<open>The LAN interface as the agent uses it, with the forced new session of \<open>HpmfwupgSendCmd\<close>.\<close>

definition lan_reopen :: "(lan, unit) machine" where
  "lan_reopen =
     mbind (mod_intf (\<lambda>i. i\<lparr>i_opened := False\<rparr>)) (\<lambda>_.
     mbind (mod_session (\<lambda>x. x\<lparr>s_authtype := IPMI_SESSION_AUTHTYPE_NONE, s_session_id := 0, s_in_seq := 0, s_active := False\<rparr>)) (\<lambda>_.
     mbind (ipmi_lan_open send_cmd_opened) (\<lambda>_. mret ())))"

definition lan_hpm_intf :: "lan hpm_intf" where
  "lan_hpm_intf = \<lparr>n_name = ''lan'', n_my_addr = 0x20, n_target_addr = 0x20, n_target_channel = 0, n_sendrecv = ipmi_lan_send_cmd, n_reopen = lan_reopen\<rparr>"

lemma open_refused:
  assumes "lan_ok s" "\<not> i_opened (l_intf s)" "i_session (l_intf s) = Some x" "cstring (s_hostname x) \<noteq> []" "0 \<in> set (s_hostname x)"
    and "l_lookups s = []" "l_sockets s = []" "l_connects s = False # cs"
  obtains t where "ipmi_lan_open send_cmd_opened s = Inr (- 1, t)" "i_session (l_intf t) = None"
proof -
  let ?u = "s\<lparr>l_lookups := [], l_sockets := [], l_intf := (l_intf s)\<lparr>i_session := Some (lan_defaults x), i_abort := True, i_fd := 3\<rparr>, l_connects := cs\<rparr>"
  have "lan_ok ?u" using assms(1,3) lan_defaults_wf [of x] by (auto simp: lan_ok_def env_ok_def)
  then have "lan_at False 3 ?u" using assms(2) by (simp add: lan_at_def)
  then obtain t where t: "ipmi_lan_close send_cmd_opened ?u = Inr ((), t)" "closed t" using mspecD [OF lan_net.close_spec, of False 3 ?u] by auto
  have host: "s_hostname (lan_defaults x) = s_hostname x" by (simp add: lan_defaults_def Let_def)
  have "ipmi_lan_open send_cmd_opened s = Inr (- 1, t)"
    using assms(3-8) t(1) host
    by (simp add: ipmi_lan_open_def open_socket_def machine_simps mod_session_def get_session_def mod_intf_def script_step_def)
  then show ?thesis using that t(2) by (simp add: closed_def)
qed

text \<open>
  C29. Over the LAN interface asking for the status of a target that cannot be connected follows a null pointer: opening the session fails and frees it, and the
  code for a missing answer resets the fields of the freed session. A host name is set and ends in its array, it is found, a socket is made, and \<open>connect\<close> fails.
\<close>

theorem hpm_status_without_connection_faults:
  assumes "lan_ok (hp_bmc s)" "\<not> i_opened (l_intf (hp_bmc s))" "i_session (l_intf (hp_bmc s)) = Some x" "cstring (s_hostname x) \<noteq> []" "0 \<in> set (s_hostname x)"
    and "l_lookups (hp_bmc s) = []" "l_sockets (hp_bmc s) = []" "l_connects (hp_bmc s) = False # cs" "0 < hp_turns s"
  shows "HpmfwupgGetUpgradeStatus lan_hpm_intf resp None s = Inl NullPointer"
proof -
  obtain t where t: "ipmi_lan_open send_cmd_opened (hp_bmc s) = Inr (- 1, t)" "i_session (l_intf t) = None" by (rule open_refused [OF assms(1-8)])
  obtain k where k: "hp_turns s = Suc k" using assms(9) by (cases "hp_turns s") auto
  have send: "ipmi_lan_send_cmd req (hp_bmc s) = Inr (None, t)" for req
    using t(1) assms(2) by (simp add: ipmi_lan_send_cmd_def machine_simps)
  have re: "lan_reopen t = Inl NullPointer"
    using t(2) by (simp add: lan_reopen_def machine_simps mod_session_def get_session_def mod_intf_def)
  have "strstr ''lan'' ''lan''" by (simp add: strstr_def)
  then show ?thesis
    using k send re
    by (simp add: HpmfwupgGetUpgradeStatus_def HpmfwupgSendCmd_def ctx_timeout_def machine_simps hpm_time_def on_bmc_def lan_hpm_intf_def no_response_def
        ipmi_request_def hpm_sleep_def)
qed

definition refused_lan :: lan where
  "refused_lan = open_lan\<lparr>l_intf := (l_intf open_lan)\<lparr>i_opened := False, i_session := Some (zero_session\<lparr>s_hostname := 0x62 # replicate 63 0\<rparr>)\<rparr>, l_connects := [False]\<rparr>"

theorem hpm_status_without_connection_faults_witness:
  "HpmfwupgGetUpgradeStatus lan_hpm_intf None None (demo_hpm refused_lan) = Inl NullPointer"
proof -
  let ?x = "zero_session\<lparr>s_hostname := 0x62 # replicate 63 0\<rparr>"
  have x: "i_session (l_intf (hp_bmc (demo_hpm refused_lan))) = Some ?x" by (simp add: demo_hpm_def refused_lan_def)
  have "s_hostname ?x = 0x62 # replicate 63 0" by (simp add: zero_session_def)
  then have h: "cstring (s_hostname ?x) \<noteq> []" "0 \<in> set (s_hostname ?x)" by (simp_all add: cstring_def)
  have ok: "lan_ok (hp_bmc (demo_hpm refused_lan))"
    using open_lan_ok(1) [of "[]"] by (auto simp: lan_ok_def env_ok_def open_lan_def refused_lan_def demo_hpm_def zero_session_def session_wf_def)
  show ?thesis
    by (rule hpm_status_without_connection_faults [OF ok _ x h(1) h(2), of "[]"]) (simp_all add: demo_hpm_def refused_lan_def open_lan_def)
qed

section \<open>Blocks\<close>

text \<open>
  The length of a block has no lower bound: a target that refuses every length brings it to 0 and then, in 8 bits, to 255, and the next copy writes over the end of
  the block of 32 bytes.
\<close>

theorem hpm_block_length_underflows:
  assumes "\<forall>b m n d. \<exists>r b'. n_sendrecv intf (picmg HPMFWUPG_UPLOAD_FIRMWARE_BLOCK (m # n # d)) b = Inr (Some r, b') \<and> r_ccode r = 0xc7"
    and "u_targetCap c = Some cap" "0 < len" "start + unat bufLength \<le> length (u_imageData c)" "bufLength \<le> 32" "unat bufLength + 1 < k" "0 < hp_turns s"
  shows "upload_loop k intf c m start len 0 bufLength blk tot s = Inl BufferOverflow"
  using assms(4-)
proof (induction k arbitrary: bufLength tot s)
  case 0
  then show ?case by simp
next
  case (Suc k)
  let ?n = "unat (if unat bufLength \<le> len then bufLength else of_nat len)"
  let ?d = "bytes_at (u_imageData c) start ?n"
  obtain r b where r: "n_sendrecv intf (picmg HPMFWUPG_UPLOAD_FIRMWARE_BLOCK (m # blk # ?d)) (hp_bmc s) = Inr (Some r, b)" "r_ccode r = 0xc7"
    using assms(1) by blast
  let ?t = "s\<lparr>hp_bmc := b, hp_ticks := Suc (hp_ticks s)\<rparr>"
  obtain j where j: "hp_turns s = Suc j" using Suc.prems(4) by (cases "hp_turns s") auto
  have block: "HpmfwupgUploadFirmwareBlock intf m blk ?d (Some c) s = Inr (1, ?t)"
    using r assms(2) j by (simp add: HpmfwupgUploadFirmwareBlock_def HpmfwupgSendCmd_def ctx_timeout_def machine_simps hpm_time_def on_bmc_def)
  have step: "upload_loop (Suc k) intf c m start len 0 bufLength blk tot s
      = upload_loop k intf c m start len 0 (bufLength - 1) blk (tot + ucast (if unat bufLength \<le> len then bufLength else of_nat len)) ?t"
  proof -
    have b32: "\<not> 32 < bufLength" using Suc.prems(2) by simp
    show ?thesis using block Suc.prems(1) assms(3) b32 by (cases "unat bufLength \<le> len") (simp_all add: machine_simps Let_def)
  qed
  show ?case
  proof (cases "bufLength = 0")
    case True
    obtain k' where "k = Suc k'" using Suc.prems(3) True by (cases k) auto
    then show ?thesis unfolding step using True assms(3) by (simp add: machine_simps Let_def)
  next
    case False
    then have u: "unat (bufLength - 1) = unat bufLength - 1" by (simp add: unat_minus_one)
    moreover have "0 < unat bufLength" using False by (simp add: unat_gt_0)
    ultimately have "bufLength - 1 \<le> 32" using Suc.prems(2) by (simp add: word_le_nat_alt)
    then show ?thesis
      unfolding step by (intro Suc.IH) (use Suc.prems u \<open>0 < unat bufLength\<close> in auto)
  qed
qed

theorem hpm_block_length_underflows_witness:
  "upload_loop 30 (demo_intf (\<lambda>_ b. Inr (Some (answer 0xc7 []), b))) ((image_ctx (replicate 200 0))\<lparr>u_targetCap := Some (t_cap demo_target)\<rparr>) 1 71 100 0 26 0 0
     (demo_hpm ()) = Inl BufferOverflow"
  by (rule hpm_block_length_underflows) (simp_all add: demo_intf_def demo_hpm_def image_ctx_def answer_def)

text \<open>
  The copy for the last block reads behind the image: if the last block of the last firmware leaves more room than the digest fills, the agent reads over the end of
  the array, however well the target behaves.
\<close>

theorem hpm_last_block_reads_behind_image:
  assumes "hpm_target_ok (n_sendrecv intf) tg view pending" "ctx_of tg (Some c)" "in_time tg s"
    and "0 < unat b" "unat b \<le> 32" "unat b \<le> t_max tg"
    and "start + len + 16 = length (u_imageData c)" "0 < len mod unat b" "len mod unat b + 16 < unat b"
    and "unat b dvd pos" "pos < len" "len - pos < k" "blk = v_next (view (hp_bmc s))"
  shows "upload_loop k intf c m start len pos b blk tot s = Inl OutOfBounds"
  using assms(3,10-)
proof (induction k arbitrary: s pos blk tot)
  case 0
  then show ?case by simp
next
  case (Suc k)
  have b32: "\<not> 32 < b" using assms(5) by (simp add: word_less_nat_alt)
  show ?case
  proof (cases "len < pos + unat b")
    case True
    have "len mod unat b = len - pos" by (rule partial_block [OF Suc.prems(2,3) True])
    then have "\<not> pos + unat b \<le> len" "length (u_imageData c) < start + pos + unat b" using assms(7,9) Suc.prems(3) True by auto
    then show ?thesis using Suc.prems(3) b32 by (simp add: machine_simps Let_def)
  next
    case False
    let ?d = "bytes_at (u_imageData c) (start + pos) (unat b)"
    have "length ?d \<le> t_max tg" using assms(6) by (simp add: bytes_at_def)
    then obtain t where t: "HpmfwupgUploadFirmwareBlock intf m blk ?d (Some c) s = Inr (0, t)" "hp_frame s t" "v_next (view (hp_bmc t)) = blk + 1"
      using block_run [OF assms(1) Suc.prems(1) assms(2) Suc.prems(5), of ?d m] Suc.prems(5) by (auto simp: gives_def)
    define u where "u = t\<lparr>hp_out := hp_out t @ ''    Writing firmware: '' @ hp_percent t (tot + ucast b) (of_nat len) @ '' % completed'' @ [CHR 0x0D]\<rparr>"
    have u: "hp_frame s u" "blk + 1 = v_next (view (hp_bmc u))" using t(2,3) by (simp_all add: u_def hp_frame_def)
    have "pos + unat b \<noteq> len" using Suc.prems(2) assms(8) by auto
    then have pos: "unat b dvd pos + unat b" "pos + unat b < len" "len - (pos + unat b) < k" using False Suc.prems(2-4) assms(4) by auto
    have "upload_loop k intf c m start len (pos + unat b) b (blk + 1) (tot + ucast b) u = Inl OutOfBounds"
      by (rule Suc.IH [OF in_time_frame [OF u(1) Suc.prems(1)] pos u(2)])
    moreover have "start + pos + unat b \<le> length (u_imageData c)" using False assms(7) by simp
    ultimately show ?thesis
      using False Suc.prems(3) b32 t(1) by (simp add: machine_simps Let_def hpm_put_def u_def)
  qed
qed

theorem hpm_last_block_reads_behind_image_witness:
  "upload_loop 40 (demo_intf demo_sendrecv) ((image_ctx (replicate 100 0))\<lparr>u_targetCap := Some (t_cap demo_target)\<rparr>) 1 63 21 0 20 0 0
     (demo_hpm \<lparr>v_done = [], v_part = [], v_next = 0\<rparr>) = Inl OutOfBounds"
proof -
  have tg: "hpm_target_ok (n_sendrecv (demo_intf demo_sendrecv)) demo_target (\<lambda>v. v) (\<lambda>_. 0)" using demo_target_ok by (simp add: demo_intf_def)
  show ?thesis
    by (rule hpm_last_block_reads_behind_image [OF tg]) (simp_all add: demo_hpm_def demo_target_def image_ctx_def ctx_of_def in_time_def)
qed

end
