(* ===== verification/Tstat.thy ===== *)
theory Tstat
  imports Libc Complex_Main
begin

text \<open>
  \<open>turbostat\<close> (\<open>src/tstat/turbostat.c\<close>), which shows the frequency and the idle states of each CPU of the machine for every interval or for the run of
  a command, and \<open>src/tstat/dump_tstat.c\<close>, a copy of it that can also print the raw counters and exit.

  State. \<open>tstat\<close> has the global variables, the output and the number of blocks allocated. A linked list of \<open>struct counters\<close> is
  a list: no cell is in two lists. Flags that are only tested are of type \<open>bool\<close>; counters are 64-bit words. The program ends through
  \<open>exit\<close> in many places, so that an operation (\<open>prog\<close>) gives a value or the way the program ended, and the state in both cases.

  Environment. The record \<open>tenv\<close> has what the kernel and the processor answer, as functions of the number of calls so far, so that every sequence
  of answers is covered: the registers, \<open>/proc/stat\<close>, the files below \<open>/sys\<close>, the clock, \<open>calloc\<close>, the \<open>cpuid\<close> instruction, \<open>fork\<close>.

  Floating-point results are printed as exact quotients together with the format of the column; None is the quotient of a division by zero.
  Messages of \<open>perror\<close> are their argument. What \<open>getopt\<close> itself prints is left out.
\<close>

section \<open>State\<close>

record counters =
  c_tsc :: u64
  c_aperf :: u64
  c_mperf :: u64
  c_c1 :: u64
  c_c3 :: u64
  c_c6 :: u64
  c_c7 :: u64
  c_pc2 :: u64
  c_pc3 :: u64
  c_pc6 :: u64
  c_pc7 :: u64
  c_extra_msr :: u64
  c_pkg :: int
  c_core :: int
  c_cpu :: int

datatype msr_read = NoDevice | ShortRead int | Msr u64
datatype fork_result = ForkFails | ForkChild bool | ForkParent bool
datatype outp = Err string | ErrF string "rat option" | Std string | Perror string | Sleep u32
datatype halt = Exit int | Execs "string list" | Crash fault | DivByZero | Running

record tenv =
  t_msr :: "nat \<Rightarrow> int \<Rightarrow> u32 \<Rightarrow> msr_read"
  t_stat :: "nat \<Rightarrow> string option"
  t_file :: "nat \<Rightarrow> string \<Rightarrow> string option"
  t_clock :: "nat \<Rightarrow> int \<times> int"
  t_calloc :: "nat \<Rightarrow> bool"
  t_cpuid :: "u32 \<Rightarrow> u32 \<times> u32 \<times> u32 \<times> u32"
  t_dev_msr :: bool
  t_uid :: nat
  t_fork :: fork_result

record tstat =
  interval_sec :: u32
  verbose :: u32
  skip_c0 :: bool
  skip_c1 :: bool
  do_nhm_cstates :: bool
  do_snb_cstates :: bool
  has_aperf :: bool
  genuine_intel :: bool
  has_invariant_tsc :: bool
  do_nehalem_platform_info :: bool
  do_nehalem_turbo_ratio_limit :: bool
  extra_msr_offset :: u32
  bclk :: rat
  show_pkg :: bool
  show_core :: bool
  show_cpu :: bool
  aperf_mperf_unstable :: bool
  progname :: string
  need_reinitialize :: bool
  num_cpus :: int
  dump_n_exit :: bool
  cnt_even :: "counters list"
  cnt_odd :: "counters list"
  cnt_delta :: "counters list"
  cnt_average :: "counters option"
  tv_even :: "int \<times> int"
  tv_odd :: "int \<times> int"
  tv_delta :: "int \<times> int"
  ts_out :: "outp list"
  ts_live :: int
  ts_env :: tenv
  ts_reads :: nat
  ts_stats :: nat
  ts_files :: nat
  ts_clocks :: nat
  ts_callocs :: nat

text \<open>The variables as they are initialised.\<close>

definition tstat_start :: "tenv \<Rightarrow> tstat" where
  "tstat_start env = \<lparr>interval_sec = 5, verbose = 0, skip_c0 = False, skip_c1 = False, do_nhm_cstates = False, do_snb_cstates = False,
     has_aperf = False, genuine_intel = False, has_invariant_tsc = False, do_nehalem_platform_info = False,
     do_nehalem_turbo_ratio_limit = False, extra_msr_offset = 0, bclk = 0, show_pkg = False, show_core = False, show_cpu = False,
     aperf_mperf_unstable = False, progname = [], need_reinitialize = False, num_cpus = 0, dump_n_exit = False,
     cnt_even = [], cnt_odd = [], cnt_delta = [], cnt_average = None, tv_even = (0, 0), tv_odd = (0, 0), tv_delta = (0, 0),
     ts_out = [], ts_live = 0, ts_env = env, ts_reads = 0, ts_stats = 0, ts_files = 0, ts_clocks = 0, ts_callocs = 0\<rparr>"

type_synonym 'a prog = "tstat \<Rightarrow> (halt + 'a) \<times> tstat"

definition pret :: "'a \<Rightarrow> 'a prog" where "pret a s = (Inr a, s)"

definition pbind :: "'a prog \<Rightarrow> ('a \<Rightarrow> 'b prog) \<Rightarrow> 'b prog" where
  "pbind m f s = (case m s of (Inl h, t) \<Rightarrow> (Inl h, t) | (Inr a, t) \<Rightarrow> f a t)"

definition phalt :: "halt \<Rightarrow> 'a prog" where "phalt h s = (Inl h, s)"
definition pget :: "(tstat \<Rightarrow> 'a) \<Rightarrow> 'a prog" where "pget g s = (Inr (g s), s)"
definition pmod :: "(tstat \<Rightarrow> tstat) \<Rightarrow> unit prog" where "pmod g s = (Inr (), g s)"

definition emit :: "outp list \<Rightarrow> unit prog" where
  "emit xs = pmod (\<lambda>s. s\<lparr>ts_out := ts_out s @ xs\<rparr>)"

definition pwhen :: "bool \<Rightarrow> unit prog \<Rightarrow> unit prog" where
  "pwhen b m = (if b then m else pret ())"

named_theorems prog_simps \<open>unfolding a run of \<open>prog\<close>\<close>

lemma pret_run [prog_simps]: "pret a s = (Inr a, s)" by (simp add: pret_def)
lemma phalt_run [prog_simps]: "phalt h s = (Inl h, s)" by (simp add: phalt_def)
lemma pget_run [prog_simps]: "pget g s = (Inr (g s), s)" by (simp add: pget_def)
lemma pmod_run [prog_simps]: "pmod g s = (Inr (), g s)" by (simp add: pmod_def)
lemma emit_run [prog_simps]: "emit xs s = (Inr (), s\<lparr>ts_out := ts_out s @ xs\<rparr>)" by (simp add: emit_def prog_simps)
lemma pbind_run [prog_simps]: "pbind m f s = (case m s of (Inl h, t) \<Rightarrow> (Inl h, t) | (Inr a, t) \<Rightarrow> f a t)"
  by (simp add: pbind_def)
lemma pwhen_run [prog_simps]: "pwhen b m s = (if b then m s else (Inr (), s))" by (simp add: pwhen_def prog_simps)

section \<open>Formats\<close>

definition newline :: string where "newline = [CHR 0x0A]"

definition pad_left :: "nat \<Rightarrow> char \<Rightarrow> string \<Rightarrow> string" where
  "pad_left n c s = replicate (n - length s) c @ s"

definition upper :: "char \<Rightarrow> char" where
  "upper c = (let n = of_char c :: nat in if 97 \<le> n \<and> n \<le> 122 then char_of (n - 32) else c)"

definition llX :: "u64 \<Rightarrow> string" where "llX w = map upper (hex_nat (unat w))"
definition llX16 :: "u64 \<Rightarrow> string" where "llX16 w = pad_left 16 CHR ''0'' (llX w)"
definition llx16 :: "u64 \<Rightarrow> string" where "llx16 w = pad_left 16 CHR ''0'' (hex_nat (unat w))"
definition llu :: "u64 \<Rightarrow> string" where "llu w = dec_nat (unat w)"
definition lld :: "u64 \<Rightarrow> string" where "lld w = dec_int (sint w)"
definition hexu :: "u32 \<Rightarrow> string" where "hexu w = hex_nat (unat w)"

definition quot :: "rat option \<Rightarrow> rat \<Rightarrow> rat option" where
  "quot x y = (case x of None \<Rightarrow> None | Some v \<Rightarrow> if y = 0 then None else Some (v / y))"

definition u64_rat :: "u64 \<Rightarrow> rat" where "u64_rat w = of_int (uint w)"

section \<open>Registers\<close>

definition get_msr :: "int \<Rightarrow> u32 \<Rightarrow> u64 prog" where
  "get_msr cpu offset =
     pbind (pget (\<lambda>s. t_msr (ts_env s) (ts_reads s) cpu offset)) (\<lambda>r.
     pbind (pmod (\<lambda>s. s\<lparr>ts_reads := ts_reads s + 1\<rparr>)) (\<lambda>_.
     case r of
       NoDevice \<Rightarrow>
         pbind (emit [Perror (''/dev/cpu/'' @ dec_int cpu @ ''/msr'')]) (\<lambda>_.
         pbind (pmod (\<lambda>s. s\<lparr>need_reinitialize := True\<rparr>)) (\<lambda>_. pret 0))
     | ShortRead n \<Rightarrow>
         pbind (emit [Err (''cpu'' @ dec_int cpu @ '' pread(..., 0x'' @ hexu offset @ '') = '' @ dec_int n @ newline)]) (\<lambda>_. phalt (Exit (-2)))
     | Msr v \<Rightarrow> pret v))"

definition header_line :: "tstat \<Rightarrow> outp list" where
  "header_line s =
     map Err (concat
       [if show_pkg s then [''pk''] else [], if show_core s then ['' cr''] else [], if show_cpu s then ['' CPU''] else [],
        if do_nhm_cstates s then [''    %c0 ''] else [], if has_aperf s then ['' GHz''] else [], [''  TSC''],
        if do_nhm_cstates s then [''    %c1'', ''    %c3'', ''    %c6''] else [],
        if do_snb_cstates s then [''    %c7'', ''  %pc2''] else [],
        if do_nhm_cstates s then [''  %pc3'', ''  %pc6''] else [], if do_snb_cstates s then [''  %pc7''] else [],
        if extra_msr_offset s \<noteq> 0 then [''        MSR 0x'' @ hexu (extra_msr_offset s) @ '' ''] else [], [newline]])"

definition print_header :: "unit prog" where
  "print_header = pbind (pget header_line) emit"

definition dump_cnt :: "counters \<Rightarrow> unit prog" where
  "dump_cnt cnt =
     pbind (pget extra_msr_offset) (\<lambda>off.
     emit (map Err
       [''package: '' @ dec_int (c_pkg cnt) @ '' '', ''core:: '' @ dec_int (c_core cnt) @ '' '', ''CPU: '' @ dec_int (c_cpu cnt) @ '' '',
        ''TSC: '' @ llX16 (c_tsc cnt) @ '' ('' @ lld (c_tsc cnt) @ '')'' @ newline,
        ''c3: '' @ llX16 (c_c3 cnt) @ newline, ''c6: '' @ llX16 (c_c6 cnt) @ newline, ''c7: '' @ llX16 (c_c7 cnt) @ newline,
        ''aperf: '' @ llX16 (c_aperf cnt) @ newline,
        ''pc2: '' @ llX16 (c_pc2 cnt) @ newline, ''pc3: '' @ llX16 (c_pc3 cnt) @ newline, ''pc6: '' @ llX16 (c_pc6 cnt) @ newline, ''pc7: '' @ llX16 (c_pc7 cnt) @ newline,
        ''msr0x'' @ hexu off @ '': '' @ llX16 (c_extra_msr cnt) @ newline]))"

text \<open>The quotients of a line: a residency in per cent, the frequency in GHz.\<close>

definition percent :: "u64 \<Rightarrow> counters \<Rightarrow> rat option" where
  "percent v p = quot (Some (100 * u64_rat v)) (u64_rat (c_tsc p))"

definition units :: rat where "units = 1000000000"

definition interval_float :: "tstat \<Rightarrow> rat" where
  "interval_float s = of_int (fst (tv_delta s)) + of_int (snd (tv_delta s)) / 1000000"

definition ghz :: "tstat \<Rightarrow> counters \<Rightarrow> rat option" where
  "ghz s p = quot (quot (Some (u64_rat (c_tsc p) / units * u64_rat (c_aperf p))) (u64_rat (c_mperf p))) (interval_float s)"

text \<open>\<open>print_cnt\<close>; \<open>average\<close> tells whether \<open>p\<close> is \<open>cnt_average\<close>.\<close>

definition cnt_line :: "tstat \<Rightarrow> bool \<Rightarrow> counters \<Rightarrow> outp list" where
  "cnt_line s average p = concat
     [if average
      then map Err (concat [if show_pkg s then ['' ''] else [], if show_core s then [''    ''] else [], if show_cpu s then [''    ''] else []])
      else map Err (concat [if show_pkg s then [dec_int (c_pkg p)] else [], if show_core s then [pad_left 4 CHR '' '' (dec_int (c_core p))] else [],
                            if show_cpu s then [pad_left 4 CHR '' '' (dec_int (c_cpu p))] else []]),
      if do_nhm_cstates s then [if \<not> skip_c0 s then ErrF ''%7.2f'' (percent (c_mperf p) p) else Err ''   ****''] else [],
      if has_aperf s
      then [if \<not> aperf_mperf_unstable s then ErrF ''%5.2f'' (ghz s p)
            else if c_aperf p > c_tsc p \<or> c_mperf p > c_tsc p then Err '' ****''
            else ErrF ''%4.1f*'' (ghz s p)] else [],
      [ErrF ''%5.2f'' (quot (Some (u64_rat (c_tsc p) / units)) (interval_float s))],
      if do_nhm_cstates s
      then [if \<not> skip_c1 s then ErrF ''%7.2f'' (percent (c_c1 p) p) else Err ''  ****'',
            ErrF '' %6.2f'' (percent (c_c3 p) p), ErrF '' %6.2f'' (percent (c_c6 p) p)] else [],
      if do_snb_cstates s then [ErrF '' %6.2f'' (percent (c_c7 p) p), ErrF '' %5.2f'' (percent (c_pc2 p) p)] else [],
      if do_nhm_cstates s then [ErrF '' %5.2f'' (percent (c_pc3 p) p), ErrF '' %5.2f'' (percent (c_pc6 p) p)] else [],
      if do_snb_cstates s then [ErrF '' %5.2f'' (percent (c_pc7 p) p)] else [],
      if extra_msr_offset s \<noteq> 0 then [Err (''  0x'' @ llx16 (c_extra_msr p))] else [],
      [Err newline]]"

definition print_cnt :: "bool \<Rightarrow> counters \<Rightarrow> unit prog" where
  "print_cnt average p = pbind (pget (\<lambda>s. cnt_line s average p)) emit"

fun print_cnts :: "counters list \<Rightarrow> unit prog" where
  "print_cnts [] = pret ()"
| "print_cnts (c # cs) = pbind (print_cnt False c) (\<lambda>_. print_cnts cs)"

definition print_counters :: "counters list \<Rightarrow> unit prog" where
  "print_counters cs =
     pbind print_header (\<lambda>_.
     pbind (pget num_cpus) (\<lambda>n.
     pbind (if n > 1 then pbind (pget cnt_average) (\<lambda>a. case a of None \<Rightarrow> phalt (Crash NullPointer) | Some p \<Rightarrow> print_cnt True p) else pret ()) (\<lambda>_.
     print_cnts cs)))"

section \<open>Intervals\<close>

text \<open>\<open>SUBTRACT_COUNTER\<close> with the message of its callers: the difference, and whether the counter went backwards.\<close>

definition SUBTRACT_COUNTER :: "string \<Rightarrow> int \<Rightarrow> u64 \<Rightarrow> u64 \<Rightarrow> (u64 \<times> bool) prog" where
  "SUBTRACT_COUNTER label cpu after before =
     pbind (pwhen (before > after)
              (emit [Err (''cpu'' @ dec_int cpu @ '' '' @ label @ '' went backwards '' @ llX before @ '' to '' @ llX after @ newline)])) (\<lambda>_.
     pret (after - before, before > after))"

definition slow_tsc :: "outp list" where
  "slow_tsc =
     [Err (''Insanely slow TSC rate, TSC stops in idle?'' @ newline),
      Err (''You can disable all c-states by booting with '' @ [CHR 0x22] @ ''idle=poll'' @ [CHR 0x22] @ newline),
      Err (''or just the deep ones with '' @ [CHR 0x22] @ ''processor.max_cstate=1'' @ [CHR 0x22] @ newline)]"

text \<open>The C1 residency: the cycles of the interval that no other state accounts for.\<close>

definition derive_c1 :: "counters \<Rightarrow> u64" where
  "derive_c1 d = (if c_mperf d > c_tsc d then 0 else c_tsc d - c_mperf d - c_c3 d - c_c6 d - c_c7 d)"

definition perf_unstable :: "unit prog" where
  "perf_unstable =
     pbind (pget id) (\<lambda>s.
     pbind (pwhen (\<not> aperf_mperf_unstable s)
       (pbind (emit [Err (progname s @ '': APERF or MPERF went backwards *'' @ newline),
                     Err (''* Frequency results do not cover entire interval *'' @ newline),
                     Err (''* fix this by running Linux-2.6.30 or later *'' @ newline)]) (\<lambda>_.
        pmod (\<lambda>s. s\<lparr>aperf_mperf_unstable := True\<rparr>)))) (\<lambda>_.
     pmod (\<lambda>s. s\<lparr>skip_c0 := True, skip_c1 := True\<rparr>)))"

text \<open>One turn of the loop of \<open>compute_delta\<close>: the counters of a CPU before and after the interval, and the cell the differences are put into.\<close>

definition delta_cpu :: "counters \<Rightarrow> counters \<Rightarrow> counters \<Rightarrow> counters prog" where
  "delta_cpu after before delta =
     (let cpu = c_cpu before in
      pbind (SUBTRACT_COUNTER ''TSC'' cpu (c_tsc after) (c_tsc before)) (\<lambda>(tsc, e1).
      if tsc < 1000 * 1000 then pbind (emit slow_tsc) (\<lambda>_. phalt (Exit (-3)))
      else
        pbind (SUBTRACT_COUNTER ''c3 counter'' cpu (c_c3 after) (c_c3 before)) (\<lambda>(c3, e2).
        pbind (SUBTRACT_COUNTER ''c6 counter'' cpu (c_c6 after) (c_c6 before)) (\<lambda>(c6, e3).
        pbind (SUBTRACT_COUNTER ''c7 counter'' cpu (c_c7 after) (c_c7 before)) (\<lambda>(c7, e4).
        pbind (SUBTRACT_COUNTER ''pc2 counter'' cpu (c_pc2 after) (c_pc2 before)) (\<lambda>(pc2, e5).
        pbind (SUBTRACT_COUNTER ''pc3 counter'' cpu (c_pc3 after) (c_pc3 before)) (\<lambda>(pc3, e6).
        pbind (SUBTRACT_COUNTER ''pc6 counter'' cpu (c_pc6 after) (c_pc6 before)) (\<lambda>(pc6, e7).
        pbind (SUBTRACT_COUNTER ''pc7 counter'' cpu (c_pc7 after) (c_pc7 before)) (\<lambda>(pc7, e8).
        pbind (SUBTRACT_COUNTER ''aperf counter'' cpu (c_aperf after) (c_aperf before)) (\<lambda>(aperf, p1).
        let mperf = c_mperf after - c_mperf before; perf_err = (p1 \<or> c_mperf before > c_mperf after) in
        pbind (pwhen perf_err
          (emit [Err (''cpu'' @ dec_int cpu @ '' mperf counter went backwards '' @ llX (c_mperf before) @ '' to '' @ llX (c_mperf after) @ newline)])) (\<lambda>_.
        pbind (pwhen perf_err perf_unstable) (\<lambda>_.
        let d = delta\<lparr>c_tsc := tsc, c_c3 := c3, c_c6 := c6, c_c7 := c7, c_pc2 := pc2, c_pc3 := pc3, c_pc6 := pc6, c_pc7 := pc7,
                      c_aperf := aperf, c_mperf := mperf\<rparr>;
            d = d\<lparr>c_c1 := derive_c1 d\<rparr>;
            d = d\<lparr>c_mperf := (if c_mperf d = 0 then 1 else c_mperf d), c_extra_msr := c_extra_msr after\<rparr> in
        pbind (pwhen (e1 \<or> e2 \<or> e3 \<or> e4 \<or> e5 \<or> e6 \<or> e7 \<or> e8)
          (pbind (emit [Err (''ERROR cpu'' @ dec_int cpu @ '' before:'' @ newline)]) (\<lambda>_.
           pbind (dump_cnt before) (\<lambda>_.
           pbind (emit [Err (''ERROR cpu'' @ dec_int cpu @ '' after:'' @ newline)]) (\<lambda>_.
           dump_cnt after))))) (\<lambda>_.
        pret d)))))))))))))"

text \<open>The loop, on the cells of the three lists; the result has what it returns and the new cells of \<open>delta\<close>.\<close>

fun delta_loop :: "counters list \<Rightarrow> counters list \<Rightarrow> counters list \<Rightarrow> (int \<times> counters list) prog" where
  "delta_loop (a # as) (b # bs) (d # ds) =
     (if c_cpu b \<noteq> c_cpu a
      then pbind (emit [Std (''cpu configuration changed: '' @ dec_int (c_cpu b) @ '' != '' @ dec_int (c_cpu a) @ newline)]) (\<lambda>_. pret (-1, d # ds))
      else pbind (delta_cpu a b d) (\<lambda>d'. pbind (delta_loop as bs ds) (\<lambda>(r, ds'). pret (r, d' # ds'))))"
| "delta_loop as bs ds = pret (0, ds)"

definition compute_delta :: "counters list \<Rightarrow> counters list \<Rightarrow> int prog" where
  "compute_delta after before =
     pbind (pmod (\<lambda>s. s\<lparr>skip_c0 := False, skip_c1 := False\<rparr>)) (\<lambda>_.
     pbind (pget cnt_delta) (\<lambda>delta.
     pbind (delta_loop after before delta) (\<lambda>(r, ds).
     pbind (pmod (\<lambda>s. s\<lparr>cnt_delta := ds\<rparr>)) (\<lambda>_. pret r))))"

text \<open>\<open>calloc(1, sizeof(struct counters))\<close> and the message and \<open>exit\<close> of its callers; \<open>free\<close>.\<close>

definition zero_counters :: counters where
  "zero_counters = \<lparr>c_tsc = 0, c_aperf = 0, c_mperf = 0, c_c1 = 0, c_c3 = 0, c_c6 = 0, c_c7 = 0, c_pc2 = 0, c_pc3 = 0, c_pc6 = 0,
     c_pc7 = 0, c_extra_msr = 0, c_pkg = 0, c_core = 0, c_cpu = 0\<rparr>"

definition calloc_counters :: "string \<Rightarrow> counters prog" where
  "calloc_counters msg =
     pbind (pget (\<lambda>s. t_calloc (ts_env s) (ts_callocs s))) (\<lambda>ok.
     pbind (pmod (\<lambda>s. s\<lparr>ts_callocs := ts_callocs s + 1, ts_live := ts_live s + (if ok then 1 else 0)\<rparr>)) (\<lambda>_.
     if ok then pret zero_counters else pbind (emit [Perror msg]) (\<lambda>_. phalt (Exit 1))))"

definition add_counters :: "counters \<Rightarrow> counters \<Rightarrow> counters" where
  "add_counters acc d = acc\<lparr>c_tsc := c_tsc acc + c_tsc d, c_c1 := c_c1 acc + c_c1 d, c_c3 := c_c3 acc + c_c3 d, c_c6 := c_c6 acc + c_c6 d,
     c_c7 := c_c7 acc + c_c7 d, c_aperf := c_aperf acc + c_aperf d, c_mperf := c_mperf acc + c_mperf d, c_pc2 := c_pc2 acc + c_pc2 d,
     c_pc3 := c_pc3 acc + c_pc3 d, c_pc6 := c_pc6 acc + c_pc6 d, c_pc7 := c_pc7 acc + c_pc7 d\<rparr>"

definition divide_counters :: "u64 \<Rightarrow> counters \<Rightarrow> counters \<Rightarrow> counters" where
  "divide_counters n acc avg = avg\<lparr>c_tsc := c_tsc acc div n, c_c1 := c_c1 acc div n, c_c3 := c_c3 acc div n, c_c6 := c_c6 acc div n,
     c_c7 := c_c7 acc div n, c_aperf := c_aperf acc div n, c_mperf := c_mperf acc div n, c_pc2 := c_pc2 acc div n, c_pc3 := c_pc3 acc div n,
     c_pc6 := c_pc6 acc div n, c_pc7 := c_pc7 acc div n\<rparr>"

definition compute_average :: "counters list \<Rightarrow> unit prog" where
  "compute_average delta =
     pbind (calloc_counters ''calloc sum'') (\<lambda>acc.
     let acc = foldl add_counters acc delta in
     pbind (pget id) (\<lambda>s.
     if num_cpus s = 0 then phalt DivByZero
     else (case cnt_average s of
             None \<Rightarrow> phalt (Crash NullPointer)
           | Some avg \<Rightarrow> pmod (\<lambda>s. s\<lparr>cnt_average := Some (divide_counters (of_int (num_cpus s)) acc avg), ts_live := ts_live s - 1\<rparr>))))"

section \<open>Reading the counters\<close>

definition MSR_TSC :: u32 where "MSR_TSC = 0x10"
definition MSR_NEHALEM_PLATFORM_INFO :: u32 where "MSR_NEHALEM_PLATFORM_INFO = 0xCE"
definition MSR_NEHALEM_TURBO_RATIO_LIMIT :: u32 where "MSR_NEHALEM_TURBO_RATIO_LIMIT = 0x1AD"
definition MSR_APERF :: u32 where "MSR_APERF = 0xE8"
definition MSR_MPERF :: u32 where "MSR_MPERF = 0xE7"
definition MSR_PKG_C2_RESIDENCY :: u32 where "MSR_PKG_C2_RESIDENCY = 0x60D"
definition MSR_PKG_C3_RESIDENCY :: u32 where "MSR_PKG_C3_RESIDENCY = 0x3F8"
definition MSR_PKG_C6_RESIDENCY :: u32 where "MSR_PKG_C6_RESIDENCY = 0x3F9"
definition MSR_PKG_C7_RESIDENCY :: u32 where "MSR_PKG_C7_RESIDENCY = 0x3FA"
definition MSR_CORE_C3_RESIDENCY :: u32 where "MSR_CORE_C3_RESIDENCY = 0x3FC"
definition MSR_CORE_C6_RESIDENCY :: u32 where "MSR_CORE_C6_RESIDENCY = 0x3FD"
definition MSR_CORE_C7_RESIDENCY :: u32 where "MSR_CORE_C7_RESIDENCY = 0x3FE"

definition read_into :: "bool \<Rightarrow> u32 \<Rightarrow> (u64 \<Rightarrow> counters \<Rightarrow> counters) \<Rightarrow> counters \<Rightarrow> counters prog" where
  "read_into b offset put_in cnt = (if b then pbind (get_msr (c_cpu cnt) offset) (\<lambda>v. pret (put_in v cnt)) else pret cnt)"

definition read_cpu :: "counters \<Rightarrow> counters prog" where
  "read_cpu cnt =
     pbind (pget id) (\<lambda>s.
     pbind (read_into True MSR_TSC (\<lambda>v c. c\<lparr>c_tsc := v\<rparr>) cnt) (\<lambda>cnt.
     pbind (read_into (do_nhm_cstates s) MSR_CORE_C3_RESIDENCY (\<lambda>v c. c\<lparr>c_c3 := v\<rparr>) cnt) (\<lambda>cnt.
     pbind (read_into (do_nhm_cstates s) MSR_CORE_C6_RESIDENCY (\<lambda>v c. c\<lparr>c_c6 := v\<rparr>) cnt) (\<lambda>cnt.
     pbind (read_into (do_snb_cstates s) MSR_CORE_C7_RESIDENCY (\<lambda>v c. c\<lparr>c_c7 := v\<rparr>) cnt) (\<lambda>cnt.
     pbind (read_into (has_aperf s) MSR_APERF (\<lambda>v c. c\<lparr>c_aperf := v\<rparr>) cnt) (\<lambda>cnt.
     pbind (read_into (has_aperf s) MSR_MPERF (\<lambda>v c. c\<lparr>c_mperf := v\<rparr>) cnt) (\<lambda>cnt.
     pbind (read_into (do_snb_cstates s) MSR_PKG_C2_RESIDENCY (\<lambda>v c. c\<lparr>c_pc2 := v\<rparr>) cnt) (\<lambda>cnt.
     pbind (read_into (do_nhm_cstates s) MSR_PKG_C3_RESIDENCY (\<lambda>v c. c\<lparr>c_pc3 := v\<rparr>) cnt) (\<lambda>cnt.
     pbind (read_into (do_nhm_cstates s) MSR_PKG_C6_RESIDENCY (\<lambda>v c. c\<lparr>c_pc6 := v\<rparr>) cnt) (\<lambda>cnt.
     pbind (read_into (do_snb_cstates s) MSR_PKG_C7_RESIDENCY (\<lambda>v c. c\<lparr>c_pc7 := v\<rparr>) cnt) (\<lambda>cnt.
     read_into (extra_msr_offset s \<noteq> 0) (extra_msr_offset s) (\<lambda>v c. c\<lparr>c_extra_msr := v\<rparr>) cnt)))))))))))"

text \<open>\<open>get_counters\<close>: the cells of the list after it.\<close>

fun get_counters :: "counters list \<Rightarrow> counters list prog" where
  "get_counters [] = pret []"
| "get_counters (c # cs) = pbind (read_cpu c) (\<lambda>c'. pbind (get_counters cs) (\<lambda>cs'. pret (c' # cs')))"

definition gettimeofday :: "(int \<times> int) prog" where
  "gettimeofday =
     pbind (pget (\<lambda>s. t_clock (ts_env s) (ts_clocks s))) (\<lambda>tv.
     pbind (pmod (\<lambda>s. s\<lparr>ts_clocks := ts_clocks s + 1\<rparr>)) (\<lambda>_. pret tv))"

definition timersub :: "int \<times> int \<Rightarrow> int \<times> int \<Rightarrow> int \<times> int" where
  "timersub a b =
     (let sec = fst a - fst b; usec = snd a - snd b
      in if usec < 0 then (sec - 1, usec + 1000000) else (sec, usec))"

definition sample_even :: "unit prog" where
  "sample_even =
     pbind (pget cnt_even) (\<lambda>cs. pbind (get_counters cs) (\<lambda>cs. pbind (pmod (\<lambda>s. s\<lparr>cnt_even := cs\<rparr>)) (\<lambda>_.
     pbind gettimeofday (\<lambda>tv. pmod (\<lambda>s. s\<lparr>tv_even := tv\<rparr>)))))"

definition sample_odd :: "unit prog" where
  "sample_odd =
     pbind (pget cnt_odd) (\<lambda>cs. pbind (get_counters cs) (\<lambda>cs. pbind (pmod (\<lambda>s. s\<lparr>cnt_odd := cs\<rparr>)) (\<lambda>_.
     pbind gettimeofday (\<lambda>tv. pmod (\<lambda>s. s\<lparr>tv_odd := tv\<rparr>)))))"

definition mhz_line :: "u64 \<Rightarrow> nat \<Rightarrow> bool \<Rightarrow> string \<Rightarrow> rat \<Rightarrow> outp list" where
  "mhz_line msr shift always what clk =
     (let ratio = uint (drop_bit shift msr AND 0xFF)
      in if ratio = 0 \<and> \<not> always then []
         else [Err (dec_int ratio @ '' * ''), ErrF ''%.0f'' (Some clk), Err '' = '', ErrF ''%.0f'' (Some (of_int ratio * clk)),
               Err ('' MHz '' @ what @ newline)])"

definition print_nehalem_info :: "unit prog" where
  "print_nehalem_info =
     pbind (pget id) (\<lambda>s.
     if \<not> do_nehalem_platform_info s then pret ()
     else
       pbind (get_msr 0 MSR_NEHALEM_PLATFORM_INFO) (\<lambda>msr.
       pbind (emit (mhz_line msr 40 True ''max efficiency'' (bclk s) @ mhz_line msr 8 True ''TSC frequency'' (bclk s))) (\<lambda>_.
       pbind (pwhen (verbose s > 1) (emit [Err (''MSR_NEHALEM_PLATFORM_INFO: 0x'' @ hex_nat (unat msr) @ newline)])) (\<lambda>_.
       if \<not> do_nehalem_turbo_ratio_limit s then pret ()
       else
         pbind (get_msr 0 MSR_NEHALEM_TURBO_RATIO_LIMIT) (\<lambda>msr.
         emit (mhz_line msr 24 False ''max turbo 4 active cores'' (bclk s) @ mhz_line msr 16 False ''max turbo 3 active cores'' (bclk s) @
               mhz_line msr 8 False ''max turbo 2 active cores'' (bclk s) @ mhz_line msr 0 False ''max turbo 1 active cores'' (bclk s)))))))"

section \<open>Lists of counters\<close>

text \<open>\<open>free_counter_list\<close> on a list of \<open>n\<close> cells.\<close>

definition free_counter_list :: "nat \<Rightarrow> unit prog" where
  "free_counter_list n = pmod (\<lambda>s. s\<lparr>ts_live := ts_live s - int n\<rparr>)"

definition free_all_counters :: "unit prog" where
  "free_all_counters =
     pbind (pget id) (\<lambda>s.
     pbind (free_counter_list (length (cnt_even s))) (\<lambda>_.
     pbind (pmod (\<lambda>s. s\<lparr>cnt_even := []\<rparr>)) (\<lambda>_.
     pbind (free_counter_list (length (cnt_odd s))) (\<lambda>_.
     pbind (pmod (\<lambda>s. s\<lparr>cnt_odd := []\<rparr>)) (\<lambda>_.
     pbind (free_counter_list (length (cnt_delta s))) (\<lambda>_.
     pbind (pmod (\<lambda>s. s\<lparr>cnt_delta := []\<rparr>)) (\<lambda>_.
     pbind (free_counter_list (case cnt_average s of None \<Rightarrow> 0 | Some _ \<Rightarrow> 1)) (\<lambda>_.
     pmod (\<lambda>s. s\<lparr>cnt_average := None\<rparr>)))))))))"

text \<open>
  \<open>insert_counters\<close>: the list after it. \<open>prev\<close> starts at the first cell; each of the three loops moves it over the cells that
  its condition holds for.
\<close>

definition before_in_list :: "counters \<Rightarrow> counters \<Rightarrow> bool" where
  "before_in_list x new \<longleftrightarrow>
     c_pkg x > c_pkg new \<or> (c_pkg x = c_pkg new \<and> c_core x > c_core new) \<or>
     (c_pkg x = c_pkg new \<and> c_core x = c_core new \<and> c_cpu x > c_cpu new)"

definition insert_counters :: "counters list \<Rightarrow> counters \<Rightarrow> counters list prog" where
  "insert_counters xs new =
     (case xs of
        [] \<Rightarrow> pret [new]
      | x # rest \<Rightarrow>
          pbind (pmod (\<lambda>s. s\<lparr>show_cpu := True\<rparr>)) (\<lambda>_.
          if before_in_list x new then pret (new # xs)
          else
            let lower_pkg = (\<lambda>c. c_pkg c < c_pkg new);
                lower_core = (\<lambda>c. c_pkg c = c_pkg new \<and> c_core c < c_core new);
                lower_cpu = (\<lambda>c. c_pkg c = c_pkg new \<and> c_core c = c_core new \<and> c_cpu c < c_cpu new);
                pkgs = takeWhile lower_pkg rest; rest1 = dropWhile lower_pkg rest;
                cores = takeWhile lower_core rest1; rest2 = dropWhile lower_core rest1;
                cpus = takeWhile lower_cpu rest2; rest3 = dropWhile lower_cpu rest2 in
            pbind (pwhen (pkgs \<noteq> []) (pmod (\<lambda>s. s\<lparr>show_pkg := True\<rparr>))) (\<lambda>_.
            pbind (pwhen (cores \<noteq> []) (pmod (\<lambda>s. s\<lparr>show_core := True\<rparr>))) (\<lambda>_.
            pret (x # pkgs @ cores @ cpus @ new # rest3)))))"

definition new_counters :: "int \<Rightarrow> int \<Rightarrow> int \<Rightarrow> counters prog" where
  "new_counters pkg core cpu = pbind (calloc_counters ''calloc'') (\<lambda>c. pret (c\<lparr>c_pkg := pkg, c_core := core, c_cpu := cpu\<rparr>))"

definition alloc_new_counters :: "int \<Rightarrow> int \<Rightarrow> int \<Rightarrow> unit prog" where
  "alloc_new_counters pkg core cpu =
     pbind (pget verbose) (\<lambda>v.
     pbind (pwhen (v > 1) (emit [Std (''pkg'' @ dec_int pkg @ '' core'' @ dec_int core @ '', cpu'' @ dec_int cpu @ newline)])) (\<lambda>_.
     pbind (new_counters pkg core cpu) (\<lambda>new.
     pbind (pget cnt_odd) (\<lambda>xs. pbind (insert_counters xs new) (\<lambda>xs. pbind (pmod (\<lambda>s. s\<lparr>cnt_odd := xs\<rparr>)) (\<lambda>_.
     pbind (new_counters pkg core cpu) (\<lambda>new.
     pbind (pget cnt_even) (\<lambda>xs. pbind (insert_counters xs new) (\<lambda>xs. pbind (pmod (\<lambda>s. s\<lparr>cnt_even := xs\<rparr>)) (\<lambda>_.
     pbind (new_counters pkg core cpu) (\<lambda>new.
     pbind (pget cnt_delta) (\<lambda>xs. pbind (insert_counters xs new) (\<lambda>xs. pbind (pmod (\<lambda>s. s\<lparr>cnt_delta := xs\<rparr>)) (\<lambda>_.
     pbind (new_counters pkg core cpu) (\<lambda>new.
     pmod (\<lambda>s. s\<lparr>cnt_average := Some new\<rparr>))))))))))))))))"

section \<open>The topology of the machine\<close>

definition topology_path :: "int \<Rightarrow> string \<Rightarrow> string" where
  "topology_path cpu name = ''/sys/devices/system/cpu/cpu'' @ dec_int cpu @ ''/topology/'' @ name"

text \<open>
  The number in a topology file: \<open>sprintf\<close> puts the path into 64 characters without a check, and \<open>fscanf\<close> leaves the variable uninitialised if
  there is no number.
\<close>

definition read_topology :: "string \<Rightarrow> int \<Rightarrow> int prog" where
  "read_topology name cpu =
     (let path = topology_path cpu name in
      if length path \<ge> 64 then phalt (Crash BufferOverflow)
      else
        pbind (pget (\<lambda>s. t_file (ts_env s) (ts_files s) path)) (\<lambda>f.
        pbind (pmod (\<lambda>s. s\<lparr>ts_files := ts_files s + 1\<rparr>)) (\<lambda>_.
        case f of
          None \<Rightarrow> pbind (emit [Perror path]) (\<lambda>_. phalt (Exit 1))
        | Some content \<Rightarrow>
            (case fscanf [ConvD] [] content of
               (_, [v], _) \<Rightarrow> pret v
             | _ \<Rightarrow> phalt (Crash Uninitialised)))))"

definition get_physical_package_id :: "int \<Rightarrow> int prog" where
  "get_physical_package_id = read_topology ''physical_package_id''"

definition get_core_id :: "int \<Rightarrow> int prog" where
  "get_core_id = read_topology ''core_id''"

definition ten_numbers :: "scan_dir list" where
  "ten_numbers = concat (replicate 10 [Blank, SkipD]) @ [Blank]"

definition cpu_format :: "scan_dir list" where
  "cpu_format = [Lit CHR ''c'', Lit CHR ''p'', Lit CHR ''u'']"

text \<open>The CPU numbers that the loop of \<open>for_all_cpus\<close> scans from what is behind the first line.\<close>

lemma scan_digits_length: "length (snd (scan_digits b v s)) \<le> length s"
  by (induction b v s rule: scan_digits.induct) (auto split: option.splits)

lemma scan_base_length:
  "case scan_base b s of NumEnd \<Rightarrow> True | NumBad r \<Rightarrow> length r \<le> length s | Num neg v r \<Rightarrow> length r \<le> length s"
proof -
  define s0 where "s0 = dropWhile is_space s"
  define s1 where "s1 = (if chr_at s0 0 = CHR ''-'' \<or> chr_at s0 0 = CHR ''+'' then tl s0 else s0)"
  define hex where "hex = (b = 16 \<and> chr_at s1 0 = CHR ''0'' \<and> lower (chr_at s1 1) = CHR ''x'')"
  define s2 where "s2 = (if hex then drop 2 s1 else s1)"
  have "length s2 \<le> length s"
    using length_dropWhile_le [of is_space s] by (auto simp: s2_def s1_def s0_def)
  moreover have "length (snd (scan_digits b 0 s2)) \<le> length s2" by (rule scan_digits_length)
  moreover have "scan_base b s = (if s0 = [] then NumEnd else if \<not> hex \<and> digit_in b (chr_at s2 0) = None then NumBad s2
      else case scan_digits b 0 s2 of (v, r) \<Rightarrow> Num (chr_at s0 0 = CHR ''-'') v r)"
    by (simp only: scan_base_def Let_def s2_def hex_def s1_def s0_def)
  ultimately show ?thesis by (auto split: prod.splits)
qed

lemma scan_conv_length:
  "case scan_conv d s of NumEnd \<Rightarrow> True | NumBad r \<Rightarrow> length r \<le> length s | Num neg v r \<Rightarrow> length r \<le> length s"
proof (cases "d = ConvX2")
  case True
  then show ?thesis
    using scan_base_length [where b = 16 and s = "take 2 (dropWhile is_space s)"] length_dropWhile_le [of is_space s]
    by (auto simp: scan_conv_def Let_def split: scan_num.splits)
next
  case False
  then show ?thesis using scan_base_length by (simp add: scan_conv_def)
qed

lemma fscanf_length: "length (snd (snd (fscanf ds vs s))) \<le> length s"
proof (induction ds vs s rule: fscanf.induct)
  case (2 ds vs s)
  then show ?case using length_dropWhile_le [of is_space s] by simp
next
  case (3 c ds vs s)
  then show ?case by (auto split: list.splits)
qed (use scan_conv_length in \<open>fastforce simp del: scan_conv_simps split: scan_num.splits\<close>)+

lemma fscanf_cpu_less: "(1, ws, r) = fscanf (cpu_format @ ds) [] s \<Longrightarrow> length r < length s"
proof -
  assume a: "(1, ws, r) = fscanf (cpu_format @ ds) [] s"
  then obtain c t where s: "s = c # t" and "(1, ws, r) = fscanf (Lit CHR ''p'' # Lit CHR ''u'' # ds) [] t"
    by (auto simp: cpu_format_def simp del: fscanf.simps split: list.splits if_splits) (auto split: list.splits if_splits)
  then show ?thesis using fscanf_length [of "Lit CHR ''p'' # Lit CHR ''u'' # ds" "[]" t] by (metis le_imp_less_Suc length_Cons snd_conv)
qed

function scan_cpus :: "string \<Rightarrow> int list" where
  "scan_cpus s =
     (case fscanf (cpu_format @ ConvU # ten_numbers) [] s of
        (n, ws, r) \<Rightarrow> if n \<noteq> 1 then [] else to_int32 (hd ws) # scan_cpus r)"
  by pat_completeness auto
termination
  by (relation "measure length") (auto intro: fscanf_cpu_less)

fun visit_cpus :: "(int \<Rightarrow> int \<Rightarrow> int \<Rightarrow> unit prog) \<Rightarrow> int list \<Rightarrow> unit prog" where
  "visit_cpus func [] = pret ()"
| "visit_cpus func (cpu # cpus) =
     pbind (get_physical_package_id cpu) (\<lambda>pkg. pbind (get_core_id cpu) (\<lambda>core.
     pbind (func pkg core cpu) (\<lambda>_. visit_cpus func cpus)))"

definition for_all_cpus :: "(int \<Rightarrow> int \<Rightarrow> int \<Rightarrow> unit prog) \<Rightarrow> int prog" where
  "for_all_cpus func =
     pbind (pget (\<lambda>s. t_stat (ts_env s) (ts_stats s))) (\<lambda>f.
     pbind (pmod (\<lambda>s. s\<lparr>ts_stats := ts_stats s + 1\<rparr>)) (\<lambda>_.
     case f of
       None \<Rightarrow> pbind (emit [Perror ''/proc/stat'']) (\<lambda>_. phalt (Exit 1))
     | Some content \<Rightarrow>
         (case fscanf (cpu_format @ ten_numbers) [] content of (retval, _, rest) \<Rightarrow>
          if retval \<noteq> 0 then pbind (emit [Perror ''/proc/stat format'']) (\<lambda>_. phalt (Exit 1))
          else pbind (visit_cpus func (scan_cpus rest)) (\<lambda>_. pret (int (length (scan_cpus rest)))))))"

definition re_initialize :: "unit prog" where
  "re_initialize =
     pbind (emit [Std (''turbostat: topology changed, re-initializing.'' @ newline)]) (\<lambda>_.
     pbind free_all_counters (\<lambda>_.
     pbind (for_all_cpus alloc_new_counters) (\<lambda>n.
     pbind (pmod (\<lambda>s. s\<lparr>num_cpus := n, need_reinitialize := False\<rparr>)) (\<lambda>_.
     emit [Std (''num_cpus is now '' @ dec_int n @ newline)]))))"

definition dummy :: "int \<Rightarrow> int \<Rightarrow> int \<Rightarrow> unit prog" where
  "dummy pkg core cpu = pret ()"

definition verify_num_cpus :: "unit prog" where
  "verify_num_cpus =
     pbind (for_all_cpus dummy) (\<lambda>new_num_cpus.
     pbind (pget id) (\<lambda>s.
     pwhen (new_num_cpus \<noteq> num_cpus s)
       (pbind (pwhen (verbose s \<noteq> 0)
                 (emit [Std (''num_cpus was '' @ dec_int (num_cpus s) @ '', is now  '' @ dec_int new_num_cpus @ newline)])) (\<lambda>_.
        pmod (\<lambda>s. s\<lparr>need_reinitialize := True\<rparr>)))))"

section \<open>The program\<close>

text \<open>What \<open>turbostat_loop\<close> does after a sample: the differences to the sample before, their average, a table.\<close>

definition show_interval :: "counters list \<Rightarrow> counters list \<Rightarrow> int \<times> int \<Rightarrow> unit prog" where
  "show_interval after before tv =
     pbind (compute_delta after before) (\<lambda>_.
     pbind (pmod (\<lambda>s. s\<lparr>tv_delta := tv\<rparr>)) (\<lambda>_.
     pbind (pget cnt_delta) (\<lambda>d.
     pbind (compute_average d) (\<lambda>_. print_counters d))))"

definition show_odd :: "unit prog" where
  "show_odd = pbind (pget id) (\<lambda>s. show_interval (cnt_odd s) (cnt_even s) (timersub (tv_odd s) (tv_even s)))"

definition show_even :: "unit prog" where
  "show_even = pbind (pget id) (\<lambda>s. show_interval (cnt_even s) (cnt_odd s) (timersub (tv_even s) (tv_odd s)))"

definition sleep_interval :: "unit prog" where
  "sleep_interval = pbind (pget interval_sec) (\<lambda>n. emit [Sleep n])"

text \<open>A turn of the loop of \<open>turbostat_loop\<close>; it tells whether it ends with \<open>goto restart\<close>.\<close>

definition loop_turn :: "bool prog" where
  "loop_turn =
     pbind verify_num_cpus (\<lambda>_.
     pbind (pget need_reinitialize) (\<lambda>again.
     if again then pbind re_initialize (\<lambda>_. pret True)
     else
       pbind sleep_interval (\<lambda>_.
       pbind sample_odd (\<lambda>_.
       pbind show_odd (\<lambda>_.
       pbind (pget need_reinitialize) (\<lambda>again.
       if again then pbind re_initialize (\<lambda>_. pret True)
       else
         pbind sleep_interval (\<lambda>_.
         pbind sample_even (\<lambda>_.
         pbind show_even (\<lambda>_. pret False)))))))))"

primrec loop_turns :: "nat \<Rightarrow> unit prog" where
  "loop_turns 0 = phalt Running"
| "loop_turns (Suc n) =
     pbind loop_turn (\<lambda>restart. pbind (pwhen restart sample_even) (\<lambda>_. loop_turns n))"

definition turbostat_loop :: "nat \<Rightarrow> unit prog" where
  "turbostat_loop n = pbind sample_even (\<lambda>_. loop_turns n)"

definition check_dev_msr :: "unit prog" where
  "check_dev_msr =
     pbind (pget (\<lambda>s. t_dev_msr (ts_env s))) (\<lambda>there.
     pwhen (\<not> there)
       (pbind (emit [Err (''no /dev/cpu/0/msr'' @ newline), Err (''Try '' @ [CHR 0x22] @ ''# modprobe msr'' @ [CHR 0x22] @ newline)]) (\<lambda>_. phalt (Exit (-5)))))"

definition check_super_user :: "unit prog" where
  "check_super_user =
     pbind (pget (\<lambda>s. t_uid (ts_env s))) (\<lambda>uid.
     pwhen (uid \<noteq> 0) (pbind (emit [Err (''must be root'' @ newline)]) (\<lambda>_. phalt (Exit (-6)))))"

definition has_nehalem_turbo_ratio_limit :: "bool \<Rightarrow> u32 \<Rightarrow> u32 \<Rightarrow> bool" where
  "has_nehalem_turbo_ratio_limit intel family model \<longleftrightarrow>
     intel \<and> family = 6 \<and> model \<in> set [0x1A, 0x1E, 0x1F, 0x25, 0x2C, 0x2A, 0x2D]"

definition is_snb :: "bool \<Rightarrow> u32 \<Rightarrow> u32 \<Rightarrow> bool" where
  "is_snb intel family model \<longleftrightarrow> intel \<and> (model = 0x2A \<or> model = 0x2D)"

definition discover_bclk :: "bool \<Rightarrow> u32 \<Rightarrow> u32 \<Rightarrow> rat" where
  "discover_bclk intel family model = (if is_snb intel family model then 100 else 13333 / 100)"

definition cpu_family :: "u32 \<Rightarrow> u32" where "cpu_family fms = drop_bit 8 fms AND 0xf"

definition cpu_model :: "u32 \<Rightarrow> u32" where
  "cpu_model fms =
     (drop_bit 4 fms AND 0xf) + (if cpu_family fms = 6 \<or> cpu_family fms = 0xf then push_bit 4 (drop_bit 16 fms AND 0xf) else 0)"

text \<open>\<open>%.4s\<close> of the four bytes of a register.\<close>

definition reg_chars :: "u32 \<Rightarrow> string" where
  "reg_chars w = cstr (map (\<lambda>b. char_of (unat b)) (le32 w))"

definition check_cpuid :: "unit prog" where
  "check_cpuid =
     pbind (pget (\<lambda>s. t_cpuid (ts_env s))) (\<lambda>cpuid.
     case cpuid 0 of (max_level, ebx, ecx, edx) \<Rightarrow>
     pbind (pwhen (ebx = 0x756e6547 \<and> edx = 0x49656e69 \<and> ecx = 0x6c65746e) (pmod (\<lambda>s. s\<lparr>genuine_intel := True\<rparr>))) (\<lambda>_.
     pbind (pget id) (\<lambda>s.
     pbind (pwhen (verbose s \<noteq> 0) (emit [Err (reg_chars ebx @ reg_chars edx @ reg_chars ecx @ '' '')])) (\<lambda>_.
     case cpuid 1 of (fms, _, ecx, edx) \<Rightarrow>
     let family = cpu_family fms; model = cpu_model fms; stepping = fms AND 0xf; intel = genuine_intel s in
     pbind (pwhen (verbose s \<noteq> 0)
       (emit [Err (dec_int (sint max_level) @ '' CPUID levels; family:model:stepping 0x'' @ hexu family @ '':'' @ hexu model @ '':'' @ hexu stepping @
                   '' ('' @ dec_int (sint family) @ '':'' @ dec_int (sint model) @ '':'' @ dec_int (sint stepping) @ '')'' @ newline)])) (\<lambda>_.
     if \<not> bit edx 5 then pbind (emit [Err (''CPUID: no MSR'' @ newline)]) (\<lambda>_. phalt (Exit 1))
     else case cpuid 0x80000000 of (max_level, _, _, _) \<Rightarrow>
     if max_level < 0x80000007 then
       pbind (emit [Err (''CPUID: no invariant TSC (max_level 0x'' @ hexu max_level @ '')'' @ newline)]) (\<lambda>_. phalt (Exit 1))
     else case cpuid 0x80000007 of (_, _, _, edx) \<Rightarrow>
     pbind (pmod (\<lambda>s. s\<lparr>has_invariant_tsc := bit edx 8\<rparr>)) (\<lambda>_.
     if \<not> bit edx 8 then pbind (emit [Err (''No invariant TSC'' @ newline)]) (\<lambda>_. phalt (Exit 1))
     else case cpuid 6 of (_, _, ecx, _) \<Rightarrow>
     pbind (pmod (\<lambda>s. s\<lparr>has_aperf := bit ecx 0\<rparr>)) (\<lambda>_.
     if \<not> bit ecx 0 then pbind (emit [Err (''No APERF MSR'' @ newline)]) (\<lambda>_. phalt (Exit 1))
     else
       pmod (\<lambda>s. s\<lparr>do_nehalem_platform_info := intel, do_nhm_cstates := intel, do_snb_cstates := is_snb intel family model,
                    bclk := discover_bclk intel family model,
                    do_nehalem_turbo_ratio_limit := has_nehalem_turbo_ratio_limit intel family model\<rparr>))))))))"

definition usage :: "'a prog" where
  "usage =
     pbind (pget progname) (\<lambda>p.
     pbind (emit [Err (p @ '': [-v] [-M MSR#] [-i interval_sec | command ...]'' @ newline)]) (\<lambda>_. phalt (Exit 1)))"

definition turbostat_init :: "unit prog" where
  "turbostat_init =
     pbind check_cpuid (\<lambda>_.
     pbind check_dev_msr (\<lambda>_.
     pbind check_super_user (\<lambda>_.
     pbind (for_all_cpus alloc_new_counters) (\<lambda>n.
     pbind (pmod (\<lambda>s. s\<lparr>num_cpus := n\<rparr>)) (\<lambda>_.
     pbind (pget verbose) (\<lambda>v. pwhen (v \<noteq> 0) print_nehalem_info))))))"

text \<open>\<open>fork_it\<close> behind the \<open>fork\<close>: what both the parent and a child whose \<open>execvp\<close> has failed do.\<close>

definition report_interval :: "int prog" where
  "report_interval =
     pbind sample_odd (\<lambda>_.
     pbind (pget id) (\<lambda>s.
     pbind (compute_delta (cnt_odd s) (cnt_even s)) (\<lambda>retval.
     pbind (pmod (\<lambda>s. s\<lparr>tv_delta := timersub (tv_odd s) (tv_even s)\<rparr>)) (\<lambda>_.
     pbind (pget cnt_delta) (\<lambda>d.
     pbind (compute_average d) (\<lambda>_.
     pbind (pwhen (retval = 0) (print_counters d)) (\<lambda>_.
     pbind (pget interval_float) (\<lambda>f.
     pbind (emit [ErrF ''%.6f'' (Some f), Err ('' sec'' @ newline)]) (\<lambda>_. pret 0)))))))))"

definition fork_it :: "string list \<Rightarrow> int prog" where
  "fork_it argv =
     pbind sample_even (\<lambda>_.
     pbind (pget (\<lambda>s. t_fork (ts_env s))) (\<lambda>f.
     case f of
       ForkChild exec_ok \<Rightarrow> if exec_ok then phalt (Execs argv) else report_interval
     | ForkFails \<Rightarrow> pbind (emit [Perror ''fork'']) (\<lambda>_. phalt (Exit 1))
     | ForkParent wait_ok \<Rightarrow>
         if \<not> wait_ok then pbind (emit [Perror ''wait'']) (\<lambda>_. phalt (Exit 1)) else report_interval))"

text \<open>A result of \<open>getopt\<close>; \<open>-d\<close> is an option of \<open>dump_tstat\<close> only.\<close>

definition set_msr :: "string \<Rightarrow> unit prog" where
  "set_msr arg =
     pbind (case fscanf [ConvX] [] arg of (_, [v], _) \<Rightarrow> pmod (\<lambda>s. s\<lparr>extra_msr_offset := of_int v\<rparr>) | _ \<Rightarrow> pret ()) (\<lambda>_.
     pbind (pget id) (\<lambda>s.
     pwhen (verbose s > 1) (emit [Err (''MSR 0x'' @ map upper (hexu (extra_msr_offset s)) @ newline)])))"

fun set_options :: "getopt_result list \<Rightarrow> unit prog" where
  "set_options [] = pret ()"
| "set_options (ShortOpt c (Some arg) # rs) =
     pbind (if c = CHR ''i'' then pmod (\<lambda>s. s\<lparr>interval_sec := of_int (atoi arg)\<rparr>)
            else if c = CHR ''M'' then set_msr arg else usage) (\<lambda>_. set_options rs)"
| "set_options (ShortOpt c None # rs) =
     pbind (if c = CHR ''v'' then pmod (\<lambda>s. s\<lparr>verbose := verbose s + 1\<rparr>) else usage) (\<lambda>_. set_options rs)"
| "set_options (r # rs) = usage"

definition cmdline :: "string list \<Rightarrow> string list prog" where
  "cmdline argv =
     pbind (pmod (\<lambda>s. s\<lparr>progname := hd argv\<rparr>)) (\<lambda>_.
     case getopt_plus ''vi:M:'' (tl argv) of (results, others) \<Rightarrow> pbind (set_options results) (\<lambda>_. pret others))"

text \<open>\<open>main\<close>, with \<open>n\<close> turns of the loop that has no end.\<close>

definition banner :: "unit prog" where
  "banner =
     pbind (pget verbose) (\<lambda>v. pwhen (v > 1)
       (emit [Err (''turbostat Dec 6, 2010 - Len Brown <lenb@kernel.org>'' @ newline),
              Err (''http://userweb.kernel.org/~lenb/acpi/utils/pmtools/turbostat/'' @ newline)]))"

definition turbostat_main :: "nat \<Rightarrow> string list \<Rightarrow> int prog" where
  "turbostat_main n argv =
     pbind (cmdline argv) (\<lambda>command.
     pbind banner (\<lambda>_.
     pbind turbostat_init (\<lambda>_.
     if command \<noteq> [] then fork_it command else pbind (turbostat_loop n) (\<lambda>_. pret 0))))"

section \<open>The dump tool\<close>

text \<open>
  \<open>dump_tstat.c\<close> is the same program with four changes: the check for the super user is not compiled in, the option \<open>-d\<close>, the function
  \<open>dump_vals\<close>, and its call in \<open>main\<close>.
\<close>

definition dump_check_super_user :: "unit prog" where
  "dump_check_super_user = pret ()"

definition dump_init :: "unit prog" where
  "dump_init =
     pbind check_cpuid (\<lambda>_.
     pbind check_dev_msr (\<lambda>_.
     pbind dump_check_super_user (\<lambda>_.
     pbind (for_all_cpus alloc_new_counters) (\<lambda>n.
     pbind (pmod (\<lambda>s. s\<lparr>num_cpus := n\<rparr>)) (\<lambda>_.
     pbind (pget verbose) (\<lambda>v. pwhen (v \<noteq> 0) print_nehalem_info))))))"

definition dump_line :: "counters \<Rightarrow> string" where
  "dump_line c =
     dec_int (c_cpu c) @ concat (map (\<lambda>v. '' '' @ v)
       [dec_int (c_pkg c), dec_int (c_core c), llu (c_tsc c), llu (c_aperf c), llu (c_mperf c), llu (c_c3 c), llu (c_c6 c), llu (c_c7 c),
        llu (c_pc2 c), llu (c_pc3 c), llu (c_pc6 c), llu (c_pc7 c)]) @ newline"

definition dump_vals :: "unit prog" where
  "dump_vals =
     pbind (pget cnt_even) (\<lambda>cs. pbind (get_counters cs) (\<lambda>cs.
     pbind (emit [Std (''# cpu pkg core tsc aperf mperf c3 c6 c7 pc2 pc3 pc6 pc7'' @ newline)]) (\<lambda>_.
     pbind (emit (map (\<lambda>c. Std (dump_line c)) cs)) (\<lambda>_.
     pmod (\<lambda>s. s\<lparr>cnt_even := []\<rparr>)))))"

fun dump_set_options :: "getopt_result list \<Rightarrow> unit prog" where
  "dump_set_options [] = pret ()"
| "dump_set_options (r # rs) =
     pbind (if r = ShortOpt CHR ''d'' None then pmod (\<lambda>s. s\<lparr>dump_n_exit := True\<rparr>) else set_options [r]) (\<lambda>_. dump_set_options rs)"

definition dump_cmdline :: "string list \<Rightarrow> string list prog" where
  "dump_cmdline argv =
     pbind (pmod (\<lambda>s. s\<lparr>progname := hd argv\<rparr>)) (\<lambda>_.
     case getopt_plus ''vdi:M:'' (tl argv) of (results, others) \<Rightarrow> pbind (dump_set_options results) (\<lambda>_. pret others))"

definition dump_main :: "nat \<Rightarrow> string list \<Rightarrow> int prog" where
  "dump_main n argv =
     pbind (dump_cmdline argv) (\<lambda>command.
     pbind banner (\<lambda>_.
     pbind dump_init (\<lambda>_.
     pbind (pget dump_n_exit) (\<lambda>d.
     if d then pbind dump_vals (\<lambda>_. phalt (Exit 0))
     else if command \<noteq> [] then fork_it command else pbind (turbostat_loop n) (\<lambda>_. pret 0)))))"

end
