(* ===== verification/Tstat_Topology.thy ===== *)
theory Tstat_Topology
  imports Tstat "HOL-Library.Product_Lexorder" "HOL-Library.Multiset"
begin

text \<open>
  How \<open>turbostat\<close> finds the CPUs: scanning of \<open>/proc/stat\<close> and of the topology files (a round trip with the text the kernel writes), and the
  lists of counters, which are sorted by package, core and CPU. The locale \<open>cpu_visitor\<close> is the contract of \<open>for_all_cpus\<close> with the
  function it calls for each CPU.
\<close>

section \<open>Scanning numbers\<close>

lemma digit_in_10: "is_digit c \<Longrightarrow> digit_in 10 c = Some (digit_val c)"
  by (auto simp: digit_in_def is_digit_def digit_val_def lower_def Let_def)

lemma digit_in_10_None: "\<not> is_digit c \<Longrightarrow> digit_in 10 c = None"
proof -
  assume a: "\<not> is_digit c"
  define n where "n = (of_char c :: nat)"
  have c: "c = char_of n" by (simp add: n_def)
  have "n < 48 \<or> 57 < n" using a by (auto simp: is_digit_def n_def Let_def)
  moreover have "n < 256" by (simp add: n_def)
  ultimately show ?thesis
    by (auto simp: digit_in_def lower_def Let_def c)
qed

lemma scan_digits_10:
  "list_all is_digit ds \<Longrightarrow> rest = [] \<or> \<not> is_digit (hd rest) \<Longrightarrow>
     scan_digits 10 v (ds @ rest) = (foldl (\<lambda>v c. 10 * v + digit_val c) v ds, rest)"
proof (induction ds arbitrary: v)
  case Nil
  then show ?case by (cases rest) (auto simp: digit_in_10_None)
next
  case (Cons d ds)
  then show ?case by (simp add: digit_in_10)
qed

lemma dropWhile_spaces: "list_all is_space ws \<Longrightarrow> dropWhile is_space (ws @ xs) = dropWhile is_space xs"
  by (induction ws) auto

lemma scan_base_dec:
  assumes "list_all is_space ws" and "rest = [] \<or> \<not> is_digit (hd rest)"
  shows "scan_base 10 (ws @ dec_nat n @ rest) = Num False (int n) rest"
proof -
  obtain c cs where d: "dec_nat n = c # cs" using dec_nat_digits [of n] by (cases "dec_nat n") auto
  with dec_nat_digits [of n] have c: "is_digit c" by simp
  have w: "dropWhile is_space (ws @ dec_nat n @ rest) = dec_nat n @ rest"
    using not_digit_sign [OF c] by (simp add: dropWhile_spaces [OF assms(1)] d)
  have h: "chr_at (dec_nat n @ rest) 0 = c" by (simp add: d chr_at_def)
  have "scan_digits 10 0 (dec_nat n @ rest) = (int n, rest)"
    using dec_nat_digits [of n] assms(2) by (simp add: scan_digits_10 digits_val_def)
  then show ?thesis
    using not_digit_sign [OF c] c dec_nat_digits [of n] by (simp add: scan_base_def w Let_def h digit_in_10)
qed

section \<open>The text of \<open>/proc/stat\<close>\<close>

definition stat_numbers :: "nat list \<Rightarrow> string" where
  "stat_numbers ns = concat (map (\<lambda>n. '' '' @ dec_nat n) ns)"

definition stat_text :: "nat list \<Rightarrow> (nat \<times> nat list) list \<Rightarrow> string \<Rightarrow> string" where
  "stat_text tot rows rest =
     ''cpu '' @ stat_numbers tot @ newline @ concat (map (\<lambda>(cpu, ns). ''cpu'' @ dec_nat cpu @ stat_numbers ns @ newline) rows) @ rest"

definition stat_rest :: "string \<Rightarrow> bool" where
  "stat_rest r \<longleftrightarrow> r = [] \<or> (\<not> is_space (hd r) \<and> hd r \<noteq> CHR ''c'')"

definition stat_ok :: "nat list \<Rightarrow> (nat \<times> nat list) list \<Rightarrow> string \<Rightarrow> bool" where
  "stat_ok tot rows rest \<longleftrightarrow>
     length tot = 10 \<and> list_all (\<lambda>(cpu, ns). cpu < 2 ^ 31 \<and> length ns = 10) rows \<and> stat_rest rest"

lemma fscanf_skip:
  "rest = [] \<or> \<not> is_digit (hd rest) \<Longrightarrow>
   fscanf (concat (replicate (length ns) [Blank, SkipD]) @ ds) vs (stat_numbers ns @ rest) = fscanf ds vs rest"
proof (induction ns)
  case (Cons n ns)
  have b: "dropWhile is_space (stat_numbers (n # ns) @ rest) = dec_nat n @ stat_numbers ns @ rest"
  proof -
    obtain c cs where d: "dec_nat n = c # cs" using dec_nat_digits [of n] by (cases "dec_nat n") auto
    with dec_nat_digits [of n] not_digit_sign [of c] show ?thesis by (simp add: stat_numbers_def is_space_def)
  qed
  have "stat_numbers ns @ rest = [] \<or> \<not> is_digit (hd (stat_numbers ns @ rest))"
    using Cons.prems by (cases ns) (auto simp: stat_numbers_def is_digit_def)
  from scan_base_dec [of "[]", OF _ this] have "scan_base 10 (dec_nat n @ stat_numbers ns @ rest) = Num False (int n) (stat_numbers ns @ rest)"
    by simp
  with Cons show ?case by (simp add: b)
qed (simp add: stat_numbers_def)

lemma fscanf_ten:
  assumes "length ns = 10" and "r = [] \<or> \<not> is_space (hd r)"
  shows "fscanf ten_numbers vs (stat_numbers ns @ newline @ r) = (int (length vs), vs, r)"
proof -
  have "fscanf ten_numbers vs (stat_numbers ns @ newline @ r) = fscanf [Blank] vs (newline @ r)"
    using fscanf_skip [of "newline @ r" ns "[Blank]" vs] assms(1) by (simp add: ten_numbers_def newline_def is_digit_def)
  moreover have "dropWhile is_space r = r" using assms(2) by (cases r) auto
  ultimately show ?thesis by (simp add: newline_def is_space_def)
qed

lemma fscanf_cpu: "fscanf (cpu_format @ ds) vs (''cpu'' @ s) = fscanf ds vs s"
  by (simp add: cpu_format_def)

lemma fscanf_ten_header:
  assumes "length ns = 10" and "r = [] \<or> \<not> is_space (hd r)"
  shows "fscanf (cpu_format @ ten_numbers) [] (''cpu '' @ stat_numbers ns @ newline @ r) = (0, [], r)"
proof -
  have t: "ten_numbers = Blank # tl ten_numbers" by (simp add: ten_numbers_def numeral_eq_Suc)
  have "fscanf ten_numbers [] ('' '' @ stat_numbers ns @ newline @ r) = fscanf ten_numbers [] (stat_numbers ns @ newline @ r)"
    by (subst (1 2) t) (simp add: is_space_def)
  then show ?thesis
    using fscanf_ten [OF assms, of "[]"] fscanf_cpu [of ten_numbers "[]" "'' '' @ stat_numbers ns @ newline @ r"] by simp
qed

lemma fscanf_ten_row:
  assumes "length ns = 10" and "r = [] \<or> \<not> is_space (hd r)" and "cpu < 2 ^ 31"
  shows "fscanf (cpu_format @ ConvU # ten_numbers) [] (''cpu'' @ dec_nat cpu @ stat_numbers ns @ newline @ r) = (1, [int cpu], r)"
proof -
  have "stat_numbers ns \<noteq> []" and "\<not> is_digit (hd (stat_numbers ns))"
    using assms(1) by (cases ns; simp add: stat_numbers_def is_digit_def)+
  then have "scan_base 10 (dec_nat cpu @ stat_numbers ns @ newline @ r) = Num False (int cpu) (stat_numbers ns @ newline @ r)"
    using scan_base_dec [of "[]" "stat_numbers ns @ newline @ r" cpu] by simp
  moreover have "to_uint32 False (int cpu) = int cpu" using assms(3) by (simp add: to_uint32_def)
  ultimately have "fscanf (ConvU # ten_numbers) [] (dec_nat cpu @ stat_numbers ns @ newline @ r) = (1, [int cpu], r)"
    using fscanf_ten [OF assms(1,2), of "[int cpu]"] by simp
  then show ?thesis using fscanf_cpu [of "ConvU # ten_numbers" "[]" "dec_nat cpu @ stat_numbers ns @ newline @ r"] by simp
qed

declare scan_cpus.simps [simp del]

lemma scan_cpus_rest: "stat_rest r \<Longrightarrow> scan_cpus r = []"
  by (subst scan_cpus.simps) (cases r; auto simp: stat_rest_def cpu_format_def)

lemma scan_cpus_rows:
  assumes "list_all (\<lambda>(cpu, ns). cpu < 2 ^ 31 \<and> length ns = 10) rows" and "stat_rest r"
  shows "scan_cpus (concat (map (\<lambda>(cpu, ns). ''cpu'' @ dec_nat cpu @ stat_numbers ns @ newline) rows) @ r) = map (\<lambda>(cpu, ns). int cpu) rows"
  using assms(1)
proof (induction rows)
  case Nil
  then show ?case using scan_cpus_rest [OF assms(2)] by simp
next
  case (Cons row rows)
  obtain cpu ns where row: "row = (cpu, ns)" by (cases row)
  define s where "s = concat (map (\<lambda>(cpu, ns). ''cpu'' @ dec_nat cpu @ stat_numbers ns @ newline) rows) @ r"
  have "s = [] \<or> \<not> is_space (hd s)"
    using assms(2) by (cases rows) (auto simp: s_def stat_rest_def is_space_def)
  then have "fscanf (cpu_format @ ConvU # ten_numbers) [] (''cpu'' @ dec_nat cpu @ stat_numbers ns @ newline @ s) = (1, [int cpu], s)"
    using Cons.prems by (intro fscanf_ten_row) (auto simp: row)
  moreover have "to_int32 (int cpu) = int cpu" using Cons.prems by (auto simp: row intro: to_int32_id)
  ultimately show ?case using Cons by (subst scan_cpus.simps) (simp add: row s_def)
qed

lemma for_all_cpus_listed:
  assumes "stat_ok tot rows rest" and "t_stat (ts_env s) (ts_stats s) = Some (stat_text tot rows rest)"
  shows "for_all_cpus func s =
    pbind (visit_cpus func (map (\<lambda>(cpu, ns). int cpu) rows)) (\<lambda>_. pret (int (length rows))) (s\<lparr>ts_stats := ts_stats s + 1\<rparr>)"
proof -
  define R where "R = concat (map (\<lambda>(cpu, ns). ''cpu'' @ dec_nat cpu @ stat_numbers ns @ newline) rows) @ rest"
  have ok: "length tot = 10" "list_all (\<lambda>(cpu, ns). cpu < 2 ^ 31 \<and> length ns = 10) rows" "stat_rest rest"
    using assms(1) by (simp_all add: stat_ok_def)
  have "R = [] \<or> \<not> is_space (hd R)"
    using ok(3) by (cases rows) (auto simp: R_def stat_rest_def is_space_def)
  then have "fscanf (cpu_format @ ten_numbers) [] (stat_text tot rows rest) = (0, [], R)"
    using fscanf_ten_header [OF ok(1)] by (simp add: stat_text_def R_def)
  moreover have "scan_cpus R = map (\<lambda>(cpu, ns). int cpu) rows"
    unfolding R_def by (rule scan_cpus_rows [OF ok(2,3)])
  ultimately show ?thesis by (simp add: for_all_cpus_def prog_simps assms(2))
qed

text \<open>
  C17. On a text of \<open>/proc/stat\<close> as the kernel writes it (a line of totals, a line for each CPU, ten numbers in each, then other lines),
  \<open>for_all_cpus\<close> visits exactly the CPUs listed, in their order, and returns their number.
\<close>

theorem proc_stat_lists_cpus:
  assumes "stat_ok tot rows rest" and "t_stat (ts_env s) (ts_stats s) = Some (stat_text tot rows rest)"
  shows "for_all_cpus func s =
    pbind (visit_cpus func (map (\<lambda>(cpu, ns). int cpu) rows)) (\<lambda>_. pret (int (length rows))) (s\<lparr>ts_stats := ts_stats s + 1\<rparr>)"
  using assms by (rule for_all_cpus_listed)

theorem proc_stat_lists_cpus_witness:
  "stat_text [3, 0, 2, 9, 0, 0, 0, 0, 0, 0] [(0, replicate 10 7), (1, replicate 10 15)] ''intr 5'' =
     ''cpu  3 0 2 9 0 0 0 0 0 0'' @ newline @ ''cpu0 7 7 7 7 7 7 7 7 7 7'' @ newline @ ''cpu1 15 15 15 15 15 15 15 15 15 15'' @ newline @ ''intr 5'' \<and>
   fst (for_all_cpus dummy (tstat_start \<lparr>t_msr = \<lambda>_ _ _. NoDevice,
     t_stat = \<lambda>_. Some (stat_text [3, 0, 2, 9, 0, 0, 0, 0, 0, 0] [(0, replicate 10 7), (1, replicate 10 15)] ''intr 5''),
     t_file = \<lambda>_ _. Some ''0'', t_clock = \<lambda>_. (0, 0), t_calloc = \<lambda>_. True, t_cpuid = \<lambda>_. (0, 0, 0, 0), t_dev_msr = True, t_uid = 0,
     t_fork = ForkFails\<rparr>)) = Inr 2"
proof (intro conjI)
  let ?rows = "[(0, replicate 10 7), (1, replicate 10 15)] :: (nat \<times> nat list) list" and ?tot = "[3, 0, 2, 9, 0, 0, 0, 0, 0, 0] :: nat list"
  let ?env = "\<lparr>t_msr = \<lambda>_ _ _. NoDevice, t_stat = \<lambda>_. Some (stat_text ?tot ?rows ''intr 5''), t_file = \<lambda>_ _. Some ''0'', t_clock = \<lambda>_. (0, 0),
    t_calloc = \<lambda>_. True, t_cpuid = \<lambda>_. (0, 0, 0, 0), t_dev_msr = True, t_uid = 0, t_fork = ForkFails\<rparr> :: tenv"
  show "stat_text ?tot ?rows ''intr 5'' =
     ''cpu  3 0 2 9 0 0 0 0 0 0'' @ newline @ ''cpu0 7 7 7 7 7 7 7 7 7 7'' @ newline @ ''cpu1 15 15 15 15 15 15 15 15 15 15'' @ newline @ ''intr 5''" by code_simp
  have ok: "stat_ok ?tot ?rows ''intr 5''" by (simp add: stat_ok_def stat_rest_def is_space_def)
  have p: "dec_int 0 = ''0''" "dec_int 1 = ''1''" "scan_base 10 ''0'' = Num False 0 []" by code_simp+
  show "fst (for_all_cpus dummy (tstat_start ?env)) = Inr 2"
    by (subst proc_stat_lists_cpus [OF ok])
       (simp_all add: tstat_start_def prog_simps get_physical_package_id_def get_core_id_def read_topology_def topology_path_def p Let_def dummy_def sat_long_def to_int32_def)
qed

section \<open>Visiting the CPUs\<close>

text \<open>
  A CPU is its number with its package and its core. \<open>cpus_listed\<close>: the files of the kernel, whenever they are read, list these CPUs.
\<close>

type_synonym cpu_place = "nat \<times> nat \<times> nat"

definition place_ok :: "cpu_place \<Rightarrow> bool" where
  "place_ok = (\<lambda>(cpu, pkg, core). cpu < 10 ^ 7 \<and> pkg < 2 ^ 31 \<and> core < 2 ^ 31)"

definition topology_files :: "tenv \<Rightarrow> cpu_place \<Rightarrow> bool" where
  "topology_files env = (\<lambda>(cpu, pkg, core). \<forall>k.
     t_file env k (topology_path (int cpu) ''physical_package_id'') = Some (dec_nat pkg @ newline) \<and>
     t_file env k (topology_path (int cpu) ''core_id'') = Some (dec_nat core @ newline))"

definition cpus_listed :: "tenv \<Rightarrow> cpu_place list \<Rightarrow> bool" where
  "cpus_listed env cpus \<longleftrightarrow>
     (\<forall>k. \<exists>tot rows rest. stat_ok tot rows rest \<and> map fst rows = map fst cpus \<and> t_stat env k = Some (stat_text tot rows rest)) \<and>
     list_all place_ok cpus \<and> list_all (topology_files env) cpus \<and> (\<forall>k. t_calloc env k)"

lemma dec_nat_bound: "n < 10 ^ k \<Longrightarrow> length (dec_nat n) \<le> max 1 k"
proof (induction k arbitrary: n)
  case (Suc k)
  show ?case
  proof (cases "n < 10")
    case False
    then have "n div 10 < 10 ^ k" using Suc.prems by (simp add: less_mult_imp_div_less mult.commute)
    moreover have "k \<noteq> 0" using False Suc.prems by (cases k) auto
    ultimately show ?thesis using Suc.IH [of "n div 10"] False by (subst dec_nat.simps) simp
  qed (subst dec_nat.simps, simp)
qed (subst dec_nat.simps, simp)

lemma fscanf_dec: "n < 2 ^ 31 \<Longrightarrow> fscanf [ConvD] [] (dec_nat n @ newline) = (1, [int n], newline)"
  using scan_base_dec [of "[]" newline n] by (simp add: is_digit_def newline_def sat_long_def to_int32_id)

lemma read_topology_run:
  assumes "cpu < 10 ^ 7" "n < 2 ^ 31" "length name \<le> 19" "t_file (ts_env s) (ts_files s) (topology_path (int cpu) name) = Some (dec_nat n @ newline)"
  shows "read_topology name (int cpu) s = (Inr (int n), s\<lparr>ts_files := ts_files s + 1\<rparr>)"
proof -
  have "length (topology_path (int cpu) name) < 64"
    using dec_nat_bound [OF assms(1)] assms(3) by (simp add: topology_path_def dec_int_def)
  then show ?thesis using assms(4) fscanf_dec [OF assms(2)] by (simp add: read_topology_def Let_def prog_simps)
qed

definition visited :: "(int \<Rightarrow> int \<Rightarrow> int \<Rightarrow> tstat \<Rightarrow> tstat) \<Rightarrow> cpu_place list \<Rightarrow> tstat \<Rightarrow> tstat" where
  "visited step = fold (\<lambda>(cpu, pkg, core) s. step (int pkg) (int core) (int cpu) (s\<lparr>ts_files := ts_files s + 2\<rparr>))"

locale cpu_visitor =
  fixes func :: "int \<Rightarrow> int \<Rightarrow> int \<Rightarrow> unit prog" and step :: "int \<Rightarrow> int \<Rightarrow> int \<Rightarrow> tstat \<Rightarrow> tstat"
  assumes func_run: "(\<forall>k. t_calloc (ts_env s) k) \<Longrightarrow> func pkg core cpu s = (Inr (), step pkg core cpu s)"
    and step_env: "ts_env (step pkg core cpu s) = ts_env s"
begin

lemma visit_run:
  assumes "list_all place_ok cpus" "list_all (topology_files (ts_env s)) cpus" "\<forall>k. t_calloc (ts_env s) k"
  shows "visit_cpus func (map (\<lambda>p. int (fst p)) cpus) s = (Inr (), visited step cpus s)"
  using assms
proof (induction cpus arbitrary: s)
  case Nil
  then show ?case by (simp add: visited_def prog_simps)
next
  case (Cons c cpus)
  obtain cpu pkg core where c: "c = (cpu, pkg, core)" by (cases c)
  let ?s = "s\<lparr>ts_files := ts_files s + 2\<rparr>"
  have p: "cpu < 10 ^ 7" "pkg < 2 ^ 31" "core < 2 ^ 31" using Cons.prems(1) by (simp_all add: c place_ok_def)
  have "get_physical_package_id (int cpu) s = (Inr (int pkg), s\<lparr>ts_files := ts_files s + 1\<rparr>)"
    using Cons.prems(2) unfolding get_physical_package_id_def
    by (intro read_topology_run p) (auto simp: c topology_files_def)
  moreover have "get_core_id (int cpu) (s\<lparr>ts_files := ts_files s + 1\<rparr>) = (Inr (int core), ?s)"
    using Cons.prems(2) read_topology_run [OF p(1,3), of "''core_id''" "s\<lparr>ts_files := ts_files s + 1\<rparr>"]
    by (simp add: get_core_id_def c topology_files_def)
  moreover have "func (int pkg) (int core) (int cpu) ?s = (Inr (), step (int pkg) (int core) (int cpu) ?s)"
    using Cons.prems(3) by (intro func_run) simp
  moreover have "visit_cpus func (map (\<lambda>p. int (fst p)) cpus) (step (int pkg) (int core) (int cpu) ?s) =
      (Inr (), visited step cpus (step (int pkg) (int core) (int cpu) ?s))"
    using Cons.prems by (intro Cons.IH) (simp_all add: step_env)
  ultimately show ?case by (simp add: c prog_simps visited_def)
qed

lemma for_all_run:
  assumes "cpus_listed (ts_env s) cpus"
  shows "for_all_cpus func s = (Inr (int (length cpus)), visited step cpus (s\<lparr>ts_stats := ts_stats s + 1\<rparr>))"
proof -
  obtain tot rows rest where ok: "stat_ok tot rows rest" and m: "map fst rows = map fst cpus"
      and t: "t_stat (ts_env s) (ts_stats s) = Some (stat_text tot rows rest)"
    using assms unfolding cpus_listed_def by blast
  have "map (\<lambda>(cpu, ns). int cpu) rows = map int (map fst rows)" by (simp add: case_prod_unfold)
  then have "map (\<lambda>(cpu, ns). int cpu) rows = map (\<lambda>p. int (fst p)) cpus" by (simp add: m del: map_map) simp
  moreover have "length rows = length cpus" using m by (metis length_map)
  ultimately show ?thesis
    using assms visit_run [of cpus "s\<lparr>ts_stats := ts_stats s + 1\<rparr>"]
    by (simp add: for_all_cpus_listed [OF ok t] prog_simps cpus_listed_def)
qed

end

interpretation dummy_visitor: cpu_visitor dummy "\<lambda>_ _ _ s. s"
  by unfold_locales (simp_all add: dummy_def prog_simps)

section \<open>The lists of counters\<close>

definition ckey :: "counters \<Rightarrow> int \<times> int \<times> int" where
  "ckey c = (c_pkg c, c_core c, c_cpu c)"

lemma before_in_list_key: "before_in_list x new \<longleftrightarrow> ckey new < ckey x"
  by (auto simp: before_in_list_def ckey_def less_prod_def less_eq_prod_def)

lemma insort_takeWhile: "insort_key f x xs = takeWhile (\<lambda>y. f y < f x) xs @ x # dropWhile (\<lambda>y. f y < f x) xs"
  by (induction xs) (auto simp: not_less)

text \<open>Two loops one after the other are one loop if what the second passes is never followed by what the first would pass.\<close>

lemma takeWhile_then:
  "sorted_wrt (\<lambda>x y. B x \<longrightarrow> \<not> A y) xs \<Longrightarrow>
     takeWhile A xs @ takeWhile B (dropWhile A xs) = takeWhile (\<lambda>x. A x \<or> B x) xs \<and>
     dropWhile B (dropWhile A xs) = dropWhile (\<lambda>x. A x \<or> B x) xs"
proof (induction xs)
  case (Cons x xs)
  show ?case
  proof (cases "A x")
    case False
    have "takeWhile B xs = takeWhile (\<lambda>x. A x \<or> B x) xs \<and> dropWhile B xs = dropWhile (\<lambda>x. A x \<or> B x) xs" if "B x"
      using Cons.prems that by (auto intro: takeWhile_cong dropWhile_cong)
    then show ?thesis using False by auto
  qed (use Cons in simp)
qed simp

text \<open>The list after \<open>insert_counters\<close>, and the columns that it turns on.\<close>

definition walked :: "counters list \<Rightarrow> counters \<Rightarrow> counters list" where
  "walked xs new =
     (case xs of [] \<Rightarrow> [new]
      | x # rest \<Rightarrow>
          if before_in_list x new then new # xs
          else
            let lower_pkg = (\<lambda>c. c_pkg c < c_pkg new);
                lower_core = (\<lambda>c. c_pkg c = c_pkg new \<and> c_core c < c_core new);
                lower_cpu = (\<lambda>c. c_pkg c = c_pkg new \<and> c_core c = c_core new \<and> c_cpu c < c_cpu new);
                pkgs = takeWhile lower_pkg rest; rest1 = dropWhile lower_pkg rest;
                cores = takeWhile lower_core rest1; rest2 = dropWhile lower_core rest1
            in x # pkgs @ cores @ takeWhile lower_cpu rest2 @ new # dropWhile lower_cpu rest2)"

definition passes_pkg :: "counters list \<Rightarrow> counters \<Rightarrow> bool" where
  "passes_pkg xs new = (case xs of [] \<Rightarrow> False
     | x # rest \<Rightarrow> \<not> before_in_list x new \<and> takeWhile (\<lambda>c. c_pkg c < c_pkg new) rest \<noteq> [])"

definition passes_core :: "counters list \<Rightarrow> counters \<Rightarrow> bool" where
  "passes_core xs new = (case xs of [] \<Rightarrow> False
     | x # rest \<Rightarrow> \<not> before_in_list x new \<and>
         takeWhile (\<lambda>c. c_pkg c = c_pkg new \<and> c_core c < c_core new) (dropWhile (\<lambda>c. c_pkg c < c_pkg new) rest) \<noteq> [])"

lemma insert_counters_run:
  "insert_counters xs new s = (Inr (walked xs new), s\<lparr>show_cpu := show_cpu s \<or> xs \<noteq> [],
     show_pkg := show_pkg s \<or> passes_pkg xs new, show_core := show_core s \<or> passes_core xs new\<rparr>)"
proof (cases xs)
  case (Cons x rest)
  then show ?thesis
    by (simp add: insert_counters_def walked_def passes_pkg_def passes_core_def prog_simps Let_def del: takeWhile_eq_Nil_iff)
qed (simp add: insert_counters_def walked_def passes_pkg_def passes_core_def prog_simps)

lemma walked_insort:
  assumes "sorted (map ckey xs)" and "ckey new \<notin> ckey ` set xs"
  shows "walked xs new = insort_key ckey new xs"
proof (cases xs)
  case (Cons x rest)
  let ?p = "\<lambda>c. c_pkg c < c_pkg new" and ?c = "\<lambda>c. c_pkg c = c_pkg new \<and> c_core c < c_core new"
  let ?n = "\<lambda>c. c_pkg c = c_pkg new \<and> c_core c = c_core new \<and> c_cpu c < c_cpu new"
  let ?pc = "\<lambda>c. ?p c \<or> ?c c" and ?k = "\<lambda>c. ckey c < ckey new"
  have sw: "sorted_wrt (\<lambda>x y. ckey x \<le> ckey y) rest"
    using assms(1) by (simp add: Cons sorted_wrt_map)
  have 1: "takeWhile ?p rest @ takeWhile ?c (dropWhile ?p rest) = takeWhile ?pc rest \<and> dropWhile ?c (dropWhile ?p rest) = dropWhile ?pc rest"
    by (rule takeWhile_then, rule sorted_wrt_mono_rel [OF _ sw]) (auto simp: ckey_def less_eq_prod_def)
  have 2: "takeWhile ?pc rest @ takeWhile ?n (dropWhile ?pc rest) = takeWhile (\<lambda>c. ?pc c \<or> ?n c) rest \<and>
      dropWhile ?n (dropWhile ?pc rest) = dropWhile (\<lambda>c. ?pc c \<or> ?n c) rest"
    by (rule takeWhile_then, rule sorted_wrt_mono_rel [OF _ sw]) (auto simp: ckey_def less_eq_prod_def)
  have k: "(\<lambda>c. ?pc c \<or> ?n c) = ?k" by (auto simp: ckey_def less_prod_def less_eq_prod_def fun_eq_iff)
  have x: "ckey x < ckey new \<longleftrightarrow> \<not> ckey new < ckey x" using assms(2) by (auto simp: Cons image_iff)
  have "walked xs new = (if before_in_list x new then new # xs else
      x # ((takeWhile ?p rest @ takeWhile ?c (dropWhile ?p rest)) @ takeWhile ?n (dropWhile ?c (dropWhile ?p rest))) @
        new # dropWhile ?n (dropWhile ?c (dropWhile ?p rest)))"
    by (simp add: walked_def Cons Let_def)
  also have "\<dots> = (if ckey new < ckey x then new # xs else x # takeWhile ?k rest @ new # dropWhile ?k rest)"
    unfolding before_in_list_key conjunct1 [OF 1] conjunct2 [OF 1] conjunct1 [OF 2] conjunct2 [OF 2] k ..
  finally show ?thesis using x by (simp add: insort_takeWhile Cons)
qed (simp add: walked_def)

definition cell :: "int \<Rightarrow> int \<Rightarrow> int \<Rightarrow> counters" where
  "cell pkg core cpu = zero_counters\<lparr>c_pkg := pkg, c_core := core, c_cpu := cpu\<rparr>"

definition alloc_step :: "int \<Rightarrow> int \<Rightarrow> int \<Rightarrow> tstat \<Rightarrow> tstat" where
  "alloc_step pkg core cpu s =
     (let new = cell pkg core cpu; lists = [cnt_odd s, cnt_even s, cnt_delta s] in
      s\<lparr>ts_out := ts_out s @ (if verbose s > 1 then [Std (''pkg'' @ dec_int pkg @ '' core'' @ dec_int core @ '', cpu'' @ dec_int cpu @ newline)] else []),
        cnt_odd := walked (cnt_odd s) new, cnt_even := walked (cnt_even s) new, cnt_delta := walked (cnt_delta s) new, cnt_average := Some new,
        show_cpu := show_cpu s \<or> list_ex (\<lambda>xs. xs \<noteq> []) lists, show_pkg := show_pkg s \<or> list_ex (\<lambda>xs. passes_pkg xs new) lists,
        show_core := show_core s \<or> list_ex (\<lambda>xs. passes_core xs new) lists, ts_live := ts_live s + 4, ts_callocs := ts_callocs s + 4\<rparr>)"

lemma new_counters_run:
  "t_calloc (ts_env s) (ts_callocs s) \<Longrightarrow>
   new_counters pkg core cpu s = (Inr (cell pkg core cpu), s\<lparr>ts_callocs := ts_callocs s + 1, ts_live := ts_live s + 1\<rparr>)"
  by (simp add: new_counters_def calloc_counters_def prog_simps cell_def)

lemma alloc_new_counters_run:
  "(\<forall>k. t_calloc (ts_env s) k) \<Longrightarrow> alloc_new_counters pkg core cpu s = (Inr (), alloc_step pkg core cpu s)"
  by (auto simp: alloc_new_counters_def prog_simps new_counters_run insert_counters_run alloc_step_def Let_def intro!: tstat.equality)

interpretation alloc_visitor: cpu_visitor alloc_new_counters alloc_step
  by unfold_locales (simp_all add: alloc_new_counters_run, simp add: alloc_step_def Let_def)

definition place_cell :: "cpu_place \<Rightarrow> counters" where
  "place_cell = (\<lambda>(cpu, pkg, core). cell (int pkg) (int core) (int cpu))"

text \<open>The lists after all CPUs have been visited; the list of averages is not a list, each new cell replaces the one before.\<close>

definition sorted_cells :: "cpu_place list \<Rightarrow> counters list" where
  "sorted_cells cpus = sort_key ckey (map place_cell cpus)"

lemma fold_insort: "mset (fold (insort_key f) xs ys) = mset xs + mset ys \<and> (sorted (map f ys) \<longrightarrow> sorted (map f (fold (insort_key f) xs ys)))"
  by (induction xs arbitrary: ys) (simp_all add: sorted_insort_key)

lemma fold_walked:
  assumes "distinct (map ckey (ys @ xs))" and "sorted (map ckey ys)"
  shows "fold (\<lambda>new xs. walked xs new) xs ys = fold (insort_key ckey) xs ys"
  using assms
proof (induction xs arbitrary: ys)
  case (Cons x xs)
  have "walked ys x = insort_key ckey x ys" using Cons.prems by (intro walked_insort) auto
  moreover have "fold (\<lambda>new xs. walked xs new) xs (insort_key ckey x ys) = fold (insort_key ckey) xs (insort_key ckey x ys)"
    using Cons.prems by (intro Cons.IH) (auto simp: sorted_insort_key distinct_insort set_insort_key distinct_map)
  ultimately show ?case by simp
qed simp

lemma ckey_place: "distinct (map fst cpus) \<Longrightarrow> distinct (map ckey (map place_cell cpus))"
  by (auto simp: distinct_map inj_on_def ckey_def place_cell_def cell_def split: prod.splits)

lemma fold_walked_sort:
  assumes "distinct (map fst cpus)"
  shows "fold (\<lambda>new xs. walked xs new) (map place_cell cpus) [] = sorted_cells cpus"
proof -
  let ?xs = "map place_cell cpus"
  have d: "distinct (map ckey ?xs)" using assms by (rule ckey_place)
  then have "inj_on ckey (set ?xs)" by (simp only: distinct_map)
  then have "sort_key ckey ?xs = fold (insort_key ckey) ?xs []"
    using fold_insort [of ckey ?xs "[]"] by (intro sort_key_inj_key_eq) simp_all
  then show ?thesis using fold_walked [of "[]" ?xs] d by (simp add: sorted_cells_def)
qed

lemma visited_dummy: "visited (\<lambda>_ _ _ s. s) cpus s = s\<lparr>ts_files := ts_files s + 2 * length cpus\<rparr>"
  by (induction cpus arbitrary: s) (auto simp: visited_def split: prod.splits)

definition with_cells :: "counters list \<Rightarrow> cpu_place list \<Rightarrow> bool \<times> bool \<times> bool \<Rightarrow> outp list \<Rightarrow> tstat \<Rightarrow> tstat" where
  "with_cells L cpus f os s = s\<lparr>cnt_odd := L, cnt_even := L, cnt_delta := L,
     cnt_average := (if cpus = [] then cnt_average s else Some (place_cell (last cpus))),
     show_pkg := fst f, show_core := fst (snd f), show_cpu := snd (snd f), ts_out := ts_out s @ os, ts_live := ts_live s + 4 * int (length cpus),
     ts_callocs := ts_callocs s + 4 * length cpus, ts_files := ts_files s + 2 * length cpus\<rparr>"

lemma visited_alloc:
  assumes "cnt_odd s = L" "cnt_even s = L" "cnt_delta s = L"
  shows "\<exists>f os. visited alloc_step cpus s = with_cells (fold (\<lambda>new xs. walked xs new) (map place_cell cpus) L) cpus f os s \<and>
    (verbose s \<le> 1 \<longrightarrow> os = [])"
  using assms
proof (induction cpus arbitrary: s L)
  case Nil
  have "visited alloc_step [] s = with_cells L [] (show_pkg s, show_core s, show_cpu s) [] s"
    using Nil by (auto simp: visited_def with_cells_def intro!: tstat.equality)
  then show ?case by auto
next
  case (Cons x cpus)
  obtain cpu pkg core where x: "x = (cpu, pkg, core)" by (cases x)
  define t where "t = alloc_step (int pkg) (int core) (int cpu) (s\<lparr>ts_files := ts_files s + 2\<rparr>)"
  define L' where "L' = walked L (place_cell x)"
  have l: "cnt_odd t = L'" "cnt_even t = L'" "cnt_delta t = L'"
    using Cons.prems by (simp_all add: t_def alloc_step_def Let_def L'_def x place_cell_def)
  let ?L = "fold (\<lambda>new xs. walked xs new) (map place_cell cpus) L'"
  obtain f os where v: "visited alloc_step cpus t = with_cells ?L cpus f os t" and o: "verbose t \<le> 1 \<longrightarrow> os = []"
    using Cons.IH [OF l] by blast
  let ?o = "(if verbose s > 1 then [Std (''pkg'' @ dec_int (int pkg) @ '' core'' @ dec_int (int core) @ '', cpu'' @ dec_int (int cpu) @ newline)] else []) @ os"
  have "visited alloc_step (x # cpus) s = visited alloc_step cpus t" by (simp add: visited_def x t_def)
  also have "\<dots> = with_cells ?L cpus f os t" by (rule v)
  also have "\<dots> = with_cells (fold (\<lambda>new xs. walked xs new) (map place_cell (x # cpus)) L) (x # cpus) f ?o s"
    by (rule tstat.equality) (simp_all add: with_cells_def t_def alloc_step_def Let_def L'_def x place_cell_def)
  finally have e: "visited alloc_step (x # cpus) s = with_cells (fold (\<lambda>new xs. walked xs new) (map place_cell (x # cpus)) L) (x # cpus) f ?o s" .
  have "verbose t = verbose s" by (simp add: t_def alloc_step_def Let_def)
  then have "verbose s \<le> 1 \<longrightarrow> ?o = []" using o by auto
  with e show ?case by blast
qed

lemma for_all_alloc_run:
  assumes "cpus_listed (ts_env s) cpus" "distinct (map fst cpus)" "cnt_odd s = []" "cnt_even s = []" "cnt_delta s = []"
  shows "\<exists>f os. for_all_cpus alloc_new_counters s =
      (Inr (int (length cpus)), with_cells (sorted_cells cpus) cpus f os (s\<lparr>ts_stats := ts_stats s + 1\<rparr>)) \<and> (verbose s \<le> 1 \<longrightarrow> os = [])"
  using visited_alloc [of "s\<lparr>ts_stats := ts_stats s + 1\<rparr>" "[]" cpus] alloc_visitor.for_all_run [OF assms(1)] assms
  by (auto simp: fold_walked_sort)

definition topology_changed :: outp where
  "topology_changed = Std (''turbostat: topology changed, re-initializing.'' @ newline)"

definition num_cpus_now :: "nat \<Rightarrow> outp" where
  "num_cpus_now n = Std (''num_cpus is now '' @ dec_int (int n) @ newline)"

lemma re_initialize_run:
  assumes "cpus_listed (ts_env s) cpus" "distinct (map fst cpus)"
  shows "\<exists>f os. (verbose s \<le> 1 \<longrightarrow> os = []) \<and> re_initialize s =
    (Inr (), (with_cells (sorted_cells cpus) cpus f (topology_changed # os @ [num_cpus_now (length cpus)]) (s\<lparr>cnt_average := None,
      ts_live := ts_live s - int (length (cnt_even s)) - int (length (cnt_odd s)) - int (length (cnt_delta s)) - (if cnt_average s = None then 0 else 1)\<rparr>))
      \<lparr>num_cpus := int (length cpus), need_reinitialize := False, ts_stats := ts_stats s + 1\<rparr>)"
proof -
  define y where "y = s\<lparr>cnt_even := [], cnt_odd := [], cnt_delta := [], cnt_average := None,
    ts_live := ts_live s - int (length (cnt_even s)) - int (length (cnt_odd s)) - int (length (cnt_delta s)) - (if cnt_average s = None then 0 else 1),
    ts_out := ts_out s @ [topology_changed]\<rparr>"
  have "ts_env y = ts_env s" "verbose y = verbose s" "cnt_even y = []" "cnt_odd y = []" "cnt_delta y = []" by (simp_all add: y_def)
  then obtain f os where a: "for_all_cpus alloc_new_counters y = (Inr (int (length cpus)), with_cells (sorted_cells cpus) cpus f os (y\<lparr>ts_stats := ts_stats y + 1\<rparr>))"
      and o: "verbose s \<le> 1 \<longrightarrow> os = []"
    using for_all_alloc_run [of y cpus] assms by auto
  define z where "z = with_cells (sorted_cells cpus) cpus f os (y\<lparr>ts_stats := ts_stats y + 1\<rparr>)"
  have fr: "free_all_counters (s\<lparr>ts_out := ts_out s @ [topology_changed]\<rparr>) = (Inr (), y)"
    by (auto simp: y_def free_all_counters_def free_counter_list_def prog_simps split: option.splits)
  have e: "re_initialize = pbind (emit [topology_changed]) (\<lambda>_. pbind free_all_counters (\<lambda>_. pbind (for_all_cpus alloc_new_counters) (\<lambda>n.
     pbind (pmod (\<lambda>s. s\<lparr>num_cpus := n, need_reinitialize := False\<rparr>)) (\<lambda>_. emit [Std (''num_cpus is now '' @ dec_int n @ newline)]))))"
    by (simp only: re_initialize_def topology_changed_def)
  have "re_initialize s = (Inr (), z\<lparr>num_cpus := int (length cpus), need_reinitialize := False, ts_out := ts_out z @ [num_cpus_now (length cpus)]\<rparr>)"
    by (simp add: e prog_simps fr a num_cpus_now_def z_def)
  also have "z\<lparr>num_cpus := int (length cpus), need_reinitialize := False, ts_out := ts_out z @ [num_cpus_now (length cpus)]\<rparr> =
    (with_cells (sorted_cells cpus) cpus f (topology_changed # os @ [num_cpus_now (length cpus)]) (s\<lparr>cnt_average := None,
      ts_live := ts_live s - int (length (cnt_even s)) - int (length (cnt_odd s)) - int (length (cnt_delta s)) - (if cnt_average s = None then 0 else 1)\<rparr>))
      \<lparr>num_cpus := int (length cpus), need_reinitialize := False, ts_stats := ts_stats s + 1\<rparr>"
    by (rule tstat.equality) (simp_all add: z_def y_def with_cells_def)
  finally show ?thesis using o by blast
qed

text \<open>
  C15. Whatever lists there were before, \<open>re_initialize\<close> leaves three lists of the same cells, one for each CPU of the machine, sorted by package,
  core and CPU. It loses a cell for each CPU but the last: only the last cell allocated for the averages is remembered.
\<close>

theorem reinitialized_lists_are_sorted:
  assumes "cpus_listed (ts_env s) cpus" "distinct (map fst cpus)" "cpus \<noteq> []"
    and "ts_live s = 3 * int (length (cnt_even s)) + 1 + lost" "length (cnt_odd s) = length (cnt_even s)" "length (cnt_delta s) = length (cnt_even s)"
    and "cnt_average s \<noteq> None"
  shows "\<exists>t. re_initialize s = (Inr (), t) \<and> cnt_even t = cnt_odd t \<and> cnt_delta t = cnt_odd t \<and>
    sorted (map ckey (cnt_odd t)) \<and> mset (cnt_odd t) = mset (map place_cell cpus) \<and> num_cpus t = int (length cpus) \<and>
    \<not> need_reinitialize t \<and> ts_live t = 3 * int (length (cnt_even t)) + 1 + lost + (int (length cpus) - 1)"
  using re_initialize_run [OF assms(1,2)] assms(3-7) by (auto simp: with_cells_def sorted_cells_def)

section \<open>An example machine\<close>

text \<open>Two packages with a core each; the time stamp counter runs a million cycles, the others a thousand between two reads.\<close>

definition demo_cpus :: "cpu_place list" where
  "demo_cpus = [(0, 1, 0), (1, 0, 0)]"

definition demo_file :: "string \<Rightarrow> string option" where
  "demo_file path =
     (case List.find (\<lambda>(cpu, pkg, core). path = topology_path (int cpu) ''physical_package_id'') demo_cpus of
        Some (cpu, pkg, core) \<Rightarrow> Some (dec_nat pkg @ newline)
      | None \<Rightarrow> (case List.find (\<lambda>(cpu, pkg, core). path = topology_path (int cpu) ''core_id'') demo_cpus of
          Some (cpu, pkg, core) \<Rightarrow> Some (dec_nat core @ newline)
        | None \<Rightarrow> None))"

definition demo_stat :: string where
  "demo_stat = stat_text (replicate 10 9) [(0, replicate 10 4), (1, replicate 10 5)] ''intr 7''"

definition demo_cpuid :: "u32 \<Rightarrow> u32 \<times> u32 \<times> u32 \<times> u32" where
  "demo_cpuid leaf =
     (if leaf = 0 then (13, 0x756e6547, 0x6c65746e, 0x49656e69)
      else if leaf = 1 then (0x206A7, 0, 0, 0x20)
      else if leaf = 0x80000000 then (0x80000008, 0, 0, 0)
      else if leaf = 0x80000007 then (0, 0, 0, 0x100)
      else (0, 0, 1, 0))"

definition demo_machine :: tenv where
  "demo_machine = \<lparr>t_msr = \<lambda>k cpu off. Msr (of_nat k * (if off = MSR_TSC then 1000000 else 1000)), t_stat = \<lambda>_. Some demo_stat, t_file = \<lambda>_. demo_file,
     t_clock = \<lambda>k. (5 * int k, 0), t_calloc = \<lambda>_. True, t_cpuid = demo_cpuid, t_dev_msr = True, t_uid = 0, t_fork = ForkParent True\<rparr>"

lemma demo_listed_all: "t_stat env = (\<lambda>_. Some demo_stat) \<Longrightarrow> t_file env = (\<lambda>_. demo_file) \<Longrightarrow> t_calloc env = (\<lambda>_. True) \<Longrightarrow> cpus_listed env demo_cpus"
proof -
  assume env: "t_stat env = (\<lambda>_. Some demo_stat)" "t_file env = (\<lambda>_. demo_file)" "t_calloc env = (\<lambda>_. True)"
  have "list_all (\<lambda>(cpu, pkg, core). demo_file (topology_path (int cpu) ''physical_package_id'') = Some (dec_nat pkg @ newline) \<and>
     demo_file (topology_path (int cpu) ''core_id'') = Some (dec_nat core @ newline)) demo_cpus" by code_simp
  then have "list_all (topology_files env) demo_cpus"
    by (simp add: topology_files_def env demo_cpus_def)
  moreover have "stat_ok (replicate 10 9) [(0, replicate 10 4), (1, replicate 10 5)] ''intr 7''"
    by (simp add: stat_ok_def stat_rest_def is_space_def)
  ultimately show ?thesis
    unfolding cpus_listed_def env demo_stat_def
    by (intro conjI allI exI [of _ "replicate 10 9"] exI [of _ "[(0, replicate 10 4), (1, replicate 10 5)]"] exI [of _ "''intr 7''"])
       (auto simp: demo_cpus_def place_ok_def)
qed

lemma demo_listed: "cpus_listed demo_machine demo_cpus"
  by (rule demo_listed_all) (simp_all add: demo_machine_def)

theorem reinitialized_lists_are_sorted_witness:
  "\<exists>t. re_initialize ((tstat_start demo_machine)\<lparr>cnt_average := Some (cell 0 0 7), ts_live := 2\<rparr>) = (Inr (), t) \<and> cnt_odd t = [cell 0 0 1, cell 1 0 0] \<and> ts_live t = 9"
proof -
  let ?s = "(tstat_start demo_machine)\<lparr>cnt_average := Some (cell 0 0 7), ts_live := 2\<rparr>"
  obtain t where t: "re_initialize ?s = (Inr (), t)" "sorted (map ckey (cnt_odd t))" "mset (cnt_odd t) = mset (map place_cell demo_cpus)"
      "cnt_even t = cnt_odd t" "ts_live t = 3 * int (length (cnt_even t)) + 1 + 1 + (int (length demo_cpus) - 1)"
    using reinitialized_lists_are_sorted [of ?s demo_cpus 1] demo_listed by (auto simp: tstat_start_def demo_cpus_def)
  have "sort_key ckey (map place_cell demo_cpus) = cnt_odd t"
    using t(2,3) by (intro sort_key_inj_key_eq) (auto simp: demo_cpus_def inj_on_def place_cell_def cell_def ckey_def)
  then have "cnt_odd t = [cell 0 0 1, cell 1 0 0]"
    by (simp add: demo_cpus_def place_cell_def cell_def ckey_def less_eq_prod_def flip: \<open>sort_key ckey _ = _\<close>)
  with t show ?thesis by (auto simp: demo_cpus_def)
qed

end
