(* ===== verification/Tstat_Interval.thy ===== *)
theory Tstat_Interval
  imports Tstat_Topology
begin

text \<open>
  What \<open>turbostat\<close> shows: the difference of two samples and its residencies, and the whole program on a machine whose counters run forward, where every
  table is about the interval between two samples that follow each other.
\<close>

section \<open>Samples\<close>

text \<open>The registers of a CPU in the order in which they are read, with the field each is put into.\<close>

definition regs :: "tstat \<Rightarrow> (u32 \<times> (u64 \<Rightarrow> counters \<Rightarrow> counters)) list" where
  "regs s = concat
     [[(MSR_TSC, \<lambda>v c. c\<lparr>c_tsc := v\<rparr>)],
      if do_nhm_cstates s then [(MSR_CORE_C3_RESIDENCY, \<lambda>v c. c\<lparr>c_c3 := v\<rparr>), (MSR_CORE_C6_RESIDENCY, \<lambda>v c. c\<lparr>c_c6 := v\<rparr>)] else [],
      if do_snb_cstates s then [(MSR_CORE_C7_RESIDENCY, \<lambda>v c. c\<lparr>c_c7 := v\<rparr>)] else [],
      if has_aperf s then [(MSR_APERF, \<lambda>v c. c\<lparr>c_aperf := v\<rparr>), (MSR_MPERF, \<lambda>v c. c\<lparr>c_mperf := v\<rparr>)] else [],
      if do_snb_cstates s then [(MSR_PKG_C2_RESIDENCY, \<lambda>v c. c\<lparr>c_pc2 := v\<rparr>)] else [],
      if do_nhm_cstates s then [(MSR_PKG_C3_RESIDENCY, \<lambda>v c. c\<lparr>c_pc3 := v\<rparr>), (MSR_PKG_C6_RESIDENCY, \<lambda>v c. c\<lparr>c_pc6 := v\<rparr>)] else [],
      if do_snb_cstates s then [(MSR_PKG_C7_RESIDENCY, \<lambda>v c. c\<lparr>c_pc7 := v\<rparr>)] else [],
      if extra_msr_offset s \<noteq> 0 then [(extra_msr_offset s, \<lambda>v c. c\<lparr>c_extra_msr := v\<rparr>)] else []]"

definition msr_value :: "tenv \<Rightarrow> nat \<Rightarrow> int \<Rightarrow> u32 \<Rightarrow> u64" where
  "msr_value env k cpu off = (case t_msr env k cpu off of Msr v \<Rightarrow> v | _ \<Rightarrow> 0)"

fun take_regs :: "tenv \<Rightarrow> int \<Rightarrow> nat \<Rightarrow> (u32 \<times> (u64 \<Rightarrow> counters \<Rightarrow> counters)) list \<Rightarrow> counters \<Rightarrow> counters" where
  "take_regs env cpu k [] c = c"
| "take_regs env cpu k ((off, upd) # rs) c = take_regs env cpu (k + 1) rs (upd (msr_value env k cpu off) c)"

definition reading :: "tstat \<Rightarrow> nat \<Rightarrow> counters \<Rightarrow> counters" where
  "reading s k c = take_regs (ts_env s) (c_cpu c) k (regs s) c"

fun readings :: "tstat \<Rightarrow> nat \<Rightarrow> counters list \<Rightarrow> counters list" where
  "readings s k [] = []"
| "readings s k (c # cs) = reading s k c # readings s (k + length (regs s)) cs"

definition readable :: "tenv \<Rightarrow> counters list \<Rightarrow> bool" where
  "readable env cs \<longleftrightarrow> (\<forall>c\<in>set cs. \<forall>k off. \<exists>v. t_msr env k (c_cpu c) off = Msr v)"

lemma get_msr_run:
  "\<forall>k off. \<exists>v. t_msr (ts_env s) k cpu off = Msr v \<Longrightarrow>
   get_msr cpu off s = (Inr (msr_value (ts_env s) (ts_reads s) cpu off), s\<lparr>ts_reads := ts_reads s + 1\<rparr>)"
  by (auto simp: get_msr_def prog_simps msr_value_def split: msr_read.splits) (metis msr_read.distinct)+

lemma read_cpu_run:
  assumes "\<forall>k off. \<exists>v. t_msr (ts_env s) k (c_cpu c) off = Msr v"
  shows "read_cpu c s = (Inr (reading s (ts_reads s) c), s\<lparr>ts_reads := ts_reads s + length (regs s)\<rparr>)"
  using assms
  by (cases "do_nhm_cstates s"; cases "do_snb_cstates s"; cases "has_aperf s"; cases "extra_msr_offset s = 0";
      simp add: read_cpu_def read_into_def prog_simps get_msr_run regs_def reading_def)

lemma reading_place [simp]:
  "c_cpu (reading s k c) = c_cpu c" "c_pkg (reading s k c) = c_pkg c" "c_core (reading s k c) = c_core c"
  by (simp_all add: reading_def regs_def)

text \<open>A sample replaces what an earlier one has left in the cell.\<close>

lemma reading_again [simp]: "reading s k (reading s j c) = reading s k c"
  by (cases "do_nhm_cstates s"; cases "do_snb_cstates s"; cases "has_aperf s"; cases "extra_msr_offset s = 0"; simp add: reading_def regs_def)

lemma readings_again [simp]: "readings s k (readings s j cs) = readings s k cs"
  by (induction cs arbitrary: j k) simp_all

lemma length_readings [simp]: "length (readings s k cs) = length cs"
  by (induction cs arbitrary: k) simp_all

lemma readings_place: "map ckey (readings s k cs) = map ckey cs"
  by (induction cs arbitrary: k) (simp_all add: ckey_def)

lemma readable_readings [simp]: "readable env (readings s k cs) = readable env cs"
  by (induction cs arbitrary: k) (auto simp: readable_def)

text \<open>A sample depends on the state only through the environment and the four flags.\<close>

definition same_source :: "tstat \<Rightarrow> tstat \<Rightarrow> bool" where
  "same_source s t \<longleftrightarrow> ts_env s = ts_env t \<and> do_nhm_cstates s = do_nhm_cstates t \<and> do_snb_cstates s = do_snb_cstates t \<and>
     has_aperf s = has_aperf t \<and> extra_msr_offset s = extra_msr_offset t"

lemma same_source_regs: "same_source s t \<Longrightarrow> regs s = regs t"
  by (simp add: same_source_def regs_def)

lemma same_source_readings: "same_source s t \<Longrightarrow> readings s k cs = readings t k cs"
  using same_source_regs [of s t] by (induction cs arbitrary: k) (simp_all add: reading_def same_source_def)

lemma get_counters_run:
  "readable (ts_env s) cs \<Longrightarrow> get_counters cs s = (Inr (readings s (ts_reads s) cs), s\<lparr>ts_reads := ts_reads s + length cs * length (regs s)\<rparr>)"
proof (induction cs arbitrary: s)
  case (Cons c cs)
  let ?s = "s\<lparr>ts_reads := ts_reads s + length (regs s)\<rparr>"
  have ss: "same_source ?s s" by (simp add: same_source_def)
  have "get_counters cs ?s = (Inr (readings ?s (ts_reads ?s) cs), ?s\<lparr>ts_reads := ts_reads ?s + length cs * length (regs ?s)\<rparr>)"
    using Cons.prems by (intro Cons.IH) (simp add: readable_def)
  moreover have "read_cpu c s = (Inr (reading s (ts_reads s) c), ?s)"
    using Cons.prems by (intro read_cpu_run) (simp add: readable_def)
  ultimately show ?case
    by (simp add: prog_simps same_source_readings [OF ss] same_source_regs [OF ss] add.assoc)
qed (simp add: prog_simps)

section \<open>Differences\<close>

definition forward :: "counters \<Rightarrow> counters \<Rightarrow> bool" where
  "forward b a \<longleftrightarrow> unat (c_tsc b) + 1000000 \<le> unat (c_tsc a) \<and> c_aperf b \<le> c_aperf a \<and> c_mperf b \<le> c_mperf a \<and> c_c3 b \<le> c_c3 a \<and>
     c_c6 b \<le> c_c6 a \<and> c_c7 b \<le> c_c7 a \<and> c_pc2 b \<le> c_pc2 a \<and> c_pc3 b \<le> c_pc3 a \<and> c_pc6 b \<le> c_pc6 a \<and> c_pc7 b \<le> c_pc7 a"

text \<open>The difference of two samples of a CPU, in a cell for that CPU.\<close>

definition raw_diff :: "counters \<Rightarrow> counters \<Rightarrow> counters \<Rightarrow> counters" where
  "raw_diff b a d = d\<lparr>c_tsc := c_tsc a - c_tsc b, c_c3 := c_c3 a - c_c3 b, c_c6 := c_c6 a - c_c6 b, c_c7 := c_c7 a - c_c7 b,
     c_pc2 := c_pc2 a - c_pc2 b, c_pc3 := c_pc3 a - c_pc3 b, c_pc6 := c_pc6 a - c_pc6 b, c_pc7 := c_pc7 a - c_pc7 b,
     c_aperf := c_aperf a - c_aperf b, c_mperf := c_mperf a - c_mperf b\<rparr>"

definition diff_into :: "counters \<Rightarrow> counters \<Rightarrow> counters \<Rightarrow> counters" where
  "diff_into b a d =
     (let r = raw_diff b a d
      in r\<lparr>c_c1 := derive_c1 r, c_mperf := (if c_mperf r = 0 then 1 else c_mperf r), c_extra_msr := c_extra_msr a\<rparr>)"

definition interval :: "counters \<Rightarrow> counters \<Rightarrow> counters" where
  "interval b a = diff_into b a a"

lemma diff_into_interval: "ckey d = ckey a \<Longrightarrow> diff_into b a d = interval b a"
  by (auto simp: interval_def diff_into_def raw_diff_def ckey_def Let_def derive_c1_def intro!: counters.equality)

lemma SUBTRACT_COUNTER_run: "b \<le> a \<Longrightarrow> SUBTRACT_COUNTER l cpu a b s = (Inr (a - b, False), s)"
  by (simp add: SUBTRACT_COUNTER_def prog_simps not_less)

lemma forward_tsc: "forward b a \<Longrightarrow> c_tsc b \<le> c_tsc a \<and> \<not> c_tsc a - c_tsc b < 1000000"
proof -
  assume f: "forward b a"
  then have le: "c_tsc b \<le> c_tsc a" by (simp add: forward_def word_le_nat_alt)
  then have "unat (c_tsc a - c_tsc b) = unat (c_tsc a) - unat (c_tsc b)" by (simp add: unat_sub)
  then have "1000000 \<le> unat (c_tsc a - c_tsc b)" using f by (auto simp: forward_def)
  then show ?thesis using le by (simp add: word_less_nat_alt)
qed

lemma delta_cpu_run:
  assumes "forward b a"
  shows "delta_cpu a b d s = (Inr (diff_into b a d), s)"
proof -
  have "b' \<le> a' \<Longrightarrow> \<not> a' < b'" for a' b' :: u64 by simp
  then show ?thesis
    using assms forward_tsc [OF assms]
    by (simp add: delta_cpu_def forward_def SUBTRACT_COUNTER_run prog_simps Let_def diff_into_def raw_diff_def)
qed

lemma delta_loop_run:
  assumes "list_all2 forward bs as" "map c_cpu bs = map c_cpu as" "length ds = length as"
  shows "delta_loop as bs ds s = (Inr (0, map (\<lambda>(b, a, d). diff_into b a d) (zip bs (zip as ds))), s)"
  using assms
proof (induction as arbitrary: bs ds rule: list.induct)
  case (Cons a as)
  then obtain b bs' d ds' where l: "bs = b # bs'" "ds = d # ds'" by (cases bs; cases ds) auto
  with Cons show ?case by (simp add: prog_simps delta_cpu_run)
qed (simp add: prog_simps)

definition intervals :: "counters list \<Rightarrow> counters list \<Rightarrow> counters list" where
  "intervals bs as = map (\<lambda>(b, a). interval b a) (zip bs as)"

lemma diff_into_intervals:
  "map ckey ds = map ckey as \<Longrightarrow> length bs = length as \<Longrightarrow> map (\<lambda>(b, a, d). diff_into b a d) (zip bs (zip as ds)) = intervals bs as"
proof (induction as arbitrary: bs ds)
  case (Cons a as)
  then obtain b bs' d ds' where l: "bs = b # bs'" "ds = d # ds'" by (cases bs; cases ds) auto
  with Cons show ?case by (simp add: intervals_def diff_into_interval)
qed (simp add: intervals_def)

lemma intervals_place: "length bs = length as \<Longrightarrow> map ckey (intervals bs as) = map ckey as"
  by (induction as arbitrary: bs) (case_tac bs; auto simp: intervals_def interval_def diff_into_def raw_diff_def ckey_def Let_def)+

lemma compute_delta_run:
  assumes "list_all2 forward bs as" "map ckey bs = map ckey as" "map ckey (cnt_delta s) = map ckey as"
  shows "compute_delta as bs s = (Inr 0, s\<lparr>skip_c0 := False, skip_c1 := False, cnt_delta := intervals bs as\<rparr>)"
proof -
  have c: "map c_cpu xs = map (snd \<circ> snd) (map ckey xs)" for xs by (simp add: ckey_def)
  have "map c_cpu bs = map c_cpu as" using assms(2) by (simp only: c)
  moreover have l: "length (cnt_delta s) = length as" "length bs = length as" using assms(2,3) by (metis length_map)+
  ultimately show ?thesis
    using assms by (simp add: compute_delta_def prog_simps delta_loop_run diff_into_intervals)
qed

section \<open>Tables\<close>

definition average :: "nat \<Rightarrow> counters list \<Rightarrow> counters" where
  "average n ds = divide_counters (of_nat n) (foldl add_counters zero_counters ds) zero_counters"

lemma compute_average_run:
  assumes "t_calloc (ts_env s) (ts_callocs s)" "num_cpus s \<noteq> 0" "cnt_average s = Some avg"
  shows "compute_average ds s = (Inr (), s\<lparr>ts_callocs := ts_callocs s + 1, ts_live := ts_live s,
    cnt_average := Some (divide_counters (of_int (num_cpus s)) (foldl add_counters zero_counters ds) avg)\<rparr>)"
  using assms by (simp add: compute_average_def calloc_counters_def prog_simps Let_def)

definition table :: "tstat \<Rightarrow> counters list \<Rightarrow> counters \<Rightarrow> outp list" where
  "table s ds avg = header_line s @ (if num_cpus s > 1 then cnt_line s True avg else []) @ concat (map (cnt_line s False) ds)"

lemma cnt_line_out [simp]: "cnt_line (s\<lparr>ts_out := x\<rparr>) = cnt_line s"
  by (intro ext) (simp add: cnt_line_def ghz_def interval_float_def)

lemma print_cnts_run: "print_cnts cs s = (Inr (), s\<lparr>ts_out := ts_out s @ concat (map (cnt_line s False) cs)\<rparr>)"
  by (induction cs arbitrary: s) (simp_all add: prog_simps print_cnt_def)

lemma print_counters_run:
  "cnt_average s = Some avg \<Longrightarrow> print_counters cs s = (Inr (), s\<lparr>ts_out := ts_out s @ table s cs avg\<rparr>)"
  by (simp add: print_counters_def print_header_def prog_simps print_cnt_def print_cnts_run table_def)

text \<open>The line of the averages does not depend on the place in the cell that it is computed in.\<close>

lemma cnt_line_average:
  "c_extra_msr avg = 0 \<Longrightarrow> cnt_line s True (divide_counters n acc avg) = cnt_line s True (divide_counters n acc zero_counters)"
  by (simp add: cnt_line_def divide_counters_def zero_counters_def ghz_def percent_def)

text \<open>The tables of a run that starts in a state \<open>s\<close>: the samples, the times and what is shown of interval \<open>i\<close>.\<close>

definition sample :: "tstat \<Rightarrow> nat \<Rightarrow> counters list" where
  "sample s i = readings s (ts_reads s + i * (length (cnt_even s) * length (regs s))) (cnt_even s)"

definition sample_time :: "tstat \<Rightarrow> nat \<Rightarrow> int \<times> int" where
  "sample_time s i = t_clock (ts_env s) (ts_clocks s + i)"

definition interval_table :: "tstat \<Rightarrow> nat \<Rightarrow> outp list" where
  "interval_table s i =
     (let ds = intervals (sample s i) (sample s (i + 1))
      in table (s\<lparr>tv_delta := timersub (sample_time s (i + 1)) (sample_time s i), skip_c0 := False, skip_c1 := False\<rparr>) ds
           (average (length (cnt_even s)) ds))"

text \<open>The states between two samples: the settings are those of \<open>s0\<close>, and \<open>i\<close> samples have been taken.\<close>

definition same_setup :: "tstat \<Rightarrow> tstat \<Rightarrow> bool" where
  "same_setup s t \<longleftrightarrow> same_source s t \<and> interval_sec s = interval_sec t \<and> show_pkg s = show_pkg t \<and> show_core s = show_core t \<and>
     show_cpu s = show_cpu t \<and> aperf_mperf_unstable s = aperf_mperf_unstable t \<and> num_cpus s = num_cpus t \<and>
     need_reinitialize s = need_reinitialize t"

definition running :: "tstat \<Rightarrow> nat \<Rightarrow> tstat \<Rightarrow> bool" where
  "running s0 i s \<longleftrightarrow> same_setup s s0 \<and> ts_reads s = ts_reads s0 + i * (length (cnt_even s0) * length (regs s0)) \<and>
     ts_clocks s = ts_clocks s0 + i \<and> map ckey (cnt_delta s) = map ckey (cnt_even s0) \<and>
     (\<exists>avg. cnt_average s = Some avg \<and> c_extra_msr avg = 0) \<and>
     (\<forall>k. readings s0 k (cnt_odd s) = readings s0 k (cnt_even s0)) \<and> (\<forall>k. readings s0 k (cnt_even s) = readings s0 k (cnt_even s0)) \<and>
     length (cnt_odd s) = length (cnt_even s0) \<and> length (cnt_even s) = length (cnt_even s0)"

lemma table_cong:
  assumes "same_setup s t" "tv_delta s = tv_delta t" "skip_c0 s = skip_c0 t" "skip_c1 s = skip_c1 t"
  shows "table s = table t"
proof -
  have "cnt_line s = cnt_line t"
    using assms by (intro ext) (simp add: cnt_line_def ghz_def interval_float_def same_setup_def same_source_def)
  moreover have "header_line s = header_line t"
    using assms by (simp add: header_line_def same_setup_def same_source_def)
  ultimately show ?thesis using assms by (intro ext) (simp add: table_def same_setup_def)
qed

lemma table_average:
  "c_extra_msr avg = 0 \<Longrightarrow> table s ds (divide_counters n acc avg) = table s ds (divide_counters n acc zero_counters)"
  using cnt_line_average [of avg s n acc] by (simp add: table_def)

definition machine_ready :: "tstat \<Rightarrow> bool" where
  "machine_ready s \<longleftrightarrow> num_cpus s = int (length (cnt_even s)) \<and> cnt_even s \<noteq> [] \<and> (\<forall>k. t_calloc (ts_env s) k) \<and> readable (ts_env s) (cnt_even s) \<and>
     \<not> need_reinitialize s"

lemma sample_place [simp]: "map ckey (sample s i) = map ckey (cnt_even s)" "length (sample s i) = length (cnt_even s)"
  by (simp_all add: sample_def readings_place)

lemma show_interval_run:
  assumes r: "running s0 i s" and g: "machine_ready s0" and f: "list_all2 forward (sample s0 j) (sample s0 (j + 1))"
  shows "\<exists>t. show_interval (sample s0 (j + 1)) (sample s0 j) (timersub (sample_time s0 (j + 1)) (sample_time s0 j)) s = (Inr (), t) \<and>
    running s0 i t \<and> cnt_even t = cnt_even s \<and> cnt_odd t = cnt_odd s \<and> tv_even t = tv_even s \<and> tv_odd t = tv_odd s \<and>
    ts_out t = ts_out s @ interval_table s0 j"
proof -
  obtain avg where avg: "cnt_average s = Some avg" "c_extra_msr avg = 0" using r by (auto simp: running_def)
  have n: "num_cpus s = int (length (cnt_even s0))" "num_cpus s \<noteq> 0" "ts_env s = ts_env s0"
    using r g by (auto simp: running_def same_setup_def same_source_def machine_ready_def)
  define ds where "ds = intervals (sample s0 j) (sample s0 (j + 1))"
  define tv where "tv = timersub (sample_time s0 (j + 1)) (sample_time s0 j)"
  define acc where "acc = foldl add_counters zero_counters ds"
  define avg' where "avg' = divide_counters (of_int (num_cpus s)) acc avg"
  define u where "u = s\<lparr>skip_c0 := False, skip_c1 := False, cnt_delta := ds, tv_delta := tv, ts_callocs := ts_callocs s + 1, ts_live := ts_live s, cnt_average := Some avg'\<rparr>"
  have 1: "compute_delta (sample s0 (j + 1)) (sample s0 j) s = (Inr 0, s\<lparr>skip_c0 := False, skip_c1 := False, cnt_delta := ds\<rparr>)"
    unfolding ds_def using r by (intro compute_delta_run f) (simp_all add: running_def)
  have 2: "compute_average ds (s\<lparr>skip_c0 := False, skip_c1 := False, cnt_delta := ds, tv_delta := tv\<rparr>) = (Inr (), u)"
    using n avg g by (subst compute_average_run [of _ avg]) (simp_all add: machine_ready_def u_def avg'_def acc_def)
  have 3: "print_counters ds u = (Inr (), u\<lparr>ts_out := ts_out u @ table u ds avg'\<rparr>)"
    by (rule print_counters_run) (simp add: u_def)
  let ?w = "s0\<lparr>tv_delta := tv, skip_c0 := False, skip_c1 := False\<rparr>"
  have "table u = table ?w"
    using r by (intro table_cong) (simp_all add: u_def running_def same_setup_def same_source_def)
  moreover have "interval_table s0 j = table ?w ds (average (length (cnt_even s0)) ds)"
    by (simp only: interval_table_def Let_def ds_def tv_def)
  ultimately have 4: "table u ds avg' = interval_table s0 j"
    using table_average [OF avg(2), of ?w ds] n(1) by (simp add: average_def avg'_def acc_def)
  have "map ckey ds = map ckey (cnt_even s0)" by (simp add: ds_def intervals_place)
  then have "running s0 i (u\<lparr>ts_out := ts_out u @ table u ds avg'\<rparr>)"
    using r avg(2) by (simp add: running_def u_def same_setup_def same_source_def avg'_def divide_counters_def)
  moreover have "show_interval (sample s0 (j + 1)) (sample s0 j) tv s = (Inr (), u\<lparr>ts_out := ts_out u @ table u ds avg'\<rparr>)"
    using 1 2 3 by (simp add: show_interval_def prog_simps)
  ultimately show ?thesis unfolding tv_def [symmetric] 4 by (intro exI conjI) (assumption, simp_all add: u_def)
qed

lemma sample_odd_run:
  assumes r: "running s0 i s" and g: "machine_ready s0"
  shows "\<exists>t. sample_odd s = (Inr (), t) \<and> running s0 (i + 1) t \<and> cnt_odd t = sample s0 i \<and> tv_odd t = sample_time s0 i \<and>
    cnt_even t = cnt_even s \<and> tv_even t = tv_even s \<and> ts_out t = ts_out s"
proof -
  have e: "same_source s s0" "ts_env s = ts_env s0" using r by (simp_all add: running_def same_setup_def same_source_def)
  have "readable (ts_env s) (cnt_odd s)"
    using r g readable_readings [of "ts_env s0" s0 0 "cnt_odd s"] by (simp add: running_def machine_ready_def e(2))
  then have "get_counters (cnt_odd s) s = (Inr (sample s0 i), s\<lparr>ts_reads := ts_reads s + length (cnt_even s0) * length (regs s0)\<rparr>)"
    using r by (simp add: get_counters_run same_source_readings [OF e(1)] same_source_regs [OF e(1)] running_def sample_def)
  then have "sample_odd s = (Inr (), s\<lparr>ts_reads := ts_reads s + length (cnt_even s0) * length (regs s0), cnt_odd := sample s0 i,
      ts_clocks := ts_clocks s + 1, tv_odd := sample_time s0 i\<rparr>)" (is "_ = (_, ?t)")
    using r by (simp add: sample_odd_def gettimeofday_def prog_simps sample_time_def running_def e(2))
  moreover have "running s0 (i + 1) ?t"
    using r by (simp add: running_def same_setup_def same_source_def sample_def add.commute add.left_commute)
  ultimately show ?thesis by (intro exI [of _ ?t]) simp
qed

lemma sample_even_run:
  assumes r: "running s0 i s" and g: "machine_ready s0"
  shows "\<exists>t. sample_even s = (Inr (), t) \<and> running s0 (i + 1) t \<and> cnt_even t = sample s0 i \<and> tv_even t = sample_time s0 i \<and>
    cnt_odd t = cnt_odd s \<and> tv_odd t = tv_odd s \<and> ts_out t = ts_out s"
proof -
  have e: "same_source s s0" "ts_env s = ts_env s0" using r by (simp_all add: running_def same_setup_def same_source_def)
  have "readable (ts_env s) (cnt_even s)"
    using r g readable_readings [of "ts_env s0" s0 0 "cnt_even s"] by (simp add: running_def machine_ready_def e(2))
  then have "get_counters (cnt_even s) s = (Inr (sample s0 i), s\<lparr>ts_reads := ts_reads s + length (cnt_even s0) * length (regs s0)\<rparr>)"
    using r by (simp add: get_counters_run same_source_readings [OF e(1)] same_source_regs [OF e(1)] running_def sample_def)
  then have "sample_even s = (Inr (), s\<lparr>ts_reads := ts_reads s + length (cnt_even s0) * length (regs s0), cnt_even := sample s0 i,
      ts_clocks := ts_clocks s + 1, tv_even := sample_time s0 i\<rparr>)" (is "_ = (_, ?t)")
    using r by (simp add: sample_even_def gettimeofday_def prog_simps sample_time_def running_def e(2))
  moreover have "running s0 (i + 1) ?t"
    using r by (simp add: running_def same_setup_def same_source_def sample_def add.commute add.left_commute)
  ultimately show ?thesis by (intro exI [of _ ?t]) simp
qed

text \<open>A turn of the loop takes two samples and shows two intervals.\<close>

lemma verify_num_cpus_run:
  assumes "cpus_listed (ts_env s) cpus" "num_cpus s = int (length cpus)"
  shows "verify_num_cpus s = (Inr (), s\<lparr>ts_stats := ts_stats s + 1, ts_files := ts_files s + 2 * length cpus\<rparr>)"
  using dummy_visitor.for_all_run [OF assms(1)] assms(2) by (simp add: verify_num_cpus_def prog_simps visited_dummy)

lemma loop_turn_run:
  assumes r: "running s0 (2 * j + 1) s" and g: "machine_ready s0"
    and d: "cpus_listed (ts_env s0) cpus" "length cpus = length (cnt_even s0)"
    and e: "cnt_even s = sample s0 (2 * j)" "tv_even s = sample_time s0 (2 * j)"
    and f: "list_all2 forward (sample s0 (2 * j)) (sample s0 (2 * j + 1))" "list_all2 forward (sample s0 (2 * j + 1)) (sample s0 (2 * j + 2))"
  shows "\<exists>t. loop_turn s = (Inr False, t) \<and> running s0 (2 * (j + 1) + 1) t \<and> cnt_even t = sample s0 (2 * (j + 1)) \<and>
    tv_even t = sample_time s0 (2 * (j + 1)) \<and>
    ts_out t = ts_out s @ Sleep (interval_sec s0) # interval_table s0 (2 * j) @ Sleep (interval_sec s0) # interval_table s0 (2 * j + 1)"
proof -
  let ?sl = "Sleep (interval_sec s0)"
  have "ts_env s = ts_env s0" "num_cpus s = int (length cpus)"
    using r g d(2) by (simp_all add: running_def same_setup_def same_source_def machine_ready_def)
  then have v: "verify_num_cpus s = (Inr (), s\<lparr>ts_stats := ts_stats s + 1, ts_files := ts_files s + 2 * length cpus\<rparr>)"
    using verify_num_cpus_run [of s cpus] d by simp
  define s1 where "s1 = s\<lparr>ts_stats := ts_stats s + 1, ts_files := ts_files s + 2 * length cpus, ts_out := ts_out s @ [?sl]\<rparr>"
  have nr: "running s0 i t \<Longrightarrow> \<not> need_reinitialize t \<and> interval_sec t = interval_sec s0" for i t
    using g by (simp add: running_def same_setup_def machine_ready_def)
  have "running s0 (2 * j + 1) s1" using r by (simp add: s1_def running_def same_setup_def same_source_def)
  then obtain s2 where s2: "sample_odd s1 = (Inr (), s2)" "running s0 (2 * j + 1 + 1) s2" "cnt_odd s2 = sample s0 (2 * j + 1)"
      "tv_odd s2 = sample_time s0 (2 * j + 1)" "cnt_even s2 = cnt_even s1" "tv_even s2 = tv_even s1" "ts_out s2 = ts_out s1"
    using sample_odd_run [OF _ g] by blast
  obtain s3 where s3: "show_interval (sample s0 (2 * j + 1)) (sample s0 (2 * j)) (timersub (sample_time s0 (2 * j + 1)) (sample_time s0 (2 * j))) s2 = (Inr (), s3)"
      "running s0 (2 * j + 1 + 1) s3" "cnt_odd s3 = cnt_odd s2" "tv_odd s3 = tv_odd s2" "ts_out s3 = ts_out s2 @ interval_table s0 (2 * j)"
    using show_interval_run [OF s2(2) g f(1)] by blast
  define s4 where "s4 = s3\<lparr>ts_out := ts_out s3 @ [?sl]\<rparr>"
  have "running s0 (2 * j + 1 + 1) s4" using s3(2) by (simp add: s4_def running_def same_setup_def same_source_def)
  then obtain s5 where s5: "sample_even s4 = (Inr (), s5)" "running s0 (2 * j + 1 + 1 + 1) s5" "cnt_even s5 = sample s0 (2 * j + 1 + 1)"
      "tv_even s5 = sample_time s0 (2 * j + 1 + 1)" "cnt_odd s5 = cnt_odd s4" "tv_odd s5 = tv_odd s4" "ts_out s5 = ts_out s4"
    using sample_even_run [OF _ g] by blast
  have "list_all2 forward (sample s0 (2 * j + 1)) (sample s0 (2 * j + 1 + 1))" using f(2) by (simp add: numeral_eq_Suc)
  from show_interval_run [OF s5(2) g this]
  obtain s6 where s6: "show_interval (sample s0 (2 * j + 1 + 1)) (sample s0 (2 * j + 1)) (timersub (sample_time s0 (2 * j + 1 + 1)) (sample_time s0 (2 * j + 1))) s5 = (Inr (), s6)"
      "running s0 (2 * j + 1 + 1 + 1) s6" "cnt_even s6 = cnt_even s5" "tv_even s6 = tv_even s5" "ts_out s6 = ts_out s5 @ interval_table s0 (2 * j + 1)"
    by blast
  have "show_odd s2 = (Inr (), s3)" using s3(1) s2(3-6) e by (simp add: show_odd_def prog_simps s1_def)
  moreover have "show_even s5 = (Inr (), s6)" using s6(1) s5(3-6) s3(3,4) s2(3,4) by (simp add: show_even_def prog_simps s4_def)
  moreover have "sleep_interval (s\<lparr>ts_stats := ts_stats s + 1, ts_files := ts_files s + 2 * length cpus\<rparr>) = (Inr (), s1)"
    using nr [OF r] by (simp add: sleep_interval_def prog_simps s1_def)
  moreover have "sleep_interval s3 = (Inr (), s4)"
    using nr [OF s3(2)] by (simp add: sleep_interval_def prog_simps s4_def)
  ultimately have "loop_turn s = (Inr False, s6)"
    using v s2(1) s5(1) nr [OF r] nr [OF s3(2)] by (simp add: loop_turn_def prog_simps)
  then show ?thesis
    using s6(2-5) s5(3,4,7) s3(5) s2(7) by (intro exI [of _ s6]) (simp add: s4_def s1_def)
qed

lemma loop_turns_run:
  assumes r: "running s0 (2 * j + 1) s" and g: "machine_ready s0"
    and d: "cpus_listed (ts_env s0) cpus" "length cpus = length (cnt_even s0)"
    and e: "cnt_even s = sample s0 (2 * j)" "tv_even s = sample_time s0 (2 * j)"
    and f: "\<And>i. i < 2 * (j + n) \<Longrightarrow> list_all2 forward (sample s0 i) (sample s0 (i + 1))"
  shows "\<exists>t. loop_turns n s = (Inl Running, t) \<and>
    ts_out t = ts_out s @ concat (map (\<lambda>i. Sleep (interval_sec s0) # interval_table s0 i) [2 * j..<2 * (j + n)])"
  using r e f
proof (induction n arbitrary: j s)
  case 0
  then show ?case by (simp add: prog_simps)
next
  case (Suc n)
  obtain t where t: "loop_turn s = (Inr False, t)" "running s0 (2 * (j + 1) + 1) t" "cnt_even t = sample s0 (2 * (j + 1))"
      "tv_even t = sample_time s0 (2 * (j + 1))"
      "ts_out t = ts_out s @ Sleep (interval_sec s0) # interval_table s0 (2 * j) @ Sleep (interval_sec s0) # interval_table s0 (2 * j + 1)"
    using loop_turn_run [OF Suc.prems(1) g d Suc.prems(2,3)] Suc.prems(4) [of "2 * j"] Suc.prems(4) [of "2 * j + 1"] by auto
  obtain u where u: "loop_turns n t = (Inl Running, u)"
      "ts_out u = ts_out t @ concat (map (\<lambda>i. Sleep (interval_sec s0) # interval_table s0 i) [2 * (j + 1)..<2 * (j + 1 + n)])"
    using Suc.IH [OF t(2-4)] Suc.prems(4) by auto
  have "[2 * j..<2 * (j + Suc n)] = 2 * j # (2 * j + 1) # [2 * (j + 1)..<2 * (j + 1 + n)]" by (simp add: upt_conv_Cons)
  with t u show ?case by (simp add: prog_simps)
qed

section \<open>The whole program\<close>

text \<open>What \<open>check_cpuid\<close> finds out about the processor.\<close>

definition with_features :: "tstat \<Rightarrow> tstat \<Rightarrow> tstat" where
  "with_features t s = s\<lparr>genuine_intel := genuine_intel t, has_invariant_tsc := has_invariant_tsc t, has_aperf := has_aperf t,
     do_nehalem_platform_info := do_nehalem_platform_info t, do_nhm_cstates := do_nhm_cstates t, do_snb_cstates := do_snb_cstates t, bclk := bclk t,
     do_nehalem_turbo_ratio_limit := do_nehalem_turbo_ratio_limit t\<rparr>"

lemma check_cpuid_keeps:
  assumes "verbose s = 0" "check_cpuid s = (Inr (), t)"
  shows "\<exists>x. t = with_features x s"
  using assms
  by (intro exI [of _ t]) (auto simp: check_cpuid_def prog_simps Let_def with_features_def split: if_splits prod.splits)

lemma dump_init_inv:
  assumes init: "dump_init s = (Inr (), t)" and v: "verbose s = 0"
    and d: "cpus_listed (ts_env s) cpus" "distinct (map fst cpus)" "cnt_odd s = []" "cnt_even s = []" "cnt_delta s = []"
  shows "\<exists>x f. t = (with_cells (sorted_cells cpus) cpus f [] (with_features x (s\<lparr>ts_stats := ts_stats s + 1\<rparr>)))\<lparr>num_cpus := int (length cpus)\<rparr>"
proof -
  obtain s1 where 1: "check_cpuid s = (Inr (), s1)"
    using init by (auto simp: dump_init_def prog_simps split: prod.splits sum.splits)
  obtain x where s1: "s1 = with_features x s" using check_cpuid_keeps [OF v 1] by blast
  have 2: "check_dev_msr s1 = (Inr (), s1)"
    using init 1 by (auto simp: dump_init_def prog_simps check_dev_msr_def split: if_splits)
  obtain f where 3: "for_all_cpus alloc_new_counters s1 = (Inr (int (length cpus)), with_cells (sorted_cells cpus) cpus f [] (s1\<lparr>ts_stats := ts_stats s1 + 1\<rparr>))"
    using for_all_alloc_run [of s1 cpus] d v by (auto simp: s1 with_features_def)
  have "t = (with_cells (sorted_cells cpus) cpus f [] (s1\<lparr>ts_stats := ts_stats s1 + 1\<rparr>))\<lparr>num_cpus := int (length cpus)\<rparr>"
    using init 1 2 3 v by (simp add: dump_init_def dump_check_super_user_def prog_simps with_cells_def s1 with_features_def)
  also have "\<dots> = (with_cells (sorted_cells cpus) cpus f [] (with_features x (s\<lparr>ts_stats := ts_stats s + 1\<rparr>)))\<lparr>num_cpus := int (length cpus)\<rparr>"
    by (rule tstat.equality) (simp_all add: s1 with_features_def with_cells_def)
  finally show ?thesis by blast
qed

text \<open>The start of \<open>turbostat\<close> is that of the dump tool, if the check for the super user succeeds.\<close>

lemma turbostat_init_dump: "turbostat_init s = (Inr (), t) \<Longrightarrow> dump_init s = (Inr (), t)"
  by (auto simp: turbostat_init_def dump_init_def dump_check_super_user_def check_super_user_def prog_simps split: prod.splits sum.splits if_splits)

lemma readable_sorted: "readable env (sorted_cells cpus) = readable env (map place_cell cpus)"
  by (simp add: readable_def sorted_cells_def)

text \<open>
  C8. On a machine whose CPUs stay the same, whose registers can be read and whose counters run forward, \<open>turbostat\<close> without
  arguments never ends, and what it prints in any number of turns is one table for each interval: the table of interval i is computed from the
  samples i and i + 1 of every CPU, so that no time is left out or counted twice, although the two buffers change their roles in every interval.
\<close>

theorem turbostat_shows_every_interval:
  assumes init: "turbostat_init ((tstat_start env)\<lparr>progname := name\<rparr>) = (Inr (), s)"
    and d: "cpus_listed env cpus" "distinct (map fst cpus)" "cpus \<noteq> []" and r: "readable env (map place_cell cpus)"
    and f: "\<And>i. i < 2 * n \<Longrightarrow> list_all2 forward (sample s i) (sample s (i + 1))"
  shows "\<exists>t. turbostat_main n [name] (tstat_start env) = (Inl Running, t) \<and>
    ts_out t = concat (map (\<lambda>i. Sleep 5 # interval_table s i) [0..<2 * n])"
proof -
  let ?s = "(tstat_start env)\<lparr>progname := name\<rparr>"
  have start: "verbose ?s = 0" "ts_env ?s = env" "cnt_odd ?s = []" "cnt_even ?s = []" "cnt_delta ?s = []"
    by (simp_all add: tstat_start_def)
  obtain x fl where s: "s = (with_cells (sorted_cells cpus) cpus fl [] (with_features x (?s\<lparr>ts_stats := ts_stats ?s + 1\<rparr>)))\<lparr>num_cpus := int (length cpus)\<rparr>"
    using dump_init_inv [OF turbostat_init_dump [OF init] _ _ d(2)] d(1) start by auto
  have l: "length (sorted_cells cpus) = length cpus" by (simp add: sorted_cells_def)
  then have ne: "sorted_cells cpus \<noteq> []" using d(3) by auto
  have g: "machine_ready s"
    using d r l ne by (simp add: s machine_ready_def with_cells_def with_features_def tstat_start_def cpus_listed_def readable_sorted)
  have i0: "interval_sec s = 5" "ts_out s = []" "ts_env s = env" "cnt_even s = sorted_cells cpus"
    by (simp_all add: s with_cells_def with_features_def tstat_start_def)
  have "running s 0 s"
    using d(3) by (auto simp: running_def same_setup_def same_source_def s with_cells_def with_features_def tstat_start_def place_cell_def cell_def zero_counters_def split: prod.splits)
  then obtain u where u: "sample_even s = (Inr (), u)" "running s (0 + 1) u" "cnt_even u = sample s 0" "tv_even u = sample_time s 0" "ts_out u = ts_out s"
    using sample_even_run [OF _ g] by blast
  obtain t where t: "loop_turns n u = (Inl Running, t)" "ts_out t = ts_out u @ concat (map (\<lambda>i. Sleep (interval_sec s) # interval_table s i) [2 * 0..<2 * (0 + n)])"
    using loop_turns_run [of s 0 u cpus n] u(2-4) g d(1) l f by (auto simp: i0)
  have "turbostat_main n [name] (tstat_start env) = (Inl Running, t)"
    using init u(1) t(1)
    by (simp add: turbostat_main_def cmdline_def prog_simps banner_def turbostat_loop_def tstat_start_def)
  with t(2) u(5) show ?thesis by (simp add: i0)
qed

lemma demo_check_cpuid:
  assumes "t_cpuid env = demo_cpuid"
  shows "\<exists>x. check_cpuid ((tstat_start env)\<lparr>progname := name, dump_n_exit := b\<rparr>) = (Inr (), with_features x ((tstat_start env)\<lparr>progname := name, dump_n_exit := b\<rparr>)) \<and>
    do_nhm_cstates x \<and> do_snb_cstates x \<and> has_aperf x"
proof -
  have c: "demo_cpuid 0 = (13, 0x756e6547, 0x6c65746e, 0x49656e69)" "demo_cpuid 1 = (0x206A7, 0, 0, 0x20)" "demo_cpuid 0x80000000 = (0x80000008, 0, 0, 0)"
    "demo_cpuid 0x80000007 = (0, 0, 0, 0x100)" "demo_cpuid 6 = (0, 0, 1, 0)" by (simp_all add: demo_cpuid_def)
  have m: "is_snb True (cpu_family 0x206A7) (cpu_model 0x206A7)" "bit (0x20 :: u32) 5" "bit (0x100 :: u32) 8" "bit (1 :: u32) 0" by code_simp+
  let ?s = "(tstat_start env)\<lparr>progname := name, dump_n_exit := b\<rparr>"
  obtain t where t: "check_cpuid ?s = (Inr (), t)" "do_nhm_cstates t" "do_snb_cstates t" "has_aperf t"
    by (simp add: check_cpuid_def prog_simps tstat_start_def assms c m Let_def)
  then show ?thesis using check_cpuid_keeps [OF _ t(1)] by (auto simp: tstat_start_def with_features_def)
qed

lemma dump_init_run:
  assumes "check_cpuid s = (Inr (), with_features x s)" "verbose s = 0" "t_dev_msr (ts_env s)"
    and d: "cpus_listed (ts_env s) cpus" "distinct (map fst cpus)" "cnt_odd s = []" "cnt_even s = []" "cnt_delta s = []"
  shows "\<exists>f. dump_init s =
    (Inr (), (with_cells (sorted_cells cpus) cpus f [] (with_features x (s\<lparr>ts_stats := ts_stats s + 1\<rparr>)))\<lparr>num_cpus := int (length cpus)\<rparr>)"
proof -
  let ?s = "with_features x s"
  have w: "?s\<lparr>ts_stats := k\<rparr> = with_features x (s\<lparr>ts_stats := k\<rparr>)" for k by (rule tstat.equality) (simp_all add: with_features_def)
  obtain f where "for_all_cpus alloc_new_counters ?s = (Inr (int (length cpus)), with_cells (sorted_cells cpus) cpus f [] (?s\<lparr>ts_stats := ts_stats ?s + 1\<rparr>))"
    using for_all_alloc_run [of ?s cpus] d assms(2) by (auto simp: with_features_def)
  moreover have "check_dev_msr ?s = (Inr (), ?s)"
    using assms(3) by (simp add: check_dev_msr_def prog_simps with_features_def)
  ultimately show ?thesis
    using assms(1,2) by (intro exI [of _ f]) (simp add: dump_init_def dump_check_super_user_def prog_simps with_cells_def w, simp add: with_features_def)
qed

lemma super_user_init:
  "check_cpuid s = (Inr (), with_features x s) \<Longrightarrow> t_uid (ts_env s) = 0 \<Longrightarrow> turbostat_init s = dump_init s"
  by (simp add: turbostat_init_def dump_init_def dump_check_super_user_def check_super_user_def prog_simps with_features_def check_dev_msr_def
      split: prod.splits sum.splits)

lemma demo_cells: "sorted_cells demo_cpus = [cell 0 0 1, cell 1 0 0]"
  by (simp add: sorted_cells_def demo_cpus_def place_cell_def cell_def ckey_def less_eq_prod_def)

lemma demo_reading:
  "do_nhm_cstates s \<Longrightarrow> do_snb_cstates s \<Longrightarrow> has_aperf s \<Longrightarrow> extra_msr_offset s = 0 \<Longrightarrow> ts_env s = demo_machine \<Longrightarrow>
   reading s k c = c\<lparr>c_tsc := of_nat k * 1000000, c_c3 := of_nat (k + 1) * 1000, c_c6 := of_nat (k + 2) * 1000, c_c7 := of_nat (k + 3) * 1000,
     c_aperf := of_nat (k + 4) * 1000, c_mperf := of_nat (k + 5) * 1000, c_pc2 := of_nat (k + 6) * 1000, c_pc3 := of_nat (k + 7) * 1000,
     c_pc6 := of_nat (k + 8) * 1000, c_pc7 := of_nat (k + 9) * 1000\<rparr>"
  by (simp add: reading_def regs_def msr_value_def demo_machine_def MSR_TSC_def MSR_CORE_C3_RESIDENCY_def MSR_CORE_C6_RESIDENCY_def
      MSR_CORE_C7_RESIDENCY_def MSR_APERF_def MSR_MPERF_def MSR_PKG_C2_RESIDENCY_def MSR_PKG_C3_RESIDENCY_def MSR_PKG_C6_RESIDENCY_def MSR_PKG_C7_RESIDENCY_def)

theorem turbostat_shows_every_interval_witness:
  "\<exists>s t. turbostat_init ((tstat_start demo_machine)\<lparr>progname := ''turbostat''\<rparr>) = (Inr (), s) \<and>
     map c_tsc (sample s 1) = [20000000, 30000000] \<and>
     turbostat_main 1 [''turbostat''] (tstat_start demo_machine) = (Inl Running, t) \<and>
     ts_out t = (Sleep 5 # interval_table s 0) @ Sleep 5 # interval_table s 1"
proof -
  let ?s = "(tstat_start demo_machine)\<lparr>progname := ''turbostat''\<rparr>"
  have d: "cpus_listed (ts_env ?s) demo_cpus" "distinct (map fst demo_cpus)" using demo_listed by (simp_all add: tstat_start_def demo_cpus_def)
  obtain x where "check_cpuid (?s\<lparr>dump_n_exit := False\<rparr>) = (Inr (), with_features x (?s\<lparr>dump_n_exit := False\<rparr>))"
      and x: "do_nhm_cstates x" "do_snb_cstates x" "has_aperf x"
    using demo_check_cpuid [where env = demo_machine and name = "''turbostat''" and b = False] by (auto simp: demo_machine_def)
  moreover have "?s\<lparr>dump_n_exit := False\<rparr> = ?s" by (rule tstat.equality) (simp_all add: tstat_start_def)
  ultimately have c: "check_cpuid ?s = (Inr (), with_features x ?s)" by simp
  have "verbose ?s = 0" "t_dev_msr (ts_env ?s)" "t_uid (ts_env ?s) = 0" "cnt_odd ?s = []" "cnt_even ?s = []" "cnt_delta ?s = []"
    by (simp_all add: tstat_start_def demo_machine_def)
  then obtain f where i: "turbostat_init ?s = (Inr (), (with_cells (sorted_cells demo_cpus) demo_cpus f []
      (with_features x (?s\<lparr>ts_stats := ts_stats ?s + 1\<rparr>)))\<lparr>num_cpus := int (length demo_cpus)\<rparr>)" (is "_ = (_, ?t)")
    using dump_init_run [OF c _ _ d] super_user_init [OF c] by metis
  have cf: "cnt_even ?t = [cell 0 0 1, cell 1 0 0]" "ts_reads ?t = 0" "length (regs ?t) = 10"
    using x by (simp_all add: with_cells_def with_features_def demo_cells tstat_start_def regs_def)
  have "0 + k * (length [cell 0 0 1, cell 1 0 0] * 10) = 20 * k" for k by simp
  then have s: "sample ?t k = readings ?t (20 * k) [cell 0 0 1, cell 1 0 0]" for k unfolding sample_def cf by (simp only:)
  have "do_nhm_cstates ?t" "do_snb_cstates ?t" "has_aperf ?t" "extra_msr_offset ?t = 0" "ts_env ?t = demo_machine"
    using x by (simp_all add: with_cells_def with_features_def tstat_start_def)
  note r = demo_reading [OF this] and c = cell_def zero_counters_def
  have l: "length (regs ?t) = 10" by (rule cf(3))
  have fw: "list_all2 forward (sample ?t k) (sample ?t (k + 1))" if "k < 2 * 1" for k
  proof -
    have "k = 0 \<or> k = 1" using that by auto
    then show ?thesis unfolding s readings.simps l r by (elim disjE) (simp_all add: forward_def)
  qed
  have ts: "map c_tsc (sample ?t 1) = [20000000, 30000000]" unfolding s readings.simps l r by simp
  have rd: "readable demo_machine (map place_cell demo_cpus)" by (simp add: readable_def demo_machine_def)
  have "demo_cpus \<noteq> []" by (simp add: demo_cpus_def)
  from turbostat_shows_every_interval [OF i demo_listed d(2) this rd fw, of 1]
  obtain t where "turbostat_main 1 [''turbostat''] (tstat_start demo_machine) = (Inl Running, t)"
      "ts_out t = concat (map (\<lambda>i. Sleep 5 # interval_table ?t i) [0..<2 * 1])" by blast
  moreover have "[0..<2 * 1] = [0, 1 :: nat]" by (simp add: upt_conv_Cons)
  ultimately show ?thesis using i ts by (intro exI [of _ ?t] exI [of _ t]) (simp only: list.map concat.simps, simp)
qed

section \<open>Residencies\<close>

lemma percent_Some: "c_tsc d \<noteq> 0 \<Longrightarrow> percent v d = Some (100 * u64_rat v / u64_rat (c_tsc d))"
  by (simp add: percent_def quot_def u64_rat_def unsigned_eq_0_iff)

lemma u64_rat_nonneg: "0 \<le> u64_rat v"
  by (simp only: u64_rat_def of_int_0_le_iff) simp

lemma unat_diff: "(b :: u64) \<le> a \<Longrightarrow> unat (a - b) = unat a - unat b"
  by (simp add: unat_sub)

text \<open>
  C16. If the counters of a CPU have run forward, and the cycles of the interval cover those that its states account for, the
  percentages shown for the states C0, C1, C3, C6 and C7 of that CPU add up to exactly 100 and none is negative.
\<close>

theorem residencies_add_up:
  assumes f: "forward b a" and m: "c_mperf b < c_mperf a"
    and s: "unat (c_mperf a - c_mperf b) + unat (c_c3 a - c_c3 b) + unat (c_c6 a - c_c6 b) + unat (c_c7 a - c_c7 b) \<le> unat (c_tsc a - c_tsc b)"
  shows "\<exists>d p0 p1 p3 p6 p7. delta_cpu a b x w = (Inr d, w) \<and>
    percent (c_mperf d) d = Some p0 \<and> percent (c_c1 d) d = Some p1 \<and> percent (c_c3 d) d = Some p3 \<and> percent (c_c6 d) d = Some p6 \<and>
    percent (c_c7 d) d = Some p7 \<and> p0 + p1 + p3 + p6 + p7 = 100 \<and> 0 \<le> p0 \<and> 0 \<le> p1 \<and> 0 \<le> p3 \<and> 0 \<le> p6 \<and> 0 \<le> p7"
proof -
  define d where "d = diff_into b a x"
  define T M A B C where "T = c_tsc a - c_tsc b" and "M = c_mperf a - c_mperf b" and "A = c_c3 a - c_c3 b" and "B = c_c6 a - c_c6 b" and "C = c_c7 a - c_c7 b"
  have M0: "M \<noteq> 0" using m by (auto simp: M_def)
  have le: "unat M + unat A + unat B + unat C \<le> unat T" using s by (simp add: T_def M_def A_def B_def C_def)
  then have MT: "\<not> T < M" by (simp add: word_less_nat_alt)
  have d: "c_tsc d = T" "c_mperf d = M" "c_c3 d = A" "c_c6 d = B" "c_c7 d = C" "c_c1 d = T - M - A - B - C"
    using M0 MT by (auto simp: d_def diff_into_def raw_diff_def Let_def derive_c1_def T_def M_def A_def B_def C_def)
  have T0: "T \<noteq> 0" using forward_tsc [OF f] by (auto simp: T_def)
  have 1: "unat (T - M) = unat T - unat M" using MT by (simp add: unat_diff not_less)
  have 2: "unat (T - M - A) = unat T - unat M - unat A" using le 1 by (subst unat_diff) (auto simp: word_le_nat_alt)
  have 3: "unat (T - M - A - B) = unat T - unat M - unat A - unat B" using le 2 by (subst unat_diff) (auto simp: word_le_nat_alt)
  have 4: "unat (T - M - A - B - C) = unat T - unat M - unat A - unat B - unat C" using le 3 by (subst unat_diff) (auto simp: word_le_nat_alt)
  have r: "u64_rat v = of_nat (unat v)" for v by (simp add: u64_rat_def)
  have "unat M + unat (T - M - A - B - C) + unat A + unat B + unat C = unat T" using le 4 by simp
  then have "u64_rat M + u64_rat (T - M - A - B - C) + u64_rat A + u64_rat B + u64_rat C = u64_rat T" unfolding r by (metis of_nat_add)
  moreover have "u64_rat T \<noteq> 0" using T0 by (simp add: u64_rat_def unsigned_eq_0_iff)
  ultimately have "100 * u64_rat M / u64_rat T + 100 * u64_rat (T - M - A - B - C) / u64_rat T + 100 * u64_rat A / u64_rat T + 100 * u64_rat B / u64_rat T + 100 * u64_rat C / u64_rat T = 100"
    by (simp add: field_simps)
  moreover have "0 \<le> 100 * u64_rat v / u64_rat T" for v using u64_rat_nonneg [of v] u64_rat_nonneg [of T] by simp
  ultimately show ?thesis
    using delta_cpu_run [OF f, of x w] percent_Some [of d] T0 by (intro exI [of _ d] exI conjI) (auto simp: d simp flip: d_def)
qed

theorem residencies_add_up_witness:
  "\<exists>d p0 p1 p3 p6 p7. delta_cpu (zero_counters\<lparr>c_tsc := 4000000, c_mperf := 1000000, c_c3 := 500000, c_c6 := 2000000\<rparr>) zero_counters zero_counters (tstat_start demo_machine) =
      (Inr d, tstat_start demo_machine) \<and>
    percent (c_mperf d) d = Some p0 \<and> percent (c_c1 d) d = Some p1 \<and> percent (c_c3 d) d = Some p3 \<and> percent (c_c6 d) d = Some p6 \<and>
    percent (c_c7 d) d = Some p7 \<and> p0 + p1 + p3 + p6 + p7 = 100 \<and> 0 \<le> p0 \<and> 0 \<le> p1 \<and> 0 \<le> p3 \<and> 0 \<le> p6 \<and> 0 \<le> p7"
  by (rule residencies_add_up) (simp_all add: forward_def zero_counters_def)

text \<open>
  The residency of C1 is not protected as that of C0 is: the test compares the cycles of C0 alone with those of the interval, and the
  subtraction wraps if the other states exceed the rest. More than 100 per cent are shown then.
\<close>

lemma c1_residency_wraps:
  assumes f: "forward b a" and m: "c_mperf a - c_mperf b \<le> c_tsc a - c_tsc b"
    and s: "unat (c_tsc a - c_tsc b) < unat (c_mperf a - c_mperf b) + unat (c_c3 a - c_c3 b) + unat (c_c6 a - c_c6 b) + unat (c_c7 a - c_c7 b)"
    and b: "unat (c_mperf a - c_mperf b) + unat (c_c3 a - c_c3 b) + unat (c_c6 a - c_c6 b) + unat (c_c7 a - c_c7 b) < 2 ^ 64"
  shows "\<exists>d p1. delta_cpu a b x w = (Inr d, w) \<and> percent (c_c1 d) d = Some p1 \<and> 100 < p1"
proof -
  define d where "d = diff_into b a x"
  define T M A B C where "T = c_tsc a - c_tsc b" and "M = c_mperf a - c_mperf b" and "A = c_c3 a - c_c3 b" and "B = c_c6 a - c_c6 b" and "C = c_c7 a - c_c7 b"
  have d: "c_tsc d = T" "c_c1 d = T - M - A - B - C"
    using m by (auto simp: d_def diff_into_def raw_diff_def Let_def derive_c1_def T_def M_def A_def B_def C_def)
  have T0: "T \<noteq> 0" using forward_tsc [OF f] by (auto simp: T_def)
  have sum: "unat (M + A + B + C) = unat M + unat A + unat B + unat C"
    using b by (simp add: unat_word_ariths M_def A_def B_def C_def)
  have "T < M + A + B + C" using s sum by (simp add: word_less_nat_alt T_def M_def A_def B_def C_def)
  then have "T < T - (M + A + B + C)" using unsigned_less [of "M + A + B + C", where 'a = nat] by (simp add: word_less_nat_alt unat_sub_if')
  then have "T < c_c1 d" by (simp add: d algebra_simps)
  then have "u64_rat T < u64_rat (c_c1 d)" unfolding u64_rat_def of_int_less_iff by (simp add: word_less_def)
  moreover have "0 < u64_rat T" using T0 u64_rat_nonneg [of T] by (simp add: u64_rat_def unsigned_eq_0_iff less_le)
  ultimately have "100 < 100 * u64_rat (c_c1 d) / u64_rat (c_tsc d)" by (simp add: d(1) field_simps)
  then show ?thesis using delta_cpu_run [OF f, of x w] percent_Some [of d] T0 by (auto simp: d(1) simp flip: d_def)
qed

end
