(* ===== verification/Tstat_Dump.thy ===== *)
theory Tstat_Dump
  imports Tstat_Interval
begin

text \<open>
  The dump tool: what it prints, and what it does for a user who may not open the registers, whom it does not turn away as \<open>turbostat\<close>
  does.
\<close>

section \<open>Registers that cannot be opened\<close>

definition unreadable :: "tenv \<Rightarrow> counters list \<Rightarrow> bool" where
  "unreadable env cs \<longleftrightarrow> (\<forall>c\<in>set cs. \<forall>k off. t_msr env k (c_cpu c) off = NoDevice)"

definition zeroed :: "tstat \<Rightarrow> counters \<Rightarrow> counters" where
  "zeroed s c = fold (\<lambda>(off, upd). upd 0) (regs s) c"

definition no_device :: "int \<Rightarrow> outp" where
  "no_device cpu = Perror (''/dev/cpu/'' @ dec_int cpu @ ''/msr'')"

lemma get_msr_none:
  "\<forall>k off. t_msr (ts_env s) k cpu off = NoDevice \<Longrightarrow>
   get_msr cpu off s = (Inr 0, s\<lparr>ts_reads := ts_reads s + 1, ts_out := ts_out s @ [no_device cpu], need_reinitialize := True\<rparr>)"
  by (simp add: get_msr_def prog_simps no_device_def)

lemma read_cpu_none:
  assumes "\<forall>k off. t_msr (ts_env s) k (c_cpu c) off = NoDevice"
  shows "read_cpu c s = (Inr (zeroed s c), s\<lparr>ts_reads := ts_reads s + length (regs s), need_reinitialize := True,
    ts_out := ts_out s @ replicate (length (regs s)) (no_device (c_cpu c))\<rparr>)"
  using assms
  by (cases "do_nhm_cstates s"; cases "do_snb_cstates s"; cases "has_aperf s"; cases "extra_msr_offset s = 0";
      simp add: read_cpu_def read_into_def prog_simps get_msr_none regs_def zeroed_def numeral_eq_Suc)

lemma zeroed_cong: "same_source s t \<Longrightarrow> zeroed s = zeroed t"
  by (intro ext) (simp add: zeroed_def same_source_regs)

lemma get_counters_none:
  "unreadable (ts_env s) cs \<Longrightarrow> get_counters cs s = (Inr (map (zeroed s) cs), s\<lparr>ts_reads := ts_reads s + length cs * length (regs s),
     need_reinitialize := need_reinitialize s \<or> cs \<noteq> [],
     ts_out := ts_out s @ concat (map (\<lambda>c. replicate (length (regs s)) (no_device (c_cpu c))) cs)\<rparr>)"
proof (induction cs arbitrary: s)
  case (Cons c cs)
  let ?s = "s\<lparr>ts_reads := ts_reads s + length (regs s), need_reinitialize := True,
    ts_out := ts_out s @ replicate (length (regs s)) (no_device (c_cpu c))\<rparr>"
  have ss: "same_source ?s s" by (simp add: same_source_def)
  have "read_cpu c s = (Inr (zeroed s c), ?s)" using Cons.prems by (intro read_cpu_none) (simp add: unreadable_def)
  moreover have "unreadable (ts_env ?s) cs" using Cons.prems by (simp add: unreadable_def)
  ultimately show ?case
    using Cons.IH [of ?s] by (simp add: prog_simps zeroed_cong [OF ss] same_source_regs [OF ss] add.assoc)
qed (simp add: prog_simps)

lemma place_cells_cpu: "unreadable env (sorted_cells cpus) = unreadable env (map place_cell cpus)"
  by (simp add: unreadable_def sorted_cells_def)

lemma zeroed_cell: "zeroed s (place_cell c) = place_cell c"
proof -
  obtain cpu pkg core where c: "c = (cpu, pkg, core)" by (cases c)
  have "fold (\<lambda>(off, upd). upd 0) rs x = x" if "\<forall>(off, upd)\<in>set rs. upd 0 x = x" for rs and x :: counters
    using that by (induction rs) auto
  moreover have "\<forall>(off, upd)\<in>set (regs s). upd 0 (place_cell c) = place_cell c"
    by (auto simp: regs_def c place_cell_def cell_def zero_counters_def)
  ultimately show ?thesis by (simp add: zeroed_def)
qed

lemma zeroed_cells: "map (zeroed s) (sorted_cells cpus) = sorted_cells cpus"
  by (rule map_idI) (auto simp: sorted_cells_def zeroed_cell)

definition is_std :: "outp \<Rightarrow> bool" where
  "is_std o' = (case o' of Std _ \<Rightarrow> True | _ \<Rightarrow> False)"

definition dump_title :: outp where
  "dump_title = Std (''# cpu pkg core tsc aperf mperf c3 c6 c7 pc2 pc3 pc6 pc7'' @ newline)"

lemma dump_main_run:
  assumes "dump_init ((tstat_start env)\<lparr>progname := name, dump_n_exit := True\<rparr>) = (Inr (), s)" and "dump_n_exit s"
    and "get_counters (cnt_even s) s = (Inr cs, u)"
  shows "dump_main n [name, ''-d''] (tstat_start env) =
    (Inl (Exit 0), u\<lparr>ts_out := ts_out u @ dump_title # map (\<lambda>c. Std (dump_line c)) cs, cnt_even := []\<rparr>)"
proof -
  have "getopt_plus ''vdi:M:'' [''-d''] = ([ShortOpt CHR ''d'' None], [])" by code_simp
  moreover have "banner ((tstat_start env)\<lparr>progname := name, dump_n_exit := True\<rparr>) = (Inr (), (tstat_start env)\<lparr>progname := name, dump_n_exit := True\<rparr>)"
    by (simp add: banner_def prog_simps tstat_start_def)
  ultimately show ?thesis
    using assms by (simp add: dump_main_def dump_cmdline_def dump_vals_def prog_simps dump_title_def)
qed

lemma dump_start:
  assumes "dump_init ((tstat_start env)\<lparr>progname := name, dump_n_exit := b\<rparr>) = (Inr (), s)" "cpus_listed env cpus" "distinct (map fst cpus)"
  shows "dump_n_exit s = b" "cnt_even s = sorted_cells cpus" "ts_env s = env" "ts_out s = []" "ts_reads s = 0" "num_cpus s = int (length cpus)"
    "verbose s = 0" "cnt_odd s = sorted_cells cpus"
proof -
  let ?s = "(tstat_start env)\<lparr>progname := name, dump_n_exit := b\<rparr>"
  have "verbose ?s = 0" "ts_env ?s = env" "cnt_odd ?s = []" "cnt_even ?s = []" "cnt_delta ?s = []" by (simp_all add: tstat_start_def)
  then obtain x f where "s = (with_cells (sorted_cells cpus) cpus f [] (with_features x (?s\<lparr>ts_stats := ts_stats ?s + 1\<rparr>)))\<lparr>num_cpus := int (length cpus)\<rparr>"
    using dump_init_inv [OF assms(1) _ _ assms(3)] assms(2) by auto
  then show "dump_n_exit s = b" "cnt_even s = sorted_cells cpus" "ts_env s = env" "ts_out s = []" "ts_reads s = 0" "num_cpus s = int (length cpus)"
      "verbose s = 0" "cnt_odd s = sorted_cells cpus"
    by (simp_all add: with_cells_def with_features_def tstat_start_def)
qed

text \<open>The example machine, for a user without rights.\<close>

definition demo_user :: tenv where
  "demo_user = demo_machine\<lparr>t_uid := 1000, t_msr := \<lambda>_ _ _. NoDevice\<rparr>"

lemma demo_user_machine: "cpus_listed demo_user demo_cpus" "distinct (map fst demo_cpus)" "demo_cpus \<noteq> []" "unreadable demo_user (map place_cell demo_cpus)"
proof -
  show "cpus_listed demo_user demo_cpus" by (rule demo_listed_all) (simp_all add: demo_user_def demo_machine_def)
qed (simp_all add: demo_cpus_def unreadable_def demo_user_def)

lemma demo_user_init: "\<exists>s. dump_init ((tstat_start demo_user)\<lparr>progname := name, dump_n_exit := b\<rparr>) = (Inr (), s)"
proof -
  let ?s = "(tstat_start demo_user)\<lparr>progname := name, dump_n_exit := b\<rparr>"
  obtain x where c: "check_cpuid ?s = (Inr (), with_features x ?s)"
    using demo_check_cpuid [where env = demo_user and name = name and b = b] by (auto simp: demo_user_def demo_machine_def)
  have "verbose ?s = 0" "t_dev_msr (ts_env ?s)" "ts_env ?s = demo_user" "cnt_odd ?s = []" "cnt_even ?s = []" "cnt_delta ?s = []"
    by (simp_all add: tstat_start_def demo_user_def demo_machine_def)
  then show ?thesis using dump_init_run [OF c, of demo_cpus] demo_user_machine by metis
qed

text \<open>With the registers open to the user, \<open>-d\<close> prints a line of raw counters for each CPU, sorted by package, core and number.\<close>

lemma dump_prints_counters:
  assumes i: "dump_init ((tstat_start env)\<lparr>progname := name, dump_n_exit := True\<rparr>) = (Inr (), s)"
    and d: "cpus_listed env cpus" "distinct (map fst cpus)" and r: "readable env (map place_cell cpus)"
  shows "\<exists>t. dump_main n [name, ''-d''] (tstat_start env) = (Inl (Exit 0), t) \<and>
    ts_out t = dump_title # map (\<lambda>c. Std (dump_line c)) (sample s 0)"
proof -
  note st = dump_start [OF i d]
  have "get_counters (cnt_even s) s = (Inr (sample s 0), s\<lparr>ts_reads := ts_reads s + length (cnt_even s) * length (regs s)\<rparr>)"
    using r st by (simp add: get_counters_run sample_def readable_sorted)
  from dump_main_run [OF i _ this] st show ?thesis by auto
qed

text \<open>
  C23. For a user who may not open the registers, \<open>dump_tstat -d\<close> prints a line of zeros for each CPU and exits with success: the check for the super
  user is not compiled in, and the failure of \<open>open\<close> only sets a flag that this path never looks at.
\<close>

theorem dump_without_rights_prints_zeros:
  assumes i: "dump_init ((tstat_start env)\<lparr>progname := name, dump_n_exit := True\<rparr>) = (Inr (), s)"
    and d: "cpus_listed env cpus" "distinct (map fst cpus)" and r: "unreadable env (map place_cell cpus)"
  shows "\<exists>t. dump_main n [name, ''-d''] (tstat_start env) = (Inl (Exit 0), t) \<and>
    filter is_std (ts_out t) = dump_title # map (\<lambda>c. Std (dump_line c)) (sorted_cells cpus)"
proof -
  note st = dump_start [OF i d]
  let ?u = "s\<lparr>ts_reads := ts_reads s + length (cnt_even s) * length (regs s), need_reinitialize := need_reinitialize s \<or> cnt_even s \<noteq> [],
     ts_out := ts_out s @ concat (map (\<lambda>c. replicate (length (regs s)) (no_device (c_cpu c))) (cnt_even s))\<rparr>"
  have "get_counters (cnt_even s) s = (Inr (sorted_cells cpus), ?u)"
    using r st get_counters_none [of s "cnt_even s"] by (simp add: place_cells_cpu zeroed_cells)
  from dump_main_run [OF i _ this] st have "dump_main n [name, ''-d''] (tstat_start env) =
      (Inl (Exit 0), ?u\<lparr>ts_out := ts_out ?u @ dump_title # map (\<lambda>c. Std (dump_line c)) (sorted_cells cpus), cnt_even := []\<rparr>)" by simp
  moreover have "filter is_std (concat (map (\<lambda>c. replicate k (no_device (c_cpu c))) cs)) = []" for k cs
    by (auto simp: filter_empty_conv is_std_def no_device_def)
  moreover have "filter is_std (map (\<lambda>c. Std (dump_line c)) cs) = map (\<lambda>c. Std (dump_line c)) cs" for cs
    by (rule filter_True) (auto simp: is_std_def)
  ultimately show ?thesis using st by (auto simp: is_std_def dump_title_def)
qed

theorem dump_without_rights_prints_zeros_witness:
  "\<exists>t. dump_main 0 [''dump_tstat'', ''-d''] (tstat_start demo_user) = (Inl (Exit 0), t) \<and>
    filter is_std (ts_out t) = [dump_title, Std (''1 0 0 0 0 0 0 0 0 0 0 0 0'' @ newline), Std (''0 1 0 0 0 0 0 0 0 0 0 0 0'' @ newline)]"
proof -
  obtain s where "dump_init ((tstat_start demo_user)\<lparr>progname := ''dump_tstat'', dump_n_exit := True\<rparr>) = (Inr (), s)"
    using demo_user_init by blast
  from dump_without_rights_prints_zeros [OF this demo_user_machine(1,2,4)]
  obtain t where "dump_main 0 [''dump_tstat'', ''-d''] (tstat_start demo_user) = (Inl (Exit 0), t)"
      "filter is_std (ts_out t) = dump_title # map (\<lambda>c. Std (dump_line c)) (sorted_cells demo_cpus)" by blast
  moreover have "dump_line (cell 0 0 1) = ''1 0 0 0 0 0 0 0 0 0 0 0 0'' @ newline" "dump_line (cell 1 0 0) = ''0 1 0 0 0 0 0 0 0 0 0 0 0'' @ newline"
    by code_simp+
  ultimately show ?thesis by (simp add: demo_cells)
qed

section \<open>The loop without registers\<close>

definition stuck :: "cpu_place list \<Rightarrow> tenv \<Rightarrow> tstat \<Rightarrow> bool" where
  "stuck cpus env s \<longleftrightarrow> ts_env s = env \<and> verbose s = 0 \<and> num_cpus s = int (length cpus) \<and> cnt_even s = sorted_cells cpus \<and> need_reinitialize s"

definition device_errors :: "outp list \<Rightarrow> bool" where
  "device_errors = list_all (\<lambda>o'. case o' of Perror _ \<Rightarrow> True | _ \<Rightarrow> False)"

lemma sample_even_none:
  assumes "ts_env s = env" "verbose s = 0" "num_cpus s = int (length cpus)" "cnt_even s = sorted_cells cpus" "cpus \<noteq> []"
    and "unreadable env (map place_cell cpus)"
  shows "\<exists>os t. sample_even s = (Inr (), t) \<and> stuck cpus env t \<and> ts_out t = ts_out s @ os \<and> device_errors os"
proof -
  let ?os = "concat (map (\<lambda>c. replicate (length (regs s)) (no_device (c_cpu c))) (sorted_cells cpus))"
  have ne: "sorted_cells cpus \<noteq> []" using assms(5) by (metis length_0_conv length_map length_sort sorted_cells_def)
  have "get_counters (cnt_even s) s = (Inr (sorted_cells cpus), s\<lparr>ts_reads := ts_reads s + length (sorted_cells cpus) * length (regs s),
      need_reinitialize := True, ts_out := ts_out s @ ?os\<rparr>)"
    using assms get_counters_none [of s "cnt_even s"] ne by (simp add: place_cells_cpu zeroed_cells)
  moreover have "device_errors ?os" by (auto simp: device_errors_def list_all_iff no_device_def)
  ultimately show ?thesis using assms by (simp add: sample_even_def gettimeofday_def prog_simps stuck_def)
qed

lemma stuck_turn:
  assumes "stuck cpus env s" "cpus_listed env cpus" "distinct (map fst cpus)" "cpus \<noteq> []" "unreadable env (map place_cell cpus)"
  shows "\<exists>os t u. loop_turn s = (Inr True, t) \<and> sample_even t = (Inr (), u) \<and> stuck cpus env u \<and> device_errors os \<and>
    ts_out u = ts_out s @ topology_changed # num_cpus_now (length cpus) # os"
proof -
  let ?s = "s\<lparr>ts_stats := ts_stats s + 1, ts_files := ts_files s + 2 * length cpus\<rparr>"
  have v: "verify_num_cpus s = (Inr (), ?s)" using assms by (intro verify_num_cpus_run) (simp_all add: stuck_def)
  obtain t where t: "re_initialize ?s = (Inr (), t)" "ts_env t = env" "verbose t = 0" "num_cpus t = int (length cpus)" "cnt_even t = sorted_cells cpus"
      "ts_out t = ts_out s @ [topology_changed, num_cpus_now (length cpus)]"
    using re_initialize_run [of ?s cpus] assms by (auto simp: stuck_def with_cells_def)
  have "loop_turn s = (Inr True, t)" using v t(1) assms(1) by (simp add: loop_turn_def prog_simps stuck_def)
  moreover obtain os u where "sample_even t = (Inr (), u)" "stuck cpus env u" "ts_out u = ts_out t @ os" "device_errors os"
    using sample_even_none [OF t(2-5) assms(4,5)] by blast
  ultimately show ?thesis using t(6) by auto
qed

definition spinning :: "nat \<Rightarrow> outp list \<Rightarrow> bool" where
  "spinning n os \<longleftrightarrow> list_all (\<lambda>o'. case o' of Perror _ \<Rightarrow> True | Std _ \<Rightarrow> True | _ \<Rightarrow> False) os \<and> length (filter (\<lambda>o'. o' = topology_changed) os) = n"

lemma spinning_append: "spinning n xs \<Longrightarrow> spinning m ys \<Longrightarrow> spinning (n + m) (xs @ ys)"
  by (simp add: spinning_def)

lemma spinning_errors: "device_errors os \<Longrightarrow> spinning 0 os"
  by (auto simp: spinning_def device_errors_def list_all_iff topology_changed_def filter_empty_conv split: outp.splits)

lemma spinning_turn: "device_errors os \<Longrightarrow> spinning 1 (topology_changed # num_cpus_now n # os)"
  using spinning_errors [of os] by (simp add: spinning_def topology_changed_def num_cpus_now_def)

lemma stuck_turns:
  assumes "stuck cpus env s" "cpus_listed env cpus" "distinct (map fst cpus)" "cpus \<noteq> []" "unreadable env (map place_cell cpus)"
  shows "\<exists>os t. loop_turns n s = (Inl Running, t) \<and> ts_out t = ts_out s @ os \<and> spinning n os"
  using assms(1)
proof (induction n arbitrary: s)
  case 0
  then show ?case by (auto simp: prog_simps spinning_def)
next
  case (Suc n)
  obtain os t u where 1: "loop_turn s = (Inr True, t)" "sample_even t = (Inr (), u)" "stuck cpus env u" "device_errors os"
      "ts_out u = ts_out s @ topology_changed # num_cpus_now (length cpus) # os"
    using stuck_turn [OF Suc.prems assms(2-5)] by blast
  obtain os' v where 2: "loop_turns n u = (Inl Running, v)" "ts_out v = ts_out u @ os'" "spinning n os'" using Suc.IH [OF 1(3)] by blast
  have "spinning (1 + n) ((topology_changed # num_cpus_now (length cpus) # os) @ os')"
    by (rule spinning_append [OF spinning_turn [OF 1(4)] 2(3)])
  moreover have "loop_turns (Suc n) s = (Inl Running, v)" using 1(1,2) 2(1) by (simp add: prog_simps)
  ultimately show ?case using 1(5) 2(2) by (intro exI [of _ "(topology_changed # num_cpus_now (length cpus) # os) @ os'"] exI [of _ v]) simp
qed

text \<open>
  C22. For a user who may not open the registers, \<open>dump_tstat\<close> without \<open>-d\<close> re-initialises itself in every turn of its loop and never gets
  to sleep or to print a table: all its output, for any number of turns, are error messages and one message about a changed topology per turn.
\<close>

theorem dump_tool_spins_without_rights:
  assumes i: "dump_init ((tstat_start env)\<lparr>progname := name, dump_n_exit := False\<rparr>) = (Inr (), s)"
    and d: "cpus_listed env cpus" "distinct (map fst cpus)" "cpus \<noteq> []" and r: "unreadable env (map place_cell cpus)"
  shows "\<exists>t. dump_main n [name] (tstat_start env) = (Inl Running, t) \<and> spinning n (ts_out t)"
proof -
  note st = dump_start [OF i d(1,2)]
  obtain os u where u: "sample_even s = (Inr (), u)" "stuck cpus env u" "ts_out u = ts_out s @ os" "device_errors os"
    using sample_even_none [OF st(3,7,6,2) d(3) r] by blast
  obtain os' t where t: "loop_turns n u = (Inl Running, t)" "ts_out t = ts_out u @ os'" "spinning n os'"
    using stuck_turns [OF u(2) d r] by blast
  have e: "(tstat_start env)\<lparr>progname := name, dump_n_exit := False\<rparr> = (tstat_start env)\<lparr>progname := name\<rparr>" by (simp add: tstat_start_def)
  have "banner ((tstat_start env)\<lparr>progname := name\<rparr>) = (Inr (), (tstat_start env)\<lparr>progname := name\<rparr>)"
    by (simp add: banner_def prog_simps tstat_start_def)
  then have "dump_main n [name] (tstat_start env) = (Inl Running, t)"
    using i u(1) t(1) st(1) by (simp add: dump_main_def dump_cmdline_def prog_simps turbostat_loop_def e)
  moreover have "spinning (0 + n) (os @ os')" by (rule spinning_append [OF spinning_errors [OF u(4)] t(3)])
  ultimately show ?thesis using t(2) u(3) st(4) by simp
qed

theorem dump_tool_spins_without_rights_witness:
  "\<exists>t. dump_main 1000 [''dump_tstat''] (tstat_start demo_user) = (Inl Running, t) \<and> spinning 1000 (ts_out t)"
proof -
  obtain s where "dump_init ((tstat_start demo_user)\<lparr>progname := ''dump_tstat'', dump_n_exit := False\<rparr>) = (Inr (), s)"
    using demo_user_init by blast
  from dump_tool_spins_without_rights [OF this demo_user_machine] show ?thesis .
qed

end
