(* ===== verification/Calcpi.thy ===== *)
theory Calcpi
  imports Libc
begin

text \<open>
  \<open>calcpi/calcpi.c\<close>, which burns CPU time with threads that estimate pi from random points.

  Threads. A run of \<open>calcpi\<close> is a schedule, a list that says for each step whether the main thread or which other thread makes it; the theorems hold for every
  schedule. Threads share the array \<open>data\<close>, in which each has a cell of its own: the main thread puts the number of the thread there, as a
  \<open>float\<close>, the thread reads it, as an \<open>int\<close>, and in the end writes its estimate over it. The seeds of the generators are not initialised by the code:
  they are arguments. \<open>rand_r\<close> is that of glibc. The rounding of floating-point numbers is left out: the estimate is the pair of the
  points inside the circle and of all points, of which the quotient times 4 is stored.
\<close>

section \<open>Command line\<close>

record pi_opts =
  run_type :: int
  Rpt :: int
  Dur :: int
  Thr :: int
  pi_N :: u64
  Affin :: bool
  SpikeYN :: bool
  SpikeDelay :: int
  SpikeThreads :: int
  SpikeDur :: int

definition pi_defaults :: pi_opts where
  "pi_defaults = \<lparr>run_type = 0, Rpt = 100, Dur = 100, Thr = 1, pi_N = 100, Affin = False, SpikeYN = False, SpikeDelay = 0, SpikeThreads = 0, SpikeDur = 0\<rparr>"

text \<open>\<open>CmdHelp\<close> is the call of \<open>exit(0)\<close> after the help; \<open>atof\<close> gives the value of its argument as an \<open>unsigned long\<close>.\<close>

datatype cmdline_end = CmdHelp | CmdFault fault

definition set_spike :: "string \<Rightarrow> string \<Rightarrow> pi_opts \<Rightarrow> pi_opts option" where
  "set_spike a v o' =
     (let c = chr_at a 2 in
      if c = CHR ''t'' then Some (o'\<lparr>SpikeThreads := atoi v\<rparr>)
      else if c = CHR ''w'' then Some (o'\<lparr>SpikeDelay := atoi v\<rparr>)
      else if c = CHR ''d'' then Some (o'\<lparr>SpikeDur := atoi v\<rparr>)
      else None)"

definition set_value :: "(string \<Rightarrow> u64) \<Rightarrow> string \<Rightarrow> string \<Rightarrow> pi_opts \<Rightarrow> pi_opts option" where
  "set_value atof a v o' =
     (let c = chr_at a 1 in
      if c = CHR ''n'' then Some (o'\<lparr>pi_N := atof v\<rparr>)
      else if c = CHR ''t'' then Some (o'\<lparr>Thr := atoi v\<rparr>)
      else if c = CHR ''r'' then Some (o'\<lparr>Rpt := atoi v, run_type := 1\<rparr>)
      else if c = CHR ''d'' then Some (o'\<lparr>Dur := atoi v, run_type := 2\<rparr>)
      else if c = CHR ''s'' then set_spike a v (o'\<lparr>SpikeYN := True\<rparr>)
      else None)"

definition set_flag :: "string \<Rightarrow> pi_opts \<Rightarrow> pi_opts" where
  "set_flag a o' =
     (if chr_at a 1 = CHR ''a'' then o'\<lparr>Affin := \<not> Affin o'\<rparr>
      else if chr_at a 1 = CHR ''s'' then o'\<lparr>SpikeYN := True\<rparr> else o')"

fun calcpi_cmdline :: "(string \<Rightarrow> u64) \<Rightarrow> string list \<Rightarrow> pi_opts \<Rightarrow> cmdline_end + pi_opts" where
  "calcpi_cmdline atof [] o' = Inr o'"
| "calcpi_cmdline atof (a # rest) o' =
     (if chr_at a 0 \<noteq> CHR ''-'' then calcpi_cmdline atof rest o'
      else if chr_at a 1 = CHR ''h'' then Inl CmdHelp
      else (case set_value atof a (case rest of [] \<Rightarrow> [] | v # _ \<Rightarrow> v) o' of
              None \<Rightarrow> calcpi_cmdline atof rest (set_flag a o')
            | Some o'' \<Rightarrow> (case rest of [] \<Rightarrow> Inl (CmdFault NullPointer) | v # rest' \<Rightarrow> calcpi_cmdline atof rest' o'')))"

section \<open>Random points\<close>

definition rand_next :: "u32 \<Rightarrow> u32" where
  "rand_next s = s * 1103515245 + 12345"

definition rand_r :: "u32 \<Rightarrow> u32 \<times> u32" where
  "rand_r seed =
     (let n1 = rand_next seed; n2 = rand_next n1; n3 = rand_next n2;
          r1 = (n1 div 65536) mod 2048;
          r2 = push_bit 10 r1 XOR (n2 div 65536) mod 1024;
          r3 = push_bit 10 r2 XOR (n3 div 65536) mod 1024
      in (r3, n3))"

definition RAND_MAX :: int where "RAND_MAX = 2147483647"

definition inside :: "u32 \<Rightarrow> u32 \<Rightarrow> bool" where
  "inside x y \<longleftrightarrow> uint x * uint x + uint y * uint y < RAND_MAX * RAND_MAX"

definition draw :: "nat \<times> u32 \<Rightarrow> nat \<times> u32" where
  "draw st = (case st of (incirc, seed) \<Rightarrow> case rand_r seed of (x, seed) \<Rightarrow> case rand_r seed of (y, seed) \<Rightarrow>
     (incirc + (if inside x y then 1 else 0), seed))"

section \<open>Threads\<close>

text \<open>The bits of a small natural number as a \<open>float\<close>.\<close>

fun log2n :: "nat \<Rightarrow> nat" where
  "log2n n = (if n < 2 then 0 else Suc (log2n (n div 2)))"

declare log2n.simps [simp del]

definition float_bits :: "nat \<Rightarrow> nat" where
  "float_bits t = (if t = 0 then 0 else (127 + log2n t) * 2 ^ 23 + (t - 2 ^ log2n t) * 2 ^ (23 - log2n t))"

datatype fcell = FUnset | FNum nat | FPi nat nat
datatype thread_pc = ThrStart | ThrLoop | ThrStore | ThrDone

record thr =
  th_pc :: thread_pc
  th_mask :: "nat list option"
  th_i :: nat
  th_incirc :: nat
  th_seed :: u32

datatype main_pc = Creating int | Joining int | Joined

record pi_state =
  ps_main :: main_pc
  ps_data :: "fcell list"
  ps_thr :: "thr option list"
  ps_out :: "(int \<times> int) list"

text \<open>\<open>CPU_SET\<close> into an empty set of 1024 CPUs: it does nothing for a number that is too large.\<close>

definition CPU_SET :: "nat \<Rightarrow> nat list" where
  "CPU_SET n = (if n < 1024 then [n] else [])"

definition new_thread :: "u32 \<Rightarrow> thr" where
  "new_thread seed = \<lparr>th_pc = ThrStart, th_mask = None, th_i = 0, th_incirc = 0, th_seed = seed\<rparr>"

text \<open>A step of \<open>calcpi_int\<close>, on the cell that its argument points to.\<close>

definition calcpi_int :: "pi_opts \<Rightarrow> thr \<Rightarrow> fcell \<Rightarrow> fault + thr \<times> fcell" where
  "calcpi_int o' th p =
     (case th_pc th of
        ThrStart \<Rightarrow>
          (case p of
             FNum t \<Rightarrow> Inr (th\<lparr>th_mask := (if Affin o' then Some (CPU_SET (float_bits t)) else None), th_pc := ThrLoop\<rparr>, p)
           | _ \<Rightarrow> Inl Uninitialised)
      | ThrLoop \<Rightarrow>
          if th_i th < unat (pi_N o') then
            (case draw (th_incirc th, th_seed th) of (c, s) \<Rightarrow> Inr (th\<lparr>th_i := th_i th + 1, th_incirc := c, th_seed := s\<rparr>, p))
          else Inr (th\<lparr>th_pc := ThrStore\<rparr>, p)
      | ThrStore \<Rightarrow> Inr (th\<lparr>th_pc := ThrDone\<rparr>, FPi (th_incirc th) (unat (pi_N o')))
      | ThrDone \<Rightarrow> Inr (th, p))"

text \<open>
  A step of the main thread in \<open>calcpi\<close> (threads 0 to \<open>Thr\<close>) or in \<open>spike_int\<close> (\<open>Thr\<close> to \<open>SpikeThreads\<close>). \<open>creates\<close> has the result of
  \<open>pthread_create\<close> for each thread; a thread that has not been created is reported (\<open>ps_out\<close>) and
  joined through an uninitialised variable.
\<close>

definition create_step :: "(int \<Rightarrow> int) \<Rightarrow> (nat \<Rightarrow> u32) \<Rightarrow> int \<Rightarrow> pi_state \<Rightarrow> fault + pi_state" where
  "create_step creates seeds t s =
     (if t < 0 \<or> t \<ge> 128 then Inl BufferOverflow
      else
        let s = s\<lparr>ps_data := (ps_data s)[nat t := FNum (nat t)], ps_main := Creating (t + 1)\<rparr> in
        if creates t = 0 then Inr (s\<lparr>ps_thr := (ps_thr s)[nat t := Some (new_thread (seeds (nat t)))]\<rparr>)
        else Inr (s\<lparr>ps_out := ps_out s @ [(t, creates t)]\<rparr>))"

definition main_step :: "(int \<Rightarrow> int) \<Rightarrow> (nat \<Rightarrow> u32) \<Rightarrow> int \<Rightarrow> int \<Rightarrow> pi_state \<Rightarrow> fault + pi_state" where
  "main_step creates seeds lo hi s =
     (case ps_main s of
        Creating t \<Rightarrow> if t < hi then create_step creates seeds t s else Inr (s\<lparr>ps_main := Joining lo\<rparr>)
      | Joining t \<Rightarrow>
          if t < hi then
            (case ps_thr s ! nat t of
               None \<Rightarrow> Inl Uninitialised
             | Some th \<Rightarrow> if th_pc th = ThrDone then Inr (s\<lparr>ps_main := Joining (t + 1)\<rparr>) else Inr s)
          else Inr (s\<lparr>ps_main := Joined\<rparr>)
      | Joined \<Rightarrow> Inr s)"

definition thread_step :: "pi_opts \<Rightarrow> nat \<Rightarrow> pi_state \<Rightarrow> fault + pi_state" where
  "thread_step o' t s =
     (if t \<ge> length (ps_thr s) then Inr s
      else case ps_thr s ! t of
        None \<Rightarrow> Inr s
      | Some th \<Rightarrow>
          (case calcpi_int o' th (ps_data s ! t) of
             Inl e \<Rightarrow> Inl e
           | Inr (th, p) \<Rightarrow> Inr (s\<lparr>ps_thr := (ps_thr s)[t := Some th], ps_data := (ps_data s)[t := p]\<rparr>)))"

text \<open>The threads of a schedule: None is the main thread.\<close>

fun run_threads :: "pi_opts \<Rightarrow> (int \<Rightarrow> int) \<Rightarrow> (nat \<Rightarrow> u32) \<Rightarrow> int \<Rightarrow> int \<Rightarrow> nat option list \<Rightarrow> pi_state \<Rightarrow> fault + pi_state" where
  "run_threads o' creates seeds lo hi [] s = Inr s"
| "run_threads o' creates seeds lo hi (c # cs) s =
     (case (case c of None \<Rightarrow> main_step creates seeds lo hi s | Some t \<Rightarrow> thread_step o' t s) of
        Inl e \<Rightarrow> Inl e
      | Inr s' \<Rightarrow> run_threads o' creates seeds lo hi cs s')"

definition threads_start :: "int \<Rightarrow> pi_state" where
  "threads_start lo = \<lparr>ps_main = Creating lo, ps_data = replicate 128 FUnset, ps_thr = replicate 128 None, ps_out = []\<rparr>"

text \<open>\<open>calcpi\<close>: the value of \<open>data[0]\<close> when all threads have been joined, None as long as the schedule does not get that far; and \<open>spike_int\<close>.\<close>

definition calcpi :: "pi_opts \<Rightarrow> (int \<Rightarrow> int) \<Rightarrow> (nat \<Rightarrow> u32) \<Rightarrow> nat option list \<Rightarrow> fault + (nat \<times> nat) option" where
  "calcpi o' creates seeds sched =
     (case run_threads o' creates seeds 0 (Thr o') sched (threads_start 0) of
        Inl e \<Rightarrow> Inl e
      | Inr s \<Rightarrow>
          if ps_main s \<noteq> Joined then Inr None
          else (case ps_data s ! 0 of FPi c n \<Rightarrow> Inr (Some (c, n)) | _ \<Rightarrow> Inl Uninitialised))"

definition spike_int :: "pi_opts \<Rightarrow> (int \<Rightarrow> int) \<Rightarrow> (nat \<Rightarrow> u32) \<Rightarrow> nat option list \<Rightarrow> fault + pi_state" where
  "spike_int o' creates seeds sched = run_threads o' creates seeds (Thr o') (SpikeThreads o') sched (threads_start (Thr o'))"

section \<open>The program\<close>

datatype pi_ev = PiPrint string | PiStartSpike | PiCalc | PiShow "nat \<times> nat"

definition show_help :: "pi_ev list" where
  "show_help = map (\<lambda>l. PiPrint (l @ [CHR 0x0A]))
     [''usage:  calcpi [-d sec | -r rpt] [opts]'', ''  -d N     run for N seconds'', ''  -r N     run N times'',
      ''  -n N     run N iterations per test'', ''  -t N     run with N threads'', ''  -a       use processor-affinity'',
      ''  -st      thread-spike: num threads'', ''  -sw      thread-spike: wait/delay to spike (sec)'',
      ''  -sd      thread-spike: duration of spike (sec)'']"

definition greeting :: "pi_opts \<Rightarrow> pi_ev list" where
  "greeting o' =
     PiPrint (''runtype='' @ dec_int (run_type o') @ '' thr='' @ dec_int (Thr o') @ '' rpt='' @ dec_int (Rpt o') @ '' dur='' @ dec_int (Dur o') @
       '' aff='' @ (if Affin o' then ''1'' else ''0'') @ [CHR 0x0A]) #
     (if SpikeYN o' then [PiPrint (''  thread-spike: thr='' @ dec_int (SpikeThreads o') @ '' dur='' @ dec_int (SpikeDur o') @
        '' delay='' @ dec_int (SpikeDelay o') @ [CHR 0x0A]), PiStartSpike] else [])"

text \<open>
  \<open>results\<close> are the values of the successive calls of \<open>calcpi\<close>, \<open>clock\<close> what \<open>time\<close> returns after each of them. The number of calls,
  None if the loop has not ended when the clock readings are used up.
\<close>

fun timed_calls :: "int \<Rightarrow> int \<Rightarrow> int list \<Rightarrow> nat option" where
  "timed_calls dur passed [] = (if passed < dur then None else Some 0)"
| "timed_calls dur passed (t # ts) = (if passed < dur then map_option Suc (timed_calls dur t ts) else Some 0)"

definition show_last :: "nat \<Rightarrow> (nat \<times> nat) list \<Rightarrow> fault + pi_ev list" where
  "show_last n results =
     (if n = 0 then Inl Uninitialised
      else if n > length results then Inl NoReturn
      else Inr (replicate n PiCalc @ [PiShow (results ! (n - 1))]))"

definition calcpi_main :: "pi_opts \<Rightarrow> (nat \<times> nat) list \<Rightarrow> int list \<Rightarrow> fault + pi_ev list" where
  "calcpi_main o' results clock =
     (case (if run_type o' = 1 then show_last (nat (Rpt o')) results
            else if run_type o' = 2 then (case timed_calls (Dur o') 0 clock of None \<Rightarrow> Inl NoReturn | Some n \<Rightarrow> show_last n results)
            else Inr show_help) of
        Inl e \<Rightarrow> Inl e
      | Inr evs \<Rightarrow> Inr (greeting o' @ evs))"

text \<open>\<open>spike\<close>: the number of its rounds of \<open>spike_int\<close>, after the delay.\<close>

definition spike :: "pi_opts \<Rightarrow> int list \<Rightarrow> nat option" where
  "spike o' clock = timed_calls (SpikeDur o') 0 clock"

end
