(* ===== verification/Calcpi_Threads.thy ===== *)
theory Calcpi_Threads
  imports Calcpi
begin

text \<open>
  The threads of \<open>calcpi\<close> do not disturb each other: the estimate does not depend on the schedule, and every schedule can be completed. The
  affinity that \<open>-a\<close> asks for is only set for the first thread.
\<close>

section \<open>Threads\<close>

definition draws :: "u32 \<Rightarrow> nat \<Rightarrow> nat \<times> u32" where
  "draws seed n = (draw ^^ n) (0, seed)"

lemma draws_Suc: "draws seed (Suc n) = draw (draws seed n)"
  by (simp add: draws_def)

text \<open>A thread with a seed, at any time, and its cell.\<close>

definition thread_ok :: "pi_opts \<Rightarrow> u32 \<Rightarrow> nat \<Rightarrow> thr \<Rightarrow> fcell \<Rightarrow> bool" where
  "thread_ok o' seed t th p \<longleftrightarrow>
     (th_incirc th, th_seed th) = draws seed (th_i th) \<and> th_i th \<le> unat (pi_N o') \<and>
     (case th_pc th of
        ThrStart \<Rightarrow> th_i th = 0 \<and> p = FNum t
      | ThrLoop \<Rightarrow> p = FNum t
      | ThrStore \<Rightarrow> th_i th = unat (pi_N o') \<and> p = FNum t
      | ThrDone \<Rightarrow> p = FPi (fst (draws seed (unat (pi_N o')))) (unat (pi_N o')))"

lemma new_thread_ok: "thread_ok o' seed t (new_thread seed) (FNum t)"
  by (simp add: thread_ok_def new_thread_def draws_def)

lemma calcpi_int_ok:
  assumes "thread_ok o' seed t th p"
  shows "\<exists>th' p'. calcpi_int o' th p = Inr (th', p') \<and> thread_ok o' seed t th' p'"
proof -
  have "fst (draws seed (th_i th)) = th_incirc th" using assms by (metis fst_conv thread_ok_def)
  then show ?thesis
    using assms by (cases "th_pc th") (auto simp: calcpi_int_def thread_ok_def draws_Suc split: prod.splits)
qed

text \<open>How many steps a thread has left.\<close>

definition steps_left :: "pi_opts \<Rightarrow> thr \<Rightarrow> nat" where
  "steps_left o' th = (case th_pc th of ThrStart \<Rightarrow> unat (pi_N o') + 3 | ThrLoop \<Rightarrow> unat (pi_N o') - th_i th + 2 | ThrStore \<Rightarrow> 1 | ThrDone \<Rightarrow> 0)"

lemma calcpi_int_progress:
  assumes "calcpi_int o' th p = Inr (th', p')" "th_pc th \<noteq> ThrDone"
  shows "steps_left o' th' < steps_left o' th"
  using assms by (auto simp: calcpi_int_def steps_left_def split: thread_pc.splits fcell.splits if_splits prod.splits)

section \<open>All schedules\<close>

definition created :: "int \<Rightarrow> int \<Rightarrow> pi_state \<Rightarrow> nat \<Rightarrow> bool" where
  "created lo hi s j \<longleftrightarrow> lo \<le> int j \<and> int j < (case ps_main s of Creating t \<Rightarrow> t | _ \<Rightarrow> hi)"

definition threads_inv :: "pi_opts \<Rightarrow> (nat \<Rightarrow> u32) \<Rightarrow> int \<Rightarrow> int \<Rightarrow> pi_state \<Rightarrow> bool" where
  "threads_inv o' seeds lo hi s \<longleftrightarrow> length (ps_data s) = 128 \<and> length (ps_thr s) = 128 \<and>
     (\<forall>j<128. if created lo hi s j then \<exists>th. ps_thr s ! j = Some th \<and> thread_ok o' (seeds j) j th (ps_data s ! j) else ps_thr s ! j = None) \<and>
     (case ps_main s of
        Creating t \<Rightarrow> lo \<le> t \<and> t \<le> hi
      | Joining t \<Rightarrow> lo \<le> t \<and> t \<le> hi \<and> (\<forall>j. lo \<le> int j \<and> int j < t \<longrightarrow> th_pc (the (ps_thr s ! j)) = ThrDone)
      | Joined \<Rightarrow> \<forall>j. lo \<le> int j \<and> int j < hi \<longrightarrow> th_pc (the (ps_thr s ! j)) = ThrDone)"

lemma threads_inv_start: "lo \<le> hi \<Longrightarrow> threads_inv o' seeds lo hi (threads_start lo)"
  by (auto simp: threads_inv_def threads_start_def created_def)

lemma threads_inv_created:
  assumes "threads_inv o' seeds lo hi s" "j < 128" "created lo hi s j"
  obtains th where "ps_thr s ! j = Some th" "thread_ok o' (seeds j) j th (ps_data s ! j)"
proof -
  from assms(1) have "\<forall>j<128. if created lo hi s j then \<exists>th. ps_thr s ! j = Some th \<and> thread_ok o' (seeds j) j th (ps_data s ! j) else ps_thr s ! j = None"
    unfolding threads_inv_def by blast
  with assms(2,3) have "\<exists>th. ps_thr s ! j = Some th \<and> thread_ok o' (seeds j) j th (ps_data s ! j)" by presburger
  with that show thesis by blast
qed

lemma thread_step_inv:
  assumes i: "threads_inv o' seeds lo hi s"
  shows "\<exists>s'. thread_step o' t s = Inr s' \<and> threads_inv o' seeds lo hi s' \<and> ps_main s' = ps_main s"
proof (cases "t < 128 \<and> created lo hi s t")
  case True
  then obtain th where th: "ps_thr s ! t = Some th" "thread_ok o' (seeds t) t th (ps_data s ! t)" using threads_inv_created [OF i] by blast
  obtain th' p' where c: "calcpi_int o' th (ps_data s ! t) = Inr (th', p')" "thread_ok o' (seeds t) t th' p'"
    using calcpi_int_ok [OF th(2)] by blast
  let ?s = "s\<lparr>ps_thr := (ps_thr s)[t := Some th'], ps_data := (ps_data s)[t := p']\<rparr>"
  have l: "length (ps_thr s) = 128" "length (ps_data s) = 128" using i by (simp_all add: threads_inv_def)
  have d: "th_pc th = ThrDone \<Longrightarrow> th_pc th' = ThrDone" using c(1) by (auto simp: calcpi_int_def)
  have "created lo hi ?s j = created lo hi s j" for j by (simp add: created_def)
  then have "threads_inv o' seeds lo hi ?s"
    using i True th(1) c(2) d l by (auto simp: threads_inv_def nth_list_update split: main_pc.splits)
  moreover have "thread_step o' t s = Inr ?s" using True th(1) c(1) l by (simp add: thread_step_def)
  ultimately show ?thesis by (intro exI [of _ ?s]) simp
next
  case False
  then have "thread_step o' t s = Inr s" using i by (auto simp: thread_step_def threads_inv_def)
  with i show ?thesis by simp
qed

lemma main_step_inv:
  assumes i: "threads_inv o' seeds lo hi s" and b: "0 \<le> lo" "hi \<le> 128" and c: "\<forall>t. creates t = 0"
  shows "\<exists>s'. main_step creates seeds lo hi s = Inr s' \<and> threads_inv o' seeds lo hi s'"
proof (cases "ps_main s")
  case (Creating t)
  show ?thesis
  proof (cases "t < hi")
    case True
    have t: "lo \<le> t" "0 \<le> t" "t < 128" using i b True by (auto simp: threads_inv_def Creating)
    let ?s = "s\<lparr>ps_data := (ps_data s)[nat t := FNum (nat t)], ps_main := Creating (t + 1), ps_thr := (ps_thr s)[nat t := Some (new_thread (seeds (nat t)))]\<rparr>"
    have cr: "created lo hi ?s j \<longleftrightarrow> created lo hi s j \<or> j = nat t" for j
      using t by (auto simp: created_def Creating)
    have "threads_inv o' seeds lo hi ?s"
      using i t True new_thread_ok by (auto simp: threads_inv_def cr nth_list_update Creating)
    then show ?thesis using t True by (simp add: main_step_def Creating create_step_def c Let_def)
  next
    case False
    then have "t = hi" "lo \<le> hi" using i by (auto simp: threads_inv_def Creating)
    then have "threads_inv o' seeds lo hi (s\<lparr>ps_main := Joining lo\<rparr>)"
      using i by (auto simp: threads_inv_def created_def Creating)
    then show ?thesis using False by (simp add: main_step_def Creating)
  qed
next
  case (Joining t)
  show ?thesis
  proof (cases "t < hi")
    case True
    then have "created lo hi s (nat t)" "nat t < 128" using i b by (auto simp: threads_inv_def created_def Joining)
    then obtain th where th: "ps_thr s ! nat t = Some th" using threads_inv_created [OF i] by blast
    have "threads_inv o' seeds lo hi (s\<lparr>ps_main := Joining (t + 1)\<rparr>)" if "th_pc th = ThrDone"
    proof -
      have "th_pc (the (ps_thr s ! j)) = ThrDone" if "lo \<le> int j" "int j < t + 1" for j
        using that i th \<open>th_pc th = ThrDone\<close> by (cases "int j = t") (auto simp: threads_inv_def Joining)
      then show ?thesis using i True by (auto simp: threads_inv_def created_def Joining)
    qed
    then show ?thesis using True th i by (auto simp: main_step_def Joining)
  next
    case False
    then have "threads_inv o' seeds lo hi (s\<lparr>ps_main := Joined\<rparr>)"
      using i by (auto simp: threads_inv_def created_def Joining)
    then show ?thesis using False by (simp add: main_step_def Joining)
  qed
next
  case Joined
  then show ?thesis using i by (simp add: main_step_def)
qed

lemma run_threads_inv:
  assumes "threads_inv o' seeds lo hi s" "0 \<le> lo" "hi \<le> 128" "\<forall>t. creates t = 0"
  shows "\<exists>s'. run_threads o' creates seeds lo hi cs s = Inr s' \<and> threads_inv o' seeds lo hi s'"
  using assms(1)
proof (induction cs arbitrary: s)
  case (Cons c cs)
  obtain s' where "(case c of None \<Rightarrow> main_step creates seeds lo hi s | Some t \<Rightarrow> thread_step o' t s) = Inr s'" "threads_inv o' seeds lo hi s'"
    using main_step_inv [OF Cons.prems assms(2-4)] thread_step_inv [OF Cons.prems] by (cases c) auto
  then show ?case using Cons.IH [of s'] by simp
qed simp

lemma run_threads_append:
  "run_threads o' creates seeds lo hi (xs @ ys) s =
     (case run_threads o' creates seeds lo hi xs s of Inl e \<Rightarrow> Inl e | Inr s' \<Rightarrow> run_threads o' creates seeds lo hi ys s')"
  by (induction xs arbitrary: s) (auto split: sum.splits)

section \<open>Every schedule can be completed\<close>

definition thr_left :: "pi_opts \<Rightarrow> thr option \<Rightarrow> nat" where
  "thr_left o' x = (case x of None \<Rightarrow> 0 | Some th \<Rightarrow> steps_left o' th)"

definition work_left :: "pi_opts \<Rightarrow> int \<Rightarrow> int \<Rightarrow> pi_state \<Rightarrow> nat" where
  "work_left o' lo hi s = sum_list (map (thr_left o') (ps_thr s)) +
     (case ps_main s of
        Creating t \<Rightarrow> nat (hi - t) * (unat (pi_N o') + 4) + nat (hi - lo) + 2
      | Joining t \<Rightarrow> nat (hi - t) + 1
      | Joined \<Rightarrow> 0)"

lemma thr_left_update:
  "t < length xs \<Longrightarrow> sum_list (map (thr_left o') (xs[t := x])) + thr_left o' (xs ! t) = sum_list (map (thr_left o') xs) + thr_left o' x"
  using member_le_sum_list [of "map (thr_left o') xs ! t" "map (thr_left o') xs"] by (simp add: map_update sum_list_update)

lemma some_step_works:
  assumes i: "threads_inv o' seeds lo hi s" and b: "0 \<le> lo" "hi \<le> 128" and c: "\<forall>t. creates t = 0" and n: "ps_main s \<noteq> Joined"
  shows "\<exists>c s'. run_threads o' creates seeds lo hi [c] s = Inr s' \<and> work_left o' lo hi s' < work_left o' lo hi s"
proof (cases "ps_main s")
  case (Creating t)
  show ?thesis
  proof (cases "t < hi")
    case True
    have t: "lo \<le> t" "0 \<le> t" "t < 128" using i b True by (auto simp: threads_inv_def Creating)
    have "\<not> created lo hi s (nat t)" using t by (simp add: created_def Creating)
    moreover have "\<forall>j<128. if created lo hi s j then \<exists>th. ps_thr s ! j = Some th \<and> thread_ok o' (seeds j) j th (ps_data s ! j) else ps_thr s ! j = None"
      using i unfolding threads_inv_def by blast
    ultimately have none: "ps_thr s ! nat t = None" using t by (metis nat_less_iff of_nat_numeral)
    have l: "length (ps_thr s) = 128" using i by (simp add: threads_inv_def)
    let ?n = "Some (new_thread (seeds (nat t)))"
    have "sum_list (map (thr_left o') ((ps_thr s)[nat t := ?n])) = sum_list (map (thr_left o') (ps_thr s)) + (unat (pi_N o') + 3)"
      using thr_left_update [of "nat t" "ps_thr s" o' ?n] t l none by (simp add: thr_left_def steps_left_def new_thread_def)
    moreover have "nat (hi - t) = Suc (nat (hi - (t + 1)))" using True by simp
    ultimately show ?thesis
      using t True by (intro exI [of _ None]) (simp add: main_step_def Creating create_step_def c Let_def work_left_def)
  next
    case False
    then show ?thesis by (intro exI [of _ None]) (simp add: main_step_def Creating work_left_def)
  qed
next
  case (Joining t)
  show ?thesis
  proof (cases "t < hi")
    case True
    then have cr: "created lo hi s (nat t)" "nat t < 128" using i b by (auto simp: threads_inv_def created_def Joining)
    obtain th where th: "ps_thr s ! nat t = Some th" "thread_ok o' (seeds (nat t)) (nat t) th (ps_data s ! nat t)"
      using threads_inv_created [OF i cr(2,1)] .
    show ?thesis
    proof (cases "th_pc th = ThrDone")
      case fin: True
      then show ?thesis using True th by (intro exI [of _ None]) (simp add: main_step_def Joining work_left_def)
    next
      case False
      obtain th' p' where c': "calcpi_int o' th (ps_data s ! nat t) = Inr (th', p')" using calcpi_int_ok [OF th(2)] by blast
      have l: "nat t < length (ps_thr s)" using i cr(2) by (simp add: threads_inv_def)
      have "steps_left o' th' < steps_left o' th" by (rule calcpi_int_progress [OF c' False])
      then have "sum_list (map (thr_left o') ((ps_thr s)[nat t := Some th'])) < sum_list (map (thr_left o') (ps_thr s))"
        using thr_left_update [OF l, of o' "Some th'"] th(1) by (simp add: thr_left_def)
      then show ?thesis using th(1) c' l by (intro exI [of _ "Some (nat t)"]) (simp add: thread_step_def work_left_def)
    qed
  next
    case False
    then show ?thesis by (intro exI [of _ None]) (simp add: main_step_def Joining work_left_def)
  qed
qed (use n in simp)

lemma schedule_completes:
  assumes "threads_inv o' seeds lo hi s" "0 \<le> lo" "hi \<le> 128" "\<forall>t. creates t = 0"
  shows "\<exists>cs s'. run_threads o' creates seeds lo hi cs s = Inr s' \<and> ps_main s' = Joined"
  using assms(1)
proof (induction "work_left o' lo hi s" arbitrary: s rule: less_induct)
  case less
  show ?case
  proof (cases "ps_main s = Joined")
    case True
    then show ?thesis by (intro exI [of _ "[]"]) simp
  next
    case False
    obtain c s' where s': "run_threads o' creates seeds lo hi [c] s = Inr s'" "work_left o' lo hi s' < work_left o' lo hi s"
      using some_step_works [OF less.prems assms(2-4) False] by blast
    moreover have "threads_inv o' seeds lo hi s'" using run_threads_inv [OF less.prems assms(2-4), of "[c]"] s'(1) by auto
    ultimately obtain cs t where "run_threads o' creates seeds lo hi cs s' = Inr t" "ps_main t = Joined" using less.hyps by blast
    then show ?thesis using s'(1) run_threads_append [of o' creates seeds lo hi "[c]" cs s] by (intro exI [of _ "c # cs"]) auto
  qed
qed

text \<open>
  C20. With 1 to 128 threads that can all be created, whatever the order in which the threads run: nothing faults, \<open>calcpi\<close> returns the estimate that the
  first thread makes from its own seed or has not returned yet, and every schedule can be continued so that it returns.
\<close>

theorem estimate_is_schedule_independent:
  assumes "0 < Thr o'" "Thr o' \<le> 128" "\<forall>t. creates t = 0"
  shows "calcpi o' creates seeds sched \<in> {Inr None, Inr (Some (fst (draws (seeds 0) (unat (pi_N o'))), unat (pi_N o')))} \<and>
    (\<exists>more. calcpi o' creates seeds (sched @ more) = Inr (Some (fst (draws (seeds 0) (unat (pi_N o'))), unat (pi_N o'))))"
proof -
  let ?run = "\<lambda>cs. run_threads o' creates seeds 0 (Thr o') cs (threads_start 0)"
  let ?v = "(fst (draws (seeds 0) (unat (pi_N o'))), unat (pi_N o'))"
  have i0: "threads_inv o' seeds 0 (Thr o') (threads_start 0)" using assms(1) by (intro threads_inv_start) simp
  have joined: "calcpi o' creates seeds cs = Inr (Some ?v)" if h: "?run cs = Inr s" "threads_inv o' seeds 0 (Thr o') s" "ps_main s = Joined" for cs s
  proof -
    have c: "created 0 (Thr o') s 0" using assms(1) h(3) by (simp add: created_def)
    obtain th where th: "ps_thr s ! 0 = Some th" "thread_ok o' (seeds 0) 0 th (ps_data s ! 0)"
      using threads_inv_created [OF h(2) zero_less_numeral c] .
    have "\<forall>j. 0 \<le> int j \<and> int j < Thr o' \<longrightarrow> th_pc (the (ps_thr s ! j)) = ThrDone" using h(2,3) by (simp add: threads_inv_def)
    from spec [OF this, of 0] have "th_pc th = ThrDone" using th(1) assms(1) by simp
    then have "ps_data s ! 0 = FPi (fst ?v) (snd ?v)" using th(2) by (simp add: thread_ok_def)
    then show ?thesis using h by (simp add: calcpi_def)
  qed
  obtain s where s: "?run sched = Inr s" "threads_inv o' seeds 0 (Thr o') s" using run_threads_inv [OF i0 _ assms(2,3)] by auto
  obtain more t where t: "run_threads o' creates seeds 0 (Thr o') more s = Inr t" "ps_main t = Joined"
    using schedule_completes [OF s(2) _ assms(2,3)] by auto
  have "?run (sched @ more) = Inr t" using s(1) t(1) by (simp add: run_threads_append)
  moreover have "threads_inv o' seeds 0 (Thr o') t" using run_threads_inv [OF s(2) _ assms(2,3), of more] t(1) by auto
  ultimately have "calcpi o' creates seeds (sched @ more) = Inr (Some ?v)" using t(2) by (intro joined) auto
  moreover have "calcpi o' creates seeds sched = Inr None \<or> calcpi o' creates seeds sched = Inr (Some ?v)"
    using joined [OF s] s(1) by (cases "ps_main s = Joined") (simp_all add: calcpi_def)
  ultimately show ?thesis by blast
qed

theorem estimate_is_schedule_independent_witness:
  "calcpi (pi_defaults\<lparr>Thr := 2, pi_N := 3\<rparr>) (\<lambda>_. 0) of_nat [None, Some 1, None, Some 0] = Inr None \<and>
   (\<exists>more. calcpi (pi_defaults\<lparr>Thr := 2, pi_N := 3\<rparr>) (\<lambda>_. 0) of_nat ([None, Some 1, None, Some 0] @ more) = Inr (Some (3, 3)))"
proof -
  let ?o = "pi_defaults\<lparr>Thr := 2, pi_N := 3\<rparr>"
  have "fst (draws (of_nat 0) (unat (pi_N ?o))) = 3 \<and> unat (pi_N ?o) = 3" by code_simp
  moreover have "calcpi ?o (\<lambda>_. 0) of_nat [None, Some 1, None, Some 0] = Inr None" by code_simp
  ultimately show ?thesis
    using estimate_is_schedule_independent [of ?o "\<lambda>_. 0" of_nat "[None, Some 1, None, Some 0]"] by (simp add: pi_defaults_def)
qed

section \<open>Affinity\<close>

text \<open>
  C27. With \<open>-a\<close>, a thread takes the bits of the \<open>float\<close> with its number for that number: the first thread gets CPU 0, and every other thread
  asks for an empty set of CPUs, which the kernel refuses.
\<close>

theorem affinity_is_lost:
  assumes "Affin o'" "t < 128"
  shows "\<exists>th. calcpi_int o' (new_thread seed) (FNum t) = Inr (th, FNum t) \<and> th_mask th = Some (if t = 0 then [0] else [])"
proof -
  have "1024 \<le> float_bits t" if "t \<noteq> 0"
  proof -
    have "1024 \<le> (127 + log2n t) * 2 ^ 23 + (t - 2 ^ log2n t) * 2 ^ (23 - log2n t)" by (simp add: trans_le_add1)
    then show ?thesis using that unfolding float_bits_def by (simp only: if_False)
  qed
  then show ?thesis using assms(1) by (auto simp: calcpi_int_def new_thread_def CPU_SET_def float_bits_def)
qed

theorem affinity_is_lost_witness:
  "\<exists>th. calcpi_int (pi_defaults\<lparr>Affin := True\<rparr>) (new_thread 7) (FNum 3) = Inr (th, FNum 3) \<and> th_mask th = Some [] \<and> float_bits 3 = 0x40400000"
proof -
  have "float_bits 3 = (127 + log2n 3) * 2 ^ 23 + (3 - 2 ^ log2n 3) * 2 ^ (23 - log2n 3)" by (simp add: float_bits_def)
  moreover have "log2n 3 = 1" by code_simp
  ultimately have "float_bits 3 = 0x40400000" by simp
  then show ?thesis using affinity_is_lost [of "pi_defaults\<lparr>Affin := True\<rparr>" 3 7] by auto
qed

end
