(* ===== verification/Spec2Isabelle.thy ===== *)
theory Spec2Isabelle
  imports Ipmi_Helper Lan_Lifecycle Fru_Device Hogs Wattsup_Program Lanplus_Sol Sdr_Files Sdr_Value Sel_Oem Hpm_Faults Tstat_Dump Calcpi_Threads
begin

text \<open>
  A verification development for memrec, a collection of tools that record the use of memory, CPU and power of a computer: load generators
  (\<open>memhog/\<close>, \<open>iohog/\<close>, \<open>calcpi/\<close>), a reader for the Watts Up? power meter (\<open>src/wattsup/\<close>), turbostat and a dump tool for the counters of a processor (\<open>src/tstat/\<close>), and ipmitool 1.8.9 (\<open>src/ipmitool-1.8.9/\<close>), which
  reads sensors and inventory of a board management controller (BMC) over the network. All paths are below \<open>src/\<close>.

  \<^bold>\<open>The program.\<close> An ipmitool command builds a request and calls \<open>intf->sendrecv\<close>. In the LAN interface (\<open>plugins/lan/lan.c\<close>) that is
  \<open>ipmi_lan_send_cmd\<close>, which opens a session when there is none, puts the request into a packet, remembers it in a linked list, sends it with retries and matches what is
  received against the list. The packets are authenticated (\<open>auth.c\<close>, \<open>md5.c\<close>). The RMCP+ interface (\<open>plugins/lanplus/\<close>) does the same with a key exchange,
  integrity codes, encryption and serial over LAN. The commands for the FRU inventory (\<open>lib/ipmi_fru.c\<close>), the sensor data repository
  (\<open>lib/ipmi_sdr.c\<close>), the system event log (\<open>lib/ipmi_sel.c\<close>) and the firmware upgrade after HPM.1 (\<open>lib/ipmi_hpmfwupg.c\<close>) are built on the interface and do not know
  which one it is. The other tools are single programs.

  \<^bold>\<open>Vocabulary.\<close> \<open>Prelude\<close> has the machine integers, the faults (access outside an object, null and freed pointers, failed assertions, a loop that does not return) and
  the monad \<open>machine\<close> of state and faults with its rules for safety (\<open>mkeeps\<close>, \<open>keeps_intros\<close>) and evaluation (\<open>machine_simps\<close>). \<open>Libc\<close> has the
  parts of the C library that the tools use. What the environment answers (sockets, \<open>malloc\<close>, the serial line, random numbers) is a script, a field of
  the state, so that theorems hold for every script. A script is finite; where the code waits for the environment without a limit, the state also says what is answered for ever after the script
  (\<open>l_send_up\<close> for \<open>send\<close>, \<open>w_repeat\<close> for the meter), and theorems about the end of such a loop name the condition.

  \<^bold>\<open>Theories and sources.\<close>
  \<^item> \<open>Ipmi_Helper\<close>: \<open>lib/helper.c\<close>. \<open>Ipmi_Intf\<close>: sessions and their setters (\<open>ipmi_intf.c\<close>, \<open>ipmi_intf.h\<close>), \<open>lib/ipmi_oem.c\<close>.
  \<^item> \<open>Md5\<close>, \<open>Lan_Auth\<close>: \<open>md5.c\<close>, proved equal to a reference digest for every split of the message, and \<open>auth.c\<close>.
  \<^item> \<open>Lan_Queue\<close>: the list of requests on an explicit heap; it implements an abstract list. The locale \<open>request_list\<close> is its contract with the
    sending code, interpreted as \<open>lan_list\<close>.
  \<^item> \<open>Lan_Packet\<close>, \<open>Lan\<close>, \<open>Lan_Session\<close>: packets, sending and receiving, session commands, opening and closing of \<open>lan.c\<close>. \<open>Lan_Safety\<close> and
    \<open>Lan_Behaviour\<close> prove what a transmission does; \<open>Lan_Lifecycle\<close> proves what holds for every sequence of operations, over
    the locale \<open>lan_transport\<close> (interpreted as \<open>lan_net\<close>). The safety of the interface is proved for datagrams that do not fill the buffer, host names that fit into their array and a \<open>send\<close> that does
    not fail for ever (\<open>env_ok\<close>, \<open>op_ok\<close>); theorems beside it show an overflow, an over-read and an endless loop without these conditions.
  \<^item> \<open>Lanplus_Crypt\<close>, \<open>Lanplus_Packet\<close>, \<open>Lanplus\<close>, \<open>Lanplus_Session\<close>: \<open>lanplus_crypt.c\<close>, \<open>lanplus_crypt_impl.c\<close> and \<open>lanplus.c\<close>. The
    primitives of OpenSSL are the record \<open>openssl\<close>, what is documented about them is \<open>openssl_ok\<close>. \<open>Lanplus_Wire\<close> (round trip, bounds and integrity
    of packets), \<open>Lanplus_Frame\<close>, \<open>Lanplus_Handshake\<close> (the key exchange authenticates the BMC) and \<open>Lanplus_Sol\<close> (lost messages, serial over LAN) are the proofs.
  \<^item> \<open>Ipmi_Cmd\<close>: the locale \<open>transport\<close>, what a command relies on when it sends requests; its interpretation \<open>lan_cmd\<close> is the LAN interface with its sessions.
  \<^item> \<open>Fru_Text\<close>, \<open>Fru\<close>, \<open>Fru_Device\<close>: text fields and areas, reading and writing, and their correctness on a device that follows the specification and is accessed by bytes; with
    access by words reading leaves its buffer.
  \<^item> \<open>Sdr\<close>: reading of records in parts under a reservation, the cache, lookups and files of \<open>lib/ipmi_sdr.c\<close>. \<open>Sdr_Repository\<close> and \<open>Sdr_Lookup\<close> prove that on a BMC that follows
    the specification lookups in any order answer from the whole repository; \<open>Sdr_Files\<close> has the round trip through a file and the behaviour with a BMC that
    does not follow it. \<open>Sdr_Value\<close>: the conversion of readings.
  \<^item> \<open>Sel_Tables\<close>, \<open>Sel\<close>, \<open>Sel_Commands\<close>: the tables, descriptions and commands of the system event log (\<open>lib/ipmi_sel.c\<close>, \<open>ipmi_sel.h\<close>). \<open>Sel_Print\<close> gives the
    text of an entry as a function; \<open>Sel_Log\<close> proves that a listing shows the log, \<open>Sel_Files\<close> that what is saved can be read back, \<open>Sel_Oem\<close> how
    message files are loaded and which inputs the code does not stand.
  \<^item> \<open>Hpm\<close>, \<open>Hpm_Upgrade\<close>: all of \<open>lib/ipmi_hpmfwupg.c\<close>: sending with its timeouts and the commands, then the image and the stages of an upgrade. \<open>Hpm_Device\<close> says what an
    upgrade image is and what a target that follows the specification does (\<open>hpm_target_ok\<close>), \<open>Hpm_Delivery\<close> proves that the upgrade brings every
    action of an image to such a target, \<open>Hpm_Faults\<close> what happens with damaged images, unfit targets and targets that are busy or lost.
  \<^item> \<open>Wattsup\<close>, \<open>Wattsup_Packet\<close>, \<open>Wattsup_Meter\<close>, \<open>Wattsup_Program\<close>: \<open>wattsup.c\<close>, its packets, its data loop, which ends with a limit of records or when
    the meter falls silent and otherwise goes on, and the whole program.
  \<^item> \<open>Tstat\<close>: \<open>turbostat.c\<close> and what \<open>dump_tstat.c\<close> changes in it, on a monad of its own in which the program may end anywhere. \<open>Tstat_Topology\<close>: scanning of
    \<open>/proc/stat\<close>, the sorted lists of counters, the locale \<open>cpu_visitor\<close> (interpreted for both functions that \<open>for_all_cpus\<close> is given). \<open>Tstat_Interval\<close>:
    the tables of the whole program and the residencies. \<open>Tstat_Dump\<close>: the dump tool, with and without the right to open the registers.
  \<^item> \<open>Hogs\<close>: the four memory hogs and the I/O hog. \<open>Calcpi\<close>: \<open>calcpi.c\<close>, its threads as steps of a schedule; \<open>Calcpi_Threads\<close>: what holds for every schedule.

  \<^bold>\<open>Bounds and fuel.\<close> A loop whose end depends on the environment takes its fuel from the environment's scripts or from a field of the state (\<open>d_turns\<close> of the
  repository and the event log, \<open>hp_turns\<close> of the firmware upgrade, the number of turns of \<open>turbostat_loop\<close>, which has no end, the scripts of \<open>select\<close>, \<open>recv\<close>, \<open>send\<close> and \<open>malloc\<close>, the limit of records of the meter); spent fuel is the fault \<open>NoReturn\<close>. The theorems that say that an operation returns show that this fault does not
  occur with the fuel stated in them; where the code can loop for ever, a theorem shows that for every amount of fuel.

  \<^bold>\<open>Not modelled.\<close> Log output, waiting and signals; the local interfaces (calls into kernel drivers); the listing of sensors; the commands
  that only print or set parameters (LAN, user, channel, PICMG, the vendors' own firmware commands of \<open>lib/ipmi_fwum.c\<close>); the console of serial over LAN; the option parsing of ipmitool; floating-point rounding; the
  shell and Perl scripts.
\<close>

end
